(* ===== verification/Prelude.thy ===== *)
theory Prelude
  imports Main "HOL-Library.AList"
begin

text \<open>
  Shared vocabulary of the development: the theorem collections, the JavaScript library functions
  that the modelled sources call (string trimming, lower-casing, number formatting, truthiness of
  strings, insertion-ordered maps), and generic lemmas on lists.

  Strings are \<open>char list\<close>s: a character stands for one UTF-16 code unit below 256, which is all the
  identifiers, enum members and environment values of the modelled modules consist of. Components
  that look at arbitrary code units (the ring buffer, the chunker) use lists of numbers instead.
  JavaScript numbers that the code uses as integers (epoch milliseconds, counters, generations) are
  \<open>int\<close>, so that a subtraction below zero is what it is in the source.
\<close>

named_theorems js_simps \<open>unfolding rules of the JavaScript library functions\<close>

type_synonym ident = string
type_synonym ms = int

section \<open>Strings\<close>

text \<open>White space as \<open>String.prototype.trim\<close> sees it, below code unit 256.\<close>

definition js_space :: "char \<Rightarrow> bool" where
  "js_space c \<longleftrightarrow> of_char c \<in> {9, 10, 11, 12, 13, 32, 160 :: nat}"

definition js_trim :: "string \<Rightarrow> string" where
  "js_trim s = rev (dropWhile js_space (rev (dropWhile js_space s)))"

text \<open>A string is truthy when it is present and not empty.\<close>

definition truthy :: "string option \<Rightarrow> bool" where
  "truthy x \<longleftrightarrow> (case x of None \<Rightarrow> False | Some s \<Rightarrow> s \<noteq> [])"

lemma truthy_simps [simp]: "\<not> truthy None" "truthy (Some s) \<longleftrightarrow> s \<noteq> []"
  by (simp_all add: truthy_def)

text \<open>\<open>String.prototype.toLowerCase\<close> below code unit 256.\<close>

definition js_lower_char :: "char \<Rightarrow> char" where
  "js_lower_char c =
     (let n = of_char c :: nat
      in if 65 \<le> n \<and> n \<le> 90 \<or> 192 \<le> n \<and> n \<le> 222 \<and> n \<noteq> 215 then char_of (n + 32) else c)"

definition js_lower :: "string \<Rightarrow> string" where
  "js_lower = map js_lower_char"

text \<open>Decimal notation of an integer, as template literals print it.\<close>

fun digits :: "nat \<Rightarrow> string" where
  "digits n = (if n < 10 then [char_of (48 + n)] else digits (n div 10) @ [char_of (48 + n mod 10)])"

declare digits.simps [simp del]

definition js_int :: "int \<Rightarrow> string" where
  "js_int i = (if i < 0 then CHR ''-'' # digits (nat (- i)) else digits (nat i))"

lemma digits_nonempty [simp]: "digits n \<noteq> []"
  by (subst digits.simps) simp

lemma js_int_nonempty [simp]: "js_int i \<noteq> []"
  by (simp add: js_int_def)

text \<open>The shortest prefix test of \<open>String.prototype.startsWith\<close>.\<close>

definition starts_with :: "'a list \<Rightarrow> 'a list \<Rightarrow> bool" where
  "starts_with p s \<longleftrightarrow> take (length p) s = p"

lemma starts_with_append: "starts_with p s \<longleftrightarrow> (\<exists>r. s = p @ r)"
  unfolding starts_with_def by (metis append_eq_conv_conj append_take_drop_id)

section \<open>Insertion-ordered maps\<close>

text \<open>
  A JavaScript \<open>Map\<close> is an association list: \<open>set\<close> replaces the value of a present key in place and
  appends a new one, \<open>delete\<close> removes the key. These are \<open>AList.update\<close> and \<open>AList.delete\<close>. What
  clients rely on is stated once as a locale and discharged for the association lists.
\<close>

locale keyed_store =
  fixes empty :: "'m"
    and get :: "'m \<Rightarrow> 'k \<Rightarrow> 'v option"
    and put :: "'k \<Rightarrow> 'v \<Rightarrow> 'm \<Rightarrow> 'm"
    and del :: "'k \<Rightarrow> 'm \<Rightarrow> 'm"
    and keys :: "'m \<Rightarrow> 'k list"
    and ok :: "'m \<Rightarrow> bool"
  assumes get_empty: "get empty k = None"
    and get_put: "get (put k v m) k' = (if k' = k then Some v else get m k')"
    and get_del: "get (del k m) k' = (if k' = k then None else get m k')"
    and keys_get: "set (keys m) = {k. get m k \<noteq> None}"
    and ok_empty: "ok empty"
    and ok_put: "ok m \<Longrightarrow> ok (put k v m)"
    and ok_del: "ok m \<Longrightarrow> ok (del k m)"
    and ok_keys: "ok m \<Longrightarrow> distinct (keys m)"
    and put_present: "get m k \<noteq> None \<Longrightarrow> keys (put k v m) = keys m"
    and put_absent: "get m k = None \<Longrightarrow> keys (put k v m) = keys m @ [k]"
begin

text \<open>Storing twice under one key keeps the later value and one entry.\<close>

lemma get_put_put: "get (put k v (put k w m)) k' = get (put k v m) k'"
  by (simp add: get_put)

lemma put_del_keys: "set (keys (put k v (del k m))) = insert k (set (keys m))"
  by (auto simp: keys_get get_put get_del)

text \<open>A run of stores keeps the store well formed and leaves the untouched keys alone.\<close>

lemma fold_put_ok: "ok m \<Longrightarrow> ok (fold (\<lambda>(k, v). put k v) kvs m)"
  by (induction kvs arbitrary: m) (auto intro: ok_put)

lemma fold_put_other:
  "k \<notin> fst ` set kvs \<Longrightarrow> get (fold (\<lambda>(k, v). put k v) kvs m) k = get m k"
  by (induction kvs arbitrary: m) (auto simp: get_put)

lemma length_keys_put: "length (keys (put k v m)) \<le> Suc (length (keys m))"
  by (cases "get m k") (simp_all add: put_present put_absent)

end

lemma map_of_js_delete: "map_of (AList.delete k xs) k' = (if k' = k then None else map_of xs k')"
  by (simp add: delete_conv)

interpretation js_map: keyed_store
  "[]" map_of AList.update AList.delete "map fst" "\<lambda>xs. distinct (map fst xs)"
proof
  fix m :: "('a \<times> 'b) list" and k v
  show "map_of m k \<noteq> None \<Longrightarrow> map fst (AList.update k v m) = map fst m"
    by (induction m) auto
  show "map_of m k = None \<Longrightarrow> map fst (AList.update k v m) = map fst m @ [k]"
    by (induction m) (auto split: if_splits)
  show "distinct (map fst m) \<Longrightarrow> distinct (map fst (AList.delete k m))"
    by (rule distinct_delete)
qed (auto simp: update_conv map_of_js_delete distinct_update dom_map_of_conv_image_fst
    map_of_eq_None_iff image_iff)

section \<open>Lists\<close>

lemma foldl_invariant:
  assumes "P a" and "\<And>x a. x \<in> set xs \<Longrightarrow> P a \<Longrightarrow> P (f a x)"
  shows "P (foldl f a xs)"
  using assms by (induction xs arbitrary: a) auto

lemma length_filter_le_1I:
  "(\<And>i j. i < j \<Longrightarrow> j < length xs \<Longrightarrow> \<not> (P (xs ! i) \<and> P (xs ! j))) \<Longrightarrow> length (filter P xs) \<le> 1"
proof (induction xs)
  case (Cons x xs)
  show ?case
  proof (cases "P x")
    case True
    have "\<not> P y" if "y \<in> set xs" for y
    proof -
      from that obtain j where "j < length xs" "xs ! j = y" by (auto simp: in_set_conv_nth)
      with True Cons.prems[of 0 "Suc j"] show ?thesis by simp
    qed
    then have "filter P xs = []" by (simp add: filter_empty_conv)
    with True show ?thesis by simp
  next
    case False
    have "length (filter P xs) \<le> 1"
    proof (rule Cons.IH)
      fix i j :: nat
      assume "i < j" "j < length xs"
      then show "\<not> (P (xs ! i) \<and> P (xs ! j))" using Cons.prems[of "Suc i" "Suc j"] by simp
    qed
    with False show ?thesis by simp
  qed
qed simp

end
