(* ===== verification/TurnTypes.thy ===== *)
theory TurnTypes
  imports Prelude
begin

text \<open>
  The data of the turn ledger: the closed vocabularies and evidence records of
  \<open>mesh-shared/src/turn-evidence.ts\<close>, and the attempt, hold and effect shapes of
  \<open>daemon-core/src/mesh/turn-ledger/types.ts\<close>. Enum members keep the source's spelling behind a
  short prefix. An optional field is an \<open>option\<close>; an optional boolean flag, which the code only ever
  tests for truth, is a \<open>bool\<close> whose absence is \<open>False\<close>.
\<close>

section \<open>Closed vocabularies\<close>

datatype evidence_source_id =
    Src_fsm_edge | Src_short_gen_inline | Src_completion_flush_genuine | Src_completion_flush_weak
  | Src_monitor_final_summary | Src_pre_cleanup_transcript | Src_stall_transcript
  | Src_startup_grace_collapse | Src_acp_prompt_response | Src_cdp_state | Src_approval_gate
  | Src_modal_button | Src_mesh_stall_watchdog | Src_status_monitor | Src_pty_exit
  | Src_provider_error | Src_coordinator_probe | Src_mcp_probe | Src_worker_tool | Src_dispatch
  | Src_input_service | Src_operator | Src_intentional_cleanup | Src_scheduler | Src_git_probe
  | Src_session_registry

datatype turn_scope = Mesh_queue | Mesh_direct | Plain

datatype send_refusal =
    Ref_not_ready | Ref_send_in_flight | Ref_not_generating | Ref_not_supported
  | Ref_platform_unsupported | Ref_modal_parked | Ref_interrupt_not_implemented
  | Ref_interrupt_refused | Ref_idle_timeout | Ref_session_exited | Ref_unsupported_input
  | Ref_no_target | Ref_bootstrap_pending | Ref_duplicate_dispatch | Ref_new_work_held
  | Ref_internal_error

definition RECLAIMING_SEND_REFUSALS :: "send_refusal list" where
  "RECLAIMING_SEND_REFUSALS = [Ref_session_exited, Ref_no_target, Ref_unsupported_input]"

datatype delivery_outcome = DO_delivered | DO_queued
datatype delivery_via = Via_local | Via_p2p

datatype dispatch_failure_reason =
    DF_worker_absent | DF_transport_error | DF_spawn_failed | DF_rejected_by_worker | DF_timeout
  | DF_submit_unconfirmed

datatype consume_profile = CP_default | CP_native_source
datatype session_rebound_reason = SR_restart | SR_live_holder
datatype suspension_modal = Modal_approval | Modal_choice
datatype suspension_resolution = Rsl_approved | Rsl_rejected | Rsl_answered | Rsl_dismissed
datatype suspension_resolution_via =
  RV_modal_button | RV_auto_approve | RV_prompt_answer | RV_modal_disappeared
datatype turn_end_strength = TE_genuine | TE_weak
datatype turn_end_block_reason =
  BR_missing_final_assistant | BR_finalization_timeout | BR_terminal_block_hard_cap | BR_decoupled_completion
datatype native_turn_outcome = NT_completed | NT_aborted | NT_failed
datatype liveness_result = L_alive | L_unknown | L_read_failed | L_dead
datatype provider_failure =
  PF_auth_failed | PF_billing_failed | PF_usage_limit_exceeded | PF_server_overloaded | PF_provider_error
datatype session_error_reason =
    SE_provider_error | SE_adapter_error | SE_spawn_failed | SE_auth_failed | SE_billing_failed
  | SE_unknown | SE_daemon_restart
datatype cancel_reason =
  CR_operator_cancel | CR_intentional_cleanup | CR_task_removed | CR_mission_abandoned | CR_superseded
datatype operator_status = OS_completed | OS_failed
datatype operator_status_reason = OR_operator_update | OR_refine_terminal | OR_validation_terminal
datatype coordinator_ack_outcome = CA_delivered | CA_queued | CA_duplicate

datatype observed_status =
    Obs_idle | Obs_generating | Obs_waiting_approval | Obs_waiting_choice | Obs_finalizing | Obs_error
  | Obs_stopped | Obs_starting | Obs_panel_hidden | Obs_not_monitored | Obs_disconnected | Obs_unknown

datatype hold_reason =
    H_await_delivery | H_await_consume | H_await_turn | H_liveness | H_hard_ceiling | H_live_pending
  | H_transcript_quiet | H_weak_candidate | H_suspension_before_consumed | H_await_report | H_await_end
  | H_report_correction

datatype turn_outcome = O_completed | O_blocked | O_failed | O_cancelled
datatype commit_strength = Str_genuine | Str_weak | Str_tool_report | Str_operator

datatype turn_reason =
    Rs_turn_end | Rs_weak_end_confirmed | Rs_transcript_final | Rs_worker_reported
  | Rs_finalization_timeout_no_response | Rs_weak_end_liveness_unconfirmed
  | Rs_weak_end_probe_unobserved | Rs_report_correction_expired | Rs_session_error
  | Rs_provider_auth_failed | Rs_provider_billing_failed | Rs_provider_usage_limit_exceeded
  | Rs_provider_server_overloaded | Rs_provider_error
  | Rs_operator_cancel | Rs_intentional_cleanup | Rs_task_removed | Rs_mission_abandoned | Rs_superseded
  | Rs_operator_update | Rs_refine_terminal | Rs_validation_terminal
  | Rs_hard_ceiling | Rs_reclaim_budget_exhausted | Rs_hollow_max_retries | Rs_migration_orphan
  | Rs_writer_unreachable
  | Rs_dispatch_refused_session_exited | Rs_dispatch_refused_no_target
  | Rs_dispatch_refused_unsupported_input | Rs_dispatch_failed
  | Rs_session_exit | Rs_session_exit_before_turn | Rs_session_dead | Rs_hollow_completion
  | Rs_assigned_stranded_dispatch_unconfirmed | Rs_delivered_not_consumed_redrive
  | Rs_delivered_no_turn_deadline

datatype notify_kind =
    N_completed | N_blocked | N_failed | N_cancelled | N_stopped | N_approval | N_choice
  | N_approval_resolved | N_candidate | N_no_progress | N_progress | N_late_completion | N_mesh_event

datatype worker_report_outcome = WR_completed | WR_blocked | WR_failed
datatype worker_branch_state =
    WB_merged_to_main | WB_pushed_feature_branch_needs_merge | WB_blocked_review | WB_cleanup_candidate
  | WB_not_mergeable

fun report_outcome :: "worker_report_outcome \<Rightarrow> turn_outcome" where
  "report_outcome WR_completed = O_completed"
| "report_outcome WR_blocked = O_blocked"
| "report_outcome WR_failed = O_failed"

fun operator_outcome :: "operator_status \<Rightarrow> turn_outcome" where
  "operator_outcome OS_completed = O_completed"
| "operator_outcome OS_failed = O_failed"

section \<open>Evidence\<close>

record attempt_ref =
  ar_attemptId :: ident
  ar_generation :: int

record summary_ref =
  sr_topic :: string
  sr_writer :: string
  sr_seq :: int

record live_turn_pending =
  lv_modal :: bool
  lv_adapterPending :: bool
  lv_trailingTool :: bool
  lv_newestActivityAt :: "ms option"

record native_turn_marker_ref =
  nm_outcome :: native_turn_outcome
  nm_turnId :: "ident option"
  nm_receivedAt :: "ms option"
  nm_startedAt :: "ms option"
  nm_errorAt :: "ms option"

record coordinator_identity =
  ci_daemonId :: ident
  ci_coordinatorRunId :: ident
  ci_sessionId :: "ident option"

record dispatch_accepted_body =
  da_scope :: turn_scope
  da_messageId :: ident
  da_meshId :: "ident option"
  da_nodeId :: "ident option"
  da_providerType :: "ident option"
  da_attemptNo :: "int option"
  da_dispatchNonce :: "int option"
  da_consumeProfile :: "consume_profile option"
  da_maxTaskRetries :: "int option"
  da_coordinator :: "coordinator_identity option"

record turn_end_body =
  te_strength :: turn_end_strength
  te_afterFinalizationTimeout :: bool
  te_hollow :: bool
  te_summary :: "summary_ref option"
  te_blockReason :: "turn_end_block_reason option"
  te_releasedByHardCap :: bool
  te_nativeOutcome :: "native_turn_outcome option"
  te_nativeMarker :: "native_turn_marker_ref option"
  te_live :: "live_turn_pending option"
  te_reportExpected :: bool
  te_providerFailure :: "provider_failure option"

record transcript_final_body =
  tf_selfAttributing :: bool
  tf_nativeRead :: bool
  tf_nativeMarker :: "native_turn_marker_ref option"
  tf_live :: live_turn_pending
  tf_summary :: "summary_ref option"
  tf_messageAt :: "ms option"

record worker_report_body =
  wr_outcome :: worker_report_outcome
  wr_summary :: "summary_ref option"
  wr_hasHandoffNotes :: bool
  wr_branchState :: "worker_branch_state option"
  wr_touchedFileCount :: "int option"

text \<open>
  The kind-specific bodies. Argument order follows the source's field order, e.g. \<open>Suspension modal
  modalKey providerSetup clockUnknown\<close>, \<open>NoProgress stalledMs observedStatus finalAssistantPresent\<close>.
\<close>

datatype turn_evidence_body =
    DispatchAccepted dispatch_accepted_body
  | Delivered ident delivery_outcome delivery_via
  | DeliveryRefused ident send_refusal
  | DispatchFailed bool dispatch_failure_reason "ident option"
  | DuplicateDispatchRefusal ident "ident option"
  | SessionRebound ident session_rebound_reason
  | TurnStarted bool
  | Suspension suspension_modal "ident option" bool bool
  | SuspensionResolved suspension_resolution suspension_resolution_via "ident option"
  | TurnEnd turn_end_body
  | TranscriptFinal transcript_final_body
  | TranscriptActivity ms
  | NoProgress ms observed_status bool
  | Liveness liveness_result "ms option"
  | ProcessExit "int option" "provider_failure option"
  | SessionError session_error_reason
  | WorkerReport worker_report_body
  | WorkerReportCorrectionRequested "ident option"
  | WorkerProgress "summary_ref option"
  | GitSideEffect bool int bool
  | Cancel cancel_reason
  | OperatorStatus operator_status operator_status_reason
  | CoordinatorAck notify_kind coordinator_ack_outcome
  | HoldExpired ident hold_reason

datatype turn_evidence_kind =
    K_dispatch_accepted | K_delivered | K_delivery_refused | K_dispatch_failed
  | K_duplicate_dispatch_refusal | K_session_rebound | K_turn_started | K_suspension
  | K_suspension_resolved | K_turn_end | K_transcript_final | K_transcript_activity | K_no_progress
  | K_liveness | K_process_exit | K_session_error | K_worker_report
  | K_worker_report_correction_requested | K_worker_progress | K_git_side_effect | K_cancel
  | K_operator_status | K_coordinator_ack | K_hold_expired

fun body_kind :: "turn_evidence_body \<Rightarrow> turn_evidence_kind" where
  "body_kind (DispatchAccepted _) = K_dispatch_accepted"
| "body_kind (Delivered _ _ _) = K_delivered"
| "body_kind (DeliveryRefused _ _) = K_delivery_refused"
| "body_kind (DispatchFailed _ _ _) = K_dispatch_failed"
| "body_kind (DuplicateDispatchRefusal _ _) = K_duplicate_dispatch_refusal"
| "body_kind (SessionRebound _ _) = K_session_rebound"
| "body_kind (TurnStarted _) = K_turn_started"
| "body_kind (Suspension _ _ _ _) = K_suspension"
| "body_kind (SuspensionResolved _ _ _) = K_suspension_resolved"
| "body_kind (TurnEnd _) = K_turn_end"
| "body_kind (TranscriptFinal _) = K_transcript_final"
| "body_kind (TranscriptActivity _) = K_transcript_activity"
| "body_kind (NoProgress _ _ _) = K_no_progress"
| "body_kind (Liveness _ _) = K_liveness"
| "body_kind (ProcessExit _ _) = K_process_exit"
| "body_kind (SessionError _) = K_session_error"
| "body_kind (WorkerReport _) = K_worker_report"
| "body_kind (WorkerReportCorrectionRequested _) = K_worker_report_correction_requested"
| "body_kind (WorkerProgress _) = K_worker_progress"
| "body_kind (GitSideEffect _ _ _) = K_git_side_effect"
| "body_kind (Cancel _) = K_cancel"
| "body_kind (OperatorStatus _ _) = K_operator_status"
| "body_kind (CoordinatorAck _ _) = K_coordinator_ack"
| "body_kind (HoldExpired _ _) = K_hold_expired"

record turn_evidence =
  ev_eventId :: ident
  ev_at :: ms
  ev_source :: evidence_source_id
  ev_sessionId :: ident
  ev_attemptRef :: "attempt_ref option"
  ev_taskId :: "ident option"
  ev_observedBy :: ident
  ev_body :: turn_evidence_body

abbreviation ev_kind :: "turn_evidence \<Rightarrow> turn_evidence_kind" where
  "ev_kind ev \<equiv> body_kind (ev_body ev)"

definition TURN_EVIDENCE_KINDS :: "turn_evidence_kind list" where
  "TURN_EVIDENCE_KINDS =
    [K_dispatch_accepted, K_delivered, K_delivery_refused, K_dispatch_failed,
     K_duplicate_dispatch_refusal, K_session_rebound, K_turn_started, K_suspension,
     K_suspension_resolved, K_turn_end, K_transcript_final, K_transcript_activity, K_no_progress,
     K_liveness, K_process_exit, K_session_error, K_worker_report,
     K_worker_report_correction_requested, K_worker_progress, K_git_side_effect, K_cancel,
     K_operator_status, K_coordinator_ack, K_hold_expired]"

definition TERMINAL_CLASS_EVIDENCE_KINDS :: "turn_evidence_kind list" where
  "TERMINAL_CLASS_EVIDENCE_KINDS =
    [K_turn_end, K_transcript_final, K_no_progress, K_worker_report, K_session_error, K_process_exit,
     K_cancel, K_operator_status]"

text \<open>\<open>readString\<close> of \<open>json.ts\<close> on one value, and the session identity test built on it.\<close>

definition readString :: "string option \<Rightarrow> string option" where
  "readString v = (case v of None \<Rightarrow> None | Some s \<Rightarrow> let t = js_trim s in if t = [] then None else Some t)"

definition sessionIdsEquivalent :: "string option \<Rightarrow> string option \<Rightarrow> bool" where
  "sessionIdsEquivalent a b =
     (case (readString a, readString b) of (Some x, Some y) \<Rightarrow> x = y | _ \<Rightarrow> False)"

abbreviation same_session :: "ident \<Rightarrow> ident \<Rightarrow> bool" where
  "same_session a b \<equiv> sessionIdsEquivalent (Some a) (Some b)"

section \<open>Attempts\<close>

datatype turn_state =
    S_accepted | S_delivered | S_consumed | S_generating | S_suspended | S_finalizing | S_stopping
  | S_completed | S_blocked | S_failed | S_cancelled

fun outcome_state :: "turn_outcome \<Rightarrow> turn_state" where
  "outcome_state O_completed = S_completed"
| "outcome_state O_blocked = S_blocked"
| "outcome_state O_failed = S_failed"
| "outcome_state O_cancelled = S_cancelled"

fun outcome_notify :: "turn_outcome \<Rightarrow> notify_kind" where
  "outcome_notify O_completed = N_completed"
| "outcome_notify O_blocked = N_blocked"
| "outcome_notify O_failed = N_failed"
| "outcome_notify O_cancelled = N_cancelled"

definition TERMINAL_TURN_STATES :: "turn_state list" where
  "TERMINAL_TURN_STATES = [S_completed, S_blocked, S_failed, S_cancelled]"

definition isTerminalTurnState :: "turn_state \<Rightarrow> bool" where
  "isTerminalTurnState s \<longleftrightarrow> s \<in> set TERMINAL_TURN_STATES"

record turn_terminal =
  tt_outcome :: turn_outcome
  tt_reason :: turn_reason
  tt_source :: evidence_source_id
  tt_strength :: commit_strength
  tt_at :: ms
  tt_summary :: "summary_ref option"

record stop_terminal =
  st_outcome :: turn_outcome
  st_strength :: commit_strength
  st_adoptSessionId :: "ident option"
  st_summary :: "summary_ref option"
  st_textEventId :: "ident option"
  st_source :: "evidence_source_id option"

datatype settled_by = Unreachable_bound | Node_removed

record writer_stop =
  ws_requestId :: ident
  ws_reason :: turn_reason
  ws_requestedAt :: ms
  ws_tries :: int
  ws_escalated :: bool
  ws_confirmed :: bool
  ws_settledBy :: "settled_by option"
  ws_terminal :: "stop_terminal option"

record provider_suspension =
  ps_generation :: int
  ps_modalKey :: "ident option"
  ps_providerSetup :: bool
  ps_at :: "ms option"
  ps_resolvedAt :: "ms option"
  ps_reminders :: "int option"
  ps_lastReminderAt :: "ms option"

record git_side_effect =
  gs_dirty :: bool
  gs_commitsSinceDispatch :: int
  gs_attributable :: bool
  gs_at :: ms

record unconfirmed_end_deferral =
  ud_generation :: int
  ud_count :: int
  ud_requestedAt :: "ms option"

record liveness_observation =
  lo_generation :: int
  lo_sessionId :: "ident option"
  lo_at :: ms
  lo_probeStartedAt :: ms

record liveness_session_cut =
  lc_generation :: int
  lc_at :: ms
  lc_revision :: int

record report_correction =
  rc_generation :: int
  rc_until :: ms

record recorded_report =
  rr_generation :: int
  rr_outcome :: worker_report_outcome
  rr_eventId :: ident
  rr_at :: ms
  rr_summary :: "summary_ref option"

record turn_attempt_data =
  d_writerStop :: "writer_stop option"
  d_providerSuspension :: "provider_suspension option"
  d_gitSideEffect :: "git_side_effect option"
  d_falseIdleCount :: "int option"
  d_unconfirmedEndDeferral :: "unconfirmed_end_deferral option"
  d_livenessObservation :: "liveness_observation option"
  d_livenessSessionCut :: "liveness_session_cut option"
  d_reportCorrection :: "report_correction option"
  d_report :: "recorded_report option"

definition empty_data :: turn_attempt_data where
  "empty_data = \<lparr>d_writerStop = None, d_providerSuspension = None, d_gitSideEffect = None,
     d_falseIdleCount = None, d_unconfirmedEndDeferral = None, d_livenessObservation = None,
     d_livenessSessionCut = None, d_reportCorrection = None, d_report = None\<rparr>"

record prev_generation =
  pg_sessionId :: ident
  pg_consumed :: bool

record attempt_coordinator =
  co_daemonId :: "ident option"
  co_sessionId :: "ident option"

record turn_attempt =
  a_attemptId :: ident
  a_scope :: turn_scope
  a_meshId :: "ident option"
  a_taskId :: "ident option"
  a_attemptNo :: int
  a_sessionId :: ident
  a_nodeId :: "ident option"
  a_providerType :: "ident option"
  a_ownerDaemonId :: ident
  a_generation :: int
  a_prevGeneration :: "prev_generation option"
  a_dispatchNonce :: "int option"
  a_messageId :: "ident option"
  a_consumeProfile :: consume_profile
  a_maxTaskRetries :: int
  a_state :: turn_state
  a_suspension :: "suspension_modal option"
  a_redriveCount :: int
  a_reclaimCount :: int
  a_hollowCount :: int
  a_livenessFailStreak :: int
  a_lastLiveness :: "liveness_result option"
  a_coordinator :: attempt_coordinator
  a_acceptedAt :: ms
  a_deliveredAt :: "ms option"
  a_consumedAt :: "ms option"
  a_lastActivityAt :: "ms option"
  a_weakSince :: "ms option"
  a_candidateNotifiedGeneration :: "int option"
  a_lastNoProgressNoticeAt :: "ms option"
  a_notifiedAt :: "ms option"
  a_terminal :: "turn_terminal option"
  a_data :: turn_attempt_data

section \<open>Holds and effects\<close>

datatype hold_on_expire = X_commit | X_release | X_escalate | X_reclaim | X_redeliver | X_reevaluate

datatype scalar = SStr string | SNum int | SBool bool | SNull

record turn_hold =
  h_holdId :: ident
  h_attemptId :: ident
  h_generation :: "int option"
  h_reason :: hold_reason
  h_until :: "ms option"
  h_onExpire :: hold_on_expire
  h_data :: "(string \<times> scalar) list"
  h_createdAt :: ms

datatype bus_phase = Ph_started | Ph_suspended | Ph_resumed | Ph_progress | Ph_committed

record turn_bus_event =
  be_phase :: bus_phase
  be_sessionId :: ident
  be_attemptId :: ident
  be_generation :: int
  be_outcome :: "turn_outcome option"
  be_strength :: "commit_strength option"

record commit_effect =
  ce_attemptId :: ident
  ce_generation :: int
  ce_outcome :: turn_outcome
  ce_strength :: commit_strength
  ce_reason :: turn_reason
  ce_source :: evidence_source_id
  ce_summary :: "summary_ref option"

record notify_effect =
  ne_attemptId :: ident
  ne_generation :: int
  ne_notify :: notify_kind
  ne_taskId :: "ident option"
  ne_coordinatorDaemonId :: "ident option"
  ne_coordinatorSessionId :: "ident option"
  ne_summary :: "summary_ref option"
  ne_textEventId :: "ident option"

record cancel_dispatch_effect =
  cd_attemptId :: ident
  cd_generation :: int
  cd_sessionId :: ident
  cd_messageId :: "ident option"
  cd_revokeBind :: bool
  cd_stopRequestId :: "ident option"

datatype release_reasons = All_holds | Some_holds "hold_reason list"
datatype queue_row_status = Q_pending | Q_outcome turn_outcome

text \<open>
  One constructor per \<open>kind\<close>. \<open>E_reclaim attemptId fromGeneration toGeneration reason\<close>,
  \<open>E_redeliver attemptId generation messageId sessionId\<close>, \<open>E_queue_status meshId taskId status reason\<close>,
  \<open>E_task_terminal meshId taskId outcome\<close>, \<open>E_reevaluate attemptId evidenceId forceLiveFalse\<close>.
\<close>

datatype turn_effect =
    E_commit commit_effect
  | E_notify_coordinator notify_effect
  | E_hold turn_hold
  | E_release_hold ident release_reasons
  | E_reclaim ident int int turn_reason
  | E_redeliver ident int "ident option" ident
  | E_cancel_dispatch cancel_dispatch_effect
  | E_bus turn_bus_event
  | E_record string
  | E_release_attempt_ref ident ident
  | E_queue_status ident ident queue_row_status turn_reason
  | E_task_terminal ident ident turn_outcome
  | E_probe ident ident
  | E_reevaluate ident ident bool

datatype reduce_verdict = V_applied | V_recorded | V_rejected

datatype reduce_rejection =
  Rej_no_attempt | Rej_attempt_mismatch | Rej_session_mismatch | Rej_already_terminal | Rej_illegal_transition

section \<open>Basic facts\<close>

lemma sessionIdsEquivalent_sym: "sessionIdsEquivalent a b = sessionIdsEquivalent b a"
  by (auto simp: sessionIdsEquivalent_def split: option.splits)

lemma sessionIdsEquivalent_trans:
  "sessionIdsEquivalent a b \<Longrightarrow> sessionIdsEquivalent b c \<Longrightarrow> sessionIdsEquivalent a c"
  by (auto simp: sessionIdsEquivalent_def split: option.splits)

lemma terminal_state_simps [simp]:
  "isTerminalTurnState S_completed" "isTerminalTurnState S_blocked" "isTerminalTurnState S_failed"
  "isTerminalTurnState S_cancelled" "\<not> isTerminalTurnState S_accepted"
  "\<not> isTerminalTurnState S_delivered" "\<not> isTerminalTurnState S_consumed"
  "\<not> isTerminalTurnState S_generating" "\<not> isTerminalTurnState S_suspended"
  "\<not> isTerminalTurnState S_finalizing" "\<not> isTerminalTurnState S_stopping"
  by (simp_all add: isTerminalTurnState_def TERMINAL_TURN_STATES_def)

lemma outcome_state_terminal [simp]: "isTerminalTurnState (outcome_state x)"
  by (cases x) simp_all

lemma outcome_state_inj [simp]: "outcome_state x = outcome_state y \<longleftrightarrow> x = y"
  by (cases x; cases y) simp_all

lemma all_kinds: "k \<in> set TURN_EVIDENCE_KINDS"
  by (cases k) (simp_all add: TURN_EVIDENCE_KINDS_def)

end
