(* ===== verification/TurnPolicy.thy ===== *)
theory TurnPolicy
  imports TurnTypes
begin

text \<open>
  The timing policy of the turn ledger (\<open>turn-ledger/policy.ts\<close>): the fourteen base values, the
  budgets, the values derived from them, and the resolution of environment overrides.
  \<open>Math.round(1.5 * q)\<close> of an integer is \<open>(3 q + 1) div 2\<close>, and \<open>Math.round(d / 2)\<close> is
  \<open>(d + 1) div 2\<close>: \<open>Math.round\<close> rounds a half towards positive infinity.
\<close>

record turn_policy =
  tickMs :: ms
  quietWindowMs :: ms
  consumeGraceMs :: ms
  deliveryCeilingMs :: ms
  livenessDeadlineMs :: ms
  noTurnDeadlineMs :: ms
  stallNoticeMs :: ms
  stallWakeMs :: ms
  coalesceWindowMs :: ms
  hardCeilingMs :: ms
  stoppingUnreachableMaxMs :: ms
  awaitReportMs :: ms
  livenessProbeIntervalFinalizingMs :: ms
  awaitEndMs :: ms

definition DEFAULT_TURN_POLICY :: turn_policy where
  "DEFAULT_TURN_POLICY = \<lparr>
     tickMs = 4000, quietWindowMs = 8000, consumeGraceMs = 90000, deliveryCeilingMs = 120000,
     livenessDeadlineMs = 480000, noTurnDeadlineMs = 900000, stallNoticeMs = 180000,
     stallWakeMs = 900000, coalesceWindowMs = 30000, hardCeilingMs = 5400000,
     stoppingUnreachableMaxMs = 24 * 3600000, awaitReportMs = 600000,
     livenessProbeIntervalFinalizingMs = 60000, awaitEndMs = 60000\<rparr>"

section \<open>Budgets\<close>

definition RECLAIM_BUDGET :: int where "RECLAIM_BUDGET = 3"
definition MAX_REDRIVES_PER_GENERATION :: int where "MAX_REDRIVES_PER_GENERATION = 1"
definition LIVENESS_FAIL_STREAK_LIMIT :: int where "LIVENESS_FAIL_STREAK_LIMIT = 3"
definition SUSPENSION_REMINDER_MS :: ms where "SUSPENSION_REMINDER_MS = 300000"
definition MAX_SUSPENSION_REMINDERS :: int where "MAX_SUSPENSION_REMINDERS = 3"
definition DEFAULT_MAX_TASK_RETRIES :: int where "DEFAULT_MAX_TASK_RETRIES = 1"
definition MAX_UNCONFIRMED_END_DEFERRALS :: int where "MAX_UNCONFIRMED_END_DEFERRALS = 1"

lemmas budget_defs = RECLAIM_BUDGET_def MAX_REDRIVES_PER_GENERATION_def
  LIVENESS_FAIL_STREAK_LIMIT_def SUSPENSION_REMINDER_MS_def MAX_SUSPENSION_REMINDERS_def
  DEFAULT_MAX_TASK_RETRIES_def MAX_UNCONFIRMED_END_DEFERRALS_def

section \<open>Derived values\<close>

definition holdTtlMs :: "turn_policy \<Rightarrow> ms" where
  "holdTtlMs p = (3 * quietWindowMs p + 1) div 2"

definition weakConfirmMs :: "turn_policy \<Rightarrow> ms" where
  "weakConfirmMs p = (3 * quietWindowMs p + 1) div 2"

definition unknownLivenessGraceMs :: "turn_policy \<Rightarrow> ms" where
  "unknownLivenessGraceMs p = 3 * tickMs p"

definition endProbeGraceMs :: "turn_policy \<Rightarrow> ms" where
  "endProbeGraceMs p = max (unknownLivenessGraceMs p) (awaitEndMs p)"

definition reportCorrectionMs :: "turn_policy \<Rightarrow> ms" where
  "reportCorrectionMs p = max (awaitReportMs p) (endProbeGraceMs p)"

definition livenessReArmMs :: "turn_policy \<Rightarrow> bool \<Rightarrow> ms" where
  "livenessReArmMs p awaitReportHeld =
     (let normal = unknownLivenessGraceMs p
      in if awaitReportHeld then max normal (livenessProbeIntervalFinalizingMs p) else normal)"

definition awaitDeliveryMs :: "turn_policy \<Rightarrow> ms" where
  "awaitDeliveryMs p = 2 * deliveryCeilingMs p"

definition authoritativeTranscriptAgeMs :: "turn_policy \<Rightarrow> ms" where
  "authoritativeTranscriptAgeMs p = (deliveryCeilingMs p + 1) div 2"

definition consumeGraceFor :: "turn_policy \<Rightarrow> consume_profile \<Rightarrow> ms" where
  "consumeGraceFor p profile =
     (if profile = CP_native_source then 2 * consumeGraceMs p else consumeGraceMs p)"

section \<open>Environment overrides\<close>

datatype policy_field =
    F_tickMs | F_quietWindowMs | F_consumeGraceMs | F_deliveryCeilingMs | F_livenessDeadlineMs
  | F_noTurnDeadlineMs | F_stallNoticeMs | F_stallWakeMs | F_coalesceWindowMs | F_hardCeilingMs
  | F_stoppingUnreachableMaxMs | F_awaitReportMs | F_livenessProbeIntervalFinalizingMs | F_awaitEndMs

fun policy_get :: "policy_field \<Rightarrow> turn_policy \<Rightarrow> ms" where
  "policy_get F_tickMs p = tickMs p"
| "policy_get F_quietWindowMs p = quietWindowMs p"
| "policy_get F_consumeGraceMs p = consumeGraceMs p"
| "policy_get F_deliveryCeilingMs p = deliveryCeilingMs p"
| "policy_get F_livenessDeadlineMs p = livenessDeadlineMs p"
| "policy_get F_noTurnDeadlineMs p = noTurnDeadlineMs p"
| "policy_get F_stallNoticeMs p = stallNoticeMs p"
| "policy_get F_stallWakeMs p = stallWakeMs p"
| "policy_get F_coalesceWindowMs p = coalesceWindowMs p"
| "policy_get F_hardCeilingMs p = hardCeilingMs p"
| "policy_get F_stoppingUnreachableMaxMs p = stoppingUnreachableMaxMs p"
| "policy_get F_awaitReportMs p = awaitReportMs p"
| "policy_get F_livenessProbeIntervalFinalizingMs p = livenessProbeIntervalFinalizingMs p"
| "policy_get F_awaitEndMs p = awaitEndMs p"

fun policy_set :: "policy_field \<Rightarrow> ms \<Rightarrow> turn_policy \<Rightarrow> turn_policy" where
  "policy_set F_tickMs v p = p\<lparr>tickMs := v\<rparr>"
| "policy_set F_quietWindowMs v p = p\<lparr>quietWindowMs := v\<rparr>"
| "policy_set F_consumeGraceMs v p = p\<lparr>consumeGraceMs := v\<rparr>"
| "policy_set F_deliveryCeilingMs v p = p\<lparr>deliveryCeilingMs := v\<rparr>"
| "policy_set F_livenessDeadlineMs v p = p\<lparr>livenessDeadlineMs := v\<rparr>"
| "policy_set F_noTurnDeadlineMs v p = p\<lparr>noTurnDeadlineMs := v\<rparr>"
| "policy_set F_stallNoticeMs v p = p\<lparr>stallNoticeMs := v\<rparr>"
| "policy_set F_stallWakeMs v p = p\<lparr>stallWakeMs := v\<rparr>"
| "policy_set F_coalesceWindowMs v p = p\<lparr>coalesceWindowMs := v\<rparr>"
| "policy_set F_hardCeilingMs v p = p\<lparr>hardCeilingMs := v\<rparr>"
| "policy_set F_stoppingUnreachableMaxMs v p = p\<lparr>stoppingUnreachableMaxMs := v\<rparr>"
| "policy_set F_awaitReportMs v p = p\<lparr>awaitReportMs := v\<rparr>"
| "policy_set F_livenessProbeIntervalFinalizingMs v p = p\<lparr>livenessProbeIntervalFinalizingMs := v\<rparr>"
| "policy_set F_awaitEndMs v p = p\<lparr>awaitEndMs := v\<rparr>"

record env_alias =
  al_name :: string
  al_min :: ms
  al_max :: ms

record env_binding =
  eb_field :: policy_field
  eb_canonical :: string
  eb_aliases :: "env_alias list"
  eb_min :: ms
  eb_max :: ms

definition HOUR :: ms where "HOUR = 60 * 60000"

definition binding :: "policy_field \<Rightarrow> string \<Rightarrow> ms \<Rightarrow> ms \<Rightarrow> env_alias list \<Rightarrow> env_binding" where
  "binding f name lo hi als =
     \<lparr>eb_field = f, eb_canonical = name, eb_aliases = als, eb_min = lo, eb_max = hi\<rparr>"

definition TURN_POLICY_ENV_BINDINGS :: "env_binding list" where
  "TURN_POLICY_ENV_BINDINGS = [
     binding F_tickMs ''ADHDEV_TURN_TICK_MS'' 100 60000
       [\<lparr>al_name = ''MESH_RECONCILE_INTERVAL_MS'', al_min = 1000, al_max = 60000\<rparr>],
     binding F_quietWindowMs ''ADHDEV_TURN_QUIET_WINDOW_MS'' 0 (10 * 60000) [],
     binding F_consumeGraceMs ''ADHDEV_TURN_CONSUME_GRACE_MS'' 0 HOUR [],
     binding F_deliveryCeilingMs ''ADHDEV_TURN_DELIVERY_CEILING_MS'' 0 HOUR
       [\<lparr>al_name = ''MESH_PENDING_HELD_CEILING_MS'', al_min = 12000, al_max = 30 * 60000\<rparr>],
     binding F_livenessDeadlineMs ''ADHDEV_TURN_LIVENESS_DEADLINE_MS'' 0 HOUR
       [\<lparr>al_name = ''MESH_INFLIGHT_ACKED_DEATH_DEADLINE_MS'', al_min = 0, al_max = HOUR\<rparr>],
     binding F_noTurnDeadlineMs ''ADHDEV_TURN_NO_TURN_DEADLINE_MS'' 0 (6 * HOUR) [],
     binding F_stallNoticeMs ''ADHDEV_TURN_STALL_NOTICE_MS'' 0 HOUR [],
     binding F_stallWakeMs ''ADHDEV_TURN_STALL_WAKE_MS'' 0 (6 * HOUR) [],
     binding F_coalesceWindowMs ''ADHDEV_TURN_COALESCE_WINDOW_MS'' 0 (10 * 60000) [],
     binding F_hardCeilingMs ''ADHDEV_TURN_HARD_CEILING_MS'' 0 (24 * HOUR)
       [\<lparr>al_name = ''MESH_INFLIGHT_ACKED_HOLD_HARD_CEILING_MS'', al_min = 0, al_max = 24 * HOUR\<rparr>],
     binding F_stoppingUnreachableMaxMs ''ADHDEV_STOPPING_UNREACHABLE_MAX_MS'' 0 (30 * 24 * HOUR) [],
     binding F_awaitReportMs ''ADHDEV_TURN_AWAIT_REPORT_MS'' 0 HOUR [],
     binding F_livenessProbeIntervalFinalizingMs
       ''ADHDEV_TURN_LIVENESS_PROBE_INTERVAL_FINALIZING_MS'' 0 HOUR [],
     binding F_awaitEndMs ''ADHDEV_TURN_AWAIT_END_MS'' 0 HOUR []]"

definition RETIRED_TURN_ENV_NAMES :: "string list" where
  "RETIRED_TURN_ENV_NAMES =
     [''MESH_PENDING_HELD_DRAIN_ESCALATE_MS'', ''MESH_INFLIGHT_ACKED_TRANSCRIPT_FASTTRACK_GRACE_MS'']"

type_synonym turn_env = "string \<Rightarrow> string option"

definition is_digit :: "char \<Rightarrow> bool" where
  "is_digit c \<longleftrightarrow> 48 \<le> (of_char c :: nat) \<and> (of_char c :: nat) \<le> 57"

definition parse_digits :: "string \<Rightarrow> int" where
  "parse_digits s = foldl (\<lambda>acc c. 10 * acc + (of_char c - 48)) 0 s"

definition MAX_SAFE_INTEGER :: int where "MAX_SAFE_INTEGER = 2 ^ 53 - 1"

text \<open>
  \<open>Number.parseInt\<close> of a digit string is the number it denotes up to the precision of a double;
  beyond \<open>MAX_SAFE_INTEGER\<close> the rounded value is still above it, and \<open>isSafeInteger\<close> refuses it.
\<close>

definition readClamped :: "turn_env \<Rightarrow> string \<Rightarrow> ms \<Rightarrow> ms \<Rightarrow> ms option" where
  "readClamped env name lo hi =
     (case env name of
        None \<Rightarrow> None
      | Some raw \<Rightarrow>
          let trimmed = js_trim raw
          in if trimmed = [] then None
             else if \<not> list_all is_digit trimmed then None
             else let parsed = parse_digits trimmed
                  in if parsed > MAX_SAFE_INTEGER \<or> parsed < lo \<or> parsed > hi then None
                     else Some parsed)"

fun first_alias :: "turn_env \<Rightarrow> env_alias list \<Rightarrow> (ms \<times> string) option" where
  "first_alias env [] = None"
| "first_alias env (al # als) =
     (case readClamped env (al_name al) (al_min al) (al_max al) of
        Some v \<Rightarrow> Some (v, al_name al)
      | None \<Rightarrow> first_alias env als)"

definition binding_value :: "turn_env \<Rightarrow> env_binding \<Rightarrow> (ms \<times> string) option" where
  "binding_value env b =
     (case readClamped env (eb_canonical b) (eb_min b) (eb_max b) of
        Some v \<Rightarrow> Some (v, eb_canonical b)
      | None \<Rightarrow> first_alias env (eb_aliases b))"

record resolved_turn_policy =
  rp_policy :: turn_policy
  rp_sources :: "(policy_field \<times> string) list"
  rp_ignored :: "string list"

definition apply_binding :: "turn_env \<Rightarrow> turn_policy \<times> (policy_field \<times> string) list \<Rightarrow> env_binding
    \<Rightarrow> turn_policy \<times> (policy_field \<times> string) list" where
  "apply_binding env acc b =
     (case binding_value env b of
        None \<Rightarrow> acc
      | Some (v, name) \<Rightarrow>
          (policy_set (eb_field b) v (fst acc), AList.update (eb_field b) name (snd acc)))"

definition resolveTurnPolicyDetailed :: "turn_env \<Rightarrow> resolved_turn_policy" where
  "resolveTurnPolicyDetailed env =
     (let (policy, sources) = foldl (apply_binding env) (DEFAULT_TURN_POLICY, []) TURN_POLICY_ENV_BINDINGS
      in \<lparr>rp_policy = policy, rp_sources = sources,
          rp_ignored = filter (\<lambda>name. case env name of None \<Rightarrow> False | Some v \<Rightarrow> js_trim v \<noteq> [])
                         RETIRED_TURN_ENV_NAMES\<rparr>)"

definition resolveTurnPolicy :: "turn_env \<Rightarrow> turn_policy" where
  "resolveTurnPolicy env = rp_policy (resolveTurnPolicyDetailed env)"

section \<open>Lemmas\<close>

lemma policy_get_set [simp]:
  "policy_get f (policy_set g v p) = (if f = g then v else policy_get f p)"
  by (cases f; cases g) simp_all

lemma readClamped_bounds: "readClamped env name lo hi = Some v \<Longrightarrow> lo \<le> v \<and> v \<le> hi"
  by (auto simp: readClamped_def Let_def split: option.splits if_splits)

definition binding_lo :: "env_binding \<Rightarrow> ms" where
  "binding_lo b = foldl min (eb_min b) (map al_min (eb_aliases b))"

definition binding_hi :: "env_binding \<Rightarrow> ms" where
  "binding_hi b = foldl max (eb_max b) (map al_max (eb_aliases b))"

end
