(* ===== verification/TurnAdmission.thy ===== *)
theory TurnAdmission
  imports TurnPolicy
begin

text \<open>
  \<open>turn-ledger/admission.ts\<close>: may an observation be admitted as the end of a turn? The ordered
  veto rules of \<open>evaluateTerminalAdmission\<close>, the mapping of declines to holds, the evidence-level
  admission that the reducer's guards call, and the deadline of an admission hold.
\<close>

datatype admission_decline_reason =
    AD_active_modal | AD_session_not_idle | AD_native_marker_absent | AD_trailing_tool_activity
  | AD_no_final_assistant_summary | AD_transcript_growing

fun decline_name :: "admission_decline_reason \<Rightarrow> string" where
  "decline_name AD_active_modal = ''active_modal''"
| "decline_name AD_session_not_idle = ''session_not_idle''"
| "decline_name AD_native_marker_absent = ''native_marker_absent''"
| "decline_name AD_trailing_tool_activity = ''trailing_tool_activity''"
| "decline_name AD_no_final_assistant_summary = ''no_final_assistant_summary''"
| "decline_name AD_transcript_growing = ''transcript_growing''"

record terminal_admission_input =
  ta_activeModalPresent :: bool
  ta_providerObservedStatus :: "string option"
  ta_nativeReadHappened :: bool
  ta_nativeMarkerScoped :: bool
  ta_selfAttributing :: bool
  ta_trailingActivityCount :: int
  ta_finalAssistantPresent :: bool
  ta_newestActivityAtMs :: "ms option"
  ta_observedAtMs :: ms
  ta_quietWindowMs :: ms

datatype evidence_level = Level_strong | Level_weak
datatype admit_reason = AR_native_turn_terminal_marker | AR_self_attributing_summary | AR_message_shape_fallback

datatype terminal_admission_verdict =
    Admit evidence_level admit_reason
  | Decline admission_decline_reason

definition isTranscriptGrowing :: "ms option \<Rightarrow> ms \<Rightarrow> ms \<Rightarrow> bool" where
  "isTranscriptGrowing newest observedAt quietWindow =
     (case newest of None \<Rightarrow> False | Some n \<Rightarrow> observedAt - n < quietWindow)"

definition evaluateTerminalAdmission :: "terminal_admission_input \<Rightarrow> terminal_admission_verdict" where
  "evaluateTerminalAdmission i =
     (if ta_activeModalPresent i then Decline AD_active_modal
      else if (case ta_providerObservedStatus i of None \<Rightarrow> False
               | Some s \<Rightarrow> js_lower (js_trim s) \<noteq> ''idle'') then Decline AD_session_not_idle
      else if ta_nativeMarkerScoped i then Admit Level_strong AR_native_turn_terminal_marker
      else if ta_selfAttributing i then Admit Level_strong AR_self_attributing_summary
      else if ta_nativeReadHappened i then Decline AD_native_marker_absent
      else if ta_trailingActivityCount i > 0 then Decline AD_trailing_tool_activity
      else if \<not> ta_finalAssistantPresent i then Decline AD_no_final_assistant_summary
      else if isTranscriptGrowing (ta_newestActivityAtMs i) (ta_observedAtMs i) (ta_quietWindowMs i)
        then Decline AD_transcript_growing
      else Admit Level_weak AR_message_shape_fallback)"

fun holdReasonForDecline :: "admission_decline_reason \<Rightarrow> hold_reason option" where
  "holdReasonForDecline AD_active_modal = Some H_live_pending"
| "holdReasonForDecline AD_session_not_idle = Some H_live_pending"
| "holdReasonForDecline AD_trailing_tool_activity = Some H_live_pending"
| "holdReasonForDecline AD_transcript_growing = Some H_transcript_quiet"
| "holdReasonForDecline AD_native_marker_absent = None"
| "holdReasonForDecline AD_no_final_assistant_summary = None"

datatype evidence_admission =
    Adm_strong
  | Adm_weak
  | Adm_hold admission_decline_reason hold_reason
  | Adm_decline admission_decline_reason

fun fromVerdict :: "terminal_admission_verdict \<Rightarrow> evidence_admission" where
  "fromVerdict (Admit Level_strong _) = Adm_strong"
| "fromVerdict (Admit Level_weak _) = Adm_weak"
| "fromVerdict (Decline r) =
     (case holdReasonForDecline r of Some h \<Rightarrow> Adm_hold r h | None \<Rightarrow> Adm_decline r)"

definition admitTranscriptFinal :: "turn_evidence \<Rightarrow> transcript_final_body \<Rightarrow> turn_policy \<Rightarrow> evidence_admission" where
  "admitTranscriptFinal ev b p =
     (if map_option nm_outcome (tf_nativeMarker b) = Some NT_failed then Adm_decline AD_native_marker_absent
      else fromVerdict (evaluateTerminalAdmission \<lparr>
        ta_activeModalPresent = lv_modal (tf_live b),
        ta_providerObservedStatus = Some (if lv_adapterPending (tf_live b) then ''generating'' else ''idle''),
        ta_nativeReadHappened = tf_nativeRead b,
        ta_nativeMarkerScoped = (tf_nativeMarker b \<noteq> None),
        ta_selfAttributing = tf_selfAttributing b,
        ta_trailingActivityCount = (if lv_trailingTool (tf_live b) then 1 else 0),
        ta_finalAssistantPresent = (tf_summary b \<noteq> None \<or> tf_messageAt b \<noteq> None),
        ta_newestActivityAtMs = lv_newestActivityAt (tf_live b),
        ta_observedAtMs = ev_at ev,
        ta_quietWindowMs = quietWindowMs p\<rparr>))"

definition admitTurnEnd :: "turn_evidence \<Rightarrow> turn_end_body \<Rightarrow> turn_policy \<Rightarrow> evidence_admission" where
  "admitTurnEnd ev b p =
     (let base = (if te_strength b = TE_genuine then Adm_strong else Adm_weak)
      in case te_live b of
           None \<Rightarrow> base
         | Some live \<Rightarrow>
             if lv_modal live then Adm_hold AD_active_modal H_live_pending
             else if lv_adapterPending live then Adm_hold AD_session_not_idle H_live_pending
             else if lv_trailingTool live then Adm_hold AD_trailing_tool_activity H_live_pending
             else if isTranscriptGrowing (lv_newestActivityAt live) (ev_at ev) (quietWindowMs p)
               then Adm_hold AD_transcript_growing H_transcript_quiet
             else base)"

definition admissionHoldUntil ::
  "hold_reason \<Rightarrow> live_turn_pending option \<Rightarrow> ms \<Rightarrow> turn_policy \<Rightarrow> ms \<Rightarrow> ms" where
  "admissionHoldUntil holdReason live observedAt p now =
     (let ttl = holdTtlMs p
      in case live of
           Some l \<Rightarrow>
             (case (holdReason, lv_newestActivityAt l) of
                (H_transcript_quiet, Some n) \<Rightarrow>
                  now + min (max 0 (n + quietWindowMs p - observedAt)) ttl
              | _ \<Rightarrow> now + ttl)
         | None \<Rightarrow> now + ttl)"

section \<open>Lemmas\<close>

lemma js_idle [simp]: "js_lower (js_trim ''idle'') = ''idle''"
  by code_simp

lemma js_generating [simp]: "js_lower (js_trim ''generating'') = ''generating''"
  by code_simp

lemma fromVerdict_hold:
  "fromVerdict v = Adm_hold r h \<Longrightarrow> h = H_live_pending \<or> h = H_transcript_quiet"
  by (cases v rule: fromVerdict.cases; simp; cases r; auto split: option.splits)

lemma admission_hold_reason:
  "admitTranscriptFinal ev b p = Adm_hold r h \<Longrightarrow> h = H_live_pending \<or> h = H_transcript_quiet"
  "admitTurnEnd ev c p = Adm_hold r h \<Longrightarrow> h = H_live_pending \<or> h = H_transcript_quiet"
  by (auto simp: admitTranscriptFinal_def admitTurnEnd_def Let_def
      dest: fromVerdict_hold split: if_splits option.splits)

lemma admitTurnEnd_never_declines: "admitTurnEnd ev b p \<noteq> Adm_decline r"
  by (auto simp: admitTurnEnd_def Let_def split: option.splits)

end
