(* ===== verification/TurnTransitions.thy ===== *)
theory TurnTransitions
  imports TurnAdmission
begin

text \<open>
  \<open>turn-ledger/transitions.ts\<close>: the turn state machine as data. A rule has a lane, the states it
  admits, the evidence kinds it is about, an optional guard, a nominal target, a verdict and a list
  of effect templates. The reducer (theory \<open>TurnReducer\<close>) selects a row and runs its templates.
  The table is written in the blocks the source file has, and \<open>TRANSITIONS\<close> is their concatenation.
\<close>

section \<open>Rule language\<close>

datatype rule_lane = Lane_none | Lane_current | Lane_stale

datatype rule_from = From "turn_state list" | From_none | From_nonterminal | From_terminal | From_any

datatype guard_id =
    G_otherwise
  | G_unbound | G_bound
  | G_prev_generation_completion | G_stale_session_distinct
  | G_reclaiming_refusal
  | G_suspension_changed
  | G_end_genuine | G_end_provider_failure | G_end_weak | G_end_weak_after_timeout | G_hollow_retry
  | G_hollow_exhausted
  | G_end_report_awaited | G_end_report_awaited_held | G_final_strong_report_awaited | G_false_idle_resumed
  | G_final_strong | G_final_weak | G_final_weak_probe
  | G_genuine_end_or_strong_final | G_weak_end_or_final
  | G_admission_hold | G_admission_decline
  | G_after_weak_since | G_activity_keeps_state
  | G_liveness_unknown | G_liveness_fatal | G_liveness_failed_nonfatal
  | G_reported_terminal
  | G_provider_failure | G_no_provider_failure
  | G_holder_is_this_attempt | G_confirmed_provider_setup | G_held_provider_setup | G_stale_modal_resolution
  | G_final_present | G_parked_suspension_observation
  | G_hold_await_delivery | G_hold_await_consume_redrive | G_hold_await_consume_exhausted | G_hold_await_turn
  | G_hold_liveness | G_hold_hard_ceiling | G_hold_suspension_before_consumed | G_hold_weak_candidate
  | G_hold_admission
  | G_hold_await_report
  | G_hold_native_probe_report_only | G_hold_direct_report_missing | G_hold_queue_report_missing
  | G_hold_end_unconfirmed_defer | G_hold_end_unconfirmed_exhausted | G_hold_end_probe_missing
  | G_hold_report_correction
  | G_finished_after_report | G_hold_await_end | G_exit_after_report | G_settle_idle_report_owed

datatype action_id =
    Act_open_dispatch | Act_open_plain | Act_rebind_dispatch
  | Act_mark_delivered | Act_consume | Act_apply_held_suspension
  | Act_suspend | Act_resume | Act_resume_by_activity
  | Act_weak_candidate | Act_clear_weak | Act_await_report | Act_false_idle
  | Act_activity | Act_liveness_unknown | Act_liveness_failure | Act_worker_absent
  | Act_rebind_to_holder | Act_rebind
  | Act_hollow | Act_mark_notified | Act_store_git | Act_redrive | Act_stamp_no_progress_notice
  | Act_record_report | Act_defer_unconfirmed_end | Act_open_report_correction

datatype until_expr =
    U_await_delivery | U_await_consume | U_await_turn | U_liveness | U_hard_ceiling
  | U_weak_confirm | U_unknown_grace | U_liveness_reprobe | U_admission | U_await_report | U_await_end
  | U_none

datatype hold_reason_expr = HR hold_reason | HR_from_admission
datatype release_expr = Rel "hold_reason list" | Rel_all | Rel_expired_hold
datatype outcome_expr = Oc turn_outcome | Oc_from_report | Oc_from_recorded_report | Oc_from_operator
datatype commit_reason_expr =
  CRs turn_reason | CRs_from_cancel | CRs_from_operator | CRs_from_provider_failure | CRs_from_session_error
datatype reclaim_reason_expr = RRs turn_reason | RRs_from_refusal | RRs_from_exit_state
datatype notify_expr = Nt notify_kind | Nt_from_modal | Nt_from_suspension
datatype notify_when = When_always | When_candidate_once | When_no_progress_due | When_suspension_reminder_due
datatype note_expr = Note string | Note_from_terminal_compare | Note_from_admission
datatype cancel_target = Target_current | Target_evidence_session

text \<open>
  \<open>T_hold reason until onExpire meshOnly generationAgnostic\<close>; \<open>T_commit outcome strength reason
  recordedReportText\<close>; \<open>T_notify notify when evidenceGeneration\<close>; \<open>T_cancel_dispatch target
  notIntentionalCleanup\<close>.
\<close>

datatype effect_template =
    T_act action_id
  | T_hold hold_reason_expr until_expr hold_on_expire bool bool
  | T_release release_expr
  | T_commit outcome_expr commit_strength commit_reason_expr bool
  | T_reclaim reclaim_reason_expr
  | T_notify notify_expr notify_when bool
  | T_adopt_prev_generation
  | T_bus bus_phase
  | T_record note_expr
  | T_cancel_dispatch cancel_target bool
  | T_redeliver
  | T_probe
  | T_reevaluate

datatype rule_to = To turn_state | To_same | To_outcome
datatype rule_verdict = RV_applied | RV_recorded

record transition_rule =
  r_id :: string
  r_lane :: rule_lane
  r_from :: rule_from
  r_on :: "turn_evidence_kind list"
  r_guard :: "guard_id option"
  r_to :: rule_to
  r_verdict :: rule_verdict
  r_effects :: "effect_template list"

definition rule :: "string \<Rightarrow> rule_lane \<Rightarrow> rule_from \<Rightarrow> turn_evidence_kind list \<Rightarrow> guard_id option
    \<Rightarrow> rule_to \<Rightarrow> rule_verdict \<Rightarrow> effect_template list \<Rightarrow> transition_rule" where
  "rule i lane from on guard to verdict effs =
     \<lparr>r_id = i, r_lane = lane, r_from = from, r_on = on, r_guard = guard, r_to = to,
      r_verdict = verdict, r_effects = effs\<rparr>"

abbreviation stA :: turn_state where "stA \<equiv> S_accepted"
abbreviation stD :: turn_state where "stD \<equiv> S_delivered"
abbreviation stC :: turn_state where "stC \<equiv> S_consumed"
abbreviation stG :: turn_state where "stG \<equiv> S_generating"
abbreviation stS :: turn_state where "stS \<equiv> S_suspended"
abbreviation stF :: turn_state where "stF \<equiv> S_finalizing"

definition AWAITS :: "hold_reason list" where
  "AWAITS = [H_await_delivery, H_await_consume, H_await_turn]"

definition livenessExtend :: effect_template where
  "livenessExtend = T_hold (HR H_liveness) U_liveness X_escalate False False"

definition weakCandidate :: "effect_template list" where
  "weakCandidate = [
     T_act Act_weak_candidate,
     T_hold (HR H_weak_candidate) U_weak_confirm X_commit False False,
     T_notify (Nt N_candidate) When_candidate_once False]"

definition awaitReport :: "effect_template list" where
  "awaitReport = [
     T_act Act_await_report,
     T_release (Rel [H_weak_candidate]),
     T_hold (HR H_await_report) U_await_report X_commit True False]"

section \<open>The table\<close>

definition rules_open :: "transition_rule list" where
  "rules_open = [
     rule ''WR'' Lane_current (From [S_stopping])
       (filter (\<lambda>k. k \<noteq> K_coordinator_ack) TURN_EVIDENCE_KINDS) None To_same RV_applied
       [T_record (Note ''writer_stop_checkpoint_pending'')],
     rule ''R1'' Lane_none From_none [K_dispatch_accepted] None (To stA) RV_applied
       [T_act Act_open_dispatch,
        T_hold (HR H_await_delivery) U_await_delivery X_reclaim True False,
        T_hold (HR H_hard_ceiling) U_hard_ceiling X_escalate True True],
     rule ''R1r'' Lane_current (From [stA]) [K_dispatch_accepted] None To_same RV_applied
       [T_act Act_rebind_dispatch],
     rule ''R0a'' Lane_none From_none [K_turn_started] (Some G_unbound) (To stG) RV_applied
       [T_act Act_open_plain, T_act Act_consume, T_bus Ph_started],
     rule ''R0b'' Lane_none From_none [K_turn_started] (Some G_bound) To_same RV_recorded
       [T_record (Note ''no_attempt'')],
     rule ''R0'' Lane_none From_none
       (filter (\<lambda>k. k \<noteq> K_dispatch_accepted \<and> k \<noteq> K_turn_started) TURN_EVIDENCE_KINDS) None To_same RV_recorded
       [T_record (Note ''no_attempt'')]]"

definition rules_stale :: "transition_rule list" where
  "rules_stale = [
     rule ''R27a'' Lane_stale (From [stA, stD]) [K_turn_end, K_worker_report, K_transcript_final]
       (Some G_prev_generation_completion) To_outcome RV_applied
       [T_adopt_prev_generation],
     rule ''R27'' Lane_stale (From [stC, stG, stS, stF, S_completed, S_blocked, S_failed, S_cancelled])
       [K_turn_end, K_worker_report, K_transcript_final] (Some G_prev_generation_completion) To_same RV_recorded
       [T_record (Note ''late_completion_prev_generation''),
        T_notify (Nt N_late_completion) When_always True],
     rule ''R28a'' Lane_stale From_any [K_turn_started] (Some G_stale_session_distinct) To_same RV_recorded
       [T_record (Note ''stale_generation''), T_cancel_dispatch Target_evidence_session False],
     rule ''R28'' Lane_stale From_any TURN_EVIDENCE_KINDS (Some G_otherwise) To_same RV_recorded
       [T_record (Note ''stale_generation'')]]"

definition rules_delivery :: "transition_rule list" where
  "rules_delivery = [
     rule ''R2s'' Lane_current (From [stA, stD]) [K_delivered] (Some G_held_provider_setup) (To stD) RV_applied
       [T_act Act_mark_delivered, T_release (Rel AWAITS)],
     rule ''R2'' Lane_current (From [stA, stD]) [K_delivered] (Some G_otherwise) (To stD) RV_applied
       [T_act Act_mark_delivered,
        T_release (Rel [H_await_delivery]),
        T_hold (HR H_await_consume) U_await_consume X_redeliver True False,
        T_hold (HR H_await_turn) U_await_turn X_reclaim True False],
     rule ''R2a'' Lane_current (From [stC, stG, stS, stF]) [K_delivered] None To_same RV_recorded
       [T_record (Note ''late_delivery_ack'')],
     rule ''R3'' Lane_current (From [stA, stD]) [K_delivery_refused] (Some G_reclaiming_refusal) (To stA) RV_applied
       [T_reclaim RRs_from_refusal],
     rule ''R3a'' Lane_current (From [stA, stD]) [K_delivery_refused] (Some G_otherwise) To_same RV_recorded
       [T_record (Note ''delivery_refused_retryable'')],
     rule ''R24'' Lane_current (From [stA, stD]) [K_dispatch_failed] None (To stA) RV_applied
       [T_act Act_worker_absent, T_reclaim (RRs Rs_dispatch_failed)],
     rule ''R25'' Lane_current (From [stA, stD]) [K_duplicate_dispatch_refusal] (Some G_holder_is_this_attempt)
       (To stC) RV_applied
       [T_act Act_rebind_to_holder, T_act Act_consume, T_release (Rel AWAITS), livenessExtend],
     rule ''R25a'' Lane_current (From [stA, stD]) [K_duplicate_dispatch_refusal] (Some G_otherwise) To_same RV_recorded
       [T_record (Note ''foreign_holder'')],
     rule ''R26'' Lane_current From_nonterminal [K_session_rebound] None To_same RV_applied
       [T_act Act_rebind]]"

definition rules_suspension :: "transition_rule list" where
  "rules_suspension = [
     rule ''R4'' Lane_current (From [stA, stD, stC]) [K_turn_started] None (To stG) RV_applied
       [T_act Act_consume, T_release (Rel AWAITS), livenessExtend, T_bus Ph_started,
        T_act Act_apply_held_suspension],
     rule ''R5s'' Lane_current (From [stA, stD]) [K_suspension] (Some G_confirmed_provider_setup) To_same RV_applied
       [T_act Act_suspend, T_release (Rel AWAITS),
        T_hold (HR H_suspension_before_consumed) U_none X_release False False,
        T_bus Ph_suspended, T_notify Nt_from_modal When_always False],
     rule ''R5'' Lane_current (From [stA, stD]) [K_suspension] (Some G_otherwise) To_same RV_applied
       [T_hold (HR H_suspension_before_consumed) U_none X_release False False],
     rule ''R5stale'' Lane_current (From [stA, stD, stS]) [K_suspension_resolved]
       (Some G_stale_modal_resolution) To_same RV_recorded
       [T_record (Note ''stale_modal_resolution'')],
     rule ''R5bs'' Lane_current (From [stA, stD]) [K_suspension_resolved] (Some G_held_provider_setup)
       To_same RV_applied
       [T_release (Rel [H_suspension_before_consumed]), T_act Act_resume,
        T_hold (HR H_await_consume) U_await_consume X_redeliver True False,
        T_hold (HR H_await_turn) U_await_turn X_reclaim True False],
     rule ''R5b'' Lane_current (From [stA, stD]) [K_suspension_resolved] (Some G_otherwise) To_same RV_applied
       [T_release (Rel [H_suspension_before_consumed])],
     rule ''R6'' Lane_current (From [stC, stG, stF]) [K_suspension] None (To stS) RV_applied
       [T_act Act_suspend,
        T_release (Rel [H_weak_candidate, H_live_pending, H_transcript_quiet, H_await_report]),
        T_bus Ph_suspended, T_notify Nt_from_modal When_always False],
     rule ''R6s'' Lane_current (From [stS]) [K_suspension] (Some G_suspension_changed) (To stS) RV_applied
       [T_act Act_suspend, T_bus Ph_suspended, T_notify Nt_from_modal When_always False],
     rule ''R6d'' Lane_current (From [stS]) [K_suspension] (Some G_otherwise) To_same RV_recorded
       [T_record (Note ''duplicate_suspension'')],
     rule ''R7'' Lane_current (From [stS]) [K_suspension_resolved] (Some G_otherwise) (To stG) RV_applied
       [T_act Act_resume, T_bus Ph_resumed, T_notify (Nt N_approval_resolved) When_always False],
     rule ''R8'' Lane_current (From [stS]) [K_turn_started, K_transcript_activity] None (To stG) RV_applied
       [T_act Act_resume_by_activity,
        T_release (Rel [H_live_pending, H_transcript_quiet, H_weak_candidate]),
        livenessExtend, T_bus Ph_resumed]]"

definition rules_turn_end :: "transition_rule list" where
  "rules_turn_end = [
     rule ''R9'' Lane_current (From [stC, stG, stS]) [K_turn_end] (Some G_end_genuine) (To S_completed) RV_applied
       [T_commit (Oc O_completed) Str_genuine (CRs Rs_turn_end) False],
     rule ''R9f'' Lane_current (From [stC, stG, stS, stF]) [K_turn_end] (Some G_end_provider_failure)
       (To S_failed) RV_applied
       [T_commit (Oc O_failed) Str_genuine CRs_from_provider_failure False],
     rule ''R10'' Lane_current (From [stC, stG, stS]) [K_turn_end] (Some G_end_weak) (To stF) RV_applied
       weakCandidate,
     rule ''R10a'' Lane_current (From [stF]) [K_turn_end, K_transcript_final] (Some G_weak_end_or_final)
       To_same RV_recorded
       [T_record (Note ''duplicate_weak_end'')],
     rule ''R11'' Lane_current (From [stF]) [K_turn_end, K_transcript_final] (Some G_genuine_end_or_strong_final)
       (To S_completed) RV_applied
       [T_commit (Oc O_completed) Str_genuine (CRs Rs_transcript_final) False],
     rule ''R12'' Lane_current (From [stF]) [K_turn_started, K_transcript_activity] (Some G_after_weak_since)
       (To stG) RV_applied
       [T_act Act_clear_weak, T_act Act_activity, T_release (Rel [H_weak_candidate]), livenessExtend],
     rule ''R13b'' Lane_current (From [stC, stG, stS, stF]) [K_turn_end] (Some G_end_weak_after_timeout)
       (To S_failed) RV_applied
       [T_commit (Oc O_failed) Str_weak (CRs Rs_finalization_timeout_no_response) False],
     rule ''R14'' Lane_current (From [stC, stG, stS]) [K_transcript_final] (Some G_final_strong)
       (To S_completed) RV_applied
       [T_commit (Oc O_completed) Str_genuine (CRs Rs_transcript_final) False],
     rule ''R15'' Lane_current (From [stC, stG, stS]) [K_transcript_final] (Some G_final_weak) (To stF) RV_applied
       weakCandidate,
     rule ''R15p'' Lane_current (From [stC, stG, stS]) [K_transcript_final] (Some G_final_weak_probe)
       (To stF) RV_applied
       awaitReport,
     rule ''R16'' Lane_current (From [stC, stG, stS, stF]) [K_turn_end, K_transcript_final]
       (Some G_admission_hold) To_same RV_applied
       [T_hold HR_from_admission U_admission X_reevaluate False False],
     rule ''R16a'' Lane_current (From [stC, stG, stS, stF]) [K_transcript_final] (Some G_admission_decline)
       To_same RV_recorded
       [T_record Note_from_admission],
     rule ''R33'' Lane_current (From [stC, stG, stS, stF]) [K_turn_end] (Some G_hollow_retry) (To stA) RV_applied
       [T_act Act_hollow, T_reclaim (RRs Rs_hollow_completion)],
     rule ''R9r'' Lane_current (From [stC, stG, stS, stF]) [K_turn_end] (Some G_end_report_awaited)
       (To stF) RV_applied
       awaitReport,
     rule ''R9d'' Lane_current (From [stF]) [K_turn_end] (Some G_end_report_awaited_held) To_same RV_recorded
       [T_record (Note ''await_report_duplicate_end'')],
     rule ''R11d'' Lane_current (From [stF]) [K_transcript_final] (Some G_final_strong_report_awaited)
       To_same RV_recorded
       [T_record (Note ''await_report_transcript_final'')],
     rule ''R12r'' Lane_current (From [stF]) [K_turn_started, K_transcript_activity] (Some G_false_idle_resumed)
       (To stG) RV_applied
       [T_act Act_false_idle, T_release (Rel [H_await_report]), livenessExtend, T_bus Ph_resumed,
        T_record (Note ''false_idle_worker_resumed'')],
     rule ''R33f'' Lane_current (From [stC, stG, stS, stF]) [K_turn_end] (Some G_hollow_exhausted)
       (To S_failed) RV_applied
       [T_act Act_hollow, T_commit (Oc O_failed) Str_genuine (CRs Rs_hollow_max_retries) False]]"

definition rules_report :: "transition_rule list" where
  "rules_report = [
     rule ''R17'' Lane_current (From [stA, stD, stF]) [K_worker_report] None To_outcome RV_applied
       [T_commit Oc_from_report Str_tool_report (CRs Rs_worker_reported) False],
     rule ''R17g'' Lane_current (From [stC, stG, stS]) [K_worker_report] None To_same RV_applied
       [T_act Act_record_report,
        T_hold (HR H_await_end) U_await_end X_commit True False,
        T_record (Note ''report_awaits_end'')],
     rule ''R9t'' Lane_current (From [stC, stG, stS, stF]) [K_turn_end, K_transcript_final, K_no_progress]
       (Some G_finished_after_report) To_outcome RV_applied
       [T_commit Oc_from_recorded_report Str_tool_report (CRs Rs_worker_reported) True],
     rule ''R13t'' Lane_current (From [stC, stG, stS, stF]) [K_hold_expired] (Some G_hold_await_end)
       To_outcome RV_applied
       [T_commit Oc_from_recorded_report Str_tool_report (CRs Rs_worker_reported) True],
     rule ''R17ps'' Lane_current (From [stA, stD]) [K_worker_progress] None (To stC) RV_applied
       [T_act Act_consume, T_release (Rel AWAITS), livenessExtend, T_act Act_apply_held_suspension,
        T_bus Ph_progress],
     rule ''R17p'' Lane_current (From [stC, stG, stS, stF]) [K_worker_progress] None To_same RV_applied
       [T_act Act_activity, livenessExtend, T_bus Ph_progress],
     rule ''R18'' Lane_current From_terminal [K_turn_end, K_transcript_final, K_no_progress]
       (Some G_reported_terminal) To_same RV_recorded
       [T_record (Note ''after_report'')],
     rule ''R19'' Lane_current From_terminal TERMINAL_CLASS_EVIDENCE_KINDS (Some G_otherwise) To_same RV_recorded
       [T_record Note_from_terminal_compare],
     rule ''R34'' Lane_current From_any [K_coordinator_ack] None To_same RV_applied
       [T_act Act_mark_notified]]"

definition rules_session_end :: "transition_rule list" where
  "rules_session_end = [
     rule ''R20r'' Lane_current (From [stC, stG, stS, stF]) [K_process_exit] (Some G_exit_after_report)
       To_outcome RV_applied
       [T_commit Oc_from_recorded_report Str_tool_report (CRs Rs_worker_reported) True],
     rule ''R20'' Lane_current From_nonterminal [K_process_exit] (Some G_no_provider_failure) (To stA) RV_applied
       [T_reclaim RRs_from_exit_state],
     rule ''R20f'' Lane_current From_nonterminal [K_process_exit] (Some G_provider_failure) (To S_failed) RV_applied
       [T_commit (Oc O_failed) Str_genuine CRs_from_provider_failure False],
     rule ''R21'' Lane_current From_nonterminal [K_session_error] None (To S_failed) RV_applied
       [T_commit (Oc O_failed) Str_genuine CRs_from_session_error False],
     rule ''R22'' Lane_current From_nonterminal [K_cancel] None (To S_cancelled) RV_applied
       [T_cancel_dispatch Target_current True,
        T_commit (Oc O_cancelled) Str_operator CRs_from_cancel False],
     rule ''R23s'' Lane_current (From [stF]) [K_operator_status] (Some G_settle_idle_report_owed)
       (To S_failed) RV_applied
       [T_commit (Oc O_failed) Str_operator CRs_from_operator False],
     rule ''R23'' Lane_current From_nonterminal [K_operator_status] (Some G_otherwise) To_outcome RV_applied
       [T_commit Oc_from_operator Str_operator CRs_from_operator False],
     rule ''R17c'' Lane_current From_nonterminal [K_worker_report_correction_requested] None To_same RV_applied
       [T_act Act_open_report_correction],
     rule ''R29'' Lane_current (From [stC, stG]) [K_no_progress] (Some G_final_present) (To stF) RV_applied
       weakCandidate,
     rule ''R30p'' Lane_current (From [stS]) [K_no_progress] (Some G_parked_suspension_observation)
       To_same RV_applied
       [T_notify Nt_from_suspension When_suspension_reminder_due False],
     rule ''R30'' Lane_current (From [stC, stG, stS, stF]) [K_no_progress] (Some G_otherwise) To_same RV_applied
       [T_notify (Nt N_no_progress) When_no_progress_due False],
     rule ''R31'' Lane_current (From [stC, stG, stS, stF]) [K_liveness] (Some G_liveness_fatal) (To stA) RV_applied
       [T_act Act_liveness_failure, T_reclaim (RRs Rs_session_dead)],
     rule ''R31a'' Lane_current (From [stC, stG, stS, stF]) [K_liveness] (Some G_liveness_failed_nonfatal)
       To_same RV_applied
       [T_act Act_liveness_failure],
     rule ''R32'' Lane_current (From [stC, stG, stS, stF]) [K_liveness, K_transcript_activity, K_turn_started]
       (Some G_activity_keeps_state) To_same RV_applied
       [T_act Act_activity, livenessExtend],
     rule ''R32u'' Lane_current (From [stC, stG, stS, stF]) [K_liveness] (Some G_liveness_unknown)
       To_same RV_applied
       [T_act Act_liveness_unknown,
        T_hold (HR H_liveness) U_liveness_reprobe X_escalate False False],
     rule ''R35'' Lane_current (From [stC, stG, stS, stF]) [K_git_side_effect] None To_same RV_applied
       [T_act Act_store_git]]"

definition rules_hold_expiry :: "transition_rule list" where
  "rules_hold_expiry = [
     rule ''H1'' Lane_current (From [stA]) [K_hold_expired] (Some G_hold_await_delivery) (To stA) RV_applied
       [T_reclaim (RRs Rs_assigned_stranded_dispatch_unconfirmed)],
     rule ''H2'' Lane_current (From [stD]) [K_hold_expired] (Some G_hold_await_consume_redrive) (To stD) RV_applied
       [T_act Act_redrive, T_redeliver,
        T_hold (HR H_await_consume) U_await_consume X_redeliver True False],
     rule ''H2r'' Lane_current (From [stD]) [K_hold_expired] (Some G_hold_await_consume_exhausted) (To stA) RV_applied
       [T_reclaim (RRs Rs_delivered_not_consumed_redrive)],
     rule ''H3'' Lane_current (From [stD]) [K_hold_expired] (Some G_hold_await_turn) (To stA) RV_applied
       [T_reclaim (RRs Rs_delivered_no_turn_deadline)],
     rule ''H4'' Lane_current (From [stC, stG, stS, stF]) [K_hold_expired] (Some G_hold_liveness) To_same RV_applied
       [T_probe, T_hold (HR H_liveness) U_liveness_reprobe X_escalate False False],
     rule ''H5'' Lane_current From_nonterminal [K_hold_expired] (Some G_hold_hard_ceiling) (To S_failed) RV_applied
       [T_commit (Oc O_failed) Str_genuine (CRs Rs_hard_ceiling) False],
     rule ''H6'' Lane_current From_nonterminal [K_hold_expired] (Some G_hold_suspension_before_consumed)
       To_same RV_applied
       [T_release Rel_expired_hold],
     rule ''H7'' Lane_current (From [stC, stG, stS, stF]) [K_hold_expired] (Some G_hold_admission) To_same RV_applied
       [T_release Rel_expired_hold, T_reevaluate],
     rule ''R13d'' Lane_current (From [stF]) [K_hold_expired] (Some G_hold_direct_report_missing) To_same RV_applied
       [T_release Rel_expired_hold, T_record (Note ''direct_completion_report_missing''),
        T_notify (Nt N_candidate) When_candidate_once False],
     rule ''R13a'' Lane_current (From [stF]) [K_hold_expired] (Some G_hold_weak_candidate) (To S_completed) RV_applied
       [T_commit (Oc O_completed) Str_weak (CRs Rs_weak_end_confirmed) False],
     rule ''R13n'' Lane_current (From [stF]) [K_hold_expired] (Some G_hold_native_probe_report_only) To_same RV_applied
       [T_release Rel_expired_hold, T_record (Note ''native_probe_await_report_expired'')],
     rule ''R13q'' Lane_current (From [stF]) [K_hold_expired] (Some G_hold_queue_report_missing) To_same RV_applied
       [T_release Rel_expired_hold, T_record (Note ''queue_completion_report_missing''),
        T_notify (Nt N_candidate) When_candidate_once False],
     rule ''R13r'' Lane_current (From [stF]) [K_hold_expired] (Some G_hold_await_report) (To S_completed) RV_applied
       [T_commit (Oc O_completed) Str_weak (CRs Rs_weak_end_confirmed) False],
     rule ''R13u'' Lane_current (From [stF]) [K_hold_expired] (Some G_hold_end_unconfirmed_defer) To_same RV_applied
       [T_act Act_defer_unconfirmed_end, T_probe],
     rule ''R13x'' Lane_current (From [stF]) [K_hold_expired] (Some G_hold_end_unconfirmed_exhausted)
       (To S_failed) RV_applied
       [T_commit (Oc O_failed) Str_weak (CRs Rs_weak_end_liveness_unconfirmed) False],
     rule ''R13z'' Lane_current (From [stF]) [K_hold_expired] (Some G_hold_end_probe_missing) (To S_failed) RV_applied
       [T_commit (Oc O_failed) Str_weak (CRs Rs_weak_end_probe_unobserved) False],
     rule ''R13c'' Lane_current From_nonterminal [K_hold_expired] (Some G_hold_report_correction)
       (To S_failed) RV_applied
       [T_commit (Oc O_failed) Str_weak (CRs Rs_report_correction_expired) False],
     rule ''H0'' Lane_current From_any [K_hold_expired] (Some G_otherwise) To_same RV_recorded
       [T_record (Note ''hold_stale'')]]"

definition TRANSITIONS :: "transition_rule list" where
  "TRANSITIONS = rules_open @ rules_stale @ rules_delivery @ rules_suspension @ rules_turn_end
     @ rules_report @ rules_session_end @ rules_hold_expiry"

definition NONTERMINAL :: "turn_state list" where
  "NONTERMINAL = [stA, stD, stC, stG, stS, stF]"

definition TERMINAL :: "turn_state list" where
  "TERMINAL = [S_completed, S_blocked, S_failed, S_cancelled]"

fun ruleAdmitsState :: "rule_from \<Rightarrow> turn_state option \<Rightarrow> bool" where
  "ruleAdmitsState from None = (from = From_none)"
| "ruleAdmitsState From_none (Some s) = False"
| "ruleAdmitsState From_any (Some s) = True"
| "ruleAdmitsState From_nonterminal (Some s) = (s \<in> set NONTERMINAL)"
| "ruleAdmitsState From_terminal (Some s) = (s \<in> set TERMINAL)"
| "ruleAdmitsState (From ss) (Some s) = (s \<in> set ss)"

lemmas rule_block_defs = rules_open_def rules_stale_def rules_delivery_def rules_suspension_def
  rules_turn_end_def rules_report_def rules_session_end_def rules_hold_expiry_def

end
