(* ===== verification/TurnGuards.thy ===== *)
theory TurnGuards
  imports TurnTransitions
begin

text \<open>
  The first half of \<open>turn-ledger/reducer.ts\<close>: the inputs of the step function, the lane an evidence
  falls in (\<open>classifyLane\<close>), the named guards of the table (\<open>GUARDS\<close>), and the selection of the
  matching rows (\<open>laneCandidates\<close>, \<open>matchingRules\<close>). A guard that needs the attempt is false without
  one, as the source's optional chaining makes it.
\<close>

section \<open>Inputs and lanes\<close>

record reduce_input =
  in_stopConfirmed :: bool
  in_writerUnreachable :: "settled_by option"
  in_attempt :: "turn_attempt option"
  in_holds :: "turn_hold list"
  in_evidence :: turn_evidence
  in_policy :: turn_policy
  in_nowMs :: ms

record reduce_result =
  out_attempt :: "turn_attempt option"
  out_holds :: "turn_hold list"
  out_effects :: "turn_effect list"
  out_verdict :: reduce_verdict
  out_rule :: "string option"
  out_rejection :: "reduce_rejection option"

definition SESSION_PRODUCED_KINDS :: "turn_evidence_kind list" where
  "SESSION_PRODUCED_KINDS =
    [K_turn_started, K_suspension, K_suspension_resolved, K_turn_end, K_transcript_final,
     K_transcript_activity, K_no_progress, K_process_exit, K_session_error, K_worker_report,
     K_worker_progress, K_liveness]"

datatype lane_result = In_lane rule_lane "int option" | Lane_rejected reduce_rejection

definition find_hold :: "ident \<Rightarrow> turn_hold list \<Rightarrow> turn_hold option" where
  "find_hold hid holds = find (\<lambda>h. h_holdId h = hid) holds"

text \<open>A liveness probe that began or answered before the session was rebound.\<close>

definition cut_liveness :: "turn_attempt \<Rightarrow> turn_evidence \<Rightarrow> bool" where
  "cut_liveness a ev =
     (case (ev_body ev, d_livenessSessionCut (a_data a)) of
        (Liveness _ probeStarted, Some sc) \<Rightarrow>
          lc_generation sc = a_generation a
          \<and> (case ev_attemptRef ev of Some r \<Rightarrow> ar_generation r | None \<Rightarrow> a_generation a) = a_generation a
          \<and> (ev_at ev < lc_at sc
             \<or> (case probeStarted of Some t \<Rightarrow> t | None \<Rightarrow> ev_at ev) < lc_at sc)
      | _ \<Rightarrow> False)"

definition classifyLane :: "turn_attempt option \<Rightarrow> turn_evidence \<Rightarrow> turn_hold list \<Rightarrow> lane_result" where
  "classifyLane att ev holds =
     (case att of
        None \<Rightarrow> In_lane Lane_none None
      | Some a \<Rightarrow>
          (case ev_body ev of
             HoldExpired hid _ \<Rightarrow>
               let generation =
                     (case ev_attemptRef ev of
                        Some r \<Rightarrow> Some (ar_generation r)
                      | None \<Rightarrow> (case find_hold hid holds of Some h \<Rightarrow> h_generation h | None \<Rightarrow> None))
               in if (case ev_attemptRef ev of Some r \<Rightarrow> ar_attemptId r \<noteq> a_attemptId a | None \<Rightarrow> False)
                    then Lane_rejected Rej_attempt_mismatch
                  else if generation \<noteq> None \<and> generation \<noteq> Some (a_generation a)
                    then In_lane Lane_stale generation
                  else In_lane Lane_current (Some (a_generation a))
           | _ \<Rightarrow>
               if cut_liveness a ev then Lane_rejected Rej_session_mismatch
               else
                 let sessionProduced = (ev_kind ev \<in> set SESSION_PRODUCED_KINDS)
                 in case ev_attemptRef ev of
                      Some r \<Rightarrow>
                        if ar_attemptId r \<noteq> a_attemptId a then Lane_rejected Rej_attempt_mismatch
                        else if ar_generation r \<noteq> a_generation a
                          then In_lane Lane_stale (Some (ar_generation r))
                        else if sessionProduced \<and> \<not> same_session (ev_sessionId ev) (a_sessionId a)
                          then Lane_rejected Rej_session_mismatch
                        else In_lane Lane_current (Some (ar_generation r))
                    | None \<Rightarrow>
                        if \<not> sessionProduced then In_lane Lane_current (Some (a_generation a))
                        else if same_session (ev_sessionId ev) (a_sessionId a)
                          then In_lane Lane_current (Some (a_generation a))
                        else (case a_prevGeneration a of
                                Some pg \<Rightarrow>
                                  if same_session (ev_sessionId ev) (pg_sessionId pg)
                                  then In_lane Lane_stale (Some (a_generation a - 1))
                                  else Lane_rejected Rej_session_mismatch
                              | None \<Rightarrow> Lane_rejected Rej_session_mismatch)))"

section \<open>Guards\<close>

record guard_ctx =
  g_attempt :: "turn_attempt option"
  g_holds :: "turn_hold list"
  g_evidence :: turn_evidence
  g_policy :: turn_policy
  g_nowMs :: ms
  g_effectiveGeneration :: "int option"

definition isMeshScope :: "turn_attempt \<Rightarrow> bool" where
  "isMeshScope a \<longleftrightarrow> a_scope a \<noteq> Plain"

definition test_attempt :: "guard_ctx \<Rightarrow> (turn_attempt \<Rightarrow> bool) \<Rightarrow> bool" where
  "test_attempt ctx P = (case g_attempt ctx of None \<Rightarrow> False | Some a \<Rightarrow> P a)"

definition admissionOf :: "guard_ctx \<Rightarrow> evidence_admission option" where
  "admissionOf ctx =
     (case ev_body (g_evidence ctx) of
        TranscriptFinal b \<Rightarrow> Some (admitTranscriptFinal (g_evidence ctx) b (g_policy ctx))
      | TurnEnd b \<Rightarrow> Some (admitTurnEnd (g_evidence ctx) b (g_policy ctx))
      | _ \<Rightarrow> None)"

definition admission_holds :: "guard_ctx \<Rightarrow> bool" where
  "admission_holds ctx = (case admissionOf ctx of Some (Adm_hold _ _) \<Rightarrow> True | _ \<Rightarrow> False)"

definition admission_declines :: "guard_ctx \<Rightarrow> bool" where
  "admission_declines ctx = (case admissionOf ctx of Some (Adm_decline _) \<Rightarrow> True | _ \<Rightarrow> False)"

definition expiredHold :: "guard_ctx \<Rightarrow> turn_hold option" where
  "expiredHold ctx =
     (case ev_body (g_evidence ctx) of
        HoldExpired hid reason \<Rightarrow>
          (case find_hold hid (g_holds ctx) of
             None \<Rightarrow> None
           | Some h \<Rightarrow>
               if h_reason h \<noteq> reason
                  \<or> (case g_attempt ctx of Some a \<Rightarrow> h_attemptId h \<noteq> a_attemptId a | None \<Rightarrow> False)
               then None else Some h)
      | _ \<Rightarrow> None)"

definition holdIs :: "guard_ctx \<Rightarrow> hold_reason list \<Rightarrow> bool" where
  "holdIs ctx reasons = (case expiredHold ctx of None \<Rightarrow> False | Some h \<Rightarrow> h_reason h \<in> set reasons)"

definition activityAt :: "turn_evidence \<Rightarrow> ms" where
  "activityAt ev = (case ev_body ev of TranscriptActivity t \<Rightarrow> t | _ \<Rightarrow> ev_at ev)"

definition afterWeakSince :: "guard_ctx \<Rightarrow> bool" where
  "afterWeakSince ctx =
     test_attempt ctx (\<lambda>a. case a_weakSince a of None \<Rightarrow> False | Some t \<Rightarrow> activityAt (g_evidence ctx) > t)"

definition turnEnd :: "guard_ctx \<Rightarrow> turn_end_body option" where
  "turnEnd ctx = (case ev_body (g_evidence ctx) of TurnEnd b \<Rightarrow> Some b | _ \<Rightarrow> None)"

definition completionEnd :: "guard_ctx \<Rightarrow> turn_end_body option" where
  "completionEnd ctx =
     (case turnEnd ctx of
        Some b \<Rightarrow> if te_providerFailure b = None \<and> te_nativeOutcome b \<noteq> Some NT_failed then Some b else None
      | None \<Rightarrow> None)"

definition test_end :: "turn_end_body option \<Rightarrow> (turn_end_body \<Rightarrow> bool) \<Rightarrow> bool" where
  "test_end e P = (case e of None \<Rightarrow> False | Some b \<Rightarrow> P b)"

definition notHeld :: "guard_ctx \<Rightarrow> bool" where
  "notHeld ctx = (\<not> admission_holds ctx)"

definition reportAwaitedEnd :: "guard_ctx \<Rightarrow> bool" where
  "reportAwaitedEnd ctx =
     (test_end (completionEnd ctx) (\<lambda>e. te_strength e = TE_genuine \<and> \<not> te_hollow e \<and> te_reportExpected e)
      \<and> test_attempt ctx isMeshScope)"

definition reportedThisGeneration :: "guard_ctx \<Rightarrow> bool" where
  "reportedThisGeneration ctx =
     test_attempt ctx (\<lambda>a. map_option rr_generation (d_report (a_data a)) = Some (a_generation a))"

definition exitAfterReport :: "guard_ctx \<Rightarrow> bool" where
  "exitAfterReport ctx =
     ((case ev_body (g_evidence ctx) of ProcessExit _ failure \<Rightarrow> failure = None | _ \<Rightarrow> False)
      \<and> reportedThisGeneration ctx
      \<and> list_ex (\<lambda>h. h_reason h = H_await_end
           \<and> (case g_attempt ctx of None \<Rightarrow> True | Some a \<Rightarrow> h_attemptId h = a_attemptId a)) (g_holds ctx))"

definition finishedAfterReport :: "guard_ctx \<Rightarrow> bool" where
  "finishedAfterReport ctx =
     (reportedThisGeneration ctx
      \<and> (case ev_body (g_evidence ctx) of
           TurnEnd _ \<Rightarrow> \<not> admission_holds ctx
         | TranscriptFinal _ \<Rightarrow> \<not> admission_holds ctx
         | NoProgress _ _ finalPresent \<Rightarrow> finalPresent
         | _ \<Rightarrow> False))"

definition finalWeak :: "guard_ctx \<Rightarrow> bool" where
  "finalWeak ctx =
     (ev_kind (g_evidence ctx) = K_transcript_final \<and> admissionOf ctx = Some Adm_weak
      \<and> \<not> reportedThisGeneration ctx)"

definition OWNER_SCRAPE_SOURCES :: "evidence_source_id list" where
  "OWNER_SCRAPE_SOURCES = [Src_coordinator_probe, Src_mcp_probe]"

definition ownerScrapedMeshFinal :: "guard_ctx \<Rightarrow> bool" where
  "ownerScrapedMeshFinal ctx =
     (ev_kind (g_evidence ctx) = K_transcript_final
      \<and> ev_source (g_evidence ctx) \<in> set OWNER_SCRAPE_SOURCES
      \<and> test_attempt ctx isMeshScope)"

definition ownerProbedQueueNativeCompletion :: "guard_ctx \<Rightarrow> bool" where
  "ownerProbedQueueNativeCompletion ctx =
     ((case ev_body (g_evidence ctx) of
         TranscriptFinal b \<Rightarrow> tf_nativeRead b \<and> map_option nm_outcome (tf_nativeMarker b) = Some NT_completed
       | _ \<Rightarrow> False)
      \<and> ev_source (g_evidence ctx) \<in> set OWNER_SCRAPE_SOURCES
      \<and> test_attempt ctx (\<lambda>a. a_scope a = Mesh_queue)
      \<and> admissionOf ctx = Some Adm_strong)"

definition awaitReportHeld :: "guard_ctx \<Rightarrow> bool" where
  "awaitReportHeld ctx =
     test_attempt ctx (\<lambda>a. list_ex (\<lambda>h. h_reason h = H_await_report \<and> h_attemptId h = a_attemptId a) (g_holds ctx))"

definition freshEndProbe :: "guard_ctx \<Rightarrow> bool" where
  "freshEndProbe ctx =
     test_attempt ctx (\<lambda>a.
       let boundary =
             (case d_unconfirmedEndDeferral (a_data a) of
                Some u \<Rightarrow> if ud_generation u = a_generation a \<and> ud_requestedAt u \<noteq> None
                          then ud_requestedAt u else map_option h_createdAt (expiredHold ctx)
              | None \<Rightarrow> map_option h_createdAt (expiredHold ctx));
           cutAt = (case d_livenessSessionCut (a_data a) of
                      Some c \<Rightarrow> if lc_generation c = a_generation a then lc_at c else 0
                    | None \<Rightarrow> 0);
           since = max (case boundary of Some b \<Rightarrow> b | None \<Rightarrow> 0) cutAt
       in case d_livenessObservation (a_data a) of
            None \<Rightarrow> False
          | Some ob \<Rightarrow>
              lo_generation ob = a_generation a \<and> truthy (lo_sessionId ob)
              \<and> sessionIdsEquivalent (lo_sessionId ob) (Some (a_sessionId a)) \<and> boundary \<noteq> None
              \<and> lo_probeStartedAt ob \<ge> since \<and> lo_at ob \<ge> since \<and> lo_at ob \<le> g_nowMs ctx
              \<and> g_nowMs ctx - lo_at ob \<le> endProbeGraceMs (g_policy ctx))"

definition correctionPending :: "guard_ctx \<Rightarrow> bool" where
  "correctionPending ctx =
     ((case g_attempt ctx of
         None \<Rightarrow> True
       | Some a \<Rightarrow> map_option rc_generation (d_reportCorrection (a_data a)) = Some (a_generation a))
      \<and> \<not> reportedThisGeneration ctx)"

definition PINNED_FOLLOWUP_SETTLE_EVENT_PREFIX :: string where
  "PINNED_FOLLOWUP_SETTLE_EVENT_PREFIX = ''pinned_followup_supersede:''"

definition settleIdleReportOwed :: "guard_ctx \<Rightarrow> bool" where
  "settleIdleReportOwed ctx =
     (ev_kind (g_evidence ctx) = K_operator_status \<and> ev_source (g_evidence ctx) = Src_scheduler
      \<and> starts_with PINNED_FOLLOWUP_SETTLE_EVENT_PREFIX (ev_eventId (g_evidence ctx))
      \<and> test_attempt ctx (\<lambda>a. a_scope a = Mesh_queue \<and> a_state a = S_finalizing
           \<and> d_writerStop (a_data a) = None)
      \<and> \<not> reportedThisGeneration ctx)"

definition queueReportMissing :: "guard_ctx \<Rightarrow> bool" where
  "queueReportMissing ctx =
     (test_attempt ctx (\<lambda>a. a_scope a = Mesh_queue) \<and> holdIs ctx [H_await_report]
      \<and> \<not> reportedThisGeneration ctx)"

definition nativeProbeReportOnly :: "guard_ctx \<Rightarrow> bool" where
  "nativeProbeReportOnly ctx =
     (case expiredHold ctx of None \<Rightarrow> False
      | Some h \<Rightarrow> map_of (h_data h) ''nativeProbeReportOnly'' = Some (SBool True))"

definition not_direct :: "guard_ctx \<Rightarrow> bool" where
  "not_direct ctx = (\<not> test_attempt ctx (\<lambda>a. a_scope a = Mesh_direct))"

definition endTimer :: "guard_ctx \<Rightarrow> bool" where
  "endTimer ctx =
     (holdIs ctx [H_weak_candidate, H_await_report] \<and> not_direct ctx \<and> \<not> nativeProbeReportOnly ctx
      \<and> \<not> correctionPending ctx \<and> \<not> queueReportMissing ctx)"

definition freshAlive :: "guard_ctx \<Rightarrow> bool" where
  "freshAlive ctx = (freshEndProbe ctx \<and> test_attempt ctx (\<lambda>a. a_lastLiveness a = Some L_alive))"

definition unconfirmedEndDeferrals :: "guard_ctx \<Rightarrow> int" where
  "unconfirmedEndDeferrals ctx =
     (case g_attempt ctx of
        None \<Rightarrow> 0
      | Some a \<Rightarrow>
          (case d_unconfirmedEndDeferral (a_data a) of
             Some u \<Rightarrow> if ud_generation u = a_generation a \<and> ud_requestedAt u \<noteq> None then ud_count u else 0
           | None \<Rightarrow> 0))"

definition guard_end_genuine :: "guard_ctx \<Rightarrow> bool" where
  "guard_end_genuine ctx =
     (test_end (completionEnd ctx) (\<lambda>e. te_strength e = TE_genuine \<and> \<not> te_hollow e)
      \<and> notHeld ctx \<and> \<not> reportAwaitedEnd ctx \<and> \<not> reportedThisGeneration ctx)"

definition guard_end_weak :: "guard_ctx \<Rightarrow> bool" where
  "guard_end_weak ctx =
     (test_end (completionEnd ctx)
        (\<lambda>e. te_strength e = TE_weak \<and> \<not> te_afterFinalizationTimeout e \<and> \<not> te_hollow e)
      \<and> notHeld ctx \<and> \<not> reportedThisGeneration ctx)"

definition guard_final_strong :: "guard_ctx \<Rightarrow> bool" where
  "guard_final_strong ctx =
     (ev_kind (g_evidence ctx) = K_transcript_final \<and> admissionOf ctx = Some Adm_strong
      \<and> \<not> ownerProbedQueueNativeCompletion ctx \<and> \<not> reportedThisGeneration ctx)"

definition guard_prev_generation_completion :: "guard_ctx \<Rightarrow> bool" where
  "guard_prev_generation_completion ctx =
     test_attempt ctx (\<lambda>a.
       case a_prevGeneration a of
         None \<Rightarrow> False
       | Some pg \<Rightarrow>
           g_effectiveGeneration ctx = Some (a_generation a - 1)
           \<and> same_session (ev_sessionId (g_evidence ctx)) (pg_sessionId pg)
           \<and> (case ev_body (g_evidence ctx) of
                WorkerReport _ \<Rightarrow> True
              | TurnEnd b \<Rightarrow> te_strength b = TE_genuine \<and> \<not> te_hollow b \<and> te_providerFailure b = None
                  \<and> te_nativeOutcome b \<noteq> Some NT_failed
              | TranscriptFinal b \<Rightarrow>
                  admitTranscriptFinal (g_evidence ctx) b (g_policy ctx) = Adm_strong
                  \<and> \<not> ownerProbedQueueNativeCompletion ctx
              | _ \<Rightarrow> False))"

definition guard_held_provider_setup :: "guard_ctx \<Rightarrow> bool" where
  "guard_held_provider_setup ctx =
     test_attempt ctx (\<lambda>a.
       \<not> (case ev_body (g_evidence ctx) of
             SuspensionResolved _ _ key \<Rightarrow>
               truthy key \<and> key \<noteq> Option.bind (d_providerSuspension (a_data a)) ps_modalKey
           | _ \<Rightarrow> False)
       \<and> (case d_providerSuspension (a_data a) of
            None \<Rightarrow> False
          | Some ps \<Rightarrow> ps_providerSetup ps \<and> ps_generation ps = a_generation a \<and> ps_resolvedAt ps = None))"

definition guard_activity_keeps_state :: "guard_ctx \<Rightarrow> bool" where
  "guard_activity_keeps_state ctx =
     (case ev_body (g_evidence ctx) of
        Liveness r _ \<Rightarrow> r = L_alive
      | TranscriptActivity _ \<Rightarrow>
          test_attempt ctx (\<lambda>a. a_state a = S_consumed \<or> a_state a = S_generating
             \<or> (a_state a = S_finalizing \<and> \<not> afterWeakSince ctx))
      | TurnStarted _ \<Rightarrow>
          test_attempt ctx (\<lambda>a. a_state a = S_generating \<or> (a_state a = S_finalizing \<and> \<not> afterWeakSince ctx))
      | _ \<Rightarrow> False)"

definition guard_parked_suspension :: "guard_ctx \<Rightarrow> bool" where
  "guard_parked_suspension ctx =
     ((case ev_body (g_evidence ctx) of
         NoProgress _ st _ \<Rightarrow> st = Obs_waiting_approval \<or> st = Obs_waiting_choice
       | _ \<Rightarrow> False)
      \<and> test_attempt ctx (\<lambda>a. a_suspension a \<noteq> None
           \<and> (case d_providerSuspension (a_data a) of
                None \<Rightarrow> False
              | Some ps \<Rightarrow> ps_generation ps = a_generation a \<and> ps_resolvedAt ps = None)))"

definition liveness_is :: "guard_ctx \<Rightarrow> (liveness_result \<Rightarrow> bool) \<Rightarrow> bool" where
  "liveness_is ctx P = (case ev_body (g_evidence ctx) of Liveness r _ \<Rightarrow> P r | _ \<Rightarrow> False)"

fun GUARDS :: "guard_id \<Rightarrow> guard_ctx \<Rightarrow> bool" where
  "GUARDS G_otherwise ctx = True"
| "GUARDS G_unbound ctx = (ev_attemptRef (g_evidence ctx) = None \<and> \<not> truthy (ev_taskId (g_evidence ctx)))"
| "GUARDS G_bound ctx = (ev_attemptRef (g_evidence ctx) \<noteq> None \<or> truthy (ev_taskId (g_evidence ctx)))"
| "GUARDS G_prev_generation_completion ctx = guard_prev_generation_completion ctx"
| "GUARDS G_stale_session_distinct ctx =
     test_attempt ctx (\<lambda>a. \<not> same_session (ev_sessionId (g_evidence ctx)) (a_sessionId a))"
| "GUARDS G_reclaiming_refusal ctx =
     (case ev_body (g_evidence ctx) of DeliveryRefused _ r \<Rightarrow> r \<in> set RECLAIMING_SEND_REFUSALS | _ \<Rightarrow> False)"
| "GUARDS G_stale_modal_resolution ctx =
     (case ev_body (g_evidence ctx) of
        SuspensionResolved _ _ key \<Rightarrow>
          truthy key \<and> test_attempt ctx (\<lambda>a.
            let held = Option.bind (d_providerSuspension (a_data a)) ps_modalKey in truthy held \<and> key \<noteq> held)
      | _ \<Rightarrow> False)"
| "GUARDS G_held_provider_setup ctx = guard_held_provider_setup ctx"
| "GUARDS G_confirmed_provider_setup ctx =
     (case ev_body (g_evidence ctx) of Suspension _ key setup _ \<Rightarrow> setup \<and> truthy key | _ \<Rightarrow> False)"
| "GUARDS G_suspension_changed ctx =
     (case ev_body (g_evidence ctx) of
        Suspension modal key _ _ \<Rightarrow>
          Option.bind (g_attempt ctx) a_suspension \<noteq> Some modal
          \<or> (truthy key \<and> Option.bind (Option.bind (g_attempt ctx) (\<lambda>a. d_providerSuspension (a_data a))) ps_modalKey \<noteq> key)
      | _ \<Rightarrow> False)"
| "GUARDS G_end_genuine ctx = guard_end_genuine ctx"
| "GUARDS G_end_report_awaited ctx =
     (reportAwaitedEnd ctx \<and> notHeld ctx \<and> \<not> awaitReportHeld ctx \<and> \<not> reportedThisGeneration ctx)"
| "GUARDS G_end_report_awaited_held ctx =
     (reportAwaitedEnd ctx \<and> notHeld ctx \<and> awaitReportHeld ctx \<and> \<not> reportedThisGeneration ctx)"
| "GUARDS G_final_strong_report_awaited ctx =
     (ev_kind (g_evidence ctx) = K_transcript_final \<and> admissionOf ctx = Some Adm_strong
      \<and> awaitReportHeld ctx \<and> \<not> reportedThisGeneration ctx)"
| "GUARDS G_finished_after_report ctx = finishedAfterReport ctx"
| "GUARDS G_end_provider_failure ctx =
     (test_end (turnEnd ctx) (\<lambda>e. te_providerFailure e \<noteq> None \<or> te_nativeOutcome e = Some NT_failed)
      \<and> notHeld ctx \<and> \<not> reportedThisGeneration ctx)"
| "GUARDS G_false_idle_resumed ctx =
     (ev_kind (g_evidence ctx) \<in> {K_turn_started, K_transcript_activity}
      \<and> afterWeakSince ctx \<and> awaitReportHeld ctx)"
| "GUARDS G_end_weak ctx = guard_end_weak ctx"
| "GUARDS G_end_weak_after_timeout ctx =
     (test_end (completionEnd ctx)
        (\<lambda>e. te_strength e = TE_weak \<and> te_afterFinalizationTimeout e \<and> \<not> te_hollow e)
      \<and> notHeld ctx \<and> \<not> reportedThisGeneration ctx)"
| "GUARDS G_hollow_retry ctx =
     (test_end (completionEnd ctx) te_hollow \<and> notHeld ctx \<and> \<not> reportedThisGeneration ctx
      \<and> test_attempt ctx (\<lambda>a. a_hollowCount a < a_maxTaskRetries a))"
| "GUARDS G_hollow_exhausted ctx =
     (test_end (completionEnd ctx) te_hollow \<and> notHeld ctx \<and> \<not> reportedThisGeneration ctx
      \<and> test_attempt ctx (\<lambda>a. a_hollowCount a \<ge> a_maxTaskRetries a))"
| "GUARDS G_final_strong ctx = guard_final_strong ctx"
| "GUARDS G_final_weak ctx = (finalWeak ctx \<and> \<not> ownerScrapedMeshFinal ctx)"
| "GUARDS G_final_weak_probe ctx =
     (\<not> reportedThisGeneration ctx
      \<and> ((finalWeak ctx \<and> ownerScrapedMeshFinal ctx) \<or> ownerProbedQueueNativeCompletion ctx))"
| "GUARDS G_genuine_end_or_strong_final ctx =
     (guard_end_genuine ctx \<or> (guard_final_strong ctx \<and> \<not> awaitReportHeld ctx))"
| "GUARDS G_weak_end_or_final ctx =
     (guard_end_weak ctx \<or> finalWeak ctx
      \<or> (ownerProbedQueueNativeCompletion ctx \<and> \<not> awaitReportHeld ctx))"
| "GUARDS G_admission_hold ctx = admission_holds ctx"
| "GUARDS G_admission_decline ctx = (admission_declines ctx \<and> \<not> reportedThisGeneration ctx)"
| "GUARDS G_after_weak_since ctx = (afterWeakSince ctx \<and> \<not> awaitReportHeld ctx)"
| "GUARDS G_activity_keeps_state ctx = guard_activity_keeps_state ctx"
| "GUARDS G_liveness_unknown ctx = liveness_is ctx (\<lambda>r. r = L_unknown)"
| "GUARDS G_liveness_fatal ctx =
     liveness_is ctx (\<lambda>r. r = L_dead \<or> (r = L_read_failed
        \<and> test_attempt ctx (\<lambda>a. a_livenessFailStreak a + 1 \<ge> LIVENESS_FAIL_STREAK_LIMIT)))"
| "GUARDS G_liveness_failed_nonfatal ctx =
     liveness_is ctx (\<lambda>r. r = L_read_failed
        \<and> test_attempt ctx (\<lambda>a. a_livenessFailStreak a + 1 < LIVENESS_FAIL_STREAK_LIMIT))"
| "GUARDS G_reported_terminal ctx =
     test_attempt ctx (\<lambda>a. map_option tt_strength (a_terminal a) = Some Str_tool_report)"
| "GUARDS G_provider_failure ctx =
     (case ev_body (g_evidence ctx) of ProcessExit _ failure \<Rightarrow> failure \<noteq> None | _ \<Rightarrow> False)"
| "GUARDS G_no_provider_failure ctx =
     ((case ev_body (g_evidence ctx) of ProcessExit _ failure \<Rightarrow> failure = None | _ \<Rightarrow> False)
      \<and> \<not> exitAfterReport ctx)"
| "GUARDS G_exit_after_report ctx = exitAfterReport ctx"
| "GUARDS G_holder_is_this_attempt ctx =
     (case ev_body (g_evidence ctx) of
        DuplicateDispatchRefusal _ holder \<Rightarrow> holder = map_option a_attemptId (g_attempt ctx)
      | _ \<Rightarrow> False)"
| "GUARDS G_parked_suspension_observation ctx = guard_parked_suspension ctx"
| "GUARDS G_final_present ctx =
     ((case ev_body (g_evidence ctx) of NoProgress _ _ present \<Rightarrow> present | _ \<Rightarrow> False)
      \<and> \<not> reportedThisGeneration ctx)"
| "GUARDS G_hold_await_delivery ctx = holdIs ctx [H_await_delivery]"
| "GUARDS G_hold_await_consume_redrive ctx =
     (holdIs ctx [H_await_consume] \<and> test_attempt ctx (\<lambda>a. a_redriveCount a < MAX_REDRIVES_PER_GENERATION))"
| "GUARDS G_hold_await_consume_exhausted ctx =
     (holdIs ctx [H_await_consume] \<and> test_attempt ctx (\<lambda>a. a_redriveCount a \<ge> MAX_REDRIVES_PER_GENERATION))"
| "GUARDS G_hold_await_turn ctx = holdIs ctx [H_await_turn]"
| "GUARDS G_hold_liveness ctx = holdIs ctx [H_liveness]"
| "GUARDS G_hold_hard_ceiling ctx = holdIs ctx [H_hard_ceiling]"
| "GUARDS G_hold_suspension_before_consumed ctx = holdIs ctx [H_suspension_before_consumed]"
| "GUARDS G_hold_direct_report_missing ctx =
     (test_attempt ctx (\<lambda>a. a_scope a = Mesh_direct) \<and> holdIs ctx [H_weak_candidate, H_await_report]
      \<and> \<not> correctionPending ctx \<and> \<not> reportedThisGeneration ctx)"
| "GUARDS G_hold_weak_candidate ctx =
     (holdIs ctx [H_weak_candidate] \<and> not_direct ctx \<and> \<not> correctionPending ctx \<and> freshAlive ctx)"
| "GUARDS G_hold_admission ctx = holdIs ctx [H_live_pending, H_transcript_quiet]"
| "GUARDS G_settle_idle_report_owed ctx = settleIdleReportOwed ctx"
| "GUARDS G_hold_queue_report_missing ctx =
     (queueReportMissing ctx \<and> \<not> nativeProbeReportOnly ctx \<and> \<not> correctionPending ctx)"
| "GUARDS G_hold_await_report ctx =
     (holdIs ctx [H_await_report] \<and> not_direct ctx \<and> \<not> nativeProbeReportOnly ctx
      \<and> \<not> correctionPending ctx \<and> \<not> queueReportMissing ctx \<and> freshAlive ctx)"
| "GUARDS G_hold_native_probe_report_only ctx =
     (holdIs ctx [H_await_report] \<and> not_direct ctx \<and> nativeProbeReportOnly ctx
      \<and> \<not> correctionPending ctx \<and> \<not> reportedThisGeneration ctx)"
| "GUARDS G_hold_end_unconfirmed_defer ctx =
     (endTimer ctx \<and> \<not> freshAlive ctx \<and> unconfirmedEndDeferrals ctx < MAX_UNCONFIRMED_END_DEFERRALS)"
| "GUARDS G_hold_end_unconfirmed_exhausted ctx =
     (endTimer ctx \<and> \<not> freshAlive ctx \<and> unconfirmedEndDeferrals ctx \<ge> MAX_UNCONFIRMED_END_DEFERRALS
      \<and> freshEndProbe ctx)"
| "GUARDS G_hold_end_probe_missing ctx =
     (endTimer ctx \<and> \<not> freshEndProbe ctx \<and> unconfirmedEndDeferrals ctx \<ge> MAX_UNCONFIRMED_END_DEFERRALS)"
| "GUARDS G_hold_report_correction ctx = (holdIs ctx [H_report_correction] \<and> \<not> reportedThisGeneration ctx)"
| "GUARDS G_hold_await_end ctx = (holdIs ctx [H_await_end] \<and> reportedThisGeneration ctx)"

section \<open>Rule selection\<close>

definition laneCandidates :: "rule_lane \<Rightarrow> turn_state option \<Rightarrow> turn_evidence_kind \<Rightarrow> transition_rule list" where
  "laneCandidates lane state kind =
     filter (\<lambda>r. r_lane r = lane \<and> ruleAdmitsState (r_from r) state \<and> kind \<in> set (r_on r)) TRANSITIONS"

definition ctx_of :: "reduce_input \<Rightarrow> int option \<Rightarrow> guard_ctx" where
  "ctx_of i gen = \<lparr>g_attempt = in_attempt i, g_holds = in_holds i, g_evidence = in_evidence i,
     g_policy = in_policy i, g_nowMs = in_nowMs i, g_effectiveGeneration = gen\<rparr>"

definition guard_passes :: "guard_ctx \<Rightarrow> transition_rule \<Rightarrow> bool" where
  "guard_passes ctx r =
     (case r_guard r of None \<Rightarrow> True | Some G_otherwise \<Rightarrow> False | Some g \<Rightarrow> GUARDS g ctx)"

definition select_rules :: "guard_ctx \<Rightarrow> transition_rule list \<Rightarrow> transition_rule list" where
  "select_rules ctx candidates =
     (let specific = filter (guard_passes ctx) candidates
      in if specific \<noteq> [] then specific else filter (\<lambda>r. r_guard r = Some G_otherwise) candidates)"

definition matchingRules :: "reduce_input \<Rightarrow> transition_rule list" where
  "matchingRules i =
     (case classifyLane (in_attempt i) (in_evidence i) (in_holds i) of
        Lane_rejected _ \<Rightarrow> []
      | In_lane lane gen \<Rightarrow>
          select_rules (ctx_of i gen)
            (laneCandidates lane (map_option a_state (in_attempt i)) (ev_kind (in_evidence i))))"

end
