(* ===== verification/TurnReducer.thy ===== *)
theory TurnReducer
  imports TurnGuards "HOL-Library.Product_Lexorder" "HOL-Library.List_Lexorder" "HOL-Library.Char_ord"
begin

text \<open>
  The second half of \<open>turn-ledger/reducer.ts\<close> (with \<open>reducer-attempt.ts\<close> and \<open>reclaim-reasons.ts\<close>):
  the pure step function of the turn ledger, \<open>(attempt, holds, evidence, policy, now)\<close> to the next
  attempt, holds and effects. A row of the table is run by applying its effect templates in order to
  a draft.

  The mutable draft is a record passed along. The draft's hold map is an association list keyed by
  hold id. Where the source dereferences \<open>draft.attempt!\<close>, \<open>on_attempt\<close> does nothing when there is no
  attempt; the first template of every rule that can run without one creates it.
  \<open>cloneAttempt\<close> is the identity here: records are values, so the copy has no counterpart.
\<close>

section \<open>Drafts\<close>

record draft =
  dr_attempt :: "turn_attempt option"
  dr_holds :: "(ident \<times> turn_hold) list"
  dr_effects :: "turn_effect list"
  dr_ctx :: guard_ctx
  dr_committed :: bool

definition on_attempt :: "(turn_attempt \<Rightarrow> draft \<Rightarrow> draft) \<Rightarrow> draft \<Rightarrow> draft" where
  "on_attempt f d = (case dr_attempt d of None \<Rightarrow> d | Some a \<Rightarrow> f a d)"

definition upd_attempt :: "(turn_attempt \<Rightarrow> turn_attempt) \<Rightarrow> draft \<Rightarrow> draft" where
  "upd_attempt f d = d\<lparr>dr_attempt := map_option f (dr_attempt d)\<rparr>"

definition upd_data :: "(turn_attempt_data \<Rightarrow> turn_attempt_data) \<Rightarrow> draft \<Rightarrow> draft" where
  "upd_data f = upd_attempt (\<lambda>a. a\<lparr>a_data := f (a_data a)\<rparr>)"

definition push :: "turn_effect \<Rightarrow> draft \<Rightarrow> draft" where
  "push e d = d\<lparr>dr_effects := dr_effects d @ [e]\<rparr>"

abbreviation dr_ev :: "draft \<Rightarrow> turn_evidence" where "dr_ev d \<equiv> g_evidence (dr_ctx d)"
abbreviation dr_now :: "draft \<Rightarrow> ms" where "dr_now d \<equiv> g_nowMs (dr_ctx d)"

fun hold_reason_name :: "hold_reason \<Rightarrow> string" where
  "hold_reason_name H_await_delivery = ''await_delivery''"
| "hold_reason_name H_await_consume = ''await_consume''"
| "hold_reason_name H_await_turn = ''await_turn''"
| "hold_reason_name H_liveness = ''liveness''"
| "hold_reason_name H_hard_ceiling = ''hard_ceiling''"
| "hold_reason_name H_live_pending = ''live_pending''"
| "hold_reason_name H_transcript_quiet = ''transcript_quiet''"
| "hold_reason_name H_weak_candidate = ''weak_candidate''"
| "hold_reason_name H_suspension_before_consumed = ''suspension_before_consumed''"
| "hold_reason_name H_await_report = ''await_report''"
| "hold_reason_name H_await_end = ''await_end''"
| "hold_reason_name H_report_correction = ''report_correction''"

definition holdId :: "ident \<Rightarrow> hold_reason \<Rightarrow> ident" where
  "holdId attemptId reason = attemptId @ '':'' @ hold_reason_name reason"

definition resolveUntil :: "until_expr \<Rightarrow> draft \<Rightarrow> ms option" where
  "resolveUntil expr d =
     (let p = g_policy (dr_ctx d); now = dr_now d; ev = dr_ev d
      in case expr of
           U_none \<Rightarrow> None
         | U_await_delivery \<Rightarrow> Some (now + awaitDeliveryMs p)
         | U_await_consume \<Rightarrow>
             Some (now + consumeGraceFor p (case dr_attempt d of Some a \<Rightarrow> a_consumeProfile a | None \<Rightarrow> CP_default))
         | U_await_turn \<Rightarrow> Some (now + noTurnDeadlineMs p)
         | U_liveness \<Rightarrow> Some (now + livenessDeadlineMs p)
         | U_hard_ceiling \<Rightarrow> Some (now + hardCeilingMs p)
         | U_weak_confirm \<Rightarrow> Some (now + weakConfirmMs p)
         | U_await_report \<Rightarrow> Some (now + awaitReportMs p)
         | U_await_end \<Rightarrow> Some (now + awaitEndMs p)
         | U_unknown_grace \<Rightarrow> Some (now + unknownLivenessGraceMs p)
         | U_liveness_reprobe \<Rightarrow> Some (now + livenessReArmMs p (awaitReportHeld (dr_ctx d)))
         | U_admission \<Rightarrow>
             (case admissionOf (dr_ctx d) of
                Some (Adm_hold _ hr) \<Rightarrow>
                  Some (admissionHoldUntil hr
                    (case ev_body ev of TranscriptFinal b \<Rightarrow> Some (tf_live b) | TurnEnd b \<Rightarrow> te_live b | _ \<Rightarrow> None)
                    (ev_at ev) p now)
              | _ \<Rightarrow> Some now))"

definition addHold :: "turn_hold \<Rightarrow> draft \<Rightarrow> draft" where
  "addHold h d = push (E_hold h) (d\<lparr>dr_holds := AList.update (h_holdId h) h (dr_holds d)\<rparr>)"

definition release_hit :: "release_reasons \<Rightarrow> hold_reason list \<Rightarrow> turn_hold \<Rightarrow> bool" where
  "release_hit reasons keep h \<longleftrightarrow>
     h_reason h \<notin> set keep
     \<and> (case reasons of All_holds \<Rightarrow> True | Some_holds rs \<Rightarrow> h_reason h \<in> set rs)"

definition releaseHolds :: "release_reasons \<Rightarrow> hold_reason list \<Rightarrow> draft \<Rightarrow> draft" where
  "releaseHolds reasons keep = on_attempt (\<lambda>a d.
     let released = map (h_reason \<circ> snd) (filter (\<lambda>(k, h). release_hit reasons keep h) (dr_holds d));
         d' = d\<lparr>dr_holds := filter (\<lambda>(k, h). \<not> release_hit reasons keep h) (dr_holds d)\<rparr>
     in if released = [] then d'
        else push (E_release_hold (a_attemptId a)
               (if reasons = All_holds \<and> keep = [] then All_holds else Some_holds released)) d')"

text \<open>A text pointer: the summary reference and the local evidence row that carry a notice's text.\<close>

type_synonym text_ref = "summary_ref option \<times> ident option"

definition nonempty_id :: "ident option \<Rightarrow> ident option" where
  "nonempty_id x = (if truthy x then x else None)"

definition notify :: "notify_kind \<Rightarrow> int option \<Rightarrow> text_ref \<Rightarrow> draft \<Rightarrow> draft" where
  "notify kind gen txt = on_attempt (\<lambda>a d.
     if \<not> isMeshScope a then d
     else push (E_notify_coordinator \<lparr>
            ne_attemptId = a_attemptId a,
            ne_generation = (case gen of Some g \<Rightarrow> g | None \<Rightarrow> a_generation a),
            ne_notify = kind, ne_taskId = a_taskId a,
            ne_coordinatorDaemonId = co_daemonId (a_coordinator a),
            ne_coordinatorSessionId = co_sessionId (a_coordinator a),
            ne_summary = fst txt, ne_textEventId = nonempty_id (snd txt)\<rparr>) d)"

definition TEXT_CARRYING_HOLDS :: "hold_reason list" where
  "TEXT_CARRYING_HOLDS = [H_weak_candidate, H_await_report, H_await_end]"

definition heldText :: "draft \<Rightarrow> text_ref" where
  "heldText d =
     (case expiredHold (dr_ctx d) of
        None \<Rightarrow> (None, None)
      | Some h \<Rightarrow>
          if h_reason h \<notin> set TEXT_CARRYING_HOLDS then (None, None)
          else
            ((case (map_of (h_data h) ''summaryTopic'', map_of (h_data h) ''summaryWriter'',
                    map_of (h_data h) ''summarySeq'') of
                (Some (SStr t), Some (SStr w), Some (SNum n)) \<Rightarrow>
                  Some \<lparr>sr_topic = t, sr_writer = w, sr_seq = n\<rparr>
              | _ \<Rightarrow> None),
             (case map_of (h_data h) ''textEventId'' of
                Some (SStr t) \<Rightarrow> nonempty_id (Some t)
              | _ \<Rightarrow> None)))"

definition summaryOf :: "turn_evidence \<Rightarrow> summary_ref option" where
  "summaryOf ev =
     (case ev_body ev of
        TurnEnd b \<Rightarrow> te_summary b
      | TranscriptFinal b \<Rightarrow> tf_summary b
      | WorkerReport b \<Rightarrow> wr_summary b
      | _ \<Rightarrow> None)"

definition recordedReportText :: "draft \<Rightarrow> text_ref" where
  "recordedReportText d =
     (case Option.bind (dr_attempt d) (\<lambda>a. d_report (a_data a)) of
        None \<Rightarrow> (None, None)
      | Some r \<Rightarrow> (rr_summary r, Some (rr_eventId r)))"

section \<open>Writer stop, commit and reclaim\<close>

definition WRITER_STOP_RETRY_MS :: ms where "WRITER_STOP_RETRY_MS = 30000"
definition WRITER_STOP_MAX_TRIES :: int where "WRITER_STOP_MAX_TRIES = 3"

definition requestWriterStop :: "draft \<Rightarrow> draft" where
  "requestWriterStop = on_attempt (\<lambda>a d.
     case d_writerStop (a_data a) of
       None \<Rightarrow> d
     | Some stop \<Rightarrow>
         addHold \<lparr>h_holdId = holdId (a_attemptId a) H_liveness, h_attemptId = a_attemptId a,
                   h_generation = Some (a_generation a), h_reason = H_liveness,
                   h_until = Some (dr_now d + WRITER_STOP_RETRY_MS), h_onExpire = X_escalate,
                   h_data = [], h_createdAt = dr_now d\<rparr>
           (push (E_cancel_dispatch \<lparr>cd_attemptId = a_attemptId a, cd_generation = a_generation a,
                    cd_sessionId = a_sessionId a, cd_messageId = a_messageId a, cd_revokeBind = False,
                    cd_stopRequestId = Some (ws_requestId stop)\<rparr>) d))"

definition beginWriterStop :: "turn_reason \<Rightarrow> draft \<Rightarrow> draft" where
  "beginWriterStop reason = on_attempt (\<lambda>a d.
     if d_writerStop (a_data a) \<noteq> None then d
     else
       requestWriterStop
         (releaseHolds All_holds (if reason = Rs_hard_ceiling then [] else [H_hard_ceiling])
           (upd_attempt (\<lambda>a. a\<lparr>a_state := S_stopping,
               a_data := (a_data a)\<lparr>d_writerStop := Some \<lparr>
                 ws_requestId = ev_eventId (dr_ev d) @ '':writer-stop'', ws_reason = reason,
                 ws_requestedAt = dr_now d, ws_tries = 1, ws_escalated = False, ws_confirmed = False,
                 ws_settledBy = None, ws_terminal = None\<rparr>\<rparr>\<rparr>) d)))"

definition upd_stop :: "(writer_stop \<Rightarrow> writer_stop) \<Rightarrow> draft \<Rightarrow> draft" where
  "upd_stop f = upd_data (\<lambda>x. x\<lparr>d_writerStop := map_option f (d_writerStop x)\<rparr>)"

definition stop_confirmed :: "turn_attempt \<Rightarrow> bool" where
  "stop_confirmed a = (case d_writerStop (a_data a) of None \<Rightarrow> False | Some s \<Rightarrow> ws_confirmed s)"

text \<open>The commits that must first prove the writer quiescent.\<close>

definition stop_first :: "draft \<Rightarrow> turn_reason \<Rightarrow> turn_attempt \<Rightarrow> bool" where
  "stop_first d reason a \<longleftrightarrow>
     isMeshScope a \<and> \<not> stop_confirmed a \<and> \<not> settleIdleReportOwed (dr_ctx d)
     \<and> (reason = Rs_hard_ceiling
        \<or> ev_kind (dr_ev d) \<in> {K_cancel, K_operator_status, K_session_error, K_process_exit})"

definition commit_stop :: "turn_outcome \<Rightarrow> commit_strength \<Rightarrow> turn_reason \<Rightarrow> text_ref option \<Rightarrow> draft \<Rightarrow> draft" where
  "commit_stop outcome strength reason txt d =
     upd_stop (\<lambda>s. s\<lparr>ws_terminal := Some \<lparr>
         st_outcome = outcome, st_strength = strength, st_adoptSessionId = None,
         st_summary = (case txt of Some t \<Rightarrow> fst t | None \<Rightarrow> summaryOf (dr_ev d)),
         st_textEventId = Some (case Option.bind txt snd of Some t \<Rightarrow> t | None \<Rightarrow> ev_eventId (dr_ev d)),
         st_source = Some (ev_source (dr_ev d))\<rparr>\<rparr>)
       (beginWriterStop reason d)"

definition queue_effects :: "turn_attempt \<Rightarrow> turn_outcome \<Rightarrow> turn_reason \<Rightarrow> bool \<Rightarrow> turn_effect list" where
  "queue_effects a outcome reason attemptOnly =
     (case (nonempty_id (a_meshId a), nonempty_id (a_taskId a)) of
        (Some m, Some t) \<Rightarrow>
          (if attemptOnly \<and> stop_confirmed a then [E_queue_status m t Q_pending reason] else [])
          @ (if isMeshScope a \<and> \<not> attemptOnly
             then [E_queue_status m t (Q_outcome outcome) reason, E_task_terminal m t outcome] else [])
      | _ \<Rightarrow> [])"

definition push_all :: "turn_effect list \<Rightarrow> draft \<Rightarrow> draft" where
  "push_all es d = d\<lparr>dr_effects := dr_effects d @ es\<rparr>"

definition held_or :: "text_ref option \<Rightarrow> draft \<Rightarrow> text_ref" where
  "held_or txt d = (case txt of Some t \<Rightarrow> t | None \<Rightarrow> heldText d)"

definition final_terminal ::
  "turn_outcome \<Rightarrow> commit_strength \<Rightarrow> turn_reason \<Rightarrow> text_ref option \<Rightarrow> turn_attempt \<Rightarrow> draft \<Rightarrow> turn_terminal" where
  "final_terminal outcome strength reason txt a d = \<lparr>
     tt_outcome = outcome, tt_reason = reason,
     tt_source = (case Option.bind (Option.bind (d_writerStop (a_data a)) ws_terminal) st_source of
                    Some s \<Rightarrow> s | None \<Rightarrow> ev_source (dr_ev d)),
     tt_strength = strength, tt_at = ev_at (dr_ev d),
     tt_summary = (case txt of Some t \<Rightarrow> fst t
                   | None \<Rightarrow> (case summaryOf (dr_ev d) of Some s \<Rightarrow> Some s | None \<Rightarrow> fst (held_or txt d)))\<rparr>"

definition committed_attempt :: "turn_terminal \<Rightarrow> turn_attempt \<Rightarrow> turn_attempt" where
  "committed_attempt t a =
     a\<lparr>a_state := outcome_state (tt_outcome t), a_suspension := None, a_terminal := Some t\<rparr>"

definition commit_final :: "turn_outcome \<Rightarrow> commit_strength \<Rightarrow> turn_reason \<Rightarrow> text_ref option \<Rightarrow> turn_attempt \<Rightarrow> draft \<Rightarrow> draft" where
  "commit_final outcome strength reason txt a d =
     (let t = final_terminal outcome strength reason txt a d;
          attemptOnly = (reason = Rs_superseded \<and> a_scope a = Mesh_queue);
          d1 = upd_attempt (committed_attempt t) d;
          d2 = push (E_commit \<lparr>ce_attemptId = a_attemptId a, ce_generation = a_generation a,
                 ce_outcome = outcome, ce_strength = strength, ce_reason = reason, ce_source = tt_source t,
                 ce_summary = tt_summary t\<rparr>) d1;
          d3 = push_all (queue_effects a outcome reason attemptOnly) (releaseHolds All_holds [] d2);
          d4 = push (E_bus \<lparr>be_phase = Ph_committed, be_sessionId = a_sessionId a,
                 be_attemptId = a_attemptId a, be_generation = a_generation a,
                 be_outcome = Some outcome, be_strength = Some strength\<rparr>) d3;
          d5 = (if attemptOnly then d4
                else notify (outcome_notify outcome) None (tt_summary t, snd (held_or txt d)) d4)
      in (push (E_release_attempt_ref (a_attemptId a) (a_sessionId a)) d5)\<lparr>dr_committed := True\<rparr>)"

definition commit :: "turn_outcome \<Rightarrow> commit_strength \<Rightarrow> turn_reason \<Rightarrow> text_ref option \<Rightarrow> draft \<Rightarrow> draft" where
  "commit outcome strength reason txt = on_attempt (\<lambda>a d.
     if stop_first d reason a then commit_stop outcome strength reason txt d
     else commit_final outcome strength reason txt a d)"

text \<open>The addressed host refused before any input: the exact, never observed direct dispatch.\<close>

definition refused_before_start :: "turn_evidence \<Rightarrow> turn_attempt \<Rightarrow> bool" where
  "refused_before_start ev a \<longleftrightarrow>
     a_scope a = Mesh_direct \<and> a_state a = S_accepted
     \<and> a_deliveredAt a = None \<and> a_consumedAt a = None
     \<and> a_lastActivityAt a = None \<and> a_lastLiveness a = None
     \<and> a_redriveCount a = 0 \<and> a_reclaimCount a = 0
     \<and> d_writerStop (a_data a) = None \<and> d_report (a_data a) = None
     \<and> (case ev_body ev of
          DispatchFailed workerAbsent reason code \<Rightarrow>
            ev_source ev = Src_dispatch
            \<and> ev_attemptRef ev = Some \<lparr>ar_attemptId = a_attemptId a, ar_generation = a_generation a\<rparr>
            \<and> same_session (ev_sessionId ev) (a_sessionId a)
            \<and> \<not> workerAbsent \<and> reason = DF_rejected_by_worker \<and> code = Some ''dispatch_not_started''
        | _ \<Rightarrow> False)"

definition next_generation :: "turn_attempt \<Rightarrow> turn_attempt" where
  "next_generation a = a\<lparr>
     a_prevGeneration := Some \<lparr>pg_sessionId = a_sessionId a, pg_consumed = (a_consumedAt a \<noteq> None)\<rparr>,
     a_generation := a_generation a + 1, a_reclaimCount := a_reclaimCount a + 1,
     a_state := S_accepted, a_suspension := None, a_deliveredAt := None, a_consumedAt := None,
     a_weakSince := None, a_redriveCount := 0, a_livenessFailStreak := 0, a_lastLiveness := None,
     a_data := (a_data a)\<lparr>d_writerStop := None\<rparr>\<rparr>"

definition requeue :: "turn_reason \<Rightarrow> turn_attempt \<Rightarrow> draft \<Rightarrow> draft" where
  "requeue reason a d =
     (let d1 = upd_attempt next_generation d;
          d2 = push (E_reclaim (a_attemptId a) (a_generation a) (a_generation a + 1) reason) d1;
          d3 = releaseHolds All_holds [H_hard_ceiling] d2;
          d4 = (case (nonempty_id (a_meshId a), nonempty_id (a_taskId a)) of
                  (Some m, Some t) \<Rightarrow>
                    if a_scope a = Mesh_queue then push (E_queue_status m t Q_pending reason) d3 else d3
                | _ \<Rightarrow> d3)
      in addHold \<lparr>h_holdId = holdId (a_attemptId a) H_await_delivery, h_attemptId = a_attemptId a,
           h_generation = Some (a_generation a + 1), h_reason = H_await_delivery,
           h_until = Some (dr_now d + awaitDeliveryMs (g_policy (dr_ctx d))), h_onExpire = X_reclaim,
           h_data = [], h_createdAt = dr_now d\<rparr> d4)"

definition reclaim :: "turn_reason \<Rightarrow> draft \<Rightarrow> draft" where
  "reclaim reason = on_attempt (\<lambda>a d.
     if a_scope a = Plain then commit O_failed Str_genuine reason None d
     else if refused_before_start (dr_ev d) a then commit O_failed Str_genuine Rs_dispatch_failed None d
     else if \<not> stop_confirmed a then beginWriterStop reason d
     else if a_scope a = Mesh_direct then commit O_failed Str_genuine reason None d
     else if a_reclaimCount a \<ge> RECLAIM_BUDGET
       then commit O_failed Str_genuine Rs_reclaim_budget_exhausted None d
     else requeue reason a d)"

definition RECLAIM_TURN_REASONS :: "turn_reason list" where
  "RECLAIM_TURN_REASONS =
    [Rs_dispatch_refused_session_exited, Rs_dispatch_refused_no_target,
     Rs_dispatch_refused_unsupported_input, Rs_dispatch_failed,
     Rs_session_exit, Rs_session_exit_before_turn, Rs_session_dead, Rs_hollow_completion,
     Rs_assigned_stranded_dispatch_unconfirmed, Rs_delivered_not_consumed_redrive,
     Rs_delivered_no_turn_deadline]"

definition isReclaimTurnReason :: "turn_reason option \<Rightarrow> bool" where
  "isReclaimTurnReason r = (case r of None \<Rightarrow> False | Some x \<Rightarrow> x \<in> set RECLAIM_TURN_REASONS)"

definition isUnredeliveredDirectFailure :: "turn_attempt option \<Rightarrow> bool" where
  "isUnredeliveredDirectFailure att =
     (case att of None \<Rightarrow> False
      | Some a \<Rightarrow> a_scope a = Mesh_direct
          \<and> (case a_terminal a of None \<Rightarrow> False
             | Some t \<Rightarrow> tt_outcome t = O_failed \<and> isReclaimTurnReason (Some (tt_reason t))))"

section \<open>Stopping\<close>

text \<open>
  In state \<open>stopping\<close> the attempt keeps its writer until the stop is confirmed or the writer is
  known to be unreachable. A stopping attempt always has a \<open>writerStop\<close> (\<open>attempt_ok\<close> of theory \<open>TurnLifecycle\<close>), so
  \<open>upd_stop\<close> and the \<open>None\<close> branches below stand for the source's non-null assertions.
\<close>

definition stop_text :: "stop_terminal \<Rightarrow> text_ref" where
  "stop_text t = (st_summary t, st_textEventId t)"

definition bare_terminal :: "turn_outcome \<Rightarrow> evidence_source_id \<Rightarrow> stop_terminal" where
  "bare_terminal outcome src = \<lparr>st_outcome = outcome, st_strength = Str_genuine, st_adoptSessionId = None,
     st_summary = None, st_textEventId = None, st_source = Some src\<rparr>"

definition settleUnreachableWriter :: "settled_by \<Rightarrow> draft \<Rightarrow> draft" where
  "settleUnreachableWriter settler d0 =
     (let d = upd_stop (\<lambda>s. s\<lparr>ws_confirmed := True, ws_settledBy := Some settler\<rparr>) d0
      in on_attempt (\<lambda>a d.
           case d_writerStop (a_data a) of
             None \<Rightarrow> d
           | Some stop \<Rightarrow>
               (case ws_terminal stop of
                  Some t \<Rightarrow>
                    if st_outcome t \<noteq> O_failed
                    then commit (st_outcome t) (st_strength t) (ws_reason stop) (Some (stop_text t)) d
                    else commit O_failed Str_genuine Rs_writer_unreachable (Some (None, None))
                           (upd_stop (\<lambda>s. s\<lparr>ws_terminal := Some (bare_terminal O_failed Src_scheduler)\<rparr>) d)
                | None \<Rightarrow> commit O_failed Str_genuine Rs_writer_unreachable (Some (None, None))
                           (upd_stop (\<lambda>s. s\<lparr>ws_terminal := Some (bare_terminal O_failed Src_scheduler)\<rparr>) d))) d)"

definition reportHeldDuringStop :: "turn_attempt \<Rightarrow> recorded_report option" where
  "reportHeldDuringStop a =
     (case (d_report (a_data a), d_writerStop (a_data a)) of
        (Some r, Some stop) \<Rightarrow>
          if rr_generation r = a_generation a \<and> rr_at r \<ge> ws_requestedAt stop then Some r else None
      | _ \<Rightarrow> None)"

definition adopt_blocked :: "writer_stop \<Rightarrow> bool" where
  "adopt_blocked stop =
     (case ws_terminal stop of
        None \<Rightarrow> False
      | Some t \<Rightarrow> truthy (st_adoptSessionId t) \<or> st_source t \<noteq> Some Src_scheduler)"

definition adoptReportHeldDuringStop :: "draft \<Rightarrow> draft" where
  "adoptReportHeldDuringStop = on_attempt (\<lambda>a d.
     case (reportHeldDuringStop a, d_writerStop (a_data a)) of
       (Some r, Some stop) \<Rightarrow>
         if adopt_blocked stop then d
         else upd_stop (\<lambda>s. s\<lparr>ws_reason := Rs_worker_reported,
                ws_terminal := Some \<lparr>st_outcome = report_outcome (rr_outcome r), st_strength = Str_tool_report,
                  st_adoptSessionId = None, st_summary = rr_summary r,
                  st_textEventId = Some (rr_eventId r), st_source = Some Src_worker_tool\<rparr>\<rparr>) d
     | _ \<Rightarrow> d)"

definition record_report :: "draft \<Rightarrow> draft" where
  "record_report d =
     (case ev_body (dr_ev d) of
        WorkerReport b \<Rightarrow>
          upd_attempt (\<lambda>a. a\<lparr>a_data := (a_data a)\<lparr>d_report := Some \<lparr>
            rr_generation = a_generation a, rr_outcome = wr_outcome b, rr_eventId = ev_eventId (dr_ev d),
            rr_at = ev_at (dr_ev d), rr_summary = wr_summary b\<rparr>\<rparr>\<rparr>) d
      | _ \<Rightarrow> d)"

fun cancel_turn_reason :: "cancel_reason \<Rightarrow> turn_reason" where
  "cancel_turn_reason CR_operator_cancel = Rs_operator_cancel"
| "cancel_turn_reason CR_intentional_cleanup = Rs_intentional_cleanup"
| "cancel_turn_reason CR_task_removed = Rs_task_removed"
| "cancel_turn_reason CR_mission_abandoned = Rs_mission_abandoned"
| "cancel_turn_reason CR_superseded = Rs_superseded"

text \<open>The head of \<open>reduceStopping\<close>: an elapsed hard ceiling, then a cancel, rewrite the pending terminal.\<close>

definition stopping_ceiling :: "turn_attempt \<Rightarrow> reduce_input \<Rightarrow> draft \<Rightarrow> draft" where
  "stopping_ceiling a i d =
     (if in_nowMs i \<ge> a_acceptedAt a + hardCeilingMs (in_policy i)
      then releaseHolds (Some_holds [H_hard_ceiling]) []
             (upd_stop (\<lambda>s. s\<lparr>ws_reason := Rs_hard_ceiling,
                ws_terminal := Some (bare_terminal O_failed Src_scheduler)\<rparr>) d)
      else d)"

definition stopping_cancel :: "draft \<Rightarrow> draft" where
  "stopping_cancel d =
     (case ev_body (dr_ev d) of
        Cancel r \<Rightarrow> upd_stop (\<lambda>s. s\<lparr>ws_reason := cancel_turn_reason r,
                      ws_terminal := Some (bare_terminal O_cancelled (ev_source (dr_ev d)))\<rparr>) d
      | _ \<Rightarrow> d)"

definition stopping_confirmed :: "draft \<Rightarrow> draft" where
  "stopping_confirmed d0 =
     (let d = adoptReportHeldDuringStop (upd_stop (\<lambda>s. s\<lparr>ws_confirmed := True\<rparr>) d0)
      in on_attempt (\<lambda>a d.
           case d_writerStop (a_data a) of
             None \<Rightarrow> d
           | Some stop \<Rightarrow>
               (case ws_terminal stop of
                  Some t \<Rightarrow>
                    commit (st_outcome t) (st_strength t) (ws_reason stop) (Some (stop_text t))
                      (if truthy (st_adoptSessionId t)
                       then upd_attempt (\<lambda>a. a\<lparr>a_sessionId := the (st_adoptSessionId t),
                              a_consumedAt := (case a_consumedAt a of None \<Rightarrow> Some (ws_requestedAt stop) | c \<Rightarrow> c)\<rparr>) d
                       else d)
                | None \<Rightarrow>
                    if ws_reason stop = Rs_hard_ceiling then commit O_failed Str_genuine (ws_reason stop) None d
                    else reclaim (ws_reason stop) d)) d)"

definition stopping_retry :: "draft \<Rightarrow> draft" where
  "stopping_retry d0 =
     on_attempt (\<lambda>a d.
       case d_writerStop (a_data a) of
         None \<Rightarrow> d
       | Some stop \<Rightarrow>
           if ws_tries stop < WRITER_STOP_MAX_TRIES
           then requestWriterStop (upd_stop (\<lambda>s. s\<lparr>ws_tries := ws_tries s + 1\<rparr>) d)
           else if \<not> ws_escalated stop
           then push (E_record ''writer_stop_unconfirmed_checkpoint_pending'')
                  (notify N_no_progress None (None, None) (upd_stop (\<lambda>s. s\<lparr>ws_escalated := True\<rparr>) d))
           else d)
       (releaseHolds (Some_holds [H_liveness]) [] d0)"

definition retry_due :: "draft \<Rightarrow> bool" where
  "retry_due d \<longleftrightarrow>
     ev_kind (dr_ev d) = K_hold_expired \<and> holdIs (dr_ctx d) [H_liveness]
     \<and> (case Option.bind (expiredHold (dr_ctx d)) h_until of Some t \<Rightarrow> t \<le> dr_now d | None \<Rightarrow> False)"

definition draft_of :: "reduce_input \<Rightarrow> int option \<Rightarrow> draft" where
  "draft_of i gen = \<lparr>dr_attempt = in_attempt i,
     dr_holds = foldl (\<lambda>m h. AList.update (h_holdId h) h m) [] (in_holds i),
     dr_effects = [], dr_ctx = ctx_of i gen, dr_committed = False\<rparr>"

definition stopping_draft :: "turn_attempt \<Rightarrow> reduce_input \<Rightarrow> draft" where
  "stopping_draft a i =
     (let d = stopping_cancel (stopping_ceiling a i (draft_of i (Some (a_generation a))));
          ev = in_evidence i
      in if in_writerUnreachable i \<noteq> None \<and> \<not> in_stopConfirmed i \<and> ev_kind ev \<noteq> K_cancel
           then settleUnreachableWriter (the (in_writerUnreachable i)) (adoptReportHeldDuringStop d)
         else if in_stopConfirmed i then stopping_confirmed d
         else if retry_due d then stopping_retry d
         else if ev_kind ev = K_worker_report then record_report d
         else push (E_record ''writer_stop_checkpoint_pending'') d)"

definition reduceStopping :: "turn_attempt \<Rightarrow> reduce_input \<Rightarrow> reduce_result" where
  "reduceStopping a i =
     (let d = stopping_draft a i
      in \<lparr>out_attempt = dr_attempt d, out_holds = map snd (dr_holds d), out_effects = dr_effects d,
          out_verdict = V_applied,
          out_rule = Some (if in_stopConfirmed i then ''writer_settled''
                           else if in_writerUnreachable i \<noteq> None
                                \<and> (case dr_attempt d of Some b \<Rightarrow> stop_confirmed b | None \<Rightarrow> False)
                           then ''writer_unreachable_settled'' else ''WR''),
          out_rejection = None\<rparr>)"

section \<open>Actions\<close>

text \<open>
  The named mutations. Each reads the evidence the way its rule's \<open>on\<close> list fixes it; on evidence of
  another kind, which the table never routes to it, it leaves the draft alone.
\<close>

definition STALL_BUSY_STATUSES :: "observed_status list" where
  "STALL_BUSY_STATUSES = [Obs_generating, Obs_starting, Obs_waiting_approval, Obs_waiting_choice]"

definition TERMINAL_NOTIFY_KINDS :: "notify_kind list" where
  "TERMINAL_NOTIFY_KINDS = [N_completed, N_blocked, N_failed, N_cancelled, N_stopped]"

fun scope_name :: "turn_scope \<Rightarrow> string" where
  "scope_name Mesh_queue = ''mesh_queue''"
| "scope_name Mesh_direct = ''mesh_direct''"
| "scope_name Plain = ''plain''"

text \<open>\<open>newAttempt\<close> without the caller's extra fields, which the two callers set by record update.\<close>

definition newAttempt :: "turn_evidence \<Rightarrow> ident \<Rightarrow> turn_scope \<Rightarrow> turn_attempt" where
  "newAttempt ev attemptId scope = \<lparr>
     a_attemptId = attemptId, a_scope = scope, a_meshId = None, a_taskId = ev_taskId ev, a_attemptNo = 0,
     a_sessionId = ev_sessionId ev, a_nodeId = None, a_providerType = None,
     a_ownerDaemonId = ev_observedBy ev,
     a_generation = (case ev_attemptRef ev of Some r \<Rightarrow> ar_generation r | None \<Rightarrow> 0),
     a_prevGeneration = None, a_dispatchNonce = None, a_messageId = None,
     a_consumeProfile = CP_default, a_maxTaskRetries = DEFAULT_MAX_TASK_RETRIES,
     a_state = S_accepted, a_suspension = None, a_redriveCount = 0, a_reclaimCount = 0,
     a_hollowCount = 0, a_livenessFailStreak = 0, a_lastLiveness = None,
     a_coordinator = \<lparr>co_daemonId = None, co_sessionId = None\<rparr>,
     a_acceptedAt = ev_at ev, a_deliveredAt = None, a_consumedAt = None, a_lastActivityAt = None,
     a_weakSince = None, a_candidateNotifiedGeneration = None, a_lastNoProgressNoticeAt = None,
     a_notifiedAt = None, a_terminal = None, a_data = empty_data\<rparr>"

definition or_default :: "'a option \<Rightarrow> 'a \<Rightarrow> 'a" where
  "or_default x d = (case x of Some v \<Rightarrow> v | None \<Rightarrow> d)"

definition or_keep :: "'a option \<Rightarrow> 'a option \<Rightarrow> 'a option" where
  "or_keep x y = (case x of Some v \<Rightarrow> Some v | None \<Rightarrow> y)"

lemma or_default_simps [simp]: "or_default (Some v) d = v" "or_default None d = d"
  by (simp_all add: or_default_def)

lemma or_keep_simps [simp]: "or_keep (Some v) y = Some v" "or_keep None y = y"
  by (simp_all add: or_keep_def)

definition act_open_dispatch :: "draft \<Rightarrow> draft" where
  "act_open_dispatch d =
     (let ev = dr_ev d
      in case ev_body ev of
           DispatchAccepted b \<Rightarrow>
             d\<lparr>dr_attempt := Some ((newAttempt ev
                  (case ev_attemptRef ev of Some r \<Rightarrow> ar_attemptId r
                   | None \<Rightarrow> scope_name (da_scope b) @ '':'' @ ev_eventId ev) (da_scope b))
                \<lparr>a_meshId := da_meshId b, a_attemptNo := or_default (da_attemptNo b) 0,
                 a_nodeId := da_nodeId b, a_providerType := da_providerType b,
                 a_dispatchNonce := da_dispatchNonce b, a_messageId := Some (da_messageId b),
                 a_consumeProfile := or_default (da_consumeProfile b) CP_default,
                 a_maxTaskRetries := or_default (da_maxTaskRetries b) DEFAULT_MAX_TASK_RETRIES,
                 a_coordinator := \<lparr>co_daemonId = map_option ci_daemonId (da_coordinator b),
                   co_sessionId = Option.bind (da_coordinator b) ci_sessionId\<rparr>\<rparr>)\<rparr>
         | _ \<Rightarrow> d)"

definition bindLivenessSession :: "ident \<Rightarrow> bool \<Rightarrow> draft \<Rightarrow> draft" where
  "bindLivenessSession sessionId rebound d =
     upd_attempt (\<lambda>a.
       (if rebound \<or> \<not> same_session (a_sessionId a) sessionId
        then a\<lparr>a_lastLiveness := None, a_livenessFailStreak := 0,
               a_data := (a_data a)\<lparr>d_livenessObservation := None,
                 d_livenessSessionCut := Some \<lparr>lc_generation = a_generation a, lc_at = dr_now d,
                   lc_revision = (case d_livenessSessionCut (a_data a) of Some c \<Rightarrow> lc_revision c | None \<Rightarrow> 0) + 1\<rparr>\<rparr>\<rparr>
        else a)\<lparr>a_sessionId := sessionId\<rparr>) d"

definition act_rebind_dispatch :: "draft \<Rightarrow> draft" where
  "act_rebind_dispatch d =
     (case ev_body (dr_ev d) of
        DispatchAccepted b \<Rightarrow>
          upd_attempt (\<lambda>a. a\<lparr>
              a_nodeId := (if truthy (da_nodeId b) then da_nodeId b else a_nodeId a),
              a_providerType := (if truthy (da_providerType b) then da_providerType b else a_providerType a),
              a_dispatchNonce := or_keep (da_dispatchNonce b) (a_dispatchNonce a),
              a_messageId := Some (da_messageId b)\<rparr>)
            (bindLivenessSession (ev_sessionId (dr_ev d)) False d)
      | _ \<Rightarrow> d)"

definition act_mark_delivered :: "draft \<Rightarrow> draft" where
  "act_mark_delivered d =
     (case ev_body (dr_ev d) of
        Delivered msg _ _ \<Rightarrow>
          upd_attempt (\<lambda>a. a\<lparr>a_messageId := Some msg\<rparr>)
            (bindLivenessSession (ev_sessionId (dr_ev d)) False
              (upd_attempt (\<lambda>a. a\<lparr>a_deliveredAt := or_keep (a_deliveredAt a) (Some (ev_at (dr_ev d)))\<rparr>) d))
      | _ \<Rightarrow> d)"

definition act_consume :: "draft \<Rightarrow> draft" where
  "act_consume d =
     (let t = Some (ev_at (dr_ev d))
      in upd_attempt (\<lambda>a. a\<lparr>a_deliveredAt := or_keep (a_deliveredAt a) t,
           a_consumedAt := or_keep (a_consumedAt a) t, a_lastActivityAt := t\<rparr>) d)"

definition bus_event :: "bus_phase \<Rightarrow> turn_attempt \<Rightarrow> turn_effect" where
  "bus_event phase a = E_bus \<lparr>be_phase = phase, be_sessionId = a_sessionId a, be_attemptId = a_attemptId a,
     be_generation = a_generation a, be_outcome = None, be_strength = None\<rparr>"

fun modal_notify :: "suspension_modal \<Rightarrow> notify_kind" where
  "modal_notify Modal_approval = N_approval"
| "modal_notify Modal_choice = N_choice"

fun modal_name :: "suspension_modal \<Rightarrow> string" where
  "modal_name Modal_approval = ''approval''"
| "modal_name Modal_choice = ''choice''"

text \<open>
  \<open>suspendedAt\<close> of a held suspension: null, a number, or absent (then the hold's creation time). The
  hold template writes only a number or null.
\<close>

definition held_suspended_at :: "turn_hold \<Rightarrow> ms option" where
  "held_suspended_at h =
     (case map_of (h_data h) ''suspendedAt'' of
        Some SNull \<Rightarrow> None
      | Some (SNum n) \<Rightarrow> Some n
      | Some (SBool b) \<Rightarrow> Some (if b then 1 else 0)
      | _ \<Rightarrow> Some (h_createdAt h))"

definition new_suspension :: "int \<Rightarrow> ident option \<Rightarrow> bool \<Rightarrow> ms option \<Rightarrow> provider_suspension" where
  "new_suspension gen key setup suspendedAt = \<lparr>ps_generation = gen, ps_modalKey = key, ps_providerSetup = setup,
     ps_at = suspendedAt, ps_resolvedAt = None, ps_reminders = None, ps_lastReminderAt = None\<rparr>"

definition act_apply_held_suspension :: "draft \<Rightarrow> draft" where
  "act_apply_held_suspension = on_attempt (\<lambda>a d.
     case map_of (dr_holds d) (holdId (a_attemptId a) H_suspension_before_consumed) of
       None \<Rightarrow> d
     | Some held \<Rightarrow>
         let modal = (if map_of (h_data held) ''modal'' = Some (SStr ''choice'') then Modal_choice else Modal_approval);
             susp = new_suspension (a_generation a)
               (case map_of (h_data held) ''modalKey'' of Some (SStr k) \<Rightarrow> Some k | _ \<Rightarrow> None)
               (map_of (h_data held) ''providerSetup'' = Some (SBool True)) (held_suspended_at held)
         in notify (modal_notify modal) None (None, None)
              (push (bus_event Ph_suspended a)
                (upd_attempt (\<lambda>a. a\<lparr>a_state := S_suspended, a_suspension := Some modal\<rparr>)
                  (releaseHolds (Some_holds [H_suspension_before_consumed]) []
                    (upd_data (\<lambda>x. x\<lparr>d_providerSuspension := Some susp\<rparr>) d)))))"

definition act_suspend :: "draft \<Rightarrow> draft" where
  "act_suspend d =
     (case ev_body (dr_ev d) of
        Suspension modal key setup clockUnknown \<Rightarrow>
          upd_attempt (\<lambda>a. a\<lparr>a_suspension := Some modal, a_weakSince := None,
            a_data := (a_data a)\<lparr>d_providerSuspension :=
              Some (new_suspension (a_generation a) key setup
                (if clockUnknown then None else Some (ev_at (dr_ev d))))\<rparr>\<rparr>) d
      | _ \<Rightarrow> d)"

definition resolve_suspension :: "bool \<Rightarrow> ms \<Rightarrow> turn_attempt \<Rightarrow> turn_attempt" where
  "resolve_suspension onlyOpen t a = a\<lparr>a_suspension := None,
     a_data := (a_data a)\<lparr>d_providerSuspension := map_option (\<lambda>ps.
       if ps_generation ps = a_generation a \<and> (onlyOpen \<longrightarrow> ps_resolvedAt ps = None)
       then ps\<lparr>ps_resolvedAt := Some t\<rparr> else ps) (d_providerSuspension (a_data a))\<rparr>\<rparr>"

definition max_activity :: "turn_evidence \<Rightarrow> turn_attempt \<Rightarrow> turn_attempt" where
  "max_activity ev a = a\<lparr>a_lastActivityAt := Some (max (or_default (a_lastActivityAt a) 0) (activityAt ev)),
     a_livenessFailStreak := 0\<rparr>"

definition observe_liveness :: "turn_evidence \<Rightarrow> turn_attempt \<Rightarrow> turn_attempt" where
  "observe_liveness ev a =
     (case ev_body ev of
        Liveness r started \<Rightarrow> a\<lparr>a_lastLiveness := Some r,
          a_data := (a_data a)\<lparr>d_livenessObservation := Some \<lparr>lo_generation = a_generation a,
            lo_sessionId = Some (ev_sessionId ev), lo_at = ev_at ev,
            lo_probeStartedAt = or_default started (ev_at ev)\<rparr>\<rparr>\<rparr>
      | _ \<Rightarrow> a)"

definition act_defer_unconfirmed_end :: "draft \<Rightarrow> draft" where
  "act_defer_unconfirmed_end = on_attempt (\<lambda>a d.
     case expiredHold (dr_ctx d) of
       None \<Rightarrow> d
     | Some hold \<Rightarrow>
         let count = (case d_unconfirmedEndDeferral (a_data a) of
                        Some u \<Rightarrow> if ud_generation u = a_generation a \<and> ud_requestedAt u \<noteq> None then ud_count u else 0
                      | None \<Rightarrow> 0)
         in addHold (hold\<lparr>h_until := Some (dr_now d + endProbeGraceMs (g_policy (dr_ctx d))),
                           h_createdAt := dr_now d\<rparr>)
              (upd_data (\<lambda>x. x\<lparr>d_unconfirmedEndDeferral := Some \<lparr>ud_generation = a_generation a,
                 ud_count = count + 1, ud_requestedAt = Some (dr_now d)\<rparr>\<rparr>) d))"

definition act_open_report_correction :: "draft \<Rightarrow> draft" where
  "act_open_report_correction = on_attempt (\<lambda>a d.
     if map_option rc_generation (d_reportCorrection (a_data a)) = Some (a_generation a)
        \<or> reportedThisGeneration (dr_ctx d) then d
     else let deadline = dr_now d + reportCorrectionMs (g_policy (dr_ctx d))
          in addHold \<lparr>h_holdId = holdId (a_attemptId a) H_report_correction, h_attemptId = a_attemptId a,
                h_generation = Some (a_generation a), h_reason = H_report_correction, h_until = Some deadline,
                h_onExpire = X_commit, h_data = [], h_createdAt = dr_now d\<rparr>
              (upd_data (\<lambda>x. x\<lparr>d_reportCorrection :=
                 Some \<lparr>rc_generation = a_generation a, rc_until = deadline\<rparr>\<rparr>) d))"

definition act_store_git :: "draft \<Rightarrow> draft" where
  "act_store_git d =
     (case ev_body (dr_ev d) of
        GitSideEffect dirty commits attributable \<Rightarrow>
          upd_data (\<lambda>x. x\<lparr>d_gitSideEffect := Some \<lparr>gs_dirty = dirty, gs_commitsSinceDispatch = commits,
            gs_attributable = attributable, gs_at = ev_at (dr_ev d)\<rparr>\<rparr>) d
      | _ \<Rightarrow> d)"

definition act_mark_notified :: "draft \<Rightarrow> draft" where
  "act_mark_notified d =
     (case ev_body (dr_ev d) of
        CoordinatorAck kind _ \<Rightarrow>
          upd_attempt (\<lambda>a.
            if kind \<in> set TERMINAL_NOTIFY_KINDS \<and> isTerminalTurnState (a_state a)
            then a\<lparr>a_notifiedAt := or_keep (a_notifiedAt a) (Some (ev_at (dr_ev d)))\<rparr> else a) d
      | _ \<Rightarrow> d)"

fun ACTIONS :: "action_id \<Rightarrow> draft \<Rightarrow> draft" where
  "ACTIONS Act_open_dispatch d = act_open_dispatch d"
| "ACTIONS Act_rebind_dispatch d = act_rebind_dispatch d"
| "ACTIONS Act_open_plain d =
     d\<lparr>dr_attempt := Some (newAttempt (dr_ev d)
         (''plain:'' @ ev_sessionId (dr_ev d) @ '':'' @ ev_eventId (dr_ev d)) Plain)\<rparr>"
| "ACTIONS Act_mark_delivered d = act_mark_delivered d"
| "ACTIONS Act_consume d = act_consume d"
| "ACTIONS Act_apply_held_suspension d = act_apply_held_suspension d"
| "ACTIONS Act_suspend d = act_suspend d"
| "ACTIONS Act_resume d = upd_attempt (resolve_suspension False (ev_at (dr_ev d))) d"
| "ACTIONS Act_resume_by_activity d =
     upd_attempt (\<lambda>a. (resolve_suspension True (ev_at (dr_ev d)) a)
       \<lparr>a_lastActivityAt := Some (activityAt (dr_ev d)), a_livenessFailStreak := 0\<rparr>) d"
| "ACTIONS Act_weak_candidate d =
     upd_attempt (\<lambda>a. a\<lparr>a_weakSince := Some (ev_at (dr_ev d)),
       a_data := (a_data a)\<lparr>d_unconfirmedEndDeferral := None\<rparr>\<rparr>) d"
| "ACTIONS Act_clear_weak d = upd_attempt (\<lambda>a. a\<lparr>a_weakSince := None\<rparr>) d"
| "ACTIONS Act_await_report d =
     upd_attempt (\<lambda>a. a\<lparr>a_weakSince := Some (ev_at (dr_ev d)),
       a_data := (a_data a)\<lparr>d_unconfirmedEndDeferral := None\<rparr>\<rparr>) d"
| "ACTIONS Act_false_idle d =
     upd_attempt (\<lambda>a. (max_activity (dr_ev d) a)\<lparr>a_weakSince := None,
       a_data := (a_data a)\<lparr>d_unconfirmedEndDeferral := None,
         d_falseIdleCount := Some (or_default (d_falseIdleCount (a_data a)) 0 + 1)\<rparr>\<rparr>) d"
| "ACTIONS Act_activity d = upd_attempt (\<lambda>a. observe_liveness (dr_ev d) (max_activity (dr_ev d) a)) d"
| "ACTIONS Act_liveness_unknown d =
     upd_attempt (\<lambda>a. (observe_liveness (dr_ev d) a)\<lparr>a_lastLiveness := Some L_unknown\<rparr>) d"
| "ACTIONS Act_liveness_failure d =
     upd_attempt (\<lambda>a. (observe_liveness (dr_ev d) a)\<lparr>a_livenessFailStreak := a_livenessFailStreak a + 1\<rparr>) d"
| "ACTIONS Act_defer_unconfirmed_end d = act_defer_unconfirmed_end d"
| "ACTIONS Act_open_report_correction d = act_open_report_correction d"
| "ACTIONS Act_worker_absent d =
     (case ev_body (dr_ev d) of
        DispatchFailed True _ _ \<Rightarrow> upd_attempt (\<lambda>a. a\<lparr>a_livenessFailStreak := a_livenessFailStreak a + 1\<rparr>) d
      | _ \<Rightarrow> d)"
| "ACTIONS Act_rebind_to_holder d =
     (case ev_body (dr_ev d) of
        DuplicateDispatchRefusal holder _ \<Rightarrow> bindLivenessSession holder False d | _ \<Rightarrow> d)"
| "ACTIONS Act_rebind d =
     (case ev_body (dr_ev d) of SessionRebound target _ \<Rightarrow> bindLivenessSession target True d | _ \<Rightarrow> d)"
| "ACTIONS Act_hollow d = upd_attempt (\<lambda>a. a\<lparr>a_hollowCount := a_hollowCount a + 1\<rparr>) d"
| "ACTIONS Act_mark_notified d = act_mark_notified d"
| "ACTIONS Act_store_git d = act_store_git d"
| "ACTIONS Act_redrive d = upd_attempt (\<lambda>a. a\<lparr>a_redriveCount := a_redriveCount a + 1\<rparr>) d"
| "ACTIONS Act_stamp_no_progress_notice d = upd_attempt (\<lambda>a. a\<lparr>a_lastNoProgressNoticeAt := Some (dr_now d)\<rparr>) d"
| "ACTIONS Act_record_report d = record_report d"

section \<open>Effect templates\<close>

definition proposedOutcome :: "turn_evidence \<Rightarrow> turn_outcome option" where
  "proposedOutcome ev =
     (case ev_body ev of
        TurnEnd b \<Rightarrow> Some (if te_afterFinalizationTimeout b \<or> te_hollow b then O_failed else O_completed)
      | TranscriptFinal _ \<Rightarrow> Some O_completed
      | NoProgress _ _ _ \<Rightarrow> Some O_completed
      | WorkerReport b \<Rightarrow> Some (report_outcome (wr_outcome b))
      | SessionError _ \<Rightarrow> Some O_failed
      | ProcessExit _ _ \<Rightarrow> Some O_failed
      | Cancel _ \<Rightarrow> Some O_cancelled
      | OperatorStatus st _ \<Rightarrow> Some (operator_outcome st)
      | _ \<Rightarrow> None)"

fun resolveNote :: "note_expr \<Rightarrow> draft \<Rightarrow> string" where
  "resolveNote (Note n) d = n"
| "resolveNote Note_from_admission d =
     (case admissionOf (dr_ctx d) of
        Some (Adm_decline r) \<Rightarrow> ''admission_declined:'' @ decline_name r
      | _ \<Rightarrow> ''admission_declined'')"
| "resolveNote Note_from_terminal_compare d =
     (case Option.bind (dr_attempt d) a_terminal of
        Some t \<Rightarrow> if proposedOutcome (dr_ev d) = Some (tt_outcome t) then ''duplicate'' else ''already_terminal''
      | None \<Rightarrow> ''already_terminal'')"

definition exitReclaimReason :: "turn_state \<Rightarrow> turn_reason" where
  "exitReclaimReason s = (if s = S_accepted \<or> s = S_delivered then Rs_session_exit_before_turn else Rs_session_exit)"

text \<open>The reason of a hold template with the data that reason carries, or no hold.\<close>

definition hold_opening :: "hold_reason_expr \<Rightarrow> draft \<Rightarrow> (hold_reason \<times> (string \<times> scalar) list) option" where
  "hold_opening expr d =
     (case expr of
        HR r \<Rightarrow> Some (r, [])
      | HR_from_admission \<Rightarrow>
          (case admissionOf (dr_ctx d) of
             Some (Adm_hold r hr) \<Rightarrow>
               Some (hr, [(''evidenceId'', SStr (ev_eventId (dr_ev d))), (''decline'', SStr (decline_name r))])
           | _ \<Rightarrow> None))"

definition suspension_data :: "hold_reason \<Rightarrow> turn_evidence \<Rightarrow> (string \<times> scalar) list" where
  "suspension_data reason ev =
     (case ev_body ev of
        Suspension modal key setup clockUnknown \<Rightarrow>
          if reason = H_suspension_before_consumed
          then [(''modal'', SStr (modal_name modal)),
                (''modalKey'', case key of Some k \<Rightarrow> SStr k | None \<Rightarrow> SNull),
                (''suspendedAt'', if clockUnknown then SNull else SNum (ev_at ev)),
                (''providerSetup'', SBool setup)]
          else []
      | _ \<Rightarrow> [])"

definition text_data :: "hold_reason \<Rightarrow> turn_evidence \<Rightarrow> (string \<times> scalar) list" where
  "text_data reason ev =
     (if reason \<in> set TEXT_CARRYING_HOLDS
      then (''textEventId'', SStr (ev_eventId ev))
           # (case summaryOf ev of
                Some sr \<Rightarrow> [(''summaryTopic'', SStr (sr_topic sr)), (''summaryWriter'', SStr (sr_writer sr)),
                            (''summarySeq'', SNum (sr_seq sr))]
              | None \<Rightarrow> [])
      else [])"

definition template_hold ::
  "hold_reason_expr \<Rightarrow> until_expr \<Rightarrow> hold_on_expire \<Rightarrow> bool \<Rightarrow> bool \<Rightarrow> draft \<Rightarrow> draft" where
  "template_hold expr until_e onExpire meshOnly agnostic = on_attempt (\<lambda>a d.
     if meshOnly \<and> \<not> isMeshScope a then d
     else case hold_opening expr d of
            None \<Rightarrow> d
          | Some (reason, base) \<Rightarrow>
              addHold \<lparr>h_holdId = holdId (a_attemptId a) reason, h_attemptId = a_attemptId a,
                h_generation = (if agnostic then None else Some (a_generation a)), h_reason = reason,
                h_until = resolveUntil until_e d, h_onExpire = onExpire,
                h_data = base @ suspension_data reason (dr_ev d)
                  @ (if reason = H_await_report \<and> ownerProbedQueueNativeCompletion (dr_ctx d)
                     then [(''nativeProbeReportOnly'', SBool True)] else [])
                  @ text_data reason (dr_ev d),
                h_createdAt = dr_now d\<rparr> d)"

fun operator_turn_reason :: "operator_status_reason \<Rightarrow> turn_reason" where
  "operator_turn_reason OR_operator_update = Rs_operator_update"
| "operator_turn_reason OR_refine_terminal = Rs_refine_terminal"
| "operator_turn_reason OR_validation_terminal = Rs_validation_terminal"

fun failure_turn_reason :: "provider_failure \<Rightarrow> turn_reason" where
  "failure_turn_reason PF_auth_failed = Rs_provider_auth_failed"
| "failure_turn_reason PF_billing_failed = Rs_provider_billing_failed"
| "failure_turn_reason PF_usage_limit_exceeded = Rs_provider_usage_limit_exceeded"
| "failure_turn_reason PF_server_overloaded = Rs_provider_server_overloaded"
| "failure_turn_reason PF_provider_error = Rs_provider_error"

definition session_error_turn_reason :: "evidence_source_id \<Rightarrow> session_error_reason \<Rightarrow> turn_reason" where
  "session_error_turn_reason src r =
     (if src \<in> {Src_fsm_edge, Src_session_registry, Src_dispatch}
      then (case r of SE_auth_failed \<Rightarrow> Rs_provider_auth_failed
            | SE_billing_failed \<Rightarrow> Rs_provider_billing_failed | _ \<Rightarrow> Rs_session_error)
      else Rs_session_error)"

fun commit_outcome :: "outcome_expr \<Rightarrow> draft \<Rightarrow> turn_outcome option" where
  "commit_outcome (Oc x) d = Some x"
| "commit_outcome Oc_from_report d =
     (case ev_body (dr_ev d) of WorkerReport b \<Rightarrow> Some (report_outcome (wr_outcome b)) | _ \<Rightarrow> None)"
| "commit_outcome Oc_from_recorded_report d =
     map_option (report_outcome \<circ> rr_outcome) (Option.bind (dr_attempt d) (\<lambda>a. d_report (a_data a)))"
| "commit_outcome Oc_from_operator d =
     (case ev_body (dr_ev d) of OperatorStatus st _ \<Rightarrow> Some (operator_outcome st) | _ \<Rightarrow> None)"

fun commit_reason :: "commit_reason_expr \<Rightarrow> turn_evidence \<Rightarrow> turn_reason option" where
  "commit_reason (CRs r) ev = Some r"
| "commit_reason CRs_from_cancel ev =
     (case ev_body ev of Cancel r \<Rightarrow> Some (cancel_turn_reason r) | _ \<Rightarrow> None)"
| "commit_reason CRs_from_operator ev =
     (case ev_body ev of OperatorStatus _ r \<Rightarrow> Some (operator_turn_reason r) | _ \<Rightarrow> None)"
| "commit_reason CRs_from_provider_failure ev =
     (case ev_body ev of
        ProcessExit _ failure \<Rightarrow> Some (failure_turn_reason (or_default failure PF_provider_error))
      | TurnEnd b \<Rightarrow> Some (failure_turn_reason (or_default (te_providerFailure b) PF_provider_error))
      | _ \<Rightarrow> None)"
| "commit_reason CRs_from_session_error ev =
     (case ev_body ev of SessionError r \<Rightarrow> Some (session_error_turn_reason (ev_source ev) r) | _ \<Rightarrow> None)"

text \<open>
  A commit template whose outcome or reason expression does not fit the evidence would throw in the
  source (or commit \<open>undefined\<close>); the guards and the \<open>on\<close> lists exclude it, and it is no step here.
\<close>

definition template_commit :: "outcome_expr \<Rightarrow> commit_strength \<Rightarrow> commit_reason_expr \<Rightarrow> bool \<Rightarrow> draft \<Rightarrow> draft" where
  "template_commit oexpr strength rexpr fromReport d =
     (case (commit_outcome oexpr d, commit_reason rexpr (dr_ev d)) of
        (Some outcome, Some reason) \<Rightarrow>
          commit outcome strength reason (if fromReport then Some (recordedReportText d) else None) d
      | _ \<Rightarrow> d)"

fun refusal_turn_reason :: "send_refusal \<Rightarrow> turn_reason option" where
  "refusal_turn_reason Ref_session_exited = Some Rs_dispatch_refused_session_exited"
| "refusal_turn_reason Ref_no_target = Some Rs_dispatch_refused_no_target"
| "refusal_turn_reason Ref_unsupported_input = Some Rs_dispatch_refused_unsupported_input"
| "refusal_turn_reason _ = None"

definition template_reclaim :: "reclaim_reason_expr \<Rightarrow> draft \<Rightarrow> draft" where
  "template_reclaim expr = on_attempt (\<lambda>a d.
     case (case expr of
             RRs r \<Rightarrow> Some r
           | RRs_from_exit_state \<Rightarrow> Some (exitReclaimReason (a_state a))
           | RRs_from_refusal \<Rightarrow>
               (case ev_body (dr_ev d) of DeliveryRefused _ r \<Rightarrow> refusal_turn_reason r | _ \<Rightarrow> None)) of
       Some reason \<Rightarrow> reclaim reason d
     | None \<Rightarrow> d)"

definition notify_plain :: "notify_expr \<Rightarrow> bool \<Rightarrow> turn_attempt \<Rightarrow> draft \<Rightarrow> draft" where
  "notify_plain expr evidenceGen a d =
     (let kind = (case expr of
                    Nt k \<Rightarrow> Some k
                  | Nt_from_suspension \<Rightarrow> Some (modal_notify (or_default (a_suspension a) Modal_approval))
                  | Nt_from_modal \<Rightarrow>
                      (case ev_body (dr_ev d) of Suspension modal _ _ _ \<Rightarrow> Some (modal_notify modal) | _ \<Rightarrow> None))
      in case kind of
           None \<Rightarrow> d
         | Some k \<Rightarrow> notify k (if evidenceGen then g_effectiveGeneration (dr_ctx d) else None)
                        (summaryOf (dr_ev d), None) d)"

definition suspension_reminder :: "turn_attempt \<Rightarrow> draft \<Rightarrow> draft" where
  "suspension_reminder a d =
     (case (d_providerSuspension (a_data a), a_suspension a) of
        (Some susp, Some modal) \<Rightarrow>
          let last = or_default (ps_lastReminderAt susp)
                       (or_default (ps_at susp) (or_default (a_lastActivityAt a) 0));
              reminders = or_default (ps_reminders susp) 0
          in if reminders \<ge> MAX_SUSPENSION_REMINDERS \<or> dr_now d - last < SUSPENSION_REMINDER_MS
             then push (E_record ''suspension_reminder_not_due'') d
             else notify (modal_notify modal) None (None, None)
                    (upd_data (\<lambda>x. x\<lparr>d_providerSuspension :=
                       Some (susp\<lparr>ps_reminders := Some (reminders + 1), ps_lastReminderAt := Some (dr_now d)\<rparr>)\<rparr>) d)
      | _ \<Rightarrow> d)"

definition template_notify :: "notify_expr \<Rightarrow> notify_when \<Rightarrow> bool \<Rightarrow> draft \<Rightarrow> draft" where
  "template_notify expr cond evidenceGen = on_attempt (\<lambda>a d.
     case cond of
       When_always \<Rightarrow> notify_plain expr evidenceGen a d
     | When_candidate_once \<Rightarrow>
         if a_candidateNotifiedGeneration a = Some (a_generation a) then d
         else notify_plain expr evidenceGen a
                (upd_attempt (\<lambda>a. a\<lparr>a_candidateNotifiedGeneration := Some (a_generation a)\<rparr>) d)
     | When_suspension_reminder_due \<Rightarrow> suspension_reminder a d
     | When_no_progress_due \<Rightarrow>
         if a_lastNoProgressNoticeAt a \<noteq> None then push (E_record ''stall_notice_already_sent'') d
         else if (case ev_body (dr_ev d) of
                    NoProgress stalled st _ \<Rightarrow>
                      stalled < stallWakeMs (g_policy (dr_ctx d)) \<or> st \<in> set STALL_BUSY_STATUSES
                  | _ \<Rightarrow> False)
           then push (E_record ''stall_quiet'') d
         else notify_plain expr evidenceGen a (ACTIONS Act_stamp_no_progress_notice d))"

definition adoptedTerminal :: "turn_evidence \<Rightarrow> turn_outcome \<times> commit_strength \<times> turn_reason" where
  "adoptedTerminal ev =
     (case ev_body ev of
        WorkerReport b \<Rightarrow> (report_outcome (wr_outcome b), Str_tool_report, Rs_worker_reported)
      | TranscriptFinal _ \<Rightarrow> (O_completed, Str_genuine, Rs_transcript_final)
      | _ \<Rightarrow> (O_completed, Str_genuine, Rs_turn_end))"

definition adopt_prev_generation :: "draft \<Rightarrow> draft" where
  "adopt_prev_generation = on_attempt (\<lambda>a d.
     case a_prevGeneration a of
       None \<Rightarrow> d
     | Some prev \<Rightarrow>
         (case adoptedTerminal (dr_ev d) of
            (outcome, strength, reason) \<Rightarrow>
              if \<not> same_session (a_sessionId a) (pg_sessionId prev)
              then upd_stop (\<lambda>s. s\<lparr>ws_terminal := Some \<lparr>st_outcome = outcome, st_strength = strength,
                       st_adoptSessionId = Some (pg_sessionId prev), st_summary = summaryOf (dr_ev d),
                       st_textEventId = Some (ev_eventId (dr_ev d)), st_source = Some (ev_source (dr_ev d))\<rparr>\<rparr>)
                     (beginWriterStop reason d)
              else commit outcome strength reason None
                     (upd_attempt (\<lambda>a. a\<lparr>a_sessionId := pg_sessionId prev,
                        a_consumedAt := or_keep (a_consumedAt a) (Some (ev_at (dr_ev d)))\<rparr>) d)))"

definition template_cancel_dispatch :: "cancel_target \<Rightarrow> bool \<Rightarrow> draft \<Rightarrow> draft" where
  "template_cancel_dispatch target notCleanup = on_attempt (\<lambda>a d.
     let ev = dr_ev d
     in if ev_kind ev = K_cancel \<and> isMeshScope a then d
        else if notCleanup \<and> ev_body ev = Cancel CR_intentional_cleanup then d
        else push (E_cancel_dispatch \<lparr>cd_attemptId = a_attemptId a,
               cd_generation = (case target of
                                  Target_current \<Rightarrow> a_generation a
                                | Target_evidence_session \<Rightarrow>
                                    or_default (g_effectiveGeneration (dr_ctx d)) (a_generation a)),
               cd_sessionId = (case target of Target_current \<Rightarrow> a_sessionId a
                               | Target_evidence_session \<Rightarrow> ev_sessionId ev),
               cd_messageId = None, cd_revokeBind = False, cd_stopRequestId = None\<rparr>) d)"

definition held_evidence_id :: "guard_ctx \<Rightarrow> ident" where
  "held_evidence_id ctx =
     (case Option.bind (expiredHold ctx) (\<lambda>h. map_of (h_data h) ''evidenceId'') of
        Some (SStr t) \<Rightarrow> t
      | _ \<Rightarrow> [])"

fun run_template :: "effect_template \<Rightarrow> draft \<Rightarrow> draft" where
  "run_template (T_act act) d = ACTIONS act d"
| "run_template (T_hold expr until_e onExpire meshOnly agnostic) d =
     template_hold expr until_e onExpire meshOnly agnostic d"
| "run_template (T_release Rel_expired_hold) d =
     (case ev_body (dr_ev d) of HoldExpired _ reason \<Rightarrow> releaseHolds (Some_holds [reason]) [] d | _ \<Rightarrow> d)"
| "run_template (T_release Rel_all) d = releaseHolds All_holds [] d"
| "run_template (T_release (Rel rs)) d = releaseHolds (Some_holds rs) [] d"
| "run_template (T_commit oexpr strength rexpr fromReport) d = template_commit oexpr strength rexpr fromReport d"
| "run_template (T_reclaim expr) d = template_reclaim expr d"
| "run_template (T_notify expr cond evidenceGen) d = template_notify expr cond evidenceGen d"
| "run_template T_adopt_prev_generation d = adopt_prev_generation d"
| "run_template (T_bus phase) d = on_attempt (\<lambda>a. push (bus_event phase a)) d"
| "run_template (T_record note) d = push (E_record (resolveNote note d)) d"
| "run_template (T_cancel_dispatch target notCleanup) d = template_cancel_dispatch target notCleanup d"
| "run_template T_redeliver d =
     on_attempt (\<lambda>a. push (E_redeliver (a_attemptId a) (a_generation a) (a_messageId a) (a_sessionId a))) d"
| "run_template T_probe d = on_attempt (\<lambda>a. push (E_probe (a_attemptId a) (a_sessionId a))) d"
| "run_template T_reevaluate d =
     on_attempt (\<lambda>a. push (E_reevaluate (a_attemptId a) (held_evidence_id (dr_ctx d)) True)) d"

definition applyTemplate :: "effect_template \<Rightarrow> draft \<Rightarrow> draft" where
  "applyTemplate t d = (if dr_committed d then d else run_template t d)"

section \<open>The step function\<close>

fun rejection_name :: "reduce_rejection \<Rightarrow> string" where
  "rejection_name Rej_no_attempt = ''no_attempt''"
| "rejection_name Rej_attempt_mismatch = ''attempt_mismatch''"
| "rejection_name Rej_session_mismatch = ''session_mismatch''"
| "rejection_name Rej_already_terminal = ''already_terminal''"
| "rejection_name Rej_illegal_transition = ''illegal_transition''"

definition rejected :: "reduce_input \<Rightarrow> reduce_rejection \<Rightarrow> reduce_result" where
  "rejected i r = \<lparr>out_attempt = in_attempt i, out_holds = in_holds i,
     out_effects = [E_record (rejection_name r)], out_verdict = V_rejected, out_rule = None,
     out_rejection = Some r\<rparr>"

definition settle_target :: "turn_attempt option \<Rightarrow> transition_rule \<Rightarrow> draft \<Rightarrow> draft" where
  "settle_target att r d =
     (if r_verdict r = RV_applied \<and> \<not> dr_committed d
      then on_attempt (\<lambda>a d.
             case r_to r of
               To s \<Rightarrow> if (case att of Some b \<Rightarrow> a_state a = a_state b | None \<Rightarrow> True)
                       then upd_attempt (\<lambda>a. a\<lparr>a_state := s\<rparr>) d else d
             | _ \<Rightarrow> d) d
      else d)"

definition rule_draft :: "reduce_input \<Rightarrow> int option \<Rightarrow> transition_rule \<Rightarrow> draft" where
  "rule_draft i gen r =
     settle_target (in_attempt i) r (foldl (\<lambda>d t. applyTemplate t d) (draft_of i gen) (r_effects r))"

definition apply_rule :: "reduce_input \<Rightarrow> int option \<Rightarrow> transition_rule \<Rightarrow> reduce_result" where
  "apply_rule i gen r =
     (let d = rule_draft i gen r
      in \<lparr>out_attempt = dr_attempt d, out_holds = map snd (dr_holds d), out_effects = dr_effects d,
          out_verdict = (case r_verdict r of RV_applied \<Rightarrow> V_applied | RV_recorded \<Rightarrow> V_recorded),
          out_rule = Some (r_id r), out_rejection = None\<rparr>)"

definition no_rule_rejection :: "turn_attempt option \<Rightarrow> reduce_rejection" where
  "no_rule_rejection att =
     (case att of Some a \<Rightarrow> if isTerminalTurnState (a_state a) then Rej_already_terminal else Rej_illegal_transition
      | None \<Rightarrow> Rej_illegal_transition)"

definition reduce :: "reduce_input \<Rightarrow> reduce_result" where
  "reduce i =
     (case classifyLane (in_attempt i) (in_evidence i) (in_holds i) of
        Lane_rejected r \<Rightarrow> rejected i r
      | In_lane lane gen \<Rightarrow>
          (case in_attempt i of
             Some a \<Rightarrow>
               if a_state a = S_stopping \<and> lane = Lane_current then reduceStopping a i
               else (case matchingRules i of
                       r # _ \<Rightarrow> apply_rule i gen r
                     | [] \<Rightarrow> rejected i (no_rule_rejection (in_attempt i)))
           | None \<Rightarrow>
               (case matchingRules i of
                  r # _ \<Rightarrow> apply_rule i gen r
                | [] \<Rightarrow> rejected i (no_rule_rejection (in_attempt i)))))"

section \<open>Hold expiry\<close>

definition hold_due :: "ms \<Rightarrow> turn_hold \<Rightarrow> bool" where
  "hold_due now h = (case h_until h of None \<Rightarrow> False | Some t \<Rightarrow> t \<le> now)"

definition expiry_key :: "turn_hold \<Rightarrow> ms \<times> ident" where
  "expiry_key h = (or_default (h_until h) 0, h_holdId h)"

definition expiry_evidence :: "ident \<Rightarrow> (ident \<Rightarrow> ident) \<Rightarrow> ms \<Rightarrow> turn_hold \<Rightarrow> turn_evidence" where
  "expiry_evidence observedBy sessionIdFor now h = \<lparr>
     ev_eventId = ''hold_expired:'' @ h_holdId h @ '':'' @ js_int (or_default (h_until h) 0),
     ev_at = now, ev_source = Src_scheduler, ev_sessionId = sessionIdFor (h_attemptId h),
     ev_attemptRef = map_option (\<lambda>g. \<lparr>ar_attemptId = h_attemptId h, ar_generation = g\<rparr>) (h_generation h),
     ev_taskId = None, ev_observedBy = observedBy, ev_body = HoldExpired (h_holdId h) (h_reason h)\<rparr>"

definition expireHolds :: "turn_hold list \<Rightarrow> ms \<Rightarrow> ident \<Rightarrow> (ident \<Rightarrow> ident) \<Rightarrow> turn_evidence list" where
  "expireHolds holds now observedBy sessionIdFor =
     map (expiry_evidence observedBy sessionIdFor now) (sort_key expiry_key (filter (hold_due now) holds))"

end
