(* ===== verification/TurnTiming.thy ===== *)
theory TurnTiming
  imports TurnReducer "HOL-Library.Multiset"
begin

text \<open>
  The clocks of the turn ledger: what the resolved timing policy can be, when a transcript read is
  admitted as the end of a turn, how long an admission hold can last, and what one sweep over the
  holds produces.
\<close>

section \<open>The resolved policy\<close>

lemma apply_binding_get:
  "policy_get f (fst (apply_binding env acc c)) =
     (if f = eb_field c
      then (case binding_value env c of Some (v, _) \<Rightarrow> v | None \<Rightarrow> policy_get f (fst acc))
      else policy_get f (fst acc))"
  by (simp add: apply_binding_def split: option.splits)

lemma foldl_binding_other:
  "f \<notin> eb_field ` set bs \<Longrightarrow> policy_get f (fst (foldl (apply_binding env) acc bs)) = policy_get f (fst acc)"
  by (induction bs arbitrary: acc) (simp_all add: apply_binding_get)

lemma foldl_binding_at:
  "distinct (map eb_field bs) \<Longrightarrow> b \<in> set bs \<Longrightarrow>
   policy_get (eb_field b) (fst (foldl (apply_binding env) acc bs)) =
     (case binding_value env b of Some (v, _) \<Rightarrow> v | None \<Rightarrow> policy_get (eb_field b) (fst acc))"
proof (induction bs arbitrary: acc)
  case (Cons c cs)
  show ?case
  proof (cases "b = c")
    case True
    with Cons.prems show ?thesis by (auto simp: foldl_binding_other apply_binding_get)
  next
    case False
    with Cons.prems have "b \<in> set cs" "eb_field b \<noteq> eb_field c" by (auto simp: rev_image_eqI)
    with Cons show ?thesis by (simp add: apply_binding_get split: option.split)
  qed
qed simp

lemma foldl_min_le: "foldl min (a :: int) xs \<le> a \<and> (\<forall>x\<in>set xs. foldl min a xs \<le> x)"
  by (induction xs arbitrary: a) (auto, (meson min.cobounded1 min.cobounded2 order_trans)+)

lemma foldl_max_ge: "a \<le> foldl max (a :: int) xs \<and> (\<forall>x\<in>set xs. x \<le> foldl max a xs)"
  by (induction xs arbitrary: a) (auto, (meson max.cobounded1 max.cobounded2 order_trans)+)

lemma first_alias_bounds:
  "first_alias env als = Some (v, nm) \<Longrightarrow> \<exists>al\<in>set als. al_min al \<le> v \<and> v \<le> al_max al"
  by (induction als) (auto split: option.splits dest: readClamped_bounds)

lemma binding_value_bounds:
  assumes "binding_value env b = Some (v, nm)"
  shows "binding_lo b \<le> v \<and> v \<le> binding_hi b"
proof -
  have "(eb_min b \<le> v \<and> v \<le> eb_max b) \<or> (\<exists>al\<in>set (eb_aliases b). al_min al \<le> v \<and> v \<le> al_max al)"
    using assms by (auto simp: binding_value_def split: option.splits dest: readClamped_bounds first_alias_bounds)
  then show ?thesis
    using foldl_min_le[of "eb_min b" "map al_min (eb_aliases b)"] foldl_max_ge[of "eb_max b" "map al_max (eb_aliases b)"]
    unfolding binding_lo_def binding_hi_def by (fastforce)
qed

lemma bindings_distinct: "distinct (map eb_field TURN_POLICY_ENV_BINDINGS)"
  by code_simp

lemma default_in_bounds:
  "list_all (\<lambda>b. binding_lo b \<le> policy_get (eb_field b) DEFAULT_TURN_POLICY
      \<and> policy_get (eb_field b) DEFAULT_TURN_POLICY \<le> binding_hi b) TURN_POLICY_ENV_BINDINGS"
  by code_simp

text \<open>
  Every policy value that has an environment binding resolves to the canonical variable when
  that is a number in range, else to the first alias in its range, else to the default, and it always
  stays within the bounds of the binding (its own range widened by those of its aliases), whatever
  the environment holds.
\<close>

lemma resolved_policy_bounds:
  assumes b: "b \<in> set TURN_POLICY_ENV_BINDINGS"
  shows "policy_get (eb_field b) (resolveTurnPolicy env) =
      (case readClamped env (eb_canonical b) (eb_min b) (eb_max b) of
         Some v \<Rightarrow> v
       | None \<Rightarrow> (case first_alias env (eb_aliases b) of
                   Some (v, _) \<Rightarrow> v
                 | None \<Rightarrow> policy_get (eb_field b) DEFAULT_TURN_POLICY))
    \<and> binding_lo b \<le> policy_get (eb_field b) (resolveTurnPolicy env)
    \<and> policy_get (eb_field b) (resolveTurnPolicy env) \<le> binding_hi b"
proof -
  have v: "policy_get (eb_field b) (resolveTurnPolicy env) =
      (case binding_value env b of Some (v, _) \<Rightarrow> v | None \<Rightarrow> policy_get (eb_field b) DEFAULT_TURN_POLICY)"
    using foldl_binding_at[OF bindings_distinct b, of env "(DEFAULT_TURN_POLICY, [])"]
    by (simp add: resolveTurnPolicy_def resolveTurnPolicyDetailed_def case_prod_beta cong: option.case_cong)
  show ?thesis
    using default_in_bounds b binding_value_bounds[of env b] unfolding v
    by (auto simp: binding_value_def list_all_iff split: option.splits)
qed

theorem resolved_policy_bounds_witness:
  "tickMs (resolveTurnPolicy ((\<lambda>_. None)(''ADHDEV_TURN_TICK_MS'' \<mapsto> ''99'',
     ''MESH_RECONCILE_INTERVAL_MS'' \<mapsto> '' 2500 ''))) = 2500"
proof -
  let ?e = "(\<lambda>_. None)(''ADHDEV_TURN_TICK_MS'' \<mapsto> ''99'', ''MESH_RECONCILE_INTERVAL_MS'' \<mapsto> '' 2500 '')"
  let ?b = "binding F_tickMs ''ADHDEV_TURN_TICK_MS'' 100 60000
       [\<lparr>al_name = ''MESH_RECONCILE_INTERVAL_MS'', al_min = 1000, al_max = 60000\<rparr>]"
  have "?b \<in> set TURN_POLICY_ENV_BINDINGS" by (simp add: TURN_POLICY_ENV_BINDINGS_def)
  moreover have "readClamped ?e ''ADHDEV_TURN_TICK_MS'' 100 60000 = None"
    "readClamped ?e ''MESH_RECONCILE_INTERVAL_MS'' 1000 60000 = Some 2500" by code_simp+
  ultimately show ?thesis
    using resolved_policy_bounds[of ?b ?e] by (simp add: binding_def)
qed

section \<open>Admission\<close>

text \<open>
  When a transcript read ends a turn. It is admitted as strong exactly when nothing is live (no
  modal, no pending adapter) and it carries a native end marker that does not say failed, or no
  marker but a self-attributing summary. It is admitted as weak exactly when nothing is live, there is
  neither marker nor attribution, the native transcript was not read (a read that finds no marker is
  a veto), no tool is trailing, a final assistant message is there, and the transcript has been quiet
  for the quiet window.
\<close>

lemma transcript_admission:
  "(admitTranscriptFinal ev b p = Adm_strong \<longleftrightarrow>
      \<not> lv_modal (tf_live b) \<and> \<not> lv_adapterPending (tf_live b)
      \<and> (case tf_nativeMarker b of Some m \<Rightarrow> nm_outcome m \<noteq> NT_failed | None \<Rightarrow> tf_selfAttributing b))
   \<and> (admitTranscriptFinal ev b p = Adm_weak \<longleftrightarrow>
      \<not> lv_modal (tf_live b) \<and> \<not> lv_adapterPending (tf_live b) \<and> tf_nativeMarker b = None
      \<and> \<not> tf_selfAttributing b \<and> \<not> tf_nativeRead b \<and> \<not> lv_trailingTool (tf_live b)
      \<and> \<not> (tf_summary b = None \<and> tf_messageAt b = None)
      \<and> (case lv_newestActivityAt (tf_live b) of None \<Rightarrow> True | Some n \<Rightarrow> quietWindowMs p \<le> ev_at ev - n))"
  by (cases "tf_nativeMarker b")
    (auto simp: admitTranscriptFinal_def evaluateTerminalAdmission_def isTranscriptGrowing_def split: option.splits)

text \<open>
  An admission hold is bounded on both sides: it is never set in the past and never lasts longer
  than the hold time-to-live, whatever the activity stamps of the transcript say.
\<close>

lemma admission_hold_bounded:
  assumes "0 \<le> quietWindowMs p"
  shows "now \<le> admissionHoldUntil r live observedAt p now
    \<and> admissionHoldUntil r live observedAt p now \<le> now + holdTtlMs p"
  using assms
  by (auto simp: admissionHoldUntil_def Let_def holdTtlMs_def split: option.splits hold_reason.splits)

theorem admission_hold_bounded_witness:
  "7 \<le> admissionHoldUntil H_transcript_quiet (Some \<lparr>lv_modal = False, lv_adapterPending = False,
       lv_trailingTool = False, lv_newestActivityAt = Some 100000\<rparr>) 5 DEFAULT_TURN_POLICY 7
    \<and> holdTtlMs DEFAULT_TURN_POLICY = 12000"
  using admission_hold_bounded[of DEFAULT_TURN_POLICY 7] by (simp add: DEFAULT_TURN_POLICY_def holdTtlMs_def)

section \<open>The sweep\<close>

text \<open>
  One sweep emits exactly one expiry per due hold, none for a hold that is not due or has no
  deadline, in the order of the deadlines with ties broken by the hold's id, each naming its hold, its
  reason and, for a hold fenced to a generation, the attempt and generation it may act on.
\<close>

lemma expiry_sweep:
  "\<exists>hs. expireHolds holds now observedBy sessionIdFor = map (expiry_evidence observedBy sessionIdFor now) hs
     \<and> mset hs = filter_mset (\<lambda>h. \<exists>t. h_until h = Some t \<and> t \<le> now) (mset holds)
     \<and> sorted (map expiry_key hs)
     \<and> map ev_body (expireHolds holds now observedBy sessionIdFor) = map (\<lambda>h. HoldExpired (h_holdId h) (h_reason h)) hs"
proof -
  have due: "hold_due now = (\<lambda>h. \<exists>t. h_until h = Some t \<and> t \<le> now)"
    by (auto simp: hold_due_def fun_eq_iff split: option.splits)
  show ?thesis
    unfolding expireHolds_def due
    by (rule exI[of _ "sort_key expiry_key (filter (\<lambda>h. \<exists>t. h_until h = Some t \<and> t \<le> now) holds)"])
      (simp add: expiry_evidence_def comp_def)
qed

end
