(* ===== verification/TurnCore.thy ===== *)
theory TurnCore
  imports TurnReducer
begin

text \<open>
  What the primitive operations of the reducer do to an attempt: the identity and life-cycle fields
  (the core) change only in the operations that commit, begin a writer stop or requeue. These are the
  facts the proofs about whole rules and runs are built from.
\<close>

named_theorems draft_simps \<open>projections of the draft operations\<close>

section \<open>Projections of the draft operations\<close>

lemma on_attempt_simps [simp]:
  "dr_attempt d = None \<Longrightarrow> on_attempt f d = d"
  "dr_attempt d = Some a \<Longrightarrow> on_attempt f d = f a d"
  by (simp_all add: on_attempt_def)

lemma on_attempt_cases:
  "(dr_attempt d = None \<Longrightarrow> P d) \<Longrightarrow> (\<And>a. dr_attempt d = Some a \<Longrightarrow> P (f a d)) \<Longrightarrow> P (on_attempt f d)"
  by (cases "dr_attempt d") simp_all

lemma upd_attempt_simps [simp]:
  "dr_attempt (upd_attempt f d) = map_option f (dr_attempt d)"
  "dr_holds (upd_attempt f d) = dr_holds d" "dr_effects (upd_attempt f d) = dr_effects d"
  "dr_ctx (upd_attempt f d) = dr_ctx d" "dr_committed (upd_attempt f d) = dr_committed d"
  by (simp_all add: upd_attempt_def)

lemma push_simps [simp]:
  "dr_attempt (push e d) = dr_attempt d" "dr_holds (push e d) = dr_holds d"
  "dr_effects (push e d) = dr_effects d @ [e]" "dr_ctx (push e d) = dr_ctx d"
  "dr_committed (push e d) = dr_committed d"
  by (simp_all add: push_def)

lemma push_all_simps [simp]:
  "dr_attempt (push_all es d) = dr_attempt d" "dr_holds (push_all es d) = dr_holds d"
  "dr_effects (push_all es d) = dr_effects d @ es" "dr_ctx (push_all es d) = dr_ctx d"
  "dr_committed (push_all es d) = dr_committed d"
  by (simp_all add: push_all_def)

lemma addHold_simps [simp]:
  "dr_attempt (addHold h d) = dr_attempt d"
  "dr_holds (addHold h d) = AList.update (h_holdId h) h (dr_holds d)"
  "dr_effects (addHold h d) = dr_effects d @ [E_hold h]" "dr_ctx (addHold h d) = dr_ctx d"
  "dr_committed (addHold h d) = dr_committed d"
  by (simp_all add: addHold_def)

lemma releaseHolds_simps [simp]:
  "dr_attempt (releaseHolds rs keep d) = dr_attempt d" "dr_ctx (releaseHolds rs keep d) = dr_ctx d"
  "dr_committed (releaseHolds rs keep d) = dr_committed d"
  "dr_attempt d = Some a \<Longrightarrow>
     dr_holds (releaseHolds rs keep d) = filter (\<lambda>(k, h). \<not> release_hit rs keep h) (dr_holds d)"
  by (cases "dr_attempt d"; simp add: releaseHolds_def Let_def)+

lemma notify_simps [simp]:
  "dr_attempt (notify k g t d) = dr_attempt d" "dr_holds (notify k g t d) = dr_holds d"
  "dr_ctx (notify k g t d) = dr_ctx d" "dr_committed (notify k g t d) = dr_committed d"
  by (cases "dr_attempt d"; simp add: notify_def)+

lemma upd_data_simps [simp]:
  "dr_attempt (upd_data f d) = map_option (\<lambda>a. a\<lparr>a_data := f (a_data a)\<rparr>) (dr_attempt d)"
  "dr_holds (upd_data f d) = dr_holds d" "dr_effects (upd_data f d) = dr_effects d"
  "dr_ctx (upd_data f d) = dr_ctx d" "dr_committed (upd_data f d) = dr_committed d"
  by (simp_all add: upd_data_def)

lemma upd_stop_simps [simp]:
  "dr_attempt (upd_stop f d) = map_option (\<lambda>a. a\<lparr>a_data := (a_data a)\<lparr>d_writerStop :=
      map_option f (d_writerStop (a_data a))\<rparr>\<rparr>) (dr_attempt d)"
  "dr_holds (upd_stop f d) = dr_holds d" "dr_effects (upd_stop f d) = dr_effects d"
  "dr_ctx (upd_stop f d) = dr_ctx d" "dr_committed (upd_stop f d) = dr_committed d"
  by (simp_all add: upd_stop_def)

lemma bindLivenessSession_simps [simp]:
  "dr_holds (bindLivenessSession s r d) = dr_holds d"
  "dr_effects (bindLivenessSession s r d) = dr_effects d"
  "dr_ctx (bindLivenessSession s r d) = dr_ctx d"
  "dr_committed (bindLivenessSession s r d) = dr_committed d"
  by (simp_all add: bindLivenessSession_def)

lemma requestWriterStop_simps [simp]:
  "dr_attempt (requestWriterStop d) = dr_attempt d" "dr_ctx (requestWriterStop d) = dr_ctx d"
  "dr_committed (requestWriterStop d) = dr_committed d"
  by (cases "dr_attempt d"; simp add: requestWriterStop_def split: option.splits)+

section \<open>The core of an attempt\<close>

record attempt_core =
  c_attemptId :: ident
  c_scope :: turn_scope
  c_meshId :: "ident option"
  c_taskId :: "ident option"
  c_generation :: int
  c_prevGeneration :: "prev_generation option"
  c_reclaimCount :: int
  c_acceptedAt :: ms
  c_terminal :: "turn_terminal option"
  c_stop :: "writer_stop option"

definition core :: "turn_attempt \<Rightarrow> attempt_core" where
  "core a = \<lparr>c_attemptId = a_attemptId a, c_scope = a_scope a, c_meshId = a_meshId a,
     c_taskId = a_taskId a, c_generation = a_generation a, c_prevGeneration = a_prevGeneration a,
     c_reclaimCount = a_reclaimCount a, c_acceptedAt = a_acceptedAt a, c_terminal = a_terminal a,
     c_stop = d_writerStop (a_data a)\<rparr>"

text \<open>Effects that a rule may emit without changing the life cycle.\<close>

fun soft_effect :: "turn_effect \<Rightarrow> bool" where
  "soft_effect (E_commit _) = False"
| "soft_effect (E_reclaim _ _ _ _) = False"
| "soft_effect (E_queue_status _ _ _ _) = False"
| "soft_effect (E_task_terminal _ _ _) = False"
| "soft_effect (E_release_attempt_ref _ _) = False"
| "soft_effect (E_bus b) = (be_phase b \<noteq> Ph_committed)"
| "soft_effect _ = True"

definition soft_step :: "draft \<Rightarrow> draft \<Rightarrow> bool" where
  "soft_step d d' \<longleftrightarrow>
     (\<exists>a a'. dr_attempt d = Some a \<and> dr_attempt d' = Some a' \<and> core a' = core a
        \<and> (a_state a' = a_state a \<or> a_state a' = S_suspended))
     \<and> dr_ctx d' = dr_ctx d \<and> dr_committed d' = dr_committed d
     \<and> (\<exists>es. dr_effects d' = dr_effects d @ es \<and> list_all soft_effect es)"

fun opens_attempt :: "action_id \<Rightarrow> bool" where
  "opens_attempt Act_open_dispatch = True"
| "opens_attempt Act_open_plain = True"
| "opens_attempt _ = False"

fun hard_template :: "effect_template \<Rightarrow> bool" where
  "hard_template (T_commit _ _ _ _) = True"
| "hard_template (T_reclaim _) = True"
| "hard_template T_adopt_prev_generation = True"
| "hard_template _ = False"

fun soft_template :: "effect_template \<Rightarrow> bool" where
  "soft_template (T_act act) = (\<not> opens_attempt act)"
| "soft_template (T_bus ph) = (ph \<noteq> Ph_committed)"
| "soft_template t = (\<not> hard_template t)"

lemma releaseHolds_effects:
  "\<exists>es. dr_effects (releaseHolds rs keep d) = dr_effects d @ es \<and> list_all soft_effect es
     \<and> (dr_attempt d \<noteq> None \<longrightarrow> length es \<le> 1)"
  by (cases "dr_attempt d") (auto simp: releaseHolds_def Let_def)

lemma notify_effects:
  "\<exists>es. dr_effects (notify k g t d) = dr_effects d @ es \<and> list_all soft_effect es"
  by (cases "dr_attempt d") (auto simp: notify_def)

lemma soft_stepI:
  assumes "dr_attempt d = Some a" "dr_attempt d' = Some a'" "core a' = core a"
    "a_state a' = a_state a \<or> a_state a' = S_suspended"
    "dr_ctx d' = dr_ctx d" "dr_committed d' = dr_committed d"
    "\<exists>es. dr_effects d' = dr_effects d @ es \<and> list_all soft_effect es"
  shows "soft_step d d'"
  using assms by (auto simp: soft_step_def)

lemma soft_step_refl: "dr_attempt d = Some a \<Longrightarrow> soft_step d d"
  by (auto simp: soft_step_def)

lemma soft_step_trans: "soft_step d d' \<Longrightarrow> soft_step d' d'' \<Longrightarrow> soft_step d d''"
  unfolding soft_step_def by auto

lemma soft_upd_attempt:
  assumes "dr_attempt d = Some a" "core (f a) = core a" "a_state (f a) = a_state a \<or> a_state (f a) = S_suspended"
  shows "soft_step d (upd_attempt f d)"
  using assms by (intro soft_stepI) auto

lemma soft_push: "dr_attempt d = Some a \<Longrightarrow> soft_effect e \<Longrightarrow> soft_step d (push e d)"
  by (auto simp: soft_step_def)

lemma soft_addHold: "dr_attempt d = Some a \<Longrightarrow> soft_step d (addHold h d)"
  by (auto simp: soft_step_def)

lemma soft_releaseHolds: "dr_attempt d = Some a \<Longrightarrow> soft_step d (releaseHolds rs keep d)"
  using releaseHolds_effects[of rs keep d] by (auto simp: soft_step_def)

lemma soft_notify: "dr_attempt d = Some a \<Longrightarrow> soft_step d (notify k g t d)"
  using notify_effects[of k g t d] by (auto simp: soft_step_def)

lemma soft_upd_data:
  "dr_attempt d = Some a \<Longrightarrow> d_writerStop (f (a_data a)) = d_writerStop (a_data a) \<Longrightarrow> soft_step d (upd_data f d)"
  unfolding upd_data_def by (rule soft_upd_attempt) (simp_all add: core_def)

lemma soft_bindLivenessSession: "dr_attempt d = Some a \<Longrightarrow> soft_step d (bindLivenessSession s r d)"
  unfolding bindLivenessSession_def by (rule soft_upd_attempt) (simp_all add: core_def)

lemma soft_step_attempt: "soft_step d d' \<Longrightarrow> \<exists>a. dr_attempt d' = Some a"
  by (auto simp: soft_step_def)

lemmas soft_intros = soft_step_refl soft_upd_attempt soft_push soft_addHold soft_releaseHolds soft_notify
  soft_upd_data soft_bindLivenessSession

lemma soft_held_suspension:
  assumes a: "dr_attempt d = Some a"
  shows "soft_step d (act_apply_held_suspension d)"
proof (cases "map_of (dr_holds d) (holdId (a_attemptId a) H_suspension_before_consumed)")
  case None
  with a show ?thesis by (simp add: act_apply_held_suspension_def soft_step_refl)
next
  case (Some held)
  have "soft_step d (notify k1 g1 t1 (push (bus_event Ph_suspended a) (upd_attempt (\<lambda>a. a\<lparr>a_state := S_suspended, a_suspension := m1\<rparr>)
     (releaseHolds r1 k2 (upd_data (\<lambda>x. x\<lparr>d_providerSuspension := s1\<rparr>) d)))))" for k1 g1 t1 m1 r1 k2 s1
    using a by (intro soft_step_trans[OF _ soft_notify] soft_step_trans[OF _ soft_push]
        soft_step_trans[OF _ soft_upd_attempt] soft_step_trans[OF _ soft_releaseHolds] soft_upd_data)
      (auto simp: core_def bus_event_def)
  with a Some show ?thesis by (simp add: act_apply_held_suspension_def Let_def)
qed

lemma core_observe [simp]: "core (observe_liveness ev a) = core a" "a_state (observe_liveness ev a) = a_state a"
  by (auto simp: observe_liveness_def core_def split: turn_evidence_body.splits)

lemma core_max_activity [simp]: "core (max_activity ev a) = core a" "a_state (max_activity ev a) = a_state a"
  "a_data (max_activity ev a) = a_data a"
  by (auto simp: max_activity_def core_def)

lemma core_resolve [simp]: "core (resolve_suspension b t a) = core a" "a_state (resolve_suspension b t a) = a_state a"
  by (auto simp: resolve_suspension_def core_def)

lemma core_upd [simp]:
  "core (a\<lparr>a_lastActivityAt := x1\<rparr>) = core a" "core (a\<lparr>a_livenessFailStreak := x2\<rparr>) = core a"
  "core (a\<lparr>a_lastLiveness := x3\<rparr>) = core a" "core (a\<lparr>a_weakSince := x4\<rparr>) = core a"
  "core (a\<lparr>a_messageId := x5\<rparr>) = core a" "core (a\<lparr>a_nodeId := x6\<rparr>) = core a"
  "core (a\<lparr>a_providerType := x7\<rparr>) = core a" "core (a\<lparr>a_dispatchNonce := x8\<rparr>) = core a"
  "core (a\<lparr>a_deliveredAt := x9\<rparr>) = core a" "core (a\<lparr>a_consumedAt := x10\<rparr>) = core a"
  "core (a\<lparr>a_suspension := x11\<rparr>) = core a" "core (a\<lparr>a_hollowCount := x12\<rparr>) = core a"
  "core (a\<lparr>a_redriveCount := x13\<rparr>) = core a" "core (a\<lparr>a_lastNoProgressNoticeAt := x14\<rparr>) = core a"
  "core (a\<lparr>a_notifiedAt := x15\<rparr>) = core a" "core (a\<lparr>a_candidateNotifiedGeneration := x16\<rparr>) = core a"
  "core (a\<lparr>a_sessionId := x17\<rparr>) = core a" "core (a\<lparr>a_state := x18\<rparr>) = core a"
  "d_writerStop x19 = d_writerStop (a_data a) \<Longrightarrow> core (a\<lparr>a_data := x19\<rparr>) = core a"
  by (simp_all add: core_def)

lemma soft_action:
  assumes a: "dr_attempt d = Some a" and "\<not> opens_attempt act"
  shows "soft_step d (ACTIONS act d)"
proof (cases act)
  case Act_mark_delivered
  show ?thesis
  proof (cases "ev_body (dr_ev d)")
    case (Delivered m x y)
    with Act_mark_delivered a show ?thesis
      by (auto simp: act_mark_delivered_def intro!: soft_step_trans[OF _ soft_upd_attempt]
          soft_step_trans[OF _ soft_bindLivenessSession] soft_upd_attempt simp: core_def bindLivenessSession_def)
  qed (use a Act_mark_delivered in \<open>simp_all add: act_mark_delivered_def soft_step_refl\<close>)
next
  case Act_rebind_dispatch
  show ?thesis
  proof (cases "ev_body (dr_ev d)")
    case (DispatchAccepted b)
    with Act_rebind_dispatch a show ?thesis
      by (auto simp: act_rebind_dispatch_def core_def bindLivenessSession_def
          intro!: soft_step_trans[OF _ soft_upd_attempt] soft_bindLivenessSession soft_upd_attempt)
  qed (use a Act_rebind_dispatch in \<open>simp_all add: act_rebind_dispatch_def soft_step_refl\<close>)
next
  case Act_apply_held_suspension
  with a show ?thesis by (simp add: soft_held_suspension)
next
  case Act_defer_unconfirmed_end
  with a show ?thesis
    by (auto simp: act_defer_unconfirmed_end_def Let_def split: option.splits
        intro!: soft_step_refl soft_step_trans[OF _ soft_addHold] soft_upd_data)
next
  case Act_open_report_correction
  with a show ?thesis
    by (auto simp: act_open_report_correction_def Let_def
        intro!: soft_step_refl soft_step_trans[OF _ soft_addHold] soft_upd_data)
qed (use assms in \<open>auto simp: act_consume_def act_suspend_def act_store_git_def act_mark_notified_def
      record_report_def Let_def intro!: soft_intros split: turn_evidence_body.splits bool.splits\<close>)

lemma notify_plain_attempt [simp]: "dr_attempt (notify_plain e g a d) = dr_attempt d"
  by (simp add: notify_plain_def Let_def split: option.splits)

lemma soft_notify_plain: "dr_attempt d = Some a \<Longrightarrow> soft_step d (notify_plain e g b d)"
  by (auto simp: notify_plain_def Let_def split: option.splits intro: soft_step_refl soft_notify)

lemma soft_template_notify:
  assumes a: "dr_attempt d = Some a"
  shows "soft_step d (template_notify e w g d)"
proof (cases w)
  case When_suspension_reminder_due
  with a show ?thesis
    by (auto simp: template_notify_def suspension_reminder_def Let_def split: option.splits
        intro!: soft_step_refl soft_push soft_step_trans[OF _ soft_notify] soft_upd_data)
qed (use a in \<open>auto simp: template_notify_def intro!: soft_step_refl soft_push soft_notify_plain
      soft_step_trans[OF _ soft_notify_plain] soft_upd_attempt split: option.splits\<close>)

lemma soft_template_hold: "dr_attempt d = Some a \<Longrightarrow> soft_step d (template_hold e u x m g d)"
  by (auto simp: template_hold_def split: option.splits intro!: soft_step_refl soft_addHold)

lemma soft_run_template:
  assumes a: "dr_attempt d = Some a" and t: "soft_template t"
  shows "soft_step d (run_template t d)"
proof (cases t)
  case (T_release r)
  with a show ?thesis
    by (cases r) (auto intro!: soft_step_refl soft_releaseHolds split: turn_evidence_body.splits)
next
  case (T_bus ph)
  with assms show ?thesis by (auto intro!: soft_push simp: bus_event_def)
qed (use assms in \<open>auto intro!: soft_action soft_template_hold soft_template_notify soft_push
      simp: template_cancel_dispatch_def Let_def intro!: soft_step_refl\<close>)

lemma soft_fold:
  assumes "dr_attempt d = Some a" and "list_all soft_template ts"
  shows "soft_step d (foldl (\<lambda>d t. applyTemplate t d) d ts)"
  using assms
proof (induction ts arbitrary: d a)
  case Nil
  then show ?case by (simp add: soft_step_refl)
next
  case (Cons t ts)
  have one: "soft_step d (applyTemplate t d)"
    using Cons.prems by (auto simp: applyTemplate_def intro: soft_run_template soft_step_refl)
  then obtain b where "dr_attempt (applyTemplate t d) = Some b" by (auto dest: soft_step_attempt)
  with Cons one show ?case by (auto intro: soft_step_trans)
qed

section \<open>Labels\<close>

text \<open>The life-cycle events among the effects: a commit with its outcome, a requeue with its generations.\<close>

datatype life_label = Committed int turn_outcome | Requeued int int

fun effect_label :: "turn_effect \<Rightarrow> life_label list" where
  "effect_label (E_commit c) = [Committed (ce_generation c) (ce_outcome c)]"
| "effect_label (E_reclaim _ g g' _) = [Requeued g g']"
| "effect_label _ = []"

definition labels :: "turn_effect list \<Rightarrow> life_label list" where
  "labels es = concat (map effect_label es)"

lemma labels_simps [simp]: "labels [] = []" "labels (e # es) = effect_label e @ labels es"
  "labels (es @ fs) = labels es @ labels fs"
  by (simp_all add: labels_def)

lemma soft_labels: "list_all soft_effect es \<Longrightarrow> labels es = []"
proof (induction es)
  case (Cons e es)
  then show ?case by (cases e) auto
qed simp

lemma queue_effects_labels [simp]: "labels (queue_effects a out r only) = []"
  by (simp add: queue_effects_def split: option.splits)

lemma releaseHolds_labels [simp]: "labels (dr_effects (releaseHolds rs keep d)) = labels (dr_effects d)"
  using releaseHolds_effects[of rs keep d] by (auto simp: soft_labels)

lemma notify_labels [simp]: "labels (dr_effects (notify k g t d)) = labels (dr_effects d)"
  using notify_effects[of k g t d] by (auto simp: soft_labels)

lemma requestWriterStop_labels [simp]: "labels (dr_effects (requestWriterStop d)) = labels (dr_effects d)"
  by (cases "dr_attempt d") (auto simp: requestWriterStop_def split: option.splits)

section \<open>The hard operations\<close>

definition commit_done :: "turn_outcome \<Rightarrow> turn_reason \<Rightarrow> commit_strength \<Rightarrow> turn_attempt \<Rightarrow> draft \<Rightarrow> draft \<Rightarrow> bool" where
  "commit_done out reason strength a d d' \<longleftrightarrow>
     (\<exists>t. dr_attempt d' = Some (committed_attempt t a) \<and> tt_outcome t = out \<and> tt_reason t = reason
        \<and> tt_strength t = strength \<and> tt_at t = ev_at (dr_ev d))
     \<and> dr_committed d' \<and> dr_ctx d' = dr_ctx d \<and> dr_holds d' = []
     \<and> labels (dr_effects d') = labels (dr_effects d) @ [Committed (a_generation a) out]"

lemma release_all: "release_hit All_holds [] h"
  by (simp add: release_hit_def)

lemma commit_final_done:
  "dr_attempt d = Some a \<Longrightarrow> commit_done out reason strength a d (commit_final out strength reason txt a d)"
  unfolding commit_done_def
  by (intro conjI exI[of _ "final_terminal out strength reason txt a d"])
    (simp_all add: commit_final_def final_terminal_def Let_def release_all)

definition fresh_stop :: "draft \<Rightarrow> turn_reason \<Rightarrow> writer_stop" where
  "fresh_stop d reason = \<lparr>ws_requestId = ev_eventId (dr_ev d) @ '':writer-stop'', ws_reason = reason,
     ws_requestedAt = dr_now d, ws_tries = 1, ws_escalated = False, ws_confirmed = False,
     ws_settledBy = None, ws_terminal = None\<rparr>"

definition stopping_attempt :: "writer_stop \<Rightarrow> turn_attempt \<Rightarrow> turn_attempt" where
  "stopping_attempt s a = a\<lparr>a_state := S_stopping, a_data := (a_data a)\<lparr>d_writerStop := Some s\<rparr>\<rparr>"

lemma beginWriterStop_new:
  assumes "dr_attempt d = Some a" "d_writerStop (a_data a) = None"
  shows "dr_attempt (beginWriterStop reason d) = Some (stopping_attempt (fresh_stop d reason) a)"
    and "dr_ctx (beginWriterStop reason d) = dr_ctx d"
    and "dr_committed (beginWriterStop reason d) = dr_committed d"
    and "labels (dr_effects (beginWriterStop reason d)) = labels (dr_effects d)"
  using assms by (simp_all add: beginWriterStop_def stopping_attempt_def fresh_stop_def)

definition stop_begun :: "turn_attempt \<Rightarrow> draft \<Rightarrow> draft \<Rightarrow> bool" where
  "stop_begun a d d' \<longleftrightarrow>
     (\<exists>s. dr_attempt d' = Some (stopping_attempt s a) \<and> \<not> ws_confirmed s)
     \<and> dr_ctx d' = dr_ctx d \<and> dr_committed d' = dr_committed d
     \<and> labels (dr_effects d') = labels (dr_effects d)"

lemma beginWriterStop_begun:
  "dr_attempt d = Some a \<Longrightarrow> d_writerStop (a_data a) = None \<Longrightarrow> stop_begun a d (beginWriterStop reason d)"
  by (auto simp: stop_begun_def beginWriterStop_new fresh_stop_def)

lemma stop_begun_upd:
  "stop_begun a d d' \<Longrightarrow> (\<And>s. ws_confirmed (f s) = ws_confirmed s) \<Longrightarrow> stop_begun a d (upd_stop f d')"
  by (auto simp: stop_begun_def stopping_attempt_def)

lemma commit_cases:
  assumes "dr_attempt d = Some a" "d_writerStop (a_data a) = None"
  shows "stop_first d reason a \<and> stop_begun a d (commit out strength reason txt d)
    \<or> \<not> stop_first d reason a \<and> commit_done out reason strength a d (commit out strength reason txt d)"
  using assms commit_final_done[OF assms(1)] beginWriterStop_begun[OF assms]
  by (auto simp: commit_def commit_stop_def intro!: stop_begun_upd)

lemma plain_not_stop_first: "a_scope a = Plain \<Longrightarrow> \<not> stop_first d reason a"
  by (simp add: stop_first_def isMeshScope_def)

end
