(* ===== verification/TurnLifecycle.thy ===== *)
theory TurnLifecycle
  imports TurnCore
begin

text \<open>
  The life cycle of an attempt. An abstract machine says what a turn attempt may do: run, be stopped,
  be requeued within its budget, and end once. The shape of every row of the transition table is
  checked by evaluation; from the shapes, and from the facts of theory \<open>TurnCore\<close>, one step of
  \<open>reduce\<close> is shown to be one step of the abstract machine.
\<close>

section \<open>The abstract machine\<close>

datatype phase = Running | Stopping | Done turn_outcome

record lifecycle =
  k_scope :: turn_scope
  k_phase :: phase
  k_generation :: int
  k_reclaims :: int

definition phase_of :: "turn_attempt \<Rightarrow> phase" where
  "phase_of a = (case a_terminal a of
     Some t \<Rightarrow> Done (tt_outcome t)
   | None \<Rightarrow> if a_state a = S_stopping then Stopping else Running)"

definition lifecycle_of :: "turn_attempt \<Rightarrow> lifecycle" where
  "lifecycle_of a = \<lparr>k_scope = a_scope a, k_phase = phase_of a, k_generation = a_generation a,
     k_reclaims = a_reclaimCount a\<rparr>"

inductive life_step :: "lifecycle \<Rightarrow> life_label list \<Rightarrow> lifecycle \<Rightarrow> bool" where
  stay: "life_step k [] k"
| begin_stop: "k_phase k = Running \<Longrightarrow> k_scope k \<noteq> Plain \<Longrightarrow> life_step k [] (k\<lparr>k_phase := Stopping\<rparr>)"
| finish: "k_phase k = Running \<or> k_phase k = Stopping \<Longrightarrow>
     life_step k [Committed (k_generation k) out] (k\<lparr>k_phase := Done out\<rparr>)"
| requeue: "k_scope k = Mesh_queue \<Longrightarrow> k_phase k = Stopping \<Longrightarrow> k_reclaims k < RECLAIM_BUDGET \<Longrightarrow>
     life_step k [Requeued (k_generation k) (k_generation k + 1)]
       (k\<lparr>k_phase := Running, k_generation := k_generation k + 1, k_reclaims := k_reclaims k + 1\<rparr>)"

inductive_cases life_step_doneE: "life_step k ls k'"

section \<open>Well-formed attempts\<close>

definition attempt_ok :: "turn_attempt \<Rightarrow> bool" where
  "attempt_ok a \<longleftrightarrow>
     (case a_terminal a of
        Some t \<Rightarrow> a_state a = outcome_state (tt_outcome t)
      | None \<Rightarrow> \<not> isTerminalTurnState (a_state a))
     \<and> (case d_writerStop (a_data a) of
          None \<Rightarrow> a_state a \<noteq> S_stopping
        | Some s \<Rightarrow> (a_state a = S_stopping \<and> \<not> ws_confirmed s \<or> isTerminalTurnState (a_state a))
            \<and> a_scope a \<noteq> Plain)
     \<and> 0 \<le> a_reclaimCount a \<and> a_reclaimCount a \<le> RECLAIM_BUDGET
     \<and> (a_prevGeneration a \<noteq> None \<or> a_reclaimCount a > 0 \<longrightarrow> a_scope a = Mesh_queue)"

definition running :: "turn_state \<Rightarrow> bool" where
  "running s \<longleftrightarrow> s \<in> set NONTERMINAL"

lemma running_iff: "running s \<longleftrightarrow> \<not> isTerminalTurnState s \<and> s \<noteq> S_stopping"
  by (cases s) (simp_all add: running_def NONTERMINAL_def)

lemma running_suspended [simp]: "running S_suspended"
  by (simp add: running_def NONTERMINAL_def)

lemma attempt_ok_running:
  assumes "attempt_ok a" "running (a_state a)"
  shows "d_writerStop (a_data a) = None" "a_terminal a = None" "phase_of a = Running"
  using assms by (auto simp: attempt_ok_def running_iff phase_of_def split: option.splits)

text \<open>Well-formedness and life cycle depend on the core and on the state only.\<close>

lemma core_eqD:
  assumes "core a = core b"
  shows "a_attemptId a = a_attemptId b" "a_scope a = a_scope b" "a_generation a = a_generation b"
    "a_reclaimCount a = a_reclaimCount b" "a_terminal a = a_terminal b"
    "d_writerStop (a_data a) = d_writerStop (a_data b)" "a_prevGeneration a = a_prevGeneration b"
    "a_acceptedAt a = a_acceptedAt b" "a_meshId a = a_meshId b" "a_taskId a = a_taskId b"
  using assms by (simp_all add: core_def)

lemma attempt_ok_core:
  "core a = core b \<Longrightarrow> a_state a = a_state b \<Longrightarrow> attempt_ok a = attempt_ok b"
  by (simp add: attempt_ok_def core_eqD[of a b] cong: option.case_cong)

lemma outcome_state_not_stopping [simp]: "outcome_state x \<noteq> S_stopping"
  by (cases x) simp_all

lemma running_move:
  assumes "attempt_ok b" "running (a_state b)" "core a = core b" "running (a_state a)"
  shows "attempt_ok a" "lifecycle_of a = lifecycle_of b"
  using assms
  by (auto simp: attempt_ok_def lifecycle_of_def phase_of_def running_iff core_def split: option.splits)

lemma attempt_ok_committed:
  assumes "attempt_ok a"
  shows "attempt_ok (committed_attempt t a)"
  using assms by (auto simp: attempt_ok_def committed_attempt_def split: option.splits)

lemma lifecycle_committed [simp]:
  "lifecycle_of (committed_attempt t a) = (lifecycle_of a)\<lparr>k_phase := Done (tt_outcome t)\<rparr>"
  by (simp add: lifecycle_of_def phase_of_def committed_attempt_def)

lemma attempt_ok_stopping:
  assumes "attempt_ok a" "running (a_state a)" "a_scope a \<noteq> Plain" "\<not> ws_confirmed s"
  shows "attempt_ok (stopping_attempt s a)"
    "lifecycle_of (stopping_attempt s a) = (lifecycle_of a)\<lparr>k_phase := Stopping\<rparr>"
  using assms
  by (auto simp: attempt_ok_def stopping_attempt_def lifecycle_of_def phase_of_def running_iff split: option.splits)

section \<open>The shape of the table\<close>

fun audit_template :: "effect_template \<Rightarrow> bool" where
  "audit_template (T_record _) = True"
| "audit_template (T_notify _ When_always _) = True"
| "audit_template (T_cancel_dispatch _ _) = True"
| "audit_template _ = False"

definition on_within :: "transition_rule \<Rightarrow> turn_evidence_kind list \<Rightarrow> bool" where
  "on_within r ks = list_all (\<lambda>k. k \<in> set ks) (r_on r)"

fun outcome_fits :: "outcome_expr \<Rightarrow> transition_rule \<Rightarrow> bool" where
  "outcome_fits (Oc _) r = True"
| "outcome_fits Oc_from_report r = on_within r [K_worker_report]"
| "outcome_fits Oc_from_operator r = on_within r [K_operator_status]"
| "outcome_fits Oc_from_recorded_report r =
     (length (r_effects r) = 1
      \<and> r_guard r \<in> {Some G_finished_after_report, Some G_hold_await_end, Some G_exit_after_report})"

fun reason_fits :: "commit_reason_expr \<Rightarrow> transition_rule \<Rightarrow> bool" where
  "reason_fits (CRs _) r = True"
| "reason_fits CRs_from_cancel r = on_within r [K_cancel]"
| "reason_fits CRs_from_operator r = on_within r [K_operator_status]"
| "reason_fits CRs_from_provider_failure r = on_within r [K_process_exit, K_turn_end]"
| "reason_fits CRs_from_session_error r = on_within r [K_session_error]"

fun template_fits :: "effect_template \<Rightarrow> transition_rule \<Rightarrow> bool" where
  "template_fits (T_commit oe _ re _) r = (outcome_fits oe r \<and> reason_fits re r)"
| "template_fits (T_reclaim re) r = (re = RRs_from_refusal \<longrightarrow> r_guard r = Some G_reclaiming_refusal)"
| "template_fits T_adopt_prev_generation r = (r_guard r = Some G_prev_generation_completion \<and> length (r_effects r) = 1)"
| "template_fits _ r = False"

definition audit_rule :: "transition_rule \<Rightarrow> bool" where
  "audit_rule r \<longleftrightarrow> list_all audit_template (r_effects r) \<and> r_to r = To_same"

definition ack_rule :: "transition_rule \<Rightarrow> bool" where
  "ack_rule r \<longleftrightarrow> r_effects r = [T_act Act_mark_notified] \<and> r_to r = To_same \<and> on_within r [K_coordinator_ack]"

definition opening_rule :: "transition_rule \<Rightarrow> bool" where
  "opening_rule r \<longleftrightarrow> r_lane r = Lane_none \<and> r_from r = From_none
     \<and> (case r_effects r of T_act act # ts \<Rightarrow> opens_attempt act \<and> list_all soft_template ts | _ \<Rightarrow> False)
     \<and> (case r_to r of To s \<Rightarrow> running s | _ \<Rightarrow> False)"

definition from_running :: "rule_from \<Rightarrow> bool" where
  "from_running f = (case f of From ss \<Rightarrow> list_all running ss | From_nonterminal \<Rightarrow> True | _ \<Rightarrow> False)"

definition soft_rule :: "transition_rule \<Rightarrow> bool" where
  "soft_rule r \<longleftrightarrow> r_verdict r = RV_applied \<and> list_all soft_template (r_effects r)
     \<and> (case r_to r of To s \<Rightarrow> running s | To_same \<Rightarrow> True | To_outcome \<Rightarrow> False) \<and> from_running (r_from r)"

definition hard_rule :: "transition_rule \<Rightarrow> bool" where
  "hard_rule r \<longleftrightarrow> r_verdict r = RV_applied \<and> r_effects r \<noteq> [] \<and> list_all soft_template (butlast (r_effects r))
     \<and> template_fits (last (r_effects r)) r \<and> from_running (r_from r)"

definition rule_shape :: "transition_rule \<Rightarrow> bool" where
  "rule_shape r \<longleftrightarrow> audit_rule r \<or> ack_rule r \<or> opening_rule r \<or> soft_rule r \<or> hard_rule r"

lemmas shape_defs = rule_shape_def audit_rule_def ack_rule_def opening_rule_def soft_rule_def hard_rule_def
  from_running_def on_within_def running_def

lemma table_shapes: "list_all rule_shape TRANSITIONS"
  by code_simp

section \<open>What a selected rule satisfies\<close>

definition guard_holds :: "guard_ctx \<Rightarrow> transition_rule \<Rightarrow> bool" where
  "guard_holds ctx r = (case r_guard r of None \<Rightarrow> True | Some g \<Rightarrow> GUARDS g ctx)"

lemma matchingRulesD:
  assumes "r \<in> set (matchingRules i)" "classifyLane (in_attempt i) (in_evidence i) (in_holds i) = In_lane lane gen"
  shows "r \<in> set TRANSITIONS" "r_lane r = lane" "ruleAdmitsState (r_from r) (map_option a_state (in_attempt i))"
    "ev_kind (in_evidence i) \<in> set (r_on r)" "guard_holds (ctx_of i gen) r" "rule_shape r"
proof -
  have r: "r \<in> set (laneCandidates lane (map_option a_state (in_attempt i)) (ev_kind (in_evidence i)))"
    and g: "guard_passes (ctx_of i gen) r \<or> r_guard r = Some G_otherwise"
    using assms by (auto simp: matchingRules_def select_rules_def Let_def split: if_splits)
  show "r \<in> set TRANSITIONS" "r_lane r = lane" "ruleAdmitsState (r_from r) (map_option a_state (in_attempt i))"
    "ev_kind (in_evidence i) \<in> set (r_on r)"
    using r by (auto simp: laneCandidates_def)
  then show "rule_shape r" using table_shapes by (auto simp: list_all_iff)
  show "guard_holds (ctx_of i gen) r"
    using g by (auto simp: guard_passes_def guard_holds_def split: option.splits guard_id.splits)
qed

lemma draft_of_simps [simp]:
  "dr_attempt (draft_of i gen) = in_attempt i" "dr_effects (draft_of i gen) = []"
  "dr_ctx (draft_of i gen) = ctx_of i gen" "dr_committed (draft_of i gen) = False"
  by (simp_all add: draft_of_def)

lemma ctx_of_simps [simp]:
  "g_attempt (ctx_of i gen) = in_attempt i" "g_holds (ctx_of i gen) = in_holds i"
  "g_evidence (ctx_of i gen) = in_evidence i" "g_policy (ctx_of i gen) = in_policy i"
  "g_nowMs (ctx_of i gen) = in_nowMs i" "g_effectiveGeneration (ctx_of i gen) = gen"
  by (simp_all add: ctx_of_def)

lemma on_withinD: "on_within r ks \<Longrightarrow> k \<in> set (r_on r) \<Longrightarrow> k \<in> set ks"
  by (auto simp: on_within_def list_all_iff)

lemma body_of_kind:
  "body_kind b = K_worker_report \<Longrightarrow> \<exists>x. b = WorkerReport x"
  "body_kind b = K_operator_status \<Longrightarrow> \<exists>x y. b = OperatorStatus x y"
  "body_kind b = K_cancel \<Longrightarrow> \<exists>x. b = Cancel x"
  "body_kind b = K_process_exit \<Longrightarrow> \<exists>x y. b = ProcessExit x y"
  "body_kind b = K_turn_end \<Longrightarrow> \<exists>x. b = TurnEnd x"
  "body_kind b = K_session_error \<Longrightarrow> \<exists>x. b = SessionError x"
  "body_kind b = K_coordinator_ack \<Longrightarrow> \<exists>x y. b = CoordinatorAck x y"
  "body_kind b = K_hold_expired \<Longrightarrow> \<exists>x y. b = HoldExpired x y"
  by (cases b; simp)+

section \<open>Hard templates\<close>

text \<open>
  The evidence kinds that may not end a mesh attempt before its writer is known to be quiescent.
\<close>

definition fenced :: "guard_ctx \<Rightarrow> bool" where
  "fenced ctx \<longleftrightarrow> ev_kind (g_evidence ctx) \<in> {K_cancel, K_operator_status, K_session_error, K_process_exit}"

text \<open>
  A hard template ends the attempt or begins its writer stop, up to fields outside the core. It ends
  a mesh attempt at once only when the evidence and the reason are not fenced.
\<close>

definition may_commit :: "guard_ctx \<Rightarrow> turn_reason \<Rightarrow> turn_attempt \<Rightarrow> bool" where
  "may_commit ctx reason a \<longleftrightarrow>
     a_scope a = Plain \<or> settleIdleReportOwed ctx \<or> \<not> fenced ctx \<and> reason \<noteq> Rs_hard_ceiling"

definition hard_done ::
  "(turn_outcome \<Rightarrow> turn_reason \<Rightarrow> commit_strength \<Rightarrow> bool) \<Rightarrow> turn_attempt \<Rightarrow> draft \<Rightarrow> draft \<Rightarrow> bool" where
  "hard_done V a d d' \<longleftrightarrow> (\<exists>b. core b = core a \<and> a_state b = a_state a
     \<and> (a_scope a \<noteq> Plain \<and> stop_begun b d d'
        \<or> (\<exists>out reason strength. V out reason strength \<and> may_commit (dr_ctx d) reason a
              \<and> commit_done out reason strength b d d')))"

lemma hard_done_mono: "hard_done V a d d' \<Longrightarrow> (\<And>x y z. V x y z \<Longrightarrow> W x y z) \<Longrightarrow> hard_done W a d d'"
  unfolding hard_done_def by blast

text \<open>The verdict a hard template commits, when it commits.\<close>

fun template_verdict :: "effect_template \<Rightarrow> draft \<Rightarrow> turn_outcome \<Rightarrow> turn_reason \<Rightarrow> commit_strength \<Rightarrow> bool" where
  "template_verdict (T_commit oe st re _) d out reason strength \<longleftrightarrow>
     commit_outcome oe d = Some out \<and> commit_reason re (dr_ev d) = Some reason \<and> strength = st"
| "template_verdict (T_reclaim _) d out reason strength \<longleftrightarrow> out = O_failed \<and> strength = Str_genuine"
| "template_verdict T_adopt_prev_generation d out reason strength \<longleftrightarrow>
     adoptedTerminal (dr_ev d) = (out, strength, reason)"
| "template_verdict _ d out reason strength \<longleftrightarrow> False"

lemma may_commit_iff: "d_writerStop (a_data a) = None \<Longrightarrow> may_commit (dr_ctx d) reason a \<longleftrightarrow> \<not> stop_first d reason a"
  by (auto simp: may_commit_def stop_first_def fenced_def isMeshScope_def stop_confirmed_def)

lemma hard_commit:
  assumes "dr_attempt d = Some a" "d_writerStop (a_data a) = None"
  shows "hard_done (\<lambda>x y z. x = out \<and> y = reason \<and> z = strength) a d (commit out strength reason txt' d)"
proof -
  from commit_cases[OF assms, of reason out strength txt'] consider
    "stop_first d reason a" "stop_begun a d (commit out strength reason txt' d)"
    | "may_commit (dr_ctx d) reason a" "commit_done out reason strength a d (commit out strength reason txt' d)"
    using may_commit_iff[OF assms(2)] by blast
  then show ?thesis
    unfolding hard_done_def by cases (blast dest: plain_not_stop_first)+
qed

lemma commit_done_pre:
  "commit_done out reason strength a (upd_attempt f d) d' \<Longrightarrow> commit_done out reason strength a d d'"
  "stop_begun a (upd_attempt f d) d' \<Longrightarrow> stop_begun a d d'"
  by (simp_all add: commit_done_def stop_begun_def)

lemma hard_adopt:
  assumes a: "dr_attempt d = Some a" and w: "d_writerStop (a_data a) = None"
    and p: "a_prevGeneration a = Some pg" and sc: "a_scope a \<noteq> Plain"
  shows "hard_done (template_verdict T_adopt_prev_generation d) a d (adopt_prev_generation d)"
proof -
  obtain out strength reason where t: "adoptedTerminal (dr_ev d) = (out, strength, reason)"
    by (metis prod_cases3)
  let ?f = "\<lambda>b. b\<lparr>a_sessionId := pg_sessionId pg, a_consumedAt := or_keep (a_consumedAt b) (Some (ev_at (dr_ev d)))\<rparr>"
  show ?thesis
  proof (cases "same_session (a_sessionId a) (pg_sessionId pg)")
    case True
    have "hard_done (template_verdict T_adopt_prev_generation d) (?f a) (upd_attempt ?f d)
        (commit out strength reason None (upd_attempt ?f d))"
      by (rule hard_done_mono[OF hard_commit]) (use a w t in auto)
    then have "hard_done (template_verdict T_adopt_prev_generation d) a d (commit out strength reason None (upd_attempt ?f d))"
      unfolding hard_done_def may_commit_def by (fastforce dest: commit_done_pre)
    with True a p t show ?thesis by (simp add: adopt_prev_generation_def)
  next
    case False
    then have "stop_begun a d (adopt_prev_generation d)"
      using a p t beginWriterStop_begun[OF a w]
      by (auto simp: adopt_prev_generation_def intro!: stop_begun_upd)
    with sc show ?thesis unfolding hard_done_def by blast
  qed
qed

lemma hard_reclaim:
  assumes "dr_attempt d = Some a" "d_writerStop (a_data a) = None"
  shows "hard_done (template_verdict (T_reclaim re) d) a d (reclaim reason d)"
proof -
  have "\<not> stop_confirmed a" using assms by (simp add: stop_confirmed_def)
  then have "(\<exists>r. reclaim reason d = commit O_failed Str_genuine r None d)
      \<or> a_scope a \<noteq> Plain \<and> reclaim reason d = beginWriterStop reason d"
    using assms by (auto simp: reclaim_def)
  moreover have "hard_done (template_verdict (T_reclaim re) d) a d (commit O_failed Str_genuine r None d)" for r
    by (rule hard_done_mono[OF hard_commit[OF assms]]) auto
  ultimately show ?thesis
    using beginWriterStop_begun[OF assms] unfolding hard_done_def by metis
qed

lemma reported_report: "reportedThisGeneration ctx \<Longrightarrow> g_attempt ctx = Some a \<Longrightarrow> \<exists>r. d_report (a_data a) = Some r"
  by (auto simp: reportedThisGeneration_def test_attempt_def)

lemma commit_outcome_defined:
  assumes "outcome_fits oe r" "ev_kind (dr_ev d) \<in> set (r_on r)" "guard_holds (dr_ctx d) r"
    "dr_attempt d = Some a" "oe = Oc_from_recorded_report \<Longrightarrow> g_attempt (dr_ctx d) = Some a"
  shows "\<exists>x. commit_outcome oe d = Some x"
proof (cases oe)
  case Oc_from_recorded_report
  then have "reportedThisGeneration (dr_ctx d)"
    using assms by (auto simp: guard_holds_def finishedAfterReport_def exitAfterReport_def)
  with Oc_from_recorded_report assms show ?thesis by (auto dest: reported_report)
qed (use assms in \<open>auto dest!: on_withinD body_of_kind\<close>)

lemma commit_reason_defined:
  assumes "reason_fits re r" "ev_kind ev \<in> set (r_on r)"
  shows "\<exists>x. commit_reason re ev = Some x"
  using assms by (cases re) (auto dest!: on_withinD body_of_kind)

lemma refusal_reason_defined:
  "GUARDS G_reclaiming_refusal ctx \<Longrightarrow> \<exists>m x s. ev_body (g_evidence ctx) = DeliveryRefused m s \<and> refusal_turn_reason s = Some x"
  by (auto simp: RECLAIMING_SEND_REFUSALS_def split: turn_evidence_body.splits)

lemma hard_run_template:
  assumes fit: "template_fits t r" and kind: "ev_kind (dr_ev d) \<in> set (r_on r)" and g: "guard_holds (dr_ctx d) r"
    and a: "dr_attempt d = Some a" and w: "d_writerStop (a_data a) = None"
    and pg: "a_prevGeneration a \<noteq> None \<Longrightarrow> a_scope a \<noteq> Plain"
    and single: "length (r_effects r) = 1 \<Longrightarrow> g_attempt (dr_ctx d) = Some a"
  shows "hard_done (template_verdict t d) a d (run_template t d)"
proof (cases t)
  case (T_commit oe st re fr)
  with fit have "outcome_fits oe r" "reason_fits re r" by auto
  moreover have "oe = Oc_from_recorded_report \<Longrightarrow> g_attempt (dr_ctx d) = Some a"
    using \<open>outcome_fits oe r\<close> single by auto
  ultimately obtain x y where "commit_outcome oe d = Some x" "commit_reason re (dr_ev d) = Some y"
    using commit_outcome_defined[OF _ kind g a] commit_reason_defined[OF _ kind] by meson
  with T_commit show ?thesis
    by (auto simp: template_commit_def intro!: hard_done_mono[OF hard_commit[OF a w]])
next
  case (T_reclaim re)
  have "\<exists>m x s. ev_body (dr_ev d) = DeliveryRefused m s \<and> refusal_turn_reason s = Some x" if "re = RRs_from_refusal"
    using that fit g T_reclaim refusal_reason_defined[of "dr_ctx d"] by (simp add: guard_holds_def)
  with T_reclaim show ?thesis
    by (cases re) (auto simp: template_reclaim_def a hard_reclaim[OF a w])
next
  case T_adopt_prev_generation
  with fit have g': "guard_prev_generation_completion (dr_ctx d)" and "g_attempt (dr_ctx d) = Some a"
    using g single by (auto simp: guard_holds_def)
  then obtain p where "a_prevGeneration a = Some p"
    by (auto simp: guard_prev_generation_completion_def test_attempt_def split: option.splits)
  with pg show ?thesis using T_adopt_prev_generation by (simp add: hard_adopt[OF a w])
qed (use fit in auto)

end
