(* ===== verification/TurnRefine.thy ===== *)
theory TurnRefine
  imports TurnLifecycle
begin

text \<open>
  One step of \<open>reduce\<close> is one step of the abstract life cycle: first for a row of the table, then for
  the stopping attempts that \<open>reduceStopping\<close> handles, then for \<open>reduce\<close> itself.
\<close>

section \<open>Rows of the table\<close>

fun audit_effect :: "turn_effect \<Rightarrow> bool" where
  "audit_effect (E_record _) = True"
| "audit_effect (E_notify_coordinator _) = True"
| "audit_effect (E_cancel_dispatch _) = True"
| "audit_effect _ = False"

definition audit_step :: "draft \<Rightarrow> draft \<Rightarrow> bool" where
  "audit_step d d' \<longleftrightarrow> dr_attempt d' = dr_attempt d \<and> dr_holds d' = dr_holds d \<and> dr_ctx d' = dr_ctx d
     \<and> dr_committed d' = dr_committed d \<and> (\<exists>es. dr_effects d' = dr_effects d @ es \<and> list_all audit_effect es)"

lemma audit_step_trans: "audit_step d d' \<Longrightarrow> audit_step d' d'' \<Longrightarrow> audit_step d d''"
  unfolding audit_step_def by auto

lemma audit_notify: "audit_step d (notify k g t d)"
  by (cases "dr_attempt d") (auto simp: audit_step_def notify_def)

lemma audit_run_template: "audit_template t \<Longrightarrow> audit_step d (applyTemplate t d)"
  unfolding applyTemplate_def
proof (cases t rule: audit_template.cases)
  case (2 e g)
  then show "audit_step d (if dr_committed d then d else run_template t d)"
    by (cases "dr_attempt d")
      (auto simp: template_notify_def notify_plain_def Let_def audit_notify split: option.splits,
       auto simp: audit_step_def)
next
  case (3 tg c)
  then show "audit_step d (if dr_committed d then d else run_template t d)"
    by (cases "dr_attempt d") (auto simp: template_cancel_dispatch_def Let_def audit_step_def)
qed (auto simp: audit_step_def)

lemma audit_fold: "list_all audit_template ts \<Longrightarrow> audit_step d (foldl (\<lambda>d t. applyTemplate t d) d ts)"
proof (induction ts arbitrary: d)
  case (Cons t ts)
  then show ?case using audit_run_template[of t d] by (auto intro: audit_step_trans)
qed (auto simp: audit_step_def)

lemma audit_labels: "list_all audit_effect es \<Longrightarrow> labels es = []"
proof (induction es)
  case (Cons e es)
  then show ?case by (cases e) auto
qed simp

lemma settle_same: "r_to r = To_same \<Longrightarrow> settle_target att r d = d"
  by (cases "dr_attempt d") (simp_all add: settle_target_def)

lemma audit_rule_draft:
  assumes "audit_rule r"
  shows "audit_step (draft_of i gen) (rule_draft i gen r)"
  using assms audit_fold[of "r_effects r" "draft_of i gen"]
  by (auto simp: audit_rule_def rule_draft_def settle_same)

definition notified :: "turn_attempt \<Rightarrow> turn_attempt \<Rightarrow> bool" where
  "notified a a' \<longleftrightarrow> (\<exists>n. a' = a\<lparr>a_notifiedAt := n\<rparr>)"

lemma notified_refl: "notified a a"
  unfolding notified_def by (intro exI[of _ "a_notifiedAt a"]) simp

lemma ack_rule_draft:
  assumes "ack_rule r" "in_attempt i = Some a"
  shows "\<exists>a'. dr_attempt (rule_draft i gen r) = Some a' \<and> notified a a'
    \<and> (\<not> isTerminalTurnState (a_state a) \<longrightarrow> a' = a)"
    and "dr_effects (rule_draft i gen r) = []" "dr_holds (rule_draft i gen r) = dr_holds (draft_of i gen)"
    "dr_committed (rule_draft i gen r) = False"
  using assms
  by (auto simp: ack_rule_def rule_draft_def settle_same applyTemplate_def act_mark_notified_def
      notified_def split: turn_evidence_body.splits intro: exI[of _ "a_notifiedAt a"])

lemma settle_simps [simp]:
  "dr_effects (settle_target att r d) = dr_effects d" "dr_holds (settle_target att r d) = dr_holds d"
  "dr_committed (settle_target att r d) = dr_committed d" "dr_ctx (settle_target att r d) = dr_ctx d"
  by (cases "dr_attempt d"; simp add: settle_target_def split: rule_to.splits)+

lemma soft_rule_draft:
  assumes r: "soft_rule r" and a: "in_attempt i = Some a" and run: "running (a_state a)" and ok: "attempt_ok a"
  shows "\<exists>a'. dr_attempt (rule_draft i gen r) = Some a' \<and> core a' = core a \<and> running (a_state a')"
    and "labels (dr_effects (rule_draft i gen r)) = []"
proof -
  let ?d = "foldl (\<lambda>d t. applyTemplate t d) (draft_of i gen) (r_effects r)"
  have s: "soft_step (draft_of i gen) ?d"
    using r a by (intro soft_fold) (auto simp: soft_rule_def)
  then obtain b where b: "dr_attempt ?d = Some b" "core b = core a" "running (a_state b)"
    using a run by (auto simp: soft_step_def)
  then show "\<exists>a'. dr_attempt (rule_draft i gen r) = Some a' \<and> core a' = core a \<and> running (a_state a')"
    using r by (auto simp: rule_draft_def settle_target_def soft_rule_def split: rule_to.splits)
  show "labels (dr_effects (rule_draft i gen r)) = []"
    using s by (auto simp: rule_draft_def soft_step_def soft_labels)
qed

lemma settle_committed: "dr_committed d \<Longrightarrow> settle_target att r d = d"
  by (simp add: settle_target_def)

lemma settle_moved:
  "dr_attempt d = Some b \<Longrightarrow> a_state b \<noteq> a_state a \<Longrightarrow> settle_target (Some a) r d = d"
  by (simp add: settle_target_def split: rule_to.splits)

lemma settle_hard:
  assumes "stop_begun c d d' \<and> running (a_state a) \<or> commit_done out reason strength c d d'"
  shows "settle_target (Some a) r d' = d'"
  using assms
proof
  assume "stop_begun c d d' \<and> running (a_state a)"
  then show ?thesis by (auto simp: stop_begun_def stopping_attempt_def running_iff intro!: settle_moved)
next
  assume "commit_done out reason strength c d d'"
  then show ?thesis by (auto simp: commit_done_def intro: settle_committed)
qed

lemma hard_pre:
  assumes "dr_ctx d = dr_ctx d0" "dr_committed d = dr_committed d0" "labels (dr_effects d) = labels (dr_effects d0)"
  shows "stop_begun c d d' = stop_begun c d0 d'"
    "commit_done out reason strength c d d' = commit_done out reason strength c d0 d'"
  using assms by (simp_all add: stop_begun_def commit_done_def)

text \<open>The draft on which the last template of a row runs.\<close>

definition last_draft :: "reduce_input \<Rightarrow> int option \<Rightarrow> transition_rule \<Rightarrow> draft" where
  "last_draft i gen r = foldl (\<lambda>d t. applyTemplate t d) (draft_of i gen) (butlast (r_effects r))"

lemma last_draft_single: "length (r_effects r) = 1 \<Longrightarrow> last_draft i gen r = draft_of i gen"
  by (cases "r_effects r") (auto simp: last_draft_def)

lemma hard_rule_draft:
  assumes r: "hard_rule r" and a: "in_attempt i = Some a" and run: "running (a_state a)" and ok: "attempt_ok a"
    and kind: "ev_kind (in_evidence i) \<in> set (r_on r)" and g: "guard_holds (ctx_of i gen) r"
  shows "\<exists>b. core b = core a \<and> running (a_state b)
     \<and> (a_scope a \<noteq> Plain \<and> stop_begun b (draft_of i gen) (rule_draft i gen r)
        \<or> (\<exists>out reason strength. template_verdict (last (r_effects r)) (last_draft i gen r) out reason strength
              \<and> may_commit (ctx_of i gen) reason a
              \<and> commit_done out reason strength b (draft_of i gen) (rule_draft i gen r)))"
proof -
  let ?d0 = "draft_of i gen" and ?d1 = "last_draft i gen r" and ?t = "last (r_effects r)"
  have split: "r_effects r = butlast (r_effects r) @ [?t]" and soft: "list_all soft_template (butlast (r_effects r))"
    and fit: "template_fits ?t r"
    using r by (auto simp: hard_rule_def)
  have s: "soft_step ?d0 ?d1" unfolding last_draft_def using soft a by (intro soft_fold) auto
  then obtain b where b: "dr_attempt ?d1 = Some b" "core b = core a" "running (a_state b)"
    using a run by (auto simp: soft_step_def)
  have w: "d_writerStop (a_data b) = None" and pg: "a_prevGeneration b \<noteq> None \<Longrightarrow> a_scope b \<noteq> Plain"
    using core_eqD[OF b(2)] attempt_ok_running[OF ok run] ok by (auto simp: attempt_ok_def)
  have ctx: "dr_ctx ?d1 = ctx_of i gen" "dr_committed ?d1 = False" "labels (dr_effects ?d1) = []"
    using s by (auto simp: soft_step_def soft_labels)
  have single: "g_attempt (dr_ctx ?d1) = Some b" if "length (r_effects r) = 1"
    using b a ctx last_draft_single[OF that, of i gen] by simp
  have "hard_done (template_verdict ?t ?d1) b ?d1 (run_template ?t ?d1)"
    by (rule hard_run_template[OF fit _ _ b(1) w pg single]) (use kind g ctx in auto)
  then obtain c where c: "core c = core b" "a_state c = a_state b" and
    "a_scope b \<noteq> Plain \<and> stop_begun c ?d1 (run_template ?t ?d1)
      \<or> (\<exists>out reason strength. template_verdict ?t ?d1 out reason strength \<and> may_commit (ctx_of i gen) reason b
            \<and> commit_done out reason strength c ?d1 (run_template ?t ?d1))"
    using ctx by (auto simp: hard_done_def)
  moreover have "rule_draft i gen r = settle_target (in_attempt i) r (run_template ?t ?d1)"
    using ctx by (subst rule_draft_def, subst split) (simp add: applyTemplate_def last_draft_def)
  moreover have pre: "dr_ctx ?d1 = dr_ctx ?d0" "dr_committed ?d1 = dr_committed ?d0"
    "labels (dr_effects ?d1) = labels (dr_effects ?d0)" using ctx by simp_all
  moreover note settle_hard[of c ?d1 "run_template ?t ?d1" a]
  ultimately have "a_scope a \<noteq> Plain \<and> stop_begun c ?d0 (rule_draft i gen r)
      \<or> (\<exists>out reason strength. template_verdict ?t ?d1 out reason strength \<and> may_commit (ctx_of i gen) reason a
            \<and> commit_done out reason strength c ?d0 (rule_draft i gen r))"
    unfolding hard_pre[OF pre] may_commit_def using run a core_eqD(2)[OF b(2)] by metis
  with c b show ?thesis by auto
qed

lemma admits_running: "from_running f \<Longrightarrow> ruleAdmitsState f (Some s) \<Longrightarrow> running s"
  by (cases f) (auto simp: from_running_def running_def list_all_iff)

definition life_result :: "turn_attempt \<Rightarrow> turn_attempt option \<Rightarrow> turn_effect list \<Rightarrow> bool" where
  "life_result a att es \<longleftrightarrow>
     (\<exists>a'. att = Some a' \<and> attempt_ok a' \<and> life_step (lifecycle_of a) (labels es) (lifecycle_of a'))"

lemma life_stop_begun:
  assumes "attempt_ok a" "running (a_state a)" "core b = core a" "running (a_state b)" "a_scope a \<noteq> Plain"
    "stop_begun b d d'" "labels (dr_effects d) = []"
  shows "life_result a (dr_attempt d') (dr_effects d')"
proof -
  have b: "attempt_ok b" "lifecycle_of b = lifecycle_of a" "a_scope b \<noteq> Plain"
    using running_move[OF assms(1,2,3,4)] core_eqD(2)[OF assms(3)] assms(5) by auto
  from assms(6) obtain s where s: "dr_attempt d' = Some (stopping_attempt s b)" "\<not> ws_confirmed s"
    "labels (dr_effects d') = []" using assms(7) by (auto simp: stop_begun_def)
  have "k_phase (lifecycle_of a) = Running" using attempt_ok_running[OF assms(1,2)] by (simp add: lifecycle_of_def)
  then have "life_step (lifecycle_of a) [] ((lifecycle_of a)\<lparr>k_phase := Stopping\<rparr>)"
    using assms(5) by (intro begin_stop) (auto simp: lifecycle_of_def)
  with s b attempt_ok_stopping[OF b(1) assms(4) b(3) s(2)] show ?thesis
    by (auto simp: life_result_def)
qed

lemma life_commit_done:
  assumes "attempt_ok b" "phase_of b = Running \<or> phase_of b = Stopping"
    "commit_done out reason strength b d d'" "labels (dr_effects d) = []"
  shows "life_result b (dr_attempt d') (dr_effects d')"
proof -
  from assms(3) obtain t where t: "dr_attempt d' = Some (committed_attempt t b)" "tt_outcome t = out"
    "labels (dr_effects d') = [Committed (a_generation b) out]" using assms(4) by (auto simp: commit_done_def)
  have "life_step (lifecycle_of b) [Committed (k_generation (lifecycle_of b)) out] ((lifecycle_of b)\<lparr>k_phase := Done out\<rparr>)"
    using assms(2) by (intro finish) (auto simp: lifecycle_of_def)
  moreover have "k_generation (lifecycle_of b) = a_generation b" by (simp add: lifecycle_of_def)
  ultimately show ?thesis using t attempt_ok_committed[OF assms(1), of t] by (simp add: life_result_def)
qed

lemma life_result_eq: "lifecycle_of a = lifecycle_of b \<Longrightarrow> life_result a att es = life_result b att es"
  by (simp add: life_result_def)

lemma notified_facts: "notified a a' \<Longrightarrow> attempt_ok a \<Longrightarrow> attempt_ok a' \<and> lifecycle_of a' = lifecycle_of a"
  by (auto simp: notified_def lifecycle_of_def phase_of_def attempt_ok_core[of "a\<lparr>a_notifiedAt := n\<rparr>" a for n])

lemma rule_life:
  assumes m: "r \<in> set (matchingRules i)"
    and lane: "classifyLane (in_attempt i) (in_evidence i) (in_holds i) = In_lane lane gen"
    and a: "in_attempt i = Some a" and ok: "attempt_ok a"
  shows "life_result a (dr_attempt (rule_draft i gen r)) (dr_effects (rule_draft i gen r))"
proof -
  note facts = matchingRulesD[OF m lane]
  have adm: "ruleAdmitsState (r_from r) (Some (a_state a))" using facts(3) a by simp
  consider "audit_rule r" | "ack_rule r" | "opening_rule r" | "soft_rule r" | "hard_rule r"
    using facts(6) by (auto simp: rule_shape_def)
  then show ?thesis
  proof cases
    case 1
    from audit_rule_draft[OF this, of i gen] show ?thesis
      using a ok by (auto simp: audit_step_def life_result_def audit_labels intro: stay)
  next
    case 2
    from ack_rule_draft[OF this a, of gen] show ?thesis
      using ok by (auto simp: life_result_def dest!: notified_facts intro: stay)
  next
    case 3
    with adm show ?thesis by (simp add: opening_rule_def)
  next
    case 4
    with adm have run: "running (a_state a)" by (auto simp: soft_rule_def intro: admits_running)
    from soft_rule_draft[OF 4 a run ok, of gen] running_move[OF ok run] show ?thesis
      by (fastforce simp: life_result_def intro: stay)
  next
    case 5
    with adm have run: "running (a_state a)" by (auto simp: hard_rule_def intro: admits_running)
    from hard_rule_draft[OF 5 a run ok facts(4,5)] obtain b where b: "core b = core a" "running (a_state b)" and
      "a_scope a \<noteq> Plain \<and> stop_begun b (draft_of i gen) (rule_draft i gen r)
        \<or> (\<exists>out reason strength. commit_done out reason strength b (draft_of i gen) (rule_draft i gen r))" by blast
    moreover have "phase_of b = Running" "attempt_ok b" "lifecycle_of b = lifecycle_of a"
      using running_move[OF ok run b] attempt_ok_running[OF _ b(2)] by auto
    ultimately show ?thesis
      using life_stop_begun[OF ok run b] life_commit_done[of b] life_result_eq[of a b] by fastforce
  qed
qed

section \<open>Stopping attempts\<close>

definition same_life :: "turn_attempt \<Rightarrow> turn_attempt \<Rightarrow> bool" where
  "same_life a b \<longleftrightarrow> (core b)\<lparr>c_stop := None\<rparr> = (core a)\<lparr>c_stop := None\<rparr> \<and> a_state b = a_state a"

text \<open>A draft that still holds the stopping attempt, with its stop confirmed or not.\<close>

definition stop_view :: "turn_attempt \<Rightarrow> bool \<Rightarrow> draft \<Rightarrow> bool" where
  "stop_view a conf d \<longleftrightarrow>
     (\<exists>b s. dr_attempt d = Some b \<and> same_life a b \<and> d_writerStop (a_data b) = Some s \<and> ws_confirmed s = conf)
     \<and> labels (dr_effects d) = [] \<and> \<not> dr_committed d"

lemma same_life_data:
  "same_life a b \<Longrightarrow> same_life a (b\<lparr>a_data := x\<rparr>)"
  by (simp add: same_life_def core_def)

lemma same_lifeD:
  assumes "same_life a b"
  shows "a_attemptId b = a_attemptId a" "a_scope b = a_scope a" "a_generation b = a_generation a"
    "a_reclaimCount b = a_reclaimCount a" "a_terminal b = a_terminal a" "a_state b = a_state a"
    "a_prevGeneration b = a_prevGeneration a" "a_meshId b = a_meshId a" "a_taskId b = a_taskId a"
  using assms by (simp_all add: same_life_def core_def)

lemma stop_view_upd:
  assumes "stop_view a conf d" "\<And>s. ws_confirmed s = conf \<Longrightarrow> ws_confirmed (f s) = conf'"
  shows "stop_view a conf' (upd_stop f d)"
  using assms by (auto simp: stop_view_def same_life_def core_def)

lemma stop_view_keep:
  assumes "stop_view a conf d"
  shows "stop_view a conf (releaseHolds rs keep d)" "stop_view a conf (notify k g t d)"
    "stop_view a conf (requestWriterStop d)"
  using assms by (auto simp: stop_view_def)

lemma stop_view_push: "stop_view a conf d \<Longrightarrow> effect_label e = [] \<Longrightarrow> stop_view a conf (push e d)"
  by (auto simp: stop_view_def)

lemma stop_view_record_report: "stop_view a conf d \<Longrightarrow> stop_view a conf (record_report d)"
  by (auto simp: stop_view_def record_report_def same_life_data split: turn_evidence_body.splits)

lemma stop_view_attempt: "stop_view a conf d \<Longrightarrow> \<exists>b. dr_attempt d = Some b"
  by (auto simp: stop_view_def)

lemma stop_view_adopt: "stop_view a conf d \<Longrightarrow> stop_view a conf (adoptReportHeldDuringStop d)"
  by (frule stop_view_attempt)
    (auto simp: adoptReportHeldDuringStop_def split: option.splits intro!: stop_view_upd[of a conf])

text \<open>The settled results: a commit on an attempt of the same life, or the next generation.\<close>

definition stop_committed :: "turn_attempt \<Rightarrow> draft \<Rightarrow> bool" where
  "stop_committed a d \<longleftrightarrow>
     (\<exists>b t s. dr_attempt d = Some (committed_attempt t b) \<and> same_life a b \<and> d_writerStop (a_data b) = Some s
        \<and> labels (dr_effects d) = [Committed (a_generation a) (tt_outcome t)])"

definition stop_settled :: "turn_attempt \<Rightarrow> draft \<Rightarrow> bool" where
  "stop_settled a d \<longleftrightarrow> stop_committed a d
     \<or> (\<exists>b. dr_attempt d = Some (next_generation b) \<and> same_life a b
          \<and> a_scope a = Mesh_queue \<and> a_reclaimCount a < RECLAIM_BUDGET
          \<and> labels (dr_effects d) = [Requeued (a_generation a) (a_generation a + 1)])"

lemma commit_confirmed:
  assumes "stop_view a True d"
  shows "stop_committed a (commit out strength reason txt d)"
proof -
  from assms obtain b s where b: "dr_attempt d = Some b" "same_life a b" "d_writerStop (a_data b) = Some s"
    "ws_confirmed s" "labels (dr_effects d) = []" by (auto simp: stop_view_def)
  then have "\<not> stop_first d reason b" by (simp add: stop_first_def stop_confirmed_def)
  then have "commit_done out reason strength b d (commit out strength reason txt d)"
    using b commit_final_done[OF b(1)] by (simp add: commit_def)
  with b show ?thesis by (auto simp: commit_done_def stop_committed_def same_lifeD(3))
qed

lemma requeue_simps:
  assumes "dr_attempt d = Some a"
  shows "dr_attempt (requeue reason a d) = Some (next_generation a)"
    "labels (dr_effects (requeue reason a d)) = labels (dr_effects d) @ [Requeued (a_generation a) (a_generation a + 1)]"
  using assms by (simp_all add: requeue_def Let_def split: option.splits)

lemma reclaim_confirmed:
  assumes "stop_view a True d" "a_scope a \<noteq> Plain"
  shows "stop_settled a (reclaim reason d)"
proof -
  from assms(1) obtain b s where b: "dr_attempt d = Some b" "same_life a b" "d_writerStop (a_data b) = Some s"
    "ws_confirmed s" "labels (dr_effects d) = []" by (auto simp: stop_view_def)
  have sc: "stop_confirmed b" using b by (simp add: stop_confirmed_def)
  show ?thesis
  proof (cases "\<not> refused_before_start (dr_ev d) b \<and> a_scope b = Mesh_queue \<and> a_reclaimCount b < RECLAIM_BUDGET")
    case True
    then have "reclaim reason d = requeue reason b d" using b sc by (simp add: reclaim_def)
    with True b requeue_simps[OF b(1)] same_lifeD[OF b(2)] show ?thesis
      by (auto simp: stop_settled_def)
  next
    case False
    moreover have "a_scope b = Mesh_direct" if "a_scope b \<noteq> Mesh_queue"
      using that assms(2) same_lifeD(2)[OF b(2)] by (cases "a_scope b") auto
    moreover have "a_scope b \<noteq> Plain" using assms(2) same_lifeD(2)[OF b(2)] by simp
    ultimately have "\<exists>r. reclaim reason d = commit O_failed Str_genuine r None d"
      using b sc by (auto simp: reclaim_def)
    then show ?thesis using commit_confirmed[OF assms(1)] by (auto simp: stop_settled_def)
  qed
qed

lemma stopping_confirmed_settled:
  assumes "stop_view a conf d" "a_scope a \<noteq> Plain"
  shows "stop_settled a (stopping_confirmed d)"
proof -
  let ?d = "adoptReportHeldDuringStop (upd_stop (\<lambda>s. s\<lparr>ws_confirmed := True\<rparr>) d)"
  have v: "stop_view a True ?d"
    by (rule stop_view_adopt) (rule stop_view_upd[OF assms(1)], simp)
  then obtain b s where b: "dr_attempt ?d = Some b" "d_writerStop (a_data b) = Some s"
    by (auto simp: stop_view_def)
  have adopt: "stop_view a True (upd_attempt (\<lambda>a. a\<lparr>a_sessionId := x, a_consumedAt := f a\<rparr>) ?d)" for x f
    using v by (auto simp: stop_view_def same_life_def core_def)
  show ?thesis
  proof (cases "ws_terminal s")
    case None
    with b show ?thesis
      using reclaim_confirmed[OF v assms(2)] commit_confirmed[OF v]
      by (simp add: stopping_confirmed_def stop_settled_def)
  next
    case (Some t)
    with b show ?thesis
      using commit_confirmed[OF v] commit_confirmed[OF adopt] by (simp add: stopping_confirmed_def stop_settled_def)
  qed
qed

lemma settleUnreachable_committed:
  assumes "stop_view a conf d"
  shows "stop_committed a (settleUnreachableWriter settler d)"
proof -
  let ?d = "upd_stop (\<lambda>s. s\<lparr>ws_confirmed := True, ws_settledBy := Some settler\<rparr>) d"
  have v: "stop_view a True ?d" by (rule stop_view_upd[OF assms(1)]) simp
  then obtain b s where b: "dr_attempt ?d = Some b" "d_writerStop (a_data b) = Some s"
    by (auto simp: stop_view_def)
  have v': "stop_view a True (upd_stop (\<lambda>s. s\<lparr>ws_terminal := x\<rparr>) ?d)" for x
    by (rule stop_view_upd[OF v]) simp
  show ?thesis
    unfolding settleUnreachableWriter_def Let_def on_attempt_simps(2)[OF b(1)]
    using b(2) commit_confirmed[OF v] commit_confirmed[OF v'] by (simp split: option.splits)
qed

lemma stopping_retry_view:
  assumes "stop_view a False d"
  shows "stop_view a False (stopping_retry d)"
proof -
  let ?d = "releaseHolds (Some_holds [H_liveness]) [] d"
  have v: "stop_view a False ?d" by (rule stop_view_keep[OF assms])
  then obtain b s where b: "dr_attempt ?d = Some b" "d_writerStop (a_data b) = Some s"
    by (auto simp: stop_view_def)
  then show ?thesis
    unfolding stopping_retry_def on_attempt_simps(2)[OF b(1)]
    using v by (auto intro!: stop_view_keep stop_view_push stop_view_upd[OF v])
qed

lemma attempt_ok_stoppingD:
  assumes "attempt_ok a" "a_state a = S_stopping"
  shows "\<exists>s. d_writerStop (a_data a) = Some s \<and> \<not> ws_confirmed s" "a_scope a \<noteq> Plain" "a_terminal a = None"
    "phase_of a = Stopping"
  using assms by (auto simp: attempt_ok_def phase_of_def split: option.splits)

lemma stopping_head_view:
  assumes "attempt_ok a" "a_state a = S_stopping" "in_attempt i = Some a"
  shows "stop_view a False (stopping_cancel (stopping_ceiling a i (draft_of i gen)))"
proof -
  obtain s where "d_writerStop (a_data a) = Some s" "\<not> ws_confirmed s"
    using attempt_ok_stoppingD[OF assms(1,2)] by auto
  then have "stop_view a False (draft_of i gen)" using assms by (auto simp: stop_view_def same_life_def)
  then have "stop_view a False (stopping_ceiling a i (draft_of i gen))"
    by (auto simp: stopping_ceiling_def intro!: stop_view_keep stop_view_upd)
  then show ?thesis
    by (auto simp: stopping_cancel_def split: turn_evidence_body.splits intro!: stop_view_upd)
qed

lemma stopping_draft_cases:
  assumes "attempt_ok a" "a_state a = S_stopping" "in_attempt i = Some a"
  shows "if in_stopConfirmed i then stop_settled a (stopping_draft a i)
    else if in_writerUnreachable i \<noteq> None \<and> ev_kind (in_evidence i) \<noteq> K_cancel
    then stop_committed a (stopping_draft a i) else stop_view a False (stopping_draft a i)"
proof -
  note v = stopping_head_view[OF assms, of "Some (a_generation a)"]
  note sc = attempt_ok_stoppingD(2)[OF assms(1,2)]
  show ?thesis
    using stopping_confirmed_settled[OF v sc] settleUnreachable_committed[OF stop_view_adopt[OF v]]
      stopping_retry_view[OF v] stop_view_record_report[OF v] stop_view_push[OF v]
    by (auto simp: stopping_draft_def Let_def)
qed

lemma same_life_ok:
  assumes "same_life a b" "attempt_ok a" "a_state a = S_stopping" "d_writerStop (a_data b) = Some s"
    "\<not> ws_confirmed s"
  shows "attempt_ok b" "lifecycle_of b = lifecycle_of a"
  using assms same_lifeD[OF assms(1)] attempt_ok_stoppingD[OF assms(2,3)]
  by (auto simp: attempt_ok_def lifecycle_of_def phase_of_def)

lemma attempt_ok_next_generation:
  assumes "same_life a b" "attempt_ok a" "a_state a = S_stopping" "a_scope a = Mesh_queue"
    "a_reclaimCount a < RECLAIM_BUDGET"
  shows "attempt_ok (next_generation b)"
    "lifecycle_of (next_generation b) = (lifecycle_of a)\<lparr>k_phase := Running,
       k_generation := a_generation a + 1, k_reclaims := a_reclaimCount a + 1\<rparr>"
  using assms same_lifeD[OF assms(1)] attempt_ok_stoppingD[OF assms(2,3)]
  by (auto simp: attempt_ok_def lifecycle_of_def phase_of_def next_generation_def)

lemma attempt_ok_settled_commit:
  assumes "same_life a b" "attempt_ok a" "a_state a = S_stopping" "d_writerStop (a_data b) = Some s"
  shows "attempt_ok (committed_attempt t b)"
    "lifecycle_of (committed_attempt t b) = (lifecycle_of a)\<lparr>k_phase := Done (tt_outcome t)\<rparr>"
  using assms same_lifeD[OF assms(1)] attempt_ok_stoppingD[OF assms(2,3)]
  by (auto simp: attempt_ok_def lifecycle_of_def phase_of_def committed_attempt_def)

lemma stopping_life:
  assumes "attempt_ok a" "a_state a = S_stopping" "in_attempt i = Some a"
  shows "life_result a (dr_attempt (stopping_draft a i)) (dr_effects (stopping_draft a i))"
proof -
  have k: "k_phase (lifecycle_of a) = Stopping" "k_generation (lifecycle_of a) = a_generation a"
    "k_scope (lifecycle_of a) = a_scope a" "k_reclaims (lifecycle_of a) = a_reclaimCount a"
    using attempt_ok_stoppingD[OF assms(1,2)] by (simp_all add: lifecycle_of_def)
  consider "stop_settled a (stopping_draft a i)" | "stop_view a False (stopping_draft a i)"
    using stopping_draft_cases[OF assms] by (auto simp: stop_settled_def split: if_splits)
  then show ?thesis
  proof cases
    case 1
    then show ?thesis
      unfolding stop_settled_def stop_committed_def life_result_def
      using attempt_ok_settled_commit[OF _ assms(1,2)] attempt_ok_next_generation[OF _ assms(1,2)]
        finish[of "lifecycle_of a"] requeue[of "lifecycle_of a"] k by fastforce
  next
    case 2
    then show ?thesis
      unfolding stop_view_def life_result_def using same_life_ok[OF _ assms(1,2)] stay by fastforce
  qed
qed

section \<open>The step function\<close>

lemma reduce_life:
  assumes "in_attempt i = Some a" "attempt_ok a"
  shows "life_result a (out_attempt (reduce i)) (out_effects (reduce i))"
proof (cases "classifyLane (in_attempt i) (in_evidence i) (in_holds i)")
  case (Lane_rejected x)
  with assms show ?thesis by (auto simp: reduce_def rejected_def life_result_def intro: stay)
next
  case (In_lane lane gen)
  show ?thesis
  proof (cases "a_state a = S_stopping \<and> lane = Lane_current")
    case True
    with In_lane assms show ?thesis
      using stopping_life[OF assms(2) _ assms(1)] by (simp add: reduce_def reduceStopping_def Let_def)
  next
    case False
    show ?thesis
    proof (cases "matchingRules i")
      case Nil
      with False In_lane assms show ?thesis by (auto simp: reduce_def rejected_def life_result_def intro: stay)
    next
      case (Cons r rs)
      with False In_lane assms show ?thesis
        using rule_life[of r i lane gen a] by (auto simp: reduce_def apply_rule_def Let_def)
    qed
  qed
qed

end
