(* ===== verification/TurnRuns.thy ===== *)
theory TurnRuns
  imports TurnRefine
begin

text \<open>
  Runs of the ledger for one attempt: evidence is reduced one by one, each step starting from the
  attempt and the holds the previous one left. A locale states what an invariant of runs is and
  proves the induction once; the interpretations are the invariants of the turn ledger.
\<close>

section \<open>Runs\<close>

type_synonym ledger_state = "turn_attempt option \<times> turn_hold list"

record ledger_event =
  le_stopConfirmed :: bool
  le_writerUnreachable :: "settled_by option"
  le_evidence :: turn_evidence
  le_policy :: turn_policy
  le_now :: ms

definition input_of :: "ledger_state \<Rightarrow> ledger_event \<Rightarrow> reduce_input" where
  "input_of s e = \<lparr>in_stopConfirmed = le_stopConfirmed e, in_writerUnreachable = le_writerUnreachable e,
     in_attempt = fst s, in_holds = snd s, in_evidence = le_evidence e, in_policy = le_policy e,
     in_nowMs = le_now e\<rparr>"

definition ledger_step :: "ledger_state \<Rightarrow> ledger_event \<Rightarrow> reduce_result" where
  "ledger_step s e = reduce (input_of s e)"

definition result_state :: "reduce_result \<Rightarrow> ledger_state" where
  "result_state r = (out_attempt r, out_holds r)"

fun ledger_run :: "ledger_state \<Rightarrow> turn_effect list \<Rightarrow> ledger_event list \<Rightarrow> ledger_state \<times> turn_effect list" where
  "ledger_run s es [] = (s, es)"
| "ledger_run s es (e # evs) =
     (let r = ledger_step s e in ledger_run (result_state r) (es @ out_effects r) evs)"

lemma input_of_simps [simp]:
  "in_attempt (input_of s e) = fst s" "in_holds (input_of s e) = snd s"
  "in_evidence (input_of s e) = le_evidence e" "in_policy (input_of s e) = le_policy e"
  "in_nowMs (input_of s e) = le_now e" "in_stopConfirmed (input_of s e) = le_stopConfirmed e"
  "in_writerUnreachable (input_of s e) = le_writerUnreachable e"
  by (simp_all add: input_of_def)

locale ledger_invariant =
  fixes I :: "ledger_state \<Rightarrow> turn_effect list \<Rightarrow> bool"
  assumes initial: "I (None, []) []"
    and step: "I s es \<Longrightarrow> I (result_state (ledger_step s e)) (es @ out_effects (ledger_step s e))"
begin

lemma run_from: "I s es \<Longrightarrow> ledger_run s es evs = (s', es') \<Longrightarrow> I s' es'"
  by (induction s es evs rule: ledger_run.induct) (auto simp: Let_def intro: step)

lemma run_holds: "ledger_run (None, []) [] evs = (s, es) \<Longrightarrow> I s es"
  using initial by (rule run_from)

end

section \<open>Opening an attempt\<close>

definition opened :: "turn_attempt \<Rightarrow> bool" where
  "opened a \<longleftrightarrow> a_reclaimCount a = 0 \<and> a_terminal a = None \<and> d_writerStop (a_data a) = None
     \<and> a_prevGeneration a = None \<and> running (a_state a)"

lemma opened_facts: "opened a \<Longrightarrow> attempt_ok a \<and> phase_of a = Running \<and> a_reclaimCount a = 0"
  by (auto simp: opened_def attempt_ok_def phase_of_def running_iff RECLAIM_BUDGET_def)

lemma open_action:
  assumes "opens_attempt act" "dr_attempt d = None"
  shows "dr_attempt (ACTIONS act d) = None \<and> ACTIONS act d = d
    \<or> (\<exists>a. dr_attempt (ACTIONS act d) = Some a \<and> opened a \<and> a_state a = S_accepted)"
    and "dr_effects (ACTIONS act d) = dr_effects d" "dr_ctx (ACTIONS act d) = dr_ctx d"
    "dr_committed (ACTIONS act d) = dr_committed d" "dr_holds (ACTIONS act d) = dr_holds d"
  using assms
  by (cases act; auto simp: act_open_dispatch_def newAttempt_def opened_def empty_data_def running_def
      NONTERMINAL_def Let_def split: turn_evidence_body.splits)+

lemma opened_core: "opened a \<Longrightarrow> core b = core a \<Longrightarrow> running (a_state b) \<Longrightarrow> opened b"
  by (auto simp: opened_def dest: core_eqD)

definition open_result :: "turn_attempt option \<Rightarrow> turn_effect list \<Rightarrow> bool" where
  "open_result att es \<longleftrightarrow> (case att of None \<Rightarrow> labels es = [] | Some a \<Rightarrow> opened a \<and> labels es = [])"

text \<open>Templates that need an attempt do nothing harmful without one.\<close>

lemma table_open_on: "list_all (\<lambda>r. opening_rule r \<longrightarrow>
    (case r_effects r of T_act Act_open_dispatch # _ \<Rightarrow> on_within r [K_dispatch_accepted] | _ \<Rightarrow> True)) TRANSITIONS"
  by code_simp

lemma open_action_opens:
  assumes r: "opening_rule r" "r \<in> set TRANSITIONS" "r_effects r = T_act act # ts" and k: "ev_kind (in_evidence i) \<in> set (r_on r)"
    and n: "in_attempt i = None"
  shows "\<exists>b. dr_attempt (ACTIONS act (draft_of i gen)) = Some b \<and> opened b"
proof -
  let ?d = "ACTIONS act (draft_of i gen)"
  have o: "opens_attempt act" using r by (auto simp: opening_rule_def)
  have "\<exists>b. dr_attempt ?d = Some b"
  proof (cases "act = Act_open_dispatch")
    case True
    then have "on_within r [K_dispatch_accepted]" using r table_open_on by (auto simp: list_all_iff)
    with k have "ev_kind (in_evidence i) = K_dispatch_accepted" by (auto dest: on_withinD)
    then obtain x where "ev_body (in_evidence i) = DispatchAccepted x" by (cases "ev_body (in_evidence i)") auto
    with True show ?thesis by (simp add: act_open_dispatch_def Let_def)
  next
    case False
    with o show ?thesis by (cases act) auto
  qed
  then show ?thesis using open_action(1)[OF o, of "draft_of i gen"] n by auto
qed

lemma open_rule_action:
  assumes r: "opening_rule r" "r \<in> set TRANSITIONS" and k: "ev_kind (in_evidence i) \<in> set (r_on r)"
    and n: "in_attempt i = None"
  obtains act ts b where "opens_attempt act" "list_all soft_template ts"
    "dr_attempt (ACTIONS act (draft_of i gen)) = Some b" "opened b"
    "rule_draft i gen r = settle_target None r (foldl (\<lambda>d t. applyTemplate t d) (ACTIONS act (draft_of i gen)) ts)"
proof -
  from r obtain act ts where e: "r_effects r = T_act act # ts" "opens_attempt act" "list_all soft_template ts"
    by (auto simp: opening_rule_def split: list.splits effect_template.splits)
  moreover have "rule_draft i gen r = settle_target None r (foldl (\<lambda>d t. applyTemplate t d) (ACTIONS act (draft_of i gen)) ts)"
    using n e by (simp add: rule_draft_def applyTemplate_def)
  ultimately show ?thesis using that open_action_opens[OF r e(1) k n, of gen] by blast
qed

lemma open_rule_draft:
  assumes r: "opening_rule r" "r \<in> set TRANSITIONS" and k: "ev_kind (in_evidence i) \<in> set (r_on r)"
    and n: "in_attempt i = None"
  shows "\<exists>a. dr_attempt (rule_draft i gen r) = Some a \<and> opened a"
    and "labels (dr_effects (rule_draft i gen r)) = []"
proof -
  obtain act ts b where e: "opens_attempt act" "list_all soft_template ts"
    and b: "dr_attempt (ACTIONS act (draft_of i gen)) = Some b" "opened b"
    and f: "rule_draft i gen r = settle_target None r (foldl (\<lambda>d t. applyTemplate t d) (ACTIONS act (draft_of i gen)) ts)"
    by (rule open_rule_action[OF assms, of gen])
  let ?d = "ACTIONS act (draft_of i gen)"
  have s: "soft_step ?d (foldl (\<lambda>d t. applyTemplate t d) ?d ts)" by (rule soft_fold[OF b(1) e(2)])
  from s b obtain c where c: "dr_attempt (foldl (\<lambda>d t. applyTemplate t d) ?d ts) = Some c"
    "core c = core b" "running (a_state c)" by (auto simp: soft_step_def opened_def)
  show "\<exists>a. dr_attempt (rule_draft i gen r) = Some a \<and> opened a"
    using c r(1) opened_core[OF b(2)] unfolding f
    by (auto simp: settle_target_def opening_rule_def split: rule_to.splits)
  show "labels (dr_effects (rule_draft i gen r)) = []"
    using s open_action(2)[OF e(1), of "draft_of i gen"] n unfolding f by (auto simp: soft_step_def soft_labels)
qed

lemma lane_none: "classifyLane None ev holds = In_lane Lane_none None"
  by (simp add: classifyLane_def)

lemma reduce_open:
  assumes n: "in_attempt i = None"
  shows "open_result (out_attempt (reduce i)) (out_effects (reduce i))"
proof (cases "matchingRules i")
  case Nil
  with n show ?thesis by (simp add: reduce_def lane_none rejected_def open_result_def)
next
  case (Cons r rs)
  have lane: "classifyLane (in_attempt i) (in_evidence i) (in_holds i) = In_lane Lane_none None"
    using n by (simp add: lane_none)
  have "r \<in> set (matchingRules i)" using Cons by simp
  note facts = matchingRulesD[OF this lane]
  have red: "reduce i = apply_rule i None r" using n Cons by (simp add: reduce_def lane_none)
  have adm: "r_from r = From_none" using facts(3) n by (cases "r_from r") auto
  consider "audit_rule r" | "ack_rule r" | "opening_rule r"
    using facts(6) adm by (auto simp: rule_shape_def soft_rule_def hard_rule_def from_running_def)
  then show ?thesis
  proof cases
    case 1
    from audit_rule_draft[OF this, of i None] show ?thesis
      using n by (auto simp: red apply_rule_def Let_def open_result_def audit_step_def audit_labels)
  next
    case 2
    then show ?thesis using n
      by (auto simp: red apply_rule_def Let_def open_result_def ack_rule_def rule_draft_def settle_same
          applyTemplate_def act_mark_notified_def split: turn_evidence_body.splits)
  next
    case 3
    from open_rule_draft[OF this facts(1,4) n, of None] show ?thesis
      by (auto simp: red apply_rule_def Let_def open_result_def)
  qed
qed

section \<open>The life of an attempt along a run\<close>

fun commit_outcomes :: "life_label list \<Rightarrow> turn_outcome list" where
  "commit_outcomes [] = []"
| "commit_outcomes (Committed _ out # ls) = out # commit_outcomes ls"
| "commit_outcomes (Requeued _ _ # ls) = commit_outcomes ls"

fun requeues :: "life_label list \<Rightarrow> nat" where
  "requeues [] = 0"
| "requeues (Committed _ _ # ls) = requeues ls"
| "requeues (Requeued _ _ # ls) = Suc (requeues ls)"

lemma commit_outcomes_append [simp]: "commit_outcomes (xs @ ys) = commit_outcomes xs @ commit_outcomes ys"
  by (induction xs rule: commit_outcomes.induct) auto

lemma requeues_append [simp]: "requeues (xs @ ys) = requeues xs + requeues ys"
  by (induction xs rule: requeues.induct) auto

definition done_outcomes :: "phase \<Rightarrow> turn_outcome list" where
  "done_outcomes p = (case p of Done out \<Rightarrow> [out] | _ \<Rightarrow> [])"

definition life_history :: "ledger_state \<Rightarrow> turn_effect list \<Rightarrow> bool" where
  "life_history s es \<longleftrightarrow>
     (case fst s of
        None \<Rightarrow> labels es = []
      | Some a \<Rightarrow> attempt_ok a \<and> commit_outcomes (labels es) = done_outcomes (phase_of a)
          \<and> int (requeues (labels es)) = a_reclaimCount a)"

lemma life_step_history:
  assumes "life_step k ls k'" "commit_outcomes hist = done_outcomes (k_phase k)" "int (requeues hist) = k_reclaims k"
  shows "commit_outcomes (hist @ ls) = done_outcomes (k_phase k')" "int (requeues (hist @ ls)) = k_reclaims k'"
  using assms by (induction rule: life_step.induct) (auto simp: done_outcomes_def)

lemma life_history_step:
  assumes "life_history s es"
  shows "life_history (result_state (ledger_step s e)) (es @ out_effects (ledger_step s e))"
proof (cases "fst s")
  case None
  then have "open_result (out_attempt (ledger_step s e)) (out_effects (ledger_step s e))"
    unfolding ledger_step_def by (intro reduce_open) simp
  with None assms show ?thesis
    by (auto simp: life_history_def result_state_def open_result_def done_outcomes_def
        dest: opened_facts split: option.splits)
next
  case (Some a)
  with assms have ok: "attempt_ok a" and h: "commit_outcomes (labels es) = done_outcomes (k_phase (lifecycle_of a))"
    "int (requeues (labels es)) = k_reclaims (lifecycle_of a)"
    by (auto simp: life_history_def lifecycle_of_def)
  have "life_result a (out_attempt (ledger_step s e)) (out_effects (ledger_step s e))"
    unfolding ledger_step_def using Some ok by (intro reduce_life) simp_all
  then obtain a' where a': "out_attempt (ledger_step s e) = Some a'" "attempt_ok a'"
    "life_step (lifecycle_of a) (labels (out_effects (ledger_step s e))) (lifecycle_of a')"
    by (auto simp: life_result_def)
  from life_step_history[OF a'(3) h] a' show ?thesis
    by (simp add: life_history_def result_state_def lifecycle_of_def)
qed

interpretation life: ledger_invariant life_history
  by unfold_locales (simp add: life_history_def, rule life_history_step)

section \<open>Claims\<close>

lemma attempt_ok_outcomes:
  "attempt_ok a \<Longrightarrow> done_outcomes (phase_of a) = (case a_terminal a of Some t \<Rightarrow> [tt_outcome t] | None \<Rightarrow> [])"
  by (simp add: done_outcomes_def phase_of_def split: option.splits)

text \<open>
  C2. Exactly one terminal commit. Over any sequence of evidence, clock readings, policies and stop
  confirmations, starting with no attempt: the commit effects emitted are none while the attempt is
  not terminal, and exactly one, with the recorded terminal's outcome, once it is. The requeues
  emitted are counted by \<open>reclaimCount\<close>, which never exceeds the budget and is zero outside the
  \<open>mesh_queue\<close> scope (a direct or plain attempt is never redelivered).
\<close>

theorem run_commits_once:
  "case ledger_run (None, []) [] evs of
     (s, es) \<Rightarrow>
       (case fst s of
          None \<Rightarrow> labels es = []
        | Some a \<Rightarrow>
            commit_outcomes (labels es) = (case a_terminal a of Some t \<Rightarrow> [tt_outcome t] | None \<Rightarrow> [])
            \<and> (case a_terminal a of
                 Some t \<Rightarrow> a_state a = outcome_state (tt_outcome t)
               | None \<Rightarrow> \<not> isTerminalTurnState (a_state a))
            \<and> int (requeues (labels es)) = a_reclaimCount a \<and> a_reclaimCount a \<le> RECLAIM_BUDGET
            \<and> (a_scope a = Mesh_queue \<or> a_reclaimCount a = 0))"
proof (cases "ledger_run (None, []) [] evs")
  case (Pair s es)
  from life.run_holds[OF this] show ?thesis
    using Pair attempt_ok_outcomes
    by (auto simp: life_history_def attempt_ok_def split: option.splits)
qed

text \<open>
  C1. Refinement of the life cycle. Every step of \<open>reduce\<close> on a well-formed attempt yields a
  well-formed attempt, and is one step of the abstract life-cycle machine whose labels are exactly
  the commit and requeue effects emitted: the attempt keeps its phase, a mesh attempt starts to stop,
  a running or stopping attempt ends once, or a stopping \<open>mesh_queue\<close> attempt within its budget is
  requeued under the next generation. Nothing leaves a terminal phase.
\<close>

theorem reduce_refines_lifecycle:
  assumes "in_attempt i = Some a" and "attempt_ok a"
  shows "\<exists>a'. out_attempt (reduce i) = Some a' \<and> attempt_ok a'
    \<and> life_step (lifecycle_of a) (labels (out_effects (reduce i))) (lifecycle_of a')"
  using reduce_life[OF assms] by (simp add: life_result_def)

end
