(* ===== verification/TurnDemo.thy ===== *)
theory TurnDemo
  imports TurnRuns
begin

text \<open>
  Concrete evidence and attempts at which the properties of the turn ledger are evaluated: a
  \<open>mesh_queue\<close> dispatch and the states a run brings it to.
\<close>

definition demo_ev :: "ident \<Rightarrow> ms \<Rightarrow> evidence_source_id \<Rightarrow> turn_evidence_body \<Rightarrow> turn_evidence" where
  "demo_ev i t src b = \<lparr>ev_eventId = i, ev_at = t, ev_source = src, ev_sessionId = ''s1'',
     ev_attemptRef = None, ev_taskId = Some ''t1'', ev_observedBy = ''d1'', ev_body = b\<rparr>"

definition demo_dispatch :: "turn_scope \<Rightarrow> turn_evidence_body" where
  "demo_dispatch sc = DispatchAccepted \<lparr>da_scope = sc, da_messageId = ''m1'', da_meshId = Some ''mesh'',
     da_nodeId = None, da_providerType = None, da_attemptNo = None, da_dispatchNonce = None,
     da_consumeProfile = None, da_maxTaskRetries = None, da_coordinator = None\<rparr>"

definition demo_event :: "ms \<Rightarrow> turn_evidence_body \<Rightarrow> ledger_event" where
  "demo_event t b = \<lparr>le_stopConfirmed = False, le_writerUnreachable = None,
     le_evidence = demo_ev ''e'' t Src_dispatch b, le_policy = DEFAULT_TURN_POLICY, le_now = t\<rparr>"

text \<open>The attempt that \<open>demo_dispatch\<close> opens, placed directly in a later state.\<close>

definition demo_attempt :: "turn_scope \<Rightarrow> turn_state \<Rightarrow> turn_attempt" where
  "demo_attempt sc st = (newAttempt (demo_ev ''e0'' 0 Src_dispatch (demo_dispatch sc)) ''a1'' sc)
     \<lparr>a_meshId := Some ''mesh'', a_messageId := Some ''m1'', a_state := st\<rparr>"

definition demo_stop :: "turn_reason \<Rightarrow> stop_terminal option \<Rightarrow> writer_stop" where
  "demo_stop reason t = \<lparr>ws_requestId = ''e1:writer-stop'', ws_reason = reason, ws_requestedAt = 20,
     ws_tries = 1, ws_escalated = False, ws_confirmed = False, ws_settledBy = None, ws_terminal = t\<rparr>"

definition demo_stopping :: "turn_scope \<Rightarrow> turn_reason \<Rightarrow> stop_terminal option \<Rightarrow> turn_attempt" where
  "demo_stopping sc reason t = stopping_attempt (demo_stop reason t) (demo_attempt sc S_generating)"

definition demo_terminal :: "turn_outcome \<Rightarrow> turn_attempt" where
  "demo_terminal out = committed_attempt \<lparr>tt_outcome = out, tt_reason = Rs_turn_end, tt_source = Src_fsm_edge,
     tt_strength = Str_genuine, tt_at = 30, tt_summary = None\<rparr> (demo_attempt Mesh_queue S_generating)"

definition demo_hold :: "hold_reason \<Rightarrow> ms \<Rightarrow> turn_hold" where
  "demo_hold reason t = \<lparr>h_holdId = holdId ''a1'' reason, h_attemptId = ''a1'',
     h_generation = (if reason = H_hard_ceiling then None else Some 0), h_reason = reason, h_until = Some t,
     h_onExpire = X_escalate, h_data = [], h_createdAt = 0\<rparr>"

definition demo_input :: "turn_attempt \<Rightarrow> turn_hold list \<Rightarrow> ms \<Rightarrow> turn_evidence_body \<Rightarrow> reduce_input" where
  "demo_input a hs t b = \<lparr>in_stopConfirmed = False, in_writerUnreachable = None, in_attempt = Some a,
     in_holds = hs, in_evidence = demo_ev ''e1'' t Src_fsm_edge b, in_policy = DEFAULT_TURN_POLICY, in_nowMs = t\<rparr>"

lemma demo_attempt_ok: "attempt_ok (demo_attempt Mesh_queue S_generating)"
  by code_simp

lemma demo_input_attempt [simp]: "in_attempt (demo_input a hs t b) = Some a"
  by (simp add: demo_input_def)

theorem reduce_refines_lifecycle_witness:
  "attempt_ok (demo_attempt Mesh_queue S_generating)
   \<and> (\<exists>a'. out_attempt (reduce (demo_input (demo_attempt Mesh_queue S_generating) [] 40 (Cancel CR_operator_cancel))) = Some a'
        \<and> attempt_ok a'
        \<and> life_step (lifecycle_of (demo_attempt Mesh_queue S_generating))
            (labels (out_effects (reduce (demo_input (demo_attempt Mesh_queue S_generating) [] 40 (Cancel CR_operator_cancel)))))
            (lifecycle_of a'))"
  using reduce_refines_lifecycle[OF demo_input_attempt demo_attempt_ok] demo_attempt_ok by simp

end
