(* ===== verification/TurnSafety.thy ===== *)
theory TurnSafety
  imports TurnDemo
begin

text \<open>
  Safety of the step function beyond the life cycle: terminal attempts and evidence of other generations.
\<close>

section \<open>Steps that only audit\<close>

definition holds_distinct :: "turn_hold list \<Rightarrow> bool" where
  "holds_distinct hs \<longleftrightarrow> distinct (map h_holdId hs)"

lemma foldl_update_distinct:
  assumes "distinct (map h_holdId hs)" "\<And>h. h \<in> set hs \<Longrightarrow> h_holdId h \<notin> fst ` set m"
  shows "foldl (\<lambda>m h. AList.update (h_holdId h) h m) m hs = m @ map (\<lambda>h. (h_holdId h, h)) hs"
  using assms
proof (induction hs arbitrary: m)
  case (Cons h hs)
  have "AList.update (h_holdId h) h m = m @ [(h_holdId h, h)]"
    using Cons.prems(2)[of h] by (induction m) auto
  moreover have "h_holdId g \<notin> fst ` set (m @ [(h_holdId h, h)])" if "g \<in> set hs" for g
    using Cons.prems that by (fastforce simp: image_iff)
  ultimately show ?case using Cons.IH[of "m @ [(h_holdId h, h)]"] Cons.prems(1) by simp
qed simp

lemma draft_holds: "holds_distinct (in_holds i) \<Longrightarrow> dr_holds (draft_of i gen) = map (\<lambda>h. (h_holdId h, h)) (in_holds i)"
  using foldl_update_distinct[of "in_holds i" "[]"] by (simp add: draft_of_def holds_distinct_def)

lemma draft_holds_snd: "holds_distinct (in_holds i) \<Longrightarrow> map snd (dr_holds (draft_of i gen)) = in_holds i"
  by (simp add: draft_holds comp_def)

definition audit_result :: "reduce_input \<Rightarrow> bool" where
  "audit_result i \<longleftrightarrow> out_attempt (reduce i) = in_attempt i \<and> out_holds (reduce i) = in_holds i
     \<and> list_all audit_effect (out_effects (reduce i))"

lemma reduce_cases:
  assumes "in_attempt i = Some a"
  shows "(\<exists>x. reduce i = rejected i x)
    \<or> (\<exists>gen. classifyLane (Some a) (in_evidence i) (in_holds i) = In_lane Lane_current gen
         \<and> a_state a = S_stopping \<and> reduce i = reduceStopping a i)
    \<or> (\<exists>lane gen r. classifyLane (Some a) (in_evidence i) (in_holds i) = In_lane lane gen
         \<and> \<not> (a_state a = S_stopping \<and> lane = Lane_current) \<and> r \<in> set (matchingRules i)
         \<and> reduce i = apply_rule i gen r)"
  using assms
  by (cases "classifyLane (Some a) (in_evidence i) (in_holds i)"; cases "matchingRules i")
    (auto simp: reduce_def)

lemma rejected_audit: "reduce i = rejected i x \<Longrightarrow> audit_result i"
  by (simp add: audit_result_def rejected_def)

lemma audit_rule_result:
  assumes "reduce i = apply_rule i gen r" "audit_rule r" "holds_distinct (in_holds i)"
  shows "audit_result i"
  using audit_rule_draft[OF assms(2), of i gen] assms draft_holds_snd[OF assms(3), of gen]
  by (auto simp: audit_result_def apply_rule_def Let_def audit_step_def)

text \<open>
  C5. A terminal attempt is absorbing. Whatever evidence arrives, the attempt and its holds stay as
  they are, except that a coordinator acknowledgement may stamp \<open>notifiedAt\<close>; the effects are audit
  notes, a late-completion notice or a cancel of a stale session, never a second commit, a requeue, a
  hold or a queue write.
\<close>

theorem terminal_absorbing:
  assumes a: "in_attempt i = Some a" and ok: "attempt_ok a" and t: "isTerminalTurnState (a_state a)"
    and h: "holds_distinct (in_holds i)"
  shows "(\<exists>n. out_attempt (reduce i) = Some (a\<lparr>a_notifiedAt := n\<rparr>))
    \<and> out_holds (reduce i) = in_holds i \<and> list_all audit_effect (out_effects (reduce i))"
proof -
  have nr: "\<not> running (a_state a)" using t by (simp add: running_iff)
  have same: "\<exists>n. Some a = Some (a\<lparr>a_notifiedAt := n\<rparr>)" by (intro exI[of _ "a_notifiedAt a"]) simp
  from reduce_cases[OF a] consider x where "reduce i = rejected i x" | "a_state a = S_stopping"
    | lane gen r where "classifyLane (Some a) (in_evidence i) (in_holds i) = In_lane lane gen"
        "r \<in> set (matchingRules i)" "reduce i = apply_rule i gen r" by blast
  then show ?thesis
  proof cases
    case 1
    then show ?thesis using a same by (simp add: rejected_def)
  next
    case 2
    with t show ?thesis by simp
  next
    case 3
    note facts = matchingRulesD[OF 3(2), unfolded a, OF 3(1)]
    have "\<not> soft_rule r" "\<not> hard_rule r" "\<not> opening_rule r"
      using facts(3) nr by (auto simp: soft_rule_def hard_rule_def opening_rule_def dest: admits_running)
    with facts(6) consider "audit_rule r" | "ack_rule r" by (auto simp: rule_shape_def)
    then show ?thesis
    proof cases
      case 1
      from audit_rule_result[OF 3(3) this h] show ?thesis using a same by (simp add: audit_result_def)
    next
      case 2
      from ack_rule_draft[OF this a, of gen] draft_holds_snd[OF h, of gen] show ?thesis
        by (auto simp: 3(3) apply_rule_def Let_def notified_def)
    qed
  qed
qed

theorem terminal_absorbing_witness:
  "attempt_ok (demo_terminal O_completed) \<and> isTerminalTurnState (a_state (demo_terminal O_completed))
   \<and> (\<exists>n. out_attempt (reduce (demo_input (demo_terminal O_completed) [] 40 (Cancel CR_operator_cancel)))
        = Some ((demo_terminal O_completed)\<lparr>a_notifiedAt := n\<rparr>))
   \<and> out_holds (reduce (demo_input (demo_terminal O_completed) [] 40 (Cancel CR_operator_cancel))) = []"
proof -
  have "attempt_ok (demo_terminal O_completed)" "isTerminalTurnState (a_state (demo_terminal O_completed))"
    by code_simp+
  moreover have "holds_distinct (in_holds (demo_input (demo_terminal O_completed) [] 40 (Cancel CR_operator_cancel)))"
    "in_holds (demo_input (demo_terminal O_completed) [] 40 (Cancel CR_operator_cancel)) = []"
    by (simp_all add: demo_input_def holds_distinct_def)
  ultimately show ?thesis
    using terminal_absorbing[OF demo_input_attempt, of "demo_terminal O_completed"] by metis
qed

section \<open>Other generations\<close>

lemma stale_table: "list_all (\<lambda>r. r_lane r = Lane_stale \<longrightarrow> audit_rule r
    \<or> (hard_rule r \<and> r_from r = From [S_accepted, S_delivered] \<and> r_guard r = Some G_prev_generation_completion)) TRANSITIONS"
  by code_simp

text \<open>
  C7. Evidence of another generation does not touch the attempt or its holds, with one exception: the
  late completion of the directly preceding generation, seen on the session that ran it, while the
  current generation has not started (state accepted or delivered), which is adopted.
\<close>

theorem stale_generation_frame:
  assumes a: "in_attempt i = Some a" and h: "holds_distinct (in_holds i)"
    and lane: "classifyLane (in_attempt i) (in_evidence i) (in_holds i) = In_lane Lane_stale gen"
    and n: "\<not> (a_state a \<in> {S_accepted, S_delivered} \<and> guard_prev_generation_completion (ctx_of i gen))"
  shows "out_attempt (reduce i) = in_attempt i \<and> out_holds (reduce i) = in_holds i
    \<and> list_all audit_effect (out_effects (reduce i))"
proof -
  have "audit_result i"
  proof (cases "matchingRules i")
    case Nil
    then have "reduce i = rejected i (no_rule_rejection (in_attempt i))" using a lane by (simp add: reduce_def)
    then show ?thesis by (rule rejected_audit)
  next
    case (Cons r rs)
    then have m: "r \<in> set (matchingRules i)" by simp
    note facts = matchingRulesD[OF m lane]
    have red: "reduce i = apply_rule i gen r" using Cons a lane by (simp add: reduce_def)
    have "audit_rule r"
      using stale_table facts(1,2,3,5) n a by (fastforce simp: list_all_iff guard_holds_def)
    from audit_rule_result[OF red this h] show ?thesis .
  qed
  then show ?thesis by (simp add: audit_result_def)
qed

definition demo_reclaimed :: "turn_state \<Rightarrow> turn_attempt" where
  "demo_reclaimed st = (demo_attempt Mesh_queue st)\<lparr>a_generation := 1, a_reclaimCount := 1,
     a_prevGeneration := Some \<lparr>pg_sessionId = ''s0'', pg_consumed = True\<rparr>\<rparr>"

definition demo_stale_input :: reduce_input where
  "demo_stale_input = (demo_input (demo_reclaimed S_generating) [] 40 (TurnStarted False))
     \<lparr>in_evidence := (demo_ev ''e1'' 40 Src_fsm_edge (TurnStarted False))\<lparr>ev_sessionId := ''s0''\<rparr>\<rparr>"

theorem stale_generation_frame_witness:
  "classifyLane (in_attempt demo_stale_input) (in_evidence demo_stale_input) (in_holds demo_stale_input)
     = In_lane Lane_stale (Some 0)
   \<and> out_attempt (reduce demo_stale_input) = Some (demo_reclaimed S_generating)
   \<and> out_holds (reduce demo_stale_input) = []"
proof -
  have l: "classifyLane (in_attempt demo_stale_input) (in_evidence demo_stale_input) (in_holds demo_stale_input)
     = In_lane Lane_stale (Some 0)" by code_simp
  have a: "in_attempt demo_stale_input = Some (demo_reclaimed S_generating)" "in_holds demo_stale_input = []"
    by (simp_all add: demo_stale_input_def demo_input_def)
  have n: "\<not> (a_state (demo_reclaimed S_generating) \<in> {S_accepted, S_delivered}
      \<and> guard_prev_generation_completion (ctx_of demo_stale_input (Some 0)))"
    by (simp add: demo_reclaimed_def demo_attempt_def)
  from stale_generation_frame[OF a(1) _ l n] a l show ?thesis by (simp add: holds_distinct_def)
qed

end
