(* ===== verification/TurnTable.thy ===== *)
theory TurnTable
  imports TurnSafety
begin

text \<open>
  The transition table as a decision procedure: at most one row matches any input (with the two
  overlaps the table really has), and the rows that every (state, evidence) pair has.
\<close>

section \<open>Pairs of rows that can meet\<close>

definition all_states :: "turn_state option list" where
  "all_states = [None, Some S_accepted, Some S_delivered, Some S_consumed, Some S_generating,
     Some S_suspended, Some S_finalizing, Some S_stopping, Some S_completed, Some S_blocked,
     Some S_failed, Some S_cancelled]"

lemma all_states_complete: "s \<in> set all_states"
  by (cases s; simp add: all_states_def; metis turn_state.exhaust)

definition common_states :: "transition_rule \<Rightarrow> transition_rule \<Rightarrow> turn_state option list" where
  "common_states r q =
     filter (\<lambda>s. ruleAdmitsState (r_from r) s \<and> ruleAdmitsState (r_from q) s) all_states"

fun pairs :: "'a list \<Rightarrow> ('a \<times> 'a) list" where
  "pairs [] = []"
| "pairs (x # xs) = map (Pair x) xs @ pairs xs"

lemma length_filter_pairs:
  "(\<And>x y. (x, y) \<in> set (pairs xs) \<Longrightarrow> \<not> (P x \<and> P y)) \<Longrightarrow> length (filter P xs) \<le> 1"
proof (induction xs)
  case (Cons x xs)
  have rest: "length (filter P xs) \<le> 1" using Cons by auto
  have "filter P xs = []" if "P x" using Cons.prems[of x] that by (auto simp: filter_empty_conv)
  with rest show ?case by auto
qed simp

section \<open>Exclusive guards\<close>

text \<open>The reasons of the expired hold that a hold guard accepts.\<close>

fun hold_reasons :: "guard_id \<Rightarrow> hold_reason list" where
  "hold_reasons G_hold_await_delivery = [H_await_delivery]"
| "hold_reasons G_hold_await_consume_redrive = [H_await_consume]"
| "hold_reasons G_hold_await_consume_exhausted = [H_await_consume]"
| "hold_reasons G_hold_await_turn = [H_await_turn]"
| "hold_reasons G_hold_liveness = [H_liveness]"
| "hold_reasons G_hold_hard_ceiling = [H_hard_ceiling]"
| "hold_reasons G_hold_suspension_before_consumed = [H_suspension_before_consumed]"
| "hold_reasons G_hold_direct_report_missing = [H_weak_candidate, H_await_report]"
| "hold_reasons G_hold_weak_candidate = [H_weak_candidate]"
| "hold_reasons G_hold_admission = [H_live_pending, H_transcript_quiet]"
| "hold_reasons G_hold_queue_report_missing = [H_await_report]"
| "hold_reasons G_hold_await_report = [H_await_report]"
| "hold_reasons G_hold_native_probe_report_only = [H_await_report]"
| "hold_reasons G_hold_end_unconfirmed_defer = [H_weak_candidate, H_await_report]"
| "hold_reasons G_hold_end_unconfirmed_exhausted = [H_weak_candidate, H_await_report]"
| "hold_reasons G_hold_end_probe_missing = [H_weak_candidate, H_await_report]"
| "hold_reasons G_hold_report_correction = [H_report_correction]"
| "hold_reasons G_hold_await_end = [H_await_end]"
| "hold_reasons _ = []"

lemma hold_guard_reason: "GUARDS g ctx \<Longrightarrow> hold_reasons g \<noteq> [] \<Longrightarrow> holdIs ctx (hold_reasons g)"
  by (cases g) (auto simp: endTimer_def queueReportMissing_def)

definition disjoint_holds :: "guard_id \<Rightarrow> guard_id \<Rightarrow> bool" where
  "disjoint_holds g h \<longleftrightarrow> hold_reasons g \<noteq> [] \<and> hold_reasons h \<noteq> []
     \<and> list_all (\<lambda>x. x \<notin> set (hold_reasons h)) (hold_reasons g)"

lemma disjoint_holds_exclusive: "disjoint_holds g h \<Longrightarrow> \<not> (GUARDS g ctx \<and> GUARDS h ctx)"
  by (auto simp: disjoint_holds_def list_all_iff holdIs_def split: option.splits
      dest!: hold_guard_reason)

definition hold_exclusive :: "(guard_id \<times> guard_id) list" where
  "hold_exclusive = pairs [G_hold_direct_report_missing, G_hold_weak_candidate,
      G_hold_native_probe_report_only, G_hold_queue_report_missing, G_hold_await_report,
      G_hold_end_unconfirmed_defer, G_hold_end_unconfirmed_exhausted, G_hold_end_probe_missing]
    @ [(G_hold_await_consume_redrive, G_hold_await_consume_exhausted)]"

lemma hold_exclusive_sound: "(g, h) \<in> set hold_exclusive \<Longrightarrow> \<not> (GUARDS g ctx \<and> GUARDS h ctx)"
  by (auto simp: hold_exclusive_def endTimer_def freshAlive_def not_direct_def queueReportMissing_def
      holdIs_def test_attempt_def split: option.splits)

text \<open>Guards on the end of a turn, and on the transcript's final message.\<close>

definition end_exclusive :: "(guard_id \<times> guard_id) list" where
  "end_exclusive =
     pairs [G_end_genuine, G_end_provider_failure, G_end_weak, G_end_weak_after_timeout,
       G_hollow_retry, G_hollow_exhausted, G_end_report_awaited, G_end_report_awaited_held,
       G_admission_hold, G_finished_after_report]"

lemma completionEnd_turnEnd: "completionEnd ctx = Some e \<Longrightarrow> turnEnd ctx = Some e \<and> te_providerFailure e = None
    \<and> te_nativeOutcome e \<noteq> Some NT_failed"
  by (auto simp: completionEnd_def split: option.splits if_splits)

lemma turnEnd_body: "turnEnd ctx = Some e \<longleftrightarrow> ev_body (g_evidence ctx) = TurnEnd e"
  by (auto simp: turnEnd_def split: turn_evidence_body.splits)

lemma finished_not_held: "finishedAfterReport ctx \<Longrightarrow> \<not> admission_holds ctx"
  by (auto simp: finishedAfterReport_def admission_holds_def admissionOf_def split: turn_evidence_body.splits)

lemma finished_no_hold: "finishedAfterReport ctx \<Longrightarrow> admissionOf ctx \<noteq> Some (Adm_hold r h)"
  by (auto simp: admission_holds_def dest: finished_not_held)

lemma finished_reported: "finishedAfterReport ctx \<Longrightarrow> reportedThisGeneration ctx"
  by (simp add: finishedAfterReport_def)

lemmas end_defs = guard_end_genuine_def guard_end_weak_def reportAwaitedEnd_def notHeld_def test_end_def
  test_attempt_def

lemma end_exclusive_sound: "(g, h) \<in> set end_exclusive \<Longrightarrow> \<not> (GUARDS g ctx \<and> GUARDS h ctx)"
  by (auto simp: end_exclusive_def end_defs turnEnd_body split: option.splits
      dest!: completionEnd_turnEnd dest: finished_not_held finished_reported)

definition final_exclusive :: "(guard_id \<times> guard_id) list" where
  "final_exclusive =
     pairs [G_final_strong, G_final_weak, G_final_weak_probe, G_admission_hold, G_admission_decline,
       G_finished_after_report]
     @ map (Pair G_weak_end_or_final) [G_end_provider_failure, G_genuine_end_or_strong_final,
         G_end_weak_after_timeout, G_admission_hold, G_admission_decline, G_hollow_retry,
         G_hollow_exhausted, G_end_report_awaited, G_end_report_awaited_held, G_final_strong_report_awaited]
     @ map (Pair G_genuine_end_or_strong_final) [G_end_provider_failure, G_end_weak_after_timeout,
         G_admission_hold, G_admission_decline, G_hollow_retry, G_hollow_exhausted, G_end_report_awaited,
         G_end_report_awaited_held, G_final_strong_report_awaited, G_finished_after_report]
     @ map (Pair G_final_strong_report_awaited) [G_admission_hold, G_admission_decline, G_finished_after_report]"

lemma ownerProbed_admission: "ownerProbedQueueNativeCompletion ctx \<Longrightarrow>
    admissionOf ctx = Some Adm_strong \<and> ev_kind (g_evidence ctx) = K_transcript_final"
  by (auto simp: ownerProbedQueueNativeCompletion_def split: turn_evidence_body.splits)

lemma decline_admission: "admission_declines ctx \<Longrightarrow> \<exists>r. admissionOf ctx = Some (Adm_decline r)
    \<and> ev_kind (g_evidence ctx) = K_transcript_final"
  by (auto simp: admission_declines_def admissionOf_def admitTurnEnd_never_declines
      split: turn_evidence_body.splits option.splits evidence_admission.splits)

lemma hold_admission: "admission_holds ctx \<Longrightarrow> \<exists>r h. admissionOf ctx = Some (Adm_hold r h)"
  by (auto simp: admission_holds_def split: option.splits evidence_admission.splits)

lemmas final_defs = guard_final_strong_def finalWeak_def

lemma final_exclusive_sound: "(g, h) \<in> set final_exclusive \<Longrightarrow> \<not> (GUARDS g ctx \<and> GUARDS h ctx)"
  by (auto simp: final_exclusive_def final_defs end_defs turnEnd_body split: option.splits
      dest!: completionEnd_turnEnd ownerProbed_admission decline_admission hold_admission
      dest: finished_no_hold finished_reported)

definition other_exclusive :: "(guard_id \<times> guard_id) list" where
  "other_exclusive = [(G_unbound, G_bound), (G_stale_modal_resolution, G_held_provider_setup),
     (G_after_weak_since, G_false_idle_resumed), (G_finished_after_report, G_final_present)]
     @ pairs [G_exit_after_report, G_no_provider_failure, G_provider_failure]
     @ pairs [G_liveness_fatal, G_liveness_failed_nonfatal, G_activity_keeps_state, G_liveness_unknown]"

lemma other_exclusive_sound: "(g, h) \<in> set other_exclusive \<Longrightarrow> \<not> (GUARDS g ctx \<and> GUARDS h ctx)"
  by (auto simp: other_exclusive_def guard_held_provider_setup_def test_attempt_def exitAfterReport_def
      liveness_is_def guard_activity_keeps_state_def Let_def
      split: turn_evidence_body.splits option.splits dest: finished_reported)

definition exclusive :: "guard_id \<Rightarrow> guard_id \<Rightarrow> bool" where
  "exclusive g h \<longleftrightarrow> disjoint_holds g h
     \<or> list_ex (\<lambda>p. p = (g, h) \<or> p = (h, g)) (hold_exclusive @ end_exclusive @ final_exclusive @ other_exclusive)"

lemma exclusive_sound: "exclusive g h \<Longrightarrow> \<not> (GUARDS g ctx \<and> GUARDS h ctx)"
  using disjoint_holds_exclusive hold_exclusive_sound end_exclusive_sound final_exclusive_sound other_exclusive_sound
  by (auto simp: exclusive_def list_ex_iff)

section \<open>At most one row\<close>

text \<open>
  Pairs of rows that can meet are kept apart by their guards, by their guards in the one state they
  share, or are the pair of \<open>R9t\<close> and \<open>R30p\<close>.
\<close>

definition kept_apart :: "transition_rule \<Rightarrow> transition_rule \<Rightarrow> bool" where
  "kept_apart r q \<longleftrightarrow>
     (case (r_guard r, r_guard q) of
        (Some g, Some h) \<Rightarrow> exclusive g h
          \<or> h = G_activity_keeps_state \<and> (g = G_after_weak_since \<or> g = G_false_idle_resumed)
              \<and> common_states r q = [Some S_finalizing] \<and> on_within r [K_turn_started, K_transcript_activity]
          \<or> g = G_weak_end_or_final \<and> h = G_finished_after_report \<and> common_states r q = [Some S_finalizing]
          \<or> g = G_finished_after_report \<and> h = G_parked_suspension_observation
      | (None, Some h) \<Rightarrow> h = G_activity_keeps_state
          \<and> (common_states r q = [Some S_consumed] \<and> on_within r [K_turn_started]
             \<or> common_states r q = [Some S_suspended] \<and> on_within r [K_turn_started, K_transcript_activity])
      | _ \<Rightarrow> False)"

definition specific_rules :: "transition_rule list" where
  "specific_rules = filter (\<lambda>r. r_guard r \<noteq> Some G_otherwise) TRANSITIONS"

definition otherwise_rules :: "transition_rule list" where
  "otherwise_rules = filter (\<lambda>r. r_guard r = Some G_otherwise) TRANSITIONS"

definition rows_for :: "rule_lane \<Rightarrow> turn_evidence_kind \<Rightarrow> transition_rule list \<Rightarrow> transition_rule list" where
  "rows_for lane k rs = filter (\<lambda>r. r_lane r = lane \<and> k \<in> set (r_on r)) rs"

definition rows_apart :: "rule_lane \<Rightarrow> turn_evidence_kind \<Rightarrow> bool" where
  "rows_apart lane k \<longleftrightarrow>
     list_all (\<lambda>(r, q). common_states r q = [] \<or> kept_apart r q) (pairs (rows_for lane k specific_rules))
     \<and> list_all (\<lambda>(r, q). common_states r q = []) (pairs (rows_for lane k otherwise_rules))"

lemma none_rows_apart: "list_all (rows_apart Lane_none) TURN_EVIDENCE_KINDS"
  by code_simp

lemma stale_rows_apart: "list_all (rows_apart Lane_stale) TURN_EVIDENCE_KINDS"
  by code_simp

lemma current_rows_apart: "list_all (rows_apart Lane_current) TURN_EVIDENCE_KINDS"
  by code_simp

lemma all_rows_apart: "rows_apart lane k"
  using none_rows_apart stale_rows_apart current_rows_apart all_kinds[of k] by (cases lane) (auto simp: list_all_iff)

text \<open>A finalizing attempt has no report recorded for its current generation.\<close>

definition unreported_final :: "turn_attempt option \<Rightarrow> bool" where
  "unreported_final att \<longleftrightarrow>
     (case att of
        None \<Rightarrow> True
      | Some a \<Rightarrow> a_state a \<noteq> S_finalizing \<or> map_option rr_generation (d_report (a_data a)) \<noteq> Some (a_generation a))"

lemma activity_keeps_apart:
  assumes "g_attempt ctx = Some a" "guard_activity_keeps_state ctx" "ev_kind (g_evidence ctx) \<in> {K_turn_started, K_transcript_activity}"
  shows "a_state a = S_consumed \<and> ev_kind (g_evidence ctx) = K_transcript_activity \<or> a_state a = S_generating
    \<or> a_state a = S_finalizing \<and> \<not> afterWeakSince ctx"
  using assms by (auto simp: guard_activity_keeps_state_def test_attempt_def split: turn_evidence_body.splits)

text \<open>
  What the guards do not keep apart: after a report, a final message with the prompt still open, and an
  owner-probed native completion in finalizing (\<open>weak_end_or_final\<close> does not ask for an unreported generation there).
\<close>

definition rows_overlap :: "guard_ctx \<Rightarrow> bool" where
  "rows_overlap ctx \<longleftrightarrow> finishedAfterReport ctx
     \<and> (guard_parked_suspension ctx \<or> map_option a_state (g_attempt ctx) = Some S_finalizing \<and> ownerProbedQueueNativeCompletion ctx)"

lemma weak_end_reported: "GUARDS G_weak_end_or_final ctx \<Longrightarrow> reportedThisGeneration ctx \<Longrightarrow> ownerProbedQueueNativeCompletion ctx"
  by (auto simp: end_defs finalWeak_def)

lemma kept_apart_sound:
  assumes k: "kept_apart r q"
    and s: "map_option a_state (g_attempt ctx) \<in> set (common_states r q)"
    and on: "ev_kind (g_evidence ctx) \<in> set (r_on r)"
    and g: "guard_holds ctx r" "guard_holds ctx q"
  shows "rows_overlap ctx"
proof (cases "r_guard r")
  case None
  then obtain h where h: "r_guard q = Some h" using k by (auto simp: kept_apart_def split: option.splits)
  with None k g have "guard_activity_keeps_state ctx" by (auto simp: kept_apart_def guard_holds_def)
  with None h k s on show ?thesis
    using activity_keeps_apart[of ctx] by (cases "g_attempt ctx") (auto simp: kept_apart_def dest: on_withinD)
next
  case (Some g0)
  then obtain h where h: "r_guard q = Some h" using k by (auto simp: kept_apart_def split: option.splits)
  have gh: "GUARDS g0 ctx" "GUARDS h ctx" using g Some h by (auto simp: guard_holds_def)
  consider "exclusive g0 h" | "h = G_activity_keeps_state" "g0 = G_after_weak_since \<or> g0 = G_false_idle_resumed"
      "common_states r q = [Some S_finalizing]" "on_within r [K_turn_started, K_transcript_activity]"
    | "g0 = G_weak_end_or_final" "h = G_finished_after_report" "common_states r q = [Some S_finalizing]"
    | "g0 = G_finished_after_report" "h = G_parked_suspension_observation"
    using k Some h by (auto simp: kept_apart_def)
  then show ?thesis
  proof cases
    case 2
    with gh s on show ?thesis using activity_keeps_apart[of ctx] by (cases "g_attempt ctx") (auto dest: on_withinD)
  next
    case 3
    with gh s weak_end_reported[of ctx] show ?thesis by (auto simp: rows_overlap_def dest: finished_reported)
  qed (use gh exclusive_sound in \<open>auto simp: rows_overlap_def\<close>)
qed

lemma common_statesI:
  "ruleAdmitsState (r_from r) s \<Longrightarrow> ruleAdmitsState (r_from q) s \<Longrightarrow> s \<in> set (common_states r q)"
  by (simp add: common_states_def all_states_complete)

lemma pairs_filter: "(x, y) \<in> set (pairs (filter P xs)) \<Longrightarrow> P x \<and> P y"
proof (induction xs)
  case (Cons z zs)
  then show ?case by (auto split: if_splits)
qed simp

lemma matchingRules_apart:
  assumes lane: "classifyLane (in_attempt i) (in_evidence i) (in_holds i) = In_lane lane gen"
    and n: "\<not> rows_overlap (ctx_of i gen)"
  shows "length (matchingRules i) \<le> 1"
proof -
  let ?k = "ev_kind (in_evidence i)" and ?s = "map_option a_state (in_attempt i)" and ?ctx = "ctx_of i gen"
  let ?P = "\<lambda>r. ruleAdmitsState (r_from r) ?s \<and> guard_passes ?ctx r"
  let ?Q = "\<lambda>r. ruleAdmitsState (r_from r) ?s"
  have pass: "guard_passes ?ctx r \<Longrightarrow> guard_holds ?ctx r" for r
    by (auto simp: guard_passes_def guard_holds_def split: option.splits guard_id.splits)
  have "length (filter ?P (rows_for lane ?k specific_rules)) \<le> 1"
  proof (rule length_filter_pairs, rule notI)
    fix r q
    assume rq: "(r, q) \<in> set (pairs (rows_for lane ?k specific_rules))" and p: "?P r \<and> ?P q"
    then have c: "?s \<in> set (common_states r q)" by (auto intro: common_statesI)
    with rq all_rows_apart[of lane ?k] have "kept_apart r q" by (auto simp: rows_apart_def list_all_iff)
    moreover have "?k \<in> set (r_on r)" using pairs_filter[OF rq[unfolded rows_for_def]] by simp
    ultimately show False
      using kept_apart_sound[of r q ?ctx] c p pass n by auto
  qed
  moreover have "length (filter ?Q (rows_for lane ?k otherwise_rules)) \<le> 1"
  proof (rule length_filter_pairs, rule notI)
    fix r q
    assume rq: "(r, q) \<in> set (pairs (rows_for lane ?k otherwise_rules))" and p: "?Q r \<and> ?Q q"
    then have "?s \<in> set (common_states r q)" by (auto intro: common_statesI)
    with rq all_rows_apart[of lane ?k] show False by (auto simp: rows_apart_def list_all_iff)
  qed
  moreover have "filter (guard_passes ?ctx) (laneCandidates lane ?s ?k) = filter ?P (rows_for lane ?k specific_rules)"
    by (simp add: laneCandidates_def rows_for_def specific_rules_def conj_ac)
      (rule filter_cong, auto simp: guard_passes_def)
  moreover have "filter (\<lambda>r. r_guard r = Some G_otherwise) (laneCandidates lane ?s ?k) = filter ?Q (rows_for lane ?k otherwise_rules)"
    by (simp add: laneCandidates_def rows_for_def otherwise_rules_def conj_ac)
  ultimately show ?thesis
    by (simp add: matchingRules_def lane select_rules_def Let_def)
qed

lemma matchingRules_length:
  assumes lane: "classifyLane (in_attempt i) (in_evidence i) (in_holds i) = In_lane lane gen"
    and u: "unreported_final (in_attempt i)"
    and n: "\<not> (finishedAfterReport (ctx_of i gen) \<and> guard_parked_suspension (ctx_of i gen))"
  shows "length (matchingRules i) \<le> 1"
proof (rule matchingRules_apart[OF lane], rule notI)
  assume o: "rows_overlap (ctx_of i gen)"
  then have "map_option a_state (in_attempt i) = Some S_finalizing" "reportedThisGeneration (ctx_of i gen)"
    using n by (auto simp: rows_overlap_def dest: finished_reported)
  with u show False by (auto simp: unreported_final_def reportedThisGeneration_def test_attempt_def split: option.splits)
qed

definition demo_parked :: turn_attempt where
  "demo_parked = (demo_attempt Mesh_queue S_suspended)\<lparr>a_suspension := Some Modal_approval,
     a_data := empty_data\<lparr>d_providerSuspension := Some (new_suspension 0 None False (Some 5)),
       d_report := Some \<lparr>rr_generation = 0, rr_outcome = WR_completed, rr_eventId = ''r1'', rr_at = 6, rr_summary = None\<rparr>\<rparr>\<rparr>"

text \<open>
  C18. The table is deterministic but for two situations. In every lane and state and on all evidence, with or without
  an attempt, at most one row of the transition table matches, unless a report is recorded for the generation, the evidence
  shows the final message, and either the attempt is still parked on its prompt (a stall observation on a
  suspended attempt), or the attempt is finalizing and the evidence is an owner-probed native completion.
\<close>

theorem matching_rules_unique:
  assumes "length (matchingRules i) > 1"
  shows "finishedAfterReport (ctx_of i None)
    \<and> (guard_parked_suspension (ctx_of i None) \<or> map_option a_state (in_attempt i) = Some S_finalizing \<and> ownerProbedQueueNativeCompletion (ctx_of i None))"
proof (cases "classifyLane (in_attempt i) (in_evidence i) (in_holds i)")
  case (In_lane lane gen)
  have "finishedAfterReport (ctx_of i gen) = finishedAfterReport (ctx_of i None)"
    "guard_parked_suspension (ctx_of i gen) = guard_parked_suspension (ctx_of i None)"
    "ownerProbedQueueNativeCompletion (ctx_of i gen) = ownerProbedQueueNativeCompletion (ctx_of i None)"
    by (simp_all add: finishedAfterReport_def reportedThisGeneration_def admission_holds_def admissionOf_def ownerProbedQueueNativeCompletion_def
        test_attempt_def guard_parked_suspension_def cong: turn_evidence_body.case_cong option.case_cong)
  moreover have "rows_overlap (ctx_of i gen)" using matchingRules_apart[OF In_lane] assms by linarith
  ultimately show ?thesis by (simp add: rows_overlap_def)
qed (use assms in \<open>simp add: matchingRules_def\<close>)

theorem matching_rules_unique_witness:
  "length (matchingRules (demo_input demo_parked [] 40 (NoProgress 30 Obs_waiting_approval True))) = 2
   \<and> finishedAfterReport (ctx_of (demo_input demo_parked [] 40 (NoProgress 30 Obs_waiting_approval True)) None)"
proof -
  let ?i = "demo_input demo_parked [] 40 (NoProgress 30 Obs_waiting_approval True)"
  have n: "length (matchingRules ?i) = 2" by code_simp
  then have "length (matchingRules ?i) > 1" by simp
  from matching_rules_unique[OF this] n show ?thesis by blast
qed

text \<open>
  The first situation. An attempt suspended on an approval prompt, with a worker report recorded
  for its generation, and a stall observation that shows both the prompt and a final message: both
  \<open>R9t\<close> and \<open>R30p\<close> match, and the first in table order ends the attempt while the prompt is open.
\<close>

lemma matching_rules_overlap:
  "map r_id (matchingRules (demo_input demo_parked [] 40 (NoProgress 30 Obs_waiting_approval True))) = [''R9t'', ''R30p'']
   \<and> map_option a_state (out_attempt (reduce (demo_input demo_parked [] 40 (NoProgress 30 Obs_waiting_approval True))))
       = Some S_completed"
  by code_simp

definition demo_probed :: reduce_input where
  "demo_probed =
     (let i = demo_input (demo_parked\<lparr>a_state := S_finalizing, a_suspension := None, a_weakSince := Some 10\<rparr>) [] 40000
          (TranscriptFinal \<lparr>tf_selfAttributing = True, tf_nativeRead = True,
             tf_nativeMarker = Some \<lparr>nm_outcome = NT_completed, nm_turnId = None, nm_receivedAt = None, nm_startedAt = None, nm_errorAt = None\<rparr>,
             tf_live = \<lparr>lv_modal = False, lv_adapterPending = False, lv_trailingTool = False, lv_newestActivityAt = None\<rparr>, tf_summary = None, tf_messageAt = Some 39\<rparr>)
      in i\<lparr>in_evidence := (in_evidence i)\<lparr>ev_source := Src_coordinator_probe\<rparr>\<rparr>)"

text \<open>The second situation: the coordinator's probe reads a native completion of a finalizing attempt whose report is recorded.\<close>

lemma matching_rules_overlap_probed: "map r_id (matchingRules demo_probed) = [''R10a'', ''R9t'']"
  by code_simp

end
