(* ===== verification/TurnVerdicts.thy ===== *)
theory TurnVerdicts
  imports TurnTable
begin

text \<open>
  Which verdict a step commits and why: worker reports, recorded reports, timers and the hard ceiling.
\<close>

section \<open>The rule behind a commit\<close>

lemma committed_step:
  assumes a: "in_attempt i = Some a" and ok: "attempt_ok a" and run: "running (a_state a)"
    and l: "Committed g out \<in> set (labels (out_effects (reduce i)))"
  shows "\<exists>lane gen r reason strength. classifyLane (Some a) (in_evidence i) (in_holds i) = In_lane lane gen
    \<and> r \<in> set (matchingRules i) \<and> hard_rule r
    \<and> template_verdict (last (r_effects r)) (last_draft i gen r) out reason strength
    \<and> may_commit (ctx_of i gen) reason a"
proof -
  from reduce_cases[OF a] consider x where "reduce i = rejected i x" | "a_state a = S_stopping"
    | lane gen r where "classifyLane (Some a) (in_evidence i) (in_holds i) = In_lane lane gen"
        "r \<in> set (matchingRules i)" "reduce i = apply_rule i gen r" by blast
  then show ?thesis
  proof cases
    case 1
    with l show ?thesis by (simp add: rejected_def)
  next
    case 2
    with run show ?thesis by (simp add: running_iff)
  next
    case 3
    note facts = matchingRulesD[OF 3(2), unfolded a, OF 3(1)]
    have eff: "out_effects (reduce i) = dr_effects (rule_draft i gen r)" by (simp add: 3(3) apply_rule_def Let_def)
    have "hard_rule r"
    proof (rule ccontr)
      assume "\<not> hard_rule r"
      with facts(3,6) consider "audit_rule r" | "ack_rule r" | "soft_rule r"
        by (auto simp: rule_shape_def opening_rule_def)
      then have "labels (out_effects (reduce i)) = []"
        unfolding eff by cases (use audit_rule_draft[of r i gen] ack_rule_draft[OF _ a] soft_rule_draft[OF _ a run ok] in
            \<open>auto simp: audit_step_def audit_labels\<close>)
      with l show False by simp
    qed
    from hard_rule_draft[OF this a run ok facts(4,5)] l 3 \<open>hard_rule r\<close> show ?thesis
      unfolding eff by (auto simp: stop_begun_def commit_done_def) blast
  qed
qed

section \<open>Timers\<close>

text \<open>Only the guards about other generations look at the effective generation.\<close>

lemma guards_ignore_generation:
  "expiredHold (ctx_of i gen) = expiredHold (ctx_of i None)"
  "freshAlive (ctx_of i gen) = freshAlive (ctx_of i None)"
  "correctionPending (ctx_of i gen) = correctionPending (ctx_of i None)"
  "holdIs (ctx_of i gen) rs = holdIs (ctx_of i None) rs"
  "nativeProbeReportOnly (ctx_of i gen) = nativeProbeReportOnly (ctx_of i None)"
  "queueReportMissing (ctx_of i gen) = queueReportMissing (ctx_of i None)"
proof -
  show e: "expiredHold (ctx_of i gen) = expiredHold (ctx_of i None)"
    unfolding expiredHold_def ctx_of_simps ..
  show "freshAlive (ctx_of i gen) = freshAlive (ctx_of i None)"
    unfolding freshAlive_def freshEndProbe_def test_attempt_def e ctx_of_simps ..
  show "correctionPending (ctx_of i gen) = correctionPending (ctx_of i None)"
    by (simp add: correctionPending_def reportedThisGeneration_def test_attempt_def)
  have hold: "holdIs (ctx_of i gen) rs = holdIs (ctx_of i None) rs" for rs
    unfolding holdIs_def e ..
  then show "holdIs (ctx_of i gen) rs = holdIs (ctx_of i None) rs" .
  show "nativeProbeReportOnly (ctx_of i gen) = nativeProbeReportOnly (ctx_of i None)"
    "queueReportMissing (ctx_of i gen) = queueReportMissing (ctx_of i None)"
    by (simp_all add: nativeProbeReportOnly_def queueReportMissing_def reportedThisGeneration_def test_attempt_def e hold)
qed

definition timer_row_ok :: "transition_rule \<Rightarrow> bool" where
  "timer_row_ok r \<longleftrightarrow>
     (case last (r_effects r) of
        T_commit oe st _ _ \<Rightarrow> oe = Oc O_failed
          \<or> r_guard r \<in> {Some G_hold_weak_candidate, Some G_hold_await_report} \<and> st = Str_weak
          \<or> oe = Oc_from_recorded_report \<and> r_guard r = Some G_hold_await_end \<and> length (r_effects r) = 1
      | T_reclaim _ \<Rightarrow> True
      | _ \<Rightarrow> False)"

lemma timer_table:
  "list_all (\<lambda>r. hard_rule r \<longrightarrow> K_hold_expired \<in> set (r_on r) \<longrightarrow> timer_row_ok r) TRANSITIONS"
  by code_simp

text \<open>
  C19. A timer alone never completes a turn. If the expiry of a hold commits a running attempt as completed, then
  either the hold was the candidate window or the wait for a report, the worker answered a fresh liveness probe as alive (begun
  after the hold opened and recent enough), the attempt is not a direct dispatch, no report correction is pending, and in the wait for
  a report none is owed by the queue or by a native probe; or the hold was the wait for the end of a turn whose worker
  report with that outcome is already recorded for this generation. A recorded report does not stand in for the probe in the first
  case.
\<close>

theorem timer_completion_confirmed:
  assumes a: "in_attempt i = Some a" and ok: "attempt_ok a" and run: "running (a_state a)"
    and kind: "ev_kind (in_evidence i) = K_hold_expired"
    and l: "Committed g O_completed \<in> set (labels (out_effects (reduce i)))"
  shows "(holdIs (ctx_of i None) [H_weak_candidate]
        \<or> holdIs (ctx_of i None) [H_await_report] \<and> \<not> nativeProbeReportOnly (ctx_of i None) \<and> \<not> queueReportMissing (ctx_of i None))
      \<and> freshAlive (ctx_of i None) \<and> a_scope a \<noteq> Mesh_direct \<and> \<not> correctionPending (ctx_of i None)
    \<or> holdIs (ctx_of i None) [H_await_end]
      \<and> (\<exists>r. d_report (a_data a) = Some r \<and> rr_generation r = a_generation a \<and> rr_outcome r = WR_completed)"
proof -
  from committed_step[OF a ok run l] obtain lane gen r reason strength where
    c: "classifyLane (Some a) (in_evidence i) (in_holds i) = In_lane lane gen" and
    m: "r \<in> set (matchingRules i)" "hard_rule r" and
    v: "template_verdict (last (r_effects r)) (last_draft i gen r) O_completed reason strength" by blast
  note facts = matchingRulesD[OF m(1), unfolded a, OF c]
  have row: "timer_row_ok r" using timer_table facts(1,4) m(2) kind by (auto simp: list_all_iff)
  note ctx = guards_ignore_generation[of i gen]
  from row v consider "r_guard r \<in> {Some G_hold_weak_candidate, Some G_hold_await_report}"
    | "r_guard r = Some G_hold_await_end" "commit_outcome Oc_from_recorded_report (draft_of i gen) = Some O_completed"
    by (cases "last (r_effects r)") (auto simp: timer_row_ok_def last_draft_single)
  then show ?thesis
  proof cases
    case 1
    with facts(5) a show ?thesis
      by (auto simp: guard_holds_def not_direct_def test_attempt_def ctx)
  next
    case 2
    from facts(5) 2(1) a have "reportedThisGeneration (ctx_of i gen)" "holdIs (ctx_of i None) [H_await_end]" by (simp_all add: guard_holds_def ctx)
    with a 2(2) show ?thesis
      by (auto simp: reportedThisGeneration_def test_attempt_def elim: report_outcome.elims)
  qed
qed

definition demo_confirmed :: turn_attempt where
  "demo_confirmed = (demo_attempt Mesh_queue S_finalizing)\<lparr>a_weakSince := Some 20, a_lastLiveness := Some L_alive,
     a_data := empty_data\<lparr>d_livenessObservation := Some \<lparr>lo_generation = 0, lo_sessionId = Some ''s1'',
       lo_at = 50, lo_probeStartedAt = 45\<rparr>\<rparr>\<rparr>"

definition demo_timer_input :: reduce_input where
  "demo_timer_input = demo_input demo_confirmed [demo_hold H_weak_candidate 60] 60
     (HoldExpired (holdId ''a1'' H_weak_candidate) H_weak_candidate)"

theorem timer_completion_confirmed_witness:
  "Committed 0 O_completed \<in> set (labels (out_effects (reduce demo_timer_input)))
   \<and> freshAlive (ctx_of demo_timer_input None)"
proof -
  have l: "Committed 0 O_completed \<in> set (labels (out_effects (reduce demo_timer_input)))" by code_simp
  have "in_attempt demo_timer_input = Some demo_confirmed" by (simp add: demo_timer_input_def)
  moreover have "attempt_ok demo_confirmed" "running (a_state demo_confirmed)"
    "ev_kind (in_evidence demo_timer_input) = K_hold_expired" by code_simp+
  moreover have "d_report (a_data demo_confirmed) = None" by (simp add: demo_confirmed_def empty_data_def)
  ultimately show ?thesis using timer_completion_confirmed[of demo_timer_input demo_confirmed 0] l by simp
qed

section \<open>Worker reports\<close>

definition R17 :: transition_rule where
  "R17 = rule ''R17'' Lane_current (From [S_accepted, S_delivered, S_finalizing]) [K_worker_report] None To_outcome
     RV_applied [T_commit Oc_from_report Str_tool_report (CRs Rs_worker_reported) False]"

definition R9t :: transition_rule where
  "R9t = rule ''R9t'' Lane_current (From [S_consumed, S_generating, S_suspended, S_finalizing])
     [K_turn_end, K_transcript_final, K_no_progress] (Some G_finished_after_report) To_outcome RV_applied
     [T_commit Oc_from_recorded_report Str_tool_report (CRs Rs_worker_reported) True]"

definition H5 :: transition_rule where
  "H5 = rule ''H5'' Lane_current From_nonterminal [K_hold_expired] (Some G_hold_hard_ceiling) (To S_failed) RV_applied
     [T_commit (Oc O_failed) Str_genuine (CRs Rs_hard_ceiling) False]"

lemma rows_in_table: "R17 \<in> set TRANSITIONS" "R9t \<in> set TRANSITIONS" "H5 \<in> set TRANSITIONS"
  by code_simp+

text \<open>A row of the table whose guard holds is the one that runs, where rows are unique.\<close>

lemma matching_memberI:
  assumes "classifyLane (in_attempt i) (in_evidence i) (in_holds i) = In_lane (r_lane r) gen"
    and "r \<in> set TRANSITIONS" "ruleAdmitsState (r_from r) (map_option a_state (in_attempt i))"
    and "ev_kind (in_evidence i) \<in> set (r_on r)" "guard_passes (ctx_of i gen) r"
  shows "r \<in> set (matchingRules i)"
  using assms by (auto simp: matchingRules_def laneCandidates_def select_rules_def Let_def filter_empty_conv)

lemma single_member: "x \<in> set xs \<Longrightarrow> length xs \<le> 1 \<Longrightarrow> xs = [x]"
  by (cases xs) auto

lemma reduce_by_row:
  assumes lane: "classifyLane (in_attempt i) (in_evidence i) (in_holds i) = In_lane (r_lane r) gen"
    and a: "in_attempt i = Some a" "a_state a \<noteq> S_stopping"
    and r: "r \<in> set TRANSITIONS" "ruleAdmitsState (r_from r) (Some (a_state a))"
      "ev_kind (in_evidence i) \<in> set (r_on r)" "guard_passes (ctx_of i gen) r"
    and u: "unreported_final (Some a)"
      "\<not> (finishedAfterReport (ctx_of i gen) \<and> guard_parked_suspension (ctx_of i gen))"
  shows "reduce i = apply_rule i gen r"
proof -
  have "r \<in> set (matchingRules i)" using lane r a by (intro matching_memberI) simp_all
  moreover have "length (matchingRules i) \<le> 1" using matchingRules_length[OF lane] u a by simp
  ultimately have "matchingRules i = [r]" by (rule single_member)
  with lane a show ?thesis by (simp add: reduce_def)
qed

lemma commit_row_result:
  assumes red: "reduce i = apply_rule i gen r" and eff: "r_effects r = [T_commit oe st re fr]"
    and out: "commit_outcome oe (draft_of i gen) = Some out" "commit_reason re (in_evidence i) = Some reason"
    and a: "in_attempt i = Some a" and first: "\<not> stop_first (draft_of i gen) reason a"
  defines "text' \<equiv> if fr then Some (recordedReportText (draft_of i gen)) else None"
  shows "out_attempt (reduce i) = Some (committed_attempt (final_terminal out st reason text' a (draft_of i gen)) a)"
    and "out_holds (reduce i) = []"
    and "out_effects (reduce i) = dr_effects (commit_final out st reason text' a (draft_of i gen))"
proof -
  let ?c = "commit_final out st reason text' a (draft_of i gen)"
  have cd: "commit_done out reason st a (draft_of i gen) ?c" using a by (intro commit_final_done) simp
  have "rule_draft i gen r = settle_target (Some a) r ?c"
    using a eff out first by (simp add: rule_draft_def applyTemplate_def template_commit_def commit_def text'_def)
  also have "\<dots> = ?c" using cd by (intro settle_hard) blast
  finally have f: "rule_draft i gen r = ?c" .
  show "out_holds (reduce i) = []" "out_effects (reduce i) = dr_effects ?c"
    using cd by (simp_all add: red apply_rule_def Let_def f commit_done_def)
  show "out_attempt (reduce i) = Some (committed_attempt (final_terminal out st reason text' a (draft_of i gen)) a)"
    using a by (simp add: red apply_rule_def Let_def f commit_final_def)
qed

lemma commit_final_effects:
  assumes "dr_attempt d = Some a" "a_meshId a = Some m" "m \<noteq> []" "a_taskId a = Some tk" "tk \<noteq> []"
    "a_scope a \<noteq> Plain" "reason \<noteq> Rs_superseded"
  shows "{E_queue_status m tk (Q_outcome out) reason, E_task_terminal m tk out}
    \<subseteq> set (dr_effects (commit_final out st reason txt a d))"
proof -
  have n: "set (dr_effects d) \<subseteq> set (dr_effects (notify k g t d))" for k g t and d :: draft
    using notify_effects[of k g t d] by auto
  show ?thesis using assms n
    by (fastforce simp: commit_final_def Let_def queue_effects_def nonempty_id_def isMeshScope_def)
qed

text \<open>
  A worker report is the completion. In the accepted, delivered and finalizing states a report of
  the current generation ends the attempt at once with the reported outcome, strength \<open>tool_report\<close>,
  the report's own summary, and no hold left; a mesh attempt's queue row and task are closed with that
  outcome in the same step.
\<close>

lemma worker_report_commits:
  assumes a: "in_attempt i = Some a" and ok: "attempt_ok a" and st: "a_state a \<in> {S_accepted, S_delivered, S_finalizing}"
    and u: "unreported_final (in_attempt i)"
    and lane: "classifyLane (in_attempt i) (in_evidence i) (in_holds i) = In_lane Lane_current gen"
    and ev: "ev_body (in_evidence i) = WorkerReport b"
    and ids: "a_scope a \<noteq> Plain" "a_meshId a = Some m" "m \<noteq> []" "a_taskId a = Some tk" "tk \<noteq> []"
  shows "\<exists>a' t. out_attempt (reduce i) = Some a' \<and> a_terminal a' = Some t
    \<and> tt_outcome t = report_outcome (wr_outcome b) \<and> tt_strength t = Str_tool_report
    \<and> tt_reason t = Rs_worker_reported \<and> out_holds (reduce i) = []
    \<and> E_queue_status m tk (Q_outcome (report_outcome (wr_outcome b))) Rs_worker_reported \<in> set (out_effects (reduce i))
    \<and> E_task_terminal m tk (report_outcome (wr_outcome b)) \<in> set (out_effects (reduce i))"
proof -
  let ?d = "draft_of i gen" and ?out = "report_outcome (wr_outcome b)"
  have red: "reduce i = apply_rule i gen R17"
    by (rule reduce_by_row[OF _ a]) (use lane st ev u a rows_in_table in
        \<open>auto simp: R17_def rule_def guard_passes_def finishedAfterReport_def\<close>)
  have "\<not> stop_first ?d Rs_worker_reported a" using ev by (simp add: stop_first_def)
  note res = commit_row_result[OF red _ _ _ a this, of Oc_from_report Str_tool_report "CRs Rs_worker_reported" False ?out]
  from commit_final_effects[of ?d a m tk Rs_worker_reported ?out Str_tool_report None] ids a
  have "{E_queue_status m tk (Q_outcome ?out) Rs_worker_reported, E_task_terminal m tk ?out}
    \<subseteq> set (dr_effects (commit_final ?out Str_tool_report Rs_worker_reported None a ?d))" by simp
  with res ev show ?thesis
    by (auto simp: R17_def rule_def committed_attempt_def final_terminal_def)
qed

theorem worker_report_commits_witness:
  "\<exists>a' t. out_attempt (reduce (demo_input (demo_attempt Mesh_queue S_finalizing) [demo_hold H_await_report 99] 40
      (WorkerReport \<lparr>wr_outcome = WR_blocked, wr_summary = None, wr_hasHandoffNotes = False, wr_branchState = None,
         wr_touchedFileCount = None\<rparr>))) = Some a' \<and> a_terminal a' = Some t \<and> tt_outcome t = O_blocked"
proof -
  let ?b = "\<lparr>wr_outcome = WR_blocked, wr_summary = None, wr_hasHandoffNotes = False, wr_branchState = None,
     wr_touchedFileCount = None\<rparr>"
  let ?i = "demo_input (demo_attempt Mesh_queue S_finalizing) [demo_hold H_await_report 99] 40 (WorkerReport ?b)"
  have "attempt_ok (demo_attempt Mesh_queue S_finalizing)"
    "classifyLane (in_attempt ?i) (in_evidence ?i) (in_holds ?i) = In_lane Lane_current (Some 0)"
    "unreported_final (in_attempt ?i)" "a_state (demo_attempt Mesh_queue S_finalizing) \<in> {S_accepted, S_delivered, S_finalizing}"
    "a_scope (demo_attempt Mesh_queue S_finalizing) \<noteq> Plain"
    "a_meshId (demo_attempt Mesh_queue S_finalizing) = Some ''mesh''"
    "a_taskId (demo_attempt Mesh_queue S_finalizing) = Some ''t1''" by code_simp+
  moreover have "ev_body (in_evidence ?i) = WorkerReport ?b" by (simp add: demo_input_def demo_ev_def)
  ultimately show ?thesis
    using worker_report_commits[OF demo_input_attempt, of "demo_attempt Mesh_queue S_finalizing" _ 40 "WorkerReport ?b" "Some 0" ?b "''mesh''" "''t1''"]
    by fastforce
qed

text \<open>
  A report recorded while the worker was still generating decides the turn. When a report is
  recorded for the current generation and the turn then ends (any end of turn that admission does not
  hold back: strong, weak or hollow, even one carrying a provider failure), the attempt ends with the
  recorded report's outcome and summary, and strength \<open>tool_report\<close>.
\<close>

lemma recorded_report_decides:
  assumes a: "in_attempt i = Some a" and st: "a_state a \<in> {S_consumed, S_generating, S_suspended}"
    and lane: "classifyLane (in_attempt i) (in_evidence i) (in_holds i) = In_lane Lane_current gen"
    and rep: "d_report (a_data a) = Some r" "rr_generation r = a_generation a"
    and ev: "ev_body (in_evidence i) = TurnEnd e"
    and adm: "admitTurnEnd (in_evidence i) e (in_policy i) \<in> {Adm_strong, Adm_weak}"
  shows "\<exists>a' t. out_attempt (reduce i) = Some a' \<and> a_terminal a' = Some t
    \<and> tt_outcome t = report_outcome (rr_outcome r) \<and> tt_strength t = Str_tool_report
    \<and> tt_reason t = Rs_worker_reported \<and> tt_summary t = rr_summary r \<and> out_holds (reduce i) = []"
proof -
  let ?d = "draft_of i gen" and ?out = "report_outcome (rr_outcome r)"
  have fin: "finishedAfterReport (ctx_of i gen)"
    using a rep ev adm by (auto simp: finishedAfterReport_def reportedThisGeneration_def test_attempt_def
        admission_holds_def admissionOf_def split: evidence_admission.splits)
  have red: "reduce i = apply_rule i gen R9t"
    by (rule reduce_by_row[OF _ a]) (use lane st ev fin rows_in_table in
        \<open>auto simp: R9t_def rule_def guard_passes_def unreported_final_def guard_parked_suspension_def\<close>)
  have "\<not> stop_first ?d Rs_worker_reported a" using ev by (simp add: stop_first_def)
  note res = commit_row_result[OF red _ _ _ a this, of Oc_from_recorded_report Str_tool_report "CRs Rs_worker_reported" True ?out]
  from res a rep show ?thesis
    by (auto simp: R9t_def rule_def committed_attempt_def final_terminal_def recordedReportText_def)
qed

definition demo_end :: turn_end_body where
  "demo_end = \<lparr>te_strength = TE_weak, te_afterFinalizationTimeout = True, te_hollow = True, te_summary = None,
     te_blockReason = None, te_releasedByHardCap = False, te_nativeOutcome = None, te_nativeMarker = None,
     te_live = None, te_reportExpected = False, te_providerFailure = Some PF_provider_error\<rparr>"

theorem recorded_report_decides_witness:
  "\<exists>a' t. out_attempt (reduce (demo_input demo_parked [] 40 (TurnEnd demo_end))) = Some a' \<and> a_terminal a' = Some t
    \<and> tt_outcome t = O_completed \<and> tt_strength t = Str_tool_report"
proof -
  let ?i = "demo_input demo_parked [] 40 (TurnEnd demo_end)"
  let ?r = "\<lparr>rr_generation = 0, rr_outcome = WR_completed, rr_eventId = ''r1'', rr_at = 6, rr_summary = None\<rparr>"
  have l: "classifyLane (in_attempt ?i) (in_evidence ?i) (in_holds ?i) = In_lane Lane_current (Some 0)" by code_simp
  have f: "a_state demo_parked \<in> {S_consumed, S_generating, S_suspended}"
    "d_report (a_data demo_parked) = Some ?r" "rr_generation ?r = a_generation demo_parked"
    "ev_body (in_evidence ?i) = TurnEnd demo_end"
    "admitTurnEnd (in_evidence ?i) demo_end (in_policy ?i) \<in> {Adm_strong, Adm_weak}"
    by (simp_all add: demo_parked_def demo_attempt_def demo_dispatch_def newAttempt_def demo_ev_def demo_input_def
        demo_end_def admitTurnEnd_def)
  from recorded_report_decides[OF demo_input_attempt f(1) l f(2-5)] show ?thesis by auto
qed

section \<open>The hard ceiling and cancels\<close>

definition stop_request :: "writer_stop \<Rightarrow> turn_attempt \<Rightarrow> turn_effect" where
  "stop_request s a = E_cancel_dispatch \<lparr>cd_attemptId = a_attemptId a, cd_generation = a_generation a,
     cd_sessionId = a_sessionId a, cd_messageId = a_messageId a, cd_revokeBind = False,
     cd_stopRequestId = Some (ws_requestId s)\<rparr>"

lemma beginWriterStop_request:
  assumes "dr_attempt d = Some a" "d_writerStop (a_data a) = None"
  shows "stop_request (fresh_stop d reason) a \<in> set (dr_effects (beginWriterStop reason d))"
  using assms by (simp add: beginWriterStop_def requestWriterStop_def stop_request_def fresh_stop_def)

lemma stop_row_result:
  assumes red: "reduce i = apply_rule i gen r" and eff: "last (r_effects r) = T_commit oe st re False"
    and d1: "last_draft i gen r = draft_of i gen" "r_effects r \<noteq> []"
    and out: "commit_outcome oe (draft_of i gen) = Some out" "commit_reason re (in_evidence i) = Some reason"
    and a: "in_attempt i = Some a" and ok: "attempt_ok a" and run: "running (a_state a)"
    and first: "stop_first (draft_of i gen) reason a"
  shows "\<exists>s. out_attempt (reduce i) = Some (stopping_attempt s a) \<and> ws_reason s = reason \<and> \<not> ws_confirmed s
    \<and> ws_requestedAt s = in_nowMs i \<and> (\<exists>t. ws_terminal s = Some t \<and> st_outcome t = out \<and> st_strength t = st
        \<and> st_source t = Some (ev_source (in_evidence i)) \<and> st_adoptSessionId t = None)
    \<and> stop_request s a \<in> set (out_effects (reduce i))"
proof -
  let ?d = "draft_of i gen" let ?c = "commit_stop out st reason None ?d"
  have w: "d_writerStop (a_data a) = None" using attempt_ok_running[OF ok run] by simp
  have b: "dr_attempt ?d = Some a" using a by simp
  note new = beginWriterStop_new[OF b w, of reason] and req = beginWriterStop_request[OF b w, of reason]
  have split: "r_effects r = butlast (r_effects r) @ [T_commit oe st re False]"
    using d1(2) eff by (metis append_butlast_last_id)
  have "rule_draft i gen r = settle_target (Some a) r (applyTemplate (T_commit oe st re False) ?d)"
    unfolding rule_draft_def a by (subst split) (simp add: d1(1)[unfolded last_draft_def])
  also have "applyTemplate (T_commit oe st re False) ?d = ?c"
    using out a first by (simp add: applyTemplate_def template_commit_def commit_def)
  also have "settle_target (Some a) r ?c = ?c"
    by (rule settle_moved[where b = "stopping_attempt _ a"])
      (use run new in \<open>auto simp: commit_stop_def stopping_attempt_def running_iff\<close>)
  finally have f: "rule_draft i gen r = ?c" .
  let ?s = "(fresh_stop ?d reason)\<lparr>ws_terminal := Some \<lparr>st_outcome = out, st_strength = st, st_adoptSessionId = None,
    st_summary = summaryOf (in_evidence i), st_textEventId = Some (ev_eventId (in_evidence i)),
    st_source = Some (ev_source (in_evidence i))\<rparr>\<rparr>"
  have "dr_attempt ?c = Some (stopping_attempt ?s a)"
    using new(1) by (simp add: commit_stop_def stopping_attempt_def new(2))
  moreover have "stop_request ?s a \<in> set (dr_effects ?c)"
    using req by (simp add: commit_stop_def stop_request_def)
  ultimately show ?thesis
    by (intro exI[of _ ?s]) (simp add: red apply_rule_def Let_def f fresh_stop_def)
qed

lemma hard_ceiling_fires:
  assumes a: "in_attempt i = Some a" and ok: "attempt_ok a" and run: "running (a_state a)"
    and mesh: "a_scope a \<noteq> Plain" and u: "unreported_final (in_attempt i)"
    and h: "find_hold hid (in_holds i) = Some h" "h_reason h = H_hard_ceiling" "h_attemptId h = a_attemptId a"
      "h_generation h = None"
    and ev: "ev_body (in_evidence i) = HoldExpired hid H_hard_ceiling" "ev_attemptRef (in_evidence i) = None"
  shows "\<exists>s. out_attempt (reduce i) = Some (stopping_attempt s a) \<and> ws_reason s = Rs_hard_ceiling
    \<and> \<not> ws_confirmed s \<and> ws_requestedAt s = in_nowMs i
    \<and> (\<exists>t. ws_terminal s = Some t \<and> st_outcome t = O_failed)
    \<and> stop_request s a \<in> set (out_effects (reduce i))"
proof -
  have lane: "classifyLane (in_attempt i) (in_evidence i) (in_holds i) = In_lane Lane_current (Some (a_generation a))"
    using a h ev by (simp add: classifyLane_def Let_def)
  let ?gen = "Some (a_generation a)" let ?d = "draft_of i ?gen"
  have "holdIs (ctx_of i ?gen) [H_hard_ceiling]" using a h ev by (simp add: holdIs_def expiredHold_def)
  then have red: "reduce i = apply_rule i ?gen H5"
    by (intro reduce_by_row[OF _ a]) (use lane run ev u a rows_in_table in
        \<open>auto simp: H5_def rule_def guard_passes_def running_def NONTERMINAL_def finishedAfterReport_def\<close>)
  have w: "\<not> stop_confirmed a" using attempt_ok_running[OF ok run] by (simp add: stop_confirmed_def)
  have "stop_first ?d Rs_hard_ceiling a"
    using mesh w ev by (simp add: stop_first_def isMeshScope_def settleIdleReportOwed_def)
  from stop_row_result[OF red _ _ _ _ _ a ok run this] show ?thesis
    by (fastforce simp: H5_def rule_def last_draft_def)
qed

text \<open>
  The hard ceiling always bites. When the ceiling hold of a running mesh attempt expires, the
  attempt starts to stop with a pending failure, and a stop request for exactly this attempt,
  generation and session is emitted in the same step, in every running state.
\<close>

lemma hard_ceiling_stops:
  assumes a: "in_attempt i = Some a" and ok: "attempt_ok a" and run: "running (a_state a)"
    and mesh: "a_scope a \<noteq> Plain" and u: "unreported_final (in_attempt i)"
    and h: "find_hold hid (in_holds i) = Some h" "h_reason h = H_hard_ceiling" "h_attemptId h = a_attemptId a"
      "h_generation h = None"
    and ev: "ev_body (in_evidence i) = HoldExpired hid H_hard_ceiling" "ev_attemptRef (in_evidence i) = None"
  shows "\<exists>s. out_attempt (reduce i) = Some (stopping_attempt s a) \<and> ws_reason s = Rs_hard_ceiling
    \<and> \<not> ws_confirmed s \<and> ws_requestedAt s = in_nowMs i
    \<and> (\<exists>t. ws_terminal s = Some t \<and> st_outcome t = O_failed)
    \<and> stop_request s a \<in> set (out_effects (reduce i))"
  using hard_ceiling_fires[OF assms] by blast

theorem hard_ceiling_stops_witness:
  "\<exists>s. out_attempt (reduce (demo_input (demo_attempt Mesh_direct S_generating) [demo_hold H_hard_ceiling 60] 60
      (HoldExpired (holdId ''a1'' H_hard_ceiling) H_hard_ceiling)))
    = Some (stopping_attempt s (demo_attempt Mesh_direct S_generating)) \<and> ws_reason s = Rs_hard_ceiling"
proof -
  let ?b = "HoldExpired (holdId ''a1'' H_hard_ceiling) H_hard_ceiling"
  let ?i = "demo_input (demo_attempt Mesh_direct S_generating) [demo_hold H_hard_ceiling 60] 60 ?b"
  have "attempt_ok (demo_attempt Mesh_direct S_generating)" "running (a_state (demo_attempt Mesh_direct S_generating))"
    "a_scope (demo_attempt Mesh_direct S_generating) \<noteq> Plain" "unreported_final (in_attempt ?i)"
    "a_attemptId (demo_attempt Mesh_direct S_generating) = ''a1''" by code_simp+
  then show ?thesis
    using hard_ceiling_stops[OF demo_input_attempt, of "demo_attempt Mesh_direct S_generating"
        "[demo_hold H_hard_ceiling 60]" 60 ?b "holdId ''a1'' H_hard_ceiling" "demo_hold H_hard_ceiling 60"]
    by (fastforce simp: demo_input_def demo_ev_def demo_hold_def find_hold_def)
qed

end
