(* ===== verification/TurnHolds.thy ===== *)
theory TurnHolds
  imports TurnTable
begin

text \<open>
  Invariants of whole drafts. A locale states what an invariant of the draft must be closed under (the
  five primitive operations of the reducer); inside it, closure under every template, under the
  writer-stop machinery and under the step function is proved once. Its interpretations say whom the
  effects of a step are addressed to, and how the holds are keyed.
\<close>

section \<open>Whom an attempt's effects name\<close>

record party =
  p_attemptId :: ident
  p_scope :: turn_scope
  p_meshId :: "ident option"
  p_taskId :: "ident option"

definition party :: "turn_attempt \<Rightarrow> party" where
  "party a = \<lparr>p_attemptId = a_attemptId a, p_scope = a_scope a, p_meshId = a_meshId a, p_taskId = a_taskId a\<rparr>"

definition keyed :: "party \<Rightarrow> turn_hold \<Rightarrow> bool" where
  "keyed w h \<longleftrightarrow> h_attemptId h = p_attemptId w \<and> h_holdId h = holdId (p_attemptId w) (h_reason h)"

fun allowed :: "party \<Rightarrow> turn_effect \<Rightarrow> bool" where
  "allowed w (E_commit c) \<longleftrightarrow> ce_attemptId c = p_attemptId w"
| "allowed w (E_notify_coordinator n) \<longleftrightarrow> ne_attemptId n = p_attemptId w \<and> ne_taskId n = p_taskId w \<and> p_scope w \<noteq> Plain"
| "allowed w (E_hold h) \<longleftrightarrow> keyed w h"
| "allowed w (E_release_hold i _) \<longleftrightarrow> i = p_attemptId w"
| "allowed w (E_reclaim i _ _ _) \<longleftrightarrow> i = p_attemptId w \<and> p_scope w = Mesh_queue"
| "allowed w (E_redeliver i _ _ _) \<longleftrightarrow> i = p_attemptId w"
| "allowed w (E_cancel_dispatch c) \<longleftrightarrow> cd_attemptId c = p_attemptId w"
| "allowed w (E_bus b) \<longleftrightarrow> be_attemptId b = p_attemptId w"
| "allowed w (E_record _) \<longleftrightarrow> True"
| "allowed w (E_release_attempt_ref i _) \<longleftrightarrow> i = p_attemptId w"
| "allowed w (E_queue_status m t _ _) \<longleftrightarrow> p_meshId w = Some m \<and> p_taskId w = Some t \<and> p_scope w \<noteq> Plain"
| "allowed w (E_task_terminal m t _) \<longleftrightarrow> p_meshId w = Some m \<and> p_taskId w = Some t \<and> p_scope w \<noteq> Plain"
| "allowed w (E_probe i _) \<longleftrightarrow> i = p_attemptId w"
| "allowed w (E_reevaluate i _ _) \<longleftrightarrow> i = p_attemptId w"

text \<open>A re-evaluation names the evidence that the expired hold kept.\<close>

fun raised :: "guard_ctx \<Rightarrow> turn_effect \<Rightarrow> bool" where
  "raised ctx (E_reevaluate _ e _) \<longleftrightarrow> e = held_evidence_id ctx"
| "raised ctx _ \<longleftrightarrow> True"

lemma party_simps [simp]:
  "p_attemptId (party a) = a_attemptId a" "p_scope (party a) = a_scope a"
  "p_meshId (party a) = a_meshId a" "p_taskId (party a) = a_taskId a"
  by (simp_all add: party_def)

lemma party_committed [simp]: "party (committed_attempt t a) = party a"
  by (simp add: party_def committed_attempt_def)

lemma party_next_generation [simp]: "party (next_generation a) = party a"
  by (simp add: party_def next_generation_def)

lemma party_core: "core a = core b \<Longrightarrow> party a = party b"
  by (simp add: party_def core_eqD[of a b])

lemma queue_effects_allowed: "(only \<longrightarrow> a_scope a = Mesh_queue) \<Longrightarrow>
    list_all (allowed (party a)) (queue_effects a out reason only)"
  by (auto simp: queue_effects_def isMeshScope_def nonempty_id_def split: option.splits if_splits)

lemma queue_effects_raised: "list_all (raised ctx) (queue_effects a out reason only)"
  by (auto simp: queue_effects_def split: option.splits)

definition keeps_attempt :: "effect_template \<Rightarrow> bool" where
  "keeps_attempt t = (case t of T_act act \<Rightarrow> \<not> opens_attempt act | _ \<Rightarrow> True)"

lemma table_opens: "list_all (\<lambda>r. opening_rule r \<or> list_all keeps_attempt (r_effects r)) TRANSITIONS"
  by code_simp

section \<open>Invariants of drafts\<close>

locale draft_invariant =
  fixes w :: party and I :: "draft \<Rightarrow> bool"
  assumes I_attempt: "I d \<Longrightarrow> \<exists>a. dr_attempt d = Some a \<and> party a = w"
    and I_expired: "I d \<Longrightarrow> expiredHold (dr_ctx d) = Some h \<Longrightarrow> keyed w h"
    and I_upd: "I d \<Longrightarrow> (\<And>a. party (f a) = party a) \<Longrightarrow> I (upd_attempt f d)"
    and I_push: "I d \<Longrightarrow> allowed w e \<Longrightarrow> raised (dr_ctx d) e \<Longrightarrow> I (push e d)"
    and I_add: "I d \<Longrightarrow> keyed w h \<Longrightarrow> I (addHold h d)"
    and I_release: "I d \<Longrightarrow> I (releaseHolds rs keep d)"
    and I_flag: "I d \<Longrightarrow> I (d\<lparr>dr_committed := True\<rparr>)"
begin

lemma I_on_attempt:
  "I d \<Longrightarrow> (\<And>a. dr_attempt d = Some a \<Longrightarrow> party a = w \<Longrightarrow> I (f a d)) \<Longrightarrow> I (on_attempt f d)"
  using I_attempt by force

lemma I_upd_data: "I d \<Longrightarrow> I (upd_data f d)"
  unfolding upd_data_def by (rule I_upd) (simp_all add: party_def)

lemma I_upd_stop: "I d \<Longrightarrow> I (upd_stop f d)"
  unfolding upd_stop_def by (rule I_upd_data)

lemma I_push_all: "I d \<Longrightarrow> list_all (allowed w) es \<Longrightarrow> list_all (raised (dr_ctx d)) es \<Longrightarrow> I (push_all es d)"
proof (induction es arbitrary: d)
  case (Cons e es)
  have eq: "push_all (e # es) d = push_all es (push e d)" by (simp add: push_all_def push_def)
  show ?case unfolding eq using Cons by (simp add: I_push)
qed (simp add: push_all_def)

lemma I_notify: "I d \<Longrightarrow> I (notify k g t d)"
  unfolding notify_def by (rule I_on_attempt) (auto simp: isMeshScope_def intro!: I_push)

lemma I_bind: "I d \<Longrightarrow> I (bindLivenessSession s r d)"
  unfolding bindLivenessSession_def by (rule I_upd) (simp_all add: party_def)

lemma I_requestWriterStop: "I d \<Longrightarrow> I (requestWriterStop d)"
  unfolding requestWriterStop_def
  by (rule I_on_attempt) (auto split: option.splits intro!: I_add I_push simp: keyed_def)

lemma I_beginWriterStop: "I d \<Longrightarrow> I (beginWriterStop reason d)"
  unfolding beginWriterStop_def
  by (rule I_on_attempt) (auto intro!: I_requestWriterStop I_release I_upd simp: party_def)

lemma I_commit_final:
  assumes "I d" "party a = w"
  shows "I (commit_final out st reason txt a d)"
  unfolding commit_final_def Let_def
  using assms by (auto intro!: I_flag I_push I_notify I_push_all I_release I_upd queue_effects_allowed queue_effects_raised)

lemma I_commit: "I d \<Longrightarrow> I (commit out st reason txt d)"
  unfolding commit_def commit_stop_def
  by (rule I_on_attempt) (auto intro!: I_commit_final I_upd_stop I_beginWriterStop)

lemma I_requeue:
  assumes "I d" "party a = w" "a_scope a = Mesh_queue"
  shows "I (requeue reason a d)"
  unfolding requeue_def Let_def
  using assms by (auto intro!: I_add I_push I_release I_upd simp: keyed_def nonempty_id_def split: option.splits if_splits)

lemma I_reclaim: "I d \<Longrightarrow> I (reclaim reason d)"
  unfolding reclaim_def
proof (rule I_on_attempt)
  fix a assume "I d" "party a = w"
  then show "I (if a_scope a = Plain then commit O_failed Str_genuine reason None d
     else if refused_before_start (dr_ev d) a then commit O_failed Str_genuine Rs_dispatch_failed None d
     else if \<not> stop_confirmed a then beginWriterStop reason d
     else if a_scope a = Mesh_direct then commit O_failed Str_genuine reason None d
     else if a_reclaimCount a \<ge> RECLAIM_BUDGET
       then commit O_failed Str_genuine Rs_reclaim_budget_exhausted None d
     else requeue reason a d)"
    by (cases "a_scope a") (auto intro: I_commit I_beginWriterStop I_requeue)
qed

lemma I_adopt: "I d \<Longrightarrow> I (adopt_prev_generation d)"
  unfolding adopt_prev_generation_def
  by (rule I_on_attempt) (auto split: option.splits prod.splits intro!: I_upd_stop I_beginWriterStop I_commit I_upd
      simp: party_def)

lemma I_held_suspension: "I d \<Longrightarrow> I (act_apply_held_suspension d)"
  unfolding act_apply_held_suspension_def
  by (rule I_on_attempt) (auto split: option.split simp: Let_def bus_event_def party_def
      intro!: I_notify I_push I_upd I_release I_upd_data)

lemma I_defer: "I d \<Longrightarrow> I (act_defer_unconfirmed_end d)"
  unfolding act_defer_unconfirmed_end_def
  by (rule I_on_attempt) (auto split: option.split simp: Let_def keyed_def dest: I_expired intro!: I_add I_upd_data)

lemma I_correction: "I d \<Longrightarrow> I (act_open_report_correction d)"
  unfolding act_open_report_correction_def
  by (rule I_on_attempt) (auto simp: Let_def keyed_def intro!: I_add I_upd_data)

lemma party_helpers:
  "party (resolve_suspension b t a) = party a" "party (max_activity ev a) = party a"
  "party (observe_liveness ev a) = party a"
  by (simp_all add: party_def resolve_suspension_def max_activity_def observe_liveness_def split: turn_evidence_body.split)

lemma I_action:
  assumes "I d" "\<not> opens_attempt act"
  shows "I (ACTIONS act d)"
proof (cases act)
  case Act_rebind_dispatch
  with assms show ?thesis
    by (auto simp: act_rebind_dispatch_def party_def split: turn_evidence_body.split intro!: I_upd I_bind)
next
  case Act_mark_delivered
  with assms show ?thesis
    by (auto simp: act_mark_delivered_def party_def split: turn_evidence_body.split intro!: I_upd I_bind)
next
  case Act_activity
  with assms show ?thesis by (auto simp: party_helpers intro!: I_upd)
next
  case Act_false_idle
  with assms show ?thesis by (auto simp: party_def max_activity_def intro!: I_upd)
next
  case Act_resume
  with assms show ?thesis by (auto simp: party_helpers intro!: I_upd)
next
  case Act_resume_by_activity
  with assms show ?thesis by (auto simp: party_def resolve_suspension_def intro!: I_upd)
next
  case Act_liveness_unknown
  have "party (observe_liveness ev a\<lparr>a_lastLiveness := x\<rparr>) = party a" for ev a x
    using party_helpers(3)[of ev a] by (simp add: party_def)
  with Act_liveness_unknown assms show ?thesis by (auto intro!: I_upd)
next
  case Act_liveness_failure
  have "party (observe_liveness ev a\<lparr>a_livenessFailStreak := x\<rparr>) = party a" for ev a x
    using party_helpers(3)[of ev a] by (simp add: party_def)
  with Act_liveness_failure assms show ?thesis by (auto intro!: I_upd)
next
  case Act_worker_absent
  with assms show ?thesis
    by (auto simp: party_def split: turn_evidence_body.split bool.split intro!: I_upd)
qed (use assms in \<open>auto simp: act_consume_def act_suspend_def act_store_git_def party_helpers
      act_mark_notified_def record_report_def Let_def party_def I_held_suspension I_defer I_correction
      split: turn_evidence_body.split intro!: I_upd I_bind I_upd_data\<close>)

lemma I_notify_plain: "I d \<Longrightarrow> I (notify_plain e g a d)"
  by (auto simp: notify_plain_def Let_def split: option.splits intro: I_notify)

lemma I_template_notify: "I d \<Longrightarrow> I (template_notify e c g d)"
  unfolding template_notify_def suspension_reminder_def
  by (rule I_on_attempt) (auto split: notify_when.splits option.splits simp: Let_def party_def
      intro!: I_notify_plain I_notify I_push I_upd I_upd_data)

lemma I_template_hold: "I d \<Longrightarrow> I (template_hold e u x m g d)"
  unfolding template_hold_def
  by (rule I_on_attempt) (auto split: option.splits intro!: I_add simp: keyed_def)

lemma I_run_template:
  assumes "I d" "\<And>act. t = T_act act \<Longrightarrow> \<not> opens_attempt act"
  shows "I (run_template t d)"
proof (cases t)
  case (T_release r)
  with assms show ?thesis by (cases r) (auto split: turn_evidence_body.splits intro: I_release)
next
  case (T_cancel_dispatch tg c)
  with assms(1) show ?thesis
    unfolding T_cancel_dispatch run_template.simps template_cancel_dispatch_def
    by (intro I_on_attempt) (auto simp: Let_def intro!: I_push)
next
  case (T_reclaim e)
  with assms(1) show ?thesis
    unfolding T_reclaim run_template.simps template_reclaim_def
    by (intro I_on_attempt) (auto split: option.splits intro!: I_reclaim)
qed (use assms in \<open>auto simp: template_commit_def bus_event_def split: option.splits
      intro!: I_action I_template_hold I_commit I_template_notify I_adopt I_on_attempt I_push\<close>)

lemma I_fold:
  assumes "I d" "\<And>act. T_act act \<in> set ts \<Longrightarrow> \<not> opens_attempt act"
  shows "I (foldl (\<lambda>d t. applyTemplate t d) d ts)"
  using assms
  by (intro foldl_invariant[where P = I]) (auto simp: applyTemplate_def intro: I_run_template)

lemma I_settle: "I d \<Longrightarrow> I (settle_target att r d)"
  unfolding settle_target_def
  by (auto split: rule_to.split intro!: I_on_attempt I_upd simp: party_def)

lemma I_adopt_report: "I d \<Longrightarrow> I (adoptReportHeldDuringStop d)"
  unfolding adoptReportHeldDuringStop_def
  by (rule I_on_attempt) (auto split: option.split intro: I_upd_stop)

lemma I_settleUnreachable: "I d \<Longrightarrow> I (settleUnreachableWriter b d)"
  unfolding settleUnreachableWriter_def Let_def
  by (rule I_on_attempt) (auto split: option.split intro!: I_upd_stop I_commit)

lemma I_stopping_confirmed: "I d \<Longrightarrow> I (stopping_confirmed d)"
  unfolding stopping_confirmed_def Let_def
  by (rule I_on_attempt) (auto split: option.split simp: party_def
      intro!: I_upd_stop I_commit I_adopt_report I_reclaim I_upd)

lemma I_stopping_retry: "I d \<Longrightarrow> I (stopping_retry d)"
  unfolding stopping_retry_def
  by (rule I_on_attempt) (auto split: option.split
      intro!: I_release I_requestWriterStop I_upd_stop I_push I_notify)

lemma I_record_report: "I d \<Longrightarrow> I (record_report d)"
  by (auto simp: record_report_def party_def split: turn_evidence_body.split intro!: I_upd)

lemma I_stopping_draft:
  assumes "I (draft_of i (Some (a_generation a)))"
  shows "I (stopping_draft a i)"
proof -
  have "I (stopping_ceiling a i (draft_of i (Some (a_generation a))))"
    using assms by (auto simp: stopping_ceiling_def intro!: I_release I_upd_stop)
  then have "I (stopping_cancel (stopping_ceiling a i (draft_of i (Some (a_generation a)))))"
    by (auto simp: stopping_cancel_def split: turn_evidence_body.split intro!: I_upd_stop)
  then show ?thesis
    by (auto simp: stopping_draft_def Let_def
        intro!: I_settleUnreachable I_adopt_report I_stopping_confirmed I_stopping_retry I_record_report I_push)
qed

text \<open>The result of a step is read off a draft that satisfies the invariant.\<close>

lemma I_reduce:
  assumes "\<And>gen. I (draft_of i gen)"
  shows "(\<exists>x. reduce i = rejected i x)
    \<or> (\<exists>d. I d \<and> out_attempt (reduce i) = dr_attempt d \<and> out_holds (reduce i) = map snd (dr_holds d)
         \<and> out_effects (reduce i) = dr_effects d)"
proof -
  obtain a where a: "in_attempt i = Some a" using I_attempt[OF assms] by auto
  from reduce_cases[OF a] show ?thesis
  proof (elim disjE exE conjE)
    fix lane gen r
    assume lane: "classifyLane (Some a) (in_evidence i) (in_holds i) = In_lane lane gen"
      and m: "r \<in> set (matchingRules i)" and red: "reduce i = apply_rule i gen r"
    note facts = matchingRulesD[OF m, unfolded a, OF lane]
    have "\<not> opening_rule r" using facts(3) by (auto simp: opening_rule_def)
    then have "list_all keeps_attempt (r_effects r)" using table_opens facts(1) by (auto simp: list_all_iff)
    then have "\<not> opens_attempt act" if "T_act act \<in> set (r_effects r)" for act
      using that by (auto simp: list_all_iff keeps_attempt_def)
    then have "I (rule_draft i gen r)"
      unfolding rule_draft_def by (intro I_settle I_fold assms) auto
    then show ?thesis by (auto simp: red apply_rule_def Let_def)
  next
    assume red: "reduce i = reduceStopping a i"
    have "I (stopping_draft a i)" by (rule I_stopping_draft[OF assms])
    then show ?thesis by (intro disjI2 exI[of _ "stopping_draft a i"]) (simp add: red reduceStopping_def Let_def)
  qed auto
qed

end

section \<open>Addressed effects\<close>

definition expired_keyed :: "party \<Rightarrow> draft \<Rightarrow> bool" where
  "expired_keyed w d \<longleftrightarrow> (case expiredHold (dr_ctx d) of None \<Rightarrow> True | Some h \<Rightarrow> keyed w h)"

definition addressed_draft :: "party \<Rightarrow> draft \<Rightarrow> bool" where
  "addressed_draft w d \<longleftrightarrow> map_option party (dr_attempt d) = Some w \<and> expired_keyed w d
     \<and> list_all (allowed w) (dr_effects d)"

lemma releaseHolds_allowed:
  "map_option party (dr_attempt d) = Some w \<Longrightarrow> list_all (allowed w) (dr_effects d)
     \<Longrightarrow> list_all (allowed w) (dr_effects (releaseHolds rs keep d))"
  by (auto simp: releaseHolds_def Let_def)

lemma map_option_upd: "map_option party x = Some w \<Longrightarrow> (\<And>a. party (f a) = party a) \<Longrightarrow> map_option party (map_option f x) = Some w"
  by auto

interpretation addressed: draft_invariant w "addressed_draft w" for w
  by unfold_locales
    (auto simp: addressed_draft_def expired_keyed_def releaseHolds_allowed split: option.splits)

section \<open>Re-evaluations\<close>

definition raised_draft :: "party \<Rightarrow> ident \<Rightarrow> draft \<Rightarrow> bool" where
  "raised_draft w e d \<longleftrightarrow> map_option party (dr_attempt d) = Some w \<and> expired_keyed w d \<and> held_evidence_id (dr_ctx d) = e
     \<and> list_all (raised (dr_ctx d)) (dr_effects d)"

lemma releaseHolds_raised:
  "list_all (raised ctx) (dr_effects d) \<Longrightarrow> list_all (raised ctx) (dr_effects (releaseHolds rs keep d))"
  by (auto simp: releaseHolds_def Let_def list_all_iff on_attempt_def split: option.splits)

interpretation raising: draft_invariant w "raised_draft w e" for w e
  by unfold_locales
    (auto simp: raised_draft_def expired_keyed_def releaseHolds_raised split: option.splits)

section \<open>Keyed holds\<close>

definition keyed_holds :: "party \<Rightarrow> (ident \<times> turn_hold) list \<Rightarrow> bool" where
  "keyed_holds w hs \<longleftrightarrow> distinct (map fst hs) \<and> list_all (\<lambda>(k, h). k = h_holdId h \<and> keyed w h) hs"

definition keyed_draft :: "party \<Rightarrow> draft \<Rightarrow> bool" where
  "keyed_draft w d \<longleftrightarrow> map_option party (dr_attempt d) = Some w \<and> expired_keyed w d \<and> keyed_holds w (dr_holds d)"

lemma set_update_alist: "p \<in> set (AList.update k v xs) \<Longrightarrow> p = (k, v) \<or> p \<in> set xs"
  by (induction xs) (auto split: if_splits)

lemma keyed_holds_update: "keyed_holds w hs \<Longrightarrow> keyed w h \<Longrightarrow> keyed_holds w (AList.update (h_holdId h) h hs)"
  unfolding keyed_holds_def by (auto simp: list_all_iff intro: js_map.ok_put dest!: set_update_alist)

lemma keyed_holds_filter: "keyed_holds w hs \<Longrightarrow> keyed_holds w (filter P hs)"
  by (auto simp: keyed_holds_def list_all_iff distinct_map_filter)

interpretation keyed_by: draft_invariant w "keyed_draft w" for w
  by unfold_locales
    (auto simp: keyed_draft_def expired_keyed_def keyed_holds_update keyed_holds_filter split: option.splits)

section \<open>Claims\<close>

definition holds_keyed :: "party \<Rightarrow> turn_hold list \<Rightarrow> bool" where
  "holds_keyed w hs \<longleftrightarrow> distinct (map h_holdId hs) \<and> list_all (keyed w) hs"

lemma expiredHold_in: "expiredHold ctx = Some h \<Longrightarrow> h \<in> set (g_holds ctx)"
  by (auto simp: expiredHold_def find_hold_def find_Some_iff split: turn_evidence_body.splits option.splits if_splits)

lemma expired_keyedI: "list_all (keyed w) (in_holds i) \<Longrightarrow> expired_keyed w (draft_of i gen)"
  by (auto simp: expired_keyed_def list_all_iff split: option.splits dest: expiredHold_in)

lemma keyed_holds_draft: "holds_keyed w (in_holds i) \<Longrightarrow> keyed_holds w (dr_holds (draft_of i gen))"
  by (auto simp: holds_keyed_def keyed_holds_def draft_holds holds_distinct_def list_all_iff comp_def)

lemma holds_keyed_snd:
  assumes "keyed_holds w hs"
  shows "holds_keyed w (map snd hs)"
proof -
  have eq: "map h_holdId (map snd hs) = map fst hs"
    using assms by (auto simp: keyed_holds_def list_all_iff)
  have "distinct (map h_holdId (map snd hs))" unfolding eq using assms by (simp add: keyed_holds_def)
  with assms show ?thesis by (auto simp: holds_keyed_def keyed_holds_def list_all_iff)
qed

lemma holds_keyed_reasons:
  assumes "holds_keyed w hs"
  shows "distinct (map h_reason hs)"
proof -
  have "map h_holdId hs = map (holdId (p_attemptId w)) (map h_reason hs)"
    using assms by (auto simp: holds_keyed_def keyed_def list_all_iff)
  then have "distinct (map (holdId (p_attemptId w)) (map h_reason hs))"
    using assms unfolding holds_keyed_def by metis
  then show ?thesis by (simp only: distinct_map)
qed

text \<open>
  Every effect of a step is addressed to the attempt it was reduced for: commits, holds,
  releases, redeliveries, stop requests, bus events and probes carry its attempt id; queue writes name
  its own mesh and task; and a plain attempt emits no coordinator notice and no queue write, and is
  never requeued. The attempt's identity, scope, mesh and task never change.
\<close>

lemma effects_addressed:
  assumes a: "in_attempt i = Some a" and h: "list_all (keyed (party a)) (in_holds i)"
  shows "list_all (allowed (party a)) (out_effects (reduce i))
    \<and> (\<exists>a'. out_attempt (reduce i) = Some a' \<and> party a' = party a)"
proof -
  have "addressed_draft (party a) (draft_of i gen)" for gen
    using a expired_keyedI[OF h] by (simp add: addressed_draft_def)
  from addressed.I_reduce[OF this] show ?thesis
    using a by (auto simp: rejected_def addressed_draft_def)
qed

theorem effects_addressed_witness:
  "list_all (allowed (party (demo_attempt Plain S_generating)))
     (out_effects (reduce (demo_input (demo_attempt Plain S_generating) [demo_hold H_liveness 60] 40 (ProcessExit (Some 1) None))))
   \<and> labels (out_effects (reduce (demo_input (demo_attempt Plain S_generating) [demo_hold H_liveness 60] 40 (ProcessExit (Some 1) None))))
       = [Committed 0 O_failed]"
proof -
  let ?i = "demo_input (demo_attempt Plain S_generating) [demo_hold H_liveness 60] 40 (ProcessExit (Some 1) None)"
  have "list_all (keyed (party (demo_attempt Plain S_generating))) (in_holds ?i)"
    "labels (out_effects (reduce ?i)) = [Committed 0 O_failed]" by code_simp+
  with effects_addressed[OF demo_input_attempt, of "demo_attempt Plain S_generating"] show ?thesis by blast
qed

section \<open>Keyed holds along a run\<close>

lemma reduce_keyed:
  assumes a: "in_attempt i = Some a" and h: "holds_keyed (party a) (in_holds i)"
  shows "\<exists>a'. out_attempt (reduce i) = Some a' \<and> party a' = party a \<and> holds_keyed (party a) (out_holds (reduce i))"
proof -
  have "keyed_draft (party a) (draft_of i gen)" for gen
    using a h expired_keyedI[of "party a" i] keyed_holds_draft[OF h] by (auto simp: keyed_draft_def holds_keyed_def)
  from keyed_by.I_reduce[OF this] show ?thesis
    using a h by (auto simp: rejected_def keyed_draft_def intro: holds_keyed_snd)
qed

lemma draft_of_none: "in_holds i = [] \<Longrightarrow> dr_holds (draft_of i gen) = []"
  by (simp add: draft_of_def)

lemma reduce_none_cases:
  assumes n: "in_attempt i = None"
  obtains (rejected) x where "reduce i = rejected i x"
  | (audited) r where "reduce i = apply_rule i None r" "audit_step (draft_of i None) (rule_draft i None r)"
  | (acknowledged) r where "reduce i = apply_rule i None r" "rule_draft i None r = draft_of i None"
  | (opened_new) r act ts c where "reduce i = apply_rule i None r" "opening_rule r" "r \<in> set TRANSITIONS"
      "ev_kind (in_evidence i) \<in> set (r_on r)" "r_effects r = T_act act # ts" "opens_attempt act" "list_all soft_template ts"
      "dr_attempt (ACTIONS act (draft_of i None)) = Some c"
      "rule_draft i None r = settle_target None r (foldl (\<lambda>d t. applyTemplate t d) (ACTIONS act (draft_of i None)) ts)"
proof (cases "matchingRules i")
  case Nil
  with n rejected show ?thesis by (auto simp: reduce_def lane_none)
next
  case (Cons r rs)
  have lane: "classifyLane (in_attempt i) (in_evidence i) (in_holds i) = In_lane Lane_none None"
    using n by (simp add: lane_none)
  have "r \<in> set (matchingRules i)" using Cons by simp
  note facts = matchingRulesD[OF this lane]
  have red: "reduce i = apply_rule i None r" using n Cons by (simp add: reduce_def lane_none)
  have adm: "r_from r = From_none" using facts(3) n by (cases "r_from r") auto
  consider "audit_rule r" | "ack_rule r" | "opening_rule r"
    using facts(6) adm by (auto simp: rule_shape_def soft_rule_def hard_rule_def from_running_def)
  then show ?thesis
  proof cases
    case 1
    from audited[OF red audit_rule_draft[OF this]] show ?thesis .
  next
    case 2
    then have "rule_draft i None r = draft_of i None"
      using n by (auto simp: ack_rule_def rule_draft_def settle_same applyTemplate_def act_mark_notified_def
          upd_attempt_def draft_of_def split: turn_evidence_body.splits)
    from acknowledged[OF red this] show ?thesis .
  next
    case 3
    then obtain act ts where e: "r_effects r = T_act act # ts" "opens_attempt act" "list_all soft_template ts"
      by (auto simp: opening_rule_def split: list.splits effect_template.splits)
    have f: "rule_draft i None r = settle_target None r (foldl (\<lambda>d t. applyTemplate t d) (ACTIONS act (draft_of i None)) ts)"
      using n e by (simp add: rule_draft_def applyTemplate_def)
    obtain c where "dr_attempt (ACTIONS act (draft_of i None)) = Some c"
      using open_action_opens[OF 3 facts(1) e(1) facts(4) n, of None] by blast
    from opened_new[OF red 3 facts(1,4) e this f] show ?thesis .
  qed
qed

lemma reduce_keyed_open:
  assumes n: "in_attempt i = None" and e: "in_holds i = []"
  shows "(case out_attempt (reduce i) of None \<Rightarrow> out_holds (reduce i) = []
     | Some a \<Rightarrow> holds_keyed (party a) (out_holds (reduce i)))"
  using n
proof (cases rule: reduce_none_cases)
  case (opened_new r act ts c)
  let ?d = "ACTIONS act (draft_of i None)"
  have d: "dr_holds ?d = []" "dr_ctx ?d = ctx_of i None"
    using open_action(3,5)[OF opened_new(6), of "draft_of i None"] n e by (simp_all add: draft_of_none)
  have ex: "expired_keyed w ?d" for w
    using e by (auto simp: expired_keyed_def d expiredHold_def find_hold_def split: turn_evidence_body.splits)
  have "keyed_draft (party c) ?d" using opened_new(8) d ex by (simp add: keyed_draft_def keyed_holds_def)
  then have "keyed_draft (party c) (rule_draft i None r)"
    unfolding opened_new(9) using opened_new(7) by (intro keyed_by.I_settle keyed_by.I_fold) (auto simp: list_all_iff)
  then show ?thesis using opened_new(1) by (auto simp: apply_rule_def Let_def keyed_draft_def intro: holds_keyed_snd)
qed (use n e in \<open>auto simp: rejected_def apply_rule_def Let_def audit_step_def draft_of_none\<close>)

section \<open>What is re-evaluated\<close>

lemma raised_ids: "list_all (raised ctx) es \<Longrightarrow> E_reevaluate a e f \<in> set es \<Longrightarrow> e = held_evidence_id ctx"
  by (auto simp: list_all_iff)

lemma held_evidence_none: "expiredHold ctx = None \<Longrightarrow> held_evidence_id ctx = []"
  by (simp add: held_evidence_id_def)

lemma reduce_raised:
  assumes a: "in_attempt i = Some a" and h: "list_all (keyed (party a)) (in_holds i)"
    and k: "ev_kind (in_evidence i) \<noteq> K_hold_expired" and e: "E_reevaluate x e f \<in> set (out_effects (reduce i))"
  shows "e = []"
proof -
  have "expiredHold (ctx_of i gen) = None" for gen
    using k by (cases "ev_body (in_evidence i)") (auto simp: expiredHold_def)
  then have "raised_draft (party a) [] (draft_of i gen)" for gen
    using a expired_keyedI[OF h] by (simp add: raised_draft_def held_evidence_none)
  from raising.I_reduce[OF this] show ?thesis
    using e by (auto simp: rejected_def raised_draft_def dest: raised_ids)
qed

lemma reduce_raised_open:
  assumes n: "in_attempt i = None" and h: "in_holds i = []" and e: "E_reevaluate x e f \<in> set (out_effects (reduce i))"
  shows "e = []"
  using n
proof (cases rule: reduce_none_cases)
  case (opened_new r act ts c)
  let ?d = "ACTIONS act (draft_of i None)"
  have d: "dr_effects ?d = []" "dr_ctx ?d = ctx_of i None"
    using open_action(2,3)[OF opened_new(6), of "draft_of i None"] n by simp_all
  have ex: "expiredHold (dr_ctx ?d) = None"
    using h by (auto simp: d expiredHold_def find_hold_def split: turn_evidence_body.splits)
  then have "raised_draft (party c) [] ?d" using opened_new(8) d by (simp add: raised_draft_def expired_keyed_def held_evidence_none)
  then have "raised_draft (party c) [] (rule_draft i None r)"
    unfolding opened_new(9) using opened_new(7) by (intro raising.I_settle raising.I_fold) (auto simp: list_all_iff)
  then show ?thesis using opened_new(1) e by (auto simp: apply_rule_def Let_def raised_draft_def dest: raised_ids)
next
  case (audited r)
  with e show ?thesis by (auto simp: apply_rule_def Let_def audit_step_def list_all_iff)
qed (use e in \<open>auto simp: rejected_def apply_rule_def Let_def\<close>)

definition hold_history :: "ledger_state \<Rightarrow> turn_effect list \<Rightarrow> bool" where
  "hold_history s es \<longleftrightarrow>
     (case fst s of None \<Rightarrow> snd s = [] | Some a \<Rightarrow> holds_keyed (party a) (snd s))"

interpretation hold_keys: ledger_invariant hold_history
proof
  show "hold_history (None, []) []" by (simp add: hold_history_def)
next
  fix s es e
  assume h: "hold_history s es"
  show "hold_history (result_state (ledger_step s e)) (es @ out_effects (ledger_step s e))"
  proof (cases "fst s")
    case None
    with h reduce_keyed_open[of "input_of s e"] show ?thesis
      by (auto simp: hold_history_def ledger_step_def result_state_def split: option.splits)
  next
    case (Some a)
    with h reduce_keyed[of "input_of s e" a] show ?thesis
      by (auto simp: hold_history_def ledger_step_def result_state_def)
  qed
qed

text \<open>
  One hold per reason and attempt. Along any run from no attempt, the holds belong to the attempt,
  each is keyed by the attempt id and its reason, and no two have the same reason.
\<close>

lemma run_holds_keyed:
  "case ledger_run (None, []) [] evs of
     (s, es) \<Rightarrow>
       (case fst s of
          None \<Rightarrow> snd s = []
        | Some a \<Rightarrow> distinct (map h_reason (snd s))
            \<and> list_all (\<lambda>h. h_attemptId h = a_attemptId a \<and> h_holdId h = holdId (a_attemptId a) (h_reason h)) (snd s))"
proof (cases "ledger_run (None, []) [] evs")
  case (Pair s es)
  show ?thesis
  proof (cases "fst s")
    case None
    with hold_keys.run_holds[OF Pair] Pair show ?thesis by (simp add: hold_history_def)
  next
    case (Some a)
    with hold_keys.run_holds[OF Pair] have k: "holds_keyed (party a) (snd s)" by (simp add: hold_history_def)
    from holds_keyed_reasons[OF k] k Some Pair show ?thesis
      by (simp add: holds_keyed_def keyed_def list_all_iff)
  qed
qed

end
