(* ===== verification/TurnStops.thy ===== *)
theory TurnStops
  imports TurnTable
begin

text \<open>
  Ending a mesh attempt: the fence that keeps it from ending before its writer is quiescent, and the verdict that
  is committed once the writer is.
\<close>

section \<open>The writer-stop fence\<close>

lemma fenced_rule_silent:
  assumes r: "r \<in> set (matchingRules i)" and lane: "classifyLane (Some a) (in_evidence i) (in_holds i) = In_lane lane gen"
    and a: "in_attempt i = Some a" and ok: "attempt_ok a" and run: "running (a_state a)"
    and nc: "\<And>out reason strength. hard_rule r \<Longrightarrow> template_verdict (last (r_effects r)) (last_draft i gen r) out reason strength \<Longrightarrow> \<not> may_commit (ctx_of i gen) reason a"
  shows "labels (out_effects (apply_rule i gen r)) = []"
proof (cases "hard_rule r")
  note facts = matchingRulesD[OF r, unfolded a, OF lane]
  case True
  from hard_rule_draft[OF True a run ok facts(4,5)] nc[OF True] show ?thesis by (auto simp: apply_rule_def Let_def stop_begun_def)
next
  note facts = matchingRulesD[OF r, unfolded a, OF lane]
  case False
  from facts(3,6) False consider "audit_rule r" | "ack_rule r" | "soft_rule r" by (auto simp: rule_shape_def opening_rule_def)
  then show ?thesis
    by cases (use audit_rule_draft[of r i gen] ack_rule_draft[OF _ a] soft_rule_draft[OF _ a run ok] in
        \<open>auto simp: apply_rule_def Let_def audit_step_def audit_labels\<close>)
qed

text \<open>The expiry of a hold ends an attempt through a row whose guard names other holds, or through the row of the hard ceiling.\<close>

definition ceiling_row_ok :: "transition_rule \<Rightarrow> bool" where
  "ceiling_row_ok r \<longleftrightarrow>
     (case r_guard r of Some g \<Rightarrow> hold_reasons g \<noteq> [] \<and> H_hard_ceiling \<notin> set (hold_reasons g) | None \<Rightarrow> False)
     \<or> (case last (r_effects r) of T_commit _ _ re _ \<Rightarrow> re = CRs Rs_hard_ceiling | _ \<Rightarrow> False)"

lemma ceiling_table: "list_all (\<lambda>r. K_hold_expired \<in> set (r_on r) \<and> hard_rule r \<longrightarrow> ceiling_row_ok r) TRANSITIONS"
  by code_simp

text \<open>The evidence on which a mesh attempt may not end before its writer is stopped.\<close>

definition stops_first :: "reduce_input \<Rightarrow> bool" where
  "stops_first i \<longleftrightarrow> ev_kind (in_evidence i) \<in> {K_cancel, K_operator_status, K_session_error, K_process_exit}
     \<or> ev_kind (in_evidence i) = K_hold_expired \<and> holdIs (ctx_of i None) [H_hard_ceiling]"

lemma ceiling_verdict:
  assumes r: "r \<in> set (matchingRules i)" and lane: "classifyLane (in_attempt i) (in_evidence i) (in_holds i) = In_lane lane gen"
    and h: "hard_rule r" and kind: "ev_kind (in_evidence i) = K_hold_expired" "holdIs (ctx_of i None) [H_hard_ceiling]"
    and v: "template_verdict (last (r_effects r)) (last_draft i gen r) out reason strength"
  shows "reason = Rs_hard_ceiling"
proof -
  note facts = matchingRulesD[OF r lane]
  have row: "ceiling_row_ok r" using ceiling_table facts(1,4) h kind(1) by (auto simp: list_all_iff)
  have hc: "holdIs (ctx_of i gen) [H_hard_ceiling]" using kind(2) unfolding holdIs_def expiredHold_def ctx_of_simps .
  have "\<not> (\<exists>g. r_guard r = Some g \<and> hold_reasons g \<noteq> [] \<and> H_hard_ceiling \<notin> set (hold_reasons g))"
  proof
    assume "\<exists>g. r_guard r = Some g \<and> hold_reasons g \<noteq> [] \<and> H_hard_ceiling \<notin> set (hold_reasons g)"
    then obtain g where g: "r_guard r = Some g" "hold_reasons g \<noteq> []" "H_hard_ceiling \<notin> set (hold_reasons g)" by blast
    then have "holdIs (ctx_of i gen) (hold_reasons g)" using facts(5) hold_guard_reason by (simp add: guard_holds_def)
    then show False using hc g(3) by (auto simp: holdIs_def split: option.splits)
  qed
  with row v show ?thesis by (auto simp: ceiling_row_ok_def split: option.splits effect_template.splits)
qed

text \<open>
  C6. A running mesh attempt is not ended by a cancel, an operator status, a session error, a
  process exit or the expiry of its hard ceiling: such evidence never commits or requeues it, and leaves it
  non-terminal (running or stopping). The one exception the code makes is the settlement of an idle, report-owing
  attempt by a pinned follow-up (\<open>settleIdleReportOwed\<close>), which is excluded.
\<close>

theorem writer_stop_fence:
  assumes a: "in_attempt i = Some a" and ok: "attempt_ok a" and run: "running (a_state a)"
    and mesh: "a_scope a \<noteq> Plain" and ev: "stops_first i" and idle: "\<not> settleIdleReportOwed (ctx_of i None)"
  shows "labels (out_effects (reduce i)) = []
    \<and> (\<exists>a'. out_attempt (reduce i) = Some a' \<and> a_terminal a' = None \<and> \<not> isTerminalTurnState (a_state a'))"
proof -
  have none: "a_terminal a = None" "\<not> isTerminalTurnState (a_state a)"
    using attempt_ok_running[OF ok run] run by (auto simp: running_iff)
  from reduce_cases[OF a] consider x where "reduce i = rejected i x" | "a_state a = S_stopping"
    | lane gen r where "classifyLane (Some a) (in_evidence i) (in_holds i) = In_lane lane gen"
        "r \<in> set (matchingRules i)" "reduce i = apply_rule i gen r" by blast
  then show ?thesis
  proof cases
    case 1
    with a none show ?thesis by (simp add: rejected_def)
  next
    case 2
    with run show ?thesis by (simp add: running_iff)
  next
    case 3
    have idle': "\<not> settleIdleReportOwed (ctx_of i gen)"
      using idle by (auto simp: settleIdleReportOwed_def test_attempt_def reportedThisGeneration_def)
    have nc: "\<not> may_commit (ctx_of i gen) reason a"
      if "hard_rule r" "template_verdict (last (r_effects r)) (last_draft i gen r) out reason strength" for out reason strength
      using ev idle' mesh ceiling_verdict[OF 3(2) _ that(1) _ _ that(2)] 3(1) a by (auto simp: stops_first_def may_commit_def fenced_def)
    from rule_life[OF 3(2), unfolded a, OF 3(1) refl ok]
    obtain a' where a': "out_attempt (reduce i) = Some a'" "attempt_ok a'"
      "life_step (lifecycle_of a) (labels (out_effects (reduce i))) (lifecycle_of a')"
      by (auto simp: life_result_def 3(3) apply_rule_def Let_def)
    have "labels (out_effects (reduce i)) = []" unfolding 3(3) by (rule fenced_rule_silent[OF 3(2,1) a ok run nc])
    moreover from this a'(3) have "k_phase (lifecycle_of a') \<noteq> Done x" for x
      using none by (auto elim!: life_step.cases simp: lifecycle_of_def phase_of_def split: if_splits)
    ultimately show ?thesis using a'
      by (auto simp: lifecycle_of_def phase_of_def attempt_ok_def split: option.splits if_splits)
  qed
qed

theorem writer_stop_fence_witness:
  "labels (out_effects (reduce (demo_input (demo_attempt Mesh_queue S_generating) [demo_hold H_hard_ceiling 60] 70
       (HoldExpired (holdId ''a1'' H_hard_ceiling) H_hard_ceiling)))) = []
   \<and> (\<exists>a'. out_attempt (reduce (demo_input (demo_attempt Mesh_queue S_generating) [demo_hold H_hard_ceiling 60] 70
       (HoldExpired (holdId ''a1'' H_hard_ceiling) H_hard_ceiling))) = Some a'
        \<and> a_terminal a' = None \<and> \<not> isTerminalTurnState (a_state a'))"
  by (rule writer_stop_fence[OF demo_input_attempt demo_attempt_ok]; code_simp)

section \<open>The verdict of a stop\<close>

text \<open>
  The reason and the terminal record that are pending when a step on a stopping attempt settles it: the stop's own,
  replaced by the hard ceiling when that has passed, then by a cancel, and then by a worker report of this generation
  that arrived since the stop was requested, unless the pending record was set by other than the scheduler or adopts a session.
\<close>

definition pending_head :: "turn_attempt \<Rightarrow> reduce_input \<Rightarrow> turn_reason \<times> stop_terminal option" where
  "pending_head a i =
     (case ev_body (in_evidence i) of
        Cancel r \<Rightarrow> (cancel_turn_reason r, Some (bare_terminal O_cancelled (ev_source (in_evidence i))))
      | _ \<Rightarrow> if in_nowMs i \<ge> a_acceptedAt a + hardCeilingMs (in_policy i) then (Rs_hard_ceiling, Some (bare_terminal O_failed Src_scheduler))
             else (case d_writerStop (a_data a) of Some s \<Rightarrow> (ws_reason s, ws_terminal s) | None \<Rightarrow> (Rs_hard_ceiling, None)))"

definition replaceable :: "stop_terminal option \<Rightarrow> bool" where
  "replaceable t = (case t of None \<Rightarrow> True | Some x \<Rightarrow> \<not> truthy (st_adoptSessionId x) \<and> st_source x = Some Src_scheduler)"

definition after_report :: "turn_attempt \<Rightarrow> turn_reason \<times> stop_terminal option \<Rightarrow> turn_reason \<times> stop_terminal option" where
  "after_report a p =
     (case reportHeldDuringStop a of
        Some r \<Rightarrow> if replaceable (snd p)
                  then (Rs_worker_reported, Some \<lparr>st_outcome = report_outcome (rr_outcome r), st_strength = Str_tool_report, st_adoptSessionId = None,
                          st_summary = rr_summary r, st_textEventId = Some (rr_eventId r), st_source = Some Src_worker_tool\<rparr>)
                  else p
      | None \<Rightarrow> p)"

definition pending_end :: "turn_attempt \<Rightarrow> reduce_input \<Rightarrow> turn_reason \<times> stop_terminal option" where
  "pending_end a i = after_report a (pending_head a i)"

definition stop_at :: "turn_attempt \<Rightarrow> bool \<Rightarrow> turn_reason \<times> stop_terminal option \<Rightarrow> draft \<Rightarrow> bool" where
  "stop_at a conf p d \<longleftrightarrow>
     (\<exists>b s. dr_attempt d = Some b \<and> same_life a b \<and> d_report (a_data b) = d_report (a_data a) \<and> d_writerStop (a_data b) = Some s
        \<and> ws_confirmed s = conf \<and> (ws_reason s, ws_terminal s) = p \<and> Some (ws_requestedAt s) = map_option ws_requestedAt (d_writerStop (a_data a)))
     \<and> labels (dr_effects d) = [] \<and> \<not> dr_committed d"

lemma stop_atD:
  assumes "stop_at a conf p d"
  obtains b s where "dr_attempt d = Some b" "same_life a b" "d_report (a_data b) = d_report (a_data a)" "d_writerStop (a_data b) = Some s"
    "ws_confirmed s = conf" "ws_reason s = fst p" "ws_terminal s = snd p" "Some (ws_requestedAt s) = map_option ws_requestedAt (d_writerStop (a_data a))"
    "labels (dr_effects d) = []" "\<not> dr_committed d"
  using assms unfolding stop_at_def by (metis fst_conv snd_conv)

lemma stop_at_upd:
  assumes "stop_at a conf p d"
    and "\<And>s. ws_confirmed s = conf \<Longrightarrow> ws_reason s = fst p \<Longrightarrow> ws_terminal s = snd p \<Longrightarrow>
      ws_confirmed (f s) = conf' \<and> (ws_reason (f s), ws_terminal (f s)) = q \<and> ws_requestedAt (f s) = ws_requestedAt s"
  shows "stop_at a conf' q (upd_stop f d)"
proof -
  from assms(1) obtain b s where b: "dr_attempt d = Some b" "same_life a b" "d_report (a_data b) = d_report (a_data a)" "d_writerStop (a_data b) = Some s"
    "ws_confirmed s = conf" "ws_reason s = fst p" "ws_terminal s = snd p" "Some (ws_requestedAt s) = map_option ws_requestedAt (d_writerStop (a_data a))"
    "labels (dr_effects d) = []" "\<not> dr_committed d" by (rule stop_atD)
  show ?thesis using b assms(2)[OF b(5,6,7)] by (auto simp: stop_at_def same_life_def core_def)
qed

lemma stop_at_release: "stop_at a conf p d \<Longrightarrow> stop_at a conf p (releaseHolds rs keep d)"
  by (auto simp: stop_at_def)

lemma stop_at_session: "stop_at a conf p d \<Longrightarrow> stop_at a conf p (upd_attempt (\<lambda>a. a\<lparr>a_sessionId := x, a_consumedAt := f a\<rparr>) d)"
  by (auto simp: stop_at_def same_life_def core_def)

lemma stop_at_head:
  assumes "attempt_ok a" "a_state a = S_stopping" "in_attempt i = Some a"
  shows "stop_at a False (pending_head a i) (stopping_cancel (stopping_ceiling a i (draft_of i gen)))"
proof -
  obtain s where s: "d_writerStop (a_data a) = Some s" "\<not> ws_confirmed s" using attempt_ok_stoppingD[OF assms(1,2)] by auto
  let ?p = "if in_nowMs i \<ge> a_acceptedAt a + hardCeilingMs (in_policy i) then (Rs_hard_ceiling, Some (bare_terminal O_failed Src_scheduler)) else (ws_reason s, ws_terminal s)"
  have "stop_at a False (ws_reason s, ws_terminal s) (draft_of i gen)" using s assms by (auto simp: stop_at_def same_life_def)
  then have c: "stop_at a False ?p (stopping_ceiling a i (draft_of i gen))"
    unfolding stopping_ceiling_def by (auto intro!: stop_at_release stop_at_upd)
  have ev: "dr_ev (stopping_ceiling a i (draft_of i gen)) = in_evidence i" by (simp add: stopping_ceiling_def)
  show ?thesis
  proof (cases "\<exists>r. ev_body (in_evidence i) = Cancel r")
    case True
    then show ?thesis unfolding stopping_cancel_def ev using c by (auto simp: pending_head_def intro!: stop_at_upd)
  next
    case False
    then have "stopping_cancel (stopping_ceiling a i (draft_of i gen)) = stopping_ceiling a i (draft_of i gen)" "pending_head a i = ?p"
      unfolding stopping_cancel_def ev using s by (auto simp: pending_head_def split: turn_evidence_body.splits)
    then show ?thesis using c by simp
  qed
qed

lemma stop_at_adopt:
  assumes "stop_at a conf p d"
  shows "stop_at a conf (after_report a p) (adoptReportHeldDuringStop d)"
proof -
  from assms obtain b s where b: "dr_attempt d = Some b" "same_life a b" "d_report (a_data b) = d_report (a_data a)" "d_writerStop (a_data b) = Some s"
    "ws_terminal s = snd p" "Some (ws_requestedAt s) = map_option ws_requestedAt (d_writerStop (a_data a))" by (rule stop_atD)
  have held: "reportHeldDuringStop b = reportHeldDuringStop a"
    using b(3,4,6) same_lifeD(3)[OF b(2)] by (auto simp: reportHeldDuringStop_def split: option.splits)
  have rep: "adopt_blocked s = (\<not> replaceable (snd p))" using b(5) by (auto simp: adopt_blocked_def replaceable_def split: option.splits)
  show ?thesis
    unfolding adoptReportHeldDuringStop_def on_attempt_simps(2)[OF b(1)] held b(4) after_report_def
    using assms by (auto simp: rep split: option.splits intro!: stop_at_upd)
qed

text \<open>An attempt that is committed with this verdict under its generation.\<close>

definition settled_as :: "turn_attempt \<Rightarrow> turn_outcome \<Rightarrow> commit_strength \<Rightarrow> turn_reason \<Rightarrow> turn_attempt option \<Rightarrow> turn_effect list \<Rightarrow> bool" where
  "settled_as a out strength reason a' es \<longleftrightarrow>
     (\<exists>b t. a' = Some b \<and> a_terminal b = Some t \<and> tt_outcome t = out \<and> tt_strength t = strength \<and> tt_reason t = reason
        \<and> a_state b = outcome_state out \<and> a_generation b = a_generation a \<and> labels es = [Committed (a_generation a) out])"

definition requeued_as :: "turn_attempt \<Rightarrow> turn_attempt option \<Rightarrow> turn_effect list \<Rightarrow> bool" where
  "requeued_as a a' es \<longleftrightarrow>
     (\<exists>b. a' = Some b \<and> a_state b = S_accepted \<and> a_terminal b = None \<and> a_generation b = a_generation a + 1
        \<and> a_reclaimCount b = a_reclaimCount a + 1 \<and> d_writerStop (a_data b) = None
        \<and> labels es = [Requeued (a_generation a) (a_generation a + 1)])"

definition draft_settled :: "turn_attempt \<Rightarrow> turn_outcome \<Rightarrow> commit_strength \<Rightarrow> turn_reason \<Rightarrow> draft \<Rightarrow> bool" where
  "draft_settled a out strength reason d \<longleftrightarrow> settled_as a out strength reason (dr_attempt d) (dr_effects d)"

lemma commit_at:
  assumes "stop_at a True p d"
  shows "draft_settled a out strength reason (commit out strength reason txt d)"
proof -
  from assms obtain b s where b: "dr_attempt d = Some b" "same_life a b" "d_writerStop (a_data b) = Some s" "ws_confirmed s = True"
    "labels (dr_effects d) = []" by (rule stop_atD)
  then have "\<not> stop_first d reason b" by (simp add: stop_first_def stop_confirmed_def)
  then have "commit_done out reason strength b d (commit out strength reason txt d)"
    using b commit_final_done[OF b(1)] by (simp add: commit_def)
  with b(5) show ?thesis using same_lifeD(3)[OF b(2)] by (auto simp: commit_done_def draft_settled_def settled_as_def committed_attempt_def)
qed

lemma reclaim_at:
  assumes s: "stop_at a True p d" and sc: "a_scope a \<noteq> Plain" and t: "a_terminal a = None"
  shows "if a_scope a = Mesh_queue \<and> a_reclaimCount a < RECLAIM_BUDGET
    then requeued_as a (dr_attempt (reclaim reason d)) (dr_effects (reclaim reason d))
    else draft_settled a O_failed Str_genuine (if a_scope a = Mesh_queue then Rs_reclaim_budget_exhausted else reason) (reclaim reason d)"
proof -
  from s obtain b w where b: "dr_attempt d = Some b" "same_life a b" "d_writerStop (a_data b) = Some w" "ws_confirmed w = True"
    "labels (dr_effects d) = []" by (rule stop_atD)
  note same = same_lifeD[OF b(2)]
  have r: "reclaim reason d = (if a_scope b = Mesh_direct then commit O_failed Str_genuine reason None d
      else if a_reclaimCount b \<ge> RECLAIM_BUDGET then commit O_failed Str_genuine Rs_reclaim_budget_exhausted None d else requeue reason b d)"
    using b sc same(2) by (simp add: reclaim_def refused_before_start_def stop_confirmed_def)
  show ?thesis
  proof (cases "a_scope a = Mesh_queue \<and> a_reclaimCount a < RECLAIM_BUDGET")
    case True
    then have "reclaim reason d = requeue reason b d" using r same by simp
    then show ?thesis using True requeue_simps[OF b(1), of reason] b(5) same t by (simp add: requeued_as_def next_generation_def)
  next
    case False
    moreover have "a_scope a = Mesh_direct" if "a_scope a \<noteq> Mesh_queue" using that sc by (cases "a_scope a") auto
    ultimately show ?thesis using r same commit_at[OF s] by auto
  qed
qed

lemma confirmed_settles:
  assumes s: "stop_at a False q d" and sc: "a_scope a \<noteq> Plain" "a_terminal a = None" and p: "after_report a q = (reason, term)"
  shows "case term of
      Some t \<Rightarrow> draft_settled a (st_outcome t) (st_strength t) reason (stopping_confirmed d)
    | None \<Rightarrow> if reason \<noteq> Rs_hard_ceiling \<and> a_scope a = Mesh_queue \<and> a_reclaimCount a < RECLAIM_BUDGET
              then requeued_as a (dr_attempt (stopping_confirmed d)) (dr_effects (stopping_confirmed d))
              else draft_settled a O_failed Str_genuine (if reason \<noteq> Rs_hard_ceiling \<and> a_scope a = Mesh_queue then Rs_reclaim_budget_exhausted else reason) (stopping_confirmed d)"
proof -
  let ?d = "adoptReportHeldDuringStop (upd_stop (\<lambda>s. s\<lparr>ws_confirmed := True\<rparr>) d)"
  have v: "stop_at a True (reason, term) ?d" unfolding p[symmetric] by (rule stop_at_adopt) (rule stop_at_upd[OF s], auto)
  then obtain b w where b: "dr_attempt ?d = Some b" "d_writerStop (a_data b) = Some w" "ws_reason w = reason" "ws_terminal w = term"
    by (rule stop_atD) simp
  show ?thesis
  proof (cases "term")
    case None
    then have "stopping_confirmed d = (if reason = Rs_hard_ceiling then commit O_failed Str_genuine reason None ?d else reclaim reason ?d)"
      using b by (simp add: stopping_confirmed_def)
    then show ?thesis using None commit_at[OF v] reclaim_at[OF v sc, of reason] by auto
  next
    case (Some t)
    then show ?thesis using b commit_at[OF v] commit_at[OF stop_at_session[OF v]] by (simp add: stopping_confirmed_def)
  qed
qed

lemma unreachable_settles:
  assumes s: "stop_at a False (reason, term) d"
  shows "case term of
      Some t \<Rightarrow> if st_outcome t \<noteq> O_failed then draft_settled a (st_outcome t) (st_strength t) reason (settleUnreachableWriter settler d)
                else draft_settled a O_failed Str_genuine Rs_writer_unreachable (settleUnreachableWriter settler d)
    | None \<Rightarrow> draft_settled a O_failed Str_genuine Rs_writer_unreachable (settleUnreachableWriter settler d)"
proof -
  let ?d = "upd_stop (\<lambda>s. s\<lparr>ws_confirmed := True, ws_settledBy := Some settler\<rparr>) d"
  have v: "stop_at a True (reason, term) ?d" by (rule stop_at_upd[OF s]) auto
  then obtain b w where b: "dr_attempt ?d = Some b" "d_writerStop (a_data b) = Some w" "ws_reason w = reason" "ws_terminal w = term"
    by (rule stop_atD) simp
  have v': "stop_at a True (reason, x) (upd_stop (\<lambda>s. s\<lparr>ws_terminal := x\<rparr>) ?d)" for x by (rule stop_at_upd[OF v]) auto
  show ?thesis unfolding settleUnreachableWriter_def Let_def on_attempt_simps(2)[OF b(1)]
    using b commit_at[OF v] commit_at[OF v'] by (auto split: option.splits)
qed


lemma stop_viewD:
  "stop_view a conf d \<Longrightarrow> \<exists>a'. dr_attempt d = Some a' \<and> a_state a' = a_state a \<and> a_terminal a' = a_terminal a
     \<and> a_generation a' = a_generation a \<and> labels (dr_effects d) = []"
  by (auto simp: stop_view_def dest: same_lifeD)

text \<open>
  C8. How a stop is settled. A stopping attempt stays stopping, with no commit and no requeue, until
  the writer is confirmed quiescent or known to be unreachable. When the stop is confirmed, a pending terminal record
  (\<open>pending_end\<close>: the stop's own, or the hard ceiling, a cancel or a held worker report that replaces it) is committed
  with exactly its outcome, strength and reason. Without one the attempt is requeued under the next generation with one more
  reclaim, if it is a queue attempt within the reclaim budget and not past the hard ceiling, and failed otherwise. An
  unreachable writer (on evidence other than a cancel) always ends the attempt: with the pending record if that is not a
  failure, and as unreachable if it is or there is none.
\<close>

theorem stop_settlement:
  assumes a: "in_attempt i = Some a" and ok: "attempt_ok a" and st: "a_state a = S_stopping"
    and lane: "classifyLane (in_attempt i) (in_evidence i) (in_holds i) = In_lane Lane_current gen"
    and p: "pending_end a i = (reason, pending)"
  shows "if in_stopConfirmed i then
      (case pending of
         Some t \<Rightarrow> settled_as a (st_outcome t) (st_strength t) reason (out_attempt (reduce i)) (out_effects (reduce i))
       | None \<Rightarrow>
           if reason \<noteq> Rs_hard_ceiling \<and> a_scope a = Mesh_queue \<and> a_reclaimCount a < RECLAIM_BUDGET
           then requeued_as a (out_attempt (reduce i)) (out_effects (reduce i))
           else settled_as a O_failed Str_genuine (if reason \<noteq> Rs_hard_ceiling \<and> a_scope a = Mesh_queue then Rs_reclaim_budget_exhausted else reason)
                  (out_attempt (reduce i)) (out_effects (reduce i)))
    else if in_writerUnreachable i \<noteq> None \<and> ev_kind (in_evidence i) \<noteq> K_cancel then
      (case pending of
         Some t \<Rightarrow>
           if st_outcome t \<noteq> O_failed then settled_as a (st_outcome t) (st_strength t) reason (out_attempt (reduce i)) (out_effects (reduce i))
           else settled_as a O_failed Str_genuine Rs_writer_unreachable (out_attempt (reduce i)) (out_effects (reduce i))
       | None \<Rightarrow> settled_as a O_failed Str_genuine Rs_writer_unreachable (out_attempt (reduce i)) (out_effects (reduce i)))
    else \<exists>b. out_attempt (reduce i) = Some b \<and> a_state b = S_stopping \<and> a_terminal b = None \<and> a_generation b = a_generation a
      \<and> labels (out_effects (reduce i)) = []"
proof -
  have red: "reduce i = reduceStopping a i" using a st lane by (simp add: reduce_def)
  note sc = attempt_ok_stoppingD(2,3)[OF ok st]
  have out: "out_attempt (reduce i) = dr_attempt (stopping_draft a i)" "out_effects (reduce i) = dr_effects (stopping_draft a i)"
    by (simp_all add: red reduceStopping_def Let_def)
  let ?h = "stopping_cancel (stopping_ceiling a i (draft_of i (Some (a_generation a))))"
  note h = stop_at_head[OF ok st a, of "Some (a_generation a)"]
  consider (confirmed) "in_stopConfirmed i" | (unreachable) "\<not> in_stopConfirmed i" "in_writerUnreachable i \<noteq> None \<and> ev_kind (in_evidence i) \<noteq> K_cancel"
    | (waits) "\<not> in_stopConfirmed i" "\<not> (in_writerUnreachable i \<noteq> None \<and> ev_kind (in_evidence i) \<noteq> K_cancel)" by blast
  then show ?thesis
  proof cases
    case confirmed
    then have d: "stopping_draft a i = stopping_confirmed ?h" by (simp add: stopping_draft_def Let_def)
    show ?thesis using confirmed confirmed_settles[OF h sc p[unfolded pending_end_def]] unfolding out d draft_settled_def by simp
  next
    case unreachable
    then have d: "stopping_draft a i = settleUnreachableWriter (the (in_writerUnreachable i)) (adoptReportHeldDuringStop ?h)"
      by (simp add: stopping_draft_def Let_def)
    have "stop_at a False (reason, pending) (adoptReportHeldDuringStop ?h)" using stop_at_adopt[OF h] p by (simp add: pending_end_def)
    from unreachable_settles[OF this] unreachable show ?thesis unfolding out d draft_settled_def by simp
  next
    case waits
    with stopping_draft_cases[OF ok st a] have "stop_view a False (stopping_draft a i)" by simp
    from stop_viewD[OF this] waits st sc(2) show ?thesis unfolding out by auto
  qed
qed

theorem stop_settlement_witness:
  "settled_as (demo_stopping Mesh_queue Rs_session_exit None) O_cancelled Str_genuine Rs_operator_cancel
     (out_attempt (reduce ((demo_input (demo_stopping Mesh_queue Rs_session_exit None) [] 40 (Cancel CR_operator_cancel))\<lparr>in_stopConfirmed := True\<rparr>)))
     (out_effects (reduce ((demo_input (demo_stopping Mesh_queue Rs_session_exit None) [] 40 (Cancel CR_operator_cancel))\<lparr>in_stopConfirmed := True\<rparr>)))
   \<and> requeued_as (demo_stopping Mesh_queue Rs_session_exit None)
     (out_attempt (reduce ((demo_input (demo_stopping Mesh_queue Rs_session_exit None) [] 40 (TurnStarted False))\<lparr>in_stopConfirmed := True\<rparr>)))
     (out_effects (reduce ((demo_input (demo_stopping Mesh_queue Rs_session_exit None) [] 40 (TurnStarted False))\<lparr>in_stopConfirmed := True\<rparr>)))"
proof -
  let ?a = "demo_stopping Mesh_queue Rs_session_exit None"
  let ?i = "\<lambda>b. (demo_input ?a [] 40 b)\<lparr>in_stopConfirmed := True\<rparr>"
  have i: "in_attempt (?i b) = Some ?a" "in_stopConfirmed (?i b)" for b by (simp_all add: demo_input_def)
  have a: "attempt_ok ?a" "a_state ?a = S_stopping" "a_scope ?a = Mesh_queue \<and> a_reclaimCount ?a < RECLAIM_BUDGET" by code_simp+
  have c: "classifyLane (in_attempt (?i (Cancel CR_operator_cancel))) (in_evidence (?i (Cancel CR_operator_cancel))) (in_holds (?i (Cancel CR_operator_cancel))) = In_lane Lane_current (Some 0)"
    "pending_end ?a (?i (Cancel CR_operator_cancel)) = (Rs_operator_cancel, Some (bare_terminal O_cancelled Src_fsm_edge))" by code_simp+
  have t: "classifyLane (in_attempt (?i (TurnStarted False))) (in_evidence (?i (TurnStarted False))) (in_holds (?i (TurnStarted False))) = In_lane Lane_current (Some 0)"
    "pending_end ?a (?i (TurnStarted False)) = (Rs_session_exit, None)" by code_simp+
  show ?thesis
    using stop_settlement[OF i(1) a(1,2) c] stop_settlement[OF i(1) a(1,2) t] i(2) a(3) by (simp add: bare_terminal_def)
qed

end
