(* ===== verification/DaemonIds.thy ===== *)
theory DaemonIds
  imports TurnTypes
begin

text \<open>
  Daemon identities, \<open>mesh-shared/src/daemon-normalize.ts\<close>: a machine is known under its bare core and under
  two prefixed forms, and every ownership test compares cores.
\<close>

definition DAEMON_ID_PREFIXES :: "string list" where
  "DAEMON_ID_PREFIXES = [''daemon_'', ''standalone_'']"

text \<open>\<open>/^mach_/i\<close>, and the core with that prefix in lower case.\<close>

definition mach_form :: "string \<Rightarrow> bool" where
  "mach_form s \<longleftrightarrow> js_lower (take 5 s) = ''mach_''"

definition lower_mach :: "string \<Rightarrow> string" where
  "lower_mach s = (if mach_form s then ''mach_'' @ drop 5 s else s)"

definition machineCoreFromDaemonId :: "string option \<Rightarrow> string option" where
  "machineCoreFromDaemonId i =
     (case readString i of
        None \<Rightarrow> None
      | Some trimmed \<Rightarrow>
          (case find (\<lambda>p. starts_with p (js_lower trimmed)) DAEMON_ID_PREFIXES of
             Some p \<Rightarrow> (let core = js_trim (drop (length p) trimmed) in if core = [] then None else Some (lower_mach core))
           | None \<Rightarrow> Some (lower_mach trimmed)))"

definition canonicalDaemonId :: "string option \<Rightarrow> string option" where
  "canonicalDaemonId i =
     (case machineCoreFromDaemonId i of
        None \<Rightarrow> None
      | Some core \<Rightarrow> Some (if mach_form core then ''daemon_mach_'' @ drop 5 core else core))"

definition daemonIdsEquivalent :: "string option \<Rightarrow> string option \<Rightarrow> bool" where
  "daemonIdsEquivalent a b =
     (case (machineCoreFromDaemonId a, machineCoreFromDaemonId b) of
        (Some x, Some y) \<Rightarrow> x \<noteq> [] \<and> y \<noteq> [] \<and> x = y
      | _ \<Rightarrow> False)"

lemma daemonIdsEquivalent_sym: "daemonIdsEquivalent a b = daemonIdsEquivalent b a"
  by (auto simp: daemonIdsEquivalent_def split: option.splits)

lemma daemonIdsEquivalent_trans: "daemonIdsEquivalent a b \<Longrightarrow> daemonIdsEquivalent b c \<Longrightarrow> daemonIdsEquivalent a c"
  by (auto simp: daemonIdsEquivalent_def split: option.splits)

text \<open>\<open>readString\<close> of the form that \<open>meshNodeIdMatches\<close> reads, and the pinned comparison of \<open>mesh-pinned-node-identity.ts\<close>.\<close>

definition meshNodeIdMatches :: "ident option \<Rightarrow> ident option \<Rightarrow> bool" where
  "meshNodeIdMatches nodeId candidate =
     (case candidate of
        None \<Rightarrow> False
      | Some c \<Rightarrow> js_trim c \<noteq> [] \<and> readString nodeId = Some (js_trim c))"

definition pinnedMeshNodeIdMatches :: "ident option \<Rightarrow> ident option \<Rightarrow> bool" where
  "pinnedMeshNodeIdMatches actual expected \<longleftrightarrow>
     actual = expected \<and> (actual = None \<or> meshNodeIdMatches actual expected)"

end
