(* ===== verification/JsText.thy ===== *)
theory JsText
  imports Prelude "HOL-Library.Sublist" "HOL-Library.Word"
begin

text \<open>
  JavaScript text shared by the components outside the turn ledger: \<open>split\<close> and \<open>join\<close> on one
  separator with their round trips, \<open>Number\<close> of a digit string with the rounding of a double, and
  strings as UTF-16 code units with their UTF-8 length.
\<close>

section \<open>Split and join\<close>

fun split_on :: "'a \<Rightarrow> 'a list \<Rightarrow> 'a list list" where
  "split_on c [] = [[]]"
| "split_on c (x # xs) =
     (if x = c then [] # split_on c xs
      else (case split_on c xs of [] \<Rightarrow> [[x]] | y # ys \<Rightarrow> (x # y) # ys))"

fun join_with :: "'a list \<Rightarrow> 'a list list \<Rightarrow> 'a list" where
  "join_with s [] = []"
| "join_with s [x] = x"
| "join_with s (x # y # ys) = x @ s @ join_with s (y # ys)"

lemma split_on_nonempty [simp]: "split_on c xs \<noteq> []"
  by (cases xs) (auto split: list.splits)

lemma split_on_no_sep [simp]: "c \<notin> set xs \<Longrightarrow> split_on c xs = [xs]"
  by (induction xs) auto

lemma split_on_append: "c \<notin> set xs \<Longrightarrow> split_on c (xs @ c # r) = xs # split_on c r"
  by (induction xs) auto

lemma split_on_parts: "p \<in> set (split_on c xs) \<Longrightarrow> c \<notin> set p"
  by (induction xs arbitrary: p) (auto split: list.splits if_splits)

lemma split_on_chars: "p \<in> set (split_on c xs) \<Longrightarrow> set p \<subseteq> set xs"
  by (induction xs arbitrary: p) (fastforce split: list.splits if_splits)+

lemma split_join: "ss \<noteq> [] \<Longrightarrow> (\<forall>s\<in>set ss. c \<notin> set s) \<Longrightarrow> split_on c (join_with [c] ss) = ss"
  by (induction "[c]" ss rule: join_with.induct) (auto simp: split_on_append)

lemma join_split [simp]: "join_with [c] (split_on c xs) = xs"
proof (induction xs)
  case (Cons x xs)
  obtain y ys where "split_on c xs = y # ys" by (cases "split_on c xs") auto
  with Cons show ?case by (cases ys) auto
qed simp

lemma join_append:
  "ss \<noteq> [] \<Longrightarrow> ts \<noteq> [] \<Longrightarrow> join_with s (ss @ ts) = join_with s ss @ s @ join_with s ts"
proof (induction ss)
  case (Cons x ss)
  then show ?case by (cases ss; cases ts) auto
qed simp

lemma split_join_append:
  "ss \<noteq> [] \<Longrightarrow> (\<forall>s\<in>set ss. c \<notin> set s) \<Longrightarrow> split_on c (join_with [c] ss @ c # r) = ss @ split_on c r"
proof (induction ss)
  case (Cons x ss)
  then show ?case by (cases ss) (auto simp: split_on_append)
qed simp

text \<open>On lists of separator-free parts, a joined prefix followed by the separator is a proper prefix.\<close>

lemma joined_prefix_iff:
  assumes ss: "ss \<noteq> []" "\<forall>s\<in>set ss. c \<notin> set s" and ts: "ts \<noteq> []" "\<forall>s\<in>set ts. c \<notin> set s"
  shows "starts_with (join_with [c] ss @ [c]) (join_with [c] ts) \<longleftrightarrow> strict_prefix ss ts"
proof
  assume "starts_with (join_with [c] ss @ [c]) (join_with [c] ts)"
  then obtain r where "join_with [c] ts = join_with [c] ss @ c # r" by (auto simp: starts_with_append)
  then have "ts = ss @ split_on c r" using split_join_append[OF ss] split_join[OF ts] by simp
  then show "strict_prefix ss ts" by (simp add: strict_prefix_def)
next
  assume "strict_prefix ss ts"
  then obtain u where "ts = ss @ u" "u \<noteq> []" by (auto simp: strict_prefix_def prefix_def)
  then show "starts_with (join_with [c] ss @ [c]) (join_with [c] ts)"
    using join_append[OF ss(1)] by (auto simp: starts_with_append)
qed

section \<open>Numbers\<close>

definition digit_char :: "char \<Rightarrow> bool" where
  "digit_char c \<longleftrightarrow> 48 \<le> (of_char c :: nat) \<and> (of_char c :: nat) \<le> 57"

definition digits_value :: "string \<Rightarrow> int" where
  "digits_value s = foldl (\<lambda>acc c. 10 * acc + (of_char c - 48)) 0 s"

definition TWO_53 :: int where "TWO_53 = 9007199254740992"

text \<open>
  The double nearest to a non-negative integer, ties to even: exact below \<open>2\<^sup>5\<^sup>3\<close>, above it the
  multiple of the unit in the last place. Everything that rounds to \<open>2\<^sup>1\<^sup>0\<^sup>2\<^sup>4\<close> or more is one value,
  infinity.
\<close>

function double_ulp :: "int \<Rightarrow> int" where
  "double_ulp n = (if n < TWO_53 then 1 else 2 * double_ulp (n div 2))"
  by pat_completeness auto
termination by (relation "measure nat") (auto simp: TWO_53_def)

declare double_ulp.simps [simp del]

definition js_double :: "int \<Rightarrow> int" where
  "js_double n =
     (if n < TWO_53 then n
      else let u = double_ulp n; q = n div u; r = n mod u
           in min (2 ^ 1024) (if 2 * r > u \<or> 2 * r = u \<and> odd q then (q + 1) * u else q * u))"

text \<open>\<open>Number\<close> of a string of decimal digits.\<close>

definition js_number :: "string \<Rightarrow> int" where
  "js_number s = js_double (digits_value s)"

lemma js_double_exact [simp]: "n < TWO_53 \<Longrightarrow> js_double n = n"
  by (simp add: js_double_def)

lemma digits_value_snoc: "digits_value (s @ [c]) = 10 * digits_value s + (of_char c - 48)"
  by (simp add: digits_value_def)

lemma digits_value_nil [simp]: "digits_value [] = 0"
  by (simp add: digits_value_def)

lemma of_char_int: "(of_char c :: int) = int (of_char c)"
  by (simp add: of_char_def)

text \<open>Printing a number loses nothing.\<close>

lemma digits_value_digits: "digits_value (digits n) = int n"
proof (induction n rule: digits.induct)
  case (1 n)
  show ?case
  proof (cases "n < 10")
    case True
    then show ?thesis by (subst digits.simps) (simp add: digits_value_def of_char_int)
  next
    case False
    then have "digits n = digits (n div 10) @ [char_of (48 + n mod 10)]" by (subst digits.simps) simp
    with False 1 show ?thesis by (simp add: digits_value_snoc of_char_int zdiv_int zmod_int)
  qed
qed

lemma digits_inj: "digits m = digits n \<longleftrightarrow> m = n"
  by (metis digits_value_digits of_nat_eq_iff)

section \<open>Code units\<close>

type_synonym code_unit = "16 word"
type_synonym js_text = "code_unit list"

definition high_surrogate :: "code_unit \<Rightarrow> bool" where
  "high_surrogate u \<longleftrightarrow> 0xD800 \<le> u \<and> u \<le> 0xDBFF"

definition low_surrogate :: "code_unit \<Rightarrow> bool" where
  "low_surrogate u \<longleftrightarrow> 0xDC00 \<le> u \<and> u \<le> 0xDFFF"

text \<open>
  UTF-8 length as \<open>TextEncoder\<close> and \<open>Buffer.byteLength\<close> compute it: a surrogate pair takes four bytes, a
  lone surrogate is encoded as U+FFFD and takes three.
\<close>

definition unit_bytes :: "code_unit \<Rightarrow> nat" where
  "unit_bytes u = (if u < 0x80 then 1 else if u < 0x800 then 2 else 3)"

fun utf8_length :: "js_text \<Rightarrow> nat" where
  "utf8_length [] = 0"
| "utf8_length [u] = unit_bytes u"
| "utf8_length (u # v # us) =
     (if high_surrogate u \<and> low_surrogate v then 4 + utf8_length us
      else unit_bytes u + utf8_length (v # us))"

lemma unit_bytes_bounds: "1 \<le> unit_bytes u" "unit_bytes u \<le> 3"
  by (simp_all add: unit_bytes_def)

text \<open>Between one and three bytes per code unit.\<close>

lemma utf8_length_le: "utf8_length us \<le> 3 * length us"
proof (induction us rule: utf8_length.induct)
  case (3 u v us)
  then show ?case using unit_bytes_bounds(2)[of u] by auto
qed (use unit_bytes_bounds in auto)

lemma utf8_length_ge: "length us \<le> utf8_length us"
proof (induction us rule: utf8_length.induct)
  case (3 u v us)
  then show ?case using unit_bytes_bounds(1)[of u] by auto
qed (use unit_bytes_bounds in auto)

lemma utf8_length_zero [simp]: "utf8_length us = 0 \<longleftrightarrow> us = []"
  using utf8_length_ge[of us] by (cases us) auto

lemma surrogate_range:
  "high_surrogate u \<Longrightarrow> 0xD800 \<le> unat u \<and> unat u \<le> 0xDBFF" "low_surrogate u \<Longrightarrow> 0xDC00 \<le> unat u \<and> unat u \<le> 0xDFFF"
  by (simp_all add: high_surrogate_def low_surrogate_def word_le_nat_alt)

lemma high_not_low: "high_surrogate u \<Longrightarrow> \<not> low_surrogate u"
  using surrogate_range by fastforce

lemma utf8_Cons: "\<not> high_surrogate u \<Longrightarrow> utf8_length (u # us) = unit_bytes u + utf8_length us"
  by (cases us) auto

lemma utf8_tail_le: "utf8_length us \<le> utf8_length (u # us)"
proof (cases us)
  case (Cons v vs)
  show ?thesis
  proof (cases "high_surrogate u \<and> low_surrogate v")
    case True
    then have "\<not> high_surrogate v" using high_not_low by blast
    with Cons True utf8_Cons[OF this, of vs] unit_bytes_bounds(2)[of v] show ?thesis by simp
  next
    case False
    with Cons show ?thesis by auto
  qed
qed simp

lemma utf8_drop_le: "utf8_length v \<le> utf8_length (w @ v)"
  by (induction w) (auto intro: order_trans[OF _ utf8_tail_le])

definition ascii :: "string \<Rightarrow> js_text" where
  "ascii = map (\<lambda>c. of_nat (of_char c))"

end
