(* ===== verification/JsValue.thy ===== *)
theory JsValue
  imports JsText Complex_Main
begin

text \<open>
  JSON values as the modelled code reads and builds them: objects are association lists in member order,
  numbers are rationals.
\<close>

datatype js_value =
  JNull | JBool bool | JNum rat | JStr string | JArr "js_value list" | JObj "(string \<times> js_value) list"

type_synonym js_object = "(string \<times> js_value) list"

text \<open>\<open>{ ...a, ...b }\<close>: the keys of \<open>b\<close> replace or extend those of \<open>a\<close>.\<close>

definition spread :: "('k \<times> 'v) list \<Rightarrow> ('k \<times> 'v) list \<Rightarrow> ('k \<times> 'v) list" where
  "spread a b = fold (\<lambda>(k, v). AList.update k v) b a"

text \<open>Reading a member of something that may not be an object, as an optional chain does.\<close>

definition member :: "js_value option \<Rightarrow> string \<Rightarrow> js_value option" where
  "member v k = (case v of Some (JObj kvs) \<Rightarrow> map_of kvs k | _ \<Rightarrow> None)"

definition as_string :: "js_value option \<Rightarrow> string option" where
  "as_string v = (case v of Some (JStr s) \<Rightarrow> Some s | _ \<Rightarrow> None)"

lemma map_of_spread: "map_of (spread a b) k = (case map_of (rev b) k of Some v \<Rightarrow> Some v | None \<Rightarrow> map_of a k)"
  unfolding spread_def
  by (induction b arbitrary: a) (auto simp: update_conv map_add_def split: option.splits)

end
