(* ===== verification/TurnStore.thy ===== *)
theory TurnStore
  imports TurnReducer DaemonIds JsValue
begin

text \<open>
  The tables of the turn ledger, \<open>turn-ledger/store.ts\<close> with the keys of \<open>schema.ts\<close>. A table is the list of its
  rows in \<open>rowid\<close> order. A row of \<open>turn_attempts\<close> stands for the attempt whose fields its columns hold, with the
  three columns that are not part of an attempt; a JSON column is the value it encodes. \<open>INSERT OR IGNORE\<close>
  returns whether the row was inserted; a violated unique index of \<open>turn_attempts\<close> aborts.
\<close>

section \<open>Rows\<close>

datatype row_verdict = Row_applied | Row_recorded | Row_rejected | Row_forwarded
datatype publish_state = Pub_none | Pub_pending | Pub_published

text \<open>
  The \<open>kind\<close> column: an evidence kind, or the kind of a derived row. A delivery claim is filed under
  \<open>delivered\<close>, which is also an evidence kind.
\<close>

datatype row_kind = RK_evidence turn_evidence_kind | RK_committed | RK_notify | RK_reclaim | RK_cancel_dispatch | RK_redeliver

datatype row_source = RS_evidence evidence_source_id | RS_mesh_event

text \<open>Entries of the mesh topic, the \<open>turn.*\<close> kinds of \<open>MeshTopicEntry\<close>.\<close>

record evidence_entry =
  ee_attemptId :: ident
  ee_generation :: int
  ee_ownerDaemonId :: ident
  ee_taskId :: "ident option"
  ee_sessionId :: ident
  ee_ev :: turn_evidence_kind
  ee_strength :: "turn_end_strength option"
  ee_flags :: "string list"
  ee_evidence :: turn_evidence

record committed_entry =
  ce_e_attemptId :: ident
  ce_e_generation :: int
  ce_e_taskId :: "ident option"
  ce_e_outcome :: turn_outcome
  ce_e_strength :: commit_strength
  ce_e_reason :: turn_reason

record notify_entry =
  ne_e_attemptId :: "ident option"
  ne_e_notify :: notify_kind
  ne_e_targetDaemonId :: ident
  ne_e_targetSessionId :: "ident option"
  ne_e_taskId :: "ident option"

datatype topic_entry_body = Topic_evidence evidence_entry | Topic_committed committed_entry | Topic_notify notify_entry

record topic_entry =
  tp_eventId :: ident
  tp_at :: ms
  tp_body :: topic_entry_body

text \<open>The \<open>payload_json\<close> column, one constructor per shape that the ledger writes.\<close>

record evidence_payload =
  pl_evidence :: turn_evidence
  pl_receipt :: "js_object option"
  pl_notes :: "string list"
  pl_envelope :: "js_object option"
  pl_entry :: "topic_entry option"
  pl_samples :: "(int \<times> turn_evidence) option"

datatype row_payload =
    P_evidence evidence_payload
  | P_committed turn_outcome commit_strength turn_reason "topic_entry option" "summary_ref option"
  | P_notify notify_kind topic_entry "summary_ref option" "ident option"
  | P_mesh_event notify_kind string topic_entry "summary_ref option" "js_value option"
  | P_reclaim int int turn_reason
  | P_cancel "ident option" bool
  | P_redeliver "ident option"
  | P_delivered "string option" "string option"

record turn_event_row =
  er_eventId :: ident
  er_meshId :: "ident option"
  er_attemptId :: "ident option"
  er_generation :: "int option"
  er_sessionId :: ident
  er_kind :: row_kind
  er_source :: row_source
  er_verdict :: row_verdict
  er_rule :: "string option"
  er_rejection :: "reduce_rejection option"
  er_dedupeKey :: string
  er_fromState :: "turn_state option"
  er_toState :: "turn_state option"
  er_payload :: row_payload
  er_observedBy :: "ident option"
  er_srcWriter :: "ident option"
  er_srcSeq :: "int option"
  er_publishState :: publish_state
  er_publishedSeq :: "int option"
  er_atMs :: ms
  er_recordedAt :: ms

record attempt_row =
  at_attempt :: turn_attempt
  at_lastProbeAt :: "ms option"
  at_createdAt :: ms
  at_updatedAt :: ms

record hold_row =
  hr_hold :: turn_hold
  hr_active :: bool
  hr_resolvedAt :: "ms option"

record turn_store =
  ts_attempts :: "attempt_row list"
  ts_events :: "turn_event_row list"
  ts_holds :: "hold_row list"

definition new_store :: turn_store where
  "new_store = \<lparr>ts_attempts = [], ts_events = [], ts_holds = []\<rparr>"

datatype store_index = Ux_turn_attempts_task | Ux_turn_attempts_open_session

section \<open>Attempts\<close>

abbreviation row_id :: "attempt_row \<Rightarrow> ident" where "row_id r \<equiv> a_attemptId (at_attempt r)"

definition row_open :: "attempt_row \<Rightarrow> bool" where
  "row_open r \<longleftrightarrow> a_terminal (at_attempt r) = None"

definition getAttempt :: "ident \<Rightarrow> turn_store \<Rightarrow> turn_attempt option" where
  "getAttempt i s = map_option at_attempt (find (\<lambda>r. row_id r = i) (ts_attempts s))"

definition findOpenAttemptForSession :: "ident \<Rightarrow> turn_store \<Rightarrow> turn_attempt option" where
  "findOpenAttemptForSession sid s =
     map_option at_attempt (find (\<lambda>r. a_sessionId (at_attempt r) = sid \<and> row_open r) (ts_attempts s))"

text \<open>The last row in ascending order is the first one in descending order with ties in \<open>rowid\<close> order reversed.\<close>

definition findLatestAttemptForTask :: "ident option \<Rightarrow> ident \<Rightarrow> turn_store \<Rightarrow> turn_attempt option" where
  "findLatestAttemptForTask meshId taskId s =
     (let rows = filter (\<lambda>r. a_taskId (at_attempt r) = Some taskId
             \<and> (truthy meshId \<longrightarrow> a_meshId (at_attempt r) = meshId)) (ts_attempts s)
      in case rev (sort_key (\<lambda>r. (a_attemptNo (at_attempt r), at_createdAt r)) rows) of
           [] \<Rightarrow> None | r # _ \<Rightarrow> Some (at_attempt r))"

definition listOpenAttempts :: "ident option \<Rightarrow> ident option \<Rightarrow> turn_store \<Rightarrow> turn_attempt list" where
  "listOpenAttempts meshId owner s =
     map at_attempt (sort_key (\<lambda>r. a_acceptedAt (at_attempt r)) (filter (\<lambda>r. row_open r
        \<and> (truthy meshId \<longrightarrow> a_meshId (at_attempt r) = meshId)
        \<and> (truthy owner \<longrightarrow> Some (a_ownerDaemonId (at_attempt r)) = owner)) (ts_attempts s)))"

definition isTerminal :: "ident \<Rightarrow> turn_store \<Rightarrow> bool option" where
  "isTerminal i s = map_option (\<lambda>a. a_terminal a \<noteq> None) (getAttempt i s)"

definition sessionIdForAttempt :: "ident \<Rightarrow> turn_store \<Rightarrow> ident" where
  "sessionIdForAttempt i s = (case getAttempt i s of Some a \<Rightarrow> a_sessionId a | None \<Rightarrow> [])"

text \<open>The partial unique indexes; \<open>NULL\<close> columns never clash.\<close>

definition task_clash :: "turn_attempt \<Rightarrow> attempt_row \<Rightarrow> bool" where
  "task_clash a r \<longleftrightarrow> row_id r \<noteq> a_attemptId a \<and> a_taskId a \<noteq> None \<and> a_meshId a \<noteq> None
     \<and> a_taskId (at_attempt r) = a_taskId a \<and> a_meshId (at_attempt r) = a_meshId a
     \<and> a_attemptNo (at_attempt r) = a_attemptNo a"

definition session_clash :: "turn_attempt \<Rightarrow> attempt_row \<Rightarrow> bool" where
  "session_clash a r \<longleftrightarrow> row_id r \<noteq> a_attemptId a \<and> a_terminal a = None \<and> row_open r
     \<and> a_sessionId (at_attempt r) = a_sessionId a"

definition put_attempt :: "turn_attempt \<Rightarrow> ms \<Rightarrow> attempt_row list \<Rightarrow> attempt_row list" where
  "put_attempt a now rows =
     (if \<exists>r\<in>set rows. row_id r = a_attemptId a
      then map (\<lambda>r. if row_id r = a_attemptId a then r\<lparr>at_attempt := a, at_updatedAt := now\<rparr> else r) rows
      else rows @ [\<lparr>at_attempt = a, at_lastProbeAt = None, at_createdAt = now, at_updatedAt = now\<rparr>])"

definition upsertAttempt :: "turn_attempt \<Rightarrow> ms \<Rightarrow> turn_store \<Rightarrow> store_index + turn_store" where
  "upsertAttempt a now s =
     (if \<exists>r\<in>set (ts_attempts s). task_clash a r then Inl Ux_turn_attempts_task
      else if \<exists>r\<in>set (ts_attempts s). session_clash a r then Inl Ux_turn_attempts_open_session
      else Inr (s\<lparr>ts_attempts := put_attempt a now (ts_attempts s)\<rparr>))"

definition markProbed :: "ident \<Rightarrow> ms \<Rightarrow> turn_store \<Rightarrow> turn_store" where
  "markProbed i now s = s\<lparr>ts_attempts :=
     map (\<lambda>r. if row_id r = i then r\<lparr>at_lastProbeAt := Some now, at_updatedAt := now\<rparr> else r) (ts_attempts s)\<rparr>"

text \<open>Retention deletes an attempt with its events and holds.\<close>

definition drop_attempts :: "ident list \<Rightarrow> turn_store \<Rightarrow> turn_store" where
  "drop_attempts ids s = \<lparr>ts_attempts = filter (\<lambda>r. row_id r \<notin> set ids) (ts_attempts s),
     ts_events = filter (\<lambda>e. \<forall>i\<in>set ids. er_attemptId e \<noteq> Some i) (ts_events s),
     ts_holds = filter (\<lambda>h. h_attemptId (hr_hold h) \<notin> set ids) (ts_holds s)\<rparr>"

definition ended_before :: "ms \<Rightarrow> attempt_row \<Rightarrow> bool" where
  "ended_before cutoff r = (case a_terminal (at_attempt r) of Some t \<Rightarrow> tt_at t < cutoff | None \<Rightarrow> False)"

definition pruneTerminalPlainAttempts :: "ms \<Rightarrow> ms \<Rightarrow> turn_store \<Rightarrow> turn_store" where
  "pruneTerminalPlainAttempts olderThanMs now s =
     drop_attempts (map row_id (filter (\<lambda>r. a_scope (at_attempt r) = Plain \<and> ended_before (now - olderThanMs) r) (ts_attempts s))) s"

definition newer_in_session :: "attempt_row \<Rightarrow> attempt_row \<Rightarrow> bool" where
  "newer_in_session r q \<longleftrightarrow> a_sessionId (at_attempt q) = a_sessionId (at_attempt r) \<and> row_id q \<noteq> row_id r
     \<and> (at_updatedAt q > at_updatedAt r
        \<or> at_updatedAt q = at_updatedAt r \<and> a_attemptNo (at_attempt q) > a_attemptNo (at_attempt r))"

text \<open>Rows of the worker's handoff index, which keep an attempt alive, are not written by the modelled code.\<close>

definition pruneTerminalMeshAttempts :: "ms \<Rightarrow> ms \<Rightarrow> turn_store \<Rightarrow> turn_store" where
  "pruneTerminalMeshAttempts olderThanMs now s =
     drop_attempts (map row_id (filter (\<lambda>r. a_scope (at_attempt r) \<noteq> Plain \<and> ended_before (now - olderThanMs) r
        \<and> (\<exists>q\<in>set (ts_attempts s). newer_in_session r q)) (ts_attempts s))) s"

section \<open>Holds\<close>

definition activeHolds :: "ident \<Rightarrow> turn_store \<Rightarrow> turn_hold list" where
  "activeHolds i s = sort_key h_holdId (map hr_hold (filter (\<lambda>h. h_attemptId (hr_hold h) = i \<and> hr_active h) (ts_holds s)))"

definition resolve_holds :: "ident \<Rightarrow> ident list \<Rightarrow> ms \<Rightarrow> hold_row list \<Rightarrow> hold_row list" where
  "resolve_holds i keep now = map (\<lambda>h.
     if h_attemptId (hr_hold h) = i \<and> hr_active h \<and> h_holdId (hr_hold h) \<notin> set keep
     then h\<lparr>hr_active := False, hr_resolvedAt := Some now\<rparr> else h)"

definition put_hold :: "hold_row list \<Rightarrow> turn_hold \<Rightarrow> hold_row list" where
  "put_hold rows h =
     (let row = \<lparr>hr_hold = h, hr_active = True, hr_resolvedAt = None\<rparr>
      in if \<exists>r\<in>set rows. h_holdId (hr_hold r) = h_holdId h
         then map (\<lambda>r. if h_holdId (hr_hold r) = h_holdId h then row else r) rows
         else rows @ [row])"

definition syncHolds :: "ident \<Rightarrow> turn_hold list \<Rightarrow> ms \<Rightarrow> turn_store \<Rightarrow> turn_store" where
  "syncHolds i holds now s =
     s\<lparr>ts_holds := foldl put_hold (resolve_holds i (map h_holdId holds) now (ts_holds s)) holds\<rparr>"

definition owner_scope :: "ident \<Rightarrow> turn_store \<Rightarrow> ident list" where
  "owner_scope owner s =
     (let ids = filter (\<lambda>d. daemonIdsEquivalent (Some d) (Some owner)) (map (a_ownerDaemonId \<circ> at_attempt) (filter row_open (ts_attempts s)))
      in map row_id (filter (\<lambda>r. row_open r \<and> a_ownerDaemonId (at_attempt r) \<in> set ids) (ts_attempts s)))"

definition dueHolds :: "ms \<Rightarrow> nat \<Rightarrow> ident \<Rightarrow> turn_store \<Rightarrow> turn_hold list" where
  "dueHolds now limit owner s =
     take limit (sort_key expiry_key (filter (\<lambda>h. hold_due now h \<and> h_attemptId h \<in> set (owner_scope owner s))
       (map hr_hold (filter hr_active (ts_holds s)))))"

definition nextHoldDeadline :: "ident \<Rightarrow> ms option \<Rightarrow> turn_store \<Rightarrow> ms option" where
  "nextHoldDeadline owner afterMs s =
     (case filter (\<lambda>t. case afterMs of None \<Rightarrow> True | Some x \<Rightarrow> t > x) (sort (List.map_filter (\<lambda>r. if hr_active r \<and> h_attemptId (hr_hold r) \<in> set (owner_scope owner s) then h_until (hr_hold r) else None) (ts_holds s))) of
        [] \<Rightarrow> None | t # _ \<Rightarrow> Some t)"

section \<open>Events\<close>

definition hasEvent :: "ident \<Rightarrow> turn_store \<Rightarrow> bool" where
  "hasEvent i s \<longleftrightarrow> (\<exists>e\<in>set (ts_events s). er_eventId e = i)"

definition getEvent :: "ident \<Rightarrow> turn_store \<Rightarrow> turn_event_row option" where
  "getEvent i s = find (\<lambda>e. er_eventId e = i) (ts_events s)"

definition row_clash :: "turn_event_row \<Rightarrow> turn_event_row \<Rightarrow> bool" where
  "row_clash r e \<longleftrightarrow> er_eventId e = er_eventId r
     \<or> er_attemptId r \<noteq> None \<and> er_generation r \<noteq> None \<and> er_attemptId e = er_attemptId r
        \<and> er_generation e = er_generation r \<and> er_kind e = er_kind r \<and> er_dedupeKey e = er_dedupeKey r"

definition insertEvent :: "turn_event_row \<Rightarrow> turn_store \<Rightarrow> bool \<times> turn_store" where
  "insertEvent r s =
     (if \<exists>e\<in>set (ts_events s). row_clash r e then (False, s)
      else (True, s\<lparr>ts_events := ts_events s @ [r\<lparr>er_publishedSeq := None\<rparr>]\<rparr>))"

text \<open>
  The semantic identity of a benign probe sample: everything but its id and its two clock readings. The
  source compares the JSON text of these parts, in the order in which the one producer writes them.
\<close>

definition sample_semantic :: "turn_evidence \<Rightarrow> turn_evidence" where
  "sample_semantic ev = ev\<lparr>ev_eventId := [], ev_at := 0,
     ev_body := (case ev_body ev of Liveness r _ \<Rightarrow> Liveness r None | b \<Rightarrow> b)\<rparr>"

record sample_key =
  sk_attemptId :: "ident option"
  sk_generation :: "int option"
  sk_sessionId :: ident
  sk_observedBy :: "ident option"
  sk_rule :: "string option"
  sk_fromState :: "turn_state option"
  sk_toState :: "turn_state option"
  sk_semantic :: turn_evidence
  sk_notes :: "string list"

definition benign_result :: "turn_evidence \<Rightarrow> bool" where
  "benign_result ev = (case ev_body ev of Liveness r _ \<Rightarrow> r = L_alive \<or> r = L_unknown | _ \<Rightarrow> False)"

definition livenessSampleKey :: "turn_event_row \<Rightarrow> sample_key option" where
  "livenessSampleKey r =
     (case er_payload r of
        P_evidence p \<Rightarrow>
          if er_kind r \<noteq> RK_evidence K_liveness \<or> er_source r \<noteq> RS_evidence Src_coordinator_probe \<or> er_verdict r \<noteq> Row_applied
            \<or> er_rule r \<notin> {Some ''R32'', Some ''R32u''} \<or> er_fromState r \<noteq> er_toState r \<or> er_publishState r \<noteq> Pub_none
            \<or> er_srcWriter r \<noteq> None \<or> er_srcSeq r \<noteq> None \<or> pl_receipt p \<noteq> None \<or> pl_envelope p \<noteq> None \<or> pl_entry p \<noteq> None
            \<or> \<not> benign_result (pl_evidence p)
          then None
          else Some \<lparr>sk_attemptId = er_attemptId r, sk_generation = er_generation r, sk_sessionId = er_sessionId r,
            sk_observedBy = er_observedBy r, sk_rule = er_rule r, sk_fromState = er_fromState r, sk_toState = er_toState r,
            sk_semantic = sample_semantic (pl_evidence p), sk_notes = pl_notes p\<rparr>
      | _ \<Rightarrow> None)"

definition latest_row :: "ident \<Rightarrow> turn_store \<Rightarrow> turn_event_row option" where
  "latest_row i s =
     (case rev (sort_key er_recordedAt (filter (\<lambda>e. er_attemptId e = Some i) (ts_events s))) of [] \<Rightarrow> None | e # _ \<Rightarrow> Some e)"

definition latest_sample :: "evidence_payload \<Rightarrow> turn_evidence" where
  "latest_sample p = (case pl_samples p of Some (_, ev) \<Rightarrow> ev | None \<Rightarrow> pl_evidence p)"

definition add_sample :: "turn_evidence \<Rightarrow> turn_event_row \<Rightarrow> turn_event_row" where
  "add_sample ev r = (case er_payload r of
     P_evidence p \<Rightarrow> r\<lparr>er_payload := P_evidence (p\<lparr>pl_samples :=
        Some ((case pl_samples p of Some (n, _) \<Rightarrow> n | None \<Rightarrow> 1) + 1, ev)\<rparr>)\<rparr>
   | _ \<Rightarrow> r)"

definition recordEvidence :: "turn_event_row \<Rightarrow> turn_store \<Rightarrow> bool \<times> turn_store" where
  "recordEvidence r s =
     (case (livenessSampleKey r, er_attemptId r) of
        (Some k, Some i) \<Rightarrow>
          (case latest_row i s of
             Some q \<Rightarrow>
               (case (er_payload q, er_payload r) of
                  (P_evidence p, P_evidence new) \<Rightarrow>
                    if livenessSampleKey q \<noteq> Some k then insertEvent r s
                    else if ev_eventId (latest_sample p) = er_eventId r \<or> ev_at (latest_sample p) \<ge> er_atMs r then (False, s)
                    else (True, s\<lparr>ts_events := map (\<lambda>e. if er_eventId e = er_eventId q then add_sample (pl_evidence new) e else e) (ts_events s)\<rparr>)
                | _ \<Rightarrow> insertEvent r s)
           | None \<Rightarrow> insertEvent r s)
      | _ \<Rightarrow> insertEvent r s)"

section \<open>Publishing and delivery\<close>

definition pendingPublish :: "nat \<Rightarrow> turn_store \<Rightarrow> turn_event_row list" where
  "pendingPublish limit s = take limit (sort_key er_recordedAt (filter (\<lambda>e. er_publishState e = Pub_pending) (ts_events s)))"

definition countPendingPublish :: "ms option \<Rightarrow> turn_store \<Rightarrow> nat" where
  "countPendingPublish olderThanMs s = length (filter (\<lambda>e. er_publishState e = Pub_pending
     \<and> (case olderThanMs of None \<Rightarrow> True | Some t \<Rightarrow> er_recordedAt e < t)) (ts_events s))"

definition upd_event :: "(turn_event_row \<Rightarrow> bool) \<Rightarrow> (turn_event_row \<Rightarrow> turn_event_row) \<Rightarrow> turn_store \<Rightarrow> turn_store" where
  "upd_event P f s = s\<lparr>ts_events := map (\<lambda>e. if P e then f e else e) (ts_events s)\<rparr>"

definition markPublished :: "ident \<Rightarrow> ident \<Rightarrow> int \<Rightarrow> turn_store \<Rightarrow> turn_store" where
  "markPublished i writer sq = upd_event (\<lambda>e. er_eventId e = i \<and> er_publishState e = Pub_pending)
     (\<lambda>e. e\<lparr>er_publishState := Pub_published, er_publishedSeq := Some sq,
        er_srcWriter := (case er_srcWriter e of Some w \<Rightarrow> Some w | None \<Rightarrow> Some writer)\<rparr>)"

definition markPublishRefused :: "ident \<Rightarrow> turn_store \<Rightarrow> turn_store" where
  "markPublishRefused i = upd_event (\<lambda>e. er_eventId e = i \<and> er_publishState e = Pub_pending) (\<lambda>e. e\<lparr>er_publishState := Pub_none\<rparr>)"

definition legacyDeliveryClaimId :: "ident \<Rightarrow> int \<Rightarrow> ident" where
  "legacyDeliveryClaimId writer sq = ''delivered:'' @ writer @ '':'' @ js_int sq"

definition deliveryClaimId :: "ident option \<Rightarrow> ident \<Rightarrow> int \<Rightarrow> ident" where
  "deliveryClaimId meshId writer sq =
     (if truthy meshId then ''delivered:'' @ the meshId @ '':'' @ writer @ '':'' @ js_int sq else legacyDeliveryClaimId writer sq)"

text \<open>\<open>Number(text)\<close> of the last part is restricted to decimal integers, which is what the ids are built with.\<close>

definition int_text :: "string \<Rightarrow> int option" where
  "int_text t = (case t of
       c # r \<Rightarrow> if c = CHR ''-'' then (if r \<noteq> [] \<and> list_all digit_char r then Some (- digits_value r) else None)
         else if list_all digit_char t then Some (digits_value t) else None
     | [] \<Rightarrow> Some 0)"

definition parseDeliveryClaimId :: "ident \<Rightarrow> (ident option \<times> ident \<times> int) option" where
  "parseDeliveryClaimId eventId =
     (if \<not> starts_with ''delivered:'' eventId then None
      else let parts = split_on CHR '':'' (drop 10 eventId) in
        case int_text (last parts) of
          None \<Rightarrow> None
        | Some sq \<Rightarrow>
            if length parts < 2 \<or> \<bar>sq\<bar> \<ge> TWO_53 then None
            else if length parts = 2 then Some (None, parts ! 0, sq)
            else Some (Some (parts ! 0), join_with '':'' (butlast (tl parts)), sq))"

definition isDeliveryClaimed :: "ident \<Rightarrow> ident \<Rightarrow> int \<Rightarrow> turn_store \<Rightarrow> bool" where
  "isDeliveryClaimed meshId writer sq s \<longleftrightarrow> (\<exists>e\<in>set (ts_events s). er_kind e = RK_evidence K_delivered
     \<and> (er_eventId e = deliveryClaimId (Some meshId) writer sq
        \<or> er_eventId e = legacyDeliveryClaimId writer sq \<and> er_meshId e = Some meshId))"

definition claim_covered :: "turn_store \<Rightarrow> turn_event_row \<Rightarrow> bool" where
  "claim_covered s n = (case (er_meshId n, er_srcWriter n, er_publishedSeq n) of
     (Some m, Some w, Some sq) \<Rightarrow> (\<exists>d\<in>set (ts_events s). er_kind d = RK_evidence K_delivered
        \<and> (er_eventId d = ''delivered:'' @ m @ '':'' @ w @ '':'' @ js_int sq
           \<or> er_eventId d = ''delivered:'' @ w @ '':'' @ js_int sq \<and> er_meshId d = Some m))
   | _ \<Rightarrow> False)"

definition undelivered :: "ident \<Rightarrow> ms \<Rightarrow> turn_store \<Rightarrow> turn_event_row \<Rightarrow> bool" where
  "undelivered meshId sinceMs s n \<longleftrightarrow> er_kind n = RK_notify \<and> er_meshId n = Some meshId
     \<and> er_publishState n = Pub_published \<and> er_recordedAt n \<ge> sinceMs \<and> \<not> claim_covered s n"

definition hasUndeliveredNotify :: "ident \<Rightarrow> ms \<Rightarrow> turn_store \<Rightarrow> bool" where
  "hasUndeliveredNotify meshId sinceMs s = list_ex (undelivered meshId sinceMs s) (ts_events s)"

definition listUndeliveredNotifies :: "ident \<Rightarrow> ms \<Rightarrow> nat \<Rightarrow> turn_store \<Rightarrow> turn_event_row list" where
  "listUndeliveredNotifies meshId sinceMs limit s =
     take limit (sort_key (\<lambda>e. case er_publishedSeq e of Some n \<Rightarrow> n | None \<Rightarrow> 0) (filter (undelivered meshId sinceMs s) (ts_events s)))"

definition releaseDeliveryClaim :: "ident \<Rightarrow> turn_store \<Rightarrow> bool \<times> turn_store" where
  "releaseDeliveryClaim claimId s =
     (if \<not> starts_with ''delivered:'' claimId then (False, s)
      else let hit = (\<lambda>e. er_eventId e = claimId \<and> er_kind e = RK_evidence K_delivered)
           in (list_ex hit (ts_events s), s\<lparr>ts_events := filter (\<lambda>e. \<not> hit e) (ts_events s)\<rparr>))"

definition findPublishedEvent :: "ident \<Rightarrow> int \<Rightarrow> ident option \<Rightarrow> turn_store \<Rightarrow> turn_event_row option" where
  "findPublishedEvent writer sq meshId s = find (\<lambda>e. er_srcWriter e = Some writer \<and> er_publishedSeq e = Some sq
     \<and> er_publishState e = Pub_published \<and> (truthy meshId \<longrightarrow> er_meshId e = meshId)) (ts_events s)"

end
