(* ===== verification/TurnEffects.thy ===== *)
theory TurnEffects
  imports TurnStore
begin

text \<open>
  From effects to rows and calls, \<open>turn-ledger/effects.ts\<close>: the derived rows of one reduction step, the writes of
  the queue host inside the transaction, and the port calls after the commit. The queue host and the ports
  belong to the caller: the host is a pair of functions on its own state, and the port calls are returned
  as a list in the order in which they are made.
\<close>

section \<open>Topic entries and derived rows\<close>

definition isPublishableAttempt :: "turn_attempt \<Rightarrow> bool" where
  "isPublishableAttempt a \<longleftrightarrow> a_scope a \<noteq> Plain \<and> truthy (a_meshId a)"

definition TERMINAL_NOTIFY :: "notify_kind list" where
  "TERMINAL_NOTIFY = [N_completed, N_blocked, N_failed, N_cancelled, N_stopped]"

fun notify_name :: "notify_kind \<Rightarrow> string" where
  "notify_name N_completed = ''completed''"
| "notify_name N_blocked = ''blocked''"
| "notify_name N_failed = ''failed''"
| "notify_name N_cancelled = ''cancelled''"
| "notify_name N_stopped = ''stopped''"
| "notify_name N_approval = ''approval''"
| "notify_name N_choice = ''choice''"
| "notify_name N_approval_resolved = ''approval_resolved''"
| "notify_name N_candidate = ''candidate''"
| "notify_name N_no_progress = ''no_progress''"
| "notify_name N_progress = ''progress''"
| "notify_name N_late_completion = ''late_completion''"
| "notify_name N_mesh_event = ''mesh_event''"

definition commitEventId :: "ident \<Rightarrow> ident" where
  "commitEventId eventId = eventId @ ''#committed''"

definition notifyEventId :: "ident \<Rightarrow> notify_kind \<Rightarrow> ident" where
  "notifyEventId eventId kind = eventId @ ''#notify:'' @ notify_name kind"

definition buildCommittedEntry :: "commit_effect \<Rightarrow> turn_attempt \<Rightarrow> ident \<Rightarrow> ms \<Rightarrow> topic_entry" where
  "buildCommittedEntry c a eventId atMs = \<lparr>tp_eventId = eventId, tp_at = atMs, tp_body = Topic_committed
     \<lparr>ce_e_attemptId = ce_attemptId c, ce_e_generation = ce_generation c, ce_e_taskId = nonempty_id (a_taskId a),
      ce_e_outcome = ce_outcome c, ce_e_strength = ce_strength c, ce_e_reason = ce_reason c\<rparr>\<rparr>"

definition buildNotifyEntry :: "notify_effect \<Rightarrow> turn_attempt \<Rightarrow> ident \<Rightarrow> ms \<Rightarrow> topic_entry" where
  "buildNotifyEntry n a eventId atMs = \<lparr>tp_eventId = eventId, tp_at = atMs, tp_body = Topic_notify
     \<lparr>ne_e_attemptId = Some (ne_attemptId n), ne_e_notify = ne_notify n,
      ne_e_targetDaemonId = or_default (ne_coordinatorDaemonId n) (a_ownerDaemonId a),
      ne_e_targetSessionId = nonempty_id (ne_coordinatorSessionId n), ne_e_taskId = nonempty_id (ne_taskId n)\<rparr>\<rparr>"

definition evidence_flags :: "turn_evidence_body \<Rightarrow> string list" where
  "evidence_flags b = (case b of
       TurnEnd e \<Rightarrow> (if te_hollow e then [''hollow''] else []) @ (if te_afterFinalizationTimeout e then [''afterFinalizationTimeout''] else [])
     | TranscriptFinal f \<Rightarrow> (if tf_nativeMarker f \<noteq> None then [''nativeMarker''] else []) @ (if tf_selfAttributing f then [''selfAttributing''] else [])
     | _ \<Rightarrow> [])"

definition projectTurnEvidenceEntry :: "turn_evidence \<Rightarrow> ident \<Rightarrow> int \<Rightarrow> ident \<Rightarrow> topic_entry" where
  "projectTurnEvidenceEntry ev attemptId gen owner = \<lparr>tp_eventId = ev_eventId ev, tp_at = ev_at ev, tp_body = Topic_evidence
     \<lparr>ee_attemptId = attemptId, ee_generation = gen, ee_ownerDaemonId = owner, ee_taskId = nonempty_id (ev_taskId ev),
      ee_sessionId = ev_sessionId ev, ee_ev = ev_kind ev,
      ee_strength = (case ev_body ev of TurnEnd e \<Rightarrow> Some (te_strength e) | _ \<Rightarrow> None),
      ee_flags = evidence_flags (ev_body ev), ee_evidence = ev\<rparr>\<rparr>"

definition base_row :: "turn_evidence \<Rightarrow> turn_attempt \<Rightarrow> ms \<Rightarrow> turn_event_row" where
  "base_row ev a now = \<lparr>er_eventId = [], er_meshId = a_meshId a, er_attemptId = Some (a_attemptId a), er_generation = None,
     er_sessionId = a_sessionId a, er_kind = RK_committed, er_source = RS_evidence (ev_source ev), er_verdict = Row_applied,
     er_rule = None, er_rejection = None, er_dedupeKey = [], er_fromState = None, er_toState = None, er_payload = P_redeliver None,
     er_observedBy = Some (ev_observedBy ev), er_srcWriter = None, er_srcSeq = None, er_publishState = Pub_none,
     er_publishedSeq = None, er_atMs = ev_at ev, er_recordedAt = now\<rparr>"

definition commit_row :: "turn_evidence \<Rightarrow> turn_attempt \<Rightarrow> ms \<Rightarrow> commit_effect \<Rightarrow> turn_event_row" where
  "commit_row ev a now c =
     (let i = commitEventId (ev_eventId ev); entry = (if isPublishableAttempt a then Some (buildCommittedEntry c a i (ev_at ev)) else None)
      in (base_row ev a now)\<lparr>er_eventId := i, er_generation := Some (ce_generation c), er_kind := RK_committed,
           er_toState := Some (outcome_state (ce_outcome c)),
           er_payload := P_committed (ce_outcome c) (ce_strength c) (ce_reason c) entry (ce_summary c),
           er_publishState := (if isPublishableAttempt a then Pub_pending else Pub_none)\<rparr>)"

definition notify_row :: "turn_evidence \<Rightarrow> turn_attempt \<Rightarrow> ms \<Rightarrow> notify_effect \<Rightarrow> turn_event_row" where
  "notify_row ev a now n =
     (let i = notifyEventId (ev_eventId ev) (ne_notify n)
      in (base_row ev a now)\<lparr>er_eventId := i, er_generation := Some (ne_generation n), er_kind := RK_notify,
           er_dedupeKey := (if ne_notify n \<in> set TERMINAL_NOTIFY then notify_name (ne_notify n)
             else notify_name (ne_notify n) @ '':'' @ ev_eventId ev),
           er_payload := P_notify (ne_notify n) (buildNotifyEntry n a i (ev_at ev)) (ne_summary n) (nonempty_id (ne_textEventId n)),
           er_publishState := Pub_pending\<rparr>)"

fun effect_row :: "turn_evidence \<Rightarrow> turn_attempt \<Rightarrow> ms \<Rightarrow> turn_effect \<Rightarrow> turn_event_row list" where
  "effect_row ev a now (E_commit c) = [commit_row ev a now c]"
| "effect_row ev a now (E_notify_coordinator n) = (if isPublishableAttempt a then [notify_row ev a now n] else [])"
| "effect_row ev a now (E_reclaim _ fromG toG reason) =
     [(base_row ev a now)\<lparr>er_eventId := ev_eventId ev @ ''#reclaim'', er_generation := Some toG, er_kind := RK_reclaim,
        er_dedupeKey := js_int fromG @ ''->'' @ js_int toG, er_payload := P_reclaim fromG toG reason\<rparr>]"
| "effect_row ev a now (E_cancel_dispatch c) =
     [(base_row ev a now)\<lparr>er_eventId := ev_eventId ev @ ''#cancel:'' @ js_int (cd_generation c) @ '':'' @ cd_sessionId c,
        er_generation := Some (cd_generation c), er_sessionId := cd_sessionId c, er_kind := RK_cancel_dispatch,
        er_dedupeKey := cd_sessionId c @ '':'' @ ev_eventId ev, er_payload := P_cancel (cd_messageId c) (cd_revokeBind c)\<rparr>]"
| "effect_row ev a now (E_redeliver _ gen messageId sid) =
     [(base_row ev a now)\<lparr>er_eventId := ev_eventId ev @ ''#redeliver'', er_generation := Some gen, er_sessionId := sid,
        er_kind := RK_redeliver, er_dedupeKey := ev_eventId ev, er_payload := P_redeliver messageId\<rparr>]"
| "effect_row ev a now _ = []"

definition effectEventRows :: "turn_evidence \<Rightarrow> turn_attempt \<Rightarrow> turn_effect list \<Rightarrow> ms \<Rightarrow> turn_event_row list" where
  "effectEventRows ev a effects now = concat (map (effect_row ev a now) effects)"

definition recordNotes :: "turn_effect list \<Rightarrow> string list" where
  "recordNotes effects = List.map_filter (\<lambda>e. case e of E_record n \<Rightarrow> Some n | _ \<Rightarrow> None) effects"

section \<open>Host writes inside the transaction\<close>

record txn_ctx =
  tc_attempt :: turn_attempt
  tc_evidence :: turn_evidence
  tc_nowMs :: ms
  tc_envelope :: "js_object option"

text \<open>Both host calls may throw, which aborts the transaction: \<open>None\<close>.\<close>

record 'h txn_host =
  th_requeue :: "ident \<Rightarrow> ident \<Rightarrow> turn_reason \<Rightarrow> txn_ctx \<Rightarrow> 'h \<Rightarrow> 'h option"
  th_taskTerminal :: "ident \<Rightarrow> ident \<Rightarrow> turn_outcome \<Rightarrow> txn_ctx \<Rightarrow> 'h \<Rightarrow> (bool \<times> 'h) option"

fun host_effect :: "'h txn_host \<Rightarrow> txn_ctx \<Rightarrow> ('h \<times> (ident \<times> ident) list) option \<Rightarrow> turn_effect \<Rightarrow> ('h \<times> (ident \<times> ident) list) option" where
  "host_effect th ctx None e = None"
| "host_effect th ctx (Some (h, tasks)) (E_queue_status m t Q_pending reason) =
     map_option (\<lambda>h'. (h', tasks)) (th_requeue th m t reason ctx h)"
| "host_effect th ctx (Some (h, tasks)) (E_task_terminal m t out) =
     map_option (\<lambda>(transitioned, h'). (h', if transitioned then tasks @ [(m, t)] else tasks)) (th_taskTerminal th m t out ctx h)"
| "host_effect th ctx (Some (h, tasks)) _ = Some (h, tasks)"

definition applyHostEffects :: "'h txn_host option \<Rightarrow> turn_effect list \<Rightarrow> txn_ctx \<Rightarrow> 'h \<Rightarrow> ('h \<times> (ident \<times> ident) list) option" where
  "applyHostEffects th effects ctx h =
     (case th of None \<Rightarrow> Some (h, []) | Some t \<Rightarrow> foldl (host_effect t ctx) (Some (h, [])) effects)"

section \<open>Calls after the commit\<close>

record cancel_request =
  cq_attemptId :: ident
  cq_generation :: int
  cq_sessionId :: ident
  cq_dispatchNonce :: "int option"
  cq_messageId :: "ident option"
  cq_meshId :: "ident option"
  cq_taskId :: "ident option"
  cq_nodeId :: "ident option"
  cq_providerType :: "ident option"
  cq_ownerDaemonId :: "ident option"
  cq_stopRequestId :: "ident option"
  cq_inspectOnly :: bool
  cq_revokeBind :: bool

datatype port_call =
    Call_bus turn_bus_event ms
  | Call_revokeWorkerBind cancel_request
  | Call_cancelDispatch cancel_request
  | Call_releaseAttemptRef ident ident
  | Call_redeliver ident int "ident option" ident "ident option" "ident option" "ident option"
  | Call_probe ident ident "ident option" "ident option"
  | Call_afterTaskTerminal ident ident

definition isUnboundPlaceholderCancel :: "cancel_request \<Rightarrow> bool" where
  "isUnboundPlaceholderCancel r \<longleftrightarrow> truthy (cq_taskId r) \<and> cq_taskId r = Some (cq_sessionId r)"

definition cancelRequest :: "cancel_dispatch_effect \<Rightarrow> turn_attempt option \<Rightarrow> cancel_request" where
  "cancelRequest c att = \<lparr>cq_attemptId = cd_attemptId c, cq_generation = cd_generation c, cq_sessionId = cd_sessionId c,
     cq_dispatchNonce = Option.bind att a_dispatchNonce, cq_messageId = cd_messageId c,
     cq_meshId = Option.bind att a_meshId, cq_taskId = Option.bind att a_taskId, cq_nodeId = Option.bind att a_nodeId,
     cq_providerType = Option.bind att a_providerType, cq_ownerDaemonId = map_option a_ownerDaemonId att,
     cq_stopRequestId = nonempty_id (cd_stopRequestId c), cq_inspectOnly = False, cq_revokeBind = cd_revokeBind c\<rparr>"

fun post_commit :: "turn_attempt option \<Rightarrow> ms \<Rightarrow> turn_effect \<Rightarrow> port_call list" where
  "post_commit att now (E_bus b) = [Call_bus b now]"
| "post_commit att now (E_cancel_dispatch c) =
     (let r = cancelRequest c att
      in (if cq_revokeBind r then [Call_revokeWorkerBind r] else [])
         @ (if isUnboundPlaceholderCancel r then [] else [Call_cancelDispatch r]))"
| "post_commit att now (E_release_attempt_ref i sid) = [Call_releaseAttemptRef i sid]"
| "post_commit att now (E_redeliver i gen messageId sid) = 
     [Call_redeliver i gen messageId sid (Option.bind att a_meshId) (Option.bind att a_taskId) (Option.bind att a_nodeId)]"
| "post_commit att now (E_probe i sid) = [Call_probe i sid (Option.bind att a_meshId) (Option.bind att a_taskId)]"
| "post_commit att now _ = []"

definition runPostCommitEffects :: "turn_effect list \<Rightarrow> turn_attempt option \<Rightarrow> ms \<Rightarrow> (ident \<times> ident) list \<Rightarrow> port_call list" where
  "runPostCommitEffects effects att now terminalTasks =
     concat (map (post_commit att now) effects) @ map (\<lambda>(m, t). Call_afterTaskTerminal m t) terminalTasks"

definition isOpenState :: "turn_state \<Rightarrow> bool" where
  "isOpenState s \<longleftrightarrow> s \<notin> {S_completed, S_blocked, S_failed, S_cancelled}"

end
