(* ===== verification/EvidenceGuard.thy ===== *)
theory EvidenceGuard
  imports TurnStore
begin

text \<open>
  The content guard of \<open>mesh-shared/src/turn-evidence.ts\<close> on evidence that already has the declared shape: closed
  vocabularies, booleans and the absence of undeclared fields hold by typing; what is left are the
  identifier slots, the clock readings and the integers. Enum slots need no check.
\<close>

text \<open>\<open>IDENTIFIER_RE\<close>: one to 256 characters, no white space and no control character.\<close>

definition control_char :: "char \<Rightarrow> bool" where
  "control_char c \<longleftrightarrow> (of_char c :: nat) < 32 \<or> (of_char c :: nat) = 127"

definition isEvidenceIdentifier :: "ident \<Rightarrow> bool" where
  "isEvidenceIdentifier s \<longleftrightarrow> 1 \<le> length s \<and> length s \<le> 256 \<and> list_all (\<lambda>c. \<not> js_space c \<and> \<not> control_char c) s"

definition isOptionalId :: "ident option \<Rightarrow> bool" where
  "isOptionalId x = (case x of None \<Rightarrow> True | Some s \<Rightarrow> isEvidenceIdentifier s)"

definition safe_int :: "int \<Rightarrow> bool" where
  "safe_int n \<longleftrightarrow> \<bar>n\<bar> < TWO_53"

definition isGeneration :: "int \<Rightarrow> bool" where
  "isGeneration n \<longleftrightarrow> safe_int n \<and> 0 \<le> n"

definition opt_ok :: "('a \<Rightarrow> bool) \<Rightarrow> 'a option \<Rightarrow> bool" where
  "opt_ok P x = (case x of None \<Rightarrow> True | Some v \<Rightarrow> P v)"

definition isSummaryRef :: "summary_ref \<Rightarrow> bool" where
  "isSummaryRef r \<longleftrightarrow> isEvidenceIdentifier (sr_topic r) \<and> isEvidenceIdentifier (sr_writer r) \<and> isGeneration (sr_seq r)"

definition isTurnAttemptRef :: "attempt_ref \<Rightarrow> bool" where
  "isTurnAttemptRef r \<longleftrightarrow> isEvidenceIdentifier (ar_attemptId r) \<and> isGeneration (ar_generation r)"

definition isNativeMarkerRef :: "native_turn_marker_ref \<Rightarrow> bool" where
  "isNativeMarkerRef m \<longleftrightarrow> isOptionalId (nm_turnId m)"

definition isCoordinatorIdentity :: "coordinator_identity \<Rightarrow> bool" where
  "isCoordinatorIdentity c \<longleftrightarrow> isEvidenceIdentifier (ci_daemonId c) \<and> isEvidenceIdentifier (ci_coordinatorRunId c)
     \<and> isOptionalId (ci_sessionId c)"

definition ms_ok :: "ms \<Rightarrow> bool" where
  "ms_ok t \<longleftrightarrow> 0 \<le> t"

fun body_ok :: "turn_evidence_body \<Rightarrow> bool" where
  "body_ok (DispatchAccepted b) \<longleftrightarrow> isEvidenceIdentifier (da_messageId b) \<and> isOptionalId (da_meshId b)
     \<and> isOptionalId (da_nodeId b) \<and> isOptionalId (da_providerType b) \<and> opt_ok safe_int (da_attemptNo b)
     \<and> opt_ok safe_int (da_dispatchNonce b) \<and> opt_ok safe_int (da_maxTaskRetries b)
     \<and> opt_ok isCoordinatorIdentity (da_coordinator b)"
| "body_ok (Delivered messageId _ _) \<longleftrightarrow> isEvidenceIdentifier messageId"
| "body_ok (DeliveryRefused messageId _) \<longleftrightarrow> isEvidenceIdentifier messageId"
| "body_ok (DispatchFailed _ _ code) \<longleftrightarrow> isOptionalId code"
| "body_ok (DuplicateDispatchRefusal sid i) \<longleftrightarrow> isEvidenceIdentifier sid \<and> isOptionalId i"
| "body_ok (SessionRebound sid _) \<longleftrightarrow> isEvidenceIdentifier sid"
| "body_ok (TurnStarted _) \<longleftrightarrow> True"
| "body_ok (Suspension _ key _ _) \<longleftrightarrow> isOptionalId key"
| "body_ok (SuspensionResolved _ _ key) \<longleftrightarrow> isOptionalId key"
| "body_ok (TurnEnd b) \<longleftrightarrow> opt_ok isSummaryRef (te_summary b) \<and> opt_ok isNativeMarkerRef (te_nativeMarker b)"
| "body_ok (TranscriptFinal b) \<longleftrightarrow> opt_ok isNativeMarkerRef (tf_nativeMarker b) \<and> opt_ok isSummaryRef (tf_summary b)
     \<and> opt_ok ms_ok (tf_messageAt b)"
| "body_ok (TranscriptActivity t) \<longleftrightarrow> ms_ok t"
| "body_ok (NoProgress t _ _) \<longleftrightarrow> ms_ok t"
| "body_ok (Liveness _ t) \<longleftrightarrow> opt_ok ms_ok t"
| "body_ok (ProcessExit code _) \<longleftrightarrow> opt_ok safe_int code"
| "body_ok (SessionError _) \<longleftrightarrow> True"
| "body_ok (WorkerReport b) \<longleftrightarrow> opt_ok isSummaryRef (wr_summary b) \<and> opt_ok safe_int (wr_touchedFileCount b)"
| "body_ok (WorkerReportCorrectionRequested i) \<longleftrightarrow> isOptionalId i"
| "body_ok (WorkerProgress r) \<longleftrightarrow> opt_ok isSummaryRef r"
| "body_ok (GitSideEffect _ n _) \<longleftrightarrow> safe_int n"
| "body_ok (Cancel _) \<longleftrightarrow> True"
| "body_ok (OperatorStatus _ _) \<longleftrightarrow> True"
| "body_ok (CoordinatorAck _ _) \<longleftrightarrow> True"
| "body_ok (HoldExpired i _) \<longleftrightarrow> isEvidenceIdentifier i"

definition isTurnEvidence :: "turn_evidence \<Rightarrow> bool" where
  "isTurnEvidence ev \<longleftrightarrow> isEvidenceIdentifier (ev_eventId ev) \<and> ms_ok (ev_at ev) \<and> isEvidenceIdentifier (ev_sessionId ev)
     \<and> opt_ok isTurnAttemptRef (ev_attemptRef ev) \<and> isOptionalId (ev_taskId ev) \<and> isEvidenceIdentifier (ev_observedBy ev)
     \<and> body_ok (ev_body ev)"

definition TURN_EVIDENCE_FLAGS :: "string list" where
  "TURN_EVIDENCE_FLAGS = [''hollow'', ''afterFinalizationTimeout'', ''nativeMarker'', ''selfAttributing'']"

fun entry_body_ok :: "topic_entry_body \<Rightarrow> bool" where
  "entry_body_ok (Topic_evidence e) \<longleftrightarrow> isEvidenceIdentifier (ee_attemptId e) \<and> isGeneration (ee_generation e)
     \<and> isEvidenceIdentifier (ee_ownerDaemonId e) \<and> isEvidenceIdentifier (ee_sessionId e) \<and> isOptionalId (ee_taskId e)
     \<and> list_all (\<lambda>f. f \<in> set TURN_EVIDENCE_FLAGS) (ee_flags e)
     \<and> isTurnEvidence (ee_evidence e) \<and> ev_kind (ee_evidence e) = ee_ev e"
| "entry_body_ok (Topic_committed c) \<longleftrightarrow> isEvidenceIdentifier (ce_e_attemptId c) \<and> isGeneration (ce_e_generation c)
     \<and> isOptionalId (ce_e_taskId c)"
| "entry_body_ok (Topic_notify n) \<longleftrightarrow> isOptionalId (ne_e_attemptId n) \<and> isEvidenceIdentifier (ne_e_targetDaemonId n)
     \<and> isOptionalId (ne_e_targetSessionId n) \<and> isOptionalId (ne_e_taskId n)"

definition isMeshTopicEntry :: "topic_entry \<Rightarrow> bool" where
  "isMeshTopicEntry e \<longleftrightarrow> isEvidenceIdentifier (tp_eventId e) \<and> entry_body_ok (tp_body e)"

end
