(* ===== verification/BackgroundWork.thy ===== *)
theory BackgroundWork
  imports TurnReducer
begin

text \<open>
  \<open>turn-ledger/background-work-guard.ts\<close>: when the end of a worker's turn is held back because commands that
  the worker started are still running, and the monitor that nudges the worker once and releases the hold.
  The reading of process names and of the waiting phrases (\<open>process/session-process-tree.ts\<close>) is a pair of
  functions that the definitions take as an argument.
\<close>

record text_reader =
  tx_sanitize :: "string \<Rightarrow> string"
  tx_pending :: "string \<Rightarrow> bool"

datatype incomplete_reason = Live_background_processes | Pending_background_work_text

datatype turn_end_decision = Turn_complete | Turn_incomplete incomplete_reason "string list"

definition backgroundWorkBaselineMs :: "turn_attempt \<Rightarrow> ms" where
  "backgroundWorkBaselineMs a = or_default (a_deliveredAt a) (a_acceptedAt a)"

definition has_report :: "turn_attempt \<Rightarrow> bool" where
  "has_report a = (case d_report (a_data a) of Some r \<Rightarrow> rr_generation r = a_generation a | None \<Rightarrow> False)"

definition clean_name :: "text_reader \<Rightarrow> string list \<Rightarrow> string \<Rightarrow> string list" where
  "clean_name tx names raw =
     (let clean = tx_sanitize tx raw
      in if clean \<noteq> [] \<and> clean \<noteq> ''unknown'' \<and> clean \<notin> set names then names @ [clean] else names)"

definition evaluateTurnEndBackgroundWork :: "text_reader \<Rightarrow> turn_attempt \<Rightarrow> string option \<Rightarrow> string list option \<Rightarrow> bool \<Rightarrow> turn_end_decision" where
  "evaluateTurnEndBackgroundWork tx a finalSummary processes released =
     (if a_scope a = Plain \<or> released then Turn_complete
      else if has_report a then Turn_complete
      else let names = foldl (clean_name tx) [] (or_default processes [])
           in if names \<noteq> [] then Turn_incomplete Live_background_processes names
              else if (case finalSummary of Some t \<Rightarrow> tx_pending tx t | None \<Rightarrow> False)
                then Turn_incomplete Pending_background_work_text []
              else Turn_complete)"

section \<open>The monitor\<close>

definition DEFAULT_BACKGROUND_WORK_TIMEOUT_MS :: ms where "DEFAULT_BACKGROUND_WORK_TIMEOUT_MS = 120000"
definition DEFAULT_BACKGROUND_WORK_INACTIVITY_RELEASE_MS :: ms where "DEFAULT_BACKGROUND_WORK_INACTIVITY_RELEASE_MS = 600000"
definition DEFAULT_BACKGROUND_WORK_NUDGE_GRACE_MS :: ms where "DEFAULT_BACKGROUND_WORK_NUDGE_GRACE_MS = 180000"

record monitor_limits =
  ml_timeoutMs :: ms
  ml_inactivityReleaseMs :: ms
  ml_nudgeGraceMs :: ms

definition default_limits :: monitor_limits where
  "default_limits = \<lparr>ml_timeoutMs = DEFAULT_BACKGROUND_WORK_TIMEOUT_MS,
     ml_inactivityReleaseMs = DEFAULT_BACKGROUND_WORK_INACTIVITY_RELEASE_MS,
     ml_nudgeGraceMs = DEFAULT_BACKGROUND_WORK_NUDGE_GRACE_MS\<rparr>"

datatype bg_resolution = Nudged_after_exit | No_results | Released_unfinished
datatype cpu_activity = Cpu_active | Cpu_idle | Cpu_unknown

record tracked_entry =
  tk_attemptId :: ident
  tk_generation :: int
  tk_sessionId :: ident
  tk_firstObservedAt :: ms
  tk_initialReason :: incomplete_reason
  tk_lastLive :: "string list"
  tk_nudgedAt :: "ms option"
  tk_timeoutNotifiedAt :: "ms option"
  tk_lastActivityAt :: ms
  tk_lastOutputSeenAt :: "ms option"
  tk_releasedAt :: "ms option"
  tk_resolution :: "bg_resolution option"

record bg_input =
  bi_attempt :: turn_attempt
  bi_nowMs :: ms
  bi_status :: string
  bi_finalSummary :: "string option"
  bi_finalAssistantAt :: "ms option"
  bi_processes :: "string list option"
  bi_processesKnown :: bool
  bi_cpuActivity :: cpu_activity
  bi_cpuObservedAtMs :: "ms option"
  bi_outputAtMs :: "ms option"

datatype bg_call = Notice_still_running ident | Notice_no_report ident | Nudge ident int

record bg_result =
  br_holdTurnEnd :: bool
  br_nudgedWorker :: bool
  br_emittedNotice :: bool
  br_resolution :: "bg_resolution option"

type_synonym bg_entries = "(ident \<times> tracked_entry) list"

definition NOT_HELD :: bg_result where
  "NOT_HELD = \<lparr>br_holdTurnEnd = False, br_nudgedWorker = False, br_emittedNotice = False, br_resolution = None\<rparr>"

definition MAX_ENTRIES :: nat where "MAX_ENTRIES = 256"

definition boundEntries :: "bg_entries \<Rightarrow> bg_entries" where
  "boundEntries es =
     (if length es \<le> MAX_ENTRIES then es
      else let oldest = sort_key tk_firstObservedAt (map snd es)
           in fold (\<lambda>e. AList.delete (tk_attemptId e)) (take (length es - MAX_ENTRIES) oldest) es)"

definition note_cpu :: "bg_input \<Rightarrow> tracked_entry \<Rightarrow> tracked_entry" where
  "note_cpu i e =
     (if bi_cpuActivity i = Cpu_active
      then e\<lparr>tk_lastActivityAt := max (tk_lastActivityAt e) (min (or_default (bi_cpuObservedAtMs i) (bi_nowMs i)) (bi_nowMs i))\<rparr>
      else e)"

definition note_output :: "bg_input \<Rightarrow> tracked_entry \<Rightarrow> tracked_entry" where
  "note_output i e =
     (case bi_outputAtMs i of
        None \<Rightarrow> e
      | Some out \<Rightarrow>
          (let e' = (case tk_lastOutputSeenAt e of
                 Some seen \<Rightarrow> if out > seen then e\<lparr>tk_lastActivityAt := max (tk_lastActivityAt e) (min out (bi_nowMs i))\<rparr> else e
               | None \<Rightarrow> e)
           in e'\<lparr>tk_lastOutputSeenAt := Some (max (or_default (tk_lastOutputSeenAt e) 0) out)\<rparr>))"

definition noteActivity :: "bg_input \<Rightarrow> tracked_entry \<Rightarrow> tracked_entry" where
  "noteActivity i e = note_output i (note_cpu i e)"

definition release :: "ms \<Rightarrow> tracked_entry \<Rightarrow> tracked_entry" where
  "release now e = e\<lparr>tk_releasedAt := Some now, tk_resolution := Some Released_unfinished\<rparr>"

definition idle_status :: "string \<Rightarrow> bool" where
  "idle_status s \<longleftrightarrow> js_lower (js_trim s) = ''idle''"

definition turn_ended_at :: "bg_input \<Rightarrow> ms" where
  "turn_ended_at i =
     (case bi_finalAssistantAt i of
        Some t \<Rightarrow> if t \<ge> backgroundWorkBaselineMs (bi_attempt i) \<and> t \<le> bi_nowMs i then t else bi_nowMs i
      | None \<Rightarrow> bi_nowMs i)"

definition new_entry :: "bg_input \<Rightarrow> incomplete_reason \<Rightarrow> string list \<Rightarrow> tracked_entry" where
  "new_entry i reason names = \<lparr>tk_attemptId = a_attemptId (bi_attempt i), tk_generation = a_generation (bi_attempt i),
     tk_sessionId = a_sessionId (bi_attempt i), tk_firstObservedAt = turn_ended_at i, tk_initialReason = reason,
     tk_lastLive = names, tk_nudgedAt = None, tk_timeoutNotifiedAt = None, tk_lastActivityAt = bi_nowMs i,
     tk_lastOutputSeenAt = bi_outputAtMs i, tk_releasedAt = None, tk_resolution = None\<rparr>"

text \<open>
  What is left once the entry of the observation is known: live processes, the one nudge, a real answer after
  it, or the release after the grace period. The result is the entry to store (\<open>None\<close>: deleted).
\<close>

definition live_names :: "bg_input \<Rightarrow> tracked_entry option \<Rightarrow> turn_end_decision \<Rightarrow> string list" where
  "live_names i cur d =
     (let names = (case d of Turn_incomplete _ ns \<Rightarrow> ns | Turn_complete \<Rightarrow> [])
      in case cur of
           Some e \<Rightarrow> if \<not> bi_processesKnown i \<and> tk_nudgedAt e = None \<and> names = [] \<and> tk_lastLive e \<noteq> [] then tk_lastLive e else names
         | None \<Rightarrow> names)"

definition settle_live :: "monitor_limits \<Rightarrow> bg_input \<Rightarrow> tracked_entry \<Rightarrow> tracked_entry \<times> bg_result \<times> bg_call list" where
  "settle_live ml i e =
     (let due = bi_nowMs i - tk_firstObservedAt e \<ge> ml_timeoutMs ml \<and> tk_timeoutNotifiedAt e = None;
          e1 = (if due then e\<lparr>tk_resolution := Some No_results, tk_timeoutNotifiedAt := Some (bi_nowMs i)\<rparr> else e);
          calls = (if due then [Notice_still_running (tk_attemptId e)] else [])
      in if bi_nowMs i - tk_lastActivityAt e1 \<ge> ml_inactivityReleaseMs ml
         then (release (bi_nowMs i) e1, NOT_HELD\<lparr>br_emittedNotice := due, br_resolution := Some Released_unfinished\<rparr>, calls)
         else (e1, \<lparr>br_holdTurnEnd = True, br_nudgedWorker = False, br_emittedNotice = due, br_resolution = tk_resolution e1\<rparr>, calls))"

definition answered :: "text_reader \<Rightarrow> bg_input \<Rightarrow> turn_end_decision \<Rightarrow> ms \<Rightarrow> bool" where
  "answered tx i d nudged \<longleftrightarrow> d = Turn_complete \<and> idle_status (bi_status i)
     \<and> (case bi_finalAssistantAt i of Some t \<Rightarrow> t > nudged | None \<Rightarrow> False)
     \<and> (case bi_finalSummary i of Some s \<Rightarrow> js_trim s \<noteq> [] \<and> \<not> tx_pending tx s | None \<Rightarrow> False)"

definition settle_quiet :: "text_reader \<Rightarrow> monitor_limits \<Rightarrow> bg_input \<Rightarrow> turn_end_decision \<Rightarrow> tracked_entry \<Rightarrow> tracked_entry option \<times> bg_result \<times> bg_call list" where
  "settle_quiet tx ml i d e =
     (case tk_nudgedAt e of
        None \<Rightarrow>
          let res = (if tk_initialReason e = Pending_background_work_text then No_results else Nudged_after_exit)
          in (Some (e\<lparr>tk_nudgedAt := Some (bi_nowMs i), tk_resolution := Some res\<rparr>),
              \<lparr>br_holdTurnEnd = True, br_nudgedWorker = True, br_emittedNotice = False, br_resolution = Some res\<rparr>,
              [Nudge (tk_attemptId e) (tk_generation e)])
      | Some nudged \<Rightarrow>
          if answered tx i d nudged then (None, NOT_HELD, [])
          else if bi_nowMs i - max nudged (tk_lastActivityAt e) \<ge> ml_nudgeGraceMs ml
          then let tell = tk_timeoutNotifiedAt e = None
               in (Some (release (bi_nowMs i) (if tell then e\<lparr>tk_timeoutNotifiedAt := Some (bi_nowMs i)\<rparr> else e)),
                   NOT_HELD\<lparr>br_emittedNotice := tell, br_resolution := Some Released_unfinished\<rparr>,
                   if tell then [Notice_no_report (tk_attemptId e)] else [])
          else (Some e, \<lparr>br_holdTurnEnd = True, br_nudgedWorker = False, br_emittedNotice = False, br_resolution = tk_resolution e\<rparr>, []))"

definition settle_entry :: "text_reader \<Rightarrow> monitor_limits \<Rightarrow> bg_input \<Rightarrow> turn_end_decision \<Rightarrow> string list \<Rightarrow> tracked_entry \<Rightarrow> tracked_entry option \<times> bg_result \<times> bg_call list" where
  "settle_entry tx ml i d names e =
     (if names \<noteq> [] then (case settle_live ml i e of (e', r, cs) \<Rightarrow> (Some e', r, cs)) else settle_quiet tx ml i d e)"

definition store_entry :: "ident \<Rightarrow> tracked_entry option \<times> bg_result \<times> bg_call list \<Rightarrow> bg_entries \<Rightarrow> bg_entries \<times> bg_result \<times> bg_call list" where
  "store_entry i out es = (case out of
     (Some e, r, cs) \<Rightarrow> (if map_of es i = None then es else AList.update i e es, r, cs)
   | (None, r, cs) \<Rightarrow> (AList.delete i es, r, cs))"

definition bg_observe :: "text_reader \<Rightarrow> monitor_limits \<Rightarrow> bg_input \<Rightarrow> bg_entries \<Rightarrow> bg_entries \<times> bg_result \<times> bg_call list" where
  "bg_observe tx ml i es =
     (let a = bi_attempt i; k = a_attemptId a in
      if a_scope a = Plain \<or> isTerminalTurnState (a_state a) \<or> a_terminal a \<noteq> None \<or> has_report a
      then (AList.delete k es, NOT_HELD, [])
      else
        let existing = map_of es k;
            es1 = (case existing of Some e \<Rightarrow> if tk_generation e \<noteq> a_generation a then AList.delete k es else es | None \<Rightarrow> es)
        in if (case existing of Some e \<Rightarrow> tk_generation e = a_generation a \<and> tk_releasedAt e \<noteq> None | None \<Rightarrow> False)
           then (es1, NOT_HELD\<lparr>br_resolution := Some Released_unfinished\<rparr>, [])
           else
             let d = evaluateTurnEndBackgroundWork tx a (bi_finalSummary i) (bi_processes i) False;
                 cur = map_of es1 k; names = live_names i cur d
             in case cur of
                  None \<Rightarrow>
                    (case d of
                       Turn_complete \<Rightarrow> (es1, NOT_HELD, [])
                     | Turn_incomplete reason _ \<Rightarrow>
                         if \<not> idle_status (bi_status i) then (es1, NOT_HELD, [])
                         else store_entry k (settle_entry tx ml i d names (new_entry i reason names))
                                (boundEntries (AList.update k (new_entry i reason names) es1)))
                | Some e \<Rightarrow>
                    if \<not> idle_status (bi_status i) \<and> tk_nudgedAt e = None \<and> tk_timeoutNotifiedAt e = None
                    then (AList.delete k es1, NOT_HELD, [])
                    else store_entry k (settle_entry tx ml i d names
                           (noteActivity i (if names \<noteq> [] then e\<lparr>tk_lastLive := names\<rparr> else e))) es1)"

definition trackedAttemptIds :: "bg_entries \<Rightarrow> ident list" where
  "trackedAttemptIds es = map tk_attemptId (filter (\<lambda>e. tk_releasedAt e = None) (map snd es))"

definition isReleased :: "ident \<Rightarrow> int \<Rightarrow> bg_entries \<Rightarrow> bool" where
  "isReleased i gen es = (case map_of es i of Some e \<Rightarrow> tk_generation e = gen \<and> tk_releasedAt e \<noteq> None | None \<Rightarrow> False)"

end
