(* ===== verification/TurnLedger.thy ===== *)
theory TurnLedger
  imports TurnEffects EvidenceGuard BackgroundWork
begin

text \<open>
  The write path of the turn ledger, \<open>turn-ledger/ledger.ts\<close>: \<open>observe\<close> takes one piece of evidence, finds its
  attempt, reduces it, and writes the attempt, the holds, the evidence row, the derived rows and the queue
  changes in one transaction; an exception rolls all of it back. Then come the port calls and the
  re-observation of held evidence. The counters and the log lines are left out. One clock reading serves an
  \<open>observe\<close> and its re-observations.
\<close>

section \<open>State and inputs\<close>

record 'h ledger_deps =
  ld_selfDaemonId :: ident
  ld_policy :: turn_policy
  ld_host :: "'h txn_host option"

record observe_env =
  oe_now :: ms
  oe_inspect :: "ident \<Rightarrow> ms \<Rightarrow> string list option"
  oe_released :: "ident \<Rightarrow> int \<Rightarrow> bool"
  oe_text :: text_reader

record observe_options =
  oo_receipt :: "js_object option"
  oo_owner :: "(ident \<times> ident) option"
  oo_src :: "(ident \<times> int) option"
  oo_envelope :: "js_object option"

definition no_options :: observe_options where
  "no_options = \<lparr>oo_receipt = None, oo_owner = None, oo_src = None, oo_envelope = None\<rparr>"

record 'h ledger =
  lg_store :: turn_store
  lg_host :: 'h
  lg_confirmedStops :: "ident list"
  lg_unreachableSettles :: "(ident \<times> settled_by) list"
  lg_calls :: "port_call list"

type_synonym 'h txn = "turn_store \<times> 'h"

datatype ledger_error = Duplicate_evidence | Second_commit ident int | Index_violation store_index | Host_failure

datatype observe_verdict = Ob_applied | Ob_recorded | Ob_rejected | Ob_forwarded | Ob_duplicate
datatype observe_rejection = Invalid_evidence | Reduce_rejected reduce_rejection

record observe_result =
  ob_verdict :: observe_verdict
  ob_rule :: "string option"
  ob_rejection :: "observe_rejection option"
  ob_attempt :: "turn_attempt option"
  ob_effects :: "turn_effect list"

definition plain_result :: "observe_verdict \<Rightarrow> observe_rejection option \<Rightarrow> observe_result" where
  "plain_result v rej = \<lparr>ob_verdict = v, ob_rule = None, ob_rejection = rej, ob_attempt = None, ob_effects = []\<rparr>"

record ledger_step_out =
  so_evidence :: turn_evidence
  so_result :: reduce_result
  so_terminalTasks :: "(ident \<times> ident) list"

section \<open>Finding the attempt\<close>

text \<open>\<open>lastIndexOf(':')\<close>: everything before the last colon, unless that is the first character or there is none.\<close>

definition holdAttemptId :: "ident \<Rightarrow> ident" where
  "holdAttemptId h =
     (let tail = takeWhile (\<lambda>c. c \<noteq> CHR '':'') (rev h); pos = int (length h) - int (length tail) - 1
      in if pos > 0 then take (nat pos) h else h)"

definition resolveAttempt :: "turn_evidence \<Rightarrow> turn_store \<Rightarrow> turn_attempt option" where
  "resolveAttempt ev s =
     (case ev_attemptRef ev of
        Some r \<Rightarrow> getAttempt (ar_attemptId r) s
      | None \<Rightarrow>
          (case ev_body ev of
             DispatchAccepted b \<Rightarrow> getAttempt (scope_name (da_scope b) @ '':'' @ ev_eventId ev) s
           | HoldExpired h _ \<Rightarrow> getAttempt (holdAttemptId h) s
           | _ \<Rightarrow>
               if truthy (ev_taskId ev) then findLatestAttemptForTask None (the (ev_taskId ev)) s
               else findOpenAttemptForSession (ev_sessionId ev) s))"

section \<open>One step inside the transaction\<close>

definition failed_end :: "turn_evidence_body \<Rightarrow> bool" where
  "failed_end b = (case b of
       TurnEnd e \<Rightarrow> te_providerFailure e \<noteq> None \<or> te_nativeOutcome e = Some NT_failed
     | TranscriptFinal f \<Rightarrow> (case tf_nativeMarker f of Some m \<Rightarrow> nm_outcome m = NT_failed | None \<Rightarrow> False)
     | _ \<Rightarrow> False)"

definition final_summary :: "observe_options \<Rightarrow> string option" where
  "final_summary opts = as_string (Option.bind (oo_envelope opts) (\<lambda>e. map_of e ''finalSummary''))"

definition ends_turn :: "turn_evidence \<Rightarrow> bool" where
  "ends_turn ev \<longleftrightarrow> (ev_kind ev = K_turn_end \<or> ev_kind ev = K_transcript_final) \<and> \<not> failed_end (ev_body ev)"

definition work_pending :: "observe_env \<Rightarrow> observe_options \<Rightarrow> turn_attempt option \<Rightarrow> turn_evidence \<Rightarrow> bool" where
  "work_pending env opts att ev =
     (case att of
        None \<Rightarrow> False
      | Some a \<Rightarrow> a_scope a \<noteq> Plain \<and> ends_turn ev
          \<and> (let released = oe_released env (a_attemptId a) (a_generation a)
             in evaluateTurnEndBackgroundWork (oe_text env) a (final_summary opts)
                  (if released then None else oe_inspect env (ev_sessionId ev) (backgroundWorkBaselineMs a)) released \<noteq> Turn_complete))"

definition held_back :: "turn_attempt \<Rightarrow> turn_evidence \<Rightarrow> turn_evidence" where
  "held_back a ev =
     (if a_state a = S_finalizing
      then ev\<lparr>ev_at := max (ev_at ev) (or_default (a_weakSince a) 0 + 1), ev_taskId := nonempty_id (ev_taskId ev), ev_body := TurnStarted True\<rparr>
      else ev\<lparr>ev_taskId := nonempty_id (ev_taskId ev), ev_body := Liveness L_alive (Some (ev_at ev))\<rparr>)"

definition step_evidence :: "observe_env \<Rightarrow> observe_options \<Rightarrow> turn_attempt option \<Rightarrow> turn_evidence \<Rightarrow> turn_evidence" where
  "step_evidence env opts att ev =
     (case att of Some a \<Rightarrow> if work_pending env opts att ev then held_back a ev else ev | None \<Rightarrow> ev)"

definition step_input :: "'h ledger_deps \<Rightarrow> 'h ledger \<Rightarrow> ms \<Rightarrow> turn_attempt option \<Rightarrow> turn_store \<Rightarrow> turn_evidence \<Rightarrow> reduce_input" where
  "step_input deps lg now att s ev = \<lparr>in_stopConfirmed = (ev_eventId ev \<in> set (lg_confirmedStops lg)),
     in_writerUnreachable = map_of (lg_unreachableSettles lg) (ev_eventId ev), in_attempt = att,
     in_holds = (case att of Some a \<Rightarrow> activeHolds (a_attemptId a) s | None \<Rightarrow> []), in_evidence = ev,
     in_policy = ld_policy deps, in_nowMs = now\<rparr>"

definition add_probe :: "bool \<Rightarrow> turn_attempt option \<Rightarrow> reduce_result \<Rightarrow> reduce_result" where
  "add_probe pending att r = (case att of
     Some a \<Rightarrow> if pending then r\<lparr>out_effects := out_effects r @ [E_probe (a_attemptId a) (a_sessionId a)]\<rparr> else r
   | None \<Rightarrow> r)"

definition opens :: "turn_attempt option \<Rightarrow> reduce_result \<Rightarrow> bool" where
  "opens att r \<longleftrightarrow> att = None \<and> out_attempt r \<noteq> None \<and> out_verdict r = V_applied"

definition own_opened :: "ident \<Rightarrow> turn_attempt option \<Rightarrow> reduce_result \<Rightarrow> reduce_result" where
  "own_opened self att r =
     (if opens att r then r\<lparr>out_attempt := map_option (\<lambda>a. a\<lparr>a_ownerDaemonId := self\<rparr>) (out_attempt r)\<rparr> else r)"

fun is_cancel_dispatch :: "turn_effect \<Rightarrow> bool" where
  "is_cancel_dispatch (E_cancel_dispatch _) = True"
| "is_cancel_dispatch _ = False"

definition drop_cancels :: "reduce_result \<Rightarrow> reduce_result" where
  "drop_cancels r = r\<lparr>out_effects := filter (\<lambda>e. \<not> is_cancel_dispatch e) (out_effects r)\<rparr>"

definition step_result :: "'h ledger_deps \<Rightarrow> observe_env \<Rightarrow> observe_options \<Rightarrow> 'h ledger \<Rightarrow> bool \<Rightarrow> turn_evidence \<Rightarrow> turn_attempt option \<Rightarrow> turn_store \<Rightarrow> reduce_result" where
  "step_result deps env opts lg nested ev att s =
     (let r = own_opened (ld_selfDaemonId deps) att (add_probe (work_pending env opts att ev) att
            (reduce (step_input deps lg (oe_now env) att s (step_evidence env opts att ev))))
      in if nested then drop_cancels r else r)"

definition moves :: "turn_attempt option \<Rightarrow> reduce_result \<Rightarrow> bool" where
  "moves att r = (case (att, out_attempt r) of
     (Some a, Some n) \<Rightarrow> out_verdict r = V_applied \<and> a_terminal n = None \<and> a_sessionId n \<noteq> a_sessionId a
   | _ \<Rightarrow> False)"

definition conflicting :: "turn_attempt option \<Rightarrow> reduce_result \<Rightarrow> turn_store \<Rightarrow> turn_attempt option" where
  "conflicting att r s =
     (case out_attempt r of
        Some n \<Rightarrow>
          if opens att r \<or> moves att r
          then (case findOpenAttemptForSession (a_sessionId n) s of
                  Some c \<Rightarrow> if a_attemptId c \<noteq> a_attemptId n then Some c else None
                | None \<Rightarrow> None)
          else None
      | None \<Rightarrow> None)"

definition supersede :: "turn_evidence \<Rightarrow> turn_attempt \<Rightarrow> turn_evidence" where
  "supersede ev c = \<lparr>ev_eventId = ev_eventId ev @ ''#supersede:'' @ a_attemptId c, ev_at = ev_at ev, ev_source = Src_dispatch,
     ev_sessionId = a_sessionId c, ev_attemptRef = Some \<lparr>ar_attemptId = a_attemptId c, ar_generation = a_generation c\<rparr>,
     ev_taskId = None, ev_observedBy = ev_observedBy ev, ev_body = Cancel CR_superseded\<rparr>"

definition conflict_result :: reduce_result where
  "conflict_result = \<lparr>out_attempt = None, out_holds = [], out_effects = [E_record ''open_attempt_conflict''],
     out_verdict = V_rejected, out_rule = None, out_rejection = Some Rej_illegal_transition\<rparr>"

fun row_verdict_of :: "reduce_verdict \<Rightarrow> row_verdict" where
  "row_verdict_of V_applied = Row_applied"
| "row_verdict_of V_recorded = Row_recorded"
| "row_verdict_of V_rejected = Row_rejected"

definition first_of :: "'a option \<Rightarrow> 'a option \<Rightarrow> 'a option" where
  "first_of x y = (case x of Some v \<Rightarrow> Some v | None \<Rightarrow> y)"

definition evidenceRow :: "turn_evidence \<Rightarrow> row_verdict \<Rightarrow> string option \<Rightarrow> reduce_rejection option \<Rightarrow> turn_state option \<Rightarrow> turn_state option
    \<Rightarrow> turn_attempt option \<Rightarrow> string list \<Rightarrow> ms \<Rightarrow> observe_options \<Rightarrow> (ident \<times> topic_entry) option \<Rightarrow> turn_event_row" where
  "evidenceRow ev verdict ruleId rejection fromS toS att notes now opts publish = \<lparr>
     er_eventId = ev_eventId ev,
     er_meshId = first_of (map_option fst publish) (first_of (Option.bind att a_meshId) (map_option snd (oo_owner opts))),
     er_attemptId = first_of (map_option a_attemptId att) (map_option ar_attemptId (ev_attemptRef ev)),
     er_generation = first_of (map_option a_generation att) (map_option ar_generation (ev_attemptRef ev)),
     er_sessionId = ev_sessionId ev, er_kind = RK_evidence (ev_kind ev), er_source = RS_evidence (ev_source ev),
     er_verdict = verdict, er_rule = ruleId, er_rejection = rejection, er_dedupeKey = ev_eventId ev,
     er_fromState = fromS, er_toState = toS,
     er_payload = P_evidence \<lparr>pl_evidence = ev, pl_receipt = oo_receipt opts, pl_notes = notes, pl_envelope = oo_envelope opts,
       pl_entry = map_option snd publish, pl_samples = None\<rparr>,
     er_observedBy = Some (ev_observedBy ev), er_srcWriter = map_option fst (oo_src opts), er_srcSeq = map_option snd (oo_src opts),
     er_publishState = (if publish = None then Pub_none else Pub_pending), er_publishedSeq = None,
     er_atMs = ev_at ev, er_recordedAt = now\<rparr>"

definition step_row :: "observe_env \<Rightarrow> observe_options \<Rightarrow> turn_evidence \<Rightarrow> turn_attempt option \<Rightarrow> reduce_result \<Rightarrow> turn_event_row" where
  "step_row env opts ev att r =
     evidenceRow ev (row_verdict_of (out_verdict r)) (out_rule r) (out_rejection r) (map_option a_state att)
       (map_option a_state (out_attempt r)) (first_of (out_attempt r) att) (recordNotes (out_effects r)) (oe_now env) opts None"

definition write_attempt :: "ms \<Rightarrow> reduce_result \<Rightarrow> turn_store \<Rightarrow> ledger_error + turn_store" where
  "write_attempt now r s =
     (case (out_verdict r, out_attempt r) of
        (V_applied, Some n) \<Rightarrow>
          (case upsertAttempt n now s of
             Inl ix \<Rightarrow> Inl (Index_violation ix)
           | Inr s' \<Rightarrow> Inr (syncHolds (a_attemptId n) (out_holds r) now s'))
      | _ \<Rightarrow> Inr s)"

fun insert_rows :: "ident \<Rightarrow> turn_event_row list \<Rightarrow> turn_store \<Rightarrow> ledger_error + turn_store" where
  "insert_rows i [] s = Inr s"
| "insert_rows i (row # rows) s =
     (case insertEvent row s of
        (True, s') \<Rightarrow> insert_rows i rows s'
      | (False, s') \<Rightarrow>
          if er_kind row = RK_committed then Inl (Second_commit i (or_default (er_generation row) 0)) else insert_rows i rows s')"

definition recordedReportEnvelope :: "turn_attempt option \<Rightarrow> turn_evidence \<Rightarrow> turn_store \<Rightarrow> js_object option" where
  "recordedReportEnvelope att ev s =
     (case att of
        None \<Rightarrow> None
      | Some a \<Rightarrow>
          (case (a_terminal a, d_report (a_data a)) of
             (Some t, Some rep) \<Rightarrow>
               if ev_kind ev = K_worker_report \<or> rr_generation rep \<noteq> a_generation a \<or> tt_reason t \<noteq> Rs_worker_reported then None
               else (case map_option er_payload (getEvent (rr_eventId rep) s) of Some (P_evidence p) \<Rightarrow> pl_envelope p | _ \<Rightarrow> None)
           | _ \<Rightarrow> None))"

definition finish_step :: "'h ledger_deps \<Rightarrow> observe_env \<Rightarrow> observe_options \<Rightarrow> turn_evidence \<Rightarrow> turn_attempt option \<Rightarrow> reduce_result \<Rightarrow> 'h txn \<Rightarrow> ledger_error + ('h txn \<times> ledger_step_out)" where
  "finish_step deps env opts ev att r t =
     (case first_of (out_attempt r) att of
        None \<Rightarrow> Inr (t, \<lparr>so_evidence = ev, so_result = r, so_terminalTasks = []\<rparr>)
      | Some subject \<Rightarrow>
          if out_verdict r = V_rejected then Inr (t, \<lparr>so_evidence = ev, so_result = r, so_terminalTasks = []\<rparr>)
          else
            (case insert_rows (a_attemptId subject) (effectEventRows ev subject (out_effects r) (oe_now env)) (fst t) of
               Inl e \<Rightarrow> Inl e
             | Inr s \<Rightarrow>
                 (case (out_verdict r, out_attempt r) of
                    (V_applied, Some n) \<Rightarrow>
                      (case applyHostEffects (ld_host deps) (out_effects r) \<lparr>tc_attempt = n, tc_evidence = ev, tc_nowMs = oe_now env,
                              tc_envelope = first_of (recordedReportEnvelope (Some n) ev s) (oo_envelope opts)\<rparr> (snd t) of
                         None \<Rightarrow> Inl Host_failure
                       | Some (h, tasks) \<Rightarrow> Inr ((s, h), \<lparr>so_evidence = ev, so_result = r, so_terminalTasks = tasks\<rparr>))
                  | _ \<Rightarrow> Inr ((s, snd t), \<lparr>so_evidence = ev, so_result = r, so_terminalTasks = []\<rparr>))))"

text \<open>Attempt, holds, evidence row, derived rows, host.\<close>

definition persist :: "'h ledger_deps \<Rightarrow> observe_env \<Rightarrow> observe_options \<Rightarrow> turn_evidence \<Rightarrow> turn_attempt option \<Rightarrow> reduce_result \<Rightarrow> 'h txn \<Rightarrow> ledger_error + ('h txn \<times> ledger_step_out)" where
  "persist deps env opts ev att r t =
     (case write_attempt (oe_now env) r (fst t) of
        Inl e \<Rightarrow> Inl e
      | Inr s \<Rightarrow>
          (case recordEvidence (step_row env opts ev att r) s of
             (False, _) \<Rightarrow> Inl Duplicate_evidence
           | (True, s') \<Rightarrow> finish_step deps env opts ev att r (s', snd t)))"

definition nested_step :: "'h ledger_deps \<Rightarrow> observe_env \<Rightarrow> 'h ledger \<Rightarrow> turn_evidence \<Rightarrow> turn_attempt \<Rightarrow> 'h txn \<Rightarrow> ledger_error + ('h txn \<times> ledger_step_out)" where
  "nested_step deps env lg ev a t =
     persist deps env no_options (step_evidence env no_options (Some a) ev) (Some a)
       (step_result deps env no_options lg True ev (Some a) (fst t)) t"

definition applyStep :: "'h ledger_deps \<Rightarrow> observe_env \<Rightarrow> observe_options \<Rightarrow> 'h ledger \<Rightarrow> turn_evidence \<Rightarrow> turn_attempt option \<Rightarrow> 'h txn \<Rightarrow> ledger_error + ('h txn \<times> ledger_step_out list)" where
  "applyStep deps env opts lg ev0 att t =
     (let ev = step_evidence env opts att ev0; r = step_result deps env opts lg False ev0 att (fst t)
      in case conflicting att r (fst t) of
           None \<Rightarrow> (case persist deps env opts ev att r t of Inl e \<Rightarrow> Inl e | Inr (t', so) \<Rightarrow> Inr (t', [so]))
         | Some c \<Rightarrow>
             if a_scope c = Plain
             then (case nested_step deps env lg (supersede ev c) c t of
                     Inl e \<Rightarrow> Inl e
                   | Inr (t1, so1) \<Rightarrow> (case persist deps env opts ev att r t1 of Inl e \<Rightarrow> Inl e | Inr (t2, so2) \<Rightarrow> Inr (t2, [so1, so2])))
             else (case persist deps env opts ev att conflict_result t of Inl e \<Rightarrow> Inl e | Inr (t', so) \<Rightarrow> Inr (t', [so])))"

section \<open>Observing evidence\<close>

definition forward_row :: "turn_evidence \<Rightarrow> ident \<Rightarrow> ident \<Rightarrow> ms \<Rightarrow> observe_options \<Rightarrow> turn_event_row" where
  "forward_row ev owner meshId now opts =
     (case ev_attemptRef ev of
        None \<Rightarrow> evidenceRow ev Row_rejected None (Some Rej_no_attempt) None None None [''forward_without_attempt_ref''] now opts None
      | Some r \<Rightarrow> evidenceRow ev Row_forwarded None None None None None [] now opts
          (Some (meshId, projectTurnEvidenceEntry ev (ar_attemptId r) (ar_generation r) owner)))"

definition forward :: "turn_evidence \<Rightarrow> ident \<Rightarrow> ident \<Rightarrow> ms \<Rightarrow> observe_options \<Rightarrow> 'h ledger \<Rightarrow> 'h ledger \<times> observe_result" where
  "forward ev owner meshId now opts lg =
     (lg\<lparr>lg_store := snd (insertEvent (forward_row ev owner meshId now opts) (lg_store lg))\<rparr>,
      if ev_attemptRef ev = None then plain_result Ob_rejected (Some (Reduce_rejected Rej_no_attempt)) else plain_result Ob_forwarded None)"

text \<open>The owner to forward to, when it is known, in a mesh, and not this daemon.\<close>

definition foreign_owner :: "ident \<Rightarrow> turn_attempt option \<Rightarrow> observe_options \<Rightarrow> (ident \<times> ident) option" where
  "foreign_owner self att opts =
     (let owner = (case att of Some a \<Rightarrow> Some (a_ownerDaemonId a) | None \<Rightarrow> map_option fst (oo_owner opts));
          meshId = first_of (Option.bind att a_meshId) (map_option snd (oo_owner opts))
      in if truthy owner \<and> \<not> daemonIdsEquivalent owner (Some self) \<and> truthy meshId then Some (the owner, the meshId) else None)"

definition idle_live :: live_turn_pending where
  "idle_live = \<lparr>lv_modal = False, lv_adapterPending = False, lv_trailingTool = False, lv_newestActivityAt = None\<rparr>"

definition forceLiveFalse :: "turn_evidence \<Rightarrow> ident \<Rightarrow> turn_evidence option" where
  "forceLiveFalse ev eventId =
     (case ev_body ev of
        TranscriptFinal b \<Rightarrow> Some (ev\<lparr>ev_eventId := eventId, ev_body := TranscriptFinal (b\<lparr>tf_live := idle_live\<rparr>)\<rparr>)
      | TurnEnd b \<Rightarrow> Some (ev\<lparr>ev_eventId := eventId, ev_body := TurnEnd (b\<lparr>te_live := Some idle_live\<rparr>)\<rparr>)
      | _ \<Rightarrow> None)"

text \<open>The evidence that a \<open>reevaluate\<close> effect brings back, from the payload of the row it names.\<close>

definition held_evidence :: "turn_store \<Rightarrow> ident \<Rightarrow> turn_effect \<Rightarrow> turn_evidence option" where
  "held_evidence s cause e =
     (case e of
        E_reevaluate _ evidenceId _ \<Rightarrow>
          if evidenceId = [] then None
          else (case map_option er_payload (getEvent evidenceId s) of
                  Some (P_evidence p) \<Rightarrow>
                    if isTurnEvidence (pl_evidence p) then forceLiveFalse (pl_evidence p) (evidenceId @ ''#reeval:'' @ cause) else None
                | _ \<Rightarrow> None)
      | _ \<Rightarrow> None)"

definition step_calls :: "ms \<Rightarrow> ledger_step_out \<Rightarrow> port_call list" where
  "step_calls now so = runPostCommitEffects (out_effects (so_result so)) (out_attempt (so_result so)) now (so_terminalTasks so)"

fun verdict_of :: "reduce_verdict \<Rightarrow> observe_verdict" where
  "verdict_of V_applied = Ob_applied"
| "verdict_of V_recorded = Ob_recorded"
| "verdict_of V_rejected = Ob_rejected"

definition result_of :: "reduce_result \<Rightarrow> observe_result" where
  "result_of r = \<lparr>ob_verdict = verdict_of (out_verdict r), ob_rule = out_rule r, ob_rejection = map_option Reduce_rejected (out_rejection r),
     ob_attempt = out_attempt r, ob_effects = out_effects r\<rparr>"

text \<open>
  \<open>None\<close> is running out of fuel; an exception leaves what was committed before it.
\<close>

type_synonym 'h ledger_outcome = "('h ledger \<times> ledger_error option) option"

fun observe_all :: "(turn_evidence \<Rightarrow> 'h ledger \<Rightarrow> 'h ledger_outcome) \<Rightarrow> ident \<Rightarrow> turn_effect list \<Rightarrow> 'h ledger \<Rightarrow> 'h ledger_outcome" where
  "observe_all obs cause [] lg = Some (lg, None)"
| "observe_all obs cause (e # es) lg =
     (case held_evidence (lg_store lg) cause e of
        None \<Rightarrow> observe_all obs cause es lg
      | Some again \<Rightarrow>
          (case obs again lg of
             None \<Rightarrow> None
           | Some (lg', Some err) \<Rightarrow> Some (lg', Some err)
           | Some (lg', None) \<Rightarrow> observe_all obs cause es lg'))"

fun after_steps :: "(turn_evidence \<Rightarrow> 'h ledger \<Rightarrow> 'h ledger_outcome) \<Rightarrow> ms \<Rightarrow> ledger_step_out list \<Rightarrow> 'h ledger \<Rightarrow> 'h ledger_outcome" where
  "after_steps obs now [] lg = Some (lg, None)"
| "after_steps obs now (so # sos) lg =
     (if out_verdict (so_result so) = V_rejected then after_steps obs now sos lg
      else case observe_all obs (ev_eventId (so_evidence so)) (out_effects (so_result so))
                  (lg\<lparr>lg_calls := lg_calls lg @ step_calls now so\<rparr>) of
             None \<Rightarrow> None
           | Some (lg', Some err) \<Rightarrow> Some (lg', Some err)
           | Some (lg', None) \<Rightarrow> after_steps obs now sos lg')"

fun observe :: "nat \<Rightarrow> 'h ledger_deps \<Rightarrow> observe_env \<Rightarrow> observe_options \<Rightarrow> turn_evidence \<Rightarrow> 'h ledger \<Rightarrow> ('h ledger \<times> (ledger_error + observe_result)) option" where
  "observe 0 deps env opts ev lg = None"
| "observe (Suc n) deps env opts ev lg =
     (if \<not> isTurnEvidence ev then Some (lg, Inr (plain_result Ob_rejected (Some Invalid_evidence)))
      else if hasEvent (ev_eventId ev) (lg_store lg) then Some (lg, Inr (plain_result Ob_duplicate None))
      else
        let att = resolveAttempt ev (lg_store lg) in
        case foreign_owner (ld_selfDaemonId deps) att opts of
          Some (owner, meshId) \<Rightarrow> (case forward ev owner meshId (oe_now env) opts lg of (lg', r) \<Rightarrow> Some (lg', Inr r))
        | None \<Rightarrow>
            (case applyStep deps env opts lg ev att (lg_store lg, lg_host lg) of
               Inl Duplicate_evidence \<Rightarrow> Some (lg, Inr (plain_result Ob_duplicate None))
             | Inl err \<Rightarrow> Some (lg, Inl err)
             | Inr ((s, h), sos) \<Rightarrow>
                 (case after_steps (\<lambda>again l. map_option (\<lambda>(l', r). (l', case r of Inl err \<Rightarrow> Some err | Inr _ \<Rightarrow> None))
                            (observe n deps env opts again l)) (oe_now env) sos (lg\<lparr>lg_store := s, lg_host := h\<rparr>) of
                    None \<Rightarrow> None
                  | Some (lg', Some err) \<Rightarrow> Some (lg', Inl err)
                  | Some (lg', None) \<Rightarrow> Some (lg', Inr (result_of (so_result (last sos)))))))"

end
