(* ===== verification/LedgerStep.thy ===== *)
theory LedgerStep
  imports TurnHolds TurnLedger
begin

text \<open>
  What a reduction step hands to the store. The lemmas on \<open>reduce\<close> are collected into one predicate on the
  attempt that goes in and the result that comes out, which the adjustments that \<open>applyStep\<close> makes to the
  result (the probe, the owner, the dropped cancels) keep.
\<close>

section \<open>Results that do not apply\<close>

lemma reduce_unapplied:
  assumes a: "in_attempt i = Some a" "attempt_ok a" and v: "out_verdict (reduce i) \<noteq> V_applied"
  shows "labels (out_effects (reduce i)) = []"
proof (cases "classifyLane (in_attempt i) (in_evidence i) (in_holds i)")
  case (Lane_rejected x)
  then show ?thesis by (simp add: reduce_def rejected_def)
next
  case (In_lane lane gen)
  have st: "\<not> (a_state a = S_stopping \<and> lane = Lane_current)"
    using v In_lane a by (auto simp: reduce_def reduceStopping_def Let_def)
  show ?thesis
  proof (cases "matchingRules i")
    case Nil
    with st In_lane a show ?thesis by (auto simp: reduce_def rejected_def)
  next
    case (Cons r rs)
    then have m: "r \<in> set (matchingRules i)" by simp
    note facts = matchingRulesD[OF m In_lane]
    have red: "reduce i = apply_rule i gen r" using st In_lane a Cons by (auto simp: reduce_def)
    then have "r_verdict r \<noteq> RV_applied" using v by (auto simp: apply_rule_def Let_def)
    then consider "audit_rule r" | "ack_rule r" | "opening_rule r"
      using facts(6) by (auto simp: rule_shape_def soft_rule_def hard_rule_def)
    then show ?thesis
    proof cases
      case 1
      from audit_rule_draft[OF this, of i gen] show ?thesis
        by (auto simp: red apply_rule_def Let_def audit_step_def audit_labels)
    next
      case 2
      from ack_rule_draft[OF this a(1), of gen] show ?thesis by (simp add: red apply_rule_def Let_def)
    next
      case 3
      with facts(3) a show ?thesis by (simp add: opening_rule_def)
    qed
  qed
qed

section \<open>The identity of a new attempt\<close>

lemma table_plain_on: "list_all (\<lambda>r. opening_rule r \<longrightarrow>
    (case r_effects r of T_act Act_open_plain # _ \<Rightarrow> on_within r [K_turn_started] | _ \<Rightarrow> True)) TRANSITIONS"
  by code_simp

definition dispatch_id :: "turn_evidence \<Rightarrow> dispatch_accepted_body \<Rightarrow> ident" where
  "dispatch_id ev b = (case ev_attemptRef ev of Some r \<Rightarrow> ar_attemptId r | None \<Rightarrow> scope_name (da_scope b) @ '':'' @ ev_eventId ev)"

definition plain_id :: "turn_evidence \<Rightarrow> ident" where
  "plain_id ev = ''plain:'' @ ev_sessionId ev @ '':'' @ ev_eventId ev"

definition opened_as :: "turn_evidence \<Rightarrow> ident \<Rightarrow> bool" where
  "opened_as ev i \<longleftrightarrow> (\<exists>b. ev_body ev = DispatchAccepted b \<and> i = dispatch_id ev b)
     \<or> (\<exists>x. ev_body ev = TurnStarted x) \<and> i = plain_id ev"

lemma open_action_id:
  assumes r: "opening_rule r" "r \<in> set TRANSITIONS" "r_effects r = T_act act # ts" and k: "ev_kind (in_evidence i) \<in> set (r_on r)"
  shows "\<exists>b. dr_attempt (ACTIONS act (draft_of i gen)) = Some b \<and> opened_as (in_evidence i) (a_attemptId b)"
proof -
  have "opens_attempt act" using r by (auto simp: opening_rule_def)
  then show ?thesis
  proof (cases act)
    case Act_open_dispatch
    have "on_within r [K_dispatch_accepted]" using r(1-3) Act_open_dispatch table_open_on by (auto simp: list_all_iff)
    with k have "ev_kind (in_evidence i) = K_dispatch_accepted" by (auto dest: on_withinD)
    then obtain x where "ev_body (in_evidence i) = DispatchAccepted x" by (cases "ev_body (in_evidence i)") auto
    with Act_open_dispatch show ?thesis
      by (auto simp: act_open_dispatch_def Let_def newAttempt_def opened_as_def dispatch_id_def)
  next
    case Act_open_plain
    have "on_within r [K_turn_started]" using r(1-3) Act_open_plain table_plain_on by (auto simp: list_all_iff)
    with k have "ev_kind (in_evidence i) = K_turn_started" by (auto dest: on_withinD)
    then have "\<exists>x. ev_body (in_evidence i) = TurnStarted x" by (cases "ev_body (in_evidence i)") auto
    with Act_open_plain show ?thesis by (auto simp: newAttempt_def opened_as_def plain_id_def)
  qed auto
qed

lemma reduce_opened_as:
  assumes n: "in_attempt i = None" and o: "out_attempt (reduce i) = Some b"
  shows "opened_as (in_evidence i) (a_attemptId b)"
  using n
proof (cases rule: reduce_none_cases)
  case (opened_new r act ts c)
  let ?d = "ACTIONS act (draft_of i None)"
  from open_action_id[OF opened_new(2,3,5,4), of None] opened_new(8) have c: "opened_as (in_evidence i) (a_attemptId c)" by auto
  from soft_fold[OF opened_new(8,7)] obtain d where d: "dr_attempt (foldl (\<lambda>d t. applyTemplate t d) ?d ts) = Some d" "core d = core c"
    using opened_new(8) by (auto simp: soft_step_def)
  have "a_attemptId b = a_attemptId c"
    using o d core_eqD(1)[OF d(2)] unfolding opened_new(1,9) apply_rule_def Let_def
    by (auto simp: opened_new(9) settle_target_def split: rule_to.splits if_splits)
  with c show ?thesis by simp
qed (use n o in \<open>auto simp: rejected_def apply_rule_def Let_def audit_step_def\<close>)

section \<open>Sound results\<close>

definition step_sound :: "turn_attempt option \<Rightarrow> turn_evidence \<Rightarrow> reduce_result \<Rightarrow> bool" where
  "step_sound att ev r \<longleftrightarrow>
     (case att of
        Some a \<Rightarrow> (\<exists>n. out_attempt r = Some n \<and> party n = party a \<and> attempt_ok n
          \<and> life_step (lifecycle_of a) (labels (out_effects r)) (lifecycle_of n) \<and> holds_keyed (party a) (out_holds r))
      | None \<Rightarrow> labels (out_effects r) = [] \<and> (case out_attempt r of None \<Rightarrow> True
          | Some n \<Rightarrow> opened n \<and> opened_as ev (a_attemptId n) \<and> holds_keyed (party n) (out_holds r)))
     \<and> (out_verdict r \<noteq> V_applied \<longrightarrow> labels (out_effects r) = [])"

lemma reduce_sound:
  assumes "in_attempt i = att" "\<And>a. att = Some a \<Longrightarrow> attempt_ok a \<and> holds_keyed (party a) (in_holds i)"
    "att = None \<Longrightarrow> in_holds i = []"
  shows "step_sound att (in_evidence i) (reduce i)"
proof (cases att)
  case None
  with assms have n: "in_attempt i = None" "in_holds i = []" by simp_all
  from reduce_open[OF n(1)] reduce_keyed_open[OF n] reduce_opened_as[OF n(1)] None show ?thesis
    by (auto simp: step_sound_def open_result_def split: option.splits)
next
  case (Some a)
  with assms have a: "in_attempt i = Some a" "attempt_ok a" "holds_keyed (party a) (in_holds i)" by simp_all
  from reduce_life[OF a(1,2)] reduce_keyed[OF a(1,3)] reduce_unapplied[OF a(1,2)] Some show ?thesis
    by (auto simp: step_sound_def life_result_def)
qed

lemma labels_filter: "labels (filter (\<lambda>e. \<not> is_cancel_dispatch e) es) = labels es"
proof (induction es)
  case (Cons e es)
  then show ?case by (cases e) auto
qed simp

lemma sound_drop: "step_sound att ev r \<Longrightarrow> step_sound att ev (drop_cancels r)"
  by (cases att; cases "out_attempt r") (simp_all add: step_sound_def drop_cancels_def labels_filter)

lemma sound_probe: "step_sound att ev r \<Longrightarrow> step_sound att ev (add_probe p att r)"
  by (cases att; cases "out_attempt r") (simp_all add: step_sound_def add_probe_def)

lemma sound_own: "step_sound att ev r \<Longrightarrow> step_sound att ev (own_opened self att r)"
  by (auto simp: step_sound_def own_opened_def opens_def opened_def party_def split: option.splits)

text \<open>What the store must provide about the attempt.\<close>

definition loaded :: "turn_attempt option \<Rightarrow> turn_store \<Rightarrow> bool" where
  "loaded att s = (case att of None \<Rightarrow> True | Some a \<Rightarrow> attempt_ok a \<and> holds_keyed (party a) (activeHolds (a_attemptId a) s))"

lemma step_result_sound:
  assumes "loaded att s"
  shows "step_sound att (step_evidence env opts att ev) (step_result deps env opts lg nested ev att s)"
proof -
  let ?i = "step_input deps lg (oe_now env) att s (step_evidence env opts att ev)"
  have "step_sound att (in_evidence ?i) (reduce ?i)"
    using assms by (intro reduce_sound) (auto simp: step_input_def loaded_def)
  then show ?thesis
    by (simp add: step_result_def Let_def step_input_def sound_drop sound_own sound_probe)
qed

lemma step_result_verdict:
  "out_verdict (step_result deps env opts lg nested ev att s)
     = out_verdict (reduce (step_input deps lg (oe_now env) att s (step_evidence env opts att ev)))"
  by (simp add: step_result_def Let_def drop_cancels_def own_opened_def add_probe_def split: option.splits)

end
