(* ===== verification/LedgerInv.thy ===== *)
theory LedgerInv
  imports LedgerStep
begin

text \<open>
  The invariant of the ledger's tables: attempts are well formed, at most one is open per session, every
  hold is keyed by its attempt and reason, and the committed rows say exactly which attempts are terminal.
\<close>

section \<open>The invariant\<close>

definition attempts_ok :: "attempt_row list \<Rightarrow> bool" where
  "attempts_ok rows \<longleftrightarrow> distinct (map row_id rows) \<and> (\<forall>r\<in>set rows. attempt_ok (at_attempt r))
     \<and> (\<forall>r\<in>set rows. \<forall>q\<in>set rows. row_open r \<and> row_open q \<and> a_sessionId (at_attempt r) = a_sessionId (at_attempt q)
          \<longrightarrow> row_id r = row_id q)"

definition holds_ok :: "hold_row list \<Rightarrow> bool" where
  "holds_ok rows \<longleftrightarrow> distinct (map (h_holdId \<circ> hr_hold) rows)
     \<and> (\<forall>r\<in>set rows. h_holdId (hr_hold r) = holdId (h_attemptId (hr_hold r)) (h_reason (hr_hold r)))"

definition committed_rows :: "ident \<Rightarrow> turn_store \<Rightarrow> turn_event_row list" where
  "committed_rows i s = filter (\<lambda>e. er_kind e = RK_committed \<and> er_attemptId e = Some i) (ts_events s)"

definition commit_pair :: "turn_event_row \<Rightarrow> int option \<times> turn_state option" where
  "commit_pair e = (er_generation e, er_toState e)"

definition expected_commit :: "turn_attempt option \<Rightarrow> (int option \<times> turn_state option) list" where
  "expected_commit att = (case att of None \<Rightarrow> [] | Some a \<Rightarrow>
     (case a_terminal a of None \<Rightarrow> [] | Some t \<Rightarrow> [(Some (a_generation a), Some (outcome_state (tt_outcome t)))]))"

definition commits_ok :: "turn_store \<Rightarrow> bool" where
  "commits_ok s \<longleftrightarrow> (\<forall>i. map commit_pair (committed_rows i s) = expected_commit (getAttempt i s))
     \<and> (\<forall>e\<in>set (ts_events s). er_kind e = RK_committed \<longrightarrow> er_attemptId e \<noteq> None)"

definition store_ok :: "turn_store \<Rightarrow> bool" where
  "store_ok s \<longleftrightarrow> attempts_ok (ts_attempts s) \<and> holds_ok (ts_holds s) \<and> distinct (map er_eventId (ts_events s)) \<and> commits_ok s"

lemma store_okD:
  assumes "store_ok s"
  shows "attempts_ok (ts_attempts s)" "holds_ok (ts_holds s)" "distinct (map er_eventId (ts_events s))" "commits_ok s"
  using assms by (simp_all add: store_ok_def)

lemma new_store_ok: "store_ok new_store"
  by (simp add: store_ok_def attempts_ok_def holds_ok_def commits_ok_def committed_rows_def expected_commit_def getAttempt_def
      new_store_def)

section \<open>Attempts\<close>

lemma getAttempt_Some: "getAttempt i s = Some a \<Longrightarrow> \<exists>r\<in>set (ts_attempts s). at_attempt r = a \<and> row_id r = i"
  by (auto simp: getAttempt_def find_Some_iff)

lemma getAttempt_row:
  assumes "distinct (map row_id (ts_attempts s))" "r \<in> set (ts_attempts s)"
  shows "getAttempt (row_id r) s = Some (at_attempt r)"
proof -
  have "find (\<lambda>q. row_id q = row_id r) (ts_attempts s) = Some r"
    using assms
  proof (induction "ts_attempts s" arbitrary: s)
    case (Cons q qs)
    then show ?case using Cons(1)[of "s\<lparr>ts_attempts := qs\<rparr>"] Cons(2)[symmetric] by (auto simp: image_iff)
  qed simp
  then show ?thesis by (simp add: getAttempt_def)
qed

lemma getAttempt_None: "getAttempt i s = None \<longleftrightarrow> (\<forall>r\<in>set (ts_attempts s). row_id r \<noteq> i)"
  by (auto simp: getAttempt_def find_None_iff)

lemma find_put_attempt:
  "map_option at_attempt (find (\<lambda>r. row_id r = j) (put_attempt a now rows))
     = (if j = a_attemptId a then Some a else map_option at_attempt (find (\<lambda>r. row_id r = j) rows))"
proof -
  have upd: "map_option at_attempt (find (\<lambda>r. row_id r = j) (map (\<lambda>r. if row_id r = a_attemptId a then r\<lparr>at_attempt := a, at_updatedAt := now\<rparr> else r) rows))
     = (if j = a_attemptId a \<and> (\<exists>r\<in>set rows. row_id r = a_attemptId a) then Some a else map_option at_attempt (find (\<lambda>r. row_id r = j) rows))"
    by (induction rows) (auto split: if_splits)
  show ?thesis
  proof (cases "\<exists>r\<in>set rows. row_id r = a_attemptId a")
    case True
    then show ?thesis using upd by (simp add: put_attempt_def)
  next
    case False
    then have "find (\<lambda>r. row_id r = a_attemptId a) rows = None" by (auto simp: find_None_iff)
    moreover have "find P (rows @ [x]) = (case find P rows of Some y \<Rightarrow> Some y | None \<Rightarrow> if P x then Some x else None)" for P x
      by (induction rows) auto
    ultimately show ?thesis using False by (auto simp: put_attempt_def split: option.splits)
  qed
qed

lemma put_attempt_rows: "r \<in> set (put_attempt a now rows) \<Longrightarrow> at_attempt r = a \<or> r \<in> set rows \<and> row_id r \<noteq> a_attemptId a"
  by (auto simp: put_attempt_def split: if_splits)

lemma put_attempt_ids: "distinct (map row_id rows) \<Longrightarrow> distinct (map row_id (put_attempt a now rows))"
proof -
  assume d: "distinct (map row_id rows)"
  have "map row_id (map (\<lambda>r. if row_id r = a_attemptId a then r\<lparr>at_attempt := a, at_updatedAt := now\<rparr> else r) rows) = map row_id rows"
    by (induction rows) auto
  with d show ?thesis by (auto simp: put_attempt_def simp del: map_map)
qed

lemma attempts_ok_put:
  assumes ok: "attempts_ok rows" and a: "attempt_ok a" and c: "\<forall>r\<in>set rows. \<not> session_clash a r"
  shows "attempts_ok (put_attempt a now rows)"
proof -
  have u: "row_id r = row_id q" if "r \<in> set rows" "q \<in> set rows" "row_open r" "row_open q"
      "a_sessionId (at_attempt r) = a_sessionId (at_attempt q)" for r q
    using ok that unfolding attempts_ok_def by blast
  have cl: "row_id r = a_attemptId a" if "r \<in> set rows" "row_open r" "a_terminal a = None"
      "a_sessionId (at_attempt r) = a_sessionId a" for r
    using c that by (auto simp: session_clash_def)
  have "row_id r = row_id q"
    if rq: "r \<in> set (put_attempt a now rows)" "q \<in> set (put_attempt a now rows)" "row_open r" "row_open q"
      "a_sessionId (at_attempt r) = a_sessionId (at_attempt q)" for r q
    using put_attempt_rows[OF rq(1)] put_attempt_rows[OF rq(2)] rq(3-5) u[of r q] cl[of r] cl[of q]
    by (auto simp: row_open_def)
  moreover have "attempt_ok (at_attempt r)" if "r \<in> set (put_attempt a now rows)" for r
    using put_attempt_rows[OF that] ok a unfolding attempts_ok_def by blast
  moreover have "distinct (map row_id (put_attempt a now rows))"
    using ok unfolding attempts_ok_def by (blast intro: put_attempt_ids)
  ultimately show ?thesis unfolding attempts_ok_def by blast
qed

section \<open>Holds\<close>

lemma hold_reason_no_colon: "CHR '':'' \<notin> set (hold_reason_name r)"
  by (cases r) simp_all

lemma holdId_inj: "holdId i r = holdId j q \<longleftrightarrow> i = j \<and> r = q"
proof
  assume eq: "holdId i r = holdId j q"
  have tail: "takeWhile (\<lambda>c. c \<noteq> CHR '':'') (rev (holdId i r)) = rev (hold_reason_name r)" for i r
    using hold_reason_no_colon[of r] by (auto simp: holdId_def takeWhile_append2 takeWhile_tail)
  from tail[of i r] tail[of j q] eq have n: "hold_reason_name r = hold_reason_name q" by simp
  then have "r = q" by (cases r; cases q) simp_all
  with eq n show "i = j \<and> r = q" by (simp add: holdId_def)
qed simp

lemma holdAttemptId_holdId: "i \<noteq> [] \<Longrightarrow> holdAttemptId (holdId i r) = i"
proof -
  assume i: "i \<noteq> []"
  have tail: "takeWhile (\<lambda>c. c \<noteq> CHR '':'') (rev (holdId i r)) = rev (hold_reason_name r)"
    using hold_reason_no_colon[of r] by (auto simp: holdId_def takeWhile_append2 takeWhile_tail)
  show ?thesis unfolding holdAttemptId_def Let_def tail using i by (simp add: holdId_def)
qed

lemma put_hold_rows: "r \<in> set (put_hold rows h) \<Longrightarrow> hr_hold r = h \<or> r \<in> set rows \<and> h_holdId (hr_hold r) \<noteq> h_holdId h"
  by (auto simp: put_hold_def Let_def split: if_splits)

lemma holds_ok_put:
  assumes "holds_ok rows" "h_holdId h = holdId (h_attemptId h) (h_reason h)"
  shows "holds_ok (put_hold rows h)"
proof -
  have ids: "map (h_holdId \<circ> hr_hold) (map (\<lambda>r. if h_holdId (hr_hold r) = h_holdId h then \<lparr>hr_hold = h, hr_active = True, hr_resolvedAt = None\<rparr> else r) rows)
      = map (h_holdId \<circ> hr_hold) rows" by (induction rows) auto
  have "distinct (map (h_holdId \<circ> hr_hold) (put_hold rows h))"
    using assms(1) ids by (auto simp: put_hold_def Let_def holds_ok_def simp del: map_map)
  moreover have "h_holdId (hr_hold r) = holdId (h_attemptId (hr_hold r)) (h_reason (hr_hold r))" if "r \<in> set (put_hold rows h)" for r
    using put_hold_rows[OF that] assms by (auto simp: holds_ok_def)
  ultimately show ?thesis by (simp add: holds_ok_def)
qed

lemma holds_ok_resolve: "holds_ok rows \<Longrightarrow> holds_ok (resolve_holds i keep now rows)"
proof -
  assume ok: "holds_ok rows"
  have eq: "map hr_hold (resolve_holds i keep now rows) = map hr_hold rows" by (simp add: resolve_holds_def comp_def)
  have "map (h_holdId \<circ> hr_hold) (resolve_holds i keep now rows) = map (h_holdId \<circ> hr_hold) rows"
    using arg_cong[OF eq, of "map h_holdId"] by simp
  moreover have "hr_hold ` set (resolve_holds i keep now rows) = hr_hold ` set rows"
    using arg_cong[OF eq, of set] by simp
  ultimately show ?thesis using ok unfolding holds_ok_def by (metis (no_types, lifting) image_iff)
qed

lemma holds_ok_sync:
  assumes "holds_ok (ts_holds s)" "list_all (\<lambda>h. h_holdId h = holdId (h_attemptId h) (h_reason h)) hs"
  shows "holds_ok (ts_holds (syncHolds i hs now s))"
proof -
  have "holds_ok (foldl put_hold rows hs)" if "holds_ok rows" for rows
    using that assms(2) by (induction hs arbitrary: rows) (auto intro: holds_ok_put)
  then show ?thesis using holds_ok_resolve[OF assms(1)] by (simp add: syncHolds_def)
qed

lemma distinct_map_sort: "distinct (map f (sort_key g xs)) = distinct (map f xs)"
  by (simp add: distinct_map)

lemma activeHolds_keyed:
  assumes "holds_ok (ts_holds s)" "a_attemptId a = i"
  shows "holds_keyed (party a) (activeHolds i s)"
proof -
  let ?rows = "filter (\<lambda>h. h_attemptId (hr_hold h) = i \<and> hr_active h) (ts_holds s)"
  have "distinct (map (h_holdId \<circ> hr_hold) ?rows)" using assms(1) by (auto simp: holds_ok_def distinct_map_filter)
  then have "distinct (map h_holdId (sort_key h_holdId (map hr_hold ?rows)))"
    unfolding distinct_map_sort by simp
  then show ?thesis
    using assms by (auto simp: holds_keyed_def activeHolds_def list_all_iff keyed_def holds_ok_def)
qed

lemma keyed_holdsD: "holds_keyed w hs \<Longrightarrow> list_all (\<lambda>h. h_holdId h = holdId (h_attemptId h) (h_reason h)) hs"
  by (auto simp: holds_keyed_def keyed_def list_all_iff)

section \<open>Rows of events\<close>

abbreviation unpub :: "turn_event_row \<Rightarrow> turn_event_row" where "unpub r \<equiv> r\<lparr>er_publishedSeq := None\<rparr>"

definition is_commit :: "turn_event_row \<Rightarrow> bool" where
  "is_commit e \<longleftrightarrow> er_kind e = RK_committed"

definition commits_of :: "ident \<Rightarrow> turn_event_row list \<Rightarrow> (int option \<times> turn_state option) list" where
  "commits_of i es = map commit_pair (filter (\<lambda>e. is_commit e \<and> er_attemptId e = Some i) es)"

lemma commits_of_simps [simp]: "commits_of i [] = []" "commits_of i (es @ fs) = commits_of i es @ commits_of i fs"
  by (simp_all add: commits_of_def)

lemma committed_rows_of: "map commit_pair (committed_rows i s) = commits_of i (ts_events s)"
  by (simp add: committed_rows_def commits_of_def is_commit_def)

lemma commits_of_unpub: "commits_of i (map unpub es) = commits_of i es"
  by (simp add: commits_of_def filter_map comp_def is_commit_def commit_pair_def)

lemma insertEvent_inserted:
  "insertEvent r s = (True, s') \<Longrightarrow> s' = s\<lparr>ts_events := ts_events s @ [unpub r]\<rparr> \<and> (\<forall>e\<in>set (ts_events s). \<not> row_clash r e)"
  by (auto simp: insertEvent_def split: if_splits)

lemma insertEvent_ignored: "insertEvent r s = (False, s') \<Longrightarrow> s' = s"
  by (auto simp: insertEvent_def split: if_splits)

text \<open>A store reached by adding rows.\<close>

definition grown :: "turn_store \<Rightarrow> turn_event_row list \<Rightarrow> turn_store \<Rightarrow> bool" where
  "grown s ins s' \<longleftrightarrow> s' = s\<lparr>ts_events := ts_events s @ map unpub ins\<rparr>
     \<and> (distinct (map er_eventId (ts_events s)) \<longrightarrow> distinct (map er_eventId (ts_events s')))"

lemma grown_refl: "grown s [] s"
  by (simp add: grown_def)

lemma grown_insert:
  assumes "insertEvent r s = (True, s')"
  shows "grown s [r] s'"
proof -
  from insertEvent_inserted[OF assms] have s': "s' = s\<lparr>ts_events := ts_events s @ [unpub r]\<rparr>"
    and c: "\<forall>e\<in>set (ts_events s). er_eventId e \<noteq> er_eventId r" by (auto simp: row_clash_def)
  from c have "er_eventId r \<notin> er_eventId ` set (ts_events s)" by (metis image_iff)
  with s' show ?thesis by (simp add: grown_def)
qed

lemma grown_trans:
  assumes g: "grown s xs s'" "grown s' ys s''"
  shows "grown s (xs @ ys) s''"
proof -
  have "s'' = s\<lparr>ts_events := ts_events s @ map unpub (xs @ ys)\<rparr>" using g by (simp add: grown_def)
  moreover have "distinct (map er_eventId (ts_events s)) \<longrightarrow> distinct (map er_eventId (ts_events s''))"
    using g unfolding grown_def by blast
  ultimately show ?thesis unfolding grown_def by blast
qed

lemma insert_rows_grown:
  "insert_rows i rows s = Inr s' \<Longrightarrow> \<exists>ins. grown s ins s' \<and> filter is_commit ins = filter is_commit rows \<and> set ins \<subseteq> set rows"
proof (induction rows arbitrary: s)
  case (Cons row rows)
  obtain b s1 where ins: "insertEvent row s = (b, s1)" by (cases "insertEvent row s")
  show ?case
  proof (cases b)
    case True
    with Cons.prems ins have "insert_rows i rows s1 = Inr s'" by simp
    from Cons.IH[OF this] obtain xs where xs: "grown s1 xs s'" "filter is_commit xs = filter is_commit rows" "set xs \<subseteq> set rows" by auto
    have "grown s ([row] @ xs) s'" using grown_trans[OF grown_insert xs(1)] ins True by simp
    with xs show ?thesis by (intro exI[of _ "row # xs"]) auto
  next
    case False
    with Cons.prems ins have "insert_rows i rows s = Inr s'" "\<not> is_commit row"
      by (auto simp: is_commit_def dest: insertEvent_ignored split: if_splits)
    with Cons.IH[of s] show ?thesis by auto
  qed
qed (auto intro: grown_refl)

lemma effect_row_attempt: "r \<in> set (effect_row ev a now e) \<Longrightarrow> er_attemptId r = Some (a_attemptId a)"
  by (cases e) (auto simp: base_row_def commit_row_def notify_row_def Let_def split: if_splits)

fun commit_pairs :: "life_label list \<Rightarrow> (int option \<times> turn_state option) list" where
  "commit_pairs [] = []"
| "commit_pairs (Committed g out # ls) = (Some g, Some (outcome_state out)) # commit_pairs ls"
| "commit_pairs (Requeued _ _ # ls) = commit_pairs ls"

lemma commit_pairs_append [simp]: "commit_pairs (xs @ ys) = commit_pairs xs @ commit_pairs ys"
  by (induction xs rule: commit_pairs.induct) auto

lemma effect_row_commits: "map commit_pair (filter is_commit (effect_row ev a now e)) = commit_pairs (effect_label e)"
  by (cases e) (auto simp: base_row_def commit_row_def notify_row_def Let_def is_commit_def commit_pair_def)

lemma effect_rows_commits: "map commit_pair (filter is_commit (effectEventRows ev a es now)) = commit_pairs (labels es)"
  by (induction es) (simp_all add: effectEventRows_def effect_row_commits)

lemma effect_rows_attempt: "r \<in> set (effectEventRows ev a es now) \<Longrightarrow> er_attemptId r = Some (a_attemptId a)"
  by (auto simp: effectEventRows_def dest: effect_row_attempt)

lemma commits_of_one:
  assumes "\<forall>r\<in>set ins. er_attemptId r = Some j"
  shows "commits_of i ins = (if i = j then map commit_pair (filter is_commit ins) else [])"
proof -
  have "filter (\<lambda>e. is_commit e \<and> er_attemptId e = Some i) ins = (if i = j then filter is_commit ins else [])"
    using assms by (induction ins) auto
  then show ?thesis by (simp add: commits_of_def)
qed

text \<open>A recorded piece of evidence adds a row or a sample, never a commit.\<close>

lemma add_sample_fields [simp]:
  "er_eventId (add_sample ev r) = er_eventId r" "er_kind (add_sample ev r) = er_kind r"
  "er_attemptId (add_sample ev r) = er_attemptId r" "commit_pair (add_sample ev r) = commit_pair r"
  by (simp_all add: add_sample_def commit_pair_def split: row_payload.splits)

lemma recordEvidence_cases:
  assumes "recordEvidence r s = (True, s')"
  shows "insertEvent r s = (True, s')
    \<or> (\<exists>P ev. s' = s\<lparr>ts_events := map (\<lambda>e. if P e then add_sample ev e else e) (ts_events s)\<rparr>)"
  using assms by (fastforce simp: recordEvidence_def split: option.splits row_payload.splits if_splits)

lemma commits_of_map:
  assumes "\<And>e. er_kind (f e) = er_kind e \<and> er_attemptId (f e) = er_attemptId e \<and> commit_pair (f e) = commit_pair e"
  shows "commits_of i (map f es) = commits_of i es"
  using assms by (simp add: commits_of_def filter_map comp_def is_commit_def)

text \<open>What a table of events must keep.\<close>

definition events_keep :: "turn_event_row list \<Rightarrow> turn_event_row list \<Rightarrow> bool" where
  "events_keep es fs \<longleftrightarrow> (distinct (map er_eventId es) \<longrightarrow> distinct (map er_eventId fs))
     \<and> (\<forall>i. commits_of i fs = commits_of i es)
     \<and> ((\<forall>e\<in>set es. is_commit e \<longrightarrow> er_attemptId e \<noteq> None) \<longrightarrow> (\<forall>e\<in>set fs. is_commit e \<longrightarrow> er_attemptId e \<noteq> None))"

lemma events_keep_map:
  assumes "\<And>e. er_eventId (f e) = er_eventId e \<and> er_kind (f e) = er_kind e \<and> er_attemptId (f e) = er_attemptId e \<and> commit_pair (f e) = commit_pair e"
  shows "events_keep es (map f es)"
  using assms by (auto simp: events_keep_def commits_of_map comp_def is_commit_def)

lemma events_keep_insert:
  assumes "insertEvent r s = (b, s')" "\<not> is_commit r"
  shows "ts_attempts s' = ts_attempts s \<and> ts_holds s' = ts_holds s \<and> events_keep (ts_events s) (ts_events s')"
proof (cases b)
  case True
  with assms have "grown s [r] s'" by (auto intro: grown_insert)
  with assms(2) show ?thesis by (auto simp: grown_def events_keep_def commits_of_def is_commit_def)
next
  case False
  with assms have "s' = s" by (auto dest: insertEvent_ignored)
  then show ?thesis by (simp add: events_keep_def)
qed

lemma recordEvidence_keep:
  assumes "recordEvidence r s = (True, s')" "\<not> is_commit r"
  shows "ts_attempts s' = ts_attempts s \<and> ts_holds s' = ts_holds s \<and> events_keep (ts_events s) (ts_events s')"
  using recordEvidence_cases[OF assms(1)]
proof
  assume "insertEvent r s = (True, s')"
  then show ?thesis using assms(2) by (rule events_keep_insert)
next
  assume "\<exists>P ev. s' = s\<lparr>ts_events := map (\<lambda>e. if P e then add_sample ev e else e) (ts_events s)\<rparr>"
  then obtain P ev where "s' = s\<lparr>ts_events := map (\<lambda>e. if P e then add_sample ev e else e) (ts_events s)\<rparr>" by blast
  then show ?thesis by (auto intro!: events_keep_map)
qed

end
