(* ===== verification/LedgerRuns.thy ===== *)
theory LedgerRuns
  imports LedgerInv
begin

text \<open>
  The invariant of the tables through the write path: one transaction step, \<open>applyStep\<close> with the
  superseded attempt, and \<open>observe\<close> with its re-observations.
\<close>

section \<open>One transaction step\<close>

lemma expected_commit_phase: "expected_commit (Some a) = (case phase_of a of Done out \<Rightarrow> [(Some (a_generation a), Some (outcome_state out))] | _ \<Rightarrow> [])"
  by (simp add: expected_commit_def phase_of_def split: option.splits)

lemma life_step_commits:
  assumes "life_step (lifecycle_of a) ls (lifecycle_of n)"
  shows "expected_commit (Some n) = expected_commit (Some a) @ commit_pairs ls"
  using assms by (cases rule: life_step.cases) (auto simp: expected_commit_phase lifecycle_of_def split: phase.splits)

lemma opened_commits: "opened n \<Longrightarrow> expected_commit (Some n) = []"
  by (simp add: expected_commit_def opened_def)

text \<open>The result of a step fits the store: the attempt is the stored one, and a new one has a fresh id.\<close>

definition fits :: "turn_attempt option \<Rightarrow> reduce_result \<Rightarrow> turn_store \<Rightarrow> bool" where
  "fits att r s \<longleftrightarrow> (case att of
       Some a \<Rightarrow> getAttempt (a_attemptId a) s = Some a
     | None \<Rightarrow> out_verdict r = V_applied \<longrightarrow> (case out_attempt r of Some n \<Rightarrow> getAttempt (a_attemptId n) s = None | None \<Rightarrow> True))"

lemma commits_ok_iff: "commits_ok s \<longleftrightarrow> (\<forall>i. commits_of i (ts_events s) = expected_commit (getAttempt i s))
    \<and> (\<forall>e\<in>set (ts_events s). is_commit e \<longrightarrow> er_attemptId e \<noteq> None)"
  by (simp add: commits_ok_def committed_rows_of is_commit_def)

lemma sync_frame [simp]:
  "ts_attempts (syncHolds i hs now s) = ts_attempts s" "ts_events (syncHolds i hs now s) = ts_events s"
  by (simp_all add: syncHolds_def)

lemma getAttempt_attempts: "ts_attempts s' = ts_attempts s \<Longrightarrow> getAttempt i s' = getAttempt i s"
  by (simp add: getAttempt_def)

lemma upsert_inserted:
  assumes "upsertAttempt n now s = Inr s'"
  shows "ts_events s' = ts_events s" "ts_holds s' = ts_holds s" "ts_attempts s' = put_attempt n now (ts_attempts s)"
    "\<forall>r\<in>set (ts_attempts s). \<not> session_clash n r"
    "getAttempt j s' = (if j = a_attemptId n then Some n else getAttempt j s)"
proof -
  from assms have s': "s' = s\<lparr>ts_attempts := put_attempt n now (ts_attempts s)\<rparr>" and c: "\<forall>r\<in>set (ts_attempts s). \<not> session_clash n r"
    by (auto simp: upsertAttempt_def split: if_splits)
  then show "ts_events s' = ts_events s" "ts_holds s' = ts_holds s" "ts_attempts s' = put_attempt n now (ts_attempts s)"
    "\<forall>r\<in>set (ts_attempts s). \<not> session_clash n r" by simp_all
  show "getAttempt j s' = (if j = a_attemptId n then Some n else getAttempt j s)"
    unfolding getAttempt_def s' using find_put_attempt[of j n now "ts_attempts s"] by simp
qed

text \<open>The commits that a step owes after the attempt is written and before its rows are inserted.\<close>

definition owes :: "ident \<Rightarrow> (int option \<times> turn_state option) list \<Rightarrow> turn_store \<Rightarrow> bool" where
  "owes i cs s \<longleftrightarrow> attempts_ok (ts_attempts s) \<and> holds_ok (ts_holds s) \<and> distinct (map er_eventId (ts_events s))
     \<and> (\<forall>e\<in>set (ts_events s). is_commit e \<longrightarrow> er_attemptId e \<noteq> None)
     \<and> (\<forall>j. expected_commit (getAttempt j s) = commits_of j (ts_events s) @ (if j = i then cs else []))"

lemma owes_nothing: "owes i [] s \<longleftrightarrow> store_ok s"
  by (auto simp: owes_def store_ok_def commits_ok_iff)

lemma owes_keep:
  assumes "owes i cs s" "ts_attempts s' = ts_attempts s" "ts_holds s' = ts_holds s" "events_keep (ts_events s) (ts_events s')"
  shows "owes i cs s'"
  using assms getAttempt_attempts[OF assms(2)] by (simp add: owes_def events_keep_def)

lemma owes_paid:
  assumes o: "owes i cs s" and g: "grown s ins s'" and i: "\<forall>r\<in>set ins. er_attemptId r = Some i"
    and c: "map commit_pair (filter is_commit ins) = cs"
  shows "store_ok s'"
proof -
  have s': "ts_attempts s' = ts_attempts s" "ts_holds s' = ts_holds s" "ts_events s' = ts_events s @ map unpub ins"
    using g by (simp_all add: grown_def)
  have d: "distinct (map er_eventId (ts_events s'))" using g o unfolding grown_def owes_def by blast
  have "commits_of j (map unpub ins) = (if j = i then cs else [])" for j
    using commits_of_one[OF i] c by (simp add: commits_of_unpub)
  then have "commits_of j (ts_events s') = expected_commit (getAttempt j s')" for j
    using o s'(3) getAttempt_attempts[OF s'(1)] by (simp add: owes_def)
  moreover have "\<forall>e\<in>set (ts_events s'). is_commit e \<longrightarrow> er_attemptId e \<noteq> None"
    using o i s'(3) by (auto simp: owes_def is_commit_def)
  ultimately show ?thesis using o s'(1,2) d by (simp add: store_ok_def commits_ok_iff owes_def)
qed

definition subject_of :: "turn_attempt option \<Rightarrow> reduce_result \<Rightarrow> turn_attempt option" where
  "subject_of att r = first_of (out_attempt r) att"

lemma subject_id: "step_sound (Some a) ev r \<Longrightarrow> \<exists>n. subject_of (Some a) r = Some n \<and> a_attemptId n = a_attemptId a"
  by (auto simp: step_sound_def subject_of_def first_of_def party_def)

lemma write_attempt_owes:
  assumes ok: "store_ok s" and sound: "step_sound att ev r" and fit: "fits att r s" and w: "write_attempt now r s = Inr s'"
  shows "case subject_of att r of None \<Rightarrow> s' = s | Some n \<Rightarrow> owes (a_attemptId n) (commit_pairs (labels (out_effects r))) s'
    \<and> (\<forall>j. j \<noteq> a_attemptId n \<longrightarrow> getAttempt j s' = getAttempt j s)"
proof (cases "out_verdict r = V_applied \<and> out_attempt r \<noteq> None")
  case False
  then have same: "s' = s" using w by (auto simp: write_attempt_def split: reduce_verdict.splits option.splits)
  have l: "labels (out_effects r) = []" using False sound
    by (cases att) (auto simp: step_sound_def)
  show ?thesis using same ok l by (auto simp: owes_nothing split: option.splits)
next
  case True
  then obtain n where n: "out_attempt r = Some n" "out_verdict r = V_applied" by auto
  with w obtain s1 where u: "upsertAttempt n now s = Inr s1" and s': "s' = syncHolds (a_attemptId n) (out_holds r) now s1"
    by (auto simp: write_attempt_def split: sum.splits)
  note up = upsert_inserted[OF u]
  have get: "getAttempt j s' = (if j = a_attemptId n then Some n else getAttempt j s)" for j
    using up(5)[of j] s' getAttempt_attempts[of s' s1 j] by simp
  have facts: "attempt_ok n \<and> holds_keyed (party n) (out_holds r)
      \<and> expected_commit (Some n) = expected_commit (getAttempt (a_attemptId n) s) @ commit_pairs (labels (out_effects r))"
  proof (cases att)
    case None
    with sound fit n show ?thesis
      by (auto simp: step_sound_def fits_def opened_facts opened_commits) (simp add: expected_commit_def)
  next
    case (Some a)
    with sound n have p: "party n = party a" "attempt_ok n" "holds_keyed (party n) (out_holds r)"
      "life_step (lifecycle_of a) (labels (out_effects r)) (lifecycle_of n)" by (auto simp: step_sound_def)
    then have "a_attemptId n = a_attemptId a" by (simp add: party_def)
    with Some fit have "getAttempt (a_attemptId n) s = Some a" by (simp add: fits_def)
    with p life_step_commits[OF p(4)] show ?thesis by simp
  qed
  have "attempts_ok (ts_attempts s')" using s' up facts store_okD(1)[OF ok] by (auto intro!: attempts_ok_put)
  moreover have "holds_ok (ts_holds s')"
    using s' up facts store_okD(2)[OF ok] keyed_holdsD by (auto intro!: holds_ok_sync)
  ultimately show ?thesis
    using ok facts s' up n get by (auto simp: owes_def store_ok_def commits_ok_iff subject_of_def first_of_def)
qed

lemma step_row_plain: "\<not> is_commit (step_row env opts ev att r)"
  by (simp add: step_row_def evidenceRow_def is_commit_def)

lemma finish_step_store:
  assumes "finish_step deps env opts ev att r t = Inr (t', so)"
  shows "case subject_of att r of None \<Rightarrow> fst t' = fst t | Some n \<Rightarrow>
      (if out_verdict r = V_rejected then fst t' = fst t
       else insert_rows (a_attemptId n) (effectEventRows ev n (out_effects r) (oe_now env)) (fst t) = Inr (fst t'))"
  using assms unfolding finish_step_def subject_of_def
  by (auto split: option.splits if_splits sum.splits reduce_verdict.splits)

lemma persist_parts:
  assumes "persist deps env opts ev att r t = Inr (t', so)"
  obtains s1 s2 where "write_attempt (oe_now env) r (fst t) = Inr s1"
    "recordEvidence (step_row env opts ev att r) s1 = (True, s2)" "finish_step deps env opts ev att r (s2, snd t) = Inr (t', so)"
proof (cases "write_attempt (oe_now env) r (fst t)")
  case (Inr s1)
  obtain b s2 where rec: "recordEvidence (step_row env opts ev att r) s1 = (b, s2)" by fastforce
  show ?thesis using assms Inr rec that[of s1 s2] by (cases b) (simp_all add: persist_def)
qed (use assms in \<open>simp add: persist_def\<close>)

lemma persist_rejected:
  assumes v: "out_verdict r = V_rejected" and p: "persist deps env opts ev att r t = Inr (t', so)"
  shows "ts_attempts (fst t') = ts_attempts (fst t) \<and> ts_holds (fst t') = ts_holds (fst t) \<and> (store_ok (fst t) \<longrightarrow> store_ok (fst t'))"
proof -
  from persist_parts[OF p] obtain s1 s2 where w: "write_attempt (oe_now env) r (fst t) = Inr s1"
    and rec: "recordEvidence (step_row env opts ev att r) s1 = (True, s2)"
    and fin: "finish_step deps env opts ev att r (s2, snd t) = Inr (t', so)" by blast
  have "s1 = fst t" using w v by (simp add: write_attempt_def)
  moreover have "fst t' = s2" using fin v by (auto simp: finish_step_def split: option.splits)
  moreover note kept = recordEvidence_keep[OF rec step_row_plain]
  moreover have "store_ok s2" if "store_ok s1" using that owes_keep[of "[]" "[]" s1 s2] kept by (simp add: owes_nothing)
  ultimately show ?thesis by simp
qed

lemma persist_ok:
  assumes ok: "store_ok (fst t)" and sound: "step_sound att ev0 r" and fit: "fits att r (fst t)"
    and p: "persist deps env opts ev att r t = Inr (t', so)"
  shows "store_ok (fst t') \<and> (\<forall>j. (\<forall>n. subject_of att r = Some n \<longrightarrow> j \<noteq> a_attemptId n) \<longrightarrow> getAttempt j (fst t') = getAttempt j (fst t))"
proof -
  from persist_parts[OF p] obtain s1 s2 where w: "write_attempt (oe_now env) r (fst t) = Inr s1"
    and rec: "recordEvidence (step_row env opts ev att r) s1 = (True, s2)"
    and fin: "finish_step deps env opts ev att r (s2, snd t) = Inr (t', so)" by blast
  note wr = write_attempt_owes[OF ok sound fit w]
  note kept = recordEvidence_keep[OF rec step_row_plain]
  have get2: "getAttempt j s2 = getAttempt j s1" for j using kept by (intro getAttempt_attempts) blast
  note fs = finish_step_store[OF fin]
  show ?thesis
  proof (cases "subject_of att r")
    case None
    with wr have s1: "s1 = fst t" by simp
    have "store_ok s2" using owes_keep[of "[]" "[]" s1 s2] kept ok s1 by (simp add: owes_nothing)
    then show ?thesis using None fs get2 s1 by simp
  next
    case (Some n)
    with wr have o1: "owes (a_attemptId n) (commit_pairs (labels (out_effects r))) s1"
      and fr: "\<forall>j. j \<noteq> a_attemptId n \<longrightarrow> getAttempt j s1 = getAttempt j (fst t)" by auto
    have o2: "owes (a_attemptId n) (commit_pairs (labels (out_effects r))) s2" using owes_keep[OF o1] kept by blast
    show ?thesis
    proof (cases "out_verdict r = V_rejected")
      case True
      then have "labels (out_effects r) = []" using sound by (cases att) (auto simp: step_sound_def)
      then show ?thesis using o2 fs Some True fr get2 by (simp add: owes_nothing)
    next
      case False
      with fs Some have "insert_rows (a_attemptId n) (effectEventRows ev n (out_effects r) (oe_now env)) s2 = Inr (fst t')" by simp
      from insert_rows_grown[OF this] obtain ins where g: "grown s2 ins (fst t')"
        "filter is_commit ins = filter is_commit (effectEventRows ev n (out_effects r) (oe_now env))"
        "set ins \<subseteq> set (effectEventRows ev n (out_effects r) (oe_now env))" by blast
      have "\<forall>x\<in>set ins. er_attemptId x = Some (a_attemptId n)" using g(3) effect_rows_attempt by blast
      from owes_paid[OF o2 g(1) this] g(2) effect_rows_commits[of ev n "out_effects r" "oe_now env"]
      have "store_ok (fst t')" by simp
      moreover have "getAttempt j (fst t') = getAttempt j s2" for j using g(1) by (simp add: grown_def getAttempt_def)
      ultimately show ?thesis using Some fr get2 by simp
    qed
  qed
qed

section \<open>Applying a piece of evidence\<close>

lemma loaded_stored:
  assumes "store_ok s" "\<And>a. att = Some a \<Longrightarrow> getAttempt (a_attemptId a) s = Some a"
  shows "loaded att s"
proof (cases att)
  case (Some a)
  from getAttempt_Some[OF assms(2)[OF Some]] obtain row where "row \<in> set (ts_attempts s)" "at_attempt row = a" by blast
  then have "attempt_ok a" using store_okD(1)[OF assms(1)] by (auto simp: attempts_ok_def)
  with Some show ?thesis using activeHolds_keyed[OF store_okD(2)[OF assms(1)] refl] by (simp add: loaded_def)
qed (simp add: loaded_def)

lemma findD: "find P xs = Some x \<Longrightarrow> x \<in> set xs \<and> P x"
  by (auto simp: find_Some_iff)

lemma open_session_found:
  assumes "store_ok s" "findOpenAttemptForSession sid s = Some c"
  shows "getAttempt (a_attemptId c) s = Some c" "a_sessionId c = sid" "a_terminal c = None"
proof -
  from assms(2) obtain row where r: "row \<in> set (ts_attempts s)" "at_attempt row = c" "a_sessionId c = sid" "row_open row"
    by (auto simp: findOpenAttemptForSession_def dest: findD)
  then show "a_sessionId c = sid" "a_terminal c = None" by (auto simp: row_open_def)
  show "getAttempt (a_attemptId c) s = Some c"
    using getAttempt_row[OF _ r(1)] r(2) store_okD(1)[OF assms(1)] by (simp add: attempts_ok_def)
qed

lemma conflicting_found:
  assumes "store_ok s" "conflicting att r s = Some c"
  shows "\<exists>n. out_attempt r = Some n \<and> a_sessionId c = a_sessionId n \<and> a_attemptId c \<noteq> a_attemptId n \<and> out_verdict r = V_applied
    \<and> getAttempt (a_attemptId c) s = Some c \<and> a_terminal c = None"
proof -
  from assms(2) obtain n where n: "out_attempt r = Some n" "opens att r \<or> moves att r"
    "findOpenAttemptForSession (a_sessionId n) s = Some c" "a_attemptId c \<noteq> a_attemptId n"
    by (auto simp: conflicting_def split: option.splits if_splits)
  moreover have "out_verdict r = V_applied" using n(1,2) by (auto simp: opens_def moves_def split: option.splits)
  ultimately show ?thesis using open_session_found[OF assms(1) n(3)] by auto
qed

lemma fits_later:
  assumes "fits att r s" "\<And>i. (\<exists>a. att = Some a \<and> i = a_attemptId a) \<or> (\<exists>n. out_attempt r = Some n \<and> i = a_attemptId n) \<Longrightarrow> getAttempt i s' = getAttempt i s"
  shows "fits att r s'"
  using assms by (auto simp: fits_def split: option.splits)

lemma applyStep_ok:
  assumes ok: "store_ok (fst t)" and stored: "\<And>a. att = Some a \<Longrightarrow> getAttempt (a_attemptId a) (fst t) = Some a"
    and fresh: "fits att (step_result deps env opts lg False ev att (fst t)) (fst t)"
    and ap: "applyStep deps env opts lg ev att t = Inr (t', sos)"
  shows "store_ok (fst t')"
proof -
  let ?ev = "step_evidence env opts att ev" and ?r = "step_result deps env opts lg False ev att (fst t)"
  have sound: "step_sound att ?ev ?r" using loaded_stored[OF ok stored] by (rule step_result_sound)
  show ?thesis
  proof (cases "conflicting att ?r (fst t)")
    case None
    with ap obtain so where "persist deps env opts ?ev att ?r t = Inr (t', so)"
      by (auto simp: applyStep_def Let_def split: sum.splits)
    from persist_ok[OF ok sound fresh this] show ?thesis by blast
  next
    case (Some c)
    from conflicting_found[OF ok Some] obtain n where n: "out_attempt ?r = Some n" "a_attemptId c \<noteq> a_attemptId n"
      "getAttempt (a_attemptId c) (fst t) = Some c" by blast
    show ?thesis
    proof (cases "a_scope c = Plain")
      case False
      with Some ap obtain so where "persist deps env opts ?ev att conflict_result t = Inr (t', so)"
        by (auto simp: applyStep_def Let_def split: sum.splits)
      from persist_rejected[OF _ this] ok show ?thesis by (simp add: conflict_result_def)
    next
      case True
      with Some ap obtain t1 so1 so2 where p1: "nested_step deps env lg (supersede ?ev c) c t = Inr (t1, so1)"
        and p2: "persist deps env opts ?ev att ?r t1 = Inr (t', so2)"
        by (auto simp: applyStep_def Let_def split: sum.splits)
      let ?q = "step_result deps env no_options lg True (supersede ?ev c) (Some c) (fst t)"
      have sc: "step_sound (Some c) (step_evidence env no_options (Some c) (supersede ?ev c)) ?q"
        using loaded_stored[OF ok, of "Some c"] n(3) by (auto intro: step_result_sound)
      have "fits (Some c) ?q (fst t)" using n(3) by (simp add: fits_def)
      from persist_ok[OF ok sc this p1[unfolded nested_step_def]]
      have s1: "store_ok (fst t1)" and fr: "\<And>j. j \<noteq> a_attemptId c \<Longrightarrow> getAttempt j (fst t1) = getAttempt j (fst t)"
        using subject_id[OF sc] by auto
      have "fits att ?r (fst t1)"
      proof (rule fits_later[OF fresh])
        fix i assume "(\<exists>a. att = Some a \<and> i = a_attemptId a) \<or> (\<exists>m. out_attempt ?r = Some m \<and> i = a_attemptId m)"
        then have "i = a_attemptId n" using n(1) sound by (auto simp: step_sound_def party_def)
        with n(2) fr show "getAttempt i (fst t1) = getAttempt i (fst t)" by simp
      qed
      from persist_ok[OF s1 sound this p2] show ?thesis by blast
    qed
  qed
qed

section \<open>Observing\<close>

lemma resolve_cases:
  assumes "resolveAttempt ev s = Some a"
  shows "(\<exists>i. getAttempt i s = Some a) \<or> (\<exists>m k. findLatestAttemptForTask m k s = Some a) \<or> (\<exists>sid. findOpenAttemptForSession sid s = Some a)"
proof (cases "ev_attemptRef ev")
  case None
  with assms show ?thesis
    by (cases "ev_body ev"; cases "truthy (ev_taskId ev)") (auto simp: resolveAttempt_def)
qed (use assms in \<open>auto simp: resolveAttempt_def\<close>)

lemma resolve_stored:
  assumes ok: "store_ok s" and r: "resolveAttempt ev s = Some a"
  shows "getAttempt (a_attemptId a) s = Some a"
proof -
  have got: "getAttempt (a_attemptId a) s = Some a" if "getAttempt i s = Some a" for i
    using getAttempt_Some[OF that] that by auto
  have task: "getAttempt (a_attemptId a) s = Some a" if l: "findLatestAttemptForTask m k s = Some a" for m k
  proof -
    let ?rows = "filter (\<lambda>r. a_taskId (at_attempt r) = Some k \<and> (truthy m \<longrightarrow> a_meshId (at_attempt r) = m)) (ts_attempts s)"
    from l obtain q qs where q: "rev (sort_key (\<lambda>r. (a_attemptNo (at_attempt r), at_createdAt r)) ?rows) = q # qs" "a = at_attempt q"
      by (auto simp: findLatestAttemptForTask_def Let_def split: list.splits)
    from q(1) have "q \<in> set (rev (sort_key (\<lambda>r. (a_attemptNo (at_attempt r), at_createdAt r)) ?rows))" by (simp del: set_rev)
    then have "q \<in> set (ts_attempts s)" by simp
    with q(2) getAttempt_row store_okD(1)[OF ok] show ?thesis unfolding attempts_ok_def by blast
  qed
  have sess: "getAttempt (a_attemptId a) s = Some a" if "findOpenAttemptForSession sid s = Some a" for sid
    using open_session_found(1)[OF ok that] .
  from resolve_cases[OF r] show ?thesis using got task sess by blast
qed

text \<open>The id under which a turn started outside the mesh would be opened is not taken.\<close>

definition plain_fresh :: "turn_evidence \<Rightarrow> turn_store \<Rightarrow> bool" where
  "plain_fresh ev s \<longleftrightarrow> ev_kind ev = K_turn_started \<longrightarrow> getAttempt (plain_id ev) s = None"

lemma resolve_fits:
  assumes ok: "store_ok s" and f: "plain_fresh ev s"
  shows "fits (resolveAttempt ev s) (step_result deps env opts lg False ev (resolveAttempt ev s) s) s"
proof (cases "resolveAttempt ev s")
  case (Some a)
  then show ?thesis using resolve_stored[OF ok] by (simp add: fits_def)
next
  case None
  let ?r = "step_result deps env opts lg False ev None s"
  have "loaded None s" by (simp add: loaded_def)
  from step_result_sound[OF this, of env opts ev deps lg False]
  have sound: "step_sound None ev ?r" by (simp add: step_evidence_def)
  have "getAttempt (a_attemptId n) s = None" if "out_attempt ?r = Some n" for n
  proof -
    from sound that have "opened_as ev (a_attemptId n)" by (simp add: step_sound_def)
    then show ?thesis using None f
      by (auto simp: opened_as_def dispatch_id_def resolveAttempt_def plain_fresh_def split: option.splits)
  qed
  with None show ?thesis by (auto simp: fits_def split: option.splits)
qed

lemma forward_ok:
  assumes "forward ev owner meshId now opts lg = (lg', res)"
  shows "ts_attempts (lg_store lg') = ts_attempts (lg_store lg) \<and> ts_holds (lg_store lg') = ts_holds (lg_store lg)
    \<and> (store_ok (lg_store lg) \<longrightarrow> store_ok (lg_store lg'))"
proof -
  obtain b s' where i: "insertEvent (forward_row ev owner meshId now opts) (lg_store lg) = (b, s')" by fastforce
  with assms have s': "lg_store lg' = s'" by (auto simp: forward_def)
  have "\<not> is_commit (forward_row ev owner meshId now opts)"
    by (simp add: forward_row_def evidenceRow_def is_commit_def split: option.splits)
  note k = events_keep_insert[OF i this]
  moreover have "store_ok s'" if "store_ok (lg_store lg)"
    using that owes_keep[of "[]" "[]" "lg_store lg" s'] k by (simp add: owes_nothing)
  ultimately show ?thesis using s' by simp
qed

lemma held_not_started: "held_evidence s cause e = Some again \<Longrightarrow> ev_kind again = K_turn_end \<or> ev_kind again = K_transcript_final"
  by (auto simp: held_evidence_def forceLiveFalse_def split: turn_effect.splits if_splits option.splits row_payload.splits turn_evidence_body.splits)

text \<open>
  A property of the ledger that re-observing the end of a turn keeps and that the port calls do not affect,
  with the failures that a re-observation may end with.
\<close>

definition keeps :: "('h ledger \<Rightarrow> bool) \<Rightarrow> (ledger_error \<Rightarrow> bool) \<Rightarrow> (turn_evidence \<Rightarrow> 'h ledger \<Rightarrow> 'h ledger_outcome) \<Rightarrow> bool" where
  "keeps P F obs \<longleftrightarrow> (\<forall>l c. P (l\<lparr>lg_calls := c\<rparr>) = P l)
     \<and> (\<forall>again l l' e. ev_kind again = K_turn_end \<or> ev_kind again = K_transcript_final \<longrightarrow> P l \<longrightarrow> obs again l = Some (l', e)
          \<longrightarrow> P l' \<and> (\<forall>err. e = Some err \<longrightarrow> F err))"

lemma observe_all_keeps:
  assumes k: "keeps P F obs" and "P lg" "observe_all obs cause es lg = Some (lg', e')"
  shows "P lg' \<and> (\<forall>err. e' = Some err \<longrightarrow> F err)"
  using assms(2,3)
proof (induction es arbitrary: lg)
  case (Cons x xs)
  show ?case
  proof (cases "held_evidence (lg_store lg) cause x")
    case None
    with Cons show ?thesis by simp
  next
    case (Some again)
    from Cons.prems Some obtain l1 e1 where o: "obs again lg = Some (l1, e1)" by (auto split: option.splits)
    then have "P l1 \<and> (\<forall>err. e1 = Some err \<longrightarrow> F err)"
      using k held_not_started[OF Some] Cons.prems(1) unfolding keeps_def by blast
    then show ?thesis using Cons.prems(2) Cons.IH[of l1] Some o by (cases e1) auto
  qed
qed simp

lemma after_steps_keeps:
  assumes k: "keeps P F obs" and "P lg" "after_steps obs now sos lg = Some (lg', e')"
  shows "P lg' \<and> (\<forall>err. e' = Some err \<longrightarrow> F err)"
  using assms(2,3)
proof (induction sos arbitrary: lg)
  case (Cons so sos)
  show ?case
  proof (cases "out_verdict (so_result so) = V_rejected")
    case True
    with Cons show ?thesis by simp
  next
    case False
    let ?lg = "lg\<lparr>lg_calls := lg_calls lg @ step_calls now so\<rparr>"
    from Cons.prems False obtain l1 e1 where o: "observe_all obs (ev_eventId (so_evidence so)) (out_effects (so_result so)) ?lg = Some (l1, e1)"
      by (auto split: option.splits)
    have "P ?lg" using Cons.prems(1) k by (simp add: keeps_def)
    from observe_all_keeps[OF k this o] show ?thesis
      using Cons.prems(2) Cons.IH[of l1] False o by (cases e1) auto
  qed
qed simp

text \<open>The ways an observation ends.\<close>

abbreviation again_of :: "(turn_evidence \<Rightarrow> 'h ledger \<Rightarrow> ('h ledger \<times> (ledger_error + observe_result)) option) \<Rightarrow> turn_evidence \<Rightarrow> 'h ledger \<Rightarrow> 'h ledger_outcome" where
  "again_of obs \<equiv> \<lambda>again l. map_option (\<lambda>(l', r). (l', case r of Inl err \<Rightarrow> Some err | Inr _ \<Rightarrow> None)) (obs again l)"

lemma observe_cases:
  assumes "observe (Suc n) deps env opts ev lg = Some (lg', res)"
  obtains (unchanged) "lg' = lg"
  | (forwarded) owner meshId where "foreign_owner (ld_selfDaemonId deps) (resolveAttempt ev (lg_store lg)) opts = Some (owner, meshId)"
      "forward ev owner meshId (oe_now env) opts lg = (lg', sum.projr res)"
  | (stepped) s h sos e where "applyStep deps env opts lg ev (resolveAttempt ev (lg_store lg)) (lg_store lg, lg_host lg) = Inr ((s, h), sos)"
      "after_steps (again_of (observe n deps env opts)) (oe_now env) sos (lg\<lparr>lg_store := s, lg_host := h\<rparr>) = Some (lg', e)"
proof (cases "foreign_owner (ld_selfDaemonId deps) (resolveAttempt ev (lg_store lg)) opts")
  case None
  show ?thesis
  proof (cases "applyStep deps env opts lg ev (resolveAttempt ev (lg_store lg)) (lg_store lg, lg_host lg)")
    case (Inl err)
    then show ?thesis using assms None unchanged
      by (cases err) (auto simp: Let_def split: if_splits)
  next
    case (Inr b)
    obtain s h sos where b: "b = ((s, h), sos)" by (metis surj_pair)
    show ?thesis
    proof (cases "after_steps (again_of (observe n deps env opts)) (oe_now env) sos (lg\<lparr>lg_store := s, lg_host := h\<rparr>)")
      case None2: None
      then show ?thesis using assms None Inr b unchanged by (auto simp: Let_def split: if_splits)
    next
      case (Some x)
      obtain l e where x: "x = (l, e)" by fastforce
      show ?thesis
      proof (cases "lg' = lg")
        case False
        then have "l = lg'" using assms None Inr b Some x
          by (cases e) (auto simp: Let_def split: if_splits)
        then show ?thesis using stepped Inr b Some x by blast
      qed (rule unchanged)
    qed
  qed
next
  case (Some x)
  obtain owner meshId where x: "x = (owner, meshId)" by fastforce
  obtain l r where f: "forward ev owner meshId (oe_now env) opts lg = (l, r)" by fastforce
  show ?thesis
  proof (cases "lg' = lg")
    case False
    then have "l = lg'" "res = Inr r" using assms Some x f by (auto simp: Let_def split: if_splits)
    then show ?thesis using forwarded Some x f by auto
  qed (rule unchanged)
qed

lemma observe_cases_error:
  assumes "observe (Suc n) deps env opts ev lg = Some (lg', Inl err)"
  shows "applyStep deps env opts lg ev (resolveAttempt ev (lg_store lg)) (lg_store lg, lg_host lg) = Inl err \<and> err \<noteq> Duplicate_evidence
    \<or> (\<exists>s h sos. applyStep deps env opts lg ev (resolveAttempt ev (lg_store lg)) (lg_store lg, lg_host lg) = Inr ((s, h), sos)
        \<and> after_steps (again_of (observe n deps env opts)) (oe_now env) sos (lg\<lparr>lg_store := s, lg_host := h\<rparr>) = Some (lg', Some err))"
proof (cases "applyStep deps env opts lg ev (resolveAttempt ev (lg_store lg)) (lg_store lg, lg_host lg)")
  case (Inl e)
  then show ?thesis using assms by (cases e) (auto simp: Let_def split: if_splits option.splits prod.splits)
next
  case (Inr b)
  obtain s h sos where b: "b = ((s, h), sos)" by (metis surj_pair)
  then show ?thesis using assms Inr by (auto simp: Let_def split: if_splits option.splits prod.splits)
qed

text \<open>
  What holds of an observation if it holds of one transaction and of a forwarded row: \<open>P\<close> of the ledger, \<open>F\<close> of
  the failure. \<open>G\<close> is what the evidence has to satisfy; the end of a turn always does.
\<close>

definition observable :: "('h ledger \<Rightarrow> bool) \<Rightarrow> (turn_evidence \<Rightarrow> 'h ledger \<Rightarrow> bool) \<Rightarrow> (ledger_error \<Rightarrow> bool) \<Rightarrow> 'h ledger_deps \<Rightarrow> observe_env \<Rightarrow> observe_options \<Rightarrow> bool" where
  "observable P G F deps env opts \<longleftrightarrow>
     (\<forall>l c. P (l\<lparr>lg_calls := c\<rparr>) = P l)
     \<and> (\<forall>ev l. ev_kind ev = K_turn_end \<or> ev_kind ev = K_transcript_final \<longrightarrow> G ev l)
     \<and> (\<forall>ev owner m l. P l \<longrightarrow> P (fst (forward ev owner m (oe_now env) opts l)))
     \<and> (\<forall>ev l. P l \<longrightarrow> G ev l \<longrightarrow>
          (case applyStep deps env opts l ev (resolveAttempt ev (lg_store l)) (lg_store l, lg_host l) of
             Inl err \<Rightarrow> err \<noteq> Duplicate_evidence \<longrightarrow> F err
           | Inr ((s, h), _) \<Rightarrow> P (l\<lparr>lg_store := s, lg_host := h\<rparr>)))"

lemma observe_keeps:
  assumes obs: "observable P G F deps env opts" and "P lg" "G ev lg" "observe n deps env opts ev lg = Some (lg', res)"
  shows "P lg' \<and> (\<forall>err. res = Inl err \<longrightarrow> F err)"
  using assms(2-)
proof (induction n arbitrary: ev lg lg' res)
  case (Suc n)
  let ?ap = "applyStep deps env opts lg ev (resolveAttempt ev (lg_store lg)) (lg_store lg, lg_host lg)"
  have k: "keeps P F (again_of (observe n deps env opts))"
    unfolding keeps_def
  proof (intro conjI allI impI; (elim exE)?)
    fix again l l' e
    assume kind: "ev_kind again = K_turn_end \<or> ev_kind again = K_transcript_final" and l: "P l"
      and o: "again_of (observe n deps env opts) again l = Some (l', e)"
    from o obtain r where r: "observe n deps env opts again l = Some (l', r)" "e = (case r of Inl err \<Rightarrow> Some err | Inr _ \<Rightarrow> None)" by auto
    have "G again l" using kind obs unfolding observable_def by blast
    from Suc.IH[OF l this r(1)] r(2) show "P l'" "\<And>err. e = Some err \<Longrightarrow> F err" by (auto split: sum.split_asm)
  qed (use obs in \<open>simp add: observable_def\<close>)
  have ap: "case ?ap of Inl err \<Rightarrow> err \<noteq> Duplicate_evidence \<longrightarrow> F err | Inr ((s, h), _) \<Rightarrow> P (lg\<lparr>lg_store := s, lg_host := h\<rparr>)"
    using obs Suc.prems(1,2) unfolding observable_def by blast
  have "P lg'" using Suc.prems(3)
  proof (cases rule: observe_cases)
    case (forwarded owner meshId)
    have "P (fst (forward ev owner meshId (oe_now env) opts lg))" using obs Suc.prems(1) unfolding observable_def by blast
    with forwarded show ?thesis by simp
  next
    case (stepped s h sos e)
    then show ?thesis using after_steps_keeps[OF k _ stepped(2)] ap by simp
  qed (use Suc.prems(1) in simp)
  moreover have "F err" if r: "res = Inl err" for err
    using observe_cases_error[OF Suc.prems(3)[unfolded r]]
  proof (elim disjE conjE exE)
    assume "?ap = Inl err" "err \<noteq> Duplicate_evidence"
    then show ?thesis using ap by simp
  next
    fix s h sos
    assume a: "?ap = Inr ((s, h), sos)"
      and later: "after_steps (again_of (observe n deps env opts)) (oe_now env) sos (lg\<lparr>lg_store := s, lg_host := h\<rparr>) = Some (lg', Some err)"
    from after_steps_keeps[OF k _ later] ap a show ?thesis by simp
  qed
  ultimately show ?case by blast
qed simp

lemma step_store_ok:
  assumes ok: "store_ok (lg_store l)" "plain_fresh ev (lg_store l)"
    and ap: "applyStep deps env opts l ev (resolveAttempt ev (lg_store l)) (lg_store l, lg_host l) = Inr (t, sos)"
  shows "store_ok (fst t)"
  using applyStep_ok[OF _ _ _ ap] ok resolve_stored[OF ok(1)] resolve_fits[OF ok, of deps env opts l] by simp

lemma forward_store_ok: "store_ok (lg_store l) \<Longrightarrow> store_ok (lg_store (fst (forward ev owner m now opts l)))"
  by (metis forward_ok surj_pair fst_conv)

lemma store_observable:
  fixes deps :: "'h ledger_deps"
  assumes "\<And>(l :: 'h ledger) ev err. store_ok (lg_store l) \<Longrightarrow> plain_fresh ev (lg_store l) \<Longrightarrow> err \<noteq> Duplicate_evidence
      \<Longrightarrow> applyStep deps env opts l ev (resolveAttempt ev (lg_store l)) (lg_store l, lg_host l) = Inl err \<Longrightarrow> F err"
  shows "observable (\<lambda>l. store_ok (lg_store l)) (\<lambda>ev l. plain_fresh ev (lg_store l)) F deps env opts"
proof -
  have "case applyStep deps env opts l ev (resolveAttempt ev (lg_store l)) (lg_store l, lg_host l) of
        Inl err \<Rightarrow> err \<noteq> Duplicate_evidence \<longrightarrow> F err | Inr ((s, h), _) \<Rightarrow> store_ok (lg_store (l\<lparr>lg_store := s, lg_host := h\<rparr>))"
    if "store_ok (lg_store l)" "plain_fresh ev (lg_store l)" for ev and l :: "'h ledger"
    using assms[OF that] step_store_ok[OF that, of deps env opts] by (auto split: sum.split prod.split)
  then show ?thesis unfolding observable_def using forward_store_ok by (auto simp: plain_fresh_def)
qed

lemma observe_ok:
  assumes "store_ok (lg_store lg)" "plain_fresh ev (lg_store lg)" "observe n deps env opts ev lg = Some (lg', res)"
  shows "store_ok (lg_store lg')"
  using observe_keeps[OF store_observable[of deps env opts "\<lambda>_. True"] assms] by simp

end
