(* ===== verification/LedgerSafety.thy ===== *)
theory LedgerSafety
  imports LedgerRuns TurnVerdicts
begin

text \<open>
  What an observation can do: it returns, it fails only for the reasons the tables and the host give, and an
  attempt open in the way of another is either ended first or left alone.
\<close>

section \<open>Superseding a plain attempt\<close>

definition R22 :: transition_rule where
  "R22 = rule ''R22'' Lane_current From_nonterminal [K_cancel] None (To S_cancelled) RV_applied
     [T_cancel_dispatch Target_current True, T_commit (Oc O_cancelled) Str_operator CRs_from_cancel False]"

lemma cancel_rows: "filter (\<lambda>r. r_lane r = Lane_current \<and> K_cancel \<in> set (r_on r) \<and> r_from r = From_nonterminal) TRANSITIONS = [R22]"
  by code_simp

lemma cancel_from: "list_all (\<lambda>r. r_lane r = Lane_current \<and> K_cancel \<in> set (r_on r) \<longrightarrow> r_from r \<in> {From_terminal, From [S_stopping], From_nonterminal}) TRANSITIONS"
  by code_simp

lemma cancel_template:
  assumes "dr_attempt d = Some a" "\<not> dr_committed d" "ev_body (dr_ev d) = Cancel reason"
    "\<And>r. \<not> stop_first d r a"
  shows "applyTemplate (T_commit (Oc O_cancelled) Str_operator CRs_from_cancel False) d
    = commit_final O_cancelled Str_operator (cancel_turn_reason reason) None a d"
  using assms by (simp add: applyTemplate_def template_commit_def commit_def)

lemma cancel_plain:
  assumes a: "in_attempt i = Some a" "attempt_ok a" "a_terminal a = None" "a_scope a = Plain"
    and lane: "classifyLane (in_attempt i) (in_evidence i) (in_holds i) = In_lane Lane_current gen"
    and ev: "ev_body (in_evidence i) = Cancel reason"
  shows "out_verdict (reduce i) = V_applied"
    "\<exists>t. out_attempt (reduce i) = Some (committed_attempt t a) \<and> tt_outcome t = O_cancelled \<and> tt_reason t = cancel_turn_reason reason"
proof -
  have k: "ev_kind (in_evidence i) = K_cancel" using ev by simp
  have run: "running (a_state a)" "a_state a \<noteq> S_stopping"
    using a by (auto simp: attempt_ok_def running_iff split: option.splits)
  have in22: "R22 \<in> set TRANSITIONS" using arg_cong[OF cancel_rows, of set] by auto
  have "R22 \<in> set (matchingRules i)"
    by (rule matching_memberI) (use lane in22 a(1) k run(1) in \<open>auto simp: R22_def rule_def guard_passes_def running_def\<close>)
  moreover have "r = R22" if "r \<in> set (matchingRules i)" for r
  proof -
    note f = matchingRulesD[OF that lane]
    then have "r_from r \<in> {From_terminal, From [S_stopping], From_nonterminal}"
      using cancel_from k by (simp add: list_all_iff)
    then have "r_from r = From_nonterminal" using f(3) a(1) run by (auto simp: running_def NONTERMINAL_def TERMINAL_def)
    then have "r \<in> set (filter (\<lambda>r. r_lane r = Lane_current \<and> K_cancel \<in> set (r_on r) \<and> r_from r = From_nonterminal) TRANSITIONS)"
      using f k by simp
    then show ?thesis unfolding cancel_rows by simp
  qed
  ultimately obtain rs where "matchingRules i = R22 # rs" by (cases "matchingRules i") auto
  then have red: "reduce i = apply_rule i gen R22" using lane a(1) run by (simp add: reduce_def)
  then show "out_verdict (reduce i) = V_applied" by (simp add: apply_rule_def Let_def R22_def rule_def)
  let ?d = "applyTemplate (T_cancel_dispatch Target_current True) (draft_of i gen)"
  have d: "dr_attempt ?d = Some a" "\<not> dr_committed ?d"
    using a(1) by (auto simp: applyTemplate_def template_cancel_dispatch_def Let_def)
  have first: "\<not> stop_first ?d r a" for r using a(4) by (rule plain_not_stop_first)
  let ?c = "commit_final O_cancelled Str_operator (cancel_turn_reason reason) None a ?d"
  have cd: "commit_done O_cancelled (cancel_turn_reason reason) Str_operator a ?d ?c" using d by (intro commit_final_done)
  have "dr_ev ?d = in_evidence i" using a(1) by (auto simp: applyTemplate_def template_cancel_dispatch_def Let_def)
  from cancel_template[OF d _ first] this ev
  have "applyTemplate (T_commit (Oc O_cancelled) Str_operator CRs_from_cancel False) ?d = ?c" by simp
  then have "rule_draft i gen R22 = settle_target (Some a) R22 ?c"
    using a(1) by (simp add: rule_draft_def R22_def rule_def)
  also have "\<dots> = ?c" using cd by (intro settle_hard) blast
  finally show "\<exists>t. out_attempt (reduce i) = Some (committed_attempt t a) \<and> tt_outcome t = O_cancelled \<and> tt_reason t = cancel_turn_reason reason"
    using cd by (auto simp: red apply_rule_def Let_def commit_done_def)
qed

lemma supersede_ends:
  fixes deps :: "'h ledger_deps" and lg :: "'h ledger" and ev :: turn_evidence and s :: turn_store and env :: observe_env
  assumes c: "attempt_ok c" "a_terminal c = None" "a_scope c = Plain"
  defines "q \<equiv> step_result deps env no_options lg True (supersede ev c) (Some c) s"
  shows "out_verdict q = V_applied" "\<exists>b. out_attempt q = Some b \<and> a_terminal b \<noteq> None"
    "\<exists>t. out_attempt q = Some (committed_attempt t c) \<and> tt_outcome t = O_cancelled \<and> tt_reason t = Rs_superseded"
proof -
  let ?i = "step_input deps lg (oe_now env) (Some c) s (supersede ev c)"
  have ev: "step_evidence env no_options (Some c) (supersede ev c) = supersede ev c"
    using c(3) by (simp add: step_evidence_def work_pending_def)
  have "classifyLane (in_attempt ?i) (in_evidence ?i) (in_holds ?i) = In_lane Lane_current (Some (a_generation c))"
    by (simp add: step_input_def classifyLane_def supersede_def cut_liveness_def Let_def SESSION_PRODUCED_KINDS_def)
  from cancel_plain[OF _ c this, of CR_superseded]
  have r: "out_verdict (reduce ?i) = V_applied" "\<exists>t. out_attempt (reduce ?i) = Some (committed_attempt t c) \<and> tt_outcome t = O_cancelled \<and> tt_reason t = Rs_superseded"
    by (auto simp: step_input_def supersede_def)
  show "out_verdict q = V_applied" unfolding q_def by (simp add: step_result_verdict ev r(1))
  show out: "\<exists>t. out_attempt q = Some (committed_attempt t c) \<and> tt_outcome t = O_cancelled \<and> tt_reason t = Rs_superseded"
    unfolding q_def using r(2) by (simp add: step_result_def Let_def ev drop_cancels_def own_opened_def opens_def add_probe_def)
  then show "\<exists>b. out_attempt q = Some b \<and> a_terminal b \<noteq> None" by (auto simp: committed_attempt_def)
qed

section \<open>The index on open sessions\<close>

text \<open>No open attempt of another id in the session of the attempt that a step writes.\<close>

definition session_free :: "turn_attempt \<Rightarrow> turn_store \<Rightarrow> bool" where
  "session_free n s \<longleftrightarrow> (a_terminal n = None \<longrightarrow> (\<forall>r\<in>set (ts_attempts s). row_open r \<and> a_sessionId (at_attempt r) = a_sessionId n \<longrightarrow> row_id r = a_attemptId n))"

lemma write_free:
  assumes "\<And>n. out_verdict r = V_applied \<Longrightarrow> out_attempt r = Some n \<Longrightarrow> session_free n s"
  shows "write_attempt now r s \<noteq> Inl (Index_violation Ux_turn_attempts_open_session)"
proof (cases "out_verdict r = V_applied \<and> out_attempt r \<noteq> None")
  case True
  then obtain n where n: "out_verdict r = V_applied" "out_attempt r = Some n" by auto
  with assms have "\<not> (\<exists>q\<in>set (ts_attempts s). session_clash n q)" by (auto simp: session_free_def session_clash_def)
  then show ?thesis using n by (auto simp: write_attempt_def upsertAttempt_def split: sum.splits if_splits)
qed (auto simp: write_attempt_def split: option.splits reduce_verdict.splits)

lemma open_in_session:
  assumes ok: "store_ok s" and r: "r \<in> set (ts_attempts s)" "row_open r"
  shows "findOpenAttemptForSession (a_sessionId (at_attempt r)) s = Some (at_attempt r)"
proof -
  obtain q where f: "find (\<lambda>x. a_sessionId (at_attempt x) = a_sessionId (at_attempt r) \<and> row_open x) (ts_attempts s) = Some q"
    using r by (cases "find (\<lambda>x. a_sessionId (at_attempt x) = a_sessionId (at_attempt r) \<and> row_open x) (ts_attempts s)")
      (auto simp: find_None_iff)
  then have q: "q \<in> set (ts_attempts s)" "row_open q" "a_sessionId (at_attempt q) = a_sessionId (at_attempt r)" using findD[OF f] by auto
  have a: "attempts_ok (ts_attempts s)" using store_okD(1)[OF ok] .
  have "row_id q = row_id r" using a q r unfolding attempts_ok_def by blast
  moreover have "distinct (map row_id (ts_attempts s))" using a unfolding attempts_ok_def by blast
  ultimately have "q = r" using q(1) r(1) by (auto simp: distinct_map inj_on_def)
  then show ?thesis using f by (simp add: findOpenAttemptForSession_def)
qed

lemma terminal_stays: "life_step (lifecycle_of a) ls (lifecycle_of n) \<Longrightarrow> a_terminal a \<noteq> None \<Longrightarrow> a_terminal n \<noteq> None"
  by (auto elim!: life_step.cases simp: lifecycle_of_def phase_of_def split: option.splits if_splits)

lemma stored_row:
  assumes "getAttempt i s = Some a"
  obtains q where "q \<in> set (ts_attempts s)" "at_attempt q = a" "row_id q = i"
  using getAttempt_Some[OF assms] by blast

lemma free_when_clear:
  assumes ok: "store_ok s" and sound: "step_sound att ev r" and fit: "fits att r s" and c: "conflicting att r s = None"
    and n: "out_verdict r = V_applied" "out_attempt r = Some n"
  shows "session_free n s"
  unfolding session_free_def
proof (intro impI ballI)
  fix q assume t: "a_terminal n = None" and q: "q \<in> set (ts_attempts s)" and
    "row_open q \<and> a_sessionId (at_attempt q) = a_sessionId n"
  then have o: "row_open q" and sq: "a_sessionId (at_attempt q) = a_sessionId n" by simp_all
  have f: "findOpenAttemptForSession (a_sessionId n) s = Some (at_attempt q)" using open_in_session[OF ok q o] sq by simp
  show "row_id q = a_attemptId n"
  proof (cases "opens att r \<or> moves att r")
    case True
    with c n f show ?thesis by (auto simp: conflicting_def split: if_splits)
  next
    case False
    then obtain a where a: "att = Some a" using n by (cases att) (auto simp: opens_def)
    with sound n have l: "life_step (lifecycle_of a) (labels (out_effects r)) (lifecycle_of n)" "a_attemptId n = a_attemptId a"
      by (auto simp: step_sound_def party_def)
    have ta: "a_terminal a = None" using terminal_stays[OF l(1)] t by blast
    have sa: "a_sessionId n = a_sessionId a" using False a n t by (simp add: moves_def)
    from fit a obtain p where p: "p \<in> set (ts_attempts s)" "at_attempt p = a" by (auto simp: fits_def elim: stored_row)
    from open_in_session[OF ok p(1)] ta p(2) f sa have "at_attempt q = a" by (simp add: row_open_def)
    with l(2) show ?thesis by simp
  qed
qed

lemma insert_rows_error: "insert_rows i rows s = Inl e \<Longrightarrow> \<exists>g. e = Second_commit i g"
  by (induction rows arbitrary: s) (auto split: prod.splits bool.splits if_splits)

lemma finish_step_error:
  assumes "finish_step deps env opts ev att r t = Inl e"
  shows "e = Host_failure \<or> (\<exists>i g. e = Second_commit i g)"
  using assms unfolding finish_step_def
  by (auto split: option.splits if_splits sum.splits reduce_verdict.splits prod.splits dest: insert_rows_error)

lemma write_attempt_error: "write_attempt now r s = Inl e \<Longrightarrow> \<exists>ix. e = Index_violation ix"
  by (auto simp: write_attempt_def split: reduce_verdict.splits option.splits sum.splits)

lemma persist_session_index:
  assumes "persist deps env opts ev att r t = Inl (Index_violation Ux_turn_attempts_open_session)"
  shows "write_attempt (oe_now env) r (fst t) = Inl (Index_violation Ux_turn_attempts_open_session)"
proof (cases "write_attempt (oe_now env) r (fst t)")
  case (Inr s1)
  obtain b s2 where rec: "recordEvidence (step_row env opts ev att r) s1 = (b, s2)" by fastforce
  show ?thesis using assms Inr rec finish_step_error[of deps env opts ev att r "(s2, snd t)"]
    by (cases b) (auto simp: persist_def)
qed (use assms in \<open>simp add: persist_def\<close>)

lemma persist_written:
  assumes p: "persist deps env opts ev att r t = Inr (t', so)" and r: "out_verdict r = V_applied" "out_attempt r = Some n"
  shows "getAttempt (a_attemptId n) (fst t') = Some n"
proof -
  from persist_parts[OF p] obtain s1 s2 where w: "write_attempt (oe_now env) r (fst t) = Inr s1"
    and rec: "recordEvidence (step_row env opts ev att r) s1 = (True, s2)"
    and fin: "finish_step deps env opts ev att r (s2, snd t) = Inr (t', so)" by blast
  from w r obtain s0 where u: "upsertAttempt n (oe_now env) (fst t) = Inr s0" "s1 = syncHolds (a_attemptId n) (out_holds r) (oe_now env) s0"
    by (auto simp: write_attempt_def split: sum.splits)
  have "ts_attempts s2 = ts_attempts s0" using recordEvidence_keep[OF rec step_row_plain] u(2) by simp
  moreover have "ts_attempts (fst t') = ts_attempts s2"
    using finish_step_store[OF fin] r insert_rows_grown by (fastforce simp: subject_of_def first_of_def grown_def)
  ultimately show ?thesis using upsert_inserted(5)[OF u(1), of "a_attemptId n"] by (simp add: getAttempt_def)
qed

lemma session_freed:
  assumes ok: "store_ok s" "store_ok s'" and c: "getAttempt (a_attemptId c) s = Some c" "a_sessionId c = a_sessionId n" "a_terminal c = None"
    and gone: "getAttempt (a_attemptId c) s' = Some b" "a_terminal b \<noteq> None"
    and fr: "\<And>j. j \<noteq> a_attemptId c \<Longrightarrow> getAttempt j s' = getAttempt j s"
  shows "session_free n s'"
  unfolding session_free_def
proof (intro impI ballI)
  fix q assume q: "q \<in> set (ts_attempts s')" and "row_open q \<and> a_sessionId (at_attempt q) = a_sessionId n"
  then have o: "a_terminal (at_attempt q) = None" "a_sessionId (at_attempt q) = a_sessionId n" by (simp_all add: row_open_def)
  have "distinct (map row_id (ts_attempts s'))" using store_okD(1)[OF ok(2)] by (simp add: attempts_ok_def)
  then have g: "getAttempt (row_id q) s' = Some (at_attempt q)" using q by (rule getAttempt_row)
  then have "row_id q \<noteq> a_attemptId c" using gone o(1) by auto
  with g fr have "getAttempt (row_id q) s = Some (at_attempt q)" by simp
  then obtain p where p: "p \<in> set (ts_attempts s)" "at_attempt p = at_attempt q" by (auto elim: stored_row)
  from c(1) obtain p' where p': "p' \<in> set (ts_attempts s)" "at_attempt p' = c" by (auto elim: stored_row)
  have "at_attempt p = at_attempt p'"
    using open_in_session[OF ok(1) p(1)] open_in_session[OF ok(1) p'(1)] o p(2) p'(2) c(2,3) by (simp add: row_open_def)
  with p(2) p'(2) \<open>row_id q \<noteq> a_attemptId c\<close> show "row_id q = a_attemptId n" by simp
qed

text \<open>A dispatch onto a session with a plain attempt: the attempt in the way has ended before the new one is written.\<close>

lemma superseded_session_index:
  assumes ok: "store_ok (fst t)" and c: "getAttempt (a_attemptId c) (fst t) = Some c" "a_terminal c = None" "a_scope c = Plain"
    and n: "out_attempt r = Some n" "a_attemptId c \<noteq> a_attemptId n" "a_sessionId c = a_sessionId n"
    and p1: "nested_step deps env lg (supersede ev c) c t = Inr (t1, so1)"
  shows "persist deps env opts ev att r t1 \<noteq> Inl (Index_violation Ux_turn_attempts_open_session)"
proof
  assume p2: "persist deps env opts ev att r t1 = Inl (Index_violation Ux_turn_attempts_open_session)"
  let ?q = "step_result deps env no_options lg True (supersede ev c) (Some c) (fst t)"
  have okc: "attempt_ok c" using loaded_stored[OF ok, of "Some c"] c(1) by (auto simp: loaded_def)
  note ends = supersede_ends[OF okc c(2,3), of deps env lg ev "fst t"]
  have sc: "step_sound (Some c) (step_evidence env no_options (Some c) (supersede ev c)) ?q"
    using loaded_stored[OF ok, of "Some c"] c(1) by (auto intro: step_result_sound)
  obtain b where b: "out_attempt ?q = Some b" "a_terminal b \<noteq> None" using ends(2) by blast
  have bid: "a_attemptId b = a_attemptId c" using sc b(1) by (auto simp: step_sound_def party_def)
  have fc: "fits (Some c) ?q (fst t)" using c(1) by (simp add: fits_def)
  note po = persist_ok[OF ok sc fc p1[unfolded nested_step_def]]
  have s1: "store_ok (fst t1)" and fr: "\<And>j. j \<noteq> a_attemptId c \<Longrightarrow> getAttempt j (fst t1) = getAttempt j (fst t)"
    using po subject_id[OF sc] by auto
  have gc: "getAttempt (a_attemptId c) (fst t1) = Some b"
    using persist_written[OF p1[unfolded nested_step_def] ends(1) b(1)] bid by simp
  have "session_free n (fst t1)" using session_freed[OF ok s1 _ n(3) c(2) gc b(2) fr] c(1) by blast
  from persist_session_index[OF p2] write_free[of r "fst t1"] this n(1) show False by auto
qed

lemma nested_session_index:
  assumes ok: "store_ok (fst t)" and c: "getAttempt (a_attemptId c) (fst t) = Some c" "a_terminal c = None" "a_scope c = Plain"
  shows "nested_step deps env lg (supersede ev c) c t \<noteq> Inl (Index_violation Ux_turn_attempts_open_session)"
proof
  assume p: "nested_step deps env lg (supersede ev c) c t = Inl (Index_violation Ux_turn_attempts_open_session)"
  let ?q = "step_result deps env no_options lg True (supersede ev c) (Some c) (fst t)"
  have okc: "attempt_ok c" using loaded_stored[OF ok, of "Some c"] c(1) by (auto simp: loaded_def)
  obtain b where b: "out_attempt ?q = Some b" "a_terminal b \<noteq> None"
    using supersede_ends(2)[OF okc c(2,3), of deps env lg ev "fst t"] by blast
  have "write_attempt now ?q (fst t) \<noteq> Inl (Index_violation Ux_turn_attempts_open_session)" for now
    by (rule write_free) (use b in \<open>auto simp: session_free_def\<close>)
  with persist_session_index[OF p[unfolded nested_step_def]] show False by blast
qed

lemma applyStep_session_index:
  assumes ok: "store_ok (fst t)" and stored: "\<And>a. att = Some a \<Longrightarrow> getAttempt (a_attemptId a) (fst t) = Some a"
    and fresh: "fits att (step_result deps env opts lg False ev att (fst t)) (fst t)"
  shows "applyStep deps env opts lg ev att t \<noteq> Inl (Index_violation Ux_turn_attempts_open_session)"
proof
  assume ap: "applyStep deps env opts lg ev att t = Inl (Index_violation Ux_turn_attempts_open_session)"
  let ?ev = "step_evidence env opts att ev" and ?r = "step_result deps env opts lg False ev att (fst t)"
  have sound: "step_sound att ?ev ?r" using loaded_stored[OF ok stored] by (rule step_result_sound)
  show False
  proof (cases "conflicting att ?r (fst t)")
    case None
    with ap have "persist deps env opts ?ev att ?r t = Inl (Index_violation Ux_turn_attempts_open_session)"
      by (auto simp: applyStep_def Let_def split: sum.splits)
    from persist_session_index[OF this] write_free[of ?r "fst t"] free_when_clear[OF ok sound fresh None] show False by blast
  next
    case (Some c)
    from conflicting_found[OF ok Some] obtain n where n: "out_attempt ?r = Some n" "a_attemptId c \<noteq> a_attemptId n"
      "getAttempt (a_attemptId c) (fst t) = Some c" "a_sessionId c = a_sessionId n" "a_terminal c = None" by blast
    show False
    proof (cases "a_scope c = Plain")
      case False
      with Some ap have "persist deps env opts ?ev att conflict_result t = Inl (Index_violation Ux_turn_attempts_open_session)"
        by (auto simp: applyStep_def Let_def split: sum.splits)
      from persist_session_index[OF this] show False by (simp add: write_attempt_def conflict_result_def)
    next
      case True
      from ap Some True nested_session_index[OF ok n(3,5) True] obtain t1 so1 where
        "nested_step deps env lg (supersede ?ev c) c t = Inr (t1, so1)"
        "persist deps env opts ?ev att ?r t1 = Inl (Index_violation Ux_turn_attempts_open_session)"
        by (auto simp: applyStep_def Let_def split: sum.splits)
      with superseded_session_index[OF ok n(3,5) True n(1,2,4)] show False by blast
    qed
  qed
qed

end
