(* ===== verification/LedgerReturns.thy ===== *)
theory LedgerReturns
  imports LedgerSafety
begin

text \<open>
  Observations return. Only the expiry of a hold brings held evidence back, and what it brings back is the
  end of a turn, so the recursion is two deep.
\<close>

section \<open>Re-observation\<close>

lemma step_evidence_kind: "ev_kind (step_evidence env opts att ev) = K_hold_expired \<longleftrightarrow> ev_kind ev = K_hold_expired"
  by (auto simp: step_evidence_def work_pending_def ends_turn_def held_back_def split: option.splits)

definition quiet :: "reduce_result \<Rightarrow> bool" where
  "quiet r \<longleftrightarrow> (\<forall>x e f. E_reevaluate x e f \<in> set (out_effects r) \<longrightarrow> e = [])"

lemma quiet_step:
  assumes l: "loaded att s" and k: "ev_kind ev \<noteq> K_hold_expired"
  shows "quiet (step_result deps env opts lg nested ev att s)"
proof -
  let ?i = "step_input deps lg (oe_now env) att s (step_evidence env opts att ev)"
  have "e = []" if "E_reevaluate x e f \<in> set (out_effects (reduce ?i))" for x e f
  proof (cases att)
    case None
    then show ?thesis using reduce_raised_open[OF _ _ that] by (simp add: step_input_def)
  next
    case (Some a)
    then show ?thesis using reduce_raised[OF _ _ _ that] l k step_evidence_kind[of env opts att ev]
      by (simp add: step_input_def loaded_def holds_keyed_def)
  qed
  then show ?thesis
    by (auto simp: quiet_def step_result_def Let_def drop_cancels_def own_opened_def add_probe_def split: option.splits if_splits)
qed

lemma quiet_conflict: "quiet conflict_result"
  by (simp add: quiet_def conflict_result_def)

lemma held_quiet: "quiet r \<Longrightarrow> e \<in> set (out_effects r) \<Longrightarrow> held_evidence s cause e = None"
  by (cases e) (auto simp: quiet_def held_evidence_def)

lemma persist_result: "persist deps env opts ev att r t = Inr (t', so) \<Longrightarrow> so_result so = r"
  by (elim persist_parts) (auto simp: finish_step_def split: option.splits if_splits sum.splits reduce_verdict.splits)

lemma applyStep_quiet:
  assumes ok: "store_ok (fst t)" and stored: "\<And>a. att = Some a \<Longrightarrow> getAttempt (a_attemptId a) (fst t) = Some a"
    and k: "ev_kind ev \<noteq> K_hold_expired" and ap: "applyStep deps env opts lg ev att t = Inr (t', sos)"
  shows "\<forall>so\<in>set sos. quiet (so_result so)"
proof -
  let ?ev = "step_evidence env opts att ev" and ?r = "step_result deps env opts lg False ev att (fst t)"
  have r: "quiet ?r" using quiet_step[OF loaded_stored[OF ok stored] k] .
  have q: "quiet (step_result deps env no_options lg True (supersede ?ev c) (Some c) (fst t))" if "conflicting att ?r (fst t) = Some c" for c
  proof (rule quiet_step)
    have "getAttempt (a_attemptId c) (fst t) = Some c" using conflicting_found[OF ok that] by blast
    then show "loaded (Some c) (fst t)" using loaded_stored[OF ok, of "Some c"] by auto
  qed (simp add: supersede_def)
  show ?thesis using ap r q quiet_conflict
    by (auto simp: applyStep_def Let_def nested_step_def split: option.splits if_splits sum.splits dest!: persist_result)
qed

lemma observe_all_quiet:
  "quiet r \<Longrightarrow> set es \<subseteq> set (out_effects r) \<Longrightarrow> observe_all obs cause es lg = Some (lg, None)"
  by (induction es) (auto simp: held_quiet)

lemma after_steps_quiet: "\<forall>so\<in>set sos. quiet (so_result so) \<Longrightarrow> \<exists>l. after_steps obs now sos lg = Some (l, None)"
  by (induction sos arbitrary: lg) (auto simp: observe_all_quiet)

text \<open>An observer that returns on the end of a turn lets the whole list return.\<close>

definition answers :: "('h ledger \<Rightarrow> bool) \<Rightarrow> (turn_evidence \<Rightarrow> 'h ledger \<Rightarrow> 'h ledger_outcome) \<Rightarrow> bool" where
  "answers P obs \<longleftrightarrow> keeps P (\<lambda>_. True) obs \<and> (\<forall>again l. ev_kind again = K_turn_end \<or> ev_kind again = K_transcript_final \<longrightarrow> P l \<longrightarrow> obs again l \<noteq> None)"

lemma observe_all_returns:
  assumes k: "answers P obs" and "P lg"
  shows "observe_all obs cause es lg \<noteq> None"
  using assms(2)
proof (induction es arbitrary: lg)
  case (Cons x xs)
  show ?case
  proof (cases "held_evidence (lg_store lg) cause x")
    case None
    with Cons show ?thesis by simp
  next
    case (Some again)
    obtain l1 e1 where o: "obs again lg = Some (l1, e1)"
      using k held_not_started[OF Some] Cons.prems unfolding answers_def by (metis old.prod.exhaust option.exhaust)
    have "P l1" using k held_not_started[OF Some] Cons.prems o unfolding answers_def keeps_def by blast
    then show ?thesis using Cons.IH[of l1] Some o by (cases e1) auto
  qed
qed simp

lemma after_steps_returns:
  assumes k: "answers P obs" and "P lg"
  shows "after_steps obs now sos lg \<noteq> None"
  using assms(2)
proof (induction sos arbitrary: lg)
  case (Cons so sos)
  let ?lg = "lg\<lparr>lg_calls := lg_calls lg @ step_calls now so\<rparr>"
  have P: "P ?lg" using Cons.prems k by (simp add: answers_def keeps_def)
  obtain l1 e1 where o: "observe_all obs (ev_eventId (so_evidence so)) (out_effects (so_result so)) ?lg = Some (l1, e1)"
    using observe_all_returns[OF k P] by fastforce
  have "keeps P (\<lambda>_. True) obs" using k by (simp add: answers_def)
  from observe_all_keeps[OF this P o] have "P l1" by blast
  then show ?case using Cons o by (cases e1) auto
qed simp

section \<open>Returning\<close>

lemma observe_step:
  assumes "\<And>s h sos. applyStep deps env opts lg ev (resolveAttempt ev (lg_store lg)) (lg_store lg, lg_host lg) = Inr ((s, h), sos)
      \<Longrightarrow> after_steps (again_of (observe n deps env opts)) (oe_now env) sos (lg\<lparr>lg_store := s, lg_host := h\<rparr>) \<noteq> None"
  shows "observe (Suc n) deps env opts ev lg \<noteq> None"
proof (cases "applyStep deps env opts lg ev (resolveAttempt ev (lg_store lg)) (lg_store lg, lg_host lg)")
  case (Inl e)
  then show ?thesis by (cases e) (auto simp: Let_def split: option.splits prod.splits)
next
  case (Inr b)
  obtain s h sos where b: "b = ((s, h), sos)" by (metis surj_pair)
  obtain l e where o: "after_steps (again_of (observe n deps env opts)) (oe_now env) sos (lg\<lparr>lg_store := s, lg_host := h\<rparr>) = Some (l, e)"
    using assms Inr b by fastforce
  show ?thesis using Inr b o by (cases e) (auto simp: Let_def split: option.splits prod.splits)
qed

lemma observe_quiet_returns:
  assumes ok: "store_ok (lg_store lg)" and k: "ev_kind ev \<noteq> K_hold_expired"
  shows "observe (Suc n) deps env opts ev lg \<noteq> None"
proof (rule observe_step)
  fix s h sos
  assume ap: "applyStep deps env opts lg ev (resolveAttempt ev (lg_store lg)) (lg_store lg, lg_host lg) = Inr ((s, h), sos)"
  have "\<forall>so\<in>set sos. quiet (so_result so)"
    using applyStep_quiet[OF _ _ k ap] ok resolve_stored[OF ok] by simp
  from after_steps_quiet[OF this]
  show "after_steps (again_of (observe n deps env opts)) (oe_now env) sos (lg\<lparr>lg_store := s, lg_host := h\<rparr>) \<noteq> None" by (metis option.distinct(1))
qed

lemma observe_returns:
  assumes ok: "store_ok (lg_store lg)" and f: "plain_fresh ev (lg_store lg)"
  shows "observe (Suc (Suc n)) deps env opts ev lg \<noteq> None"
proof (rule observe_step)
  fix s h sos
  assume ap: "applyStep deps env opts lg ev (resolveAttempt ev (lg_store lg)) (lg_store lg, lg_host lg) = Inr ((s, h), sos)"
  have s: "store_ok s" using step_store_ok[OF ok f ap] by simp
  have "keeps (store_ok \<circ> lg_store) (\<lambda>_. True) (again_of (observe (Suc n) deps env opts))"
    using observe_ok[where n = "Suc n"] unfolding keeps_def by (force simp: plain_fresh_def simp del: observe.simps)
  moreover have "again_of (observe (Suc n) deps env opts) again l \<noteq> None"
    if "ev_kind again = K_turn_end \<or> ev_kind again = K_transcript_final" "store_ok (lg_store l)" for again l
    using observe_quiet_returns[OF that(2), of again n deps env opts] that(1) by (auto simp del: observe.simps)
  ultimately have "answers (store_ok \<circ> lg_store) (again_of (observe (Suc n) deps env opts))" by (simp add: answers_def del: observe.simps)
  from after_steps_returns[OF this] s
  show "after_steps (again_of (observe (Suc n) deps env opts)) (oe_now env) sos (lg\<lparr>lg_store := s, lg_host := h\<rparr>) \<noteq> None" by simp
qed

section \<open>Failing\<close>

text \<open>The failures that an observation may end with.\<close>

definition expected_failure :: "ledger_error \<Rightarrow> bool" where
  "expected_failure e \<longleftrightarrow> e = Index_violation Ux_turn_attempts_task \<or> e = Host_failure \<or> (\<exists>i g. e = Second_commit i g)"

lemma step_failure:
  assumes "e \<noteq> Duplicate_evidence" "e \<noteq> Index_violation Ux_turn_attempts_open_session"
  shows "expected_failure e"
proof (cases e)
  case (Index_violation ix)
  with assms show ?thesis by (cases ix) (auto simp: expected_failure_def)
qed (use assms in \<open>auto simp: expected_failure_def\<close>)

lemma observe_fails:
  assumes ok: "store_ok (lg_store lg)" "plain_fresh ev (lg_store lg)" and o: "observe n deps env opts ev lg = Some (lg', Inl err)"
  shows "expected_failure err"
proof -
  have "observable (\<lambda>l. store_ok (lg_store l)) (\<lambda>ev l. plain_fresh ev (lg_store l)) expected_failure deps env opts"
  proof (rule store_observable)
    fix l ev e
    assume l: "store_ok (lg_store l)" "plain_fresh ev (lg_store l)" and e: "e \<noteq> Duplicate_evidence"
      and ap: "applyStep deps env opts l ev (resolveAttempt ev (lg_store l)) (lg_store l, lg_host l) = Inl e"
    from applyStep_session_index[of "(lg_store l, lg_host l)" "resolveAttempt ev (lg_store l)" deps env opts l ev]
    show "expected_failure e"
      using l ap resolve_stored[OF l(1)] resolve_fits[OF l, of deps env opts l] step_failure[OF e] by auto
  qed
  from observe_keeps[OF this ok o] show ?thesis by blast
qed

end
