(* ===== verification/TurnLedgerOps.thy ===== *)
theory TurnLedgerOps
  imports TurnLedger
begin

text \<open>
  The other operations of \<open>turn-ledger/ledger.ts\<close>: settling the stop of a writer from the reply of its host or
  from its absence, the bounded inspection of writers that are still stopping, attempt-less notices,
  delivery claims, the sweep of expired holds, and publishing the pending rows. Replies of ports are
  arguments; a fresh UUID is an argument.
\<close>

section \<open>Observing once\<close>

text \<open>Two levels are enough: what a re-observation observes is not the expiry of a hold.\<close>

definition OBSERVE_DEPTH :: nat where "OBSERVE_DEPTH = 2"

definition observe_now :: "'h ledger_deps \<Rightarrow> observe_env \<Rightarrow> observe_options \<Rightarrow> turn_evidence \<Rightarrow> 'h ledger \<Rightarrow> ('h ledger \<times> (ledger_error + observe_result)) option" where
  "observe_now = observe OBSERVE_DEPTH"

section \<open>Settling a stop\<close>

definition js_id :: "ident option \<Rightarrow> js_value" where
  "js_id x = (case x of None \<Rightarrow> JNull | Some t \<Rightarrow> JStr t)"

definition js_num :: "int option \<Rightarrow> js_value" where
  "js_num x = (case x of None \<Rightarrow> JNull | Some n \<Rightarrow> JNum (of_int n))"

text \<open>The reply names the request exactly: every compared member is present and equal.\<close>

definition receipt_names :: "cancel_request \<Rightarrow> js_value option \<Rightarrow> bool" where
  "receipt_names q r \<longleftrightarrow>
     map (member r) [''stopRequestId'', ''attemptId'', ''generation'', ''sessionId'', ''meshId'', ''taskId'', ''nodeId'', ''dispatchNonce'', ''providerType'', ''ownerDaemonId'']
     = [map_option JStr (cq_stopRequestId q), Some (JStr (cq_attemptId q)), Some (js_num (Some (cq_generation q))), Some (JStr (cq_sessionId q)),
        Some (js_id (cq_meshId q)), Some (js_id (cq_taskId q)), Some (js_id (cq_nodeId q)), Some (js_num (cq_dispatchNonce q)),
        Some (js_id (cq_providerType q)), Some (js_id (cq_ownerDaemonId q))]"

definition confirms_stop :: "js_value option \<Rightarrow> bool" where
  "confirms_stop r \<longleftrightarrow> member r ''success'' = Some (JBool True) \<and> member r ''quiescent'' = Some (JBool True)
     \<and> (case member r ''incarnation'' of Some (JStr t) \<Rightarrow> t \<noteq> [] | _ \<Rightarrow> False)"

definition names_stop :: "cancel_request \<Rightarrow> turn_attempt option \<Rightarrow> bool" where
  "names_stop q att = (case att of
       None \<Rightarrow> False
     | Some a \<Rightarrow> a_state a = S_stopping \<and> a_generation a = cq_generation q \<and> a_sessionId a = cq_sessionId q
         \<and> map_option ws_requestId (d_writerStop (a_data a)) = cq_stopRequestId q
         \<and> a_meshId a = cq_meshId q \<and> a_taskId a = cq_taskId q \<and> pinnedMeshNodeIdMatches (a_nodeId a) (cq_nodeId q)
         \<and> a_providerType a = cq_providerType q \<and> a_dispatchNonce a = cq_dispatchNonce q)"

definition absence_unnamed :: "js_value option \<Rightarrow> bool" where
  "absence_unnamed r \<longleftrightarrow> member (member r ''evidence'') ''kind'' = Some (JStr ''host_session_absent'')
     \<and> (case member (member r ''evidence'') ''hostBootId'' of Some (JStr t) \<Rightarrow> js_trim t = [] | _ \<Rightarrow> True)"

definition settle_evidence :: "ident \<Rightarrow> ms \<Rightarrow> ident \<Rightarrow> ident \<Rightarrow> ident \<Rightarrow> int \<Rightarrow> turn_evidence" where
  "settle_evidence self now eventId sessionId attemptId gen = \<lparr>ev_eventId = eventId, ev_at = now, ev_source = Src_scheduler,
     ev_sessionId = sessionId, ev_attemptRef = Some \<lparr>ar_attemptId = attemptId, ar_generation = gen\<rparr>, ev_taskId = None,
     ev_observedBy = self, ev_body = OperatorStatus OS_failed OR_operator_update\<rparr>"

definition receipt_object :: "js_value option \<Rightarrow> js_object option" where
  "receipt_object r = (case r of Some (JObj kvs) \<Rightarrow> Some kvs | _ \<Rightarrow> None)"

definition settleWriterStop :: "'h ledger_deps \<Rightarrow> observe_env \<Rightarrow> ident \<Rightarrow> cancel_request \<Rightarrow> js_value option \<Rightarrow> 'h ledger \<Rightarrow> 'h ledger_outcome" where
  "settleWriterStop deps env uuid q r lg =
     (if \<not> confirms_stop r \<or> \<not> names_stop q (getAttempt (cq_attemptId q) (lg_store lg)) \<or> \<not> receipt_names q r \<or> absence_unnamed r
      then Some (lg, None)
      else
        let eventId = ''writer_settled:'' @ or_default (cq_stopRequestId q) ''undefined'' @ '':'' @ uuid;
            ev = settle_evidence (ld_selfDaemonId deps) (oe_now env) eventId (cq_sessionId q) (cq_attemptId q) (cq_generation q)
        in case observe_now deps env (no_options\<lparr>oo_receipt := receipt_object r\<rparr>) ev (lg\<lparr>lg_confirmedStops := eventId # lg_confirmedStops lg\<rparr>) of
             None \<Rightarrow> None
           | Some (lg', res) \<Rightarrow>
               let done = lg'\<lparr>lg_confirmedStops := removeAll eventId (lg_confirmedStops lg')\<rparr>
               in (case res of
                     Inl err \<Rightarrow> Some (done, Some err)
                   | Inr ob \<Rightarrow> Some (if ob_rule ob = Some ''writer_settled'' then done\<lparr>lg_calls := lg_calls done @ [Call_revokeWorkerBind q]\<rparr> else done, None)))"

definition inspect_request :: "turn_attempt \<Rightarrow> ident \<Rightarrow> cancel_request" where
  "inspect_request a requestId = \<lparr>cq_attemptId = a_attemptId a, cq_generation = a_generation a, cq_sessionId = a_sessionId a,
     cq_dispatchNonce = a_dispatchNonce a, cq_messageId = a_messageId a, cq_meshId = a_meshId a, cq_taskId = a_taskId a,
     cq_nodeId = a_nodeId a, cq_providerType = a_providerType a, cq_ownerDaemonId = Some (a_ownerDaemonId a),
     cq_stopRequestId = Some requestId, cq_inspectOnly = True, cq_revokeBind = False\<rparr>"

definition settleUnreachable :: "'h ledger_deps \<Rightarrow> observe_env \<Rightarrow> turn_attempt \<Rightarrow> settled_by \<Rightarrow> 'h ledger \<Rightarrow> ('h ledger \<times> (ledger_error + bool)) option" where
  "settleUnreachable deps env a mode lg =
     (case d_writerStop (a_data a) of
        None \<Rightarrow> Some (lg, Inr False)
      | Some stop \<Rightarrow>
          let eventId = ''writer_unreachable:'' @ ws_requestId stop;
              ev = settle_evidence (ld_selfDaemonId deps) (oe_now env) eventId (a_sessionId a) (a_attemptId a) (a_generation a)
          in case observe_now deps env no_options ev (lg\<lparr>lg_unreachableSettles := AList.update eventId mode (lg_unreachableSettles lg)\<rparr>) of
               None \<Rightarrow> None
             | Some (lg', res) \<Rightarrow>
                 let done = lg'\<lparr>lg_unreachableSettles := AList.delete eventId (lg_unreachableSettles lg')\<rparr>
                 in (case res of
                       Inl err \<Rightarrow> Some (done, Inl err)
                     | Inr ob \<Rightarrow>
                         if ob_rule ob = Some ''writer_unreachable_settled''
                         then Some (done\<lparr>lg_calls := lg_calls done
                                @ [Call_revokeWorkerBind ((inspect_request a (ws_requestId stop))\<lparr>cq_revokeBind := True, cq_inspectOnly := False\<rparr>)]\<rparr>, Inr True)
                         else Some (done, Inr False)))"

section \<open>Inspecting the writers that are still stopping\<close>

datatype stop_answer = Stop_error | Stop_receipt "js_value option"

definition UNREACHABLE_REASONS :: "string list" where
  "UNREACHABLE_REASONS = [''worker_host_unresolved'', ''strict_stop_peer_capability_unconfirmed'', ''uncaptured_legacy_stop_identity'']"

definition inspectionUnreachable :: "stop_answer \<Rightarrow> bool" where
  "inspectionUnreachable out =
     (case out of
        Stop_error \<Rightarrow> True
      | Stop_receipt r \<Rightarrow>
          (case r of
             Some (JObj kvs) \<Rightarrow> member r ''success'' \<noteq> Some (JBool True)
               \<and> member r ''code'' = Some (JStr ''writer_checkpoint_pending'') \<and> member r ''reason'' \<in> (Some \<circ> JStr) ` set UNREACHABLE_REASONS
           | Some (JArr _) \<Rightarrow> False
           | _ \<Rightarrow> True))"

definition STOP_INSPECT_BACKOFF_BASE_MS :: ms where "STOP_INSPECT_BACKOFF_BASE_MS = 60000"
definition STOP_INSPECT_BACKOFF_CAP_MS :: ms where "STOP_INSPECT_BACKOFF_CAP_MS = 600000"

definition stopInspectDelayMs :: "nat \<Rightarrow> ms" where
  "stopInspectDelayMs unsettled =
     (if unsettled \<le> 3 then 0 else min STOP_INSPECT_BACKOFF_CAP_MS (STOP_INSPECT_BACKOFF_BASE_MS * 2 ^ (unsettled - 4)))"

record stop_ports =
  sp_cancelDispatch :: "cancel_request \<Rightarrow> stop_answer"
  sp_writerNodeRemoved :: "ident \<Rightarrow> ident \<Rightarrow> bool"
  sp_uuid :: "ident \<Rightarrow> ident"

record 'h stop_watch =
  sw_ledger :: "'h ledger"
  sw_backoff :: "(ident \<times> (nat \<times> ms)) list"
  sw_unreachableSince :: "(ident \<times> ms) list"
  sw_removedSeen :: "ident list"

type_synonym 'h watch_outcome = "('h stop_watch \<times> ledger_error option) option"

definition backoff_key :: "turn_attempt \<Rightarrow> ident \<Rightarrow> ident" where
  "backoff_key a requestId = a_attemptId a @ '':'' @ requestId"

text \<open>One inspection, and the exact stop when the host says that none ever reached it.\<close>

definition never_attempted :: "stop_answer \<Rightarrow> bool" where
  "never_attempted out = (case out of Stop_error \<Rightarrow> False | Stop_receipt r \<Rightarrow> member r ''reason'' = Some (JStr ''exact_stop_never_attempted''))"

definition inspect_calls :: "stop_ports \<Rightarrow> cancel_request \<Rightarrow> cancel_request list" where
  "inspect_calls ports q = (if never_attempted (sp_cancelDispatch ports q) then [q, q\<lparr>cq_inspectOnly := False\<rparr>] else [q])"

definition inspect_answer :: "stop_ports \<Rightarrow> cancel_request \<Rightarrow> stop_answer" where
  "inspect_answer ports q = sp_cancelDispatch ports (last (inspect_calls ports q))"

text \<open>An error while settling is caught and counts as an inspection that failed.\<close>

definition inspect_writer :: "'h ledger_deps \<Rightarrow> observe_env \<Rightarrow> stop_ports \<Rightarrow> cancel_request \<Rightarrow> 'h ledger \<Rightarrow> ('h ledger \<times> stop_answer) option" where
  "inspect_writer deps env ports q lg =
     (let out = inspect_answer ports q; lg1 = lg\<lparr>lg_calls := lg_calls lg @ map Call_cancelDispatch (inspect_calls ports q)\<rparr>
      in case out of
           Stop_error \<Rightarrow> Some (lg1, Stop_error)
         | Stop_receipt r \<Rightarrow>
             (case settleWriterStop deps env (sp_uuid ports (cq_attemptId q)) q r lg1 of
                None \<Rightarrow> None
              | Some (lg2, Some _) \<Rightarrow> Some (lg2, Stop_error)
              | Some (lg2, None) \<Rightarrow> Some (lg2, out)))"

definition add_seen :: "ident \<Rightarrow> ident list \<Rightarrow> ident list" where
  "add_seen k ks = (if k \<in> set ks then ks else ks @ [k])"

definition count_unsettled :: "observe_env \<Rightarrow> ident \<Rightarrow> 'h stop_watch \<Rightarrow> 'h stop_watch" where
  "count_unsettled env key w =
     (let n = (case map_of (sw_backoff w) key of Some (n, _) \<Rightarrow> n | None \<Rightarrow> 0) + 1
      in w\<lparr>sw_backoff := AList.update key (n, oe_now env + stopInspectDelayMs n) (sw_backoff w)\<rparr>)"

definition node_removed :: "stop_ports \<Rightarrow> turn_attempt \<Rightarrow> bool" where
  "node_removed ports a = (case (a_meshId a, a_nodeId a) of
     (Some m, Some nd) \<Rightarrow> m \<noteq> [] \<and> nd \<noteq> [] \<and> sp_writerNodeRemoved ports m nd
   | _ \<Rightarrow> False)"

definition settle_or_count :: "'h ledger_deps \<Rightarrow> observe_env \<Rightarrow> turn_attempt \<Rightarrow> ident \<Rightarrow> settled_by \<Rightarrow> 'h stop_watch \<Rightarrow> 'h watch_outcome" where
  "settle_or_count deps env a key mode w =
     (case settleUnreachable deps env a mode (sw_ledger w) of
        None \<Rightarrow> None
      | Some (lg, Inl err) \<Rightarrow> Some (w\<lparr>sw_ledger := lg\<rparr>, Some err)
      | Some (lg, Inr settled) \<Rightarrow>
          if settled
          then Some (w\<lparr>sw_ledger := lg, sw_unreachableSince := AList.delete key (sw_unreachableSince w),
                 sw_removedSeen := (if mode = Node_removed then removeAll key (sw_removedSeen w) else sw_removedSeen w)\<rparr>, None)
          else Some (count_unsettled env key (w\<lparr>sw_ledger := lg\<rparr>), None))"

definition still_stopping :: "'h ledger_deps \<Rightarrow> observe_env \<Rightarrow> stop_ports \<Rightarrow> turn_attempt \<Rightarrow> ident \<Rightarrow> stop_answer \<Rightarrow> 'h stop_watch \<Rightarrow> 'h watch_outcome" where
  "still_stopping deps env ports a key out w =
     (if node_removed ports a
      then (if key \<in> set (sw_removedSeen w) then settle_or_count deps env a key Node_removed w
            else Some (count_unsettled env key (w\<lparr>sw_removedSeen := add_seen key (sw_removedSeen w)\<rparr>), None))
      else
        let w1 = w\<lparr>sw_removedSeen := removeAll key (sw_removedSeen w)\<rparr>
        in if inspectionUnreachable out
           then let since = (case map_of (sw_unreachableSince w1) key of Some t \<Rightarrow> t | None \<Rightarrow> oe_now env);
                    w2 = w1\<lparr>sw_unreachableSince := AList.update key since (sw_unreachableSince w1)\<rparr>;
                    bound = stoppingUnreachableMaxMs (ld_policy deps)
                in if bound > 0 \<and> oe_now env - since \<ge> bound then settle_or_count deps env a key Unreachable_bound w2
                   else Some (count_unsettled env key w2, None)
           else Some (count_unsettled env key (w1\<lparr>sw_unreachableSince := AList.delete key (sw_unreachableSince w1)\<rparr>), None))"

text \<open>
  The inspection of one attempt. The attempt is the one that the loop listed; the ledger is the one at the
  time the reply is there.
\<close>

definition resume_writer :: "'h ledger_deps \<Rightarrow> observe_env \<Rightarrow> stop_ports \<Rightarrow> turn_attempt \<Rightarrow> ident \<Rightarrow> 'h stop_watch \<Rightarrow> 'h watch_outcome" where
  "resume_writer deps env ports a requestId w =
     (let key = backoff_key a requestId in
      case inspect_writer deps env ports (inspect_request a requestId) (sw_ledger w) of
        None \<Rightarrow> None
      | Some (lg, out) \<Rightarrow>
          let w1 = w\<lparr>sw_ledger := lg\<rparr>
          in if map_option a_state (getAttempt (a_attemptId a) (lg_store lg)) = Some S_stopping
             then still_stopping deps env ports a key out w1
             else Some (w1\<lparr>sw_backoff := AList.delete key (sw_backoff w1)\<rparr>, None))"

definition inspection_due :: "observe_env \<Rightarrow> ident option \<Rightarrow> ident \<Rightarrow> 'h stop_watch \<Rightarrow> bool" where
  "inspection_due env only key w =
     (truthy only \<or> (case map_of (sw_backoff w) key of Some (_, due) \<Rightarrow> \<not> oe_now env < due | None \<Rightarrow> True))"

definition stopping_writers :: "'h ledger_deps \<Rightarrow> ident option \<Rightarrow> 'h ledger \<Rightarrow> (turn_attempt \<times> ident) list" where
  "stopping_writers deps only lg = List.map_filter (\<lambda>a.
     if (truthy only \<and> Some (a_attemptId a) \<noteq> only) \<or> a_state a \<noteq> S_stopping then None
     else map_option (\<lambda>stop. (a, ws_requestId stop)) (d_writerStop (a_data a)))
     (listOpenAttempts None (Some (ld_selfDaemonId deps)) (lg_store lg))"

fun resume_all :: "'h ledger_deps \<Rightarrow> observe_env \<Rightarrow> stop_ports \<Rightarrow> ident option \<Rightarrow> (turn_attempt \<times> ident) list \<Rightarrow> 'h stop_watch \<Rightarrow> 'h watch_outcome" where
  "resume_all deps env ports only [] w = Some (w, None)"
| "resume_all deps env ports only ((a, requestId) # rest) w =
     (if inspection_due env only (backoff_key a requestId) w
      then case resume_writer deps env ports a requestId w of
             None \<Rightarrow> None
           | Some (w', Some err) \<Rightarrow> Some (w', Some err)
           | Some (w', None) \<Rightarrow> resume_all deps env ports only rest w'
      else resume_all deps env ports only rest w)"

definition keep_keys :: "ident list \<Rightarrow> 'h stop_watch \<Rightarrow> 'h stop_watch" where
  "keep_keys ks w = w\<lparr>sw_backoff := filter (\<lambda>(k, _). k \<in> set ks) (sw_backoff w),
     sw_unreachableSince := filter (\<lambda>(k, _). k \<in> set ks) (sw_unreachableSince w),
     sw_removedSeen := filter (\<lambda>k. k \<in> set ks) (sw_removedSeen w)\<rparr>"

definition resumeStoppingWriters :: "'h ledger_deps \<Rightarrow> observe_env \<Rightarrow> stop_ports \<Rightarrow> ident option \<Rightarrow> 'h stop_watch \<Rightarrow> 'h watch_outcome" where
  "resumeStoppingWriters deps env ports only w =
     (let listed = stopping_writers deps only (sw_ledger w) in
      case resume_all deps env ports only listed w of
        None \<Rightarrow> None
      | Some (w', Some err) \<Rightarrow> Some (w', Some err)
      | Some (w', None) \<Rightarrow> Some (if truthy only then w' else keep_keys (map (\<lambda>(a, q). backoff_key a q) listed) w', None))"

section \<open>Notices, claims and expired holds\<close>

record mesh_event_notice =
  mn_meshId :: ident
  mn_event :: string
  mn_payload :: "js_value option"
  mn_targetDaemonId :: ident
  mn_targetSessionId :: "ident option"
  mn_taskId :: "ident option"
  mn_eventId :: "ident option"
  mn_at :: "ms option"
  mn_notify :: "notify_kind option"
  mn_ref :: "summary_ref option"
  mn_attemptId :: "ident option"

definition notice_entry :: "mesh_event_notice \<Rightarrow> ident \<Rightarrow> ms \<Rightarrow> topic_entry" where
  "notice_entry n eventId atMs = \<lparr>tp_eventId = eventId, tp_at = atMs, tp_body = Topic_notify
     \<lparr>ne_e_attemptId = nonempty_id (mn_attemptId n), ne_e_notify = or_default (mn_notify n) N_mesh_event, ne_e_targetDaemonId = mn_targetDaemonId n,
      ne_e_targetSessionId = nonempty_id (mn_targetSessionId n), ne_e_taskId = nonempty_id (mn_taskId n)\<rparr>\<rparr>"

definition notice_row :: "mesh_event_notice \<Rightarrow> ident \<Rightarrow> ms \<Rightarrow> ms \<Rightarrow> turn_event_row" where
  "notice_row n eventId atMs now = \<lparr>er_eventId = eventId, er_meshId = Some (mn_meshId n), er_attemptId = mn_attemptId n, er_generation = None,
     er_sessionId = or_default (mn_targetSessionId n) [], er_kind = RK_notify, er_source = RS_mesh_event, er_verdict = Row_applied,
     er_rule = None, er_rejection = None, er_dedupeKey = eventId, er_fromState = None, er_toState = None,
     er_payload = P_mesh_event (or_default (mn_notify n) N_mesh_event) (mn_event n) (notice_entry n eventId atMs) (mn_ref n) (mn_payload n),
     er_observedBy = None, er_srcWriter = None, er_srcSeq = None, er_publishState = Pub_pending, er_publishedSeq = None,
     er_atMs = atMs, er_recordedAt = now\<rparr>"

definition notifyMeshEvent :: "mesh_event_notice \<Rightarrow> ident \<Rightarrow> ms \<Rightarrow> turn_store \<Rightarrow> (ident \<times> bool) \<times> turn_store" where
  "notifyMeshEvent n uuid now s =
     (let eventId = or_default (mn_eventId n) (''mesh_event:'' @ uuid); (inserted, s') = insertEvent (notice_row n eventId (or_default (mn_at n) now) now) s
      in ((eventId, inserted), s'))"

record delivery_claim =
  dc_writer :: ident
  dc_seq :: int
  dc_meshId :: "ident option"
  dc_sessionId :: ident
  dc_outcome :: "string option"
  dc_wakeKey :: "string option"

definition claim_row :: "delivery_claim \<Rightarrow> ms \<Rightarrow> turn_event_row" where
  "claim_row c now = \<lparr>er_eventId = deliveryClaimId (dc_meshId c) (dc_writer c) (dc_seq c), er_meshId = dc_meshId c, er_attemptId = None,
     er_generation = None, er_sessionId = dc_sessionId c, er_kind = RK_evidence K_delivered, er_source = RS_evidence Src_input_service,
     er_verdict = Row_recorded, er_rule = None, er_rejection = None,
     er_dedupeKey = (if truthy (dc_meshId c) then the (dc_meshId c) @ '':'' else []) @ dc_writer c @ '':'' @ js_int (dc_seq c),
     er_fromState = None, er_toState = None, er_payload = P_delivered (nonempty_id (dc_outcome c)) (nonempty_id (dc_wakeKey c)),
     er_observedBy = None, er_srcWriter = Some (dc_writer c), er_srcSeq = Some (dc_seq c), er_publishState = Pub_none,
     er_publishedSeq = None, er_atMs = now, er_recordedAt = now\<rparr>"

definition claimDelivery :: "delivery_claim \<Rightarrow> ms \<Rightarrow> turn_store \<Rightarrow> bool \<times> turn_store" where
  "claimDelivery c now s = insertEvent (claim_row c now) s"

definition HOLD_SWEEP_LIMIT :: nat where "HOLD_SWEEP_LIMIT = 500"

definition expiredHoldEvidence :: "'h ledger_deps \<Rightarrow> ms \<Rightarrow> turn_store \<Rightarrow> turn_evidence list" where
  "expiredHoldEvidence deps now s = expireHolds (dueHolds now HOLD_SWEEP_LIMIT (ld_selfDaemonId deps) s) now (ld_selfDaemonId deps) (\<lambda>i. sessionIdForAttempt i s)"

text \<open>The evidence is read before the first of it is observed; an exception ends the sweep.\<close>

fun observe_each :: "'h ledger_deps \<Rightarrow> observe_env \<Rightarrow> turn_evidence list \<Rightarrow> 'h ledger \<Rightarrow> 'h ledger_outcome" where
  "observe_each deps env [] lg = Some (lg, None)"
| "observe_each deps env (ev # evs) lg =
     (case observe_now deps env no_options ev lg of
        None \<Rightarrow> None
      | Some (lg', Inl err) \<Rightarrow> Some (lg', Some err)
      | Some (lg', Inr _) \<Rightarrow> observe_each deps env evs lg')"

definition sweepExpiredHolds :: "'h ledger_deps \<Rightarrow> observe_env \<Rightarrow> 'h ledger \<Rightarrow> 'h ledger_outcome" where
  "sweepExpiredHolds deps env lg = observe_each deps env (expiredHoldEvidence deps (oe_now env) (lg_store lg)) lg"

section \<open>Publishing\<close>

definition PUBLISH_BATCH :: nat where "PUBLISH_BATCH = 256"
definition MAX_TOPIC_EVENT_ID :: nat where "MAX_TOPIC_EVENT_ID = 256"

text \<open>The digest of an over-long id is the first sixteen hexadecimal digits of its SHA-1.\<close>

definition compactEntryEventId :: "(ident \<Rightarrow> string) \<Rightarrow> topic_entry \<Rightarrow> topic_entry" where
  "compactEntryEventId sha1hex e =
     (if length (tp_eventId e) \<le> MAX_TOPIC_EVENT_ID then e
      else e\<lparr>tp_eventId := take (MAX_TOPIC_EVENT_ID - 17) (tp_eventId e) @ ''#'' @ take 16 (sha1hex (tp_eventId e))\<rparr>)"

fun payload_entry :: "row_payload \<Rightarrow> topic_entry option" where
  "payload_entry (P_evidence p) = pl_entry p"
| "payload_entry (P_committed _ _ _ e _) = e"
| "payload_entry (P_notify _ e _ _) = Some e"
| "payload_entry (P_mesh_event _ _ e _ _) = Some e"
| "payload_entry _ = None"

fun payload_ref :: "row_payload \<Rightarrow> summary_ref option" where
  "payload_ref (P_committed _ _ _ _ r) = r"
| "payload_ref (P_notify _ _ r _) = r"
| "payload_ref (P_mesh_event _ _ _ r _) = r"
| "payload_ref _ = None"

definition publishable :: "(ident \<Rightarrow> string) \<Rightarrow> turn_event_row \<Rightarrow> (ident \<times> topic_entry \<times> summary_ref option) option" where
  "publishable sha1hex row =
     (case (payload_entry (er_payload row), er_meshId row) of
        (Some e, Some m) \<Rightarrow> if m = [] then None else Some (m, compactEntryEventId sha1hex e, payload_ref (er_payload row))
      | _ \<Rightarrow> None)"

datatype publish_error = Content_guard | Publish_failed

text \<open>The publisher has a state of its own: an append returns the writer and the sequence number, or fails.\<close>

type_synonym 'p publisher = "'p \<Rightarrow> ident \<Rightarrow> topic_entry \<Rightarrow> summary_ref option \<Rightarrow> (publish_error + (ident \<times> int)) \<times> 'p"

record publish_report =
  pr_published :: nat
  pr_failed :: nat

record 'p drain_state =
  ds_store :: turn_store
  ds_publisher :: 'p
  ds_blocked :: "ident list"
  ds_report :: publish_report
  ds_progressed :: nat

definition publish_row :: "(ident \<Rightarrow> string) \<Rightarrow> 'p publisher \<Rightarrow> turn_event_row \<Rightarrow> 'p drain_state \<Rightarrow> 'p drain_state" where
  "publish_row sha1hex publish row d =
     (case publishable sha1hex row of
        None \<Rightarrow> d
      | Some (m, e, r) \<Rightarrow>
          if m \<in> set (ds_blocked d) then d
          else
            (case publish (ds_publisher d) m e r of
               (Inr (writer, sq), p) \<Rightarrow> d\<lparr>ds_publisher := p, ds_store := markPublished (er_eventId row) writer sq (ds_store d),
                  ds_report := (ds_report d)\<lparr>pr_published := pr_published (ds_report d) + 1\<rparr>, ds_progressed := ds_progressed d + 1\<rparr>
             | (Inl Content_guard, p) \<Rightarrow> d\<lparr>ds_publisher := p, ds_store := markPublishRefused (er_eventId row) (ds_store d),
                  ds_report := (ds_report d)\<lparr>pr_failed := pr_failed (ds_report d) + 1\<rparr>\<rparr>
             | (Inl Publish_failed, p) \<Rightarrow> d\<lparr>ds_publisher := p, ds_blocked := add_seen m (ds_blocked d),
                  ds_report := (ds_report d)\<lparr>pr_failed := pr_failed (ds_report d) + 1\<rparr>\<rparr>))"

definition publish_batch :: "(ident \<Rightarrow> string) \<Rightarrow> 'p publisher \<Rightarrow> 'p drain_state \<Rightarrow> 'p drain_state" where
  "publish_batch sha1hex publish d =
     foldl (\<lambda>d row. publish_row sha1hex publish row d) (d\<lparr>ds_progressed := 0\<rparr>) (pendingPublish PUBLISH_BATCH (ds_store d))"

definition pending_count :: "turn_store \<Rightarrow> nat" where
  "pending_count s = countPendingPublish None s"

lemma filter_upd_length:
  assumes f: "\<And>e. \<not> Q (f e)"
  shows "length (filter Q (map (\<lambda>e. if P e \<and> Q e then f e else e) es)) + (if \<exists>e\<in>set es. P e \<and> Q e then 1 else 0) \<le> length (filter Q es)"
  by (induction es) (auto simp: f split: if_splits)

lemma pending_upd:
  assumes "\<And>e. er_publishState (f e) \<noteq> Pub_pending"
  shows "pending_count (upd_event (\<lambda>e. er_eventId e = i \<and> er_publishState e = Pub_pending) f s)
      + (if \<exists>e\<in>set (ts_events s). er_eventId e = i \<and> er_publishState e = Pub_pending then 1 else 0) \<le> pending_count s"
  using filter_upd_length[of "\<lambda>e. er_publishState e = Pub_pending" f "\<lambda>e. er_eventId e = i" "ts_events s"] assms
  by (simp add: pending_count_def countPendingPublish_def upd_event_def)

lemma pending_mark:
  "pending_count (markPublished i w q s) + (if \<exists>e\<in>set (ts_events s). er_eventId e = i \<and> er_publishState e = Pub_pending then 1 else 0) \<le> pending_count s"
  "pending_count (markPublishRefused i s) + (if \<exists>e\<in>set (ts_events s). er_eventId e = i \<and> er_publishState e = Pub_pending then 1 else 0) \<le> pending_count s"
  unfolding markPublished_def markPublishRefused_def by (rule pending_upd; simp)+

lemma pending_rows: "row \<in> set (pendingPublish n s) \<Longrightarrow> row \<in> set (ts_events s) \<and> er_publishState row = Pub_pending"
  by (auto simp: pendingPublish_def dest: in_set_takeD)

text \<open>Either nothing has been written yet, or fewer rows are pending.\<close>

definition drained :: "turn_store \<Rightarrow> 'p drain_state \<Rightarrow> bool" where
  "drained s d \<longleftrightarrow> pending_count (ds_store d) < pending_count s \<or> ds_store d = s \<and> ds_progressed d = 0"

lemma drained_row:
  assumes "drained s d" "row \<in> set (ts_events s)" "er_publishState row = Pub_pending"
  shows "drained s (publish_row sha1hex publish row d)"
proof -
  have m: "pending_count (markPublished (er_eventId row) w q (ds_store d)) < pending_count s"
    "pending_count (markPublishRefused (er_eventId row) (ds_store d)) < pending_count s" for w q
    using assms pending_mark(1)[of "er_eventId row" w q "ds_store d"] pending_mark(2)[of "er_eventId row" "ds_store d"]
    by (auto simp: drained_def split: if_splits)
  show ?thesis using assms(1) m
    by (auto simp: publish_row_def drained_def split: option.splits prod.splits sum.splits publish_error.splits)
qed

lemma drained_batch: "drained (ds_store d) (publish_batch sha1hex publish d)"
proof -
  have "drained s (foldl (\<lambda>d row. publish_row sha1hex publish row d) d rows)"
    if "drained s d" "\<forall>row\<in>set rows. row \<in> set (ts_events s) \<and> er_publishState row = Pub_pending" for s rows and d :: "'a drain_state"
    using that by (induction rows arbitrary: d) (auto intro: drained_row)
  moreover have "drained (ds_store d) (d\<lparr>ds_progressed := 0\<rparr>)" by (simp add: drained_def)
  moreover have "\<forall>row\<in>set (pendingPublish PUBLISH_BATCH (ds_store d)). row \<in> set (ts_events (ds_store d)) \<and> er_publishState row = Pub_pending"
    using pending_rows by blast
  ultimately show ?thesis unfolding publish_batch_def by blast
qed

lemma batch_progress: "ds_progressed (publish_batch sha1hex publish d) \<noteq> 0 \<Longrightarrow> pending_count (ds_store (publish_batch sha1hex publish d)) < pending_count (ds_store d)"
  using drained_batch[of d sha1hex publish] by (auto simp: drained_def)

text \<open>A pass without a request for another one; a pass ends when a batch was short or made no progress.\<close>

function drain_loop :: "(ident \<Rightarrow> string) \<Rightarrow> 'p publisher \<Rightarrow> 'p drain_state \<Rightarrow> 'p drain_state" where
  "drain_loop sha1hex publish d =
     (let d' = publish_batch sha1hex publish d
      in if length (pendingPublish PUBLISH_BATCH (ds_store d)) < PUBLISH_BATCH \<or> ds_progressed d' = 0 then d'
         else drain_loop sha1hex publish d')"
  by pat_completeness auto

termination
  by (relation "measure (\<lambda>(_, _, d). pending_count (ds_store d))") (auto intro: batch_progress)

definition drain :: "(ident \<Rightarrow> string) \<Rightarrow> 'p publisher option \<Rightarrow> 'p \<Rightarrow> turn_store \<Rightarrow> (publish_report \<times> nat) \<times> turn_store \<times> 'p" where
  "drain sha1hex publisher p s =
     (let none = \<lparr>pr_published = 0, pr_failed = 0\<rparr> in
      case publisher of
        None \<Rightarrow> ((none, pending_count s), s, p)
      | Some publish \<Rightarrow>
          let d = drain_loop sha1hex publish \<lparr>ds_store = s, ds_publisher = p, ds_blocked = [], ds_report = none, ds_progressed = 0\<rparr>
          in ((ds_report d, pending_count (ds_store d)), ds_store d, ds_publisher d))"

end
