(* ===== verification/LedgerReach.thy ===== *)
theory LedgerReach
  imports LedgerReturns TurnLedgerOps
begin

text \<open>
  Sequences of ledger operations. Every operation that writes the tables is one kind of move; the invariant
  of theory \<open>LedgerInv\<close> holds after any sequence of moves, in any order.
\<close>

section \<open>Writes that add no commit\<close>

lemma store_ok_events:
  assumes ok: "store_ok s" and e: "events_keep (ts_events s) (ts_events s')" and s: "ts_attempts s' = ts_attempts s" "ts_holds s' = ts_holds s"
  shows "store_ok s'"
  using owes_keep[of "[]" "[]" s s'] assms by (simp add: owes_nothing)

lemma insert_ok:
  assumes "store_ok s" "insertEvent r s = (b, s')" "\<not> is_commit r"
  shows "store_ok s'"
  using store_ok_events[OF assms(1)] events_keep_insert[OF assms(2,3)] by blast

lemma notify_ok: "store_ok s \<Longrightarrow> store_ok (snd (notifyMeshEvent n uuid now s))"
  by (auto simp: notifyMeshEvent_def Let_def is_commit_def notice_row_def split: prod.splits intro: insert_ok)

lemma claim_ok: "store_ok s \<Longrightarrow> store_ok (snd (claimDelivery c now s))"
  by (cases "insertEvent (claim_row c now) s") (auto simp: claimDelivery_def is_commit_def claim_row_def intro: insert_ok)

lemma upd_event_ok:
  assumes "store_ok s" "\<And>e. er_eventId (f e) = er_eventId e \<and> er_kind (f e) = er_kind e \<and> er_attemptId (f e) = er_attemptId e \<and> commit_pair (f e) = commit_pair e"
  shows "store_ok (upd_event P f s)"
  using assms by (intro store_ok_events[OF assms(1)]) (auto simp: upd_event_def intro!: events_keep_map)

lemma mark_ok: "store_ok s \<Longrightarrow> store_ok (markPublished i w q s)" "store_ok s \<Longrightarrow> store_ok (markPublishRefused i s)"
  unfolding markPublished_def markPublishRefused_def by (rule upd_event_ok; simp add: commit_pair_def)+

lemma events_keep_filter:
  assumes "\<And>e. e \<in> set es \<Longrightarrow> is_commit e \<Longrightarrow> Q e"
  shows "events_keep es (filter Q es)"
proof -
  have "commits_of i (filter Q es) = commits_of i es" for i
    using assms by (induction es) (auto simp: commits_of_def)
  then show ?thesis by (auto simp: events_keep_def distinct_map_filter)
qed

lemma release_ok: "store_ok s \<Longrightarrow> store_ok (snd (releaseDeliveryClaim i s))"
  by (auto simp: releaseDeliveryClaim_def Let_def is_commit_def intro!: store_ok_events[of s] events_keep_filter)

lemma attempts_ok_image: "attempts_ok rows \<longleftrightarrow> distinct (map row_id rows) \<and> (\<forall>a\<in>at_attempt ` set rows. attempt_ok a)
     \<and> (\<forall>a\<in>at_attempt ` set rows. \<forall>b\<in>at_attempt ` set rows. a_terminal a = None \<and> a_terminal b = None \<and> a_sessionId a = a_sessionId b
          \<longrightarrow> a_attemptId a = a_attemptId b)"
  by (simp add: attempts_ok_def row_open_def)

lemma probed_ok: "store_ok s \<Longrightarrow> store_ok (markProbed i now s)"
proof -
  assume ok: "store_ok s"
  let ?rows = "ts_attempts (markProbed i now s)"
  have eq: "map at_attempt ?rows = map at_attempt (ts_attempts s)" by (simp add: markProbed_def comp_def)
  have at: "at_attempt ` set ?rows = at_attempt ` set (ts_attempts s)" using arg_cong[OF eq, of set] by simp
  have "find (\<lambda>r. row_id r = j) (map (\<lambda>r. if row_id r = i then r\<lparr>at_lastProbeAt := Some now, at_updatedAt := now\<rparr> else r) rows)
      = map_option (\<lambda>r. if row_id r = i then r\<lparr>at_lastProbeAt := Some now, at_updatedAt := now\<rparr> else r) (find (\<lambda>r. row_id r = j) rows)" for j rows
    by (induction rows) auto
  then have get: "getAttempt j (markProbed i now s) = getAttempt j s" for j
    by (cases "find (\<lambda>r. row_id r = j) (ts_attempts s)") (auto simp: getAttempt_def markProbed_def)
  have "map row_id ?rows = map row_id (ts_attempts s)" using arg_cong[OF eq, of "map a_attemptId"] by (simp add: comp_def)
  then have "attempts_ok ?rows" using store_okD(1)[OF ok] unfolding attempts_ok_image at by metis
  then show ?thesis using ok get by (simp add: store_ok_def commits_ok_iff) (simp add: markProbed_def)
qed

lemma drop_ok:
  assumes ok: "store_ok s"
  shows "store_ok (drop_attempts ids s)"
proof -
  let ?s = "drop_attempts ids s"
  have d: "distinct (map row_id (ts_attempts s))" using store_okD(1)[OF ok] by (simp add: attempts_ok_def)
  have get: "getAttempt j ?s = (if j \<in> set ids then None else getAttempt j s)" for j
  proof -
    have "find (\<lambda>r. row_id r = j) (filter (\<lambda>r. row_id r \<notin> set ids) rows) = (if j \<in> set ids then None else find (\<lambda>r. row_id r = j) rows)" for rows
      by (induction rows) auto
    then show ?thesis by (simp add: getAttempt_def drop_attempts_def)
  qed
  have com: "commits_of j (filter (\<lambda>e. \<forall>i\<in>set ids. er_attemptId e \<noteq> Some i) es) = (if j \<in> set ids then [] else commits_of j es)" for j es
    by (induction es) (auto simp: commits_of_def)
  have "attempts_ok (ts_attempts ?s)" using store_okD(1)[OF ok] unfolding attempts_ok_def drop_attempts_def
    by (auto simp: distinct_map_filter)
  moreover have "holds_ok (ts_holds ?s)" using store_okD(2)[OF ok] by (auto simp: holds_ok_def drop_attempts_def distinct_map_filter)
  moreover have "distinct (map er_eventId (ts_events ?s))" using store_okD(3)[OF ok] by (simp add: drop_attempts_def distinct_map_filter)
  moreover have "commits_ok ?s" using store_okD(4)[OF ok] get com
    by (auto simp: commits_ok_iff expected_commit_def) (auto simp: drop_attempts_def)
  ultimately show ?thesis by (simp add: store_ok_def)
qed

section \<open>Publishing\<close>

text \<open>What marking rows keeps, a drain keeps.\<close>

definition marks_keep :: "(turn_store \<Rightarrow> bool) \<Rightarrow> bool" where
  "marks_keep P \<longleftrightarrow> (\<forall>s i w q. P s \<longrightarrow> P (markPublished i w q s) \<and> P (markPublishRefused i s))"

lemma publish_row_keeps: "marks_keep P \<Longrightarrow> P (ds_store d) \<Longrightarrow> P (ds_store (publish_row sha1hex publish row d))"
  by (auto simp: publish_row_def marks_keep_def split: option.splits prod.splits sum.splits publish_error.splits)

lemma publish_batch_keeps:
  assumes k: "marks_keep P" and "P (ds_store d)"
  shows "P (ds_store (publish_batch sha1hex publish d))"
proof -
  have "P (ds_store (foldl (\<lambda>d row. publish_row sha1hex publish row d) d rows))" if "P (ds_store d)" for d :: "'a drain_state" and rows
    using that by (induction rows arbitrary: d) (auto intro: publish_row_keeps[OF k])
  with assms(2) show ?thesis by (simp add: publish_batch_def)
qed

lemma drain_loop_keeps: "marks_keep P \<Longrightarrow> P (ds_store d) \<Longrightarrow> P (ds_store (drain_loop sha1hex publish d))"
proof (induction sha1hex publish d rule: drain_loop.induct)
  case (1 sha1hex publish d)
  then show ?case using publish_batch_keeps[OF 1(2,3), of sha1hex publish]
    by (subst drain_loop.simps) (auto simp: Let_def simp del: drain_loop.simps)
qed

lemma drain_keeps: "marks_keep P \<Longrightarrow> P s \<Longrightarrow> P (fst (snd (drain sha1hex publisher p s)))"
  by (auto simp: drain_def Let_def drain_loop_keeps simp del: drain_loop.simps split: option.splits)

section \<open>Moves\<close>

text \<open>The label lists the delivery claims that the move gives back.\<close>

inductive ledger_move :: "'h ledger_deps \<Rightarrow> 'h ledger \<Rightarrow> ident list \<Rightarrow> 'h ledger \<Rightarrow> bool" for deps where
  observes: "plain_fresh ev (lg_store lg) \<Longrightarrow> observe_now deps env opts ev lg = Some (lg', res) \<Longrightarrow> ledger_move deps lg [] lg'"
| settles: "settleWriterStop deps env uuid q r lg = Some (lg', e) \<Longrightarrow> ledger_move deps lg [] lg'"
| gives_up: "settleUnreachable deps env a mode lg = Some (lg', res) \<Longrightarrow> ledger_move deps lg [] lg'"
| sweeps: "sweepExpiredHolds deps env lg = Some (lg', e) \<Longrightarrow> ledger_move deps lg [] lg'"
| notifies: "notifyMeshEvent n uuid now (lg_store lg) = (x, s) \<Longrightarrow> ledger_move deps lg [] (lg\<lparr>lg_store := s\<rparr>)"
| claims: "claimDelivery c now (lg_store lg) = (b, s) \<Longrightarrow> ledger_move deps lg [] (lg\<lparr>lg_store := s\<rparr>)"
| releases: "releaseDeliveryClaim i (lg_store lg) = (b, s) \<Longrightarrow> ledger_move deps lg [i] (lg\<lparr>lg_store := s\<rparr>)"
| publishes: "ledger_move deps lg [] (lg\<lparr>lg_store := markPublished i writer sq (lg_store lg)\<rparr>)"
| refuses: "ledger_move deps lg [] (lg\<lparr>lg_store := markPublishRefused i (lg_store lg)\<rparr>)"
| probes: "ledger_move deps lg [] (lg\<lparr>lg_store := markProbed i now (lg_store lg)\<rparr>)"
| prunes_plain: "ledger_move deps lg [] (lg\<lparr>lg_store := pruneTerminalPlainAttempts age now (lg_store lg)\<rparr>)"
| prunes_mesh: "ledger_move deps lg [] (lg\<lparr>lg_store := pruneTerminalMeshAttempts age now (lg_store lg)\<rparr>)"

inductive ledger_path :: "'h ledger_deps \<Rightarrow> 'h ledger \<Rightarrow> ident list \<Rightarrow> 'h ledger \<Rightarrow> bool" for deps where
  here: "ledger_path deps lg [] lg"
| on: "ledger_path deps lg is lg' \<Longrightarrow> ledger_move deps lg' js lg'' \<Longrightarrow> ledger_path deps lg (is @ js) lg''"

text \<open>
  A property of the tables that every move keeps. The four moves that observe need it of an observation
  only.
\<close>

locale table_invariant =
  fixes deps :: "'h ledger_deps" and I :: "turn_store \<Rightarrow> bool" and given_back :: "ident \<Rightarrow> bool"
  assumes I_observe: "I (lg_store lg) \<Longrightarrow> plain_fresh ev (lg_store lg) \<Longrightarrow> observe n deps env opts ev lg = Some (lg', res) \<Longrightarrow> I (lg_store lg')"
    and I_insert: "I s \<Longrightarrow> insertEvent r s = (b, s') \<Longrightarrow> er_kind r \<noteq> RK_committed \<Longrightarrow> I s'"
    and I_marks: "marks_keep I"
    and I_release: "I s \<Longrightarrow> given_back i \<Longrightarrow> I (snd (releaseDeliveryClaim i s))"
    and I_probed: "I s \<Longrightarrow> I (markProbed i now s)"
    and I_drop: "I s \<Longrightarrow> I (drop_attempts ids s)"
begin

lemma I_observe_now:
  "I (lg_store lg) \<Longrightarrow> ev_kind ev \<noteq> K_turn_started \<Longrightarrow> observe_now deps env opts ev lg = Some (lg', res) \<Longrightarrow> I (lg_store lg')"
  unfolding observe_now_def by (rule I_observe) (auto simp: plain_fresh_def)

lemma I_settle_stop:
  assumes i: "I (lg_store lg)" and s: "settleWriterStop deps env uuid q r lg = Some (lg', e)"
  shows "I (lg_store lg')"
proof (cases "\<not> confirms_stop r \<or> \<not> names_stop q (getAttempt (cq_attemptId q) (lg_store lg)) \<or> \<not> receipt_names q r \<or> absence_unnamed r")
  case True
  with s i show ?thesis by (simp add: settleWriterStop_def)
next
  case False
  let ?id = "''writer_settled:'' @ or_default (cq_stopRequestId q) ''undefined'' @ '':'' @ uuid"
  let ?ev = "settle_evidence (ld_selfDaemonId deps) (oe_now env) ?id (cq_sessionId q) (cq_attemptId q) (cq_generation q)"
  let ?lg = "lg\<lparr>lg_confirmedStops := ?id # lg_confirmedStops lg\<rparr>"
  from s False obtain l res where o: "observe_now deps env (no_options\<lparr>oo_receipt := receipt_object r\<rparr>) ?ev ?lg = Some (l, res)"
    and l: "lg_store lg' = lg_store l"
    by (auto simp: settleWriterStop_def Let_def split: option.splits sum.splits)
  from I_observe_now[OF _ _ o] i l show ?thesis by (simp add: settle_evidence_def)
qed

lemma I_give_up:
  assumes i: "I (lg_store lg)" and s: "settleUnreachable deps env a mode lg = Some (lg', res)"
  shows "I (lg_store lg')"
proof (cases "d_writerStop (a_data a)")
  case None
  with s i show ?thesis by (simp add: settleUnreachable_def)
next
  case (Some stop)
  let ?id = "''writer_unreachable:'' @ ws_requestId stop"
  let ?ev = "settle_evidence (ld_selfDaemonId deps) (oe_now env) ?id (a_sessionId a) (a_attemptId a) (a_generation a)"
  let ?lg = "lg\<lparr>lg_unreachableSettles := AList.update ?id mode (lg_unreachableSettles lg)\<rparr>"
  from s Some obtain l r where o: "observe_now deps env no_options ?ev ?lg = Some (l, r)" and l: "lg_store lg' = lg_store l"
    by (auto simp: settleUnreachable_def Let_def split: option.splits sum.splits if_splits)
  from I_observe_now[OF _ _ o] i l show ?thesis by (simp add: settle_evidence_def)
qed

lemma I_sweep:
  assumes i: "I (lg_store lg)" and s: "sweepExpiredHolds deps env lg = Some (lg', e)"
  shows "I (lg_store lg')"
proof -
  have "I (lg_store l')" if "I (lg_store l)" "\<forall>ev\<in>set evs. ev_kind ev \<noteq> K_turn_started" "observe_each deps env evs l = Some (l', e)" for evs l l' e
    using that
  proof (induction evs arbitrary: l)
    case (Cons ev evs)
    from Cons.prems obtain l1 r where o: "observe_now deps env no_options ev l = Some (l1, r)" by (auto split: option.splits)
    have "I (lg_store l1)" using I_observe_now[OF _ _ o] Cons.prems by simp
    with Cons o show ?case by (auto split: sum.splits)
  qed simp
  moreover have "\<forall>ev\<in>set (expiredHoldEvidence deps (oe_now env) (lg_store lg)). ev_kind ev \<noteq> K_turn_started"
    by (auto simp: expiredHoldEvidence_def expireHolds_def expiry_evidence_def)
  ultimately show ?thesis using i s unfolding sweepExpiredHolds_def by blast
qed

lemma I_move:
  assumes "ledger_move deps lg is lg'" "I (lg_store lg)" "\<forall>i\<in>set is. given_back i"
  shows "I (lg_store lg')"
  using assms
proof (cases rule: ledger_move.cases)
  case (observes ev env opts res)
  with assms(2) show ?thesis unfolding observe_now_def by (blast intro: I_observe)
next
  case (notifies n uuid now x s)
  then show ?thesis using assms(2) by (auto simp: notifyMeshEvent_def Let_def notice_row_def split: prod.splits intro: I_insert)
next
  case (claims c now b s)
  then show ?thesis using assms(2) by (auto simp: claimDelivery_def claim_row_def intro: I_insert)
next
  case (releases i b s)
  then show ?thesis using assms(2,3) I_release[of "lg_store lg" i] by simp
next
  case (settles env uuid q r e)
  then show ?thesis using I_settle_stop[OF assms(2)] by blast
next
  case (gives_up env a mode res)
  then show ?thesis using I_give_up[OF assms(2)] by blast
next
  case (sweeps env e)
  then show ?thesis using I_sweep[OF assms(2)] by blast
next
  case (publishes i writer sq)
  then show ?thesis using I_marks assms(2) by (simp add: marks_keep_def)
next
  case (refuses i)
  then show ?thesis using I_marks assms(2) by (simp add: marks_keep_def)
qed (use assms(2) I_probed I_drop in \<open>simp_all add: pruneTerminalPlainAttempts_def pruneTerminalMeshAttempts_def\<close>)

lemma I_path: "ledger_path deps lg is lg' \<Longrightarrow> I (lg_store lg) \<Longrightarrow> \<forall>i\<in>set is. given_back i \<Longrightarrow> I (lg_store lg')"
  by (induction rule: ledger_path.induct) (auto dest: I_move)

end

interpretation tables: table_invariant deps store_ok "\<lambda>_. True" for deps
  by unfold_locales (auto simp: marks_keep_def is_commit_def intro: observe_ok insert_ok mark_ok release_ok probed_ok drop_ok)

lemma drain_path: "ledger_path deps lg [] (lg\<lparr>lg_store := fst (snd (drain sha1hex publisher p (lg_store lg)))\<rparr>)"
proof (rule drain_keeps)
  have "ledger_path deps lg [] (lg\<lparr>lg_store := s'\<rparr>)" if "ledger_path deps lg [] (lg\<lparr>lg_store := s\<rparr>)" "ledger_move deps (lg\<lparr>lg_store := s\<rparr>) [] (lg\<lparr>lg_store := s'\<rparr>)" for s s'
    using ledger_path.on[OF that] by simp
  then show "marks_keep (\<lambda>s. ledger_path deps lg [] (lg\<lparr>lg_store := s\<rparr>))"
    using ledger_move.publishes[of deps "lg\<lparr>lg_store := s\<rparr>" for s] ledger_move.refuses[of deps "lg\<lparr>lg_store := s\<rparr>" for s]
    by (auto simp: marks_keep_def)
qed (auto intro: ledger_path.here)

section \<open>Rows that stay\<close>

definition rows_of :: "turn_store \<Rightarrow> (ident \<times> ident option) set" where
  "rows_of s = (\<lambda>e. (er_eventId e, er_attemptId e)) ` set (ts_events s)"

lemma rows_map: "(\<And>e. er_eventId (f e) = er_eventId e \<and> er_attemptId (f e) = er_attemptId e) \<Longrightarrow> rows_of (s\<lparr>ts_events := map f (ts_events s)\<rparr>) = rows_of s"
  by (auto simp: rows_of_def image_iff)

lemma rows_insert: "insertEvent r s = (b, s') \<Longrightarrow> rows_of s \<subseteq> rows_of s'"
  by (auto simp: insertEvent_def rows_of_def split: if_splits)

lemma rows_record:
  assumes "recordEvidence r s = (True, s')"
  shows "rows_of s \<subseteq> rows_of s'"
  using recordEvidence_cases[OF assms]
proof (elim disjE exE)
  fix P ev
  assume s': "s' = s\<lparr>ts_events := map (\<lambda>e. if P e then add_sample ev e else e) (ts_events s)\<rparr>"
  show ?thesis unfolding s' by (subst rows_map) auto
qed (rule rows_insert)

lemma rows_insert_rows: "insert_rows i rows s = Inr s' \<Longrightarrow> rows_of s \<subseteq> rows_of s'"
proof (induction rows arbitrary: s)
  case (Cons r rows)
  obtain b s1 where i: "insertEvent r s = (b, s1)" by fastforce
  with Cons.prems have "insert_rows i rows s1 = Inr s'" by (cases b) (auto split: if_splits)
  from Cons.IH[OF this] rows_insert[OF i] show ?case by blast
qed simp

lemma rows_persist:
  assumes "persist deps env opts ev att r t = Inr (t', so)"
  shows "rows_of (fst t) \<subseteq> rows_of (fst t')"
proof -
  from persist_parts[OF assms] obtain s1 s2 where w: "write_attempt (oe_now env) r (fst t) = Inr s1"
    and rec: "recordEvidence (step_row env opts ev att r) s1 = (True, s2)"
    and fin: "finish_step deps env opts ev att r (s2, snd t) = Inr (t', so)" by blast
  have "ts_events s1 = ts_events (fst t)"
    using w by (auto simp: write_attempt_def upsertAttempt_def split: reduce_verdict.splits option.splits sum.splits if_splits)
  moreover have "rows_of s2 \<subseteq> rows_of (fst t')"
    using finish_step_store[OF fin] rows_insert_rows by (auto split: option.splits if_splits)
  ultimately show ?thesis using rows_record[OF rec] by (auto simp: rows_of_def)
qed

lemma rows_apply: "applyStep deps env opts lg ev att t = Inr (t', sos) \<Longrightarrow> rows_of (fst t) \<subseteq> rows_of (fst t')"
  by (auto simp: applyStep_def Let_def nested_step_def split: option.splits if_splits sum.splits dest!: rows_persist, blast)

lemma rows_forward: "rows_of (lg_store l) \<subseteq> rows_of (lg_store (fst (forward ev owner m now opts l)))"
  by (cases "insertEvent (forward_row ev owner m now opts) (lg_store l)") (simp add: forward_def rows_insert)

lemma rows_observe:
  assumes "observe n deps env opts ev lg = Some (lg', res)"
  shows "rows_of (lg_store lg) \<subseteq> rows_of (lg_store lg')"
proof -
  have "observable (\<lambda>l. rows_of (lg_store lg) \<subseteq> rows_of (lg_store l)) (\<lambda>_ _. True) (\<lambda>_. True) deps env opts"
    using rows_forward rows_apply by (fastforce simp: observable_def split: sum.splits)
  from observe_keeps[OF this _ _ assms] show ?thesis by simp
qed

text \<open>A row that belongs to no attempt is not dropped with one.\<close>

definition detached :: "ident \<Rightarrow> turn_store \<Rightarrow> bool" where
  "detached i s \<longleftrightarrow> (i, None) \<in> rows_of s"

lemma detached_upd: "(\<And>e. er_eventId (f e) = er_eventId e \<and> er_attemptId (f e) = er_attemptId e) \<Longrightarrow> detached i (upd_event P f s) = detached i s"
  unfolding detached_def upd_event_def by (subst rows_map) auto

interpretation claimed: table_invariant deps "detached i" "\<lambda>j. j \<noteq> i" for deps i
proof
  show "marks_keep (detached i)" unfolding marks_keep_def markPublished_def markPublishRefused_def by (simp add: detached_upd)
qed (auto simp: detached_def dest: rows_observe rows_insert,
     auto simp: rows_of_def releaseDeliveryClaim_def Let_def markProbed_def drop_attempts_def)

end
