(* ===== verification/LedgerClaims.thy ===== *)
theory LedgerClaims
  imports LedgerReach TurnDemo
begin

text \<open>
  The properties of the turn ledger's tables and operations, with the runs at which they are evaluated.
\<close>

section \<open>A small ledger\<close>

definition empty_ledger :: "'h \<Rightarrow> 'h ledger" where
  "empty_ledger h = \<lparr>lg_store = new_store, lg_host = h, lg_confirmedStops = [], lg_unreachableSettles = [], lg_calls = []\<rparr>"

definition demo_deps :: "unit ledger_deps" where
  "demo_deps = \<lparr>ld_selfDaemonId = ''d1'', ld_policy = DEFAULT_TURN_POLICY, ld_host = None\<rparr>"

definition demo_env :: "ms \<Rightarrow> observe_env" where
  "demo_env t = \<lparr>oe_now = t, oe_inspect = (\<lambda>_ _. None), oe_released = (\<lambda>_ _. False), oe_text = \<lparr>tx_sanitize = (\<lambda>t. t), tx_pending = (\<lambda>_. False)\<rparr>\<rparr>"

definition demo_report :: turn_evidence_body where
  "demo_report = WorkerReport \<lparr>wr_outcome = WR_completed, wr_summary = None, wr_hasHandoffNotes = False, wr_branchState = None, wr_touchedFileCount = None\<rparr>"

definition demo_observe :: "turn_evidence \<Rightarrow> unit ledger \<Rightarrow> unit ledger" where
  "demo_observe ev lg = (case observe_now demo_deps (demo_env (ev_at ev)) no_options ev lg of Some (lg', _) \<Rightarrow> lg' | None \<Rightarrow> lg)"

definition demo_ledger :: "unit ledger" where
  "demo_ledger = demo_observe (demo_ev ''e1'' 20 Src_worker_tool demo_report)
     (demo_observe (demo_ev ''e0'' 10 Src_dispatch (demo_dispatch Mesh_queue)) (empty_ledger ()))"

text \<open>A turn that the user started, and a dispatch to the same session that ends it.\<close>

definition demo_taken_over :: "unit ledger" where
  "demo_taken_over = demo_observe (demo_ev ''e1'' 20 Src_dispatch (demo_dispatch Mesh_queue))
     (demo_observe ((demo_ev ''e0'' 10 Src_fsm_edge (TurnStarted False))\<lparr>ev_taskId := None\<rparr>) (empty_ledger ()))"

section \<open>Reached states\<close>

lemma reached_ok: "ledger_path deps (empty_ledger h) is lg \<Longrightarrow> store_ok (lg_store lg)"
  using tables.I_path[of deps "empty_ledger h" "is" lg] new_store_ok by (simp add: empty_ledger_def)

lemma demo_on:
  assumes p: "ledger_path demo_deps (empty_ledger ()) [] lg" and f: "plain_fresh ev (lg_store lg)"
  shows "ledger_path demo_deps (empty_ledger ()) [] (demo_observe ev lg)"
proof -
  obtain lg' res where "observe_now demo_deps (demo_env (ev_at ev)) no_options ev lg = Some (lg', res)"
    using observe_returns[OF reached_ok[OF p] f, of 0 demo_deps "demo_env (ev_at ev)" no_options]
    by (auto simp: observe_now_def OBSERVE_DEPTH_def numeral_2_eq_2 simp del: observe.simps)
  then have "ledger_move demo_deps lg [] (demo_observe ev lg)" using f by (auto simp: demo_observe_def intro: observes)
  with p show ?thesis using ledger_path.on by fastforce
qed

lemma demo_paths: "ledger_path demo_deps (empty_ledger ()) [] demo_ledger" "ledger_path demo_deps (empty_ledger ()) [] demo_taken_over"
  unfolding demo_ledger_def demo_taken_over_def
  by (intro demo_on ledger_path.here; simp add: plain_fresh_def demo_ev_def demo_dispatch_def demo_report_def empty_ledger_def new_store_def getAttempt_def)+

definition demo_again :: "ident \<Rightarrow> turn_evidence" where
  "demo_again sid = (demo_ev ''e2'' 30 Src_dispatch (demo_dispatch Mesh_queue))\<lparr>ev_sessionId := sid\<rparr>"

lemma demo_values:
  "((let lg = demo_ledger in
       (map_option (\<lambda>a. (a_generation a, a_state a, map_option tt_outcome (a_terminal a))) (getAttempt ''mesh_queue:e0'' (lg_store lg)),
        map_option snd (observe_now demo_deps (demo_env 30) no_options (demo_again ''s2'') lg))),
    map (\<lambda>r. (row_id r, a_state (at_attempt r), row_open r, a_sessionId (at_attempt r))) (ts_attempts (lg_store demo_taken_over)))
   = ((Some (0, S_completed, Some O_completed), Some (Inl (Index_violation Ux_turn_attempts_task))),
      [(''plain:s1:e0'', S_cancelled, False, ''s1''), (''mesh_queue:e1'', S_accepted, True, ''s1'')])"
  by code_simp

lemma demo_ledger_values:
  "map_option (\<lambda>a. (a_generation a, a_state a, map_option tt_outcome (a_terminal a))) (getAttempt ''mesh_queue:e0'' (lg_store demo_ledger))
     = Some (0, S_completed, Some O_completed)"
  "map_option snd (observe_now demo_deps (demo_env 30) no_options (demo_again ''s2'') demo_ledger) = Some (Inl (Index_violation Ux_turn_attempts_task))"
  "map (\<lambda>r. (row_id r, a_state (at_attempt r), row_open r, a_sessionId (at_attempt r))) (ts_attempts (lg_store demo_taken_over))
     = [(''plain:s1:e0'', S_cancelled, False, ''s1''), (''mesh_queue:e1'', S_accepted, True, ''s1'')]"
  using demo_values unfolding Let_def prod.inject by blast+

section \<open>Commits and sessions\<close>

text \<open>
  C3. One commit per ended turn. After any sequence of ledger operations (observations with their
  re-observations, settled stops, sweeps, notices, claims, publishing, retention), the committed rows stored
  for an attempt are none while the attempt is open or unknown, and exactly one once it is terminal, with
  the attempt's generation and the state of its outcome.
\<close>

theorem committed_rows_match:
  assumes "ledger_path deps (empty_ledger h) is lg"
  shows "map commit_pair (committed_rows i (lg_store lg)) =
    (case getAttempt i (lg_store lg) of
       None \<Rightarrow> []
     | Some a \<Rightarrow> (case a_terminal a of None \<Rightarrow> [] | Some t \<Rightarrow> [(Some (a_generation a), Some (outcome_state (tt_outcome t)))]))"
  using store_okD(4)[OF reached_ok[OF assms]] by (simp add: commits_ok_def expected_commit_def)

theorem committed_rows_match_witness:
  "map commit_pair (committed_rows ''mesh_queue:e0'' (lg_store demo_ledger)) = [(Some 0, Some S_completed)]
   \<and> map_option a_state (getAttempt ''mesh_queue:e0'' (lg_store demo_ledger)) = Some S_completed"
  using committed_rows_match[OF demo_paths(1), of "''mesh_queue:e0''"] demo_ledger_values(1) by (auto split: option.splits)

text \<open>
  One open turn per session. After any sequence of ledger operations, two open attempts of the same
  session are the same row.
\<close>

lemma one_open_attempt:
  assumes path: "ledger_path deps (empty_ledger h) is lg"
    and r: "r \<in> set (ts_attempts (lg_store lg))" "q \<in> set (ts_attempts (lg_store lg))" "row_open r" "row_open q"
    and s: "a_sessionId (at_attempt r) = a_sessionId (at_attempt q)"
  shows "r = q"
proof -
  have a: "attempts_ok (ts_attempts (lg_store lg))" using store_okD(1)[OF reached_ok[OF path]] .
  have "row_id r = row_id q" using a r s unfolding attempts_ok_def by blast
  moreover have "distinct (map row_id (ts_attempts (lg_store lg)))" using a unfolding attempts_ok_def by blast
  ultimately show ?thesis using r(1,2) by (auto simp: distinct_map inj_on_def)
qed

lemma one_open_attempt_example:
  "length (filter row_open (ts_attempts (lg_store demo_taken_over))) = 1
   \<and> map (\<lambda>r. (row_id r, a_state (at_attempt r))) (ts_attempts (lg_store demo_taken_over))
       = [(''plain:s1:e0'', S_cancelled), (''mesh_queue:e1'', S_accepted)]
   \<and> hd (filter row_open (ts_attempts (lg_store demo_taken_over))) = last (filter row_open (ts_attempts (lg_store demo_taken_over)))"
proof -
  let ?rows = "ts_attempts (lg_store demo_taken_over)"
  from demo_ledger_values(3) obtain x y where rows: "?rows = [x, y]" and xy: "\<not> row_open x" "row_open y" "row_id x = ''plain:s1:e0''" "row_id y = ''mesh_queue:e1''"
    "a_state (at_attempt x) = S_cancelled" "a_state (at_attempt y) = S_accepted" by auto
  from one_open_attempt[OF demo_paths(2), of y y] rows xy show ?thesis by simp
qed

section \<open>Observing\<close>

text \<open>
  C9. An observation returns. In every state of the ledger that its operations lead to, \<open>observe\<close> ends after
  at most two levels of re-observation, whatever the evidence.
\<close>

theorem observe_terminates:
  assumes "ledger_path deps (empty_ledger h) is lg" "plain_fresh ev (lg_store lg)"
  shows "\<exists>lg' res. observe_now deps env opts ev lg = Some (lg', res)"
  using observe_returns[OF reached_ok[OF assms(1)] assms(2), of 0 deps env opts]
  by (auto simp: observe_now_def OBSERVE_DEPTH_def numeral_2_eq_2 simp del: observe.simps)

theorem observe_terminates_witness:
  "\<exists>lg' res. observe_now demo_deps (demo_env 30) no_options (demo_again ''s2'') demo_ledger = Some (lg', res)"
  by (rule observe_terminates[OF demo_paths(1)]) (simp add: plain_fresh_def demo_again_def demo_ev_def demo_dispatch_def)

text \<open>
  C17. How an observation may fail. It throws only when the queue host throws, when a task already has an
  attempt with the same number, or when a second commit of an attempt is attempted. In particular the
  index that allows one open attempt per session is never violated, and duplicates are never thrown.
\<close>

theorem observe_failures:
  assumes "ledger_path deps (empty_ledger h) is lg" "plain_fresh ev (lg_store lg)"
    and "observe_now deps env opts ev lg = Some (lg', Inl err)"
  shows "err \<in> {Host_failure, Index_violation Ux_turn_attempts_task} \<union> {Second_commit i g |i g. True}"
  using observe_fails[OF reached_ok[OF assms(1)] assms(2), of OBSERVE_DEPTH deps env opts lg' err] assms(3)
  by (auto simp: observe_now_def expected_failure_def)

theorem observe_failures_witness:
  "case observe_now demo_deps (demo_env 30) no_options (demo_again ''s2'') demo_ledger of
     Some (_, Inl err) \<Rightarrow> err = Index_violation Ux_turn_attempts_task
       \<and> err \<in> {Host_failure, Index_violation Ux_turn_attempts_task} \<union> {Second_commit i g |i g. True}
   | _ \<Rightarrow> False"
proof -
  obtain lg' where o: "observe_now demo_deps (demo_env 30) no_options (demo_again ''s2'') demo_ledger
      = Some (lg', Inl (Index_violation Ux_turn_attempts_task))"
    using demo_ledger_values(2) by auto
  have "plain_fresh (demo_again ''s2'') (lg_store demo_ledger)" by (simp add: plain_fresh_def demo_again_def demo_ev_def demo_dispatch_def)
  from observe_failures[OF demo_paths(1) this o] o show ?thesis by simp
qed

text \<open>A row that carries the evidence as an entry for its owner, ready to be published in the mesh.\<close>

definition entry_for :: "ident \<Rightarrow> ident \<Rightarrow> attempt_ref \<Rightarrow> turn_evidence \<Rightarrow> turn_event_row \<Rightarrow> bool" where
  "entry_for owner m r ev row \<longleftrightarrow> er_verdict row = Row_forwarded \<and> er_publishState row = Pub_pending \<and> er_publishedSeq row = None \<and> er_meshId row = Some m
     \<and> (case er_payload row of
          P_evidence p \<Rightarrow>
            (case pl_entry p of
               Some t \<Rightarrow> tp_eventId t = ev_eventId ev \<and> (case tp_body t of
                   Topic_evidence b \<Rightarrow> ee_ownerDaemonId b = owner \<and> ee_attemptId b = ar_attemptId r \<and> ee_generation b = ar_generation r \<and> ee_evidence b = ev
                 | _ \<Rightarrow> False)
             | None \<Rightarrow> False)
        | _ \<Rightarrow> False)"

text \<open>
  C16. Only the owner writes. Valid new evidence for an attempt that another daemon owns (the owner of the attempt it resolves to,
  else the owner the caller names) changes no attempt, no hold, no queue row and calls no port. It leaves exactly one new row.
  When the evidence names an attempt, that row waits for publication in the owner's mesh and carries an entry with
  the owner, the attempt, its generation and the evidence, and the answer is that it was forwarded; otherwise the row
  records the refusal, is not published, and the answer is a rejection. Observed again, the evidence is a duplicate and changes nothing.
\<close>

theorem foreign_evidence_forwarded:
  assumes f: "foreign_owner (ld_selfDaemonId deps) (resolveAttempt ev (lg_store lg)) opts = Some (owner, m)"
    and v: "isTurnEvidence ev"
    and fresh: "\<forall>e \<in> set (ts_events (lg_store lg)). er_eventId e \<noteq> ev_eventId ev \<and> er_dedupeKey e \<noteq> ev_eventId ev"
  shows "(case resolveAttempt ev (lg_store lg) of Some a \<Rightarrow> a_ownerDaemonId a = owner | None \<Rightarrow> map_option fst (oo_owner opts) = Some owner)
    \<and> \<not> daemonIdsEquivalent (Some owner) (Some (ld_selfDaemonId deps))
    \<and> (\<exists>row. let lg' = lg\<lparr>lg_store := (lg_store lg)\<lparr>ts_events := ts_events (lg_store lg) @ [row]\<rparr>\<rparr> in
         er_eventId row = ev_eventId ev
         \<and> (case ev_attemptRef ev of
              Some r \<Rightarrow> entry_for owner m r ev row \<and> observe_now deps env opts ev lg = Some (lg', Inr (plain_result Ob_forwarded None))
            | None \<Rightarrow> er_verdict row = Row_rejected \<and> er_publishState row = Pub_none
                \<and> observe_now deps env opts ev lg = Some (lg', Inr (plain_result Ob_rejected (Some (Reduce_rejected Rej_no_attempt)))))
         \<and> observe_now deps env' opts' ev lg' = Some (lg', Inr (plain_result Ob_duplicate None)))"
proof -
  let ?row = "forward_row ev owner m (oe_now env) opts"
  let ?lg = "lg\<lparr>lg_store := (lg_store lg)\<lparr>ts_events := ts_events (lg_store lg) @ [unpub ?row]\<rparr>\<rparr>"
  have id: "er_eventId ?row = ev_eventId ev" "er_dedupeKey ?row = ev_eventId ev" by (simp_all add: forward_row_def evidenceRow_def split: option.split)
  have new: "\<not> hasEvent (ev_eventId ev) (lg_store lg)" "\<not> (\<exists>e \<in> set (ts_events (lg_store lg)). row_clash ?row e)"
    using fresh id by (auto simp: hasEvent_def row_clash_def)
  define res where "res = (if ev_attemptRef ev = None then plain_result Ob_rejected (Some (Reduce_rejected Rej_no_attempt)) else plain_result Ob_forwarded None)"
  have fwd: "forward ev owner m (oe_now env) opts lg = (?lg, res)" using new(2) by (simp add: forward_def insertEvent_def res_def)
  have o: "observe_now deps env opts ev lg = Some (?lg, Inr res)"
    using f v new(1) fwd by (simp add: observe_now_def OBSERVE_DEPTH_def numeral_2_eq_2 Let_def)
  have again: "observe_now deps env' opts' ev ?lg = Some (?lg, Inr (plain_result Ob_duplicate None))"
    using v id(1) by (simp add: observe_now_def OBSERVE_DEPTH_def numeral_2_eq_2 hasEvent_def)
  have row: "case ev_attemptRef ev of Some r \<Rightarrow> entry_for owner m r ev (unpub ?row) | None \<Rightarrow> er_verdict (unpub ?row) = Row_rejected \<and> er_publishState (unpub ?row) = Pub_none"
    by (simp add: forward_row_def evidenceRow_def first_of_def entry_for_def projectTurnEvidenceEntry_def split: option.split)
  have owner: "(case resolveAttempt ev (lg_store lg) of Some a \<Rightarrow> a_ownerDaemonId a = owner | None \<Rightarrow> map_option fst (oo_owner opts) = Some owner)
      \<and> \<not> daemonIdsEquivalent (Some owner) (Some (ld_selfDaemonId deps))"
    using f by (auto simp: foreign_owner_def Let_def truthy_def split: option.splits if_splits)
  show ?thesis
    using owner o again row id(1) by (intro conjI exI[of _ "unpub ?row"]) (auto simp: Let_def res_def split: option.split)
qed

definition demo_foreign :: turn_evidence where
  "demo_foreign = (demo_ev ''e5'' 50 Src_fsm_edge (TurnStarted True))\<lparr>ev_attemptRef := Some \<lparr>ar_attemptId = ''a7'', ar_generation = 0\<rparr>\<rparr>"

theorem foreign_evidence_forwarded_witness:
  "\<exists>row lg'. entry_for ''d9'' ''mesh'' \<lparr>ar_attemptId = ''a7'', ar_generation = 0\<rparr> demo_foreign row \<and> ts_events (lg_store lg') = [row]
     \<and> observe_now demo_deps (demo_env 50) (no_options\<lparr>oo_owner := Some (''d9'', ''mesh'')\<rparr>) demo_foreign (empty_ledger ()) = Some (lg', Inr (plain_result Ob_forwarded None))"
proof -
  let ?opts = "no_options\<lparr>oo_owner := Some (''d9'', ''mesh'')\<rparr>"
  have f: "foreign_owner (ld_selfDaemonId demo_deps) (resolveAttempt demo_foreign (lg_store (empty_ledger ()))) ?opts = Some (''d9'', ''mesh'')"
    by code_simp
  have g: "isTurnEvidence demo_foreign" by code_simp
  have n: "\<forall>e \<in> set (ts_events (lg_store (empty_ledger ()))). er_eventId e \<noteq> ev_eventId demo_foreign \<and> er_dedupeKey e \<noteq> ev_eventId demo_foreign"
    by (simp add: empty_ledger_def new_store_def)
  have r: "ev_attemptRef demo_foreign = Some \<lparr>ar_attemptId = ''a7'', ar_generation = 0\<rparr>" by (simp add: demo_foreign_def)
  have e: "ts_events (lg_store (empty_ledger ())) = []" by (simp add: empty_ledger_def new_store_def)
  from foreign_evidence_forwarded[OF f g n, of "demo_env 50" "demo_env 60" ?opts] r e show ?thesis by (auto simp: Let_def)
qed

section \<open>Deliveries\<close>

text \<open>
  A delivery is claimed once. After a claim succeeds, no claim of the same mesh, writer and sequence
  number succeeds again, whatever operations run in between, unless that claim itself was released.
\<close>

lemma delivery_claimed_once:
  assumes c: "claimDelivery c now (lg_store lg) = (True, s)"
    and p: "ledger_path deps (lg\<lparr>lg_store := s\<rparr>) is lg'"
    and r: "deliveryClaimId (dc_meshId c) (dc_writer c) (dc_seq c) \<notin> set is"
    and d: "dc_meshId d = dc_meshId c" "dc_writer d = dc_writer c" "dc_seq d = dc_seq c"
  shows "fst (claimDelivery d now' (lg_store lg')) = False"
proof -
  let ?i = "deliveryClaimId (dc_meshId c) (dc_writer c) (dc_seq c)"
  have "detached ?i s" using insertEvent_inserted[OF c[unfolded claimDelivery_def]] by (auto simp: detached_def rows_of_def claim_row_def)
  from claimed.I_path[OF p] this r have "detached ?i (lg_store lg')" by auto
  then obtain e where "e \<in> set (ts_events (lg_store lg'))" "er_eventId e = ?i" by (auto simp: detached_def rows_of_def)
  then have "\<exists>e\<in>set (ts_events (lg_store lg')). row_clash (claim_row d now') e"
    using d by (auto simp: row_clash_def claim_row_def)
  then show ?thesis by (simp add: claimDelivery_def insertEvent_def)
qed

definition demo_claim :: "ident \<Rightarrow> delivery_claim" where
  "demo_claim sid = \<lparr>dc_writer = ''w'', dc_seq = 7, dc_meshId = Some ''mesh'', dc_sessionId = sid, dc_outcome = None, dc_wakeKey = None\<rparr>"

theorem delivery_claimed_once_witness:
  "fst (claimDelivery (demo_claim ''s1'') 10 new_store)
   \<and> \<not> fst (claimDelivery (demo_claim ''s2'') 20 (snd (claimDelivery (demo_claim ''s1'') 10 new_store)))"
proof -
  let ?s = "snd (claimDelivery (demo_claim ''s1'') 10 new_store)"
  have f: "fst (claimDelivery (demo_claim ''s1'') 10 new_store)" by (simp add: claimDelivery_def insertEvent_def new_store_def)
  then have c: "claimDelivery (demo_claim ''s1'') 10 (lg_store (empty_ledger ())) = (True, ?s)"
    by (cases "claimDelivery (demo_claim ''s1'') 10 new_store") (simp add: empty_ledger_def)
  have "fst (claimDelivery (demo_claim ''s2'') 20 (lg_store ((empty_ledger ())\<lparr>lg_store := ?s\<rparr>))) = False"
    by (rule delivery_claimed_once[OF c ledger_path.here[of demo_deps]]) (simp_all add: demo_claim_def)
  with f show ?thesis by simp
qed

end
