(* ===== verification/SessionConflict.thy ===== *)
theory SessionConflict
  imports LedgerClaims
begin

text \<open>
  Two turns for one session. What an observation does when the attempt it opens or moves meets another open attempt in
  its session (\<open>ledger.ts\<close>, the conflict check of \<open>applyStep\<close>).
\<close>

section \<open>What a step writes\<close>

lemma insert_rows_attempts: "insert_rows i rows s = Inr s' \<Longrightarrow> ts_attempts s' = ts_attempts s"
proof (induction rows arbitrary: s)
  case (Cons row rows)
  then obtain s1 where "insert_rows i rows s1 = Inr s'" "ts_attempts s1 = ts_attempts s"
    by (auto simp: insertEvent_def split: if_splits prod.splits)
  with Cons.IH show ?case by metis
qed simp

lemma persist_writes:
  assumes p: "persist deps env opts ev att r t = Inr (t', so)" and r: "out_verdict r = V_applied" "out_attempt r = Some n"
  shows "getAttempt j (fst t') = (if j = a_attemptId n then Some n else getAttempt j (fst t))"
proof -
  from persist_parts[OF p] obtain s1 s2 where w: "write_attempt (oe_now env) r (fst t) = Inr s1"
    and rec: "recordEvidence (step_row env opts ev att r) s1 = (True, s2)"
    and fin: "finish_step deps env opts ev att r (s2, snd t) = Inr (t', so)" by blast
  have "getAttempt j s1 = (if j = a_attemptId n then Some n else getAttempt j (fst t))"
    using w r find_put_attempt[of j n "oe_now env" "ts_attempts (fst t)"]
    by (auto simp: write_attempt_def upsertAttempt_def syncHolds_def getAttempt_def split: if_splits sum.splits)
  moreover have "ts_attempts s2 = ts_attempts s1" using recordEvidence_keep[OF rec step_row_plain] by blast
  moreover have "ts_attempts (fst t') = ts_attempts s2"
    using finish_step_store[OF fin] r insert_rows_attempts by (auto simp: subject_of_def first_of_def)
  ultimately show ?thesis by (metis getAttempt_attempts)
qed

lemma quiet_keeps_store:
  "\<forall>so\<in>set sos. quiet (so_result so) \<Longrightarrow> after_steps obs now sos lg = Some (l, e) \<Longrightarrow> lg_store l = lg_store lg"
proof (induction sos arbitrary: lg)
  case (Cons so sos)
  show ?case
  proof (cases "out_verdict (so_result so) = V_rejected")
    case True
    then show ?thesis using Cons by simp
  next
    case False
    have "observe_all obs (ev_eventId (so_evidence so)) (out_effects (so_result so)) (lg\<lparr>lg_calls := lg_calls lg @ step_calls now so\<rparr>)
        = Some (lg\<lparr>lg_calls := lg_calls lg @ step_calls now so\<rparr>, None)"
      using Cons.prems(1) by (intro observe_all_quiet) auto
    then show ?thesis using Cons False by fastforce
  qed
qed simp

lemma conflict_found:
  assumes ok: "store_ok s" and n: "out_attempt r = Some n" "opens att r \<or> moves att r"
    and q: "q \<in> set (ts_attempts s)" "row_open q" "a_sessionId (at_attempt q) = a_sessionId n" "row_id q \<noteq> a_attemptId n"
  shows "conflicting att r s = Some (at_attempt q)"
  using open_in_session[OF ok q(1,2)] n q(3,4) by (simp add: conflicting_def)

section \<open>The two ways out\<close>

lemma conflict_refused:
  assumes c: "conflicting att (step_result deps env opts lg False ev att (lg_store lg)) (lg_store lg) = Some c" "a_scope c \<noteq> Plain"
    and fresh: "\<forall>e \<in> set (ts_events (lg_store lg)). er_eventId e \<noteq> ev_eventId ev \<and> er_dedupeKey e \<noteq> ev_eventId ev"
  shows "\<exists>row so. er_eventId row = ev_eventId ev \<and> er_verdict row = Row_rejected \<and> so_result so = conflict_result
    \<and> applyStep deps env opts lg ev att (lg_store lg, lg_host lg)
       = Inr (((lg_store lg)\<lparr>ts_events := ts_events (lg_store lg) @ [row]\<rparr>, lg_host lg), [so])"
proof -
  let ?ev = "step_evidence env opts att ev"
  let ?row = "step_row env opts ?ev att conflict_result"
  have id: "ev_eventId ?ev = ev_eventId ev" by (simp add: step_evidence_def held_back_def split: option.split)
  have row: "er_eventId ?row = ev_eventId ev" "er_dedupeKey ?row = ev_eventId ev" "er_verdict ?row = Row_rejected" "livenessSampleKey ?row = None"
    by (simp_all add: step_row_def evidenceRow_def conflict_result_def id livenessSampleKey_def)
  have "\<not> (\<exists>e \<in> set (ts_events (lg_store lg)). row_clash ?row e)" using fresh row by (auto simp: row_clash_def)
  then have rec: "recordEvidence ?row (lg_store lg) = (True, (lg_store lg)\<lparr>ts_events := ts_events (lg_store lg) @ [unpub ?row]\<rparr>)"
    using row(4) by (simp add: recordEvidence_def insertEvent_def split: option.split)
  have "\<exists>so. so_result so = conflict_result \<and> persist deps env opts ?ev att conflict_result (lg_store lg, lg_host lg)
      = Inr (((lg_store lg)\<lparr>ts_events := ts_events (lg_store lg) @ [unpub ?row]\<rparr>, lg_host lg), so)"
    using rec by (auto simp: persist_def write_attempt_def finish_step_def first_of_def conflict_result_def split: option.split)
  with row c show ?thesis by (intro exI[of _ "unpub ?row"]) (auto simp: applyStep_def Let_def)
qed

lemma conflict_superseded:
  assumes ok: "store_ok (lg_store lg)" and f: "plain_fresh ev (lg_store lg)"
    and r: "r = step_result deps env opts lg False ev (resolveAttempt ev (lg_store lg)) (lg_store lg)"
    and c: "conflicting (resolveAttempt ev (lg_store lg)) r (lg_store lg) = Some c" "a_scope c = Plain" and n: "out_attempt r = Some n"
    and ap: "applyStep deps env opts lg ev (resolveAttempt ev (lg_store lg)) (lg_store lg, lg_host lg) = Inr ((s, h), sos)"
  shows "(\<exists>t. getAttempt (a_attemptId c) s = Some (committed_attempt t c) \<and> tt_outcome t = O_cancelled \<and> tt_reason t = Rs_superseded)
    \<and> getAttempt (a_attemptId n) s = Some n"
proof -
  let ?att = "resolveAttempt ev (lg_store lg)" and ?t = "(lg_store lg, lg_host lg)"
  let ?ev = "step_evidence env opts ?att ev"
  let ?q = "step_result deps env no_options lg True (supersede ?ev c) (Some c) (lg_store lg)"
  from conflicting_found[OF ok c(1)] n have f: "a_attemptId c \<noteq> a_attemptId n" "out_verdict r = V_applied"
    "getAttempt (a_attemptId c) (lg_store lg) = Some c" "a_terminal c = None" by auto
  have okc: "attempt_ok c" using getAttempt_Some[OF f(3)] store_okD(1)[OF ok] unfolding attempts_ok_def by blast
  from ap c r obtain t1 so1 so2 where p1: "nested_step deps env lg (supersede ?ev c) c ?t = Inr (t1, so1)"
    and p2: "persist deps env opts ?ev ?att r t1 = Inr ((s, h), so2)"
    by (auto simp: applyStep_def Let_def split: sum.splits)
  obtain t where t: "out_attempt ?q = Some (committed_attempt t c)" "tt_outcome t = O_cancelled" "tt_reason t = Rs_superseded"
    using supersede_ends(3)[OF okc f(4) c(2), of deps env lg ?ev "lg_store lg"] by blast
  have v: "out_verdict ?q = V_applied" using supersede_ends(1)[OF okc f(4) c(2)] .
  have "getAttempt (a_attemptId c) (fst t1) = Some (committed_attempt t c)"
    using persist_writes[OF p1[unfolded nested_step_def fst_conv] v t(1), of "a_attemptId c"] by (simp add: committed_attempt_def)
  with persist_writes[OF p2 f(2) n] f(1) t show ?thesis by auto
qed

text \<open>
  C4. Two turns never share a session, and which one yields is decided by the scope. In every reachable ledger, let valid new evidence that this
  daemon owns open an attempt in a session, or move one there, while another attempt is open in that session. If that other attempt is a mesh turn, the evidence is
  refused: it leaves one rejected row, and no attempt, hold, queue row or port changes. If the other is a plain turn, then
  unless the observation fails or finds its evidence already recorded (and then changes nothing), the plain turn is ended as
  cancelled because it was superseded, and the new attempt is stored as the reducer produced it. (Evidence other than the expiry of a hold.)
\<close>

theorem session_conflict_settled:
  assumes path: "ledger_path deps (empty_ledger h) is lg" and f: "plain_fresh ev (lg_store lg)"
    and v: "isTurnEvidence ev" "ev_kind ev \<noteq> K_hold_expired"
    and own: "foreign_owner (ld_selfDaemonId deps) (resolveAttempt ev (lg_store lg)) opts = None"
    and fresh: "\<forall>e \<in> set (ts_events (lg_store lg)). er_eventId e \<noteq> ev_eventId ev \<and> er_dedupeKey e \<noteq> ev_eventId ev"
    and r: "r = step_result deps env opts lg False ev (resolveAttempt ev (lg_store lg)) (lg_store lg)"
    and n: "out_attempt r = Some n" "opens (resolveAttempt ev (lg_store lg)) r \<or> moves (resolveAttempt ev (lg_store lg)) r"
    and q: "q \<in> set (ts_attempts (lg_store lg))" "row_open q" "a_sessionId (at_attempt q) = a_sessionId n" "row_id q \<noteq> a_attemptId n"
  shows "if a_scope (at_attempt q) \<noteq> Plain
    then \<exists>row. er_eventId row = ev_eventId ev \<and> er_verdict row = Row_rejected
      \<and> observe_now deps env opts ev lg
         = Some (lg\<lparr>lg_store := (lg_store lg)\<lparr>ts_events := ts_events (lg_store lg) @ [row]\<rparr>\<rparr>, Inr (result_of conflict_result))
    else \<forall>lg' res. observe_now deps env opts ev lg = Some (lg', Inr res) \<longrightarrow>
      lg' = lg \<and> res = plain_result Ob_duplicate None
      \<or> (\<exists>t. getAttempt (row_id q) (lg_store lg') = Some (committed_attempt t (at_attempt q)) \<and> tt_outcome t = O_cancelled \<and> tt_reason t = Rs_superseded)
        \<and> getAttempt (a_attemptId n) (lg_store lg') = Some n"
proof -
  let ?att = "resolveAttempt ev (lg_store lg)"
  have ok: "store_ok (lg_store lg)" using reached_ok[OF path] .
  have c: "conflicting ?att r (lg_store lg) = Some (at_attempt q)" using conflict_found[OF ok n q] .
  have new: "\<not> hasEvent (ev_eventId ev) (lg_store lg)" using fresh by (auto simp: hasEvent_def)
  note obs = observe_now_def OBSERVE_DEPTH_def numeral_2_eq_2
  show ?thesis
  proof (cases "a_scope (at_attempt q) = Plain")
    case False
    from conflict_refused[OF c[unfolded r] False fresh] obtain row so where row: "er_eventId row = ev_eventId ev" "er_verdict row = Row_rejected"
      "so_result so = conflict_result" and ap: "applyStep deps env opts lg ev ?att (lg_store lg, lg_host lg)
        = Inr (((lg_store lg)\<lparr>ts_events := ts_events (lg_store lg) @ [row]\<rparr>, lg_host lg), [so])" by blast
    have "out_verdict conflict_result = V_rejected" by (simp add: conflict_result_def)
    then have "observe_now deps env opts ev lg
       = Some (lg\<lparr>lg_store := (lg_store lg)\<lparr>ts_events := ts_events (lg_store lg) @ [row]\<rparr>\<rparr>, Inr (result_of conflict_result))"
      using v(1) new own ap row(3) by (simp add: obs Let_def)
    with False row show ?thesis by auto
  next
    case True
    have "lg' = lg \<and> res = plain_result Ob_duplicate None
      \<or> (\<exists>t. getAttempt (row_id q) (lg_store lg') = Some (committed_attempt t (at_attempt q)) \<and> tt_outcome t = O_cancelled \<and> tt_reason t = Rs_superseded)
        \<and> getAttempt (a_attemptId n) (lg_store lg') = Some n" if o: "observe_now deps env opts ev lg = Some (lg', Inr res)" for lg' res
    proof (cases "applyStep deps env opts lg ev ?att (lg_store lg, lg_host lg)")
      case (Inl e)
      then show ?thesis using o v(1) new own by (cases e) (simp_all add: obs Let_def)
    next
      case (Inr b)
      obtain s h' sos where b: "b = ((s, h'), sos)" by (metis surj_pair)
      note ap = Inr[unfolded b]
      obtain err where after: "after_steps (again_of (observe (Suc 0) deps env opts)) (oe_now env) sos (lg\<lparr>lg_store := s, lg_host := h'\<rparr>) = Some (lg', err)"
        using o v(1) new own ap unfolding obs observe.simps(2)[of "Suc 0"] by (auto simp: Let_def simp del: observe.simps split: option.splits prod.splits)
      have "\<forall>so\<in>set sos. quiet (so_result so)" using applyStep_quiet[OF _ _ v(2) ap] ok resolve_stored[OF ok] by simp
      from quiet_keeps_store[OF this after] have "lg_store lg' = s" by simp
      with conflict_superseded[OF ok f r c True n(1) ap] show ?thesis by simp
    qed
    with True show ?thesis by auto
  qed
qed

text \<open>A second dispatch into the session of a mesh turn that is under way.\<close>

definition demo_busy_ledger :: "unit ledger" where
  "demo_busy_ledger = demo_observe (demo_ev ''e0'' 10 Src_dispatch (demo_dispatch Mesh_queue)) (empty_ledger ())"

definition demo_second :: turn_evidence where
  "demo_second = (demo_ev ''e1'' 20 Src_dispatch (demo_dispatch Mesh_queue))\<lparr>ev_taskId := Some ''t2''\<rparr>"

definition demo_second_result :: reduce_result where
  "demo_second_result = step_result demo_deps (demo_env 20) no_options demo_busy_ledger False demo_second
     (resolveAttempt demo_second (lg_store demo_busy_ledger)) (lg_store demo_busy_ledger)"

lemma demo_second_values:
  "(resolveAttempt demo_second (lg_store demo_busy_ledger), opens None demo_second_result,
    map_option (\<lambda>n. (a_attemptId n, a_sessionId n)) (out_attempt demo_second_result),
    map (\<lambda>r. (row_id r, row_open r, a_sessionId (at_attempt r), a_scope (at_attempt r))) (ts_attempts (lg_store demo_busy_ledger)),
    list_all (\<lambda>e. er_eventId e \<noteq> ev_eventId demo_second \<and> er_dedupeKey e \<noteq> ev_eventId demo_second) (ts_events (lg_store demo_busy_ledger)),
    isTurnEvidence demo_second, foreign_owner (ld_selfDaemonId demo_deps) None no_options)
   = (None, True, Some (''mesh_queue:e1'', ''s1''), [(''mesh_queue:e0'', True, ''s1'', Mesh_queue)], True, True, None)"
  by code_simp

theorem session_conflict_settled_witness:
  "map_option (\<lambda>(lg, res). (ts_attempts (lg_store lg) = ts_attempts (lg_store demo_busy_ledger), res)) (observe_now demo_deps (demo_env 20) no_options demo_second demo_busy_ledger)
   = Some (True, Inr (result_of conflict_result))"
proof -
  let ?lg = demo_busy_ledger and ?ev = demo_second and ?r = demo_second_result
  have path: "ledger_path demo_deps (empty_ledger ()) [] ?lg"
    unfolding demo_busy_ledger_def
    by (intro demo_on ledger_path.here; simp add: plain_fresh_def demo_ev_def demo_dispatch_def empty_ledger_def new_store_def getAttempt_def)
  have kind: "plain_fresh ?ev (lg_store ?lg)" "ev_kind ?ev \<noteq> K_hold_expired"
    by (simp_all add: plain_fresh_def demo_second_def demo_ev_def demo_dispatch_def)
  have att: "resolveAttempt ?ev (lg_store ?lg) = None" using demo_second_values by simp
  from demo_second_values obtain n q where nq: "out_attempt ?r = Some n" "a_attemptId n = ''mesh_queue:e1''" "a_sessionId n = ''s1''"
    "ts_attempts (lg_store ?lg) = [q]" "row_id q = ''mesh_queue:e0''" "row_open q" "a_sessionId (at_attempt q) = ''s1''" "a_scope (at_attempt q) = Mesh_queue" by auto
  have fresh: "\<forall>e \<in> set (ts_events (lg_store ?lg)). er_eventId e \<noteq> ev_eventId ?ev \<and> er_dedupeKey e \<noteq> ev_eventId ?ev"
    using demo_second_values by (simp add: list_all_iff)
  have own: "foreign_owner (ld_selfDaemonId demo_deps) (resolveAttempt ?ev (lg_store ?lg)) no_options = None" "isTurnEvidence ?ev"
    "opens (resolveAttempt ?ev (lg_store ?lg)) ?r \<or> moves (resolveAttempt ?ev (lg_store ?lg)) ?r" using demo_second_values att by simp_all
  from session_conflict_settled[OF path kind(1) own(2) kind(2) own(1) fresh demo_second_result_def nq(1) own(3), of q] nq
  show ?thesis by auto
qed

end
