(* ===== verification/LedgerPublish.thy ===== *)
theory LedgerPublish
  imports LedgerReach
begin

text \<open>
  Publishing and delivery ids: the order in which a drain publishes the rows of a mesh, the rows that a
  drain does not reach, the length of published ids, and the reading of delivery claims.
\<close>

section \<open>The outbox\<close>

definition outbox :: "turn_store \<Rightarrow> turn_event_row list" where
  "outbox s = sort_key er_recordedAt (filter (\<lambda>e. er_publishState e = Pub_pending) (ts_events s))"

lemma pendingPublish_outbox: "pendingPublish n s = take n (outbox s)"
  by (simp add: pendingPublish_def outbox_def)

lemma filter_marked:
  assumes "\<And>e. er_publishState (f e) \<noteq> Pub_pending"
  shows "filter (\<lambda>e. er_publishState e = Pub_pending) (map (\<lambda>e. if er_eventId e = i \<and> er_publishState e = Pub_pending then f e else e) es)
    = filter (\<lambda>e. er_eventId e \<noteq> i) (filter (\<lambda>e. er_publishState e = Pub_pending) es)"
  using assms by (induction es) auto

lemma outbox_upd:
  assumes "\<And>e. er_publishState (f e) \<noteq> Pub_pending"
  shows "outbox (upd_event (\<lambda>e. er_eventId e = i \<and> er_publishState e = Pub_pending) f s) = filter (\<lambda>e. er_eventId e \<noteq> i) (outbox s)"
  unfolding outbox_def upd_event_def by (simp add: filter_marked[OF assms] filter_sort del: filter_filter)

lemma outbox_mark:
  "outbox (markPublished i w q s) = filter (\<lambda>e. er_eventId e \<noteq> i) (outbox s)"
  "outbox (markPublishRefused i s) = filter (\<lambda>e. er_eventId e \<noteq> i) (outbox s)"
  unfolding markPublished_def markPublishRefused_def by (rule outbox_upd; simp)+

lemma outbox_ids: "distinct (map er_eventId (ts_events s)) \<Longrightarrow> distinct (map er_eventId (outbox s))"
  by (simp add: outbox_def distinct_map_sort distinct_map_filter)

text \<open>The mesh that a row is published to, when it can be published.\<close>

definition row_mesh :: "turn_event_row \<Rightarrow> ident option" where
  "row_mesh row = (if payload_entry (er_payload row) = None \<or> er_meshId row = Some [] then None else er_meshId row)"

lemma publishable_mesh: "map_option fst (publishable sha1hex row) = row_mesh row"
  by (auto simp: publishable_def row_mesh_def split: option.splits)

text \<open>Two outboxes: one of a broken mesh \<open>a\<close> with one row for mesh \<open>b\<close> behind it, one with two rows of mesh \<open>b\<close>.\<close>

definition demo_notice :: "ident \<Rightarrow> mesh_event_notice" where
  "demo_notice m = \<lparr>mn_meshId = m, mn_event = ''refine:completed'', mn_payload = None, mn_targetDaemonId = ''d1'', mn_targetSessionId = None,
     mn_taskId = None, mn_eventId = None, mn_at = None, mn_notify = None, mn_ref = None, mn_attemptId = None\<rparr>"

definition demo_outbox :: turn_store where
  "demo_outbox = new_store\<lparr>ts_events := map (\<lambda>i. notice_row (demo_notice ''a'') (''e'' @ js_int i) 0 0) [1..256] @ [notice_row (demo_notice ''b'') ''x'' 0 0]\<rparr>"

definition demo_publisher :: "unit publisher" where
  "demo_publisher p m e r = (if m = ''a'' then Inl Publish_failed else Inr (''w'', 1), ())"

definition demo_pair :: turn_store where
  "demo_pair = new_store\<lparr>ts_events := [notice_row (demo_notice ''b'') ''x'' 0 1, notice_row (demo_notice ''b'') ''y'' 0 2]\<rparr>"

section \<open>Order\<close>

definition precedes :: "'a list \<Rightarrow> 'a \<Rightarrow> 'a \<Rightarrow> bool" where
  "precedes xs x y \<longleftrightarrow> (\<exists>us vs. xs = us @ y # vs \<and> x \<in> set us)"

text \<open>No row of a mesh has left the outbox \<open>L\<close> before an earlier row of that mesh.\<close>

definition in_order :: "turn_event_row list \<Rightarrow> turn_store \<Rightarrow> bool" where
  "in_order L s \<longleftrightarrow> (\<forall>x y. precedes L x y \<and> row_mesh x = row_mesh y \<and> row_mesh y \<noteq> None \<and> y \<notin> set (outbox s) \<longrightarrow> x \<notin> set (outbox s))"

text \<open>Rows that a pass has visited and that are still in the outbox are blocked or cannot be published.\<close>

definition visited :: "turn_event_row list \<Rightarrow> 'p drain_state \<Rightarrow> bool" where
  "visited xs d \<longleftrightarrow> (\<forall>x\<in>set xs. x \<in> set (outbox (ds_store d)) \<longrightarrow> row_mesh x = None \<or> the (row_mesh x) \<in> set (ds_blocked d))"

lemma precedes_filter:
  assumes "precedes L x y" "P x" "P y"
  shows "precedes (filter P L) x y"
proof -
  from assms(1) obtain us vs where "L = us @ y # vs" "x \<in> set us" by (auto simp: precedes_def)
  with assms(2,3) have "filter P L = filter P us @ y # filter P vs" "x \<in> set (filter P us)" by simp_all
  then show ?thesis unfolding precedes_def by blast
qed

lemma split_unique: "us @ y # vs = us' @ y # vs' \<Longrightarrow> y \<notin> set us \<Longrightarrow> y \<notin> set us' \<Longrightarrow> us = us'"
proof (induction us arbitrary: us')
  case Nil
  then show ?case by (cases us') auto
next
  case (Cons u us)
  then show ?case by (cases us') auto
qed

lemma precedes_in_prefix:
  assumes "distinct (us @ y # vs)" "precedes (us @ y # vs) x y"
  shows "x \<in> set us"
proof -
  from assms(2) obtain us' vs' where e: "us @ y # vs = us' @ y # vs'" "x \<in> set us'" by (auto simp: precedes_def)
  have "y \<notin> set us" "y \<notin> set us'" using assms(1) unfolding e(1) using assms(1) by auto
  from split_unique[OF e(1) this] e(2) show ?thesis by simp
qed

lemma publish_row_cases:
  obtains (kept) "ds_store (publish_row sha1hex publish y d) = ds_store d" "set (ds_blocked d) \<subseteq> set (ds_blocked (publish_row sha1hex publish y d))"
      "row_mesh y = None \<or> the (row_mesh y) \<in> set (ds_blocked (publish_row sha1hex publish y d))"
  | (left) m where "outbox (ds_store (publish_row sha1hex publish y d)) = filter (\<lambda>e. er_eventId e \<noteq> er_eventId y) (outbox (ds_store d))"
      "ds_blocked (publish_row sha1hex publish y d) = ds_blocked d" "row_mesh y = Some m" "m \<notin> set (ds_blocked d)"
proof (cases "publishable sha1hex y")
  case None
  then have "row_mesh y = None" using publishable_mesh[of sha1hex y] by simp
  with None kept show ?thesis by (simp add: publish_row_def)
next
  case (Some t)
  obtain m e r where t: "t = (m, e, r)" by (cases t)
  have m: "row_mesh y = Some m" using publishable_mesh[of sha1hex y] Some t by simp
  obtain res p where pub: "publish (ds_publisher d) m e r = (res, p)" by fastforce
  show ?thesis
  proof (cases "m \<in> set (ds_blocked d)")
    case True
    with Some t m kept show ?thesis by (simp add: publish_row_def)
  next
    case False
    show ?thesis
    proof (cases "res = Inl Publish_failed")
      case True
      with Some t m pub False kept show ?thesis by (auto simp: publish_row_def add_seen_def)
    next
      case ok: False
      show ?thesis
      proof (cases res)
        case (Inl err)
        with ok have "err = Content_guard" by (cases err) simp_all
        with Inl Some t m pub False left show ?thesis by (simp add: publish_row_def outbox_mark)
      next
        case (Inr id)
        with Some t m pub False left show ?thesis by (cases id) (simp add: publish_row_def outbox_mark)
      qed
    qed
  qed
qed

lemma publish_row_order:
  fixes publish :: "'p publisher" and sha1hex :: "ident \<Rightarrow> string"
  assumes L: "distinct (map er_eventId L)" and B: "filter K L = xs @ y # zs" and sub: "set (outbox (ds_store d)) \<subseteq> set (filter K L)"
    and ord: "in_order L (ds_store d)" and vis: "visited xs d" and d': "d' = publish_row sha1hex publish y d"
  shows "in_order L (ds_store d') \<and> visited (xs @ [y]) d' \<and> (\<exists>P. outbox (ds_store d') = filter P (outbox (ds_store d)))"
proof (cases sha1hex publish y d rule: publish_row_cases)
  case kept
  note kept = kept[folded d']
  then show ?thesis using ord vis by (auto simp: visited_def intro!: exI[of _ "\<lambda>_. True"])
next
  case (left m)
  note left = left[folded d']
  have dB: "distinct (xs @ y # zs)" using L B by (metis distinct_filter distinct_map)
  have y: "y \<in> set L" using B by (metis filter_is_subset in_set_conv_decomp subsetD)
  have "in_order L (ds_store d')"
    unfolding in_order_def
  proof (intro allI impI notI, elim conjE)
    fix x z
    assume p: "precedes L x z" and mesh: "row_mesh x = row_mesh z" "row_mesh z \<noteq> None"
      and z: "z \<notin> set (outbox (ds_store d'))" and x: "x \<in> set (outbox (ds_store d'))"
    have xo: "x \<in> set (outbox (ds_store d))" using x left(1) by simp
    have zo: "z \<in> set (outbox (ds_store d))" using ord p mesh xo unfolding in_order_def by blast
    then have "er_eventId z = er_eventId y" using z left(1) by simp
    moreover have "z \<in> set L" using sub zo by auto
    ultimately have zy: "z = y" using L y by (auto simp: distinct_map inj_on_def)
    have "K x" "K y" using sub xo zo zy by auto
    then have "precedes (filter K L) x y" using p zy by (simp add: precedes_filter)
    then have "x \<in> set xs" using precedes_in_prefix[OF dB] unfolding B by blast
    with vis xo mesh zy left(3,4) show False by (auto simp: visited_def)
  qed
  moreover have "visited (xs @ [y]) d'" using vis left by (auto simp: visited_def)
  ultimately show ?thesis using left(1) by blast
qed

text \<open>What a pass keeps between batches.\<close>

definition sorted_out :: "turn_event_row list \<Rightarrow> turn_store \<Rightarrow> bool" where
  "sorted_out L s \<longleftrightarrow> in_order L s \<and> (\<exists>K. outbox s = filter K L)"

lemma fold_rows_order:
  assumes L: "distinct (map er_eventId L)" and B: "filter K L = xs @ ys @ zs"
    and "set (outbox (ds_store d)) \<subseteq> set (filter K L)" "sorted_out L (ds_store d)" "visited xs d"
  shows "sorted_out L (ds_store (foldl (\<lambda>d row. publish_row sha1hex publish row d) d ys))"
  using assms(2-)
proof (induction ys arbitrary: xs d)
  case (Cons y ys)
  let ?d = "publish_row sha1hex publish y d"
  have "filter K L = xs @ y # (ys @ zs)" using Cons.prems(1) by simp
  from publish_row_order[OF L this Cons.prems(2) _ Cons.prems(4) refl] Cons.prems(3)
  have r: "in_order L (ds_store ?d)" "visited (xs @ [y]) ?d" "\<exists>P. outbox (ds_store ?d) = filter P (outbox (ds_store d))"
    by (auto simp: sorted_out_def)
  have "sorted_out L (ds_store ?d)" using r(1,3) Cons.prems(3) by (auto simp: sorted_out_def)
  moreover have "set (outbox (ds_store ?d)) \<subseteq> set (filter K L)" using r(3) Cons.prems(2) by auto
  moreover have "filter K L = (xs @ [y]) @ ys @ zs" using Cons.prems(1) by simp
  ultimately show ?case using Cons.IH[of "xs @ [y]" ?d] r(2) by simp
qed simp

lemma batch_order:
  assumes L: "distinct (map er_eventId L)" and s: "sorted_out L (ds_store d)"
  shows "sorted_out L (ds_store (publish_batch sha1hex publish d))"
proof -
  from s obtain K where K: "outbox (ds_store d) = filter K L" by (auto simp: sorted_out_def)
  let ?d = "d\<lparr>ds_progressed := 0\<rparr>"
  have "filter K L = [] @ pendingPublish PUBLISH_BATCH (ds_store d) @ drop PUBLISH_BATCH (outbox (ds_store d))"
    using K by (simp add: pendingPublish_outbox)
  from fold_rows_order[OF L this, of ?d sha1hex publish] s K show ?thesis by (simp add: publish_batch_def visited_def)
qed

lemma drain_loop_order: "distinct (map er_eventId L) \<Longrightarrow> sorted_out L (ds_store d) \<Longrightarrow> sorted_out L (ds_store (drain_loop sha1hex publish d))"
proof (induction sha1hex publish d rule: drain_loop.induct)
  case (1 sha1hex publish d)
  then show ?case using batch_order[OF 1(2,3), of sha1hex publish]
    by (subst drain_loop.simps) (auto simp: Let_def simp del: drain_loop.simps)
qed

text \<open>
  C14. A mesh's rows leave the outbox in order. When a drain ends, a row that could be published and is
  still pending has no later row of the same mesh that left the outbox before it: a failed append
  holds back every later row of its mesh, across batches, whatever the publisher answers.
\<close>

theorem drain_keeps_order:
  assumes d: "distinct (map er_eventId (ts_events s))" and o: "outbox s = us @ y # vs" "x \<in> set us"
    and m: "row_mesh x = row_mesh y" "row_mesh y \<noteq> None"
    and left: "y \<notin> set (outbox (fst (snd (drain sha1hex publisher p s))))"
  shows "x \<notin> set (outbox (fst (snd (drain sha1hex publisher p s))))"
proof -
  have start: "sorted_out (outbox s) s" by (auto simp: sorted_out_def in_order_def precedes_def intro!: exI[of _ "\<lambda>_. True"])
  have "sorted_out (outbox s) (fst (snd (drain sha1hex publisher p s)))"
    using start by (auto simp: drain_def Let_def simp del: drain_loop.simps split: option.splits intro!: drain_loop_order[OF outbox_ids[OF d]])
  moreover have "precedes (outbox s) x y" using o by (auto simp: precedes_def)
  ultimately show ?thesis using m left unfolding sorted_out_def in_order_def by blast
qed

theorem drain_keeps_order_witness:
  "map er_eventId (outbox demo_pair) = [''x'', ''y'']
   \<and> notice_row (demo_notice ''b'') ''x'' 0 1 \<notin> set (outbox (fst (snd (drain (\<lambda>_. []) (Some demo_publisher) () demo_pair))))"
proof -
  let ?x = "notice_row (demo_notice ''b'') ''x'' 0 1" and ?y = "notice_row (demo_notice ''b'') ''y'' 0 2"
  have o: "outbox demo_pair = [] @ [?x] @ ?y # []" by (simp add: outbox_def demo_pair_def notice_row_def)
  have "?y \<notin> set (outbox (fst (snd (drain (\<lambda>_. []) (Some demo_publisher) () demo_pair))))" by code_simp
  with drain_keeps_order[of demo_pair "[?x]" ?y "[]" ?x] o show ?thesis
    by (simp add: row_mesh_def notice_row_def demo_notice_def demo_pair_def)
qed

section \<open>Rows that a drain does not reach\<close>

lemma blocked_fold:
  assumes "\<forall>row\<in>set rows. row_mesh row = Some m" "\<And>p e r. \<exists>p'. publish p m e r = (Inl Publish_failed, p')"
  shows "ds_store (foldl (\<lambda>d row. publish_row sha1hex publish row d) d rows) = ds_store d
    \<and> ds_progressed (foldl (\<lambda>d row. publish_row sha1hex publish row d) d rows) = ds_progressed d
    \<and> pr_published (ds_report (foldl (\<lambda>d row. publish_row sha1hex publish row d) d rows)) = pr_published (ds_report d)"
  using assms(1)
proof (induction rows arbitrary: d)
  case (Cons row rows)
  have one: "ds_store (publish_row sha1hex publish row d) = ds_store d \<and> ds_progressed (publish_row sha1hex publish row d) = ds_progressed d
      \<and> pr_published (ds_report (publish_row sha1hex publish row d)) = pr_published (ds_report d)"
  proof -
    obtain e r where p: "publishable sha1hex row = Some (m, e, r)"
      using publishable_mesh[of sha1hex row] Cons.prems by (auto simp: map_option_case split: option.splits)
    obtain p' where "publish (ds_publisher d) m e r = (Inl Publish_failed, p')" using assms(2) by blast
    with p show ?thesis by (simp add: publish_row_def)
  qed
  with Cons.IH[of "publish_row sha1hex publish row d"] Cons.prems show ?case by simp
qed simp

text \<open>
  A broken mesh can hold back the others. When the first 256 rows of the outbox go to a mesh whose
  appends fail, a drain publishes nothing at all: the batch makes no progress, so the pass ends before the
  rows of other meshes behind it are tried.
\<close>

lemma drain_starved:
  assumes rows: "\<forall>row\<in>set (take PUBLISH_BATCH (outbox s)). row_mesh row = Some m"
    and fails: "\<And>p e r. \<exists>p'. publish p m e r = (Inl Publish_failed, p')"
  shows "pr_published (fst (fst (drain sha1hex (Some publish) p s))) = 0 \<and> fst (snd (drain sha1hex (Some publish) p s)) = s"
proof -
  let ?d = "\<lparr>ds_store = s, ds_publisher = p, ds_blocked = [], ds_report = \<lparr>pr_published = 0, pr_failed = 0\<rparr>, ds_progressed = 0\<rparr>"
  have rows': "\<forall>row\<in>set (pendingPublish PUBLISH_BATCH s). row_mesh row = Some m" using rows by (simp add: pendingPublish_outbox)
  have "ds_store (foldl (\<lambda>d row. publish_row sha1hex publish row d) ?d (pendingPublish PUBLISH_BATCH s)) = ds_store ?d
    \<and> ds_progressed (foldl (\<lambda>d row. publish_row sha1hex publish row d) ?d (pendingPublish PUBLISH_BATCH s)) = ds_progressed ?d
    \<and> pr_published (ds_report (foldl (\<lambda>d row. publish_row sha1hex publish row d) ?d (pendingPublish PUBLISH_BATCH s))) = pr_published (ds_report ?d)"
    by (rule blocked_fold[OF rows']) (rule fails)
  then have b: "ds_store (publish_batch sha1hex publish ?d) = s" "ds_progressed (publish_batch sha1hex publish ?d) = 0"
    "pr_published (ds_report (publish_batch sha1hex publish ?d)) = 0" by (simp_all add: publish_batch_def)
  then have "drain_loop sha1hex publish ?d = publish_batch sha1hex publish ?d" by (subst drain_loop.simps) simp
  with b show ?thesis by (simp add: drain_def Let_def del: drain_loop.simps)
qed

lemma demo_outbox_rows: "outbox demo_outbox = ts_events demo_outbox"
proof -
  have "filter (\<lambda>e. er_publishState e = Pub_pending) (ts_events demo_outbox) = ts_events demo_outbox"
    by (simp add: demo_outbox_def notice_row_def filter_id_conv)
  moreover have "map er_recordedAt (ts_events demo_outbox) = replicate 257 0"
    by (simp add: demo_outbox_def notice_row_def comp_def map_replicate_const replicate_append_same flip: replicate_Suc)
  ultimately show ?thesis unfolding outbox_def by (simp add: sort_key_id_if_sorted)
qed

theorem drain_starved_witness:
  "length (outbox demo_outbox) = 257 \<and> row_mesh (last (outbox demo_outbox)) = Some ''b''
   \<and> pr_published (fst (fst (drain (\<lambda>_. []) (Some demo_publisher) () demo_outbox))) = 0"
proof -
  have "\<forall>row\<in>set (take PUBLISH_BATCH (outbox demo_outbox)). row_mesh row = Some ''a''"
    unfolding demo_outbox_rows by (simp add: demo_outbox_def PUBLISH_BATCH_def row_mesh_def notice_row_def demo_notice_def)
  from drain_starved[OF this, of demo_publisher "\<lambda>_. []" "()"]
  show ?thesis unfolding demo_outbox_rows
    by (simp add: demo_publisher_def) (simp add: demo_outbox_def row_mesh_def notice_row_def demo_notice_def)
qed

section \<open>Published ids\<close>

text \<open>
  A published id fits. Whatever the length of the stored id, the entry handed to the publisher
  carries an id of at most 256 characters, and ids that already fit are not changed.
\<close>

lemma published_id_bounded:
  assumes "publishable sha1hex row = Some (m, e, r)"
  shows "length (tp_eventId e) \<le> MAX_TOPIC_EVENT_ID \<and> m \<noteq> []
    \<and> (\<forall>e0. payload_entry (er_payload row) = Some e0 \<longrightarrow> length (tp_eventId e0) \<le> MAX_TOPIC_EVENT_ID \<longrightarrow> e = e0)"
  using assms by (auto simp: publishable_def compactEntryEventId_def MAX_TOPIC_EVENT_ID_def split: option.splits if_splits)

section \<open>Delivery claims\<close>

lemma digit_char_of: "n < 10 \<Longrightarrow> digit_char (char_of (48 + n :: nat))"
  by (simp add: digit_char_def)

lemma digits_all: "list_all digit_char (digits n)"
proof (induction n rule: digits.induct)
  case (1 n)
  then show ?case by (subst digits.simps) (auto simp: digit_char_of)
qed

lemma digit_not: "digit_char c \<Longrightarrow> c \<noteq> CHR '':'' \<and> c \<noteq> CHR ''-''"
  by (auto simp: digit_char_def)

lemma js_int_no_colon: "CHR '':'' \<notin> set (js_int n)"
  using digits_all digit_not unfolding js_int_def list_all_iff by (auto split: if_splits)

lemma int_text_js_int: "int_text (js_int n) = Some n"
proof (cases "n < 0")
  case True
  then show ?thesis using digits_all by (simp add: js_int_def int_text_def digits_value_digits)
next
  case False
  then obtain c r where cr: "digits (nat n) = c # r" by (cases "digits (nat n)") simp_all
  then have "c \<noteq> CHR ''-''" "list_all digit_char (c # r)" using digits_all[of "nat n"] digit_not[of c] by simp_all
  then show ?thesis using False cr digits_value_digits[of "nat n"] by (simp add: js_int_def int_text_def)
qed

lemma split_on_snoc: "c \<notin> set d \<Longrightarrow> split_on c (w @ c # d) = split_on c w @ [d]"
proof (induction w)
  case (Cons x w)
  then show ?case by (cases "split_on c w") (auto simp: split_on_nonempty)
qed simp

text \<open>
  The id of a delivery claim is read back. The parser returns the mesh, the writer and the sequence
  number that a claim was built from, for a writer with colons too, when the mesh id has none.
\<close>

lemma delivery_claim_parsed:
  assumes m: "m \<noteq> []" "CHR '':'' \<notin> set m" and sq: "\<bar>sq\<bar> < TWO_53"
  shows "parseDeliveryClaimId (deliveryClaimId (Some m) writer sq) = Some (Some m, writer, sq)"
proof -
  have id: "deliveryClaimId (Some m) writer sq = ''delivered:'' @ m @ CHR '':'' # writer @ CHR '':'' # js_int sq"
    using m by (simp add: deliveryClaimId_def truthy_def)
  have parts: "split_on CHR '':'' (m @ CHR '':'' # writer @ CHR '':'' # js_int sq) = m # split_on CHR '':'' writer @ [js_int sq]"
    using m js_int_no_colon by (simp add: split_on_append split_on_snoc)
  show ?thesis using sq parts unfolding id parseDeliveryClaimId_def
    by (simp add: starts_with_def int_text_js_int butlast_append)
qed

theorem delivery_claim_parsed_witness:
  "parseDeliveryClaimId (deliveryClaimId (Some ''mesh'') ''daemon:mach'' 12) = Some (Some ''mesh'', ''daemon:mach'', 12)"
  by (rule delivery_claim_parsed) (simp_all add: TWO_53_def)

end
