(* ===== verification/BackgroundRelease.thy ===== *)
theory BackgroundRelease
  imports BackgroundWork TurnDemo
begin

text \<open>
  The monitor of background work lets go. A turn end that it holds is held only while something happens:
  without activity, an inspection either lets it go, or nudges the worker and the next one lets it go.
\<close>

section \<open>Inspections without activity\<close>

definition no_activity :: "bg_input \<Rightarrow> tracked_entry \<Rightarrow> bool" where
  "no_activity i e \<longleftrightarrow> bi_cpuActivity i \<noteq> Cpu_active
     \<and> (case (bi_outputAtMs i, tk_lastOutputSeenAt e) of (Some out, Some seen) \<Rightarrow> out \<le> seen | _ \<Rightarrow> True)"

text \<open>The last time the entry has a reason to wait from.\<close>

definition waiting_since :: "tracked_entry \<Rightarrow> ms" where
  "waiting_since e = (case tk_nudgedAt e of None \<Rightarrow> tk_lastActivityAt e | Some n \<Rightarrow> max n (tk_lastActivityAt e))"

lemma note_quiet:
  assumes "no_activity i e"
  shows "tk_lastActivityAt (noteActivity i e) = tk_lastActivityAt e" "tk_nudgedAt (noteActivity i e) = tk_nudgedAt e"
    "tk_releasedAt (noteActivity i e) = tk_releasedAt e" "tk_generation (noteActivity i e) = tk_generation e"
  using assms by (auto simp: noteActivity_def note_output_def note_cpu_def no_activity_def Let_def split: option.splits)

lemma note_seen:
  assumes "no_activity i e" and e': "e' = noteActivity i (if names \<noteq> [] then e\<lparr>tk_lastLive := names\<rparr> else e)"
  shows "waiting_since e' = waiting_since e" "tk_lastActivityAt e' = tk_lastActivityAt e" "tk_nudgedAt e' = tk_nudgedAt e"
    "tk_releasedAt e' = tk_releasedAt e" "tk_generation e' = tk_generation e" "tk_attemptId e' = tk_attemptId e"
proof -
  have "no_activity i (e\<lparr>tk_lastLive := names\<rparr>)" using assms(1) by (simp add: no_activity_def split: option.splits)
  then show "tk_lastActivityAt e' = tk_lastActivityAt e" "tk_nudgedAt e' = tk_nudgedAt e"
    "tk_releasedAt e' = tk_releasedAt e" "tk_generation e' = tk_generation e" using note_quiet assms by auto
  then show "waiting_since e' = waiting_since e" by (simp add: waiting_since_def split: option.splits)
  show "tk_attemptId e' = tk_attemptId e" unfolding e'
    by (simp add: noteActivity_def note_output_def note_cpu_def Let_def split: option.splits)
qed

definition lets_go :: "ident \<Rightarrow> int \<Rightarrow> bg_entries \<times> bg_result \<times> bg_call list \<Rightarrow> bool" where
  "lets_go k gen out = (case out of (es, r, _) \<Rightarrow> \<not> br_holdTurnEnd r \<and> (isReleased k gen es \<or> map_of es k = None))"

definition nudges :: "ident \<Rightarrow> int \<Rightarrow> ms \<Rightarrow> bg_entries \<times> bg_result \<times> bg_call list \<Rightarrow> bool" where
  "nudges k gen now out = (case out of (es, r, cs) \<Rightarrow> Nudge k gen \<in> set cs
     \<and> (\<exists>e. map_of es k = Some e \<and> tk_generation e = gen \<and> tk_releasedAt e = None \<and> tk_nudgedAt e = Some now
          \<and> waiting_since e \<le> now \<and> tk_attemptId e = k))"

lemma settle_live_long:
  assumes "bi_nowMs i - tk_lastActivityAt e \<ge> ml_inactivityReleaseMs ml"
  shows "\<exists>e' r cs. settle_live ml i e = (e', r, cs) \<and> \<not> br_holdTurnEnd r \<and> tk_releasedAt e' \<noteq> None \<and> tk_generation e' = tk_generation e"
  using assms by (auto simp: settle_live_def Let_def release_def NOT_HELD_def)

lemma settle_entry_long:
  assumes "bi_nowMs i - waiting_since e \<ge> ml_inactivityReleaseMs ml" "bi_nowMs i - waiting_since e \<ge> ml_nudgeGraceMs ml"
    and k: "map_of es k = Some e0" "tk_attemptId e = k" "tk_generation e = gen" "tk_releasedAt e = None" "tk_lastActivityAt e \<le> bi_nowMs i"
    and out: "out = store_entry k (settle_entry tx ml i d names e) es"
  shows "lets_go k gen out \<or> tk_nudgedAt e = None \<and> nudges k gen (bi_nowMs i) out"
proof (cases "names \<noteq> []")
  case True
  have "bi_nowMs i - tk_lastActivityAt e \<ge> ml_inactivityReleaseMs ml"
    using assms(1) by (auto simp: waiting_since_def split: option.splits)
  from settle_live_long[OF this] k True show ?thesis
    by (auto simp: out settle_entry_def store_entry_def lets_go_def isReleased_def update_conv')
next
  case False
  show ?thesis
  proof (cases "tk_nudgedAt e")
    case None
    then show ?thesis using False k
      by (auto simp: out settle_entry_def settle_quiet_def store_entry_def nudges_def waiting_since_def Let_def update_conv')
  next
    case (Some n)
    then show ?thesis using False k assms(2)
      by (auto simp: out settle_entry_def settle_quiet_def store_entry_def lets_go_def isReleased_def release_def NOT_HELD_def
          waiting_since_def Let_def update_conv' delete_conv)
  qed
qed

lemma observe_long:
  assumes e: "map_of es k = Some e" "tk_attemptId e = k" "tk_generation e = gen"
    and a: "a_attemptId (bi_attempt i) = k" "a_generation (bi_attempt i) = gen" and q: "no_activity i e"
    and w: "bi_nowMs i - waiting_since e \<ge> ml_inactivityReleaseMs ml" "bi_nowMs i - waiting_since e \<ge> ml_nudgeGraceMs ml"
      "tk_lastActivityAt e \<le> bi_nowMs i"
  shows "lets_go k gen (bg_observe tx ml i es) \<or> tk_nudgedAt e = None \<and> nudges k gen (bi_nowMs i) (bg_observe tx ml i es)"
proof -
  let ?a = "bi_attempt i" and ?d = "evaluateTurnEndBackgroundWork tx (bi_attempt i) (bi_finalSummary i) (bi_processes i) False"
  let ?names = "live_names i (Some e) ?d"
  let ?e = "if ?names \<noteq> [] then e\<lparr>tk_lastLive := ?names\<rparr> else e"
  consider "a_scope ?a = Plain \<or> isTerminalTurnState (a_state ?a) \<or> a_terminal ?a \<noteq> None \<or> has_report ?a"
    | "\<not> (a_scope ?a = Plain \<or> isTerminalTurnState (a_state ?a) \<or> a_terminal ?a \<noteq> None \<or> has_report ?a)" "tk_releasedAt e \<noteq> None"
    | "\<not> (a_scope ?a = Plain \<or> isTerminalTurnState (a_state ?a) \<or> a_terminal ?a \<noteq> None \<or> has_report ?a)" "tk_releasedAt e = None"
        "\<not> idle_status (bi_status i) \<and> tk_nudgedAt e = None \<and> tk_timeoutNotifiedAt e = None"
    | "\<not> (a_scope ?a = Plain \<or> isTerminalTurnState (a_state ?a) \<or> a_terminal ?a \<noteq> None \<or> has_report ?a)" "tk_releasedAt e = None"
        "\<not> (\<not> idle_status (bi_status i) \<and> tk_nudgedAt e = None \<and> tk_timeoutNotifiedAt e = None)" by blast
  then show ?thesis
  proof cases
    case 1
    then show ?thesis using a by (simp add: bg_observe_def lets_go_def NOT_HELD_def delete_conv)
  next
    case 2
    then show ?thesis using a e by (simp add: bg_observe_def lets_go_def NOT_HELD_def isReleased_def Let_def)
  next
    case 3
    then show ?thesis using a e by (simp add: bg_observe_def lets_go_def NOT_HELD_def Let_def delete_conv)
  next
    case 4
    define e' where "e' = noteActivity i ?e"
    note n = note_seen[OF q e'_def]
    have "bg_observe tx ml i es = store_entry k (settle_entry tx ml i ?d ?names e') es"
      using 4 a e unfolding e'_def by (auto simp: bg_observe_def Let_def)
    then show ?thesis using settle_entry_long[where i = i and e = e' and es = es and k = k and gen = gen] w e n 4(2) by simp
  qed
qed

text \<open>
  C15. A held turn end is let go. Take any turn end that the monitor tracks and two inspections of it, the
  first at least the inactivity limit and the nudge grace after the last activity or nudge, the second
  as long after the first, and no activity at either. Then one of the two lets the turn end go: it is
  not held, and its generation is released or no longer tracked.
\<close>

theorem held_turn_end_let_go:
  assumes e: "map_of es k = Some e" "tk_attemptId e = k" "tk_generation e = gen"
    and a: "a_attemptId (bi_attempt i) = k" "a_generation (bi_attempt i) = gen" "a_attemptId (bi_attempt j) = k" "a_generation (bi_attempt j) = gen"
    and q: "no_activity i e" "\<And>e'. map_of (fst (bg_observe tx ml i es)) k = Some e' \<Longrightarrow> no_activity j e'"
    and D: "D \<ge> ml_inactivityReleaseMs ml" "D \<ge> ml_nudgeGraceMs ml" "D \<ge> 0"
    and t: "bi_nowMs i \<ge> waiting_since e + D" "bi_nowMs j \<ge> bi_nowMs i + D"
  shows "lets_go k gen (bg_observe tx ml i es) \<or> lets_go k gen (bg_observe tx ml j (fst (bg_observe tx ml i es)))"
proof -
  have "tk_lastActivityAt e \<le> waiting_since e" by (simp add: waiting_since_def split: option.splits)
  then have "lets_go k gen (bg_observe tx ml i es) \<or> nudges k gen (bi_nowMs i) (bg_observe tx ml i es)"
    using observe_long[OF e a(1,2) q(1), of ml tx] D t by auto
  then show ?thesis
  proof
    assume n: "nudges k gen (bi_nowMs i) (bg_observe tx ml i es)"
    obtain es1 r cs where o: "bg_observe tx ml i es = (es1, r, cs)" by (metis surj_pair)
    with n obtain e1 where e1: "map_of es1 k = Some e1" "tk_generation e1 = gen" "tk_nudgedAt e1 = Some (bi_nowMs i)"
      "waiting_since e1 \<le> bi_nowMs i" "tk_attemptId e1 = k" by (auto simp: nudges_def)
    have l: "tk_lastActivityAt e1 \<le> waiting_since e1" by (simp add: waiting_since_def split: option.splits)
    from observe_long[OF e1(1,5,2) a(3,4), of ml tx] q(2) o e1 D t l show ?thesis by auto
  qed simp
qed

text \<open>A queue turn that ended with a dev server still running.\<close>

definition demo_reader :: text_reader where
  "demo_reader = \<lparr>tx_sanitize = (\<lambda>t. t), tx_pending = (\<lambda>_. False)\<rparr>"

definition demo_inspection :: "ms \<Rightarrow> string list \<Rightarrow> bg_input" where
  "demo_inspection t ps = \<lparr>bi_attempt = demo_attempt Mesh_queue S_generating, bi_nowMs = t, bi_status = ''idle'', bi_finalSummary = None,
     bi_finalAssistantAt = None, bi_processes = Some ps, bi_processesKnown = True, bi_cpuActivity = Cpu_idle, bi_cpuObservedAtMs = None,
     bi_outputAtMs = None\<rparr>"

definition demo_tracked :: bg_entries where
  "demo_tracked = fst (bg_observe demo_reader default_limits (demo_inspection 0 [''vite'']) [])"

theorem held_turn_end_let_go_witness:
  "br_holdTurnEnd (fst (snd (bg_observe demo_reader default_limits (demo_inspection 600000 []) demo_tracked)))
   \<and> lets_go ''a1'' 0 (bg_observe demo_reader default_limits (demo_inspection 1200000 [])
        (fst (bg_observe demo_reader default_limits (demo_inspection 600000 []) demo_tracked)))"
proof -
  let ?i = "demo_inspection 600000 []" and ?j = "demo_inspection 1200000 []"
  have v: "map (\<lambda>(k, e). (k, tk_attemptId e, tk_generation e, waiting_since e)) demo_tracked = [(''a1'', ''a1'', 0, 0)]" by code_simp
  then obtain e where t: "demo_tracked = [(''a1'', e)]" and e': "tk_attemptId e = ''a1''" "tk_generation e = 0" "waiting_since e = 0" by auto
  have e: "map_of demo_tracked ''a1'' = Some e" unfolding t by simp
  have h: "br_holdTurnEnd (fst (snd (bg_observe demo_reader default_limits ?i demo_tracked)))" by code_simp
  have "lets_go ''a1'' 0 (bg_observe demo_reader default_limits ?i demo_tracked)
      \<or> lets_go ''a1'' 0 (bg_observe demo_reader default_limits ?j (fst (bg_observe demo_reader default_limits ?i demo_tracked)))"
    by (rule held_turn_end_let_go[OF e e'(1,2), where D = 600000])
      (simp_all add: e'(3) demo_inspection_def demo_attempt_def newAttempt_def demo_ev_def no_activity_def default_limits_def
        DEFAULT_BACKGROUND_WORK_INACTIVITY_RELEASE_MS_def DEFAULT_BACKGROUND_WORK_NUDGE_GRACE_MS_def)
  then show ?thesis using h by (auto simp: lets_go_def split: prod.splits)
qed

end
