(* ===== verification/NoticeRouting.thy ===== *)
theory NoticeRouting
  imports TurnLedgerOps
begin

text \<open>
  The pure decisions about a coordinator notice. \<open>routing.ts\<close>: which local coordinator session takes it, or
  what the delivery waits for. \<open>suppression.ts\<close>: whether the notice is still true, and the key under which
  one fact wakes a coordinator once. \<open>stage-notice-silence.ts\<close> and the force-inject list of
  \<open>mesh-event-classify.ts\<close>.
\<close>

section \<open>Routing\<close>

record coordinator_view =
  cv_sessionId :: ident
  cv_idle :: bool
  cv_modalParked :: bool

datatype route_wait = Wait_registered | Wait_input_ready | Wait_modal_cleared

datatype notice_route =
    Route_deliver ident bool
  | Route_wait "ident option" route_wait
  | Route_none

definition ready :: "coordinator_view \<Rightarrow> bool" where
  "ready v \<longleftrightarrow> cv_idle v \<and> \<not> cv_modalParked v"

definition bestOf :: "coordinator_view list \<Rightarrow> coordinator_view option" where
  "bestOf views =
     (case find ready views of
        Some v \<Rightarrow> Some v
      | None \<Rightarrow>
          (case find (\<lambda>v. \<not> cv_modalParked v) views of
             Some v \<Rightarrow> Some v
           | None \<Rightarrow> (case views of [] \<Rightarrow> None | v # _ \<Rightarrow> Some v)))"

text \<open>\<open>c !== target\<close> compares references: the sibling is searched among the other positions of the list.\<close>

definition sibling :: "ident \<Rightarrow> coordinator_view list \<Rightarrow> coordinator_view option" where
  "sibling wanted cs =
     (let same = (\<lambda>c. same_session (cv_sessionId c) wanted)
      in find ready (takeWhile (\<lambda>c. \<not> same c) cs @ tl (dropWhile (\<lambda>c. \<not> same c) cs)))"

definition route_addressed :: "ident \<Rightarrow> coordinator_view list \<Rightarrow> bool \<Rightarrow> notice_route" where
  "route_addressed wanted cs pastCeiling =
     (case find (\<lambda>c. same_session (cv_sessionId c) wanted) cs of
        Some target \<Rightarrow>
          if ready target then Route_deliver (cv_sessionId target) False
          else if \<not> pastCeiling
          then Route_wait (Some (cv_sessionId target)) (if cv_modalParked target then Wait_modal_cleared else Wait_input_ready)
          else Route_deliver (case sibling wanted cs of Some c \<Rightarrow> cv_sessionId c | None \<Rightarrow> cv_sessionId target) True
      | None \<Rightarrow>
          if cs = [] then Route_none
          else if \<not> pastCeiling then Route_wait (Some wanted) Wait_registered
          else (case bestOf cs of Some c \<Rightarrow> Route_deliver (cv_sessionId c) True | None \<Rightarrow> Route_none))"

definition route_any :: "coordinator_view list \<Rightarrow> bool \<Rightarrow> notice_route" where
  "route_any cs pastCeiling =
     (if cs = [] then Route_none
      else case find ready cs of
             Some c \<Rightarrow> Route_deliver (cv_sessionId c) False
           | None \<Rightarrow>
               if \<not> pastCeiling
               then Route_wait None (if list_ex (\<lambda>c. \<not> cv_modalParked c) cs then Wait_input_ready else Wait_modal_cleared)
               else Route_deliver (case bestOf cs of Some c \<Rightarrow> cv_sessionId c | None \<Rightarrow> []) True)"

definition routeNotice :: "ident option \<Rightarrow> coordinator_view list \<Rightarrow> bool \<Rightarrow> notice_route" where
  "routeNotice targetSessionId cs pastCeiling =
     (case nonempty_id targetSessionId of
        Some wanted \<Rightarrow> route_addressed wanted cs pastCeiling
      | None \<Rightarrow> route_any cs pastCeiling)"

lemma bestOf_mem: "bestOf cs = Some c \<Longrightarrow> c \<in> set cs"
  by (auto simp: bestOf_def find_Some_iff split: option.splits list.splits)

lemma bestOf_some: "cs \<noteq> [] \<Longrightarrow> \<exists>c. bestOf cs = Some c"
  by (cases cs) (auto simp: bestOf_def split: option.splits)

lemma find_mem: "find P xs = Some x \<Longrightarrow> x \<in> set xs \<and> P x"
  by (auto simp: find_Some_iff)

lemma sibling_mem:
  assumes "sibling wanted cs = Some c"
  shows "c \<in> set cs \<and> ready c"
proof -
  have "c \<in> set (takeWhile (\<lambda>c. \<not> same_session (cv_sessionId c) wanted) cs @ tl (dropWhile (\<lambda>c. \<not> same_session (cv_sessionId c) wanted) cs)) \<and> ready c"
    using assms unfolding sibling_def Let_def by (rule find_mem)
  then show ?thesis by (metis Un_iff list.sel(2) list.set_sel(2) set_append set_dropWhileD set_takeWhileD)
qed

text \<open>A delivery goes to a session of the snapshot, and before the ceiling only to one that is ready.\<close>

lemma route_deliver_view:
  assumes "routeNotice target cs past = Route_deliver sid esc"
  shows "\<exists>c\<in>set cs. cv_sessionId c = sid \<and> (ready c \<or> past \<and> esc)"
  using assms bestOf_some[of cs]
  by (auto simp: routeNotice_def route_addressed_def route_any_def
      split: option.splits if_splits dest!: find_mem bestOf_mem sibling_mem)

text \<open>Past the ceiling nothing waits: with a coordinator present the notice is delivered.\<close>

lemma route_past_ceiling:
  assumes "cs \<noteq> []"
  shows "\<exists>sid esc. routeNotice target cs True = Route_deliver sid esc"
  using bestOf_some[OF assms] assms
  by (auto simp: routeNotice_def route_addressed_def route_any_def split: option.splits)

lemma route_none_iff: "routeNotice target cs past = Route_none \<longleftrightarrow> cs = []"
  using bestOf_some[of cs] by (auto simp: routeNotice_def route_addressed_def route_any_def split: option.splits)

section \<open>Suppression\<close>

datatype notify_suppression = Stale_suspension | Candidate_superseded | Attempt_terminal | Stage_internal | Duplicate_wake

definition evaluateNotifySuppression :: "notify_kind \<Rightarrow> turn_attempt option \<Rightarrow> int option \<Rightarrow> notify_suppression option" where
  "evaluateNotifySuppression k att gen =
     (case att of
        None \<Rightarrow> None
      | Some a \<Rightarrow>
          if k = N_approval \<or> k = N_choice then
            if a_state a \<noteq> S_suspended then Some Stale_suspension
            else if gen \<noteq> None \<and> gen \<noteq> Some (a_generation a) then Some Stale_suspension
            else None
          else if k = N_candidate then (if a_state a = S_finalizing then None else Some Candidate_superseded)
          else if k = N_no_progress \<or> k = N_progress then (if isTerminalTurnState (a_state a) then Some Attempt_terminal else None)
          else None)"

definition WAKE_ONCE_KINDS :: "notify_kind list" where
  "WAKE_ONCE_KINDS = [N_completed, N_failed, N_cancelled, N_stopped, N_blocked, N_late_completion]"

definition noticeWakeKey :: "ident \<Rightarrow> notify_kind \<Rightarrow> ident option \<Rightarrow> int option \<Rightarrow> string option" where
  "noticeWakeKey meshId k attemptId gen =
     (if k \<notin> set WAKE_ONCE_KINDS \<or> \<not> truthy attemptId then None
      else Some (meshId @ ''|'' @ the attemptId @ ''|g'' @ (case gen of Some g \<Rightarrow> js_int g | None \<Rightarrow> ''-'') @ ''|'' @ notify_name k))"

definition HOLDABLE_KINDS :: "notify_kind list" where
  "HOLDABLE_KINDS = [N_progress, N_no_progress, N_candidate]"

definition isHoldableNotice :: "notify_kind \<Rightarrow> bool \<Rightarrow> bool" where
  "isHoldableNotice k forceInjectEvent = (if k = N_mesh_event then \<not> forceInjectEvent else k \<in> set HOLDABLE_KINDS)"

definition MESH_FORCE_INJECT_EVENTS :: "string list" where
  "MESH_FORCE_INJECT_EVENTS = [''agent:generating_completed'', ''agent:stopped'', ''agent:waiting_approval'', ''agent:waiting_choice'',
     ''refine:completed'', ''refine:failed'', ''worktree_bootstrap_complete'', ''worktree_bootstrap_failed'', ''clone_failed'']"

definition shouldForceInjectMeshEvent :: "string option \<Rightarrow> bool" where
  "shouldForceInjectMeshEvent e = (case e of Some n \<Rightarrow> n \<in> set MESH_FORCE_INJECT_EVENTS | None \<Rightarrow> False)"

text \<open>The queue's answer about a task is looked up through a callback; one that throws answers nothing.\<close>

datatype stage_row = Stage_child | Stage_held_parent

definition CHILD_SILENT :: "notify_kind list" where
  "CHILD_SILENT = [N_completed, N_failed, N_blocked, N_cancelled, N_stopped, N_late_completion, N_progress, N_no_progress, N_candidate]"

definition PARENT_SILENT :: "notify_kind list" where
  "PARENT_SILENT = [N_completed, N_late_completion, N_candidate]"

definition isStageInternalNotice :: "(ident \<Rightarrow> ident \<Rightarrow> stage_row option) \<Rightarrow> ident \<Rightarrow> ident option \<Rightarrow> notify_kind \<Rightarrow> bool" where
  "isStageInternalNotice lookup meshId taskId k =
     (if \<not> truthy taskId then False
      else case lookup meshId (the taskId) of
             Some Stage_child \<Rightarrow> k \<in> set CHILD_SILENT
           | Some Stage_held_parent \<Rightarrow> k \<in> set PARENT_SILENT
           | None \<Rightarrow> False)"

text \<open>What states an outcome, a failure or a question is never held back and never suppressed as stale.\<close>

lemma outcome_not_held:
  assumes "k \<in> {N_completed, N_blocked, N_failed, N_cancelled, N_stopped, N_late_completion, N_approval_resolved}"
  shows "evaluateNotifySuppression k att gen = None" "\<not> isHoldableNotice k force"
  using assms by (auto simp: evaluateNotifySuppression_def isHoldableNotice_def HOLDABLE_KINDS_def split: option.splits)

end
