(* ===== verification/NoticeDeliver.thy ===== *)
theory NoticeDeliver
  imports NoticeRouting
begin

text \<open>
  Delivery of coordinator notices (\<open>deliver.ts\<close>): the handler of the \<open>turn.deliver\<close> cursor, the \<open>turn.ingest\<close>
  handler, the read of the MCP inbox, retraction and the listing of delivered notices. The handler
  awaits; it is modelled as a state machine whose steps are the stretches between two awaits, each with
  the world as it is at that moment. The texts of the notices (\<open>format.ts\<close>) are an input: only whether
  a text is empty, its event name and the references it still misses matter to the decisions. The flag
  of \<open>dw_render\<close> says whether the mesh status line is appended.
\<close>

section \<open>The world and the notice\<close>

record rendered_notice =
  rn_text :: string
  rn_event :: "string option"
  rn_missing :: nat

record deliver_world =
  dw_now :: ms
  dw_selfIds :: "ident list"
  dw_coordinators :: "ident \<Rightarrow> coordinator_view list"
  dw_render :: "bool \<Rightarrow> ident \<Rightarrow> topic_entry \<Rightarrow> turn_event_row option \<Rightarrow> rendered_notice"
  dw_control :: "string \<Rightarrow> bool"
  dw_stage :: "ident \<Rightarrow> ident \<Rightarrow> stage_row option"

record cursor_entry =
  cu_meshId :: ident
  cu_writer :: ident
  cu_seq :: int
  cu_payload :: topic_entry
  cu_ref :: "summary_ref option"
  cu_own :: bool

definition NOTICE_BACKLOG_WINDOW_MS :: ms where "NOTICE_BACKLOG_WINDOW_MS = 24 * 60 * 60 * 1000"

definition isSelf :: "ident list \<Rightarrow> ident option \<Rightarrow> bool" where
  "isSelf selfIds daemonId \<longleftrightarrow> truthy daemonId \<and> list_ex (\<lambda>i. daemonIdsEquivalent (Some i) daemonId) selfIds"

definition notify_body :: "topic_entry \<Rightarrow> notify_entry option" where
  "notify_body t = (case tp_body t of Topic_notify n \<Rightarrow> Some n | _ \<Rightarrow> None)"

definition row_event :: "turn_event_row \<Rightarrow> string option" where
  "row_event r = (case er_payload r of P_mesh_event _ ev _ _ _ \<Rightarrow> readString (Some ev) | _ \<Rightarrow> None)"

definition hasWakeKey :: "ident \<Rightarrow> string \<Rightarrow> ms \<Rightarrow> turn_store \<Rightarrow> bool" where
  "hasWakeKey meshId key sinceMs s = list_ex (\<lambda>e. er_meshId e = Some meshId \<and> er_kind e = RK_evidence K_delivered \<and> er_atMs e \<ge> sinceMs
     \<and> (case er_payload e of P_delivered _ (Some k) \<Rightarrow> k = key | _ \<Rightarrow> False)) (ts_events s)"

definition notice_attempt :: "notify_entry \<Rightarrow> turn_store \<Rightarrow> turn_attempt option" where
  "notice_attempt n s = (case readString (ne_e_attemptId n) of Some i \<Rightarrow> getAttempt i s | None \<Rightarrow> None)"

definition wake_key :: "ident \<Rightarrow> notify_entry \<Rightarrow> int option \<Rightarrow> turn_store \<Rightarrow> string option" where
  "wake_key meshId n gen s =
     noticeWakeKey meshId (ne_e_notify n) (readString (ne_e_attemptId n)) (first_of gen (map_option a_generation (notice_attempt n s)))"

definition notice_task :: "notify_entry \<Rightarrow> turn_store \<Rightarrow> ident option" where
  "notice_task n s = first_of (readString (ne_e_taskId n)) (Option.bind (notice_attempt n s) a_taskId)"

text \<open>The reason to claim the notice without a submit: stage-internal, overtaken, or a fact told before.\<close>

definition suppression :: "deliver_world \<Rightarrow> ident \<Rightarrow> notify_entry \<Rightarrow> int option \<Rightarrow> (string \<Rightarrow> bool) \<Rightarrow> turn_store \<Rightarrow> notify_suppression option" where
  "suppression w meshId n gen told s =
     (if isStageInternalNotice (dw_stage w) meshId (notice_task n s) (ne_e_notify n) then Some Stage_internal
      else case evaluateNotifySuppression (ne_e_notify n) (notice_attempt n s) gen of
             Some x \<Rightarrow> Some x
           | None \<Rightarrow>
               (case wake_key meshId n gen s of
                  Some k \<Rightarrow> if told k \<or> hasWakeKey meshId k (dw_now w - NOTICE_BACKLOG_WINDOW_MS) s then Some Duplicate_wake else None
                | None \<Rightarrow> None))"

fun suppression_name :: "notify_suppression \<Rightarrow> string" where
  "suppression_name Stale_suspension = ''stale_suspension''"
| "suppression_name Candidate_superseded = ''candidate_superseded''"
| "suppression_name Attempt_terminal = ''attempt_terminal''"
| "suppression_name Stage_internal = ''stage_internal''"
| "suppression_name Duplicate_wake = ''duplicate_wake''"

definition force_inject :: "notify_entry \<Rightarrow> rendered_notice \<Rightarrow> bool" where
  "force_inject n r \<longleftrightarrow> ne_e_notify n = N_mesh_event \<and> truthy (rn_event r) \<and> shouldForceInjectMeshEvent (rn_event r)"

text \<open>Own notices for this daemon that nobody has taken yet.\<close>

definition notice_here :: "deliver_world \<Rightarrow> turn_event_row \<Rightarrow> bool" where
  "notice_here w r =
     (case Option.bind (payload_entry (er_payload r)) notify_body of
        None \<Rightarrow> False
      | Some n \<Rightarrow> isSelf (dw_selfIds w) (readString (Some (ne_e_targetDaemonId n)))
          \<and> \<not> (case row_event r of Some ev \<Rightarrow> dw_control w ev | None \<Rightarrow> False))"

definition pendingNoticeRows :: "deliver_world \<Rightarrow> ident \<Rightarrow> nat \<Rightarrow> turn_store \<Rightarrow> turn_event_row list" where
  "pendingNoticeRows w meshId limit s =
     filter (notice_here w) (listUndeliveredNotifies meshId (dw_now w - NOTICE_BACKLOG_WINDOW_MS) limit s)"

section \<open>Claims\<close>

definition claim_as :: "ident \<Rightarrow> ident \<Rightarrow> int \<Rightarrow> ident \<Rightarrow> string \<Rightarrow> string option \<Rightarrow> ms \<Rightarrow> turn_store \<Rightarrow> bool \<times> turn_store" where
  "claim_as meshId writer sq sid outcome wk now s =
     claimDelivery \<lparr>dc_writer = writer, dc_seq = sq, dc_meshId = Some meshId, dc_sessionId = sid, dc_outcome = Some outcome, dc_wakeKey = wk\<rparr> now s"

section \<open>Companions of a message\<close>

definition COALESCE_MAX_EXTRAS :: nat where "COALESCE_MAX_EXTRAS = 5"

record coalesced_extra =
  cx_writer :: ident
  cx_seq :: int
  cx_notify :: notify_kind
  cx_event :: "string option"
  cx_text :: string
  cx_wakeKey :: "string option"

definition target_of :: "notify_entry \<Rightarrow> ident" where
  "target_of n = or_default (readString (ne_e_targetSessionId n)) []"

definition gather_row :: "deliver_world \<Rightarrow> cursor_entry \<Rightarrow> ident \<Rightarrow> turn_store \<Rightarrow> coalesced_extra list \<times> string list \<Rightarrow> turn_event_row \<Rightarrow> coalesced_extra list \<times> string list" where
  "gather_row w e want s acc r =
     (case (er_srcWriter r, er_publishedSeq r, payload_entry (er_payload r)) of
        (Some writer, Some sq, Some t) \<Rightarrow>
          (case notify_body t of
             None \<Rightarrow> acc
           | Some n \<Rightarrow>
               let rendered = dw_render w False (cu_meshId e) t (Some r); k = wake_key (cu_meshId e) n (er_generation r) s in
               if length (fst acc) \<ge> COALESCE_MAX_EXTRAS \<or> writer = [] \<or> (writer = cu_writer e \<and> sq = cu_seq e) \<or> target_of n \<noteq> want
                  \<or> isDeliveryClaimed (cu_meshId e) writer sq s
                  \<or> suppression w (cu_meshId e) n (er_generation r) (\<lambda>k. k \<in> set (snd acc)) s \<noteq> None
                  \<or> rn_missing rendered > 0 \<or> js_trim (rn_text rendered) = []
               then acc
               else (fst acc @ [\<lparr>cx_writer = writer, cx_seq = sq, cx_notify = ne_e_notify n, cx_event = rn_event rendered,
                                 cx_text = rn_text rendered, cx_wakeKey = k\<rparr>],
                     (case k of Some key \<Rightarrow> snd acc @ [key] | None \<Rightarrow> snd acc)))
      | _ \<Rightarrow> acc)"

definition gatherCoalesced :: "deliver_world \<Rightarrow> cursor_entry \<Rightarrow> notify_entry \<Rightarrow> string option \<Rightarrow> turn_store \<Rightarrow> coalesced_extra list" where
  "gatherCoalesced w e n key s =
     fst (foldl (gather_row w e (target_of n) s) ([], case key of Some k \<Rightarrow> [k] | None \<Rightarrow> [])
       (pendingNoticeRows w (cu_meshId e) (COALESCE_MAX_EXTRAS * 4 + 8) s))"

section \<open>The deliver handler\<close>

datatype submit_outcome = Sub_delivered | Sub_queued | Sub_duplicate | Sub_refused send_refusal

datatype skip_reason = Not_notify | Foreign_entry | Not_addressed | Already_delivered | Control_event

datatype deliver_result =
    Res_skipped skip_reason
  | Res_suppressed notify_suppression
  | Res_no_coordinator
  | Res_acked_elsewhere
  | Res_empty
  | Res_refused send_refusal
  | Res_not_now
  | Res_taken submit_outcome ident bool ms

record notice_ctx =
  nx_body :: notify_entry
  nx_row :: "turn_event_row option"
  nx_at :: ms
  nx_wakeKey :: "string option"

record routing_ctx =
  rx_rendered :: rendered_notice
  rx_startedAt :: ms
  rx_rounds :: nat
  rx_refused :: "ident list"

datatype deliver_state =
    D_start
  | D_missing notice_ctx ms
  | D_holding notice_ctx rendered_notice ms
  | D_routing notice_ctx routing_ctx
  | D_submitting notice_ctx routing_ctx ident bool "coalesced_extra list"
  | D_done deliver_result
  | D_threw

definition RETRYABLE_REFUSALS :: "send_refusal list" where
  "RETRYABLE_REFUSALS = [Ref_no_target, Ref_session_exited, Ref_send_in_flight, Ref_not_ready, Ref_internal_error, Ref_bootstrap_pending, Ref_new_work_held]"

definition MAX_SUBMIT_ROUNDS :: nat where "MAX_SUBMIT_ROUNDS = 3"

fun refusal_name :: "send_refusal \<Rightarrow> string" where
  "refusal_name Ref_not_ready = ''not_ready''"
| "refusal_name Ref_send_in_flight = ''send_in_flight''"
| "refusal_name Ref_not_generating = ''not_generating''"
| "refusal_name Ref_not_supported = ''not_supported''"
| "refusal_name Ref_platform_unsupported = ''platform_unsupported''"
| "refusal_name Ref_modal_parked = ''modal_parked''"
| "refusal_name Ref_interrupt_not_implemented = ''interrupt_not_implemented''"
| "refusal_name Ref_interrupt_refused = ''interrupt_refused''"
| "refusal_name Ref_idle_timeout = ''idle_timeout''"
| "refusal_name Ref_session_exited = ''session_exited''"
| "refusal_name Ref_unsupported_input = ''unsupported_input''"
| "refusal_name Ref_no_target = ''no_target''"
| "refusal_name Ref_bootstrap_pending = ''bootstrap_pending''"
| "refusal_name Ref_duplicate_dispatch = ''duplicate_dispatch''"
| "refusal_name Ref_new_work_held = ''new_work_held''"
| "refusal_name Ref_internal_error = ''internal_error''"

fun outcome_name :: "submit_outcome \<Rightarrow> string" where
  "outcome_name Sub_delivered = ''delivered''"
| "outcome_name Sub_queued = ''queued''"
| "outcome_name Sub_duplicate = ''duplicate''"
| "outcome_name (Sub_refused r) = ''refused:'' @ refusal_name r"

definition claimed_now :: "cursor_entry \<Rightarrow> turn_store \<Rightarrow> bool" where
  "claimed_now e s \<longleftrightarrow> isDeliveryClaimed (cu_meshId e) (cu_writer e) (cu_seq e) s"

definition claim_entry :: "cursor_entry \<Rightarrow> ident \<Rightarrow> string \<Rightarrow> string option \<Rightarrow> ms \<Rightarrow> turn_store \<Rightarrow> turn_store" where
  "claim_entry e sid outcome wk now s = snd (claim_as (cu_meshId e) (cu_writer e) (cu_seq e) sid outcome wk now s)"

definition suppress :: "deliver_world \<Rightarrow> cursor_entry \<Rightarrow> notify_entry \<Rightarrow> notify_suppression \<Rightarrow> turn_store \<Rightarrow> deliver_state \<times> turn_store" where
  "suppress w e n x s = (D_done (Res_suppressed x), claim_entry e (target_of n) (''suppressed:'' @ suppression_name x) None (dw_now w) s)"

definition start_routing :: "deliver_world \<Rightarrow> notice_ctx \<Rightarrow> rendered_notice \<Rightarrow> deliver_state" where
  "start_routing w c r = D_routing c \<lparr>rx_rendered = r, rx_startedAt = dw_now w, rx_rounds = 0, rx_refused = []\<rparr>"

text \<open>A rendered notice: an empty one is claimed at once, an informational one may wait for company.\<close>

definition with_text :: "turn_policy \<Rightarrow> bool \<Rightarrow> deliver_world \<Rightarrow> cursor_entry \<Rightarrow> notice_ctx \<Rightarrow> rendered_notice \<Rightarrow> turn_store \<Rightarrow> deliver_state \<times> turn_store" where
  "with_text p backlog w e c r s =
     (if js_trim (rn_text r) = [] then (D_done Res_empty, claim_entry e (target_of (nx_body c)) ''empty'' None (dw_now w) s)
      else if \<not> backlog \<and> coalesceWindowMs p > 0 \<and> isHoldableNotice (ne_e_notify (nx_body c)) (force_inject (nx_body c) r)
              \<and> dw_now w < nx_at c + coalesceWindowMs p
      then (D_holding c r (nx_at c + coalesceWindowMs p), s)
      else (start_routing w c r, s))"

definition entry_row :: "cursor_entry \<Rightarrow> turn_store \<Rightarrow> turn_event_row option" where
  "entry_row e s =
     first_of (Option.bind (readString (Some (tp_eventId (cu_payload e)))) (\<lambda>i. getEvent i s))
       (findPublishedEvent (cu_writer e) (cu_seq e) (Some (cu_meshId e)) s)"

definition handle_notice :: "turn_policy \<Rightarrow> bool \<Rightarrow> deliver_world \<Rightarrow> cursor_entry \<Rightarrow> notify_entry \<Rightarrow> turn_store \<Rightarrow> deliver_state \<times> turn_store" where
  "handle_notice p backlog w e n s =
     (let row = entry_row e s; gen = Option.bind row er_generation;
          c = \<lparr>nx_body = n, nx_row = row, nx_at = tp_at (cu_payload e), nx_wakeKey = wake_key (cu_meshId e) n gen s\<rparr>
      in if (case Option.bind row row_event of Some ev \<Rightarrow> dw_control w ev | None \<Rightarrow> False) then (D_done (Res_skipped Control_event), s)
         else case suppression w (cu_meshId e) n gen (\<lambda>_. False) s of
                Some x \<Rightarrow> suppress w e n x s
              | None \<Rightarrow>
                  let r = dw_render w True (cu_meshId e) (cu_payload e) row
                  in if rn_missing r > 0 \<and> dw_now w < nx_at c + quietWindowMs p
                     then (if backlog then (D_done Res_not_now, s) else (D_missing c (nx_at c + quietWindowMs p), s))
                     else with_text p backlog w e c r s)"

definition start_step :: "turn_policy \<Rightarrow> bool \<Rightarrow> deliver_world \<Rightarrow> cursor_entry \<Rightarrow> turn_store \<Rightarrow> deliver_state \<times> turn_store" where
  "start_step p backlog w e s =
     (case notify_body (cu_payload e) of
        None \<Rightarrow> (D_done (Res_skipped Not_notify), s)
      | Some n \<Rightarrow>
          if \<not> cu_own e then (D_done (Res_skipped Foreign_entry), s)
          else if \<not> isSelf (dw_selfIds w) (readString (Some (ne_e_targetDaemonId n))) then (D_done (Res_skipped Not_addressed), s)
          else if claimed_now e s then (D_done (Res_skipped Already_delivered), s)
          else handle_notice p backlog w e n s)"

definition hold_step :: "deliver_world \<Rightarrow> cursor_entry \<Rightarrow> notice_ctx \<Rightarrow> rendered_notice \<Rightarrow> turn_store \<Rightarrow> deliver_state \<times> turn_store" where
  "hold_step w e c r s =
     (if claimed_now e s then (D_done Res_acked_elsewhere, s)
      else case evaluateNotifySuppression (ne_e_notify (nx_body c)) (notice_attempt (nx_body c) s) (Option.bind (nx_row c) er_generation) of
             Some x \<Rightarrow> suppress w e (nx_body c) x s
           | None \<Rightarrow> (start_routing w c r, s))"

definition eligible :: "deliver_world \<Rightarrow> cursor_entry \<Rightarrow> routing_ctx \<Rightarrow> coordinator_view list" where
  "eligible w e x = filter (\<lambda>v. cv_sessionId v \<notin> set (rx_refused x)) (dw_coordinators w (cu_meshId e))"

definition route_step :: "turn_policy \<Rightarrow> bool \<Rightarrow> deliver_world \<Rightarrow> cursor_entry \<Rightarrow> notice_ctx \<Rightarrow> routing_ctx \<Rightarrow> turn_store \<Rightarrow> deliver_state" where
  "route_step p backlog w e c x s =
     (if claimed_now e s then D_done Res_acked_elsewhere
      else case routeNotice (readString (ne_e_targetSessionId (nx_body c))) (eligible w e x)
                  (\<not> backlog \<and> dw_now w \<ge> nx_at c + deliveryCeilingMs p) of
             Route_deliver sid esc \<Rightarrow>
               D_submitting c x sid esc (if backlog then [] else gatherCoalesced w e (nx_body c) (nx_wakeKey c) s)
           | Route_none \<Rightarrow> D_done (if backlog then Res_not_now else Res_no_coordinator)
           | Route_wait _ _ \<Rightarrow> if backlog then D_done Res_not_now else D_routing c x)"

text \<open>One stretch of the handler, up to its next await.\<close>

fun deliver_step :: "turn_policy \<Rightarrow> bool \<Rightarrow> deliver_world \<Rightarrow> cursor_entry \<Rightarrow> deliver_state \<Rightarrow> turn_store \<Rightarrow> deliver_state \<times> turn_store" where
  "deliver_step p backlog w e D_start s = start_step p backlog w e s"
| "deliver_step p backlog w e (D_missing c until) s =
     (if dw_now w < until then (D_missing c until, s)
      else with_text p backlog w e c (dw_render w True (cu_meshId e) (cu_payload e) (nx_row c)) s)"
| "deliver_step p backlog w e (D_holding c r until) s =
     (if dw_now w < until then (D_holding c r until, s) else hold_step w e c r s)"
| "deliver_step p backlog w e (D_routing c x) s = (route_step p backlog w e c x s, s)"
| "deliver_step p backlog w e (D_submitting c x sid esc extras) s = (D_submitting c x sid esc extras, s)"
| "deliver_step p backlog w e (D_done res) s = (D_done res, s)"
| "deliver_step p backlog w e D_threw s = (D_threw, s)"

definition claim_extra :: "deliver_world \<Rightarrow> cursor_entry \<Rightarrow> ident \<Rightarrow> submit_outcome \<Rightarrow> turn_store \<Rightarrow> coalesced_extra \<Rightarrow> turn_store" where
  "claim_extra w e sid out s x = snd (claim_as (cu_meshId e) (cx_writer x) (cx_seq x) sid (outcome_name out) (cx_wakeKey x) (dw_now w) s)"

definition refused_step :: "deliver_world \<Rightarrow> cursor_entry \<Rightarrow> notice_ctx \<Rightarrow> routing_ctx \<Rightarrow> ident \<Rightarrow> send_refusal \<Rightarrow> turn_store \<Rightarrow> deliver_state \<times> turn_store" where
  "refused_step w e c x sid reason s =
     (if reason \<in> set RETRYABLE_REFUSALS then
        let x' = x\<lparr>rx_rounds := rx_rounds x + 1, rx_refused := rx_refused x @ [sid]\<rparr>
        in if eligible w e x' \<noteq> [] \<and> rx_rounds x' < MAX_SUBMIT_ROUNDS then (D_routing c x', s) else (D_threw, s)
      else (D_done (Res_refused reason), claim_entry e sid (''refused:'' @ refusal_name reason) None (dw_now w) s))"

text \<open>The answer of the input port to the submit, \<open>None\<close> when it throws.\<close>

definition deliver_answer :: "deliver_world \<Rightarrow> cursor_entry \<Rightarrow> notice_ctx \<Rightarrow> routing_ctx \<Rightarrow> ident \<Rightarrow> bool \<Rightarrow> coalesced_extra list \<Rightarrow> submit_outcome option \<Rightarrow> turn_store \<Rightarrow> deliver_state \<times> turn_store" where
  "deliver_answer w e c x sid esc extras out s =
     (case out of
        None \<Rightarrow> (D_threw, s)
      | Some (Sub_refused reason) \<Rightarrow> refused_step w e c x sid reason s
      | Some k \<Rightarrow> (D_done (Res_taken k sid esc (dw_now w - rx_startedAt x)),
                   foldl (claim_extra w e sid k) (claim_entry e sid (outcome_name k) (nx_wakeKey c) (dw_now w) s) extras))"

end
