(* ===== verification/NoticeInbox.thy ===== *)
theory NoticeInbox
  imports NoticeDeliver EvidenceGuard
begin

text \<open>
  The synchronous operations of \<open>deliver.ts\<close> around the handler: the producer of notices, the \<open>turn.ingest\<close>
  handler for entries of other daemons, the read of the MCP inbox, the backlog pass, control notices,
  retraction, and the list of recently typed notices.
\<close>

section \<open>The producer\<close>

record coordinator_notice =
  cn_meshId :: ident
  cn_event :: string
  cn_nodeLabel :: "string option"
  cn_nodeId :: "ident option"
  cn_workspace :: "string option"
  cn_coordinatorMessage :: "string option"
  cn_metadataEvent :: "js_object option"
  cn_targetDaemonId :: "ident option"
  cn_targetSessionId :: "ident option"
  cn_eventId :: "ident option"
  cn_queuedAt :: "ms option"
  cn_worktreeHasQueuedTask :: bool

definition NOTICE_DEDUPE_BUCKET_MS :: ms where "NOTICE_DEDUPE_BUCKET_MS = 5 * 60 * 1000"

definition meta_str :: "coordinator_notice \<Rightarrow> string \<Rightarrow> string option" where
  "meta_str n k = readString (as_string (member (map_option JObj (cn_metadataEvent n)) k))"

text \<open>The members that are hashed, in order; the digest of their JSON text is a parameter.\<close>

definition notice_basis :: "coordinator_notice \<Rightarrow> string list" where
  "notice_basis n = [cn_meshId n, cn_event n, or_default (meta_str n ''taskId'') [], or_default (cn_nodeId n) [], or_default (cn_targetSessionId n) [],
     or_default (cn_coordinatorMessage n) [], or_default (meta_str n ''jobId'') [], or_default (meta_str n ''gateId'') [], or_default (meta_str n ''promptId'') []]"

definition defaultNoticeEventId :: "(string list \<Rightarrow> string) \<Rightarrow> coordinator_notice \<Rightarrow> ms \<Rightarrow> ident" where
  "defaultNoticeEventId digest n now = ''notice:'' @ take 24 (digest (notice_basis n)) @ '':'' @ js_int (now div NOTICE_DEDUPE_BUCKET_MS)"

definition if_truthy :: "string \<Rightarrow> string option \<Rightarrow> js_object" where
  "if_truthy k v = (if truthy v then [(k, JStr (the v))] else [])"

definition local_payload :: "coordinator_notice \<Rightarrow> ms \<Rightarrow> js_value" where
  "local_payload n atMs = JObj (if_truthy ''nodeLabel'' (cn_nodeLabel n) @ if_truthy ''nodeId'' (cn_nodeId n) @ if_truthy ''workspace'' (cn_workspace n)
     @ if_truthy ''coordinatorMessage'' (cn_coordinatorMessage n)
     @ (case cn_metadataEvent n of Some m \<Rightarrow> [(''metadataEvent'', JObj m)] | None \<Rightarrow> [])
     @ (if cn_worktreeHasQueuedTask n then [(''worktreeHasQueuedTask'', JBool True)] else []) @ [(''queuedAt'', JNum (of_int atMs))])"

definition notice_base :: "(string list \<Rightarrow> string) \<Rightarrow> coordinator_notice \<Rightarrow> ms \<Rightarrow> ident \<Rightarrow> summary_ref option \<Rightarrow> mesh_event_notice" where
  "notice_base digest n now target r =
     (let atMs = or_default (cn_queuedAt n) now
      in \<lparr>mn_meshId = cn_meshId n, mn_event = cn_event n, mn_payload = Some (local_payload n atMs), mn_targetDaemonId = target,
          mn_targetSessionId = nonempty_id (cn_targetSessionId n), mn_taskId = meta_str n ''taskId'',
          mn_eventId = Some (or_default (cn_eventId n) (defaultNoticeEventId digest n atMs)), mn_at = Some atMs, mn_notify = None,
          mn_ref = r, mn_attemptId = None\<rparr>)"

definition remote_target :: "ident list \<Rightarrow> coordinator_notice \<Rightarrow> ident option" where
  "remote_target selfIds n = (if truthy (cn_targetDaemonId n) \<and> \<not> isSelf selfIds (cn_targetDaemonId n) then cn_targetDaemonId n else None)"

text \<open>A notice for this daemon is written at once.\<close>

definition notify_here :: "(string list \<Rightarrow> string) \<Rightarrow> ident \<Rightarrow> ms \<Rightarrow> coordinator_notice \<Rightarrow> turn_store \<Rightarrow> (ident \<times> bool) \<times> turn_store" where
  "notify_here digest self now n s = notifyMeshEvent (notice_base digest n now self None) [] now s"

text \<open>A notice for another daemon is written when its text has been appended to the handoff topic, or could not be.\<close>

definition notify_remote :: "(string list \<Rightarrow> string) \<Rightarrow> ident \<Rightarrow> ms \<Rightarrow> ms \<Rightarrow> coordinator_notice \<Rightarrow> summary_ref option \<Rightarrow> turn_store \<Rightarrow> turn_store" where
  "notify_remote digest target called now n appended s = snd (notifyMeshEvent (notice_base digest n called target appended) [] now s)"

section \<open>Ingesting the entries of other daemons\<close>

record ingest_counters =
  ic_ingested :: nat
  ic_relayed :: nat
  ic_released :: nat

definition relay_notice :: "ident \<Rightarrow> cursor_entry \<Rightarrow> notify_entry \<Rightarrow> mesh_event_notice" where
  "relay_notice self e n = \<lparr>mn_meshId = cu_meshId e, mn_event = ''relayed'',
     mn_payload = Some (JObj [(''relayedFrom'', JStr (cu_writer e)), (''relayedSeq'', JNum (of_int (cu_seq e)))]), mn_targetDaemonId = self,
     mn_targetSessionId = readString (ne_e_targetSessionId n), mn_taskId = readString (ne_e_taskId n),
     mn_eventId = Some (js_trim (tp_eventId (cu_payload e)) @ ''#relay''), mn_at = Some (tp_at (cu_payload e)), mn_notify = Some (ne_e_notify n),
     mn_ref = (case cu_ref e of Some r \<Rightarrow> if isSummaryRef r then Some r else None | None \<Rightarrow> None), mn_attemptId = readString (ne_e_attemptId n)\<rparr>"

text \<open>The released attempt is named to the instance that holds its reference.\<close>

definition turn_ingest :: "'h ledger_deps \<Rightarrow> observe_env \<Rightarrow> ident list \<Rightarrow> cursor_entry \<Rightarrow> 'h ledger \<times> ingest_counters
    \<Rightarrow> (('h ledger \<times> ingest_counters) \<times> (ident \<times> int) option \<times> ledger_error option) option" where
  "turn_ingest deps env selfIds e st =
     (let (lg, c) = st in
      if cu_own e then Some (st, None, None)
      else case tp_body (cu_payload e) of
        Topic_evidence ee \<Rightarrow>
          if \<not> isSelf selfIds (readString (Some (ee_ownerDaemonId ee))) \<or> \<not> isTurnEvidence (ee_evidence ee) then Some (st, None, None)
          else (case observe_now deps env (no_options\<lparr>oo_src := Some (cu_writer e, cu_seq e)\<rparr>) (ee_evidence ee) lg of
                  None \<Rightarrow> None
                | Some (lg', Inl err) \<Rightarrow> Some ((lg', c), None, Some err)
                | Some (lg', Inr ob) \<Rightarrow>
                    Some ((lg', if ob_verdict ob \<noteq> Ob_duplicate then c\<lparr>ic_ingested := ic_ingested c + 1\<rparr> else c), None, None))
      | Topic_committed ce \<Rightarrow>
          (case readString (Some (ce_e_attemptId ce)) of
             None \<Rightarrow> Some (st, None, None)
           | Some i \<Rightarrow> Some ((lg, c\<lparr>ic_released := ic_released c + 1\<rparr>), Some (i, ce_e_generation ce), None))
      | Topic_notify n \<Rightarrow>
          if \<not> isSelf selfIds (readString (Some (ne_e_targetDaemonId n))) \<or> readString (Some (tp_eventId (cu_payload e))) = None then Some (st, None, None)
          else let ((_, inserted), s) = notifyMeshEvent (relay_notice (ld_selfDaemonId deps) e n) [] (oe_now env) (lg_store lg)
               in Some ((lg\<lparr>lg_store := s\<rparr>, if inserted then c\<lparr>ic_relayed := ic_relayed c + 1\<rparr> else c), None, None))"

section \<open>The inbox\<close>

record inbox_options =
  io_ack :: bool
  io_limit :: nat
  io_surfacedSessionId :: "ident option"
  io_informational :: bool

record notice_wire =
  nw_eventId :: ident
  nw_writer :: ident
  nw_seq :: int
  nw_event :: string
  nw_notify :: notify_kind
  nw_text :: string
  nw_queuedAt :: ms
  nw_alsoInjected :: bool

record inbox_state =
  is_store :: turn_store
  is_surfaced :: "string list"
  is_out :: "notice_wire list"

definition surface_row :: "deliver_world \<Rightarrow> ident \<Rightarrow> inbox_options \<Rightarrow> ident \<Rightarrow> int \<Rightarrow> topic_entry \<Rightarrow> notify_entry \<Rightarrow> turn_event_row \<Rightarrow> inbox_state \<Rightarrow> inbox_state" where
  "surface_row w meshId opts writer sq t n r st =
     (let rendered = dw_render w True meshId t (Some r); blank = js_trim (rn_text rendered) = [];
          k = (if blank then None else wake_key meshId n (er_generation r) (is_store st));
          leave = io_informational opts \<and> \<not> isHoldableNotice (ne_e_notify n) (force_inject n rendered)
      in \<lparr>is_store = (if io_ack opts \<and> \<not> leave
                     then snd (claim_as meshId writer sq (or_default (io_surfacedSessionId opts) (target_of n)) ''mcp_read'' k (dw_now w) (is_store st))
                     else is_store st),
          is_surfaced = (case k of Some key \<Rightarrow> is_surfaced st @ [key] | None \<Rightarrow> is_surfaced st),
          is_out = (if blank then is_out st
                    else is_out st @ [\<lparr>nw_eventId = er_eventId r, nw_writer = writer, nw_seq = sq, nw_event = or_default (rn_event rendered) (notify_name (ne_e_notify n)),
                      nw_notify = ne_e_notify n, nw_text = rn_text rendered, nw_queuedAt = er_atMs r, nw_alsoInjected = leave\<rparr>])\<rparr>)"

definition read_row :: "deliver_world \<Rightarrow> ident \<Rightarrow> inbox_options \<Rightarrow> inbox_state \<Rightarrow> turn_event_row \<Rightarrow> inbox_state" where
  "read_row w meshId opts st r =
     (case (er_srcWriter r, er_publishedSeq r, payload_entry (er_payload r)) of
        (Some writer, Some sq, Some t) \<Rightarrow>
          (case notify_body t of
             None \<Rightarrow> st
           | Some n \<Rightarrow>
               if writer = [] then st
               else case suppression w meshId n (er_generation r) (\<lambda>k. k \<in> set (is_surfaced st)) (is_store st) of
                 Some x \<Rightarrow> if io_ack opts
                   then st\<lparr>is_store := snd (claim_as meshId writer sq (target_of n) (''suppressed:'' @ suppression_name x) None (dw_now w) (is_store st))\<rparr>
                   else st
               | None \<Rightarrow> surface_row w meshId opts writer sq t n r st)
      | _ \<Rightarrow> st)"

definition readCoordinatorNotices :: "deliver_world \<Rightarrow> ident \<Rightarrow> inbox_options \<Rightarrow> turn_store \<Rightarrow> notice_wire list \<times> turn_store" where
  "readCoordinatorNotices w meshId opts s =
     (let st = foldl (read_row w meshId opts) \<lparr>is_store = s, is_surfaced = [], is_out = []\<rparr> (pendingNoticeRows w meshId (io_limit opts) s)
      in (is_out st, is_store st))"

section \<open>The backlog pass\<close>

definition row_cursor_entry :: "ident \<Rightarrow> turn_event_row \<Rightarrow> cursor_entry option" where
  "row_cursor_entry meshId r =
     (case (er_srcWriter r, er_publishedSeq r, payload_entry (er_payload r)) of
        (Some writer, Some sq, Some t) \<Rightarrow>
          if writer = [] then None else Some \<lparr>cu_meshId = meshId, cu_writer = writer, cu_seq = sq, cu_payload = t, cu_ref = None, cu_own = True\<rparr>
      | _ \<Rightarrow> None)"

definition backlog_entries :: "deliver_world \<Rightarrow> ident \<Rightarrow> turn_store \<Rightarrow> cursor_entry list" where
  "backlog_entries w meshId s = List.map_filter (row_cursor_entry meshId) (pendingNoticeRows w meshId 100 s)"

text \<open>The results of the handler, one entry after the other: an entry that cannot go now ends the pass.\<close>

fun backlog_pass :: "deliver_result list \<Rightarrow> nat" where
  "backlog_pass [] = 0"
| "backlog_pass (r # rs) =
     (if r = Res_not_now \<or> r = Res_no_coordinator then 0
      else (case r of Res_taken k _ _ _ \<Rightarrow> if k = Sub_delivered \<or> k = Sub_queued then 1 else 0 | _ \<Rightarrow> 0) + backlog_pass rs)"

section \<open>Control notices and retraction\<close>

record control_notice =
  kn_writer :: ident
  kn_seq :: int
  kn_event :: string
  kn_nodeId :: "ident option"
  kn_workspace :: "string option"
  kn_metadataEvent :: js_object
  kn_queuedAt :: ms

definition row_local :: "turn_event_row \<Rightarrow> js_object option" where
  "row_local r = (case er_payload r of P_mesh_event _ _ _ _ (Some (JObj kvs)) \<Rightarrow> Some kvs | _ \<Rightarrow> None)"

definition obj_str :: "js_object \<Rightarrow> string \<Rightarrow> string option" where
  "obj_str kvs k = readString (as_string (map_of kvs k))"

definition obj_record :: "js_object \<Rightarrow> string \<Rightarrow> js_object" where
  "obj_record kvs k = (case map_of kvs k of Some (JObj m) \<Rightarrow> m | _ \<Rightarrow> [])"

definition control_source :: "(summary_ref \<Rightarrow> js_object option) \<Rightarrow> turn_event_row \<Rightarrow> js_object option" where
  "control_source resolve r =
     (case row_local r of
        Some kvs \<Rightarrow>
          if obj_str kvs ''relayedFrom'' = None then Some kvs
          else (case payload_ref (er_payload r) of Some rf \<Rightarrow> if isSummaryRef rf then resolve rf else None | None \<Rightarrow> None)
      | None \<Rightarrow> (case payload_ref (er_payload r) of Some rf \<Rightarrow> if isSummaryRef rf then resolve rf else None | None \<Rightarrow> None))"

definition control_row :: "(summary_ref \<Rightarrow> js_object option) \<Rightarrow> ident list \<Rightarrow> string \<Rightarrow> turn_event_row \<Rightarrow> control_notice option" where
  "control_row resolve selfIds event r =
     (case (er_srcWriter r, er_publishedSeq r, Option.bind (payload_entry (er_payload r)) notify_body, control_source resolve r) of
        (Some writer, Some sq, Some n, Some source) \<Rightarrow>
          let name = (if row_event r = Some ''relayed'' then obj_str source ''event'' else row_event r)
          in if writer = [] \<or> \<not> isSelf selfIds (readString (Some (ne_e_targetDaemonId n))) \<or> name \<noteq> Some event then None
             else Some \<lparr>kn_writer = writer, kn_seq = sq, kn_event = event, kn_nodeId = obj_str source ''nodeId'', kn_workspace = obj_str source ''workspace'',
                        kn_metadataEvent = obj_record source ''metadataEvent'', kn_queuedAt = er_atMs r\<rparr>
      | _ \<Rightarrow> None)"

definition listControlNotices :: "(summary_ref \<Rightarrow> js_object option) \<Rightarrow> ident list \<Rightarrow> ms \<Rightarrow> ident \<Rightarrow> string \<Rightarrow> turn_store \<Rightarrow> control_notice list" where
  "listControlNotices resolve selfIds now meshId event s =
     List.map_filter (control_row resolve selfIds event) (listUndeliveredNotifies meshId (now - NOTICE_BACKLOG_WINDOW_MS) 200 s)"

definition take_control :: "ident \<Rightarrow> string \<Rightarrow> ms \<Rightarrow> control_notice \<Rightarrow> turn_store \<Rightarrow> bool \<times> turn_store" where
  "take_control meshId event now n s = claim_as meshId (kn_writer n) (kn_seq n) [] (''control:'' @ event) None now s"

definition retract_row :: "(string \<Rightarrow> js_object \<Rightarrow> bool) \<Rightarrow> ident \<Rightarrow> ms \<Rightarrow> nat \<times> turn_store \<Rightarrow> turn_event_row \<Rightarrow> nat \<times> turn_store" where
  "retract_row matches meshId now acc r =
     (case (er_srcWriter r, er_publishedSeq r, row_event r, row_local r) of
        (Some writer, Some sq, Some event, Some kvs) \<Rightarrow>
          if writer = [] \<or> \<not> matches event (obj_record kvs ''metadataEvent'') then acc
          else let (took, s) = claim_as meshId writer sq [] ''retracted'' None now (snd acc) in (fst acc + (if took then 1 else 0), s)
      | _ \<Rightarrow> acc)"

definition retractCoordinatorNotices :: "(string \<Rightarrow> js_object \<Rightarrow> bool) \<Rightarrow> ident \<Rightarrow> ms \<Rightarrow> turn_store \<Rightarrow> nat \<times> turn_store" where
  "retractCoordinatorNotices matches meshId now s =
     foldl (retract_row matches meshId now) (0, s) (listUndeliveredNotifies meshId (now - NOTICE_BACKLOG_WINDOW_MS) 500 s)"

section \<open>Recently typed notices\<close>

text \<open>SQL's \<open>LIKE\<close> ignores the case of letters.\<close>

definition listRecentDeliveryClaims :: "ms \<Rightarrow> nat \<Rightarrow> turn_store \<Rightarrow> turn_event_row list" where
  "listRecentDeliveryClaims sinceMs limit s =
     take limit (sort_key (\<lambda>e. - er_recordedAt e)
       (rev (filter (\<lambda>e. er_kind e = RK_evidence K_delivered \<and> js_lower (take 10 (er_eventId e)) = ''delivered:'' \<and> er_recordedAt e \<ge> sinceMs) (ts_events s))))"

record delivered_notice =
  dn_claimEventId :: ident
  dn_meshId :: ident
  dn_event :: string
  dn_taskId :: "ident option"
  dn_deliveredAt :: ms
  dn_sessionId :: "ident option"
  dn_text :: string

definition TYPED_DELIVERY_OUTCOMES :: "string list" where "TYPED_DELIVERY_OUTCOMES = [''delivered'', ''queued'']"

text \<open>A member of the claim's payload. The payload that \<open>claimDelivery\<close> writes has an outcome and a wake key, nothing else.\<close>

definition claim_member :: "turn_event_row \<Rightarrow> string \<Rightarrow> string option" where
  "claim_member r k =
     (case er_payload r of
        P_delivered outcome wk \<Rightarrow> if k = ''outcome'' then readString outcome else if k = ''wakeKey'' then readString wk else None
      | _ \<Rightarrow> None)"

definition delivered_view :: "deliver_world \<Rightarrow> turn_store \<Rightarrow> turn_event_row \<Rightarrow> delivered_notice option" where
  "delivered_view w s claim =
     (if or_default (claim_member claim ''outcome'') [] \<notin> set TYPED_DELIVERY_OUTCOMES then None
      else case parseDeliveryClaimId (er_eventId claim) of
        None \<Rightarrow> None
      | Some (m, writer, sq) \<Rightarrow>
          (case findPublishedEvent writer sq (first_of m (er_meshId claim)) s of
             None \<Rightarrow> None
           | Some r \<Rightarrow>
               (case (Option.bind (payload_entry (er_payload r)) (\<lambda>t. map_option (Pair t) (notify_body t)), first_of (er_meshId r) (er_meshId claim)) of
                  (Some (t, n), Some meshId) \<Rightarrow>
                    let rendered = dw_render w False meshId t (Some r)
                    in if meshId = [] \<or> js_trim (rn_text rendered) = [] then None
                       else Some \<lparr>dn_claimEventId = er_eventId claim, dn_meshId = meshId, dn_event = or_default (rn_event rendered) (notify_name (ne_e_notify n)),
                                  dn_taskId = readString (ne_e_taskId n), dn_deliveredAt = er_recordedAt claim,
                                  dn_sessionId = claim_member claim ''sessionId'', dn_text = rn_text rendered\<rparr>
                | _ \<Rightarrow> None)))"

definition listRecentDeliveredNotices :: "deliver_world \<Rightarrow> ms \<Rightarrow> nat \<Rightarrow> turn_store \<Rightarrow> delivered_notice list" where
  "listRecentDeliveredNotices w sinceMs limit s = List.map_filter (delivered_view w s) (listRecentDeliveryClaims sinceMs limit s)"

end
