(* ===== verification/NoticeOnce.thy ===== *)
theory NoticeOnce
  imports NoticeInbox LedgerReach
begin

text \<open>
  Deliveries that run together. The cursor of every mesh topic and the backlog passes call the same
  handler, and other ledger operations run between two of its awaits. The system keeps the ledger, the
  handlers that are running, and the messages that a coordinator session has taken, each with the notices
  it covers.
\<close>

section \<open>The system\<close>

type_synonym notice_key = "ident \<times> ident \<times> int"

record running_handler =
  rh_entry :: cursor_entry
  rh_backlog :: bool
  rh_state :: deliver_state
  rh_since :: nat

record taken_message =
  tm_covers :: "notice_key list"
  tm_since :: nat

record 'h delivery_system =
  sy_ledger :: "'h ledger"
  sy_handlers :: "running_handler list"
  sy_taken :: "taken_message list"
  sy_released :: "ident list"

definition key_claim :: "notice_key \<Rightarrow> ident" where
  "key_claim k = (case k of (m, writer, sq) \<Rightarrow> deliveryClaimId (Some m) writer sq)"

definition entry_key :: "cursor_entry \<Rightarrow> notice_key" where
  "entry_key e = (cu_meshId e, cu_writer e, cu_seq e)"

definition covers :: "cursor_entry \<Rightarrow> coalesced_extra list \<Rightarrow> notice_key list" where
  "covers e extras = entry_key e # map (\<lambda>x. (cu_meshId e, cx_writer x, cx_seq x)) extras"

definition typed :: "submit_outcome option \<Rightarrow> bool" where
  "typed out \<longleftrightarrow> out = Some Sub_delivered \<or> out = Some Sub_queued"

text \<open>Ids of the form \<open>delivered:...\<close> are those of claims.\<close>

definition claims_only :: "turn_store \<Rightarrow> bool" where
  "claims_only s \<longleftrightarrow> (\<forall>e\<in>set (ts_events s). starts_with ''delivered:'' (er_eventId e) \<longrightarrow> er_attemptId e = None \<and> er_kind e = RK_evidence K_delivered)"

definition set_store :: "turn_store \<Rightarrow> 'h delivery_system \<Rightarrow> 'h delivery_system" where
  "set_store s y = y\<lparr>sy_ledger := (sy_ledger y)\<lparr>lg_store := s\<rparr>\<rparr>"

definition sy_store :: "'h delivery_system \<Rightarrow> turn_store" where
  "sy_store y = lg_store (sy_ledger y)"

fun submitting :: "deliver_state \<Rightarrow> bool" where
  "submitting (D_submitting c x sid esc extras) = True"
| "submitting _ = False"

text \<open>A handler that starts a submit remembers how many messages had been taken before.\<close>

definition step_handler :: "turn_policy \<Rightarrow> deliver_world \<Rightarrow> nat \<Rightarrow> 'h delivery_system \<Rightarrow> 'h delivery_system" where
  "step_handler p w i y =
     (let h = sy_handlers y ! i; (st, s) = deliver_step p (rh_backlog h) w (rh_entry h) (rh_state h) (sy_store y);
          since = (if submitting (rh_state h) then rh_since h else length (sy_taken y))
      in set_store s (y\<lparr>sy_handlers := (sy_handlers y)[i := h\<lparr>rh_state := st, rh_since := since\<rparr>]\<rparr>))"

definition answer_handler :: "deliver_world \<Rightarrow> nat \<Rightarrow> submit_outcome option \<Rightarrow> 'h delivery_system \<Rightarrow> 'h delivery_system" where
  "answer_handler w i out y =
     (let h = sy_handlers y ! i
      in case rh_state h of
           D_submitting c x sid esc extras \<Rightarrow>
             let (st, s) = deliver_answer w (rh_entry h) c x sid esc extras out (sy_store y)
             in set_store s (y\<lparr>sy_handlers := (sy_handlers y)[i := h\<lparr>rh_state := st\<rparr>],
                  sy_taken := sy_taken y @ (if typed out then [\<lparr>tm_covers = covers (rh_entry h) extras, tm_since = rh_since h\<rparr>] else [])\<rparr>)
         | _ \<Rightarrow> y)"

text \<open>An acknowledging read of the inbox takes what it returns, but for what it leaves to the cursor.\<close>

definition read_inbox :: "deliver_world \<Rightarrow> ident \<Rightarrow> inbox_options \<Rightarrow> 'h delivery_system \<Rightarrow> 'h delivery_system" where
  "read_inbox w m opts y =
     (let (out, s) = readCoordinatorNotices w m opts (sy_store y)
      in set_store s (y\<lparr>sy_taken := sy_taken y @ [\<lparr>tm_covers = map (\<lambda>n. (m, nw_writer n, nw_seq n)) (filter (\<lambda>n. io_ack opts \<and> \<not> nw_alsoInjected n) out),
           tm_since = length (sy_taken y)\<rparr>]\<rparr>))"

inductive delivery_move :: "'h ledger_deps \<Rightarrow> turn_policy \<Rightarrow> 'h delivery_system \<Rightarrow> 'h delivery_system \<Rightarrow> bool" for deps p where
  starts: "delivery_move deps p y (y\<lparr>sy_handlers := sy_handlers y @ [\<lparr>rh_entry = e, rh_backlog = b, rh_state = D_start, rh_since = 0\<rparr>]\<rparr>)"
| steps: "i < length (sy_handlers y) \<Longrightarrow> delivery_move deps p y (step_handler p w i y)"
| answers: "i < length (sy_handlers y) \<Longrightarrow> delivery_move deps p y (answer_handler w i out y)"
| ends: "i < length (sy_handlers y) \<Longrightarrow> \<not> submitting (rh_state (sy_handlers y ! i)) \<Longrightarrow>
     delivery_move deps p y (y\<lparr>sy_handlers := take i (sy_handlers y) @ drop (Suc i) (sy_handlers y)\<rparr>)"
| reads: "m \<noteq> [] \<Longrightarrow> delivery_move deps p y (read_inbox w m opts y)"
| others: "ledger_move deps (sy_ledger y) is lg \<Longrightarrow> claims_only (lg_store lg) \<Longrightarrow>
     delivery_move deps p y (y\<lparr>sy_ledger := lg, sy_released := sy_released y @ is\<rparr>)"

inductive delivery_path :: "'h ledger_deps \<Rightarrow> turn_policy \<Rightarrow> 'h ledger \<Rightarrow> 'h delivery_system \<Rightarrow> bool" for deps p lg where
  empty: "delivery_path deps p lg \<lparr>sy_ledger = lg, sy_handlers = [], sy_taken = [], sy_released = []\<rparr>"
| moves: "delivery_path deps p lg y \<Longrightarrow> delivery_move deps p y y' \<Longrightarrow> delivery_path deps p lg y'"

section \<open>Claims stay\<close>

lemma delivered_prefix: "starts_with ''delivered:'' (deliveryClaimId m w q)"
  by (simp add: deliveryClaimId_def legacyDeliveryClaimId_def starts_with_def)

lemma detached_claimed:
  assumes "claims_only s" "detached (key_claim (m, w, q)) s"
  shows "isDeliveryClaimed m w q s"
  using assms delivered_prefix[of "Some m" w q]
  by (force simp: detached_def rows_of_def isDeliveryClaimed_def claims_only_def key_claim_def)

lemma claim_keeps:
  assumes c: "claim_as m w q sid out wk now s = (b, s')"
  shows "detached i s \<Longrightarrow> detached i s'" "claims_only s \<Longrightarrow> claims_only s'" "claims_only s \<Longrightarrow> detached (key_claim (m, w, q)) s'"
proof -
  have ins: "insertEvent (claim_row \<lparr>dc_writer = w, dc_seq = q, dc_meshId = Some m, dc_sessionId = sid, dc_outcome = Some out, dc_wakeKey = wk\<rparr> now) s = (b, s')"
    using c by (simp add: claim_as_def claimDelivery_def)
  show "detached i s \<Longrightarrow> detached i s'" using rows_insert[OF ins] by (auto simp: detached_def)
  show "claims_only s \<Longrightarrow> claims_only s'" using ins by (auto simp: insertEvent_def claims_only_def claim_row_def split: if_splits)
  show "claims_only s \<Longrightarrow> detached (key_claim (m, w, q)) s'"
    using ins delivered_prefix[of "Some m" w q]
    by (auto simp: insertEvent_def claims_only_def row_clash_def claim_row_def detached_def rows_of_def key_claim_def image_iff split: if_splits) metis
qed

text \<open>What a claim keeps, a stretch of the handler keeps.\<close>

definition claims_keep :: "(turn_store \<Rightarrow> bool) \<Rightarrow> bool" where
  "claims_keep P \<longleftrightarrow> (\<forall>s m w q sid out wk now. P s \<longrightarrow> P (snd (claim_as m w q sid out wk now s)))"

lemma keep_claims: "claims_keep (detached i)" "claims_keep claims_only"
  unfolding claims_keep_def by (metis claim_keeps(1,2) prod.collapse)+

lemma claims_keepD: "claims_keep P \<Longrightarrow> P s \<Longrightarrow> P (snd (claim_as m w q sid out wk now s))"
  by (simp add: claims_keep_def)

lemma claim_entry_keeps: "claims_keep P \<Longrightarrow> P s \<Longrightarrow> P (claim_entry e sid out wk now s)"
  by (simp add: claim_entry_def claims_keepD)

lemma with_text_keeps: "claims_keep P \<Longrightarrow> P s \<Longrightarrow> P (snd (with_text p b w e c r s))"
  by (simp add: with_text_def claim_entry_keeps)

lemma handle_keeps: "claims_keep P \<Longrightarrow> P s \<Longrightarrow> P (snd (handle_notice p b w e n s))"
  by (simp add: handle_notice_def suppress_def Let_def claim_entry_keeps with_text_keeps split: option.split)

lemma step_keeps: "claims_keep P \<Longrightarrow> P s \<Longrightarrow> P (snd (deliver_step p b w e st s))"
  by (cases st) (simp_all add: start_step_def hold_step_def suppress_def handle_keeps with_text_keeps claim_entry_keeps split: option.split)

lemma extras_keep: "claims_keep P \<Longrightarrow> P s \<Longrightarrow> P (foldl (claim_extra w e sid k) s xs)"
  by (induction xs arbitrary: s) (simp_all add: claim_extra_def claims_keepD)

lemma answer_keeps: "claims_keep P \<Longrightarrow> P s \<Longrightarrow> P (snd (deliver_answer w e c x sid esc extras out s))"
  by (simp add: deliver_answer_def refused_step_def Let_def claim_entry_keeps extras_keep split: option.split submit_outcome.split)

lemma extras_claimed:
  assumes "claims_only s" "x \<in> set xs"
  shows "detached (key_claim (cu_meshId e, cx_writer x, cx_seq x)) (foldl (claim_extra w e sid k) s xs)"
  using assms
proof (induction xs arbitrary: s)
  case (Cons a xs)
  obtain b s1 where c: "claim_as (cu_meshId e) (cx_writer a) (cx_seq a) sid (outcome_name k) (cx_wakeKey a) (dw_now w) s = (b, s1)" by fastforce
  have s1: "claim_extra w e sid k s a = s1" using c by (simp add: claim_extra_def)
  show ?case
  proof (cases "x = a")
    case True
    with claim_keeps(3)[OF c Cons.prems(1)] extras_keep[OF keep_claims(1)] s1 show ?thesis by simp
  next
    case False
    with Cons.IH[of s1] Cons.prems claim_keeps(2)[OF c] s1 show ?thesis by simp
  qed
qed simp

text \<open>A message that was taken has all its notices claimed.\<close>

lemma answer_claims:
  assumes "claims_only s" "typed out" "k \<in> set (covers e extras)"
  shows "detached (key_claim k) (snd (deliver_answer w e c x sid esc extras out s))"
proof -
  obtain o' where out: "out = Some o'" and o': "o' = Sub_delivered \<or> o' = Sub_queued" using assms(2) by (auto simp: typed_def)
  let ?s = "claim_entry e sid (outcome_name o') (nx_wakeKey c) (dw_now w) s"
  obtain b where cl: "claim_as (cu_meshId e) (cu_writer e) (cu_seq e) sid (outcome_name o') (nx_wakeKey c) (dw_now w) s = (b, ?s)"
    unfolding claim_entry_def by (metis prod.collapse)
  have "snd (deliver_answer w e c x sid esc extras out s) = foldl (claim_extra w e sid o') ?s extras"
    using out o' by (auto simp: deliver_answer_def)
  then show ?thesis using assms(3) extras_claimed[OF claim_keeps(2)[OF cl assms(1)]] claim_keeps(3)[OF cl assms(1)] extras_keep[OF keep_claims(1)]
    by (auto simp: covers_def entry_key_def)
qed

section \<open>A submit covers unclaimed notices only\<close>

lemma gathered_unclaimed:
  assumes "x \<in> set (fst (foldl (gather_row w e want s) acc rows))"
  shows "x \<in> set (fst acc) \<or> \<not> isDeliveryClaimed (cu_meshId e) (cx_writer x) (cx_seq x) s"
  using assms
proof (induction rows arbitrary: acc)
  case (Cons r rows)
  have "y \<in> set (fst acc) \<or> \<not> isDeliveryClaimed (cu_meshId e) (cx_writer y) (cx_seq y) s" if "y \<in> set (fst (gather_row w e want s acc r))" for y
    using that by (auto simp: gather_row_def Let_def split: option.splits if_splits)
  with Cons show ?case by fastforce
qed simp

lemma submit_unclaimed:
  assumes "deliver_step p b w e st s = (D_submitting c x sid esc extras, s')" "\<not> submitting st" "(m, wr, q) \<in> set (covers e extras)"
  shows "\<not> isDeliveryClaimed m wr q s"
proof (cases st)
  case (D_routing c' x')
  with assms(1) have "\<not> claimed_now e s" "extras = [] \<or> extras = gatherCoalesced w e (nx_body c') (nx_wakeKey c') s"
    by (auto simp: route_step_def split: if_splits notice_route.splits)
  with assms(3) show ?thesis
    by (auto simp: covers_def entry_key_def claimed_now_def gatherCoalesced_def dest: gathered_unclaimed)
qed (use assms(1,2) in \<open>auto simp: start_step_def handle_notice_def with_text_def hold_step_def suppress_def start_routing_def Let_def
      split: option.splits if_splits\<close>)

section \<open>The invariant\<close>

definition held_covers :: "running_handler \<Rightarrow> notice_key list" where
  "held_covers h = (case rh_state h of D_submitting c x sid esc extras \<Rightarrow> covers (rh_entry h) extras | _ \<Rightarrow> [])"

definition apart :: "ident list \<Rightarrow> notice_key list \<Rightarrow> taken_message list \<Rightarrow> bool" where
  "apart released ks ts \<longleftrightarrow> (\<forall>t\<in>set ts. \<forall>k\<in>set (tm_covers t). k \<in> set ks \<longrightarrow> key_claim k \<in> set released)"

definition all_claimed :: "'h delivery_system \<Rightarrow> bool" where
  "all_claimed y \<longleftrightarrow> (\<forall>t\<in>set (sy_taken y). \<forall>k\<in>set (tm_covers t). key_claim k \<in> set (sy_released y) \<or> detached (key_claim k) (sy_store y))"

definition since_ok :: "'h delivery_system \<Rightarrow> nat \<Rightarrow> notice_key list \<Rightarrow> bool" where
  "since_ok y n ks \<longleftrightarrow> n \<le> length (sy_taken y) \<and> apart (sy_released y) ks (take n (sy_taken y))"

definition delivery_ok :: "'h delivery_system \<Rightarrow> bool" where
  "delivery_ok y \<longleftrightarrow> claims_only (sy_store y) \<and> all_claimed y
     \<and> (\<forall>h\<in>set (sy_handlers y). since_ok y (rh_since h) (held_covers h))
     \<and> (\<forall>t\<in>set (sy_taken y). since_ok y (tm_since t) (tm_covers t))"

lemma delivery_okD:
  assumes "delivery_ok y"
  shows "claims_only (sy_store y)" "all_claimed y" "h \<in> set (sy_handlers y) \<Longrightarrow> since_ok y (rh_since h) (held_covers h)"
    "t \<in> set (sy_taken y) \<Longrightarrow> since_ok y (tm_since t) (tm_covers t)"
  using assms by (auto simp: delivery_ok_def)

lemma since_grows:
  assumes "since_ok y n ks" "sy_taken y' = sy_taken y @ new" "set (sy_released y) \<subseteq> set (sy_released y')"
  shows "since_ok y' n ks"
  using assms by (auto simp: since_ok_def apart_def)

lemma set_store_simps [simp]:
  "sy_store (set_store s y) = s" "sy_taken (set_store s y) = sy_taken y" "sy_released (set_store s y) = sy_released y"
  "sy_handlers (set_store s y) = sy_handlers y"
  by (simp_all add: set_store_def sy_store_def)

text \<open>One handler changes, messages are added: what remains to show concerns that handler and the new messages.\<close>

lemma handler_changes:
  assumes ok: "delivery_ok y" and y: "sy_handlers y' = (sy_handlers y)[i := h]" "sy_taken y' = sy_taken y @ new" "sy_released y' = sy_released y"
    and s: "claims_only (sy_store y')" "\<And>j. detached j (sy_store y) \<Longrightarrow> detached j (sy_store y')"
    and h: "since_ok y' (rh_since h) (held_covers h)"
    and new: "\<And>t. t \<in> set new \<Longrightarrow> since_ok y' (tm_since t) (tm_covers t) \<and> (\<forall>k\<in>set (tm_covers t). detached (key_claim k) (sy_store y'))"
  shows "delivery_ok y'"
proof -
  have grow: "since_ok y' n ks" if "since_ok y n ks" for n ks using since_grows[OF that y(2)] y(3) by simp
  have "all_claimed y'" using delivery_okD(2)[OF ok] y s(2) new by (auto simp: all_claimed_def)
  moreover have "since_ok y' (rh_since g) (held_covers g)" if "g \<in> set (sy_handlers y')" for g
    using that h grow delivery_okD(3)[OF ok] set_update_subset_insert[of "sy_handlers y" i h] y(1) by auto
  moreover have "since_ok y' (tm_since t) (tm_covers t)" if "t \<in> set (sy_taken y')" for t
    using that new grow delivery_okD(4)[OF ok] y(2) by auto
  ultimately show ?thesis using s(1) by (simp add: delivery_ok_def)
qed

lemma submit_apart:
  assumes ok: "delivery_ok y" and st: "deliver_step p b w e st (sy_store y) = (st', s)" "\<not> submitting st"
  shows "apart (sy_released y) (held_covers \<lparr>rh_entry = e, rh_backlog = b', rh_state = st', rh_since = n\<rparr>) (sy_taken y)"
proof -
  have "key_claim k \<in> set (sy_released y)"
    if t: "t \<in> set (sy_taken y)" "k \<in> set (tm_covers t)" and st': "st' = D_submitting c x sid esc extras" and k: "k \<in> set (covers e extras)" for t k c x sid esc extras
  proof -
    obtain m wr q where mk: "k = (m, wr, q)" by (cases k)
    have "\<not> isDeliveryClaimed m wr q (sy_store y)" using submit_unclaimed st st' k mk by blast
    then have "\<not> detached (key_claim k) (sy_store y)" using detached_claimed[OF delivery_okD(1)[OF ok]] mk by blast
    with delivery_okD(2)[OF ok] t show ?thesis by (auto simp: all_claimed_def)
  qed
  then show ?thesis by (auto simp: apart_def held_covers_def split: deliver_state.splits)
qed

lemma step_ok:
  assumes ok: "delivery_ok y" and i: "i < length (sy_handlers y)"
  shows "delivery_ok (step_handler p w i y)"
proof -
  let ?h = "sy_handlers y ! i"
  obtain st s where d: "deliver_step p (rh_backlog ?h) w (rh_entry ?h) (rh_state ?h) (sy_store y) = (st, s)" by fastforce
  have s: "claims_only s" "detached j (sy_store y) \<Longrightarrow> detached j s" for j
    using step_keeps[OF keep_claims(2) delivery_okD(1)[OF ok]] step_keeps[OF keep_claims(1)] d by (metis snd_conv)+
  show ?thesis
  proof (cases "submitting (rh_state ?h)")
    case True
    then have "st = rh_state ?h" "\<exists>c x sid esc extras. rh_state ?h = D_submitting c x sid esc extras" using d by (cases "rh_state ?h"; auto)+
    with d s delivery_okD(3)[OF ok, of ?h] i show ?thesis
      by (intro handler_changes[OF ok, of _ i ?h "[]"]) (auto simp: step_handler_def since_ok_def Let_def)
  next
    case False
    let ?g = "?h\<lparr>rh_state := st, rh_since := length (sy_taken y)\<rparr>"
    have g: "?g = \<lparr>rh_entry = rh_entry ?h, rh_backlog = rh_backlog ?h, rh_state = st, rh_since = length (sy_taken y)\<rparr>" by simp
    have "apart (sy_released y) (held_covers ?g) (sy_taken y)" unfolding g using submit_apart[OF ok d False] .
    with d s False i show ?thesis
      by (intro handler_changes[OF ok, of _ i ?g "[]"]) (auto simp: step_handler_def since_ok_def Let_def)
  qed
qed

lemma answer_leaves: "\<not> submitting (fst (deliver_answer w e c x sid esc extras out s))"
  by (auto simp: deliver_answer_def refused_step_def Let_def split: option.splits submit_outcome.splits)

lemma answer_ok:
  assumes ok: "delivery_ok y" and i: "i < length (sy_handlers y)"
  shows "delivery_ok (answer_handler w i out y)"
proof (cases "submitting (rh_state (sy_handlers y ! i))")
  case False
  then show ?thesis using ok by (cases "rh_state (sy_handlers y ! i)") (simp_all add: answer_handler_def Let_def)
next
  case True
  let ?h = "sy_handlers y ! i"
  from True obtain c x sid esc extras where sub: "rh_state ?h = D_submitting c x sid esc extras" by (cases "rh_state ?h") auto
  obtain st s where d: "deliver_answer w (rh_entry ?h) c x sid esc extras out (sy_store y) = (st, s)" by fastforce
  let ?new = "if typed out then [\<lparr>tm_covers = covers (rh_entry ?h) extras, tm_since = rh_since ?h\<rparr>] else []"
  let ?y = "answer_handler w i out y"
  have y: "sy_handlers ?y = (sy_handlers y)[i := ?h\<lparr>rh_state := st\<rparr>]" "sy_taken ?y = sy_taken y @ ?new" "sy_released ?y = sy_released y" "sy_store ?y = s"
    using sub d by (auto simp: answer_handler_def Let_def)
  have held: "since_ok ?y (rh_since ?h) (covers (rh_entry ?h) extras)"
    using since_grows[OF delivery_okD(3)[OF ok nth_mem[OF i]] y(2)] y(3) sub by (simp add: held_covers_def)
  have "held_covers (?h\<lparr>rh_state := st\<rparr>) = []"
    using answer_leaves[of w "rh_entry ?h" c x sid esc extras out "sy_store y"] d by (cases st) (auto simp: held_covers_def)
  moreover have "claims_only s" "detached j (sy_store y) \<Longrightarrow> detached j s" for j
    using answer_keeps[OF keep_claims(2) delivery_okD(1)[OF ok]] answer_keeps[OF keep_claims(1)] d by (metis snd_conv)+
  moreover have "detached (key_claim k) s" if "typed out" "k \<in> set (covers (rh_entry ?h) extras)" for k
    using answer_claims[OF delivery_okD(1)[OF ok] that] d by (metis snd_conv)
  ultimately show ?thesis using held
    by (intro handler_changes[OF ok y(1-3)]) (auto simp: y(4) since_ok_def apart_def split: if_splits)
qed

lemma pending_unclaimed:
  assumes "r \<in> set (pendingNoticeRows w m limit s)" "er_srcWriter r = Some wr" "er_publishedSeq r = Some q" "m \<noteq> []"
  shows "\<not> isDeliveryClaimed m wr q s"
  using assms by (auto simp: pendingNoticeRows_def listUndeliveredNotifies_def undelivered_def claim_covered_def isDeliveryClaimed_def
      deliveryClaimId_def legacyDeliveryClaimId_def dest!: in_set_takeD)

lemma surface_keeps: "claims_keep P \<Longrightarrow> P (is_store st) \<Longrightarrow> P (is_store (surface_row w m opts wr q t n r st))"
  by (simp add: surface_row_def Let_def claims_keepD)

lemma read_keeps: "claims_keep P \<Longrightarrow> P (is_store st) \<Longrightarrow> P (is_store (read_row w m opts st r))"
  by (simp add: read_row_def surface_keeps claims_keepD split: option.split)

lemma surface_out:
  assumes "n \<in> set (is_out (surface_row w m opts wr q t b r st))" "n \<notin> set (is_out st)"
  shows "nw_writer n = wr \<and> nw_seq n = q \<and> (io_ack opts \<and> \<not> nw_alsoInjected n \<and> claims_only (is_store st)
     \<longrightarrow> detached (key_claim (m, wr, q)) (is_store (surface_row w m opts wr q t b r st)))"
  using assms claim_keeps(3) by (auto simp: surface_row_def Let_def split: if_splits) (metis prod.collapse)+

lemma read_out:
  assumes "n \<in> set (is_out (read_row w m opts st r))" "n \<notin> set (is_out st)"
  shows "er_srcWriter r = Some (nw_writer n)" "er_publishedSeq r = Some (nw_seq n)"
    "io_ack opts \<and> \<not> nw_alsoInjected n \<and> claims_only (is_store st) \<Longrightarrow> detached (key_claim (m, nw_writer n, nw_seq n)) (is_store (read_row w m opts st r))"
proof -
  from assms obtain wr q t b where r: "er_srcWriter r = Some wr" "er_publishedSeq r = Some q" and eq: "read_row w m opts st r = surface_row w m opts wr q t b r st"
    by (auto simp: read_row_def split: option.splits if_splits)
  note out = surface_out[OF assms(1)[unfolded eq] assms(2)]
  then show "er_srcWriter r = Some (nw_writer n)" "er_publishedSeq r = Some (nw_seq n)" using r by auto
  show "io_ack opts \<and> \<not> nw_alsoInjected n \<and> claims_only (is_store st) \<Longrightarrow> detached (key_claim (m, nw_writer n, nw_seq n)) (is_store (read_row w m opts st r))"
    using out eq by auto
qed

lemma reads_keep: "claims_keep P \<Longrightarrow> P (is_store st) \<Longrightarrow> P (is_store (foldl (read_row w m opts) st rows))"
  by (induction rows arbitrary: st) (simp_all add: read_keeps)

lemma reads_out:
  assumes "claims_only (is_store st)" "n \<in> set (is_out (foldl (read_row w m opts) st rows))" "n \<notin> set (is_out st)"
  shows "(\<exists>r\<in>set rows. er_srcWriter r = Some (nw_writer n) \<and> er_publishedSeq r = Some (nw_seq n))
     \<and> (io_ack opts \<and> \<not> nw_alsoInjected n \<longrightarrow> detached (key_claim (m, nw_writer n, nw_seq n)) (is_store (foldl (read_row w m opts) st rows)))"
  using assms
proof (induction rows arbitrary: st)
  case (Cons r rows)
  have c: "claims_only (is_store (read_row w m opts st r))" using read_keeps[OF keep_claims(2) Cons.prems(1)] .
  show ?case
  proof (cases "n \<in> set (is_out (read_row w m opts st r))")
    case True
    from read_out[OF this Cons.prems(3)] Cons.prems(1) reads_keep[OF keep_claims(1)] show ?thesis by auto
  next
    case False
    from Cons.IH[OF c _ False] Cons.prems(2) show ?thesis by auto
  qed
qed simp

lemma read_ok:
  assumes ok: "delivery_ok y" and m: "m \<noteq> []"
  shows "delivery_ok (read_inbox w m opts y)"
proof -
  let ?rows = "pendingNoticeRows w m (io_limit opts) (sy_store y)" and ?st = "\<lparr>is_store = sy_store y, is_surfaced = [], is_out = []\<rparr>"
  obtain out s where rd: "readCoordinatorNotices w m opts (sy_store y) = (out, s)" by fastforce
  then have st: "out = is_out (foldl (read_row w m opts) ?st ?rows)" "s = is_store (foldl (read_row w m opts) ?st ?rows)"
    by (auto simp: readCoordinatorNotices_def Let_def)
  let ?ks = "map (\<lambda>n. (m, nw_writer n, nw_seq n)) (filter (\<lambda>n. io_ack opts \<and> \<not> nw_alsoInjected n) out)" and ?y = "read_inbox w m opts y"
  have y: "sy_handlers ?y = sy_handlers y" "sy_taken ?y = sy_taken y @ [\<lparr>tm_covers = ?ks, tm_since = length (sy_taken y)\<rparr>]"
    "sy_released ?y = sy_released y" "sy_store ?y = s"
    using rd by (auto simp: read_inbox_def)
  have cl: "claims_only (is_store ?st)" using delivery_okD(1)[OF ok] by simp
  have out: "\<exists>r\<in>set ?rows. er_srcWriter r = Some (nw_writer n) \<and> er_publishedSeq r = Some (nw_seq n)"
    "io_ack opts \<and> \<not> nw_alsoInjected n \<longrightarrow> detached (key_claim (m, nw_writer n, nw_seq n)) s" if "n \<in> set out" for n
    using reads_out[OF cl, of n w m opts ?rows] that st by auto
  have keep: "claims_only s" "detached j (sy_store y) \<Longrightarrow> detached j s" for j
    using reads_keep[OF keep_claims(2), of ?st] reads_keep[OF keep_claims(1), of j ?st] cl st(2) by auto
  have "key_claim k \<in> set (sy_released y)" if "t \<in> set (sy_taken y)" "k \<in> set (tm_covers t)" "k \<in> set ?ks" for t k
  proof -
    from that(3) obtain n where n: "n \<in> set out" "k = (m, nw_writer n, nw_seq n)" by auto
    from out(1)[OF n(1)] pending_unclaimed m have "\<not> isDeliveryClaimed m (nw_writer n) (nw_seq n) (sy_store y)" by blast
    then have "\<not> detached (key_claim k) (sy_store y)" using detached_claimed cl n(2) by auto
    with delivery_okD(2)[OF ok] that show ?thesis by (auto simp: all_claimed_def)
  qed
  then have apart: "apart (sy_released y) ?ks (sy_taken y)" unfolding apart_def by blast
  have grow: "since_ok ?y n ks" if "since_ok y n ks" for n ks using since_grows[OF that y(2)] y(3) by simp
  have "all_claimed ?y" using delivery_okD(2)[OF ok] y keep(2) out(2) by (auto simp: all_claimed_def)
  moreover have "since_ok ?y (length (sy_taken y)) ?ks" using apart y by (simp add: since_ok_def)
  ultimately show ?thesis using keep(1) y grow delivery_okD(3,4)[OF ok] by (simp add: delivery_ok_def)
qed

lemma other_ok:
  assumes ok: "delivery_ok y" and mv: "ledger_move deps (sy_ledger y) is lg" and cl: "claims_only (lg_store lg)"
  shows "delivery_ok (y\<lparr>sy_ledger := lg, sy_released := sy_released y @ is\<rparr>)" (is "delivery_ok ?y")
proof -
  have grow: "since_ok ?y n ks" if "since_ok y n ks" for n ks using since_grows[OF that, of ?y "[]"] by simp
  have "detached j (lg_store lg)" if "detached j (sy_store y)" "j \<notin> set is" for j
    using claimed.I_move[OF mv, of j] that by (auto simp: sy_store_def)
  then have "all_claimed ?y" using delivery_okD(2)[OF ok] by (auto simp: all_claimed_def sy_store_def)
  then show ?thesis using cl grow delivery_okD(3,4)[OF ok] by (simp add: delivery_ok_def sy_store_def)
qed

lemma move_ok: "delivery_move deps p y y' \<Longrightarrow> delivery_ok y \<Longrightarrow> delivery_ok y'"
proof (induction rule: delivery_move.induct)
  case (starts y e b)
  then show ?case by (simp add: delivery_ok_def all_claimed_def since_ok_def sy_store_def apart_def)
next
  case (ends i y)
  then have "set (take i (sy_handlers y) @ drop (Suc i) (sy_handlers y)) \<subseteq> set (sy_handlers y)" by (auto dest: in_set_takeD in_set_dropD)
  then show ?case using ends(3) unfolding delivery_ok_def all_claimed_def since_ok_def sy_store_def
    by (simp add: subset_iff) blast
qed (auto intro: step_ok answer_ok other_ok read_ok)

lemma path_ok: "delivery_path deps p lg y \<Longrightarrow> claims_only (lg_store lg) \<Longrightarrow> delivery_ok y"
proof (induction rule: delivery_path.induct)
  case empty
  then show ?case by (simp add: delivery_ok_def all_claimed_def sy_store_def)
qed (auto dest: move_ok)

end
