(* ===== verification/NoticeClaims.thy ===== *)
theory NoticeClaims
  imports NoticeOnce LedgerClaims
begin

text \<open>
  The properties of notice delivery, with a mesh that has two notices for one coordinator session.
\<close>

section \<open>Two notices and one coordinator\<close>

definition node_notice :: "ident \<Rightarrow> mesh_event_notice" where
  "node_notice i = \<lparr>mn_meshId = ''m'', mn_event = ''node_added'', mn_payload = None, mn_targetDaemonId = ''d1'', mn_targetSessionId = None, mn_taskId = None,
     mn_eventId = Some i, mn_at = Some 10, mn_notify = None, mn_ref = None, mn_attemptId = None\<rparr>"

definition two_notices :: turn_store where
  "two_notices = markPublished ''n2'' ''w'' 2 (markPublished ''n1'' ''w'' 1
     (snd (notifyMeshEvent (node_notice ''n2'') [] 10 (snd (notifyMeshEvent (node_notice ''n1'') [] 10 new_store)))))"

definition demo_cursor :: "ident \<Rightarrow> int \<Rightarrow> cursor_entry" where
  "demo_cursor i q = \<lparr>cu_meshId = ''m'', cu_writer = ''w'', cu_seq = q, cu_payload = notice_entry (node_notice i) i 10, cu_ref = None, cu_own = True\<rparr>"

definition demo_world :: "ms \<Rightarrow> deliver_world" where
  "demo_world t = \<lparr>dw_now = t, dw_selfIds = [''d1''], dw_coordinators = (\<lambda>_. [\<lparr>cv_sessionId = ''c1'', cv_idle = True, cv_modalParked = False\<rparr>]),
     dw_render = (\<lambda>_ _ _ _. \<lparr>rn_text = ''news'', rn_event = Some ''node_added'', rn_missing = 0\<rparr>), dw_control = (\<lambda>_. False), dw_stage = (\<lambda>_ _. None)\<rparr>"

definition notice_ledger :: "unit ledger" where "notice_ledger = (empty_ledger ())\<lparr>lg_store := two_notices\<rparr>"

datatype demo_move = Begin ident int bool | Step nat | Reply nat submit_outcome | Read | Release_claim int

definition do_move :: "demo_move \<Rightarrow> unit delivery_system \<Rightarrow> unit delivery_system" where
  "do_move mv y = (case mv of
     Begin i q b \<Rightarrow> y\<lparr>sy_handlers := sy_handlers y @ [\<lparr>rh_entry = demo_cursor i q, rh_backlog = b, rh_state = D_start, rh_since = 0\<rparr>]\<rparr>
   | Step i \<Rightarrow> if i < length (sy_handlers y) then step_handler DEFAULT_TURN_POLICY (demo_world 100000) i y else y
   | Reply i out \<Rightarrow> if i < length (sy_handlers y) then answer_handler (demo_world 100000) i (Some out) y else y
   | Read \<Rightarrow> read_inbox (demo_world 100000) ''m'' \<lparr>io_ack = True, io_limit = 200, io_surfacedSessionId = None, io_informational = False\<rparr> y
   | Release_claim q \<Rightarrow>
       let i = deliveryClaimId (Some ''m'') ''w'' q; lg = (sy_ledger y)\<lparr>lg_store := snd (releaseDeliveryClaim i (sy_store y))\<rparr>
       in if claims_only (lg_store lg) then y\<lparr>sy_ledger := lg, sy_released := sy_released y @ [i]\<rparr> else y)"

definition moves_run :: "demo_move list \<Rightarrow> unit delivery_system" where
  "moves_run mvs = fold do_move mvs \<lparr>sy_ledger = notice_ledger, sy_handlers = [], sy_taken = [], sy_released = []\<rparr>"

lemma release_move:
  assumes "claims_only (snd (releaseDeliveryClaim i (sy_store y)))"
  shows "delivery_move deps p y (y\<lparr>sy_ledger := (sy_ledger y)\<lparr>lg_store := snd (releaseDeliveryClaim i (sy_store y))\<rparr>, sy_released := sy_released y @ [i]\<rparr>)"
  by (rule others, rule releases[of i _ "fst (releaseDeliveryClaim i (sy_store y))"]) (use assms in \<open>simp_all add: sy_store_def\<close>)

lemma moves_run_path: "delivery_path demo_deps DEFAULT_TURN_POLICY notice_ledger (moves_run mvs)"
proof -
  have mv: "delivery_path demo_deps DEFAULT_TURN_POLICY notice_ledger (do_move mv y)" if p: "delivery_path demo_deps DEFAULT_TURN_POLICY notice_ledger y" for mv y
    using p by (cases mv) (auto simp: do_move_def Let_def intro: delivery_path.moves[OF p] delivery_move.intros release_move)
  have "delivery_path demo_deps DEFAULT_TURN_POLICY notice_ledger (fold do_move mvs y)" if "delivery_path demo_deps DEFAULT_TURN_POLICY notice_ledger y" for y
    using that by (induction mvs arbitrary: y) (auto intro: mv)
  then show ?thesis unfolding moves_run_def by (blast intro: delivery_path.empty)
qed

definition typed_again :: "demo_move list" where
  "typed_again = [Begin ''n1'' 1 False, Step 0, Step 0, Reply 0 Sub_delivered, Read, Release_claim 1, Begin ''n1'' 1 False, Step 1, Step 1, Reply 1 Sub_delivered]"

definition overlap_moves :: "demo_move list" where
  "overlap_moves = [Begin ''n1'' 1 False, Begin ''n2'' 2 True, Step 0, Step 0, Step 1, Step 1, Reply 1 Sub_delivered, Reply 0 Sub_delivered]"

text \<open>The cursor and a backlog pass submit the same notice: the first submit is refused, the second is called a duplicate of it.\<close>

fun handler_over :: "deliver_state \<Rightarrow> bool" where
  "handler_over (D_done r) = True"
| "handler_over D_threw = True"
| "handler_over _ = False"

definition duplicate_moves :: "demo_move list" where
  "duplicate_moves = [Begin ''n1'' 1 False, Begin ''n1'' 1 True, Step 0, Step 0, Step 1, Step 1, Reply 0 (Sub_refused Ref_not_ready), Reply 1 Sub_duplicate]"

lemma duplicate_run:
  "(let y = moves_run duplicate_moves in
      (sy_taken y, isDeliveryClaimed ''m'' ''w'' 1 (sy_store y), list_all (\<lambda>h. handler_over (rh_state h)) (sy_handlers y)))
   = ([], True, True)"
  by code_simp

lemma demo_runs:
  "(claims_only (lg_store notice_ledger), map (\<lambda>t. (tm_covers t, tm_since t)) (sy_taken (moves_run overlap_moves)), sy_released (moves_run overlap_moves),
    map (\<lambda>t. (tm_covers t, tm_since t)) (sy_taken (moves_run typed_again)), sy_released (moves_run typed_again))
   = (True, [([(''m'', ''w'', 2)], 0), ([(''m'', ''w'', 1), (''m'', ''w'', 2)], 0)], [],
      [([(''m'', ''w'', 1), (''m'', ''w'', 2)], 0), ([], 1), ([(''m'', ''w'', 1)], 2)], [''delivered:m:w:1''])"
  by code_simp

lemma demo_taken:
  "claims_only (lg_store notice_ledger)"
  "map tm_covers (sy_taken (moves_run overlap_moves)) = [[(''m'', ''w'', 2)], [(''m'', ''w'', 1), (''m'', ''w'', 2)]]"
  "sy_released (moves_run overlap_moves) = []"
  "sy_taken (moves_run typed_again) = [\<lparr>tm_covers = [(''m'', ''w'', 1), (''m'', ''w'', 2)], tm_since = 0\<rparr>, \<lparr>tm_covers = [], tm_since = 1\<rparr>,
     \<lparr>tm_covers = [(''m'', ''w'', 1)], tm_since = 2\<rparr>]"
  "sy_released (moves_run typed_again) = [''delivered:m:w:1'']"
  using demo_runs by (auto simp: map_eq_Cons_conv)

section \<open>Each notice reaches a coordinator once\<close>

text \<open>
  C10. A notice is not told twice. Take any interleaving of handlers (the cursor's and those of backlog
  passes), answers of the input port, reads of the MCP inbox and other ledger operations. A message or a
  read that was put together after an earlier message or read had been taken covers none of its notices,
  unless the claim of that notice has been released since.
\<close>

theorem notice_taken_once:
  assumes "delivery_path deps p lg y" "claims_only (lg_store lg)"
    and "i < length (sy_taken y)" "j < tm_since (sy_taken y ! i)"
    and "k \<in> set (tm_covers (sy_taken y ! i))" "k \<in> set (tm_covers (sy_taken y ! j))"
  shows "key_claim k \<in> set (sy_released y)"
proof -
  have since: "since_ok y (tm_since (sy_taken y ! i)) (tm_covers (sy_taken y ! i))"
    using delivery_okD(4)[OF path_ok[OF assms(1,2)] nth_mem[OF assms(3)]] .
  then have "sy_taken y ! j \<in> set (take (tm_since (sy_taken y ! i)) (sy_taken y))"
    using assms(4) by (auto simp: since_ok_def in_set_conv_nth intro!: exI[of _ j])
  with since assms(5,6) show ?thesis unfolding since_ok_def apart_def by blast
qed

theorem notice_taken_once_witness:
  "key_claim (''m'', ''w'', 1) \<in> set (sy_released (moves_run typed_again))
   \<and> (''m'', ''w'', 1) \<in> set (tm_covers (sy_taken (moves_run typed_again) ! 0)) \<inter> set (tm_covers (sy_taken (moves_run typed_again) ! 2))"
  using notice_taken_once[OF moves_run_path[of typed_again] demo_taken(1), of 2 0 "(''m'', ''w'', 1)"]
  by (simp add: demo_taken(4))

text \<open>
  Submits that overlap in time are not covered by this: the companions of a message are claimed only when
  the port has answered, so a backlog pass that runs meanwhile sends one of them in a message of its own.
\<close>

theorem overlapping_submits_repeat:
  "\<exists>y. delivery_path demo_deps DEFAULT_TURN_POLICY notice_ledger y \<and> sy_released y = []
     \<and> (\<exists>k. k \<in> set (tm_covers (sy_taken y ! 0)) \<and> k \<in> set (tm_covers (sy_taken y ! 1)) \<and> length (sy_taken y) = 2)"
proof -
  from demo_taken(2) obtain a b where t: "sy_taken (moves_run overlap_moves) = [a, b]" and "tm_covers a = [(''m'', ''w'', 2)]"
    "tm_covers b = [(''m'', ''w'', 1), (''m'', ''w'', 2)]" by (auto simp: map_eq_Cons_conv)
  then show ?thesis using moves_run_path[of overlap_moves] demo_taken(3) by (intro exI[of _ "moves_run overlap_moves"]) auto
qed

text \<open>
  The input service answers \<open>duplicate\<close> to a submit whose message id is in flight, however the submit in flight
  ends. When it is refused, the notice is claimed although no session has taken it, and no handler is left.
\<close>

theorem duplicate_answer_claims_untold:
  "\<exists>y. delivery_path demo_deps DEFAULT_TURN_POLICY notice_ledger y \<and> sy_taken y = [] \<and> isDeliveryClaimed ''m'' ''w'' 1 (sy_store y)
     \<and> list_all (\<lambda>h. handler_over (rh_state h)) (sy_handlers y)"
  using duplicate_run moves_run_path[of duplicate_moves] by (intro exI[of _ "moves_run duplicate_moves"]) (simp add: Let_def)

text \<open>The list of typed notices never names the session: a claim's payload does not have it.\<close>

lemma delivered_view_session: "delivered_view w s claim = Some n \<Longrightarrow> dn_sessionId n = claim_member claim ''sessionId''"
  by (simp add: delivered_view_def Let_def split: if_splits option.splits prod.splits) auto

lemma claim_session: "claim_member claim ''sessionId'' = None"
  by (simp add: claim_member_def split: row_payload.split)

theorem delivered_session_unknown: "n \<in> set (listRecentDeliveredNotices w since limit s) \<Longrightarrow> dn_sessionId n = None"
  using claim_session delivered_view_session by (fastforce simp: listRecentDeliveredNotices_def List.map_filter_def)

section \<open>When and where a notice is written\<close>

text \<open>
  C12. The delivery ceiling. Once a notice that is being routed is older than the ceiling, the cursor's handler waits no longer.
  Its next stretch ends the delivery when the notice was claimed meanwhile, or when no coordinator session of the mesh is
  left that has not refused it; in every other case it submits the notice, with the companions it gathers, to
  such a session: to one that is idle without a dialog, or marked as escalated to one that is not.
\<close>

theorem ceiling_submits:
  assumes "dw_now w \<ge> nx_at c + deliveryCeilingMs p"
  shows "\<exists>d. deliver_step p False w e (D_routing c x) s = (d, s)
    \<and> (if claimed_now e s then d = D_done Res_acked_elsewhere
       else if eligible w e x = [] then d = D_done Res_no_coordinator
       else \<exists>v \<in> set (eligible w e x). \<exists>esc. (ready v \<or> esc) \<and> d = D_submitting c x (cv_sessionId v) esc (gatherCoalesced w e (nx_body c) (nx_wakeKey c) s))"
proof -
  let ?route = "routeNotice (readString (ne_e_targetSessionId (nx_body c))) (eligible w e x) True"
  have none: "?route = Route_none" if "eligible w e x = []" using that by (simp add: route_none_iff)
  have some: "\<exists>v \<in> set (eligible w e x). \<exists>esc. (ready v \<or> esc) \<and> ?route = Route_deliver (cv_sessionId v) esc" if some: "eligible w e x \<noteq> []"
  proof -
    obtain sid esc where r: "?route = Route_deliver sid esc" using route_past_ceiling[OF some] by blast
    then show ?thesis using route_deliver_view[OF r] by auto
  qed
  show ?thesis
  proof (cases "eligible w e x = []")
    case True
    then show ?thesis using assms none by (simp add: route_step_def)
  next
    case False
    obtain v esc where "v \<in> set (eligible w e x)" "ready v \<or> esc" "?route = Route_deliver (cv_sessionId v) esc" using some[OF False] by blast
    then show ?thesis using assms False by (auto simp: route_step_def intro!: bexI[of _ v])
  qed
qed

definition demo_busy :: "ms \<Rightarrow> deliver_world" where
  "demo_busy t = (demo_world t)\<lparr>dw_coordinators := (\<lambda>_. [\<lparr>cv_sessionId = ''c1'', cv_idle = False, cv_modalParked = True\<rparr>])\<rparr>"

definition demo_ctx :: notice_ctx where
  "demo_ctx = \<lparr>nx_body = \<lparr>ne_e_attemptId = None, ne_e_notify = N_mesh_event, ne_e_targetDaemonId = ''d1'', ne_e_targetSessionId = Some ''c1'', ne_e_taskId = None\<rparr>,
     nx_row = None, nx_at = 10, nx_wakeKey = None\<rparr>"

definition demo_routing :: routing_ctx where
  "demo_routing = \<lparr>rx_rendered = \<lparr>rn_text = ''news'', rn_event = None, rn_missing = 0\<rparr>, rx_startedAt = 20, rx_rounds = 0, rx_refused = []\<rparr>"

theorem ceiling_submits_witness:
  "\<exists>v \<in> set (eligible (demo_busy (10 + deliveryCeilingMs DEFAULT_TURN_POLICY)) (demo_cursor ''n1'' 1) demo_routing). \<exists>esc extras. (ready v \<or> esc)
     \<and> deliver_step DEFAULT_TURN_POLICY False (demo_busy (10 + deliveryCeilingMs DEFAULT_TURN_POLICY)) (demo_cursor ''n1'' 1) (D_routing demo_ctx demo_routing) new_store
       = (D_submitting demo_ctx demo_routing (cv_sessionId v) esc extras, new_store)"
proof -
  let ?w = "demo_busy (10 + deliveryCeilingMs DEFAULT_TURN_POLICY)"
  have c: "dw_now ?w \<ge> nx_at demo_ctx + deliveryCeilingMs DEFAULT_TURN_POLICY" by (simp add: demo_busy_def demo_ctx_def demo_world_def)
  have "\<not> claimed_now (demo_cursor ''n1'' 1) new_store" "eligible ?w (demo_cursor ''n1'' 1) demo_routing \<noteq> []"
    by (simp_all add: claimed_now_def isDeliveryClaimed_def new_store_def eligible_def demo_busy_def demo_routing_def demo_world_def)
  with ceiling_submits[OF c, of "demo_cursor ''n1'' 1" demo_routing new_store] show ?thesis by auto
qed

text \<open>
  Where a notice is written. A submit goes to a coordinator session of the notice's mesh that has not
  refused it in this delivery; before the ceiling, and always in a backlog pass, to one that is idle
  and has no dialog open.
\<close>

lemma submit_target:
  assumes "deliver_step p b w e (D_routing c x) s = (D_submitting c' x' sid esc extras, s')"
  shows "\<exists>v\<in>set (dw_coordinators w (cu_meshId e)). cv_sessionId v = sid \<and> sid \<notin> set (rx_refused x)
     \<and> (ready v \<or> esc \<and> \<not> b \<and> dw_now w \<ge> nx_at c + deliveryCeilingMs p)"
  using assms by (auto simp: route_step_def eligible_def split: if_splits notice_route.splits dest!: route_deliver_view)

theorem submit_target_witness:
  "\<exists>v\<in>set (dw_coordinators (demo_world 20) ''m''). cv_sessionId v = ''c1'' \<and> ''c1'' \<notin> set (rx_refused demo_routing)
     \<and> (ready v \<or> False \<and> \<not> True \<and> 20 \<ge> nx_at demo_ctx + deliveryCeilingMs DEFAULT_TURN_POLICY)"
proof -
  have "deliver_step DEFAULT_TURN_POLICY True (demo_world 20) (demo_cursor ''n1'' 1) (D_routing demo_ctx demo_routing) new_store
      = (D_submitting demo_ctx demo_routing ''c1'' False [], new_store)"
    by code_simp
  from submit_target[OF this] show ?thesis by (simp add: demo_cursor_def demo_world_def)
qed

section \<open>The number of submits\<close>

inductive handler_run :: "turn_policy \<Rightarrow> bool \<Rightarrow> cursor_entry \<Rightarrow> deliver_state \<Rightarrow> nat \<Rightarrow> bool" for p b e where
  begins: "handler_run p b e D_start 0"
| goes_on: "handler_run p b e st n \<Longrightarrow> deliver_step p b w e st s = (st', s') \<Longrightarrow> handler_run p b e st' (if submitting st' \<and> \<not> submitting st then n + 1 else n)"
| answered: "handler_run p b e (D_submitting c x sid esc extras) n \<Longrightarrow> deliver_answer w e c x sid esc extras out s = (st', s') \<Longrightarrow> handler_run p b e st' n"

fun rounds_ok :: "deliver_state \<Rightarrow> nat \<Rightarrow> bool" where
  "rounds_ok (D_routing c x) n = (n = rx_rounds x \<and> n < MAX_SUBMIT_ROUNDS)"
| "rounds_ok (D_submitting c x sid esc extras) n = (n = rx_rounds x + 1 \<and> n \<le> MAX_SUBMIT_ROUNDS)"
| "rounds_ok (D_done r) n = (n \<le> MAX_SUBMIT_ROUNDS)"
| "rounds_ok D_threw n = (n \<le> MAX_SUBMIT_ROUNDS)"
| "rounds_ok _ n = (n = 0)"

lemma text_rounds: "with_text p b w e c r s = (st, s') \<Longrightarrow> rounds_ok st 0 \<and> \<not> submitting st"
  by (auto simp: with_text_def start_routing_def MAX_SUBMIT_ROUNDS_def split: if_splits)

lemma start_rounds: "start_step p b w e s = (st, s') \<Longrightarrow> rounds_ok st 0 \<and> \<not> submitting st"
  by (auto simp: start_step_def handle_notice_def suppress_def Let_def split: option.splits if_splits dest: text_rounds)

lemma step_rounds:
  assumes "deliver_step p b w e st s = (st', s')" "rounds_ok st n"
  shows "rounds_ok st' (if submitting st' \<and> \<not> submitting st then n + 1 else n)"
  using assms
proof (cases st)
  case (D_routing c x)
  with assms show ?thesis by (auto simp: route_step_def split: if_splits notice_route.splits)
qed (auto simp: hold_step_def suppress_def start_routing_def MAX_SUBMIT_ROUNDS_def dest: start_rounds text_rounds split: if_splits option.splits)

lemma answer_rounds: "deliver_answer w e c x sid esc extras out s = (st', s') \<Longrightarrow> rounds_ok (D_submitting c x sid esc extras) n \<Longrightarrow> rounds_ok st' n"
  by (auto simp: deliver_answer_def refused_step_def Let_def split: option.splits submit_outcome.splits if_splits)

text \<open>
  C13. At most three submits. However the input port answers and whatever changes in between, one delivery
  submits its notice at most three times before it ends or gives the entry back to the cursor.
\<close>

theorem submits_bounded:
  assumes "handler_run p b e st n"
  shows "n \<le> MAX_SUBMIT_ROUNDS"
proof -
  from assms have "rounds_ok st n"
  proof (induction rule: handler_run.induct)
    case begins
    then show ?case by simp
  next
    case goes_on
    then show ?case using step_rounds by blast
  next
    case answered
    then show ?case using answer_rounds by blast
  qed
  then show ?thesis by (cases st) (auto simp: MAX_SUBMIT_ROUNDS_def)
qed

definition three_sessions :: "ms \<Rightarrow> deliver_world" where
  "three_sessions t = (demo_world t)\<lparr>dw_coordinators := (\<lambda>_. map (\<lambda>i. \<lparr>cv_sessionId = i, cv_idle = True, cv_modalParked = False\<rparr>) [''c1'', ''c2'', ''c3'', ''c4''])\<rparr>"

text \<open>A delivery that every session refuses for the moment.\<close>

definition next_stretch :: "deliver_state \<Rightarrow> deliver_state" where
  "next_stretch st = fst (deliver_step DEFAULT_TURN_POLICY True (three_sessions 20) (demo_cursor ''n1'' 1) st new_store)"

definition refuse :: "deliver_state \<Rightarrow> deliver_state" where
  "refuse st = (case st of
     D_submitting c x sid esc extras \<Rightarrow>
       fst (deliver_answer (three_sessions 20) (demo_cursor ''n1'' 1) c x sid esc extras (Some (Sub_refused Ref_not_ready)) new_store)
   | _ \<Rightarrow> st)"

fun refuse_round :: "deliver_state \<times> nat \<Rightarrow> deliver_state \<times> nat" where
  "refuse_round (st, n) = (case next_stretch st of st' \<Rightarrow> (refuse st', if submitting st' then n + 1 else n))"

primrec refuse_all :: "nat \<Rightarrow> deliver_state \<times> nat" where
  "refuse_all 0 = (D_start, 0)"
| "refuse_all (Suc k) = refuse_round (refuse_all k)"

lemma refuse_leaves: "\<not> submitting (refuse st)"
  using answer_leaves by (cases st) (auto simp: refuse_def)

lemma refuse_all_run: "handler_run DEFAULT_TURN_POLICY True (demo_cursor ''n1'' 1) (fst (refuse_all k)) (snd (refuse_all k)) \<and> \<not> submitting (fst (refuse_all k))"
proof (induction k)
  case (Suc k)
  obtain st n where k: "refuse_all k = (st, n)" by fastforce
  let ?e = "demo_cursor ''n1'' 1"
  obtain st' s' where d: "deliver_step DEFAULT_TURN_POLICY True (three_sessions 20) ?e st new_store = (st', s')" by fastforce
  then have st': "next_stretch st = st'" by (simp add: next_stretch_def)
  have run: "handler_run DEFAULT_TURN_POLICY True ?e st' (if submitting st' then n + 1 else n)"
    using goes_on[OF _ d, of n] Suc k by simp
  have "handler_run DEFAULT_TURN_POLICY True ?e (refuse st') (if submitting st' then n + 1 else n)"
  proof (cases st')
    case (D_submitting c x sid esc extras)
    obtain st2 s2 where a: "deliver_answer (three_sessions 20) ?e c x sid esc extras (Some (Sub_refused Ref_not_ready)) new_store = (st2, s2)" by fastforce
    with run D_submitting show ?thesis using answered[OF _ a] by (simp add: refuse_def)
  qed (use run in \<open>simp_all add: refuse_def\<close>)
  with k refuse_leaves st' show ?case by simp
qed (simp add: begins)

theorem submits_bounded_witness:
  "handler_run DEFAULT_TURN_POLICY True (demo_cursor ''n1'' 1) D_threw 3 \<and> (3::nat) \<le> MAX_SUBMIT_ROUNDS"
proof -
  have "refuse_all 4 = (D_threw, 3)" by code_simp
  then have run: "handler_run DEFAULT_TURN_POLICY True (demo_cursor ''n1'' 1) D_threw 3" using refuse_all_run[of 4] by simp
  with submits_bounded[OF run] show ?thesis by simp
qed

end
