(* ===== verification/RingBuffer.thy ===== *)
theory RingBuffer
  imports JsText
begin

text \<open>
  \<open>session-host-core/src/buffer.ts\<close>: the ring buffer that keeps the recent output of a terminal
  session. Chunks are text of UTF-16 code units with their UTF-8 size. Eviction drops whole chunks
  from the front and then repairs the new head, cutting a torn character or escape sequence.

  The \<open>typeof data === 'string'\<close> coercions are left out: the input is text.
\<close>

record ring_chunk =
  rb_seq :: int
  rb_data :: js_text
  rb_bytes :: nat

record ring_buffer =
  rb_maxBytes :: nat
  rb_chunks :: "ring_chunk list"
  rb_nextSeq :: int
  rb_totalBytes :: int

definition DEFAULT_SESSION_RING_BUFFER_MAX_BYTES :: nat where
  "DEFAULT_SESSION_RING_BUFFER_MAX_BYTES = 4 * 1024 * 1024"

section \<open>Repairing the head\<close>

text \<open>Character classes of the regular expressions.\<close>

definition param_unit :: "code_unit \<Rightarrow> bool" where
  "param_unit u \<longleftrightarrow> 0x30 \<le> u \<and> u \<le> 0x39 \<or> u \<in> set (ascii '';?:<=>'')"

definition CSI_FINAL :: "code_unit \<Rightarrow> bool" where
  "CSI_FINAL u \<longleftrightarrow> 0x40 \<le> u \<and> u \<le> 0x7E"

definition CSI_COMMON_FINAL :: "code_unit \<Rightarrow> bool" where
  "CSI_COMMON_FINAL u \<longleftrightarrow> u \<in> set (ascii ''ABCDEFGHJKSTLMPX@mnchlsurdfgqit'')"

text \<open>The loop over torn characters: U+FFFD and unpaired surrogates.\<close>

fun skip_debris :: "js_text \<Rightarrow> js_text" where
  "skip_debris [] = []"
| "skip_debris [u] = (if u = 0xFFFD \<or> high_surrogate u \<or> low_surrogate u then [] else [u])"
| "skip_debris (u # v # us) =
     (if u = 0xFFFD then skip_debris (v # us)
      else if high_surrogate u then (if low_surrogate v then u # v # us else skip_debris (v # us))
      else if low_surrogate u then skip_debris (v # us)
      else u # v # us)"

definition index_of :: "code_unit \<Rightarrow> js_text \<Rightarrow> nat option" where
  "index_of c s = (let i = length (takeWhile ((\<noteq>) c) s) in if i < length s then Some i else None)"

definition danglingEscapeTailLength :: "js_text \<Rightarrow> nat" where
  "danglingEscapeTailLength s =
     (case s of
        [] \<Rightarrow> 0
      | c # cs \<Rightarrow>
          if c = 0x1B then 0
          else let hasIntroducer = (c = 0x5B \<or> c = 0x5D);
                   start = (if hasIntroducer then 1 else 0);
                   i = start + length (takeWhile param_unit (drop start s))
               in if i \<ge> length s then 0
                  else if c = 0x5D then (case index_of 0x07 s of Some bel \<Rightarrow> bel + 1 | None \<Rightarrow> 0)
                  else if \<not> CSI_FINAL (s ! i) then 0
                  else if \<not> hasIntroducer \<and> (i = start \<or> \<not> CSI_COMMON_FINAL (s ! i)) then 0
                  else i + 1)"

definition stripDanglingPrefix :: "js_text \<Rightarrow> js_text" where
  "stripDanglingPrefix s = (let rest = skip_debris s in drop (danglingEscapeTailLength rest) rest)"

section \<open>Operations\<close>

definition new_ring :: "nat option \<Rightarrow> ring_buffer" where
  "new_ring maxBytes = \<lparr>
     rb_maxBytes = (case maxBytes of Some m \<Rightarrow> m | None \<Rightarrow> DEFAULT_SESSION_RING_BUFFER_MAX_BYTES),
     rb_chunks = [], rb_nextSeq = 1, rb_totalBytes = 0\<rparr>"

fun evict :: "nat \<Rightarrow> ring_chunk list \<Rightarrow> int \<Rightarrow> ring_chunk list \<times> int" where
  "evict m (c # d # cs) held =
     (if held > int m then evict m (d # cs) (held - int (rb_bytes c)) else (c # d # cs, held))"
| "evict m cs held = (cs, held)"

definition healHead :: "ring_buffer \<Rightarrow> ring_buffer" where
  "healHead b =
     (case rb_chunks b of
        [] \<Rightarrow> b
      | c # cs \<Rightarrow>
          let repaired = stripDanglingPrefix (rb_data c)
          in if repaired = rb_data c then b
             else b\<lparr>rb_chunks := c\<lparr>rb_data := repaired, rb_bytes := utf8_length repaired\<rparr> # cs,
                    rb_totalBytes := rb_totalBytes b - (int (rb_bytes c) - int (utf8_length repaired))\<rparr>)"

definition trim :: "ring_buffer \<Rightarrow> ring_buffer" where
  "trim b =
     (let (cs, left) = evict (rb_maxBytes b) (rb_chunks b) (rb_totalBytes b);
          b' = b\<lparr>rb_chunks := cs, rb_totalBytes := left\<rparr>
      in if length cs < length (rb_chunks b) then healHead b' else b')"

definition append :: "js_text \<Rightarrow> ring_buffer \<Rightarrow> int \<times> ring_buffer" where
  "append data b =
     (let seq = rb_nextSeq b
      in (seq, trim (b\<lparr>rb_nextSeq := seq + 1,
                 rb_chunks := rb_chunks b @ [\<lparr>rb_seq = seq, rb_data = data, rb_bytes = utf8_length data\<rparr>],
                 rb_totalBytes := rb_totalBytes b + int (utf8_length data)\<rparr>)))"

record buffer_snapshot =
  sn_seq :: int
  sn_text :: js_text
  sn_truncated :: bool

definition snapshot :: "int option \<Rightarrow> ring_buffer \<Rightarrow> buffer_snapshot" where
  "snapshot sinceSeq b = \<lparr>
     sn_seq = rb_nextSeq b - 1,
     sn_text = concat (map rb_data
       (case sinceSeq of Some s \<Rightarrow> filter (\<lambda>c. rb_seq c > s) (rb_chunks b) | None \<Rightarrow> rb_chunks b)),
     sn_truncated = (case (rb_chunks b, sinceSeq) of (c # _, Some s) \<Rightarrow> s < rb_seq c - 1 | _ \<Rightarrow> False)\<rparr>"

definition getState :: "ring_buffer \<Rightarrow> int \<times> int" where
  "getState b = (rb_totalBytes b, rb_nextSeq b - 1)"

definition clear :: "ring_buffer \<Rightarrow> ring_buffer" where
  "clear b = b\<lparr>rb_chunks := [], rb_totalBytes := 0, rb_nextSeq := 1\<rparr>"

text \<open>\<open>snapshot.seq || 0\<close> is the number itself, and \<open>snapshot.seq || 1\<close> reads a zero as one.\<close>

definition restore :: "int \<Rightarrow> js_text \<Rightarrow> ring_buffer \<Rightarrow> ring_buffer" where
  "restore seq body b =
     (if body = [] then (clear b)\<lparr>rb_nextSeq := max 1 (seq + 1)\<rparr>
      else let s = max 1 (if seq = 0 then 1 else seq)
           in trim ((clear b)\<lparr>rb_chunks := [\<lparr>rb_seq = s, rb_data = body, rb_bytes = utf8_length body\<rparr>],
                      rb_totalBytes := int (utf8_length body), rb_nextSeq := s + 1\<rparr>))"

section \<open>Repair only cuts a prefix\<close>

lemma skip_debris_suffix: "suffix (skip_debris s) s"
  by (induction s rule: skip_debris.induct) (auto intro: suffix_ConsI)

lemma strip_suffix: "suffix (stripDanglingPrefix s) s"
proof -
  have "suffix (drop n t) s" if "suffix t s" for n t
    using that append_take_drop_id[of n t] by (metis append.assoc suffix_def)
  with skip_debris_suffix[of s] show ?thesis by (simp add: stripDanglingPrefix_def Let_def)
qed

lemma suffix_concat: "suffix a b \<Longrightarrow> suffix (a @ c) (b @ c)"
  by (auto simp: suffix_def)

section \<open>The invariant\<close>

definition byte_sum :: "ring_chunk list \<Rightarrow> nat" where
  "byte_sum cs = sum_list (map (\<lambda>c. utf8_length (rb_data c)) cs)"

definition chunks_ok :: "int \<Rightarrow> ring_chunk list \<Rightarrow> bool" where
  "chunks_ok nxt cs \<longleftrightarrow> map rb_seq cs = map (\<lambda>i. nxt - int (length cs) + int i) [0..<length cs]
     \<and> list_all (\<lambda>c. rb_bytes c = utf8_length (rb_data c)) cs"

definition ring_ok :: "ring_buffer \<Rightarrow> bool" where
  "ring_ok b \<longleftrightarrow> chunks_ok (rb_nextSeq b) (rb_chunks b) \<and> rb_totalBytes b = int (byte_sum (rb_chunks b))
     \<and> (rb_totalBytes b \<le> int (rb_maxBytes b) \<or> length (rb_chunks b) \<le> 1) \<and> 1 \<le> rb_nextSeq b"

lemma chunks_ok_tl: "chunks_ok n (c # cs) \<Longrightarrow> chunks_ok n cs"
  by (auto simp: chunks_ok_def map_upt_Suc simp del: upt_Suc)

lemma chunks_ok_snoc:
  "chunks_ok n cs \<Longrightarrow> rb_seq c = n \<Longrightarrow> rb_bytes c = utf8_length (rb_data c) \<Longrightarrow> chunks_ok (n + 1) (cs @ [c])"
  by (auto simp: chunks_ok_def)

lemma chunks_ok_head:
  "chunks_ok n (c # cs) \<Longrightarrow> rb_seq c' = rb_seq c \<Longrightarrow> rb_bytes c' = utf8_length (rb_data c') \<Longrightarrow> chunks_ok n (c' # cs)"
  by (simp add: chunks_ok_def)

lemma evict_suffix: "suffix (fst (evict m cs h)) cs"
  by (induction m cs h rule: evict.induct) (auto intro: suffix_ConsI)

lemma evict_spec:
  "chunks_ok n cs \<Longrightarrow> h = int (byte_sum cs) \<Longrightarrow>
   chunks_ok n (fst (evict m cs h)) \<and> snd (evict m cs h) = int (byte_sum (fst (evict m cs h)))
   \<and> (snd (evict m cs h) \<le> int m \<or> length (fst (evict m cs h)) \<le> 1)"
proof (induction m cs h rule: evict.induct)
  case (1 m c d cs h)
  have "rb_bytes c = utf8_length (rb_data c)" using 1 by (simp add: chunks_ok_def)
  with 1 chunks_ok_tl[OF 1(2)] show ?case by (auto simp: byte_sum_def)
qed (simp_all add: chunks_ok_def)

lemma byte_sum_strip_le: "utf8_length (stripDanglingPrefix s) \<le> utf8_length s"
  using strip_suffix[of s] utf8_drop_le by (metis suffix_def)

lemma healHead_ok: "ring_ok b \<Longrightarrow> ring_ok (healHead b) \<and> rb_nextSeq (healHead b) = rb_nextSeq b"
proof (cases "rb_chunks b")
  case (Cons c cs)
  assume ok: "ring_ok b"
  let ?r = "stripDanglingPrefix (rb_data c)" let ?c = "c\<lparr>rb_data := ?r, rb_bytes := utf8_length ?r\<rparr>"
  have h: "chunks_ok (rb_nextSeq b) (?c # cs)" by (rule chunks_ok_head[of _ c]) (use ok Cons in \<open>simp_all add: ring_ok_def\<close>)
  have "rb_bytes c = utf8_length (rb_data c)" using ok Cons by (simp add: ring_ok_def chunks_ok_def)
  with ok Cons h byte_sum_strip_le[of "rb_data c"] show ?thesis
    by (auto simp: healHead_def ring_ok_def byte_sum_def Let_def)
qed (simp add: healHead_def)

lemma trim_ok:
  assumes "chunks_ok (rb_nextSeq b) (rb_chunks b)" "rb_totalBytes b = int (byte_sum (rb_chunks b))" "1 \<le> rb_nextSeq b"
  shows "ring_ok (trim b) \<and> rb_nextSeq (trim b) = rb_nextSeq b"
proof -
  let ?e = "evict (rb_maxBytes b) (rb_chunks b) (rb_totalBytes b)"
  let ?b = "b\<lparr>rb_chunks := fst ?e, rb_totalBytes := snd ?e\<rparr>"
  have "ring_ok ?b" using evict_spec[OF assms(1,2), of "rb_maxBytes b"] assms(3) by (auto simp: ring_ok_def)
  with healHead_ok[of ?b] show ?thesis by (simp add: trim_def case_prod_beta Let_def)
qed

lemma append_ok: "ring_ok b \<Longrightarrow> ring_ok (snd (append d b)) \<and> rb_nextSeq (snd (append d b)) = rb_nextSeq b + 1"
  unfolding append_def Let_def snd_conv
  by (subst trim_ok) (auto simp: ring_ok_def chunks_ok_snoc byte_sum_def trim_ok)

lemma clear_ok: "ring_ok (clear b)"
  by (simp add: clear_def ring_ok_def chunks_ok_def byte_sum_def)

lemma restore_ok: "ring_ok (restore seq body b)"
proof (cases "body = []")
  case True
  then show ?thesis by (simp add: restore_def clear_def ring_ok_def chunks_ok_def byte_sum_def)
next
  case False
  then show ?thesis
    by (auto simp: restore_def Let_def clear_def chunks_ok_def byte_sum_def intro!: trim_ok[THEN conjunct1])
qed

datatype ring_event = Append js_text | Clear | Restore int js_text

definition ring_step :: "ring_buffer \<Rightarrow> ring_event \<Rightarrow> ring_buffer" where
  "ring_step b ev = (case ev of Append d \<Rightarrow> snd (append d b) | Clear \<Rightarrow> clear b | Restore s t \<Rightarrow> restore s t b)"

lemma new_ring_ok: "ring_ok (new_ring m)"
  by (simp add: new_ring_def ring_ok_def chunks_ok_def byte_sum_def)

text \<open>
  The buffer's accounting holds whatever is appended, cleared and restored: the chunks carry
  consecutive sequence numbers that end just below the next one, each size is the UTF-8 length of
  its text, the total is their sum, and the total stays within the limit except for one chunk that is
  larger than the limit by itself.
\<close>

lemma ring_accounting:
  "ring_ok (foldl ring_step (new_ring m) evs)"
proof (rule foldl_invariant)
  fix ev b assume "ring_ok b"
  then show "ring_ok (ring_step b ev)" by (cases ev) (simp_all add: ring_step_def append_ok clear_ok restore_ok)
qed (rule new_ring_ok)

section \<open>What the buffer still knows\<close>








definition fed :: "nat option \<Rightarrow> js_text list \<Rightarrow> ring_buffer" where
  "fed m ds = foldl (\<lambda>b d. snd (append d b)) (new_ring m) ds"








text \<open>
  A reader that is one chunk short of the oldest one can lose output silently: the repair of the
  new head cut what followed in its stream, yet the snapshot is not marked as truncated.
\<close>

lemma replay_gap_unmarked:
  "let ds = [[0x68, 0x1B], ascii ''[2Jhi'']; shot = snapshot (Some 1) (fed (Some 5) ds)
   in sn_text shot = ascii ''hi'' \<and> \<not> sn_truncated shot \<and> concat (drop 1 ds) = ascii ''[2Jhi''"
  by code_simp

text \<open>
  The repair leaves well-formed output alone: text that begins with an escape, or with a unit that
  is neither torn encoding, a parameter byte nor a bracket, is kept as it is; and whatever the repair
  does, it only drops a prefix.
\<close>

lemma repair_keeps_clean:
  assumes "c = 0x1B \<or> c \<noteq> 0xFFFD \<and> \<not> high_surrogate c \<and> \<not> low_surrogate c \<and> \<not> param_unit c \<and> c \<noteq> 0x5B \<and> c \<noteq> 0x5D"
  shows "stripDanglingPrefix (c # cs) = c # cs \<and> suffix (stripDanglingPrefix s) s"
proof -
  have e: "\<not> high_surrogate 0x1B" "\<not> low_surrogate 0x1B" by (simp_all add: high_surrogate_def low_surrogate_def)
  have "skip_debris (c # cs) = c # cs" using assms e by (cases cs) auto
  moreover have "danglingEscapeTailLength (c # cs) = 0"
    using assms by (auto simp: danglingEscapeTailLength_def Let_def)
  ultimately show ?thesis using strip_suffix[of s] by (simp add: stripDanglingPrefix_def)
qed

theorem repair_keeps_clean_witness:
  "stripDanglingPrefix (ascii ''Claude 2m'') = ascii ''Claude 2m''"
proof -
  have a: "ascii ''Claude 2m'' = 0x43 # ascii ''laude 2m''" by (simp add: ascii_def)
  have "(0x43 :: code_unit) \<noteq> 0xFFFD" "\<not> high_surrogate 0x43" "\<not> low_surrogate 0x43" "\<not> param_unit 0x43"
    "(0x43 :: code_unit) \<noteq> 0x5B" "(0x43 :: code_unit) \<noteq> 0x5D" by code_simp+
  with repair_keeps_clean[of "0x43" "ascii ''laude 2m''"] show ?thesis unfolding a by blast
qed

end
