(* ===== verification/SessionTypes.thy ===== *)
theory SessionTypes
  imports JsValue RingBuffer
begin

text \<open>
  The data of the session host (\<open>session-host-core/src/types.ts\<close>): session records, clients,
  owners, terminations and request payloads. A field the interface marks as optional is an \<open>option\<close>.
  Records returned by the host are deep copies of its own, so a value type models them exactly.
\<close>

section \<open>Session records\<close>

datatype session_category = Cat_cli | Cat_acp | Cat_shell
datatype session_lifecycle = L_starting | L_running | L_stopping | L_stopped | L_failed | L_interrupted
datatype session_client_type = Ct_daemon | Ct_web | Ct_local_terminal
datatype session_owner_type = Own_agent | Own_user
datatype surface_kind = Live_runtime | Recovery_snapshot | Inactive_record
datatype stop_cause = Req_stop | Req_delete | Req_restart | Req_prune
datatype termination_reason = Term_exit | Term_signal | Term_failed | Term_unknown

record session_launch_command =
  lc_command :: string
  lc_args :: "string list"
  lc_env :: "(string \<times> string) list option"
  lc_launchOverrides :: bool

record session_write_owner =
  wo_clientId :: ident
  wo_ownerType :: session_owner_type
  wo_acquiredAt :: ms

record session_attached_client =
  cl_clientId :: ident
  cl_type :: session_client_type
  cl_readOnly :: bool
  cl_attachedAt :: ms
  cl_lastSeenAt :: ms

record session_termination =
  te_exitCode :: "int option"
  te_signal :: "int option"
  te_reason :: termination_reason
  te_lifecycle :: session_lifecycle
  te_terminatedAt :: ms
  te_osPid :: "int option"
  te_previousLifecycle :: "session_lifecycle option"
  te_lastOutputAt :: "ms option"
  te_requestedStop :: "stop_cause option"

text \<open>The transport of every session is \<open>'pty'\<close> and has no field here.\<close>

record session_record =
  sr_sessionId :: ident
  sr_runtimeKey :: string
  sr_displayName :: string
  sr_workspaceLabel :: string
  sr_providerType :: string
  sr_category :: session_category
  sr_workspace :: string
  sr_launchCommand :: session_launch_command
  sr_osPid :: "int option"
  sr_createdAt :: ms
  sr_startedAt :: "ms option"
  sr_lastActivityAt :: ms
  sr_lifecycle :: session_lifecycle
  sr_surfaceKind :: "surface_kind option"
  sr_writeOwner :: "session_write_owner option"
  sr_attachedClients :: "session_attached_client list"
  sr_scrollbackBytes :: int
  sr_snapshotSeq :: int
  sr_meta :: js_object
  sr_termination :: "session_termination option"
  sr_inputSeq :: "int option"
  sr_inputEpoch :: "string option"

record create_payload =
  cp_sessionId :: "ident option"
  cp_runtimeKey :: "string option"
  cp_displayName :: "string option"
  cp_providerType :: string
  cp_category :: session_category
  cp_workspace :: string
  cp_launchCommand :: session_launch_command
  cp_cols :: "rat option"
  cp_rows :: "rat option"
  cp_clientId :: "ident option"
  cp_clientType :: "session_client_type option"
  cp_meta :: "js_object option"

record attach_payload =
  ap_sessionId :: ident
  ap_clientId :: ident
  ap_clientType :: session_client_type
  ap_readOnly :: "bool option"

record incarnation =
  in_sessionId :: ident
  in_runtimeKey :: "string option"
  in_startedAt :: "rat option"

end
