(* ===== verification/SessionLabels.thy ===== *)
theory SessionLabels
  imports SessionTypes
begin

text \<open>
  \<open>session-host-core/src/runtime-labels.ts\<close> and \<open>defaults.ts\<close>: names and unique keys of runtimes, which
  records are live, and how a target the user types is resolved. \<open>path.basename\<close> is the POSIX one.
\<close>

section \<open>Terminal size\<close>

definition normalizeSessionHostDimension :: "rat option \<Rightarrow> int \<Rightarrow> int" where
  "normalizeSessionHostDimension value fallback =
     (case value of None \<Rightarrow> fallback | Some v \<Rightarrow> if floor v > 0 then floor v else fallback)"

definition resolveSessionHostCols :: "rat option \<Rightarrow> int" where
  "resolveSessionHostCols value = normalizeSessionHostDimension value 80"

definition resolveSessionHostRows :: "rat option \<Rightarrow> int" where
  "resolveSessionHostRows value = normalizeSessionHostDimension value 32"

section \<open>Names and keys\<close>

definition DASH :: char where "DASH = CHR ''-''"

definition slug_char :: "char \<Rightarrow> bool" where
  "slug_char c \<longleftrightarrow> (let n = of_char c :: nat in 97 \<le> n \<and> n \<le> 122 \<or> 48 \<le> n \<and> n \<le> 57)"

text \<open>\<open>replace(/[^a-z0-9]+/g, '-')\<close>: every maximal run of other characters becomes one dash.\<close>

function collapse :: "string \<Rightarrow> string" where
  "collapse [] = []"
| "collapse (c # s) =
     (if slug_char c then c # collapse s else DASH # collapse (dropWhile (\<lambda>x. \<not> slug_char x) s))"
  by pat_completeness auto
termination by (relation "measure length") (auto simp: le_imp_less_Suc length_dropWhile_le)

definition strip_dashes :: "string \<Rightarrow> string" where
  "strip_dashes s = rev (dropWhile (\<lambda>c. c = DASH) (rev (dropWhile (\<lambda>c. c = DASH) s)))"

definition normalizeSlug :: "string \<Rightarrow> string" where
  "normalizeSlug input = take 48 (strip_dashes (collapse (js_lower (js_trim input))))"

definition normalizeValue :: "string \<Rightarrow> string" where
  "normalizeValue input = js_lower (js_trim input)"

definition separator :: "char \<Rightarrow> bool" where
  "separator c \<longleftrightarrow> c \<in> {CHR ''/'', CHR 0x5C}"

definition getWorkspaceLabel :: "string \<Rightarrow> string" where
  "getWorkspaceLabel workspace =
     (let trimmed = js_trim workspace
      in if trimmed = [] then ''workspace''
         else let normalized = rev (dropWhile separator (rev trimmed)); base = last (split_on (CHR ''/'') normalized)
              in if base \<noteq> [] then base else normalized)"

text \<open>The first non-empty string of a chain of \<open>||\<close>.\<close>

fun first_truthy :: "string list \<Rightarrow> string" where
  "first_truthy [] = []"
| "first_truthy [s] = s"
| "first_truthy (s # t # ss) = (if s \<noteq> [] then s else first_truthy (t # ss))"

definition trimmed_or_empty :: "string option \<Rightarrow> string" where
  "trimmed_or_empty x = (case x of None \<Rightarrow> [] | Some s \<Rightarrow> js_trim s)"

definition buildRuntimeDisplayName :: "create_payload \<Rightarrow> string" where
  "buildRuntimeDisplayName p =
     (let explicit = trimmed_or_empty (cp_displayName p)
      in if explicit \<noteq> [] then explicit
         else first_truthy [js_trim (cp_providerType p), ''runtime''] @ '' @ '' @ getWorkspaceLabel (cp_workspace p))"

definition candidate :: "string \<Rightarrow> nat \<Rightarrow> string" where
  "candidate baseKey n = baseKey @ DASH # digits n"

lemma candidate_inj: "candidate b m = candidate b n \<longleftrightarrow> m = n"
  by (simp add: candidate_def digits_inj)

definition taken_from :: "string list \<Rightarrow> string \<Rightarrow> nat \<Rightarrow> nat set" where
  "taken_from existing b n = {k. n \<le> k \<and> candidate b k \<in> set existing}"

lemma taken_from_finite: "finite (taken_from existing b n)"
proof -
  have "inj_on (candidate b) (taken_from existing b n)" by (rule inj_onI) (simp add: candidate_inj)
  moreover have "candidate b ` taken_from existing b n \<subseteq> set existing" by (auto simp: taken_from_def)
  ultimately show ?thesis by (meson List.finite_set inj_on_finite)
qed

lemma taken_from_step: "candidate b n \<in> set existing \<Longrightarrow> taken_from existing b (Suc n) \<subset> taken_from existing b n"
proof -
  assume "candidate b n \<in> set existing"
  then have "n \<in> taken_from existing b n" "n \<notin> taken_from existing b (Suc n)" by (auto simp: taken_from_def)
  moreover have "taken_from existing b (Suc n) \<subseteq> taken_from existing b n" by (auto simp: taken_from_def)
  ultimately show ?thesis by blast
qed

text \<open>The loop over the suffixes ends because every number gives another key.\<close>

function free_key :: "string list \<Rightarrow> string \<Rightarrow> nat \<Rightarrow> string" where
  "free_key existing baseKey n =
     (if candidate baseKey n \<in> set existing then free_key existing baseKey (Suc n)
      else candidate baseKey n)"
  by pat_completeness auto
termination
  by (relation "measure (\<lambda>(existing, b, n). card (taken_from existing b n))")
    (auto intro!: psubset_card_mono taken_from_finite taken_from_step)

declare free_key.simps [simp del]

definition base_key :: "create_payload \<Rightarrow> string" where
  "base_key p = first_truthy [normalizeSlug (first_truthy
     [trimmed_or_empty (cp_runtimeKey p), buildRuntimeDisplayName p, getWorkspaceLabel (cp_workspace p),
      cp_providerType p, ''runtime'']), ''runtime'']"

definition buildRuntimeKey :: "create_payload \<Rightarrow> string list \<Rightarrow> string" where
  "buildRuntimeKey p existingKeys =
     (let existing = map js_lower existingKeys; baseKey = base_key p
      in if baseKey \<notin> set existing then baseKey else free_key existing baseKey 2)"

section \<open>Which records are live\<close>

definition LIVE_LIFECYCLES :: "session_lifecycle list" where
  "LIVE_LIFECYCLES = [L_starting, L_running, L_stopping, L_interrupted]"

definition TERMINAL_LIFECYCLES :: "session_lifecycle list" where
  "TERMINAL_LIFECYCLES = [L_stopped, L_failed]"

definition isTerminalRecord :: "session_record option \<Rightarrow> bool" where
  "isTerminalRecord r = (case r of None \<Rightarrow> False
     | Some r \<Rightarrow> sr_termination r \<noteq> None \<or> sr_lifecycle r \<in> set TERMINAL_LIFECYCLES)"

definition isSessionHostLiveRuntime :: "session_record option \<Rightarrow> bool" where
  "isSessionHostLiveRuntime r = (case r of None \<Rightarrow> False
     | Some r \<Rightarrow>
         (case sr_surfaceKind r of
            Some k \<Rightarrow> k = Live_runtime
          | None \<Rightarrow> sr_termination r = None \<and> sr_lifecycle r \<in> set LIVE_LIFECYCLES))"

definition getSessionHostRecoveryLabel :: "js_object \<Rightarrow> string option" where
  "getSessionHostRecoveryLabel meta =
     (let recoveryState = (case as_string (map_of meta ''runtimeRecoveryState'') of Some s \<Rightarrow> js_trim s | None \<Rightarrow> [])
      in if recoveryState = [] then None
         else if recoveryState = ''auto_resumed'' then Some ''restored after restart''
         else if recoveryState = ''resume_failed'' then Some ''restore failed''
         else if recoveryState = ''host_restart_interrupted'' then Some ''host restart interrupted''
         else if recoveryState = ''orphan_snapshot'' then Some ''snapshot recovered''
         else Some (map (\<lambda>c. if c = CHR ''_'' then CHR '' '' else c) recoveryState))"

definition isSessionHostRecoverySnapshot :: "session_record option \<Rightarrow> bool" where
  "isSessionHostRecoverySnapshot r = (case r of None \<Rightarrow> False
     | Some q \<Rightarrow>
         if sr_surfaceKind q = Some Recovery_snapshot then True
         else if sr_surfaceKind q \<in> {Some Live_runtime, Some Inactive_record} then False
         else if isSessionHostLiveRuntime r then False
         else if sr_lifecycle q \<noteq> L_stopped \<and> sr_lifecycle q \<noteq> L_failed then False
         else if map_of (sr_meta q) ''restoredFromStorage'' = Some (JBool True) then True
         else getSessionHostRecoveryLabel (sr_meta q) \<noteq> None)"

definition getSessionHostSurfaceKind :: "session_record option \<Rightarrow> surface_kind" where
  "getSessionHostSurfaceKind r =
     (case Option.bind r sr_surfaceKind of
        Some k \<Rightarrow> k
      | None \<Rightarrow> if isSessionHostLiveRuntime r then Live_runtime
               else if isSessionHostRecoverySnapshot r then Recovery_snapshot
               else Inactive_record)"

record partition =
  pt_liveRuntimes :: "session_record list"
  pt_recoverySnapshots :: "session_record list"
  pt_inactiveRecords :: "session_record list"

definition place :: "partition \<Rightarrow> session_record \<Rightarrow> partition" where
  "place p r = (case getSessionHostSurfaceKind (Some r) of
       Live_runtime \<Rightarrow> p\<lparr>pt_liveRuntimes := pt_liveRuntimes p @ [r]\<rparr>
     | Recovery_snapshot \<Rightarrow> p\<lparr>pt_recoverySnapshots := pt_recoverySnapshots p @ [r]\<rparr>
     | Inactive_record \<Rightarrow> p\<lparr>pt_inactiveRecords := pt_inactiveRecords p @ [r]\<rparr>)"

definition partitionSessionHostRecords :: "session_record list \<Rightarrow> partition" where
  "partitionSessionHostRecords records =
     foldl place \<lparr>pt_liveRuntimes = [], pt_recoverySnapshots = [], pt_inactiveRecords = []\<rparr> records"

definition partitionSessionHostDiagnosticsSessions :: "session_record list option \<Rightarrow> partition" where
  "partitionSessionHostDiagnosticsSessions records =
     partitionSessionHostRecords (case records of None \<Rightarrow> [] | Some rs \<Rightarrow> rs)"

section \<open>Targets\<close>

datatype target_error =
  Target_required | Target_unknown string | Target_ambiguous "(string \<times> ident) list"
  | Target_is_snapshot string | Target_not_live string session_lifecycle

definition uniqueMatch :: "session_record list \<Rightarrow> (session_record \<Rightarrow> bool) \<Rightarrow> target_error + session_record option" where
  "uniqueMatch records predicate =
     (case filter predicate records of
        [] \<Rightarrow> Inr None
      | [r] \<Rightarrow> Inr (Some r)
      | matches \<Rightarrow> Inl (Target_ambiguous (map (\<lambda>r. (sr_runtimeKey r, sr_sessionId r)) matches)))"

definition exact_target :: "string \<Rightarrow> session_record \<Rightarrow> bool" where
  "exact_target target r \<longleftrightarrow>
     sr_sessionId r = target \<or> normalizeValue (sr_runtimeKey r) = normalizeValue target
     \<or> normalizeValue (sr_displayName r) = normalizeValue target"

definition prefix_target :: "string \<Rightarrow> session_record \<Rightarrow> bool" where
  "prefix_target target r \<longleftrightarrow>
     starts_with target (sr_sessionId r) \<or> starts_with (normalizeValue target) (normalizeValue (sr_runtimeKey r))"

definition resolveRuntimeRecord :: "session_record list \<Rightarrow> string \<Rightarrow> target_error + session_record" where
  "resolveRuntimeRecord records identifier =
     (let target = js_trim identifier
      in if target = [] then Inl Target_required
         else case uniqueMatch records (exact_target target) of
                Inl e \<Rightarrow> Inl e
              | Inr (Some r) \<Rightarrow> Inr r
              | Inr None \<Rightarrow>
                  (case uniqueMatch records (prefix_target target) of
                     Inl e \<Rightarrow> Inl e
                   | Inr (Some r) \<Rightarrow> Inr r
                   | Inr None \<Rightarrow> Inl (Target_unknown target)))"

definition resolveAttachableRuntimeRecord :: "session_record list \<Rightarrow> string \<Rightarrow> target_error + session_record" where
  "resolveAttachableRuntimeRecord records identifier =
     (case resolveRuntimeRecord records identifier of
        Inl e \<Rightarrow> Inl e
      | Inr r \<Rightarrow>
          (case getSessionHostSurfaceKind (Some r) of
             Live_runtime \<Rightarrow> Inr r
           | Recovery_snapshot \<Rightarrow> Inl (Target_is_snapshot (sr_runtimeKey r))
           | Inactive_record \<Rightarrow> Inl (Target_not_live (sr_runtimeKey r) (sr_lifecycle r))))"

definition formatRuntimeOwner :: "session_record \<Rightarrow> string" where
  "formatRuntimeOwner r =
     (case sr_writeOwner r of
        None \<Rightarrow> ''none''
      | Some w \<Rightarrow> (case wo_ownerType w of Own_agent \<Rightarrow> ''agent'' | Own_user \<Rightarrow> ''user'') @ '':'' @ wo_clientId w)"

section \<open>The shape of keys\<close>

lemma lower_slug_char: "slug_char c \<Longrightarrow> js_lower_char c = c"
  by (auto simp: slug_char_def js_lower_char_def Let_def)

lemma lower_dash: "js_lower_char DASH = DASH"
  by (simp add: DASH_def js_lower_char_def)

definition key_char :: "char \<Rightarrow> bool" where
  "key_char c \<longleftrightarrow> slug_char c \<or> c = DASH"

lemma lower_key: "list_all key_char s \<Longrightarrow> js_lower s = s"
  unfolding js_lower_def by (induction s) (auto simp: key_char_def lower_slug_char lower_dash)

lemma digits_key: "list_all key_char (digits n)"
proof (induction n rule: digits.induct)
  case (1 n)
  have "key_char (char_of (48 + k))" if "k < 10" for k :: nat
    using that by (simp add: key_char_def slug_char_def)
  with 1 show ?case by (subst digits.simps) simp
qed

lemma collapse_key: "list_all key_char (collapse s)"
  by (induction s rule: collapse.induct) (auto simp: key_char_def)

lemma dropWhile_all: "list_all P s \<Longrightarrow> list_all P (dropWhile Q s)"
  by (induction s) auto

lemma slug_key: "list_all key_char (normalizeSlug s)"
  unfolding normalizeSlug_def strip_dashes_def list.pred_set
  by (intro ballI) (auto dest!: in_set_takeD set_dropWhileD
      simp: collapse_key[unfolded list.pred_set, rule_format])

lemma base_key_shape: "list_all key_char (base_key p) \<and> base_key p \<noteq> []"
  using slug_key by (auto simp: base_key_def key_char_def slug_char_def)

lemma candidate_key: "list_all key_char b \<Longrightarrow> list_all key_char (candidate b n)"
  by (simp add: candidate_def digits_key key_char_def)

lemma free_key_spec:
  "\<exists>m\<ge>n. free_key existing b n = candidate b m \<and> candidate b m \<notin> set existing
     \<and> (\<forall>k. n \<le> k \<and> k < m \<longrightarrow> candidate b k \<in> set existing)"
proof (induction existing b n rule: free_key.induct)
  case (1 existing b n)
  show ?case
  proof (cases "candidate b n \<in> set existing")
    case True
    then obtain m where "Suc n \<le> m" "free_key existing b (Suc n) = candidate b m" "candidate b m \<notin> set existing"
      "\<forall>k. Suc n \<le> k \<and> k < m \<longrightarrow> candidate b k \<in> set existing" using 1 by blast
    moreover from this True have "\<forall>k. n \<le> k \<and> k < m \<longrightarrow> candidate b k \<in> set existing"
      by (metis le_antisym not_less_eq_eq)
    ultimately show ?thesis using True by (subst free_key.simps) (auto intro!: exI[of _ m])
  qed (subst free_key.simps, auto)
qed

text \<open>
  A new runtime gets a key of its own. The search for a free suffix ends, and the key differs
  from every existing key whatever their capitals, is not empty, consists of lower-case letters,
  digits and dashes, and is the plain base key or the base key with the least free number from 2 on.
\<close>

lemma runtime_key_fresh:
  "let key = buildRuntimeKey p ks; existing = map js_lower ks
   in js_lower key \<notin> set existing \<and> key \<noteq> [] \<and> list_all key_char key
      \<and> (key = base_key p \<or> base_key p \<in> set existing
           \<and> (\<exists>m\<ge>2. key = candidate (base_key p) m \<and> list_all (\<lambda>k. candidate (base_key p) k \<in> set existing) [2..<m]))"
proof (cases "base_key p \<in> set (map js_lower ks)")
  case True
  obtain m where m: "2 \<le> m" "free_key (map js_lower ks) (base_key p) 2 = candidate (base_key p) m"
    "candidate (base_key p) m \<notin> set (map js_lower ks)"
    "\<forall>k. 2 \<le> k \<and> k < m \<longrightarrow> candidate (base_key p) k \<in> set (map js_lower ks)"
    using free_key_spec by blast
  then have key: "buildRuntimeKey p ks = candidate (base_key p) m" using True by (simp add: buildRuntimeKey_def)
  have shape: "list_all key_char (candidate (base_key p) m)" using base_key_shape candidate_key by blast
  have "candidate (base_key p) m \<noteq> []" by (simp add: candidate_def)
  with m True shape lower_key[OF shape] show ?thesis
    unfolding key Let_def list_all_iff by (auto intro!: exI[of _ m])
next
  case False
  then have "buildRuntimeKey p ks = base_key p" by (simp add: buildRuntimeKey_def)
  with False base_key_shape[of p] lower_key show ?thesis by (simp add: Let_def)
qed

section \<open>What can be attached\<close>

lemma uniqueMatch_found: "uniqueMatch rs P = Inr (Some r) \<longleftrightarrow> filter P rs = [r]"
  by (auto simp: uniqueMatch_def split: list.splits)

lemma uniqueMatch_none: "uniqueMatch rs P = Inr None \<longleftrightarrow> filter P rs = []"
  by (auto simp: uniqueMatch_def split: list.splits)

lemma uniqueMatch_ambiguous: "uniqueMatch rs P = Inl e \<Longrightarrow> filter P rs \<noteq> [] \<and> filter P rs \<noteq> [r]"
  by (auto simp: uniqueMatch_def split: list.splits)

lemma filter_singleD: "filter P rs = [r] \<Longrightarrow> r \<in> set rs \<and> P r"
proof -
  assume "filter P rs = [r]"
  then have "r \<in> set (filter P rs)" by simp
  then show ?thesis by simp
qed

lemma resolveRuntimeRecord_found:
  "resolveRuntimeRecord rs i = Inr r \<longleftrightarrow>
     js_trim i \<noteq> [] \<and> (filter (exact_target (js_trim i)) rs = [r]
       \<or> filter (exact_target (js_trim i)) rs = [] \<and> filter (prefix_target (js_trim i)) rs = [r])"
  unfolding resolveRuntimeRecord_def Let_def
  by (auto simp: uniqueMatch_found uniqueMatch_none dest: uniqueMatch_ambiguous split: sum.splits option.splits)

text \<open>
  Only a live runtime is an attach target, and it is the one the user named: it is the only record
  that matches the trimmed name exactly, or nothing does and it is the only one it is a prefix of. Unless
  the host itself has labelled the record, it has no termination stamp and its life cycle is not a
  terminal one.
\<close>

lemma attach_target_live:
  assumes "resolveAttachableRuntimeRecord rs i = Inr r"
  shows "r \<in> set rs
    \<and> (filter (exact_target (js_trim i)) rs = [r]
       \<or> filter (exact_target (js_trim i)) rs = [] \<and> filter (prefix_target (js_trim i)) rs = [r])
    \<and> (sr_surfaceKind r = Some Live_runtime \<or> sr_surfaceKind r = None \<and> \<not> isTerminalRecord (Some r))"
proof -
  have f: "resolveRuntimeRecord rs i = Inr r" and k: "getSessionHostSurfaceKind (Some r) = Live_runtime"
    using assms by (auto simp: resolveAttachableRuntimeRecord_def split: sum.splits surface_kind.splits)
  have "sr_surfaceKind r = Some Live_runtime \<or> sr_surfaceKind r = None \<and> \<not> isTerminalRecord (Some r)"
    using k by (auto simp: getSessionHostSurfaceKind_def isSessionHostLiveRuntime_def isTerminalRecord_def
        LIVE_LIFECYCLES_def TERMINAL_LIFECYCLES_def split: option.splits if_splits)
  with f show ?thesis by (auto simp: resolveRuntimeRecord_found dest: filter_singleD)
qed

definition demo_record :: "ident \<Rightarrow> string \<Rightarrow> session_lifecycle \<Rightarrow> session_record" where
  "demo_record sid key l = \<lparr>sr_sessionId = sid, sr_runtimeKey = key, sr_displayName = key, sr_workspaceLabel = ''w'',
     sr_providerType = ''cli'', sr_category = Cat_cli, sr_workspace = ''/w'',
     sr_launchCommand = \<lparr>lc_command = ''sh'', lc_args = [], lc_env = None, lc_launchOverrides = False\<rparr>, sr_osPid = None,
     sr_createdAt = 1, sr_startedAt = Some 1, sr_lastActivityAt = 1, sr_lifecycle = l, sr_surfaceKind = None,
     sr_writeOwner = None, sr_attachedClients = [], sr_scrollbackBytes = 0, sr_snapshotSeq = 0, sr_meta = [],
     sr_termination = None, sr_inputSeq = Some 0, sr_inputEpoch = Some ''old:3''\<rparr>"

theorem attach_target_live_witness:
  "\<not> isTerminalRecord (Some (demo_record ''s1'' ''claude'' L_running))"
proof -
  have "resolveAttachableRuntimeRecord [demo_record ''s0'' ''codex'' L_stopped, demo_record ''s1'' ''claude'' L_running] '' CLA ''
      = Inr (demo_record ''s1'' ''claude'' L_running)" by code_simp
  from attach_target_live[OF this] show ?thesis by (simp add: demo_record_def)
qed

lemma place_fold:
  "foldl place p rs = \<lparr>
     pt_liveRuntimes = pt_liveRuntimes p @ filter (\<lambda>r. getSessionHostSurfaceKind (Some r) = Live_runtime) rs,
     pt_recoverySnapshots = pt_recoverySnapshots p @ filter (\<lambda>r. getSessionHostSurfaceKind (Some r) = Recovery_snapshot) rs,
     pt_inactiveRecords = pt_inactiveRecords p @ filter (\<lambda>r. getSessionHostSurfaceKind (Some r) = Inactive_record) rs\<rparr>"
  by (induction rs arbitrary: p) (simp_all add: place_def split: surface_kind.splits)

end
