(* ===== verification/SessionRegistry.thy ===== *)
theory SessionRegistry
  imports SessionLabels
begin

text \<open>
  \<open>session-host-core/src/registry.ts\<close>: the table of sessions a host keeps, with the attached clients, the
  write owner, the input counter and the output buffer of each. An operation that throws returns the
  error; every throw of the source happens before the first change, so the registry is then as it was.
  A generated identifier and the time are arguments; one reading of the clock stands for all
  readings of one synchronous call. The returned record is a copy in the source and a value here.
\<close>

record session_state =
  ss_record :: session_record
  ss_buffer :: ring_buffer

record registry =
  rg_sessions :: "(ident \<times> session_state) list"
  rg_lifetimeId :: string
  rg_epochCounter :: nat

definition new_registry :: "string \<Rightarrow> registry" where
  "new_registry lifetimeId = \<lparr>rg_sessions = [], rg_lifetimeId = lifetimeId, rg_epochCounter = 0\<rparr>"

datatype registry_error =
  Session_exists ident | Unknown_session ident | Incarnation_changed ident | Write_owned ident | Invalid_census

section \<open>Operations\<close>

definition epoch_name :: "string \<Rightarrow> nat \<Rightarrow> string" where
  "epoch_name lifetimeId n = lifetimeId @ '':'' @ digits n"

definition mintInputEpoch :: "registry \<Rightarrow> string \<times> registry" where
  "mintInputEpoch r =
     (let n = rg_epochCounter r + 1 in (epoch_name (rg_lifetimeId r) n, r\<lparr>rg_epochCounter := n\<rparr>))"

definition find_session :: "ident \<Rightarrow> registry \<Rightarrow> session_state option" where
  "find_session sid r = map_of (rg_sessions r) sid"

definition set_session :: "ident \<Rightarrow> session_state \<Rightarrow> registry \<Rightarrow> registry" where
  "set_session sid s r = r\<lparr>rg_sessions := AList.update sid s (rg_sessions r)\<rparr>"

definition initial_client :: "create_payload \<Rightarrow> ms \<Rightarrow> session_attached_client list" where
  "initial_client p now =
     (if truthy (cp_clientId p)
      then [\<lparr>cl_clientId = the (cp_clientId p), cl_type = (case cp_clientType p of Some t \<Rightarrow> t | None \<Rightarrow> Ct_daemon),
             cl_readOnly = False, cl_attachedAt = now, cl_lastSeenAt = now\<rparr>]
      else [])"

definition created_record :: "create_payload \<Rightarrow> ident \<Rightarrow> string list \<Rightarrow> string \<Rightarrow> ms \<Rightarrow> session_record" where
  "created_record p sid existing inputEpoch now = \<lparr>
     sr_sessionId = sid, sr_runtimeKey = buildRuntimeKey p existing,
     sr_displayName = buildRuntimeDisplayName p, sr_workspaceLabel = getWorkspaceLabel (cp_workspace p),
     sr_providerType = cp_providerType p, sr_category = cp_category p, sr_workspace = cp_workspace p,
     sr_launchCommand = cp_launchCommand p, sr_osPid = None, sr_createdAt = now, sr_startedAt = None,
     sr_lastActivityAt = now, sr_lifecycle = L_starting, sr_surfaceKind = None, sr_writeOwner = None,
     sr_attachedClients = initial_client p now, sr_scrollbackBytes = 0, sr_snapshotSeq = 0,
     sr_meta = spread [(''sessionHostCols'', JNum (of_int (resolveSessionHostCols (cp_cols p)))),
                       (''sessionHostRows'', JNum (of_int (resolveSessionHostRows (cp_rows p))))]
                 (case cp_meta p of Some m \<Rightarrow> m | None \<Rightarrow> []),
     sr_termination = None, sr_inputSeq = Some 0, sr_inputEpoch = Some inputEpoch\<rparr>"

definition createSession :: "create_payload \<Rightarrow> ident \<Rightarrow> ms \<Rightarrow> registry \<Rightarrow> registry_error + session_record \<times> registry" where
  "createSession p uuid now r =
     (let sid = (if truthy (cp_sessionId p) then the (cp_sessionId p) else uuid)
      in if find_session sid r \<noteq> None then Inl (Session_exists sid)
         else let (inputEpoch, r') = mintInputEpoch r;
                  rec = created_record p sid (map (\<lambda>(_, s). sr_runtimeKey (ss_record s)) (rg_sessions r)) inputEpoch now
              in Inr (rec, set_session sid \<lparr>ss_record = rec, ss_buffer = new_ring None\<rparr> r'))"

definition or_zero :: "int option \<Rightarrow> int" where
  "or_zero x = (case x of Some n \<Rightarrow> n | None \<Rightarrow> 0)"

definition sameLifetime :: "session_record \<Rightarrow> registry \<Rightarrow> bool" where
  "sameLifetime rec r =
     (case find_session (sr_sessionId rec) r of
        None \<Rightarrow> False
      | Some live \<Rightarrow> sr_inputEpoch (ss_record live) \<noteq> None
          \<and> sr_inputEpoch rec = sr_inputEpoch (ss_record live)
          \<and> or_zero (sr_inputSeq rec) \<ge> or_zero (sr_inputSeq (ss_record live)))"

definition restoreSession :: "session_record \<Rightarrow> (int \<times> js_text) option \<Rightarrow> registry \<Rightarrow> session_record \<times> registry" where
  "restoreSession record shot r =
     (let counted = record\<lparr>sr_inputSeq := Some (or_zero (sr_inputSeq record))\<rparr>;
          (cloned, r') = (if sameLifetime record r then (counted, r)
                          else let (inputEpoch, r') = mintInputEpoch r in (counted\<lparr>sr_inputEpoch := Some inputEpoch\<rparr>, r'));
          buf = (case shot of Some (seq, body) \<Rightarrow> restore seq body (new_ring None) | None \<Rightarrow> new_ring None)
      in (cloned, set_session (sr_sessionId cloned) \<lparr>ss_record = cloned, ss_buffer = buf\<rparr> r'))"

definition ended :: "session_record \<Rightarrow> bool" where
  "ended rec \<longleftrightarrow> sr_termination rec \<noteq> None \<or> sr_lifecycle rec = L_stopped \<or> sr_lifecycle rec = L_failed"

definition summary :: "session_record \<Rightarrow> session_record" where
  "summary rec = rec\<lparr>
     sr_launchCommand := \<lparr>lc_command = lc_command (sr_launchCommand rec), lc_args = [], lc_env = None, lc_launchOverrides = False\<rparr>,
     sr_meta := (if ended rec then []
                 else spread (sr_meta rec) [(''cliArgs'', JArr []), (''cliArgsOmitted'', JBool True)])\<rparr>"

definition listSessionSummaries :: "bool \<Rightarrow> registry \<Rightarrow> session_record list" where
  "listSessionSummaries activeOnly r =
     sort_key (\<lambda>rec. - sr_lastActivityAt rec)
       (map summary (filter (\<lambda>rec. \<not> activeOnly \<or> \<not> ended rec) (map (\<lambda>(_, s). ss_record s) (rg_sessions r))))"

definition listSessions :: "registry \<Rightarrow> session_record list" where
  "listSessions r = sort_key (\<lambda>rec. - sr_lastActivityAt rec) (map (\<lambda>(_, s). ss_record s) (rg_sessions r))"

definition census_ids :: "js_value \<Rightarrow> string list option" where
  "census_ids v =
     (case v of
        JArr ids \<Rightarrow>
          if length ids > 128 \<or> list_ex (\<lambda>x. case x of JStr s \<Rightarrow> s = [] \<or> length s > 256 | _ \<Rightarrow> True) ids then None
          else Some (map (\<lambda>x. case x of JStr s \<Rightarrow> s | _ \<Rightarrow> []) ids)
      | _ \<Rightarrow> None)"

definition census_live :: "session_record \<Rightarrow> bool" where
  "census_live rec \<longleftrightarrow>
     sr_category rec = Cat_cli \<and> sr_termination rec = None
     \<and> sr_lifecycle rec \<in> {L_starting, L_running, L_stopping, L_interrupted}"

definition role_marked :: "session_record \<Rightarrow> bool" where
  "role_marked rec \<longleftrightarrow>
     (let launch = map_of (sr_meta rec) ''launchRecord''
      in map_of (sr_meta rec) ''assistant'' = Some (JBool True)
         \<or> member launch ''launchedBy'' = Some (JStr ''assistant'')
         \<or> member (member launch ''roleLaunch'') ''role'' = Some (JStr ''assistant''))"

definition getSessionCensus :: "js_value \<Rightarrow> registry \<Rightarrow> registry_error + ident list \<times> bool" where
  "getSessionCensus sessionIds r =
     (case census_ids sessionIds of
        None \<Rightarrow> Inl Invalid_census
      | Some requested \<Rightarrow>
          let live = filter census_live (map (\<lambda>(_, s). ss_record s) (rg_sessions r))
          in Inr (map sr_sessionId (filter (\<lambda>rec. sr_sessionId rec \<in> set requested) live),
                  list_ex (\<lambda>rec. sr_sessionId rec \<notin> set requested \<and> role_marked rec) live))"

definition getSession :: "ident \<Rightarrow> registry \<Rightarrow> session_record option" where
  "getSession sid r = map_option ss_record (find_session sid r)"

text \<open>\<open>requireSession\<close> followed by a change of the session in place.\<close>

definition on_session :: "ident \<Rightarrow> (session_state \<Rightarrow> session_state) \<Rightarrow> registry \<Rightarrow> registry_error + session_record \<times> registry" where
  "on_session sid f r =
     (case find_session sid r of
        None \<Rightarrow> Inl (Unknown_session sid)
      | Some s \<Rightarrow> Inr (ss_record (f s), set_session sid (f s) r))"

definition upd_record :: "(session_record \<Rightarrow> session_record) \<Rightarrow> session_state \<Rightarrow> session_state" where
  "upd_record f s = s\<lparr>ss_record := f (ss_record s)\<rparr>"

fun update_first :: "('a \<Rightarrow> bool) \<Rightarrow> ('a \<Rightarrow> 'a) \<Rightarrow> 'a list \<Rightarrow> 'a list" where
  "update_first P f [] = []"
| "update_first P f (x # xs) = (if P x then f x # xs else x # update_first P f xs)"

definition stale_daemon :: "ident \<Rightarrow> session_attached_client \<Rightarrow> bool" where
  "stale_daemon clientId c \<longleftrightarrow> cl_type c = Ct_daemon \<and> cl_clientId c \<noteq> clientId"

definition attach_record :: "attach_payload \<Rightarrow> ms \<Rightarrow> session_record \<Rightarrow> session_record" where
  "attach_record p now rec =
     (let cid = ap_clientId p; ro = (ap_readOnly p = Some True);
          stale = (if ap_clientType p = Ct_daemon
                   then map cl_clientId (filter (stale_daemon cid) (sr_attachedClients rec)) else []);
          removedDaemonOwner = (case sr_writeOwner rec of Some w \<Rightarrow> wo_clientId w \<in> set stale | None \<Rightarrow> False);
          clients = (if stale \<noteq> [] then filter (\<lambda>c. \<not> stale_daemon cid c) (sr_attachedClients rec) else sr_attachedClients rec);
          clients' = (if list_ex (\<lambda>c. cl_clientId c = cid) clients
                      then update_first (\<lambda>c. cl_clientId c = cid)
                             (\<lambda>c. c\<lparr>cl_type := ap_clientType p, cl_readOnly := ro, cl_lastSeenAt := now\<rparr>) clients
                      else clients @ [\<lparr>cl_clientId = cid, cl_type = ap_clientType p, cl_readOnly = ro,
                                       cl_attachedAt = now, cl_lastSeenAt = now\<rparr>])
      in rec\<lparr>sr_attachedClients := clients',
             sr_writeOwner := (if removedDaemonOwner then None else sr_writeOwner rec),
             sr_lastActivityAt := now\<rparr>)"

definition attachClient :: "attach_payload \<Rightarrow> ms \<Rightarrow> registry \<Rightarrow> registry_error + session_record \<times> registry" where
  "attachClient p now r = on_session (ap_sessionId p) (upd_record (attach_record p now)) r"

definition incarnation_matches :: "incarnation option \<Rightarrow> session_record \<Rightarrow> bool" where
  "incarnation_matches expected rec =
     (case expected of
        None \<Rightarrow> False
      | Some e \<Rightarrow> in_sessionId e = sr_sessionId rec \<and> truthy (in_runtimeKey e)
          \<and> (case in_startedAt e of None \<Rightarrow> False | Some t \<Rightarrow> t > 0 \<and> Some t = map_option of_int (sr_startedAt rec))
          \<and> in_runtimeKey e = Some (sr_runtimeKey rec))"

definition attachClientIfIncarnation ::
  "attach_payload \<Rightarrow> incarnation option \<Rightarrow> ms \<Rightarrow> registry \<Rightarrow> registry_error + session_record \<times> registry" where
  "attachClientIfIncarnation p expected now r =
     (case getSession (ap_sessionId p) r of
        None \<Rightarrow> Inl (Unknown_session (ap_sessionId p))
      | Some rec \<Rightarrow> if incarnation_matches expected rec then attachClient p now r
                   else Inl (Incarnation_changed (ap_sessionId p)))"

definition owned_by :: "ident \<Rightarrow> session_record \<Rightarrow> bool" where
  "owned_by clientId rec \<longleftrightarrow> map_option wo_clientId (sr_writeOwner rec) = Some clientId"

definition disown :: "ident \<Rightarrow> session_record \<Rightarrow> session_write_owner option" where
  "disown clientId rec = (if owned_by clientId rec then None else sr_writeOwner rec)"

definition detachClient :: "ident \<Rightarrow> ident \<Rightarrow> ms \<Rightarrow> registry \<Rightarrow> registry_error + session_record \<times> registry" where
  "detachClient sid clientId now r = on_session sid (upd_record (\<lambda>rec. rec\<lparr>
     sr_attachedClients := filter (\<lambda>c. cl_clientId c \<noteq> clientId) (sr_attachedClients rec),
     sr_writeOwner := disown clientId rec, sr_lastActivityAt := now\<rparr>)) r"

text \<open>The input counter; a record always has an epoch here, the other branch is the one of old records.\<close>

definition with_epoch :: "session_record \<Rightarrow> registry \<Rightarrow> string \<times> registry" where
  "with_epoch rec r = (case sr_inputEpoch rec of Some e \<Rightarrow> (e, r) | None \<Rightarrow> mintInputEpoch r)"

definition recordInput :: "ident \<Rightarrow> registry \<Rightarrow> registry_error + int \<times> registry" where
  "recordInput sid r =
     (case find_session sid r of
        None \<Rightarrow> Inl (Unknown_session sid)
      | Some s \<Rightarrow>
          let seq = or_zero (sr_inputSeq (ss_record s)) + 1; (e, r') = with_epoch (ss_record s) r
          in Inr (seq, set_session sid (upd_record (\<lambda>rec. rec\<lparr>sr_inputSeq := Some seq, sr_inputEpoch := Some e\<rparr>) s) r'))"

definition getInputState :: "ident \<Rightarrow> registry \<Rightarrow> registry_error + (int \<times> string) \<times> registry" where
  "getInputState sid r =
     (case find_session sid r of
        None \<Rightarrow> Inl (Unknown_session sid)
      | Some s \<Rightarrow>
          let seq = or_zero (sr_inputSeq (ss_record s)); (e, r') = with_epoch (ss_record s) r
          in Inr ((seq, e), set_session sid (upd_record (\<lambda>rec. rec\<lparr>sr_inputSeq := Some seq, sr_inputEpoch := Some e\<rparr>) s) r'))"

definition see_client :: "ident \<Rightarrow> ms \<Rightarrow> session_attached_client list \<Rightarrow> session_attached_client list" where
  "see_client clientId now =
     update_first (\<lambda>c. cl_clientId c = clientId) (\<lambda>c. c\<lparr>cl_readOnly := False, cl_lastSeenAt := now\<rparr>)"

definition other_owner :: "ident \<Rightarrow> session_record \<Rightarrow> ident option" where
  "other_owner clientId rec =
     (case sr_writeOwner rec of
        Some w \<Rightarrow> if wo_clientId w \<noteq> clientId then Some (wo_clientId w) else None
      | None \<Rightarrow> None)"

definition own :: "ident \<Rightarrow> session_owner_type \<Rightarrow> ms \<Rightarrow> session_record \<Rightarrow> session_record" where
  "own clientId ownerType now rec = rec\<lparr>
     sr_attachedClients := see_client clientId now (sr_attachedClients rec),
     sr_writeOwner := Some \<lparr>wo_clientId = clientId, wo_ownerType = ownerType, wo_acquiredAt = now\<rparr>,
     sr_lastActivityAt := now\<rparr>"

definition acquireWrite :: "ident \<Rightarrow> ident \<Rightarrow> session_owner_type \<Rightarrow> bool \<Rightarrow> ms \<Rightarrow> registry
    \<Rightarrow> registry_error + session_record \<times> registry" where
  "acquireWrite sid clientId ownerType force now r =
     (case Option.bind (getSession sid r) (other_owner clientId) of
        Some other \<Rightarrow> if force then on_session sid (upd_record (own clientId ownerType now)) r else Inl (Write_owned other)
      | None \<Rightarrow> on_session sid (upd_record (own clientId ownerType now)) r)"

definition releaseWrite :: "ident \<Rightarrow> ident \<Rightarrow> ms \<Rightarrow> registry \<Rightarrow> registry_error + session_record \<times> registry" where
  "releaseWrite sid clientId now r = on_session sid (upd_record (\<lambda>rec. rec\<lparr>
     sr_attachedClients := see_client clientId now (sr_attachedClients rec),
     sr_writeOwner := disown clientId rec, sr_lastActivityAt := now\<rparr>)) r"

definition sync_buffer :: "session_state \<Rightarrow> session_state" where
  "sync_buffer s = upd_record (\<lambda>rec. rec\<lparr>sr_scrollbackBytes := fst (getState (ss_buffer s)),
     sr_snapshotSeq := snd (getState (ss_buffer s))\<rparr>) s"

definition touched :: "ms \<Rightarrow> session_state \<Rightarrow> session_state" where
  "touched now = upd_record (\<lambda>rec. rec\<lparr>sr_lastActivityAt := now\<rparr>)"

definition appendOutput :: "ident \<Rightarrow> js_text \<Rightarrow> ms \<Rightarrow> registry
    \<Rightarrow> registry_error + (session_record \<times> int) \<times> registry" where
  "appendOutput sid data now r =
     (case find_session sid r of
        None \<Rightarrow> Inl (Unknown_session sid)
      | Some s \<Rightarrow>
          let (seq, buf) = append data (ss_buffer s); s' = touched now (sync_buffer (s\<lparr>ss_buffer := buf\<rparr>))
          in Inr ((ss_record s', seq), set_session sid s' r))"

definition getSnapshot :: "ident \<Rightarrow> int option \<Rightarrow> registry \<Rightarrow> registry_error + buffer_snapshot \<times> registry" where
  "getSnapshot sid sinceSeq r =
     (case find_session sid r of
        None \<Rightarrow> Inl (Unknown_session sid)
      | Some s \<Rightarrow> Inr (snapshot sinceSeq (ss_buffer s), set_session sid (sync_buffer s) r))"

definition clearBuffer :: "ident \<Rightarrow> ms \<Rightarrow> registry \<Rightarrow> registry_error + session_record \<times> registry" where
  "clearBuffer sid now r =
     on_session sid (\<lambda>s. touched now (sync_buffer (s\<lparr>ss_buffer := clear (ss_buffer s)\<rparr>))) r"

definition updateSessionMeta :: "ident \<Rightarrow> js_object \<Rightarrow> bool \<Rightarrow> ms \<Rightarrow> registry
    \<Rightarrow> registry_error + session_record \<times> registry" where
  "updateSessionMeta sid meta replace now r = on_session sid (upd_record (\<lambda>rec. rec\<lparr>
     sr_meta := (if replace then meta else spread (sr_meta rec) meta), sr_lastActivityAt := now\<rparr>)) r"

text \<open>\<open>startedAt || Date.now()\<close>: a start time of zero counts as none.\<close>

definition markStarted :: "ident \<Rightarrow> int option \<Rightarrow> ms \<Rightarrow> registry \<Rightarrow> registry_error + session_record \<times> registry" where
  "markStarted sid pid now r = on_session sid (upd_record (\<lambda>rec. rec\<lparr>
     sr_lifecycle := L_running,
     sr_startedAt := (if or_zero (sr_startedAt rec) \<noteq> 0 then sr_startedAt rec else Some now),
     sr_osPid := (case pid of Some n \<Rightarrow> Some n | None \<Rightarrow> sr_osPid rec), sr_lastActivityAt := now\<rparr>)) r"

definition markStopped :: "ident \<Rightarrow> session_lifecycle \<Rightarrow> session_termination option \<Rightarrow> ms \<Rightarrow> registry
    \<Rightarrow> registry_error + session_record \<times> registry" where
  "markStopped sid lifecycle termination now r = on_session sid (upd_record (\<lambda>rec. rec\<lparr>
     sr_lifecycle := lifecycle, sr_lastActivityAt := now,
     sr_termination := (case termination of Some t \<Rightarrow> Some t | None \<Rightarrow> sr_termination rec)\<rparr>)) r"

definition setLifecycle :: "ident \<Rightarrow> session_lifecycle \<Rightarrow> ms \<Rightarrow> registry \<Rightarrow> registry_error + session_record \<times> registry" where
  "setLifecycle sid lifecycle now r = on_session sid (upd_record (\<lambda>rec. rec\<lparr>
     sr_lifecycle := lifecycle, sr_lastActivityAt := now\<rparr>)) r"

definition deleteSession :: "ident \<Rightarrow> registry \<Rightarrow> bool \<times> registry" where
  "deleteSession sid r = (find_session sid r \<noteq> None, r\<lparr>rg_sessions := AList.delete sid (rg_sessions r)\<rparr>)"

section \<open>Runs\<close>

text \<open>Every operation that changes the registry, and the registry after it; a refusal leaves it as it was.\<close>

datatype registry_op =
  Op_create create_payload ident ms
| Op_restore session_record "(int \<times> js_text) option"
| Op_attach attach_payload ms
| Op_attach_if attach_payload "incarnation option" ms
| Op_detach ident ident ms
| Op_record_input ident
| Op_input_state ident
| Op_acquire ident ident session_owner_type bool ms
| Op_release ident ident ms
| Op_append ident js_text ms
| Op_snapshot ident "int option"
| Op_clear ident ms
| Op_meta ident js_object bool ms
| Op_started ident "int option" ms
| Op_stopped ident session_lifecycle "session_termination option" ms
| Op_lifecycle ident session_lifecycle ms
| Op_delete ident

definition kept :: "registry \<Rightarrow> 'e + 'a \<times> registry \<Rightarrow> registry" where
  "kept r res = (case res of Inl _ \<Rightarrow> r | Inr (_, r') \<Rightarrow> r')"

lemma kept_simps [simp]: "kept r (Inl e) = r" "kept r (Inr (x, r')) = r'"
  by (simp_all add: kept_def)

fun registry_step :: "registry \<Rightarrow> registry_op \<Rightarrow> registry" where
  "registry_step r (Op_create p uuid now) = kept r (createSession p uuid now r)"
| "registry_step r (Op_restore rec shot) = snd (restoreSession rec shot r)"
| "registry_step r (Op_attach p now) = kept r (attachClient p now r)"
| "registry_step r (Op_attach_if p e now) = kept r (attachClientIfIncarnation p e now r)"
| "registry_step r (Op_detach sid c now) = kept r (detachClient sid c now r)"
| "registry_step r (Op_record_input sid) = kept r (recordInput sid r)"
| "registry_step r (Op_input_state sid) = kept r (getInputState sid r)"
| "registry_step r (Op_acquire sid c t force now) = kept r (acquireWrite sid c t force now r)"
| "registry_step r (Op_release sid c now) = kept r (releaseWrite sid c now r)"
| "registry_step r (Op_append sid data now) = kept r (appendOutput sid data now r)"
| "registry_step r (Op_snapshot sid since) = kept r (getSnapshot sid since r)"
| "registry_step r (Op_clear sid now) = kept r (clearBuffer sid now r)"
| "registry_step r (Op_meta sid m rep now) = kept r (updateSessionMeta sid m rep now r)"
| "registry_step r (Op_started sid pid now) = kept r (markStarted sid pid now r)"
| "registry_step r (Op_stopped sid l t now) = kept r (markStopped sid l t now r)"
| "registry_step r (Op_lifecycle sid l now) = kept r (setLifecycle sid l now r)"
| "registry_step r (Op_delete sid) = snd (deleteSession sid r)"

section \<open>How an operation changes the table\<close>

lemma find_set [simp]: "find_session k (set_session sid s r) = (if k = sid then Some s else find_session k r)"
  by (simp add: find_session_def set_session_def js_map.get_put)

lemma find_counter [simp]: "find_session k (r\<lparr>rg_epochCounter := n\<rparr>) = find_session k r"
  by (simp add: find_session_def)

lemma set_session_fields [simp]:
  "rg_lifetimeId (set_session sid s r) = rg_lifetimeId r" "rg_epochCounter (set_session sid s r) = rg_epochCounter r"
  by (simp_all add: set_session_def)

lemma find_delete [simp]: "find_session k (snd (deleteSession sid r)) = (if k = sid then None else find_session k r)"
  by (simp add: find_session_def deleteSession_def js_map.get_del)

lemma delete_fields [simp]:
  "rg_lifetimeId (snd (deleteSession sid r)) = rg_lifetimeId r" "rg_epochCounter (snd (deleteSession sid r)) = rg_epochCounter r"
  by (simp_all add: deleteSession_def)

section \<open>Positions in an input stream\<close>

text \<open>
  What a client may conclude from the input counter, for any machine that keeps one: a position is the
  number of an epoch and a count. The laws: an epoch in use was minted, a step keeps the epoch and
  does not rewind the count or moves to an epoch minted by it, and an accepted input advances the count.
\<close>

locale input_clock =
  fixes step :: "'s \<Rightarrow> 'op \<Rightarrow> 's"
    and ok :: "'s \<Rightarrow> bool"
    and pos :: "'s \<Rightarrow> ident \<Rightarrow> (nat \<times> int) option"
    and counter :: "'s \<Rightarrow> nat"
    and counts :: "'op \<Rightarrow> ident \<Rightarrow> 's \<Rightarrow> bool"
  assumes step_ok: "ok s \<Longrightarrow> ok (step s x)"
    and pos_minted: "ok s \<Longrightarrow> pos s sid = Some (e, q) \<Longrightarrow> e \<le> counter s"
    and counter_grows: "ok s \<Longrightarrow> counter s \<le> counter (step s x)"
    and step_pos: "ok s \<Longrightarrow> pos (step s x) sid = Some (e, q) \<Longrightarrow> counter s < e \<or> (\<exists>q'\<le>q. pos s sid = Some (e, q'))"
    and counts_pos: "ok s \<Longrightarrow> counts x sid s \<Longrightarrow> \<exists>e q q'. q < q' \<and> pos s sid = Some (e, q) \<and> pos (step s x) sid = Some (e, q')"
begin

lemma run_ok: "ok s \<Longrightarrow> ok (foldl step s xs)"
  by (induction xs arbitrary: s) (auto intro: step_ok)

text \<open>Once a stream is at or past a position it stays there, also over a deletion and a new start.\<close>

lemma ahead_run:
  assumes "ok s" and "n \<le> counter s" and "\<And>e q. pos s sid = Some (e, q) \<Longrightarrow> n < e \<or> n = e \<and> k \<le> q"
  shows "pos (foldl step s xs) sid = Some (e, q) \<Longrightarrow> n < e \<or> n = e \<and> k \<le> q"
  using assms
proof (induction xs arbitrary: s)
  case (Cons x xs)
  have "n < e \<or> n = e \<and> k \<le> q" if "pos (step s x) sid = Some (e, q)" for e q
    using step_pos[OF Cons.prems(2) that] Cons.prems(3,4) by fastforce
  moreover have "n \<le> counter (step s x)" using counter_grows[OF Cons.prems(2)] Cons.prems(3) le_trans by blast
  ultimately show ?case using Cons.IH[of "step s x"] Cons.prems(1,2) step_ok by simp
qed simp

lemma same_position_no_input:
  assumes ok: "ok s" and a: "pos s sid = Some (n, k)" and z: "pos (foldl step s (xs @ x # ys)) sid = Some (n, k)"
  shows "\<not> counts x sid (foldl step s xs)"
proof
  let ?s = "foldl step s xs"
  assume "counts x sid ?s"
  then obtain e q q' where c: "q < q'" "pos ?s sid = Some (e, q)" "pos (step ?s x) sid = Some (e, q')"
    using counts_pos run_ok[OF ok] by blast
  have ne: "n < e \<or> n = e \<and> k \<le> q"
    by (rule ahead_run[OF ok pos_minted[OF ok a] _ c(2)]) (use a in simp)
  with c have "n < e' \<or> n = e' \<and> k + 1 \<le> i" if "pos (step ?s x) sid = Some (e', i)" for e' i using that by auto
  moreover have "n \<le> counter (step ?s x)"
    using pos_minted[OF step_ok[OF run_ok[OF ok]] c(3)] ne by auto
  ultimately have "n < n \<or> n = n \<and> k + 1 \<le> k"
    using ahead_run[OF step_ok[OF run_ok[OF ok]], of n xs x sid "k + 1" ys n k] z by auto
  then show False by simp
qed

text \<open>A stream that comes back to a position was there all along: a new start would have another epoch.\<close>

lemma same_position_present:
  assumes ok: "ok s" and a: "pos s sid = Some (n, k)" and z: "pos (foldl step s (xs @ ys)) sid = Some (n, k)"
  shows "pos (foldl step s xs) sid \<noteq> None"
proof
  let ?s = "foldl step s xs"
  assume none: "pos ?s sid = None"
  have "counter s \<le> counter ?s" using ok
  proof (induction xs arbitrary: s)
    case (Cons x xs)
    from Cons.IH[OF step_ok[OF Cons.prems]] counter_grows[OF Cons.prems, of x] show ?case by (auto intro: le_trans)
  qed simp
  with pos_minted[OF ok a] have "n \<le> counter ?s" by simp
  then have "n < n \<or> n = n \<and> k + 1 \<le> k"
    by (rule ahead_run[OF run_ok[OF ok], of n xs sid "k + 1" ys n k]) (use none z in auto)
  then show False by simp
qed

end

definition epoch_no :: "string \<Rightarrow> string \<Rightarrow> nat" where
  "epoch_no lifetimeId e = nat (digits_value (drop (length lifetimeId + 1) e))"

lemma epoch_no_name [simp]: "epoch_no l (epoch_name l n) = n"
  by (simp add: epoch_no_def epoch_name_def digits_value_digits)

definition input_position :: "registry \<Rightarrow> ident \<Rightarrow> (nat \<times> int) option" where
  "input_position r sid =
     map_option (\<lambda>s. (epoch_no (rg_lifetimeId r) (case sr_inputEpoch (ss_record s) of Some e \<Rightarrow> e | None \<Rightarrow> []),
        or_zero (sr_inputSeq (ss_record s)))) (find_session sid r)"

definition session_ok :: "string \<Rightarrow> nat \<Rightarrow> ident \<Rightarrow> session_state \<Rightarrow> bool" where
  "session_ok l n sid s \<longleftrightarrow>
     sr_sessionId (ss_record s) = sid \<and> sr_inputSeq (ss_record s) \<noteq> None
     \<and> (\<exists>e\<le>n. sr_inputEpoch (ss_record s) = Some (epoch_name l e)) \<and> ring_ok (ss_buffer s)"

definition registry_ok :: "registry \<Rightarrow> bool" where
  "registry_ok r \<longleftrightarrow>
     distinct (map fst (rg_sessions r))
     \<and> list_all (\<lambda>(sid, s). session_ok (rg_lifetimeId r) (rg_epochCounter r) sid s) (rg_sessions r)"

lemma registry_ok_alt:
  "registry_ok r \<longleftrightarrow> distinct (map fst (rg_sessions r))
     \<and> (\<forall>sid s. find_session sid r = Some s \<longrightarrow> session_ok (rg_lifetimeId r) (rg_epochCounter r) sid s)"
  unfolding registry_ok_def find_session_def list_all_iff by (auto dest: map_of_SomeD)


lemma find_okD:
  "registry_ok r \<Longrightarrow> find_session sid r = Some s \<Longrightarrow> session_ok (rg_lifetimeId r) (rg_epochCounter r) sid s"
  by (simp add: registry_ok_alt)

lemma set_session_distinct: "distinct (map fst (rg_sessions r)) \<Longrightarrow> distinct (map fst (rg_sessions (set_session sid s r)))"
  by (simp add: set_session_def distinct_update)

text \<open>A change in place that leaves the counter alone.\<close>

definition same_input :: "session_state \<Rightarrow> session_state \<Rightarrow> bool" where
  "same_input s t \<longleftrightarrow>
     sr_sessionId (ss_record t) = sr_sessionId (ss_record s) \<and> sr_inputSeq (ss_record t) = sr_inputSeq (ss_record s)
     \<and> sr_inputEpoch (ss_record t) = sr_inputEpoch (ss_record s) \<and> (ring_ok (ss_buffer s) \<longrightarrow> ring_ok (ss_buffer t))"

definition steady :: "registry \<Rightarrow> registry \<Rightarrow> bool" where
  "steady r r' \<longleftrightarrow> rg_epochCounter r' = rg_epochCounter r \<and> rg_lifetimeId r' = rg_lifetimeId r
     \<and> input_position r' = input_position r \<and> (registry_ok r \<longrightarrow> registry_ok r')"

lemma steady_refl [simp]: "steady r r"
  by (simp add: steady_def)

lemma set_session_steady: "find_session sid r = Some s \<Longrightarrow> same_input s t \<Longrightarrow> steady r (set_session sid t r)"
  unfolding steady_def registry_ok_alt
  by (auto simp: input_position_def same_input_def session_ok_def set_session_distinct fun_eq_iff)

lemma on_session_steady: "(\<And>s. same_input s (f s)) \<Longrightarrow> steady r (kept r (on_session sid f r))"
  by (auto simp: on_session_def intro: set_session_steady split: option.splits)

lemma same_input_record:
  assumes "\<And>rec. sr_sessionId (f rec) = sr_sessionId rec" "\<And>rec. sr_inputSeq (f rec) = sr_inputSeq rec"
    and "\<And>rec. sr_inputEpoch (f rec) = sr_inputEpoch rec"
  shows "same_input s (upd_record f s)"
  using assms by (simp add: same_input_def upd_record_def)

lemma same_input_sync: "ring_ok (ss_buffer t) \<or> ss_buffer t = ss_buffer s \<Longrightarrow> ss_record t = ss_record s \<Longrightarrow> same_input s (sync_buffer t)"
  by (auto simp: same_input_def sync_buffer_def upd_record_def)

lemma same_input_trans: "same_input s t \<Longrightarrow> same_input t u \<Longrightarrow> same_input s u"
  by (simp add: same_input_def)

lemma same_input_touched: "same_input s t \<Longrightarrow> same_input s (touched now t)"
  by (rule same_input_trans) (auto simp: touched_def intro: same_input_record)

lemma attachClient_steady: "steady r (kept r (attachClient p now r))"
  unfolding attachClient_def by (intro on_session_steady same_input_record) (simp_all add: attach_record_def Let_def)

lemma acquireWrite_steady: "steady r (kept r (acquireWrite sid c t force now r))"
proof -
  have "steady r (kept r (on_session sid (upd_record (own c t now)) r))"
    by (intro on_session_steady same_input_record) (simp_all add: own_def)
  then show ?thesis by (simp add: acquireWrite_def split: option.split)
qed

lemma appendOutput_steady: "steady r (kept r (appendOutput sid data now r))"
proof (cases "find_session sid r")
  case (Some s)
  have "same_input s (sync_buffer (s\<lparr>ss_buffer := snd (append data (ss_buffer s))\<rparr>))"
    using append_ok[of "ss_buffer s" data] by (simp add: same_input_def sync_buffer_def upd_record_def)
  from set_session_steady[OF Some same_input_touched[OF this, of now]] Some show ?thesis
    by (simp add: appendOutput_def case_prod_beta Let_def)
qed (simp add: appendOutput_def)

lemma getSnapshot_steady: "steady r (kept r (getSnapshot sid since r))"
  by (auto simp: getSnapshot_def intro!: set_session_steady same_input_sync split: option.splits)

lemma clearBuffer_steady: "steady r (kept r (clearBuffer sid now r))"
  unfolding clearBuffer_def by (intro on_session_steady same_input_touched same_input_sync) (simp_all add: clear_ok)

fun steady_op :: "registry_op \<Rightarrow> bool" where
  "steady_op (Op_create _ _ _) = False"
| "steady_op (Op_restore _ _) = False"
| "steady_op (Op_record_input _) = False"
| "steady_op (Op_input_state _) = False"
| "steady_op (Op_delete _) = False"
| "steady_op _ = True"

lemma steady_step:
  assumes "steady_op x"
  shows "steady r (registry_step r x)"
proof -
  have f: "steady r (kept r (on_session sid (upd_record f) r))"
    if "\<And>rec. sr_sessionId (f rec) = sr_sessionId rec \<and> sr_inputSeq (f rec) = sr_inputSeq rec
          \<and> sr_inputEpoch (f rec) = sr_inputEpoch rec" for sid f
    using that by (intro on_session_steady same_input_record) blast+
  have g: "steady r (kept r (attachClientIfIncarnation p e now r))" for p e now
    by (simp add: attachClientIfIncarnation_def attachClient_steady split: option.split)
  note known = attachClient_steady acquireWrite_steady appendOutput_steady getSnapshot_steady clearBuffer_steady g
  show ?thesis using assms
    by (cases x) (simp_all add: known detachClient_def releaseWrite_def updateSessionMeta_def markStarted_def
        markStopped_def setLifecycle_def f)
qed


text \<open>What every operation may do to the input streams.\<close>

definition clock_step :: "registry \<Rightarrow> registry \<Rightarrow> bool" where
  "clock_step r r' \<longleftrightarrow> registry_ok r' \<and> rg_epochCounter r \<le> rg_epochCounter r'
     \<and> (\<forall>sid e q. input_position r' sid = Some (e, q) \<longrightarrow>
          rg_epochCounter r < e \<or> (\<exists>q'\<le>q. input_position r sid = Some (e, q')))"

lemma steady_clock: "registry_ok r \<Longrightarrow> steady r r' \<Longrightarrow> clock_step r r'"
  by (auto simp: steady_def clock_step_def)

lemma session_ok_mono: "session_ok l n sid s \<Longrightarrow> n \<le> m \<Longrightarrow> session_ok l m sid s"
  unfolding session_ok_def by (meson le_trans)

lemma install_clock:
  assumes ok: "registry_ok r" and s: "sr_sessionId (ss_record s) = sid" "sr_inputSeq (ss_record s) \<noteq> None"
    "sr_inputEpoch (ss_record s) = Some (epoch_name (rg_lifetimeId r) (Suc (rg_epochCounter r)))" "ring_ok (ss_buffer s)"
  shows "clock_step r (set_session sid s (r\<lparr>rg_epochCounter := Suc (rg_epochCounter r)\<rparr>))"
proof -
  let ?r = "set_session sid s (r\<lparr>rg_epochCounter := Suc (rg_epochCounter r)\<rparr>)"
  have "session_ok (rg_lifetimeId r) (Suc (rg_epochCounter r)) sid s" using s by (auto simp: session_ok_def)
  then have "registry_ok ?r"
    using ok by (auto simp: registry_ok_alt set_session_distinct intro: session_ok_mono[OF find_okD[OF ok]])
  then show ?thesis using s by (auto simp: clock_step_def input_position_def)
qed

lemma revise_clock:
  assumes ok: "registry_ok r" and f: "find_session sid r = Some s" and t: "sr_sessionId (ss_record t) = sid"
    "sr_inputSeq (ss_record t) = Some q" "or_zero (sr_inputSeq (ss_record s)) \<le> q"
    "sr_inputEpoch (ss_record t) = sr_inputEpoch (ss_record s)" "ring_ok (ss_buffer t)"
  shows "clock_step r (set_session sid t r)"
proof -
  have "session_ok (rg_lifetimeId r) (rg_epochCounter r) sid t"
    using find_okD[OF ok f] t by (auto simp: session_ok_def)
  then have "registry_ok (set_session sid t r)"
    using ok find_okD[OF ok] by (auto simp: registry_ok_alt set_session_distinct)
  then show ?thesis using f t by (auto simp: clock_step_def input_position_def or_zero_def)
qed

lemma create_clock: "registry_ok r \<Longrightarrow> clock_step r (kept r (createSession p uuid now r))"
  by (auto simp: createSession_def mintInputEpoch_def Let_def created_record_def new_ring_ok steady_clock
      intro!: install_clock)

lemma ring_of_ok: "ring_ok (case shot of Some (seq, body) \<Rightarrow> restore seq body (new_ring None) | None \<Rightarrow> new_ring None)"
  by (simp add: restore_ok new_ring_ok split: option.splits)

lemma restore_clock:
  assumes ok: "registry_ok r"
  shows "clock_step r (snd (restoreSession rec shot r))"
proof (cases "sameLifetime rec r")
  case True
  then obtain live where live: "find_session (sr_sessionId rec) r = Some live" "sr_inputEpoch rec = sr_inputEpoch (ss_record live)"
    "or_zero (sr_inputSeq (ss_record live)) \<le> or_zero (sr_inputSeq rec)"
    by (auto simp: sameLifetime_def split: option.splits)
  with True show ?thesis
    by (auto simp: restoreSession_def Let_def ring_of_ok intro!: revise_clock[OF ok live(1)])
next
  case False
  then show ?thesis
    by (auto simp: restoreSession_def mintInputEpoch_def Let_def ring_of_ok intro!: install_clock[OF ok])
qed

lemma with_epoch_ok: "registry_ok r \<Longrightarrow> find_session sid r = Some s \<Longrightarrow>
    with_epoch (ss_record s) r = (the (sr_inputEpoch (ss_record s)), r)"
  using find_okD[of r sid s] by (auto simp: with_epoch_def session_ok_def)

lemma same_epoch_update:
  "sr_inputEpoch rec = Some e \<Longrightarrow> rec\<lparr>sr_inputSeq := q, sr_inputEpoch := Some e\<rparr> = rec\<lparr>sr_inputSeq := q\<rparr>"
  by (cases rec) simp

lemma record_input_result:
  assumes ok: "registry_ok r" and f: "find_session sid r = Some s"
  shows "recordInput sid r = Inr (or_zero (sr_inputSeq (ss_record s)) + 1,
    set_session sid (upd_record (\<lambda>rec. rec\<lparr>sr_inputSeq := Some (or_zero (sr_inputSeq (ss_record s)) + 1)\<rparr>) s) r)"
  using with_epoch_ok[OF ok f] find_okD[OF ok f] f
  by (auto simp: recordInput_def upd_record_def session_ok_def same_epoch_update Let_def)

lemma input_state_result:
  assumes ok: "registry_ok r" and f: "find_session sid r = Some s"
  shows "\<exists>t. getInputState sid r = Inr ((or_zero (sr_inputSeq (ss_record s)), the (sr_inputEpoch (ss_record s))), set_session sid t r)
    \<and> same_input s t \<and> ss_buffer t = ss_buffer s"
  using with_epoch_ok[OF ok f] find_okD[OF ok f] f
  by (auto simp: getInputState_def upd_record_def session_ok_def same_input_def or_zero_def Let_def)

lemma input_state_steady: "registry_ok r \<Longrightarrow> steady r (kept r (getInputState sid r))"
proof (cases "find_session sid r")
  case (Some s)
  moreover assume "registry_ok r"
  ultimately show ?thesis using input_state_result set_session_steady by fastforce
qed (simp add: getInputState_def)

lemma record_input_clock: "registry_ok r \<Longrightarrow> clock_step r (kept r (recordInput sid r))"
proof (cases "find_session sid r")
  case (Some s)
  assume ok: "registry_ok r"
  let ?n = "or_zero (sr_inputSeq (ss_record s)) + 1"
  have "clock_step r (set_session sid (upd_record (\<lambda>rec. rec\<lparr>sr_inputSeq := Some ?n\<rparr>) s) r)"
    by (rule revise_clock[OF ok Some, where q = ?n]) (use find_okD[OF ok Some] in \<open>auto simp: upd_record_def session_ok_def\<close>)
  then show ?thesis by (simp add: record_input_result[OF ok Some])
qed (simp add: recordInput_def steady_clock)

lemma delete_clock: "registry_ok r \<Longrightarrow> clock_step r (snd (deleteSession sid r))"
proof -
  assume ok: "registry_ok r"
  then have "distinct (map fst (rg_sessions (snd (deleteSession sid r))))"
    by (simp add: registry_ok_def deleteSession_def distinct_delete)
  then show ?thesis using ok by (auto simp: clock_step_def registry_ok_alt input_position_def)
qed

lemma step_clock: "registry_ok r \<Longrightarrow> clock_step r (registry_step r x)"
proof (cases "steady_op x")
  case False
  assume "registry_ok r"
  with False show ?thesis
    by (cases x) (simp_all add: create_clock restore_clock record_input_clock delete_clock steady_clock input_state_steady)
qed (auto intro: steady_clock steady_step)

lemma new_registry_ok [simp]: "registry_ok (new_registry l)"
  by (simp add: registry_ok_def new_registry_def)

definition counts_input :: "registry_op \<Rightarrow> ident \<Rightarrow> registry \<Rightarrow> bool" where
  "counts_input x sid r \<longleftrightarrow> x = Op_record_input sid \<and> find_session sid r \<noteq> None"

lemma counted_position:
  assumes ok: "registry_ok r" and f: "find_session sid r = Some s"
  shows "input_position (kept r (recordInput sid r)) sid =
    map_option (\<lambda>(e, q). (e, q + 1)) (input_position r sid)"
  using f by (simp add: record_input_result[OF ok f] input_position_def upd_record_def or_zero_def)

interpretation reg: input_clock registry_step registry_ok input_position rg_epochCounter counts_input
proof
  fix r x sid e q
  assume ok: "registry_ok r"
  note c = step_clock[OF ok, of x, unfolded clock_step_def]
  show "registry_ok (registry_step r x)" "rg_epochCounter r \<le> rg_epochCounter (registry_step r x)" using c by blast+
  show "input_position (registry_step r x) sid = Some (e, q) \<Longrightarrow>
      rg_epochCounter r < e \<or> (\<exists>q'\<le>q. input_position r sid = Some (e, q'))" using c by blast
  show "input_position r sid = Some (e, q) \<Longrightarrow> e \<le> rg_epochCounter r"
    using find_okD[OF ok, of sid] by (fastforce simp: input_position_def session_ok_def)
  assume "counts_input x sid r"
  then obtain s where "x = Op_record_input sid" "find_session sid r = Some s" by (auto simp: counts_input_def)
  moreover from this(2) obtain n k where "input_position r sid = Some (n, k)" by (simp add: input_position_def)
  ultimately show "\<exists>e q q'. q < q' \<and> input_position r sid = Some (e, q) \<and> input_position (registry_step r x) sid = Some (e, q')"
    using counted_position[OF ok] by simp
qed

text \<open>
  C31. The registry's own invariant, along every run of operations: one entry per session id, filed under
  its own id, each with a count and an epoch this registry has minted, and with a consistent output
  buffer.
\<close>

theorem registry_invariant: "registry_ok (foldl registry_step (new_registry l) xs)"
  by (rule reg.run_ok) simp

lemma input_state_position:
  assumes ok: "registry_ok r" and g: "getInputState sid r = Inr ((q, e), r')"
  shows "\<exists>n. e = epoch_name (rg_lifetimeId r) n \<and> input_position r sid = Some (n, q) \<and> steady r r'"
proof -
  obtain s where s: "find_session sid r = Some s" using g by (cases "find_session sid r") (auto simp: getInputState_def)
  obtain n where n: "sr_inputEpoch (ss_record s) = Some (epoch_name (rg_lifetimeId r) n)"
    using find_okD[OF ok s] by (auto simp: session_ok_def)
  have "q = or_zero (sr_inputSeq (ss_record s))" "e = epoch_name (rg_lifetimeId r) n"
    using input_state_result[OF ok s] g n by auto
  moreover have "steady r r'" using input_state_steady[OF ok, of sid] g by simp
  ultimately show ?thesis using s n by (auto simp: input_position_def)
qed

lemma run_lifetime: "rg_lifetimeId (foldl registry_step r xs) = rg_lifetimeId r"
proof -
  have "rg_lifetimeId (registry_step r x) = rg_lifetimeId r" for r x
  proof (cases "steady_op x")
    case False
    then show ?thesis
      by (cases x) (auto simp: createSession_def restoreSession_def recordInput_def getInputState_def with_epoch_def
          mintInputEpoch_def Let_def split: option.splits)
  qed (use steady_step[of x r] in \<open>simp add: steady_def\<close>)
  then show ?thesis by (induction xs arbitrary: r) auto
qed

text \<open>
  Equal answers mean nothing was typed. When two readings of a session's input counter, with any
  operations on the registry in between (restores, deletions and new sessions of the same id included),
  give the same count and epoch, no input was recorded for the session in between.
\<close>

lemma same_input_point:
  assumes "getInputState sid (foldl registry_step (new_registry l) xs) = Inr ((q, e), r1)"
    and "getInputState sid (foldl registry_step r1 ys) = Inr ((q, e), r2)"
  shows "Op_record_input sid \<notin> set ys"
proof
  let ?r = "foldl registry_step (new_registry l) xs"
  have ok: "registry_ok ?r" by (rule reg.run_ok) simp
  obtain n where n: "e = epoch_name (rg_lifetimeId ?r) n" "input_position ?r sid = Some (n, q)" "steady ?r r1"
    using input_state_position[OF ok assms(1)] by blast
  have ok1: "registry_ok r1" and p1: "input_position r1 sid = Some (n, q)" and l1: "rg_lifetimeId r1 = rg_lifetimeId ?r"
    using n(2,3) ok by (simp_all add: steady_def)
  have ok2: "registry_ok (foldl registry_step r1 ys)" by (rule reg.run_ok[OF ok1])
  then have p2: "input_position (foldl registry_step r1 ys) sid = Some (n, q)"
    using input_state_position[OF ok2 assms(2)] n(1) l1 run_lifetime[of r1 ys] by (auto simp: epoch_name_def digits_inj)
  assume "Op_record_input sid \<in> set ys"
  then obtain as bs where ys: "ys = as @ Op_record_input sid # bs" by (meson split_list)
  have "\<not> counts_input (Op_record_input sid) sid (foldl registry_step r1 as)"
    using reg.same_position_no_input[OF ok1 p1] p2 unfolding ys .
  moreover have "input_position (foldl registry_step r1 as) sid \<noteq> None"
    using reg.same_position_present[OF ok1 p1] p2 unfolding ys by blast
  ultimately show False by (simp add: counts_input_def input_position_def)
qed

lemma digits_one: "digits (Suc 0) = ''1''"
  by code_simp

definition demo_run :: "registry" where
  "demo_run = foldl registry_step (new_registry ''L'') [Op_restore (demo_record ''s'' ''k'' L_running) None, Op_record_input ''s'']"

lemmas demo_defs = restoreSession_def sameLifetime_def mintInputEpoch_def find_session_def set_session_def recordInput_def
  with_epoch_def getInputState_def getSnapshot_def sync_buffer_def setLifecycle_def on_session_def upd_record_def
  demo_record_def new_registry_def epoch_name_def or_zero_def digits_one

theorem same_input_point_witness:
  "Op_record_input ''s'' \<notin> set [Op_snapshot ''s'' None, Op_record_input ''t'', Op_lifecycle ''s'' L_running 7]"
proof -
  let ?ys = "[Op_snapshot ''s'' None, Op_record_input ''t'', Op_lifecycle ''s'' L_running 7]"
  have "getInputState ''s'' demo_run = Inr ((1, ''L:1''), demo_run)"
    by (simp add: demo_run_def demo_defs)
  moreover have "\<exists>r. getInputState ''s'' (foldl registry_step demo_run ?ys) = Inr ((1, ''L:1''), r)"
    by (simp add: demo_run_def demo_defs)
  ultimately show ?thesis using same_input_point[of "''s''" "''L''"] unfolding demo_run_def by blast
qed


section \<open>Write ownership\<close>

definition owner :: "registry \<Rightarrow> ident \<Rightarrow> ident option" where
  "owner r sid = map_option wo_clientId (Option.bind (getSession sid r) sr_writeOwner)"

text \<open>The operations that can take the write from client \<open>c\<close> of session \<open>sid\<close>.\<close>

fun takes_write :: "registry_op \<Rightarrow> ident \<Rightarrow> ident \<Rightarrow> bool" where
  "takes_write (Op_acquire s c' _ force _) sid c \<longleftrightarrow> s = sid \<and> c' \<noteq> c \<and> force"
| "takes_write (Op_release s c' _) sid c \<longleftrightarrow> s = sid \<and> c' = c"
| "takes_write (Op_detach s c' _) sid c \<longleftrightarrow> s = sid \<and> c' = c"
| "takes_write (Op_attach p _) sid c \<longleftrightarrow> ap_sessionId p = sid \<and> ap_clientType p = Ct_daemon \<and> ap_clientId p \<noteq> c"
| "takes_write (Op_attach_if p _ _) sid c \<longleftrightarrow> ap_sessionId p = sid \<and> ap_clientType p = Ct_daemon \<and> ap_clientId p \<noteq> c"
| "takes_write (Op_restore rec _) sid c \<longleftrightarrow> sr_sessionId rec = sid"
| "takes_write (Op_delete s) sid c \<longleftrightarrow> s = sid"
| "takes_write _ _ _ \<longleftrightarrow> False"

lemma owner_set: "owner (set_session k s r) sid =
    (if sid = k then map_option wo_clientId (sr_writeOwner (ss_record s)) else owner r sid)"
  by (simp add: owner_def getSession_def)

lemma owner_session: "find_session sid r = Some s \<Longrightarrow> owner r sid = map_option wo_clientId (sr_writeOwner (ss_record s))"
  by (simp add: owner_def getSession_def)

lemma owner_counter [simp]: "owner (r\<lparr>rg_epochCounter := n\<rparr>) sid = owner r sid"
  by (simp add: owner_def getSession_def)

lemma owner_on_session:
  assumes "\<And>s. find_session k r = Some s \<Longrightarrow> k = sid \<Longrightarrow> sr_writeOwner (ss_record (f s)) = sr_writeOwner (ss_record s)"
  shows "owner (kept r (on_session k f r)) sid = owner r sid"
  using assms by (cases "find_session k r") (auto simp: on_session_def owner_set owner_session)

lemma owner_attach:
  assumes "owner r sid = Some c" and "\<not> (ap_sessionId p = sid \<and> ap_clientType p = Ct_daemon \<and> ap_clientId p \<noteq> c)"
  shows "owner (kept r (attachClient p now r)) sid = Some c"
proof -
  have "owner (kept r (attachClient p now r)) sid = owner r sid"
    unfolding attachClient_def
    by (rule owner_on_session) (use assms in \<open>auto simp: owner_session upd_record_def attach_record_def Let_def stale_daemon_def split: option.splits\<close>)
  with assms show ?thesis by simp
qed

lemma owner_acquire:
  assumes "owner r sid = Some c" and "\<not> (s = sid \<and> c' \<noteq> c \<and> force)"
  shows "owner (kept r (acquireWrite s c' t force now r)) sid = Some c"
  using assms
  by (cases "find_session s r")
    (auto simp: acquireWrite_def on_session_def owner_set owner_session own_def upd_record_def other_owner_def getSession_def
      split: option.splits if_splits)

lemma owner_with_epoch: "owner (snd (with_epoch rec r)) sid = owner r sid"
  by (simp add: with_epoch_def mintInputEpoch_def Let_def split: option.split)

lemma owner_counter_reads:
  "owner (kept r (recordInput k r)) sid = owner r sid" "owner (kept r (getInputState k r)) sid = owner r sid"
  "owner (kept r (getSnapshot k since r)) sid = owner r sid"
proof -
  show "owner (kept r (recordInput k r)) sid = owner r sid"
    by (cases "find_session k r") (simp_all add: recordInput_def Let_def case_prod_beta owner_set owner_with_epoch owner_session upd_record_def)
  show "owner (kept r (getInputState k r)) sid = owner r sid"
    by (cases "find_session k r") (simp_all add: getInputState_def Let_def case_prod_beta owner_set owner_with_epoch owner_session upd_record_def)
  show "owner (kept r (getSnapshot k since r)) sid = owner r sid"
    by (cases "find_session k r") (simp_all add: getSnapshot_def owner_set owner_session upd_record_def sync_buffer_def)
qed

lemma owner_untouched:
  assumes own: "owner r sid = Some c"
    and g: "\<And>rec. k = sid \<Longrightarrow> map_option wo_clientId (sr_writeOwner rec) = Some c \<Longrightarrow> sr_writeOwner (g rec) = sr_writeOwner rec"
  shows "owner (kept r (on_session k (upd_record g) r)) sid = Some c"
proof -
  have "owner (kept r (on_session k (upd_record g) r)) sid = owner r sid"
  proof (rule owner_on_session)
    fix s assume s: "find_session k r = Some s" "k = sid"
    then have "map_option wo_clientId (sr_writeOwner (ss_record s)) = Some c" using own owner_session[of sid r s] by simp
    then show "sr_writeOwner (ss_record (upd_record g s)) = sr_writeOwner (ss_record s)"
      using g[OF s(2)] by (simp add: upd_record_def)
  qed
  then show ?thesis by (simp only: own)
qed

text \<open>
  C29. Nobody loses the keyboard by accident. A client that owns the write of a session keeps it over
  every operation of the registry except: a forced acquisition by another client, its own release or
  detachment, the attachment of another daemon, a restore or the deletion of that session.
\<close>

theorem owner_kept:
  assumes own: "owner r sid = Some c" and x: "\<not> takes_write x sid c"
  shows "owner (registry_step r x) sid = Some c"
proof -
  note f = owner_untouched[OF own]
  have n: "find_session sid r \<noteq> None" using own by (cases "find_session sid r") (auto simp: owner_def getSession_def)
  show ?thesis
  proof (cases x)
    case (Op_create p uuid now)
    with own n show ?thesis
      by (auto simp: createSession_def mintInputEpoch_def Let_def owner_set owner_session)
  next
    case (Op_append s d now)
    with own show ?thesis
      by (cases "find_session s r") (auto simp: appendOutput_def owner_set owner_session touched_def sync_buffer_def upd_record_def
          case_prod_beta Let_def)
  next
    case (Op_attach_if p e now)
    with own x show ?thesis by (auto simp: attachClientIfIncarnation_def owner_attach split: option.split)
  next
    case (Op_restore rec shot)
    with own x show ?thesis
      by (auto simp: restoreSession_def mintInputEpoch_def Let_def owner_set)
  next
    case (Op_delete s)
    with own x show ?thesis by (auto simp: owner_def getSession_def)
  next
    case (Op_clear s now)
    with own show ?thesis
      by (auto simp: clearBuffer_def owner_on_session touched_def sync_buffer_def upd_record_def)
  next
    case (Op_detach s c' now)
    with x show ?thesis unfolding Op_detach registry_step.simps detachClient_def
      by (intro f) (auto simp: disown_def owned_by_def)
  next
    case (Op_release s c' now)
    with x show ?thesis unfolding Op_release registry_step.simps releaseWrite_def
      by (intro f) (auto simp: disown_def owned_by_def)
  qed (use own x in \<open>simp_all add: owner_attach owner_acquire owner_counter_reads updateSessionMeta_def markStarted_def
      markStopped_def setLifecycle_def f\<close>)
qed


theorem owner_kept_witness:
  "owner (registry_step (foldl registry_step demo_run [Op_acquire ''s'' ''c1'' Own_user False 5]) (Op_acquire ''s'' ''c2'' Own_agent False 6)) ''s''
     = Some ''c1''"
proof -
  have "owner (foldl registry_step demo_run [Op_acquire ''s'' ''c1'' Own_user False 5]) ''s'' = Some ''c1''"
    by (simp add: demo_run_def demo_defs acquireWrite_def other_owner_def own_def owner_def getSession_def)
  from owner_kept[OF this, of "Op_acquire ''s'' ''c2'' Own_agent False 6"] show ?thesis by simp
qed

section \<open>One daemon per session\<close>

lemma no_daemon_left:
  "list_all (\<lambda>c. cl_type c = Ct_daemon \<longrightarrow> cl_clientId c = cid) cs \<Longrightarrow> cid \<notin> cl_clientId ` set cs
   \<Longrightarrow> filter (\<lambda>c. cl_type c = Ct_daemon) cs = []
     \<and> filter (\<lambda>c. cl_type c \<noteq> Ct_daemon) cs = filter (\<lambda>c. cl_type c \<noteq> Ct_daemon \<and> cl_clientId c \<noteq> cid) cs"
  by (induction cs) auto

lemma replace_daemon:
  assumes "distinct (map cl_clientId cs)" "list_all (\<lambda>c. cl_type c = Ct_daemon \<longrightarrow> cl_clientId c = cid) cs"
    "list_ex (\<lambda>c. cl_clientId c = cid) cs" and f: "\<And>c. cl_type (f c) = Ct_daemon \<and> cl_clientId (f c) = cl_clientId c"
  shows "map cl_clientId (filter (\<lambda>c. cl_type c = Ct_daemon) (update_first (\<lambda>c. cl_clientId c = cid) f cs)) = [cid]
    \<and> filter (\<lambda>c. cl_type c \<noteq> Ct_daemon) (update_first (\<lambda>c. cl_clientId c = cid) f cs)
      = filter (\<lambda>c. cl_type c \<noteq> Ct_daemon \<and> cl_clientId c \<noteq> cid) cs"
  using assms(1-3)
proof (induction cs)
  case (Cons c cs)
  then show ?case using no_daemon_left[of cid cs] by (cases "cl_clientId c = cid") (auto simp: f)
qed simp

text \<open>
  A daemon that attaches is the only daemon. When the client ids of the session are distinct, after a
  successful attachment as a daemon exactly one daemon client is attached, the new one, and the other
  clients that are not daemons are still attached as they were.
\<close>

lemma daemon_attach_unique:
  assumes a: "attachClient p now r = Inr (rec', r')" and d: "ap_clientType p = Ct_daemon"
    and g: "getSession (ap_sessionId p) r = Some rec" and di: "distinct (map cl_clientId (sr_attachedClients rec))"
  shows "map cl_clientId (filter (\<lambda>c. cl_type c = Ct_daemon) (sr_attachedClients rec')) = [ap_clientId p]
    \<and> filter (\<lambda>c. cl_type c \<noteq> Ct_daemon) (sr_attachedClients rec')
      = filter (\<lambda>c. cl_type c \<noteq> Ct_daemon \<and> cl_clientId c \<noteq> ap_clientId p) (sr_attachedClients rec)"
proof -
  let ?cid = "ap_clientId p" let ?cs = "filter (\<lambda>c. \<not> stale_daemon ?cid c) (sr_attachedClients rec)"
  have "rec' = attach_record p now rec"
    using a g by (auto simp: attachClient_def on_session_def getSession_def upd_record_def split: option.splits)
  moreover have "(if map cl_clientId (filter (stale_daemon ?cid) (sr_attachedClients rec)) \<noteq> [] then ?cs
      else sr_attachedClients rec) = ?cs"
    by (auto simp: filter_empty_conv filter_id_conv)
  ultimately have c: "sr_attachedClients rec' =
    (if list_ex (\<lambda>c. cl_clientId c = ?cid) ?cs
     then update_first (\<lambda>c. cl_clientId c = ?cid)
            (\<lambda>c. c\<lparr>cl_type := Ct_daemon, cl_readOnly := (ap_readOnly p = Some True), cl_lastSeenAt := now\<rparr>) ?cs
     else ?cs @ [\<lparr>cl_clientId = ?cid, cl_type = Ct_daemon, cl_readOnly = (ap_readOnly p = Some True),
                  cl_attachedAt = now, cl_lastSeenAt = now\<rparr>])"
    using d by (simp add: attach_record_def Let_def)
  have cs: "distinct (map cl_clientId ?cs)" "list_all (\<lambda>c. cl_type c = Ct_daemon \<longrightarrow> cl_clientId c = ?cid) ?cs"
    using di by (auto simp: distinct_map_filter list_all_iff stale_daemon_def)
  have f: "filter (\<lambda>c. cl_type c \<noteq> Ct_daemon \<and> cl_clientId c \<noteq> ?cid) ?cs
      = filter (\<lambda>c. cl_type c \<noteq> Ct_daemon \<and> cl_clientId c \<noteq> ?cid) (sr_attachedClients rec)"
    by (auto simp: filter_filter stale_daemon_def intro: filter_cong)
  show ?thesis
  proof (cases "list_ex (\<lambda>c. cl_clientId c = ?cid) ?cs")
    case True
    from replace_daemon[OF cs True] show ?thesis unfolding c f[symmetric] using True by simp
  next
    case False
    then have "?cid \<notin> cl_clientId ` set ?cs" by (auto simp: list_ex_iff)
    from no_daemon_left[OF cs(2) this] False show ?thesis unfolding c f[symmetric] by simp
  qed
qed

theorem daemon_attach_unique_witness:
  "\<exists>rec' r'. attachClient \<lparr>ap_sessionId = ''s'', ap_clientId = ''d2'', ap_clientType = Ct_daemon, ap_readOnly = None\<rparr> 9
       (kept demo_run (attachClient \<lparr>ap_sessionId = ''s'', ap_clientId = ''d1'', ap_clientType = Ct_daemon, ap_readOnly = None\<rparr> 8 demo_run))
     = Inr (rec', r') \<and> map cl_clientId (filter (\<lambda>c. cl_type c = Ct_daemon) (sr_attachedClients rec')) = [''d2'']"
proof -
  let ?p = "\<lambda>c. \<lparr>ap_sessionId = ''s'', ap_clientId = c, ap_clientType = Ct_daemon, ap_readOnly = None\<rparr>"
  let ?r = "kept demo_run (attachClient (?p ''d1'') 8 demo_run)"
  note defs = demo_run_def demo_defs attachClient_def attach_record_def stale_daemon_def getSession_def Let_def
  have "\<exists>rec' r'. attachClient (?p ''d2'') 9 ?r = Inr (rec', r')" by (simp add: defs)
  moreover have "\<exists>rec. getSession ''s'' ?r = Some rec \<and> distinct (map cl_clientId (sr_attachedClients rec))"
    by (simp add: defs)
  ultimately show ?thesis using daemon_attach_unique[of "?p ''d2''" 9 ?r] by fastforce
qed

end
