(* ===== verification/SessionCleanup.thy ===== *)
theory SessionCleanup
  imports SessionLabels "HOL-Library.Multiset"
begin

text \<open>
  The pure decisions of the session host: \<open>session-host-core/src/termination.ts\<close> (how a process ended),
  \<open>session-host-core/src/cleanup-expected.ts\<close> (may this cleanup stop or delete that session), and the
  duplicate plan of \<open>session-host-daemon/src/session-lifecycle.ts\<close>.
\<close>

section \<open>Classifying a termination\<close>

record classify_input =
  ci_exitCode :: "int option"
  ci_signal :: "int option"
  ci_osPid :: "int option"
  ci_previousLifecycle :: "session_lifecycle option"
  ci_lastOutputAt :: "ms option"
  ci_requestedStop :: "stop_cause option"
  ci_terminatedAt :: ms

definition termination_class :: "int option \<Rightarrow> int option \<Rightarrow> termination_reason \<times> session_lifecycle" where
  "termination_class exitCode signal =
     (if signal \<noteq> None \<and> signal \<noteq> Some 0 then (Term_signal, L_failed)
      else case exitCode of
             None \<Rightarrow> (Term_unknown, L_failed)
           | Some n \<Rightarrow> if n = 0 then (Term_exit, L_stopped) else (Term_failed, L_failed))"

definition classifyTermination :: "classify_input \<Rightarrow> session_termination" where
  "classifyTermination i = \<lparr>te_exitCode = ci_exitCode i, te_signal = ci_signal i,
     te_reason = fst (termination_class (ci_exitCode i) (ci_signal i)),
     te_lifecycle = snd (termination_class (ci_exitCode i) (ci_signal i)),
     te_terminatedAt = ci_terminatedAt i, te_osPid = ci_osPid i, te_previousLifecycle = ci_previousLifecycle i,
     te_lastOutputAt = ci_lastOutputAt i, te_requestedStop = ci_requestedStop i\<rparr>"

section \<open>Cleanup of an expected assignment\<close>

record cleanup_expected =
  ce_sessionId :: ident
  ce_hostBootId :: string
  ce_runtimeKey :: string
  ce_startedAt :: int
  ce_taskId :: "string option"
  ce_attemptId :: "string option"
  ce_generation :: "int option"
  ce_dispatchNonce :: "int option"

datatype cleanup_refusal =
  Expected_malformed | Host_boot_unknown | Host_boot_mismatch | Session_not_running | Incarnation_mismatch
| Unbound_now_bound | Bound_now_unbound | Assignment_mismatch | Session_still_running

definition MAX_SAFE_INTEGER :: int where "MAX_SAFE_INTEGER = 9007199254740991"

definition CLEANUP_PREFIX :: string where "CLEANUP_PREFIX = ''cleanup_after_stop_side_effect:''"

definition tagCleanupAfterStopSideEffect :: "string \<Rightarrow> string" where
  "tagCleanupAfterStopSideEffect code = CLEANUP_PREFIX @ code"

definition stripCleanupAfterStopSideEffect :: "string \<Rightarrow> bool \<times> string" where
  "stripCleanupAfterStopSideEffect raw =
     (if starts_with CLEANUP_PREFIX raw then (True, drop (length CLEANUP_PREFIX) raw) else (False, raw))"

definition hostBootIdFromStartedAt :: "int \<Rightarrow> string" where
  "hostBootIdFromStartedAt t = ''hs:'' @ js_int t"

definition resolveHostBootId :: "string option \<Rightarrow> int \<Rightarrow> string option" where
  "resolveHostBootId upgradeBootId hostStartedAt =
     (if truthy upgradeBootId then upgradeBootId
      else if hostStartedAt \<le> 0 then None else Some (hostBootIdFromStartedAt hostStartedAt))"

definition refuseCleanupExpectedIdentity :: "session_record option \<Rightarrow> cleanup_expected \<Rightarrow> string option \<Rightarrow> cleanup_refusal option" where
  "refuseCleanupExpectedIdentity record expected currentHostBootId =
     (if ce_sessionId expected \<noteq> (case record of Some r \<Rightarrow> sr_sessionId r | None \<Rightarrow> [])
         \<or> ce_hostBootId expected = [] \<or> ce_runtimeKey expected = []
         \<or> \<bar>ce_startedAt expected\<bar> > MAX_SAFE_INTEGER \<or> ce_startedAt expected \<le> 0
      then Some Expected_malformed
      else if \<not> truthy currentHostBootId then Some Host_boot_unknown
      else if Some (ce_hostBootId expected) \<noteq> currentHostBootId then Some Host_boot_mismatch
      else case record of
             None \<Rightarrow> Some Session_not_running
           | Some r \<Rightarrow> if sr_runtimeKey r \<noteq> ce_runtimeKey expected \<or> sr_startedAt r \<noteq> Some (ce_startedAt expected)
                      then Some Incarnation_mismatch else None)"

definition js_opt_string :: "string option \<Rightarrow> js_value" where
  "js_opt_string x = (case x of Some s \<Rightarrow> JStr s | None \<Rightarrow> JNull)"

definition js_opt_int :: "int option \<Rightarrow> js_value" where
  "js_opt_int x = (case x of Some n \<Rightarrow> JNum (of_int n) | None \<Rightarrow> JNull)"

definition active_assignment :: "session_record \<Rightarrow> js_value option" where
  "active_assignment r = map_of (sr_meta r) ''meshActiveAssignment''"

definition bound :: "js_value option \<Rightarrow> bool" where
  "bound active \<longleftrightarrow> truthy (as_string (member active ''taskId''))"

definition refuseCleanupExpectedAssignment :: "session_record \<Rightarrow> cleanup_expected \<Rightarrow> bool \<Rightarrow> cleanup_refusal option" where
  "refuseCleanupExpectedAssignment record expected allowClearedBound =
     (let active = active_assignment record
      in if ce_taskId expected = None then (if bound active then Some Unbound_now_bound else None)
         else if \<not> bound active then (if allowClearedBound then None else Some Bound_now_unbound)
         else if member active ''taskId'' \<noteq> Some (js_opt_string (ce_taskId expected))
                 \<or> member active ''attemptId'' \<noteq> Some (js_opt_string (ce_attemptId expected))
                 \<or> member active ''generation'' \<noteq> Some (js_opt_int (ce_generation expected))
                 \<or> member active ''dispatchNonce'' \<noteq> Some (js_opt_int (ce_dispatchNonce expected))
              then Some Assignment_mismatch
         else None)"

definition refuseCleanupExpectedStop :: "session_record option \<Rightarrow> cleanup_expected \<Rightarrow> string option \<Rightarrow> bool \<Rightarrow> cleanup_refusal option" where
  "refuseCleanupExpectedStop record expected currentHostBootId hasRuntime =
     (case refuseCleanupExpectedIdentity record expected currentHostBootId of
        Some e \<Rightarrow> Some e
      | None \<Rightarrow>
          (case record of
             None \<Rightarrow> Some Session_not_running
           | Some r \<Rightarrow>
               if sr_termination r \<noteq> None \<or> \<not> hasRuntime \<or> sr_lifecycle r \<noteq> L_running then Some Session_not_running
               else refuseCleanupExpectedAssignment r expected False))"

definition refuseCleanupExpectedDelete :: "session_record option \<Rightarrow> cleanup_expected \<Rightarrow> string option \<Rightarrow> bool \<Rightarrow> bool \<Rightarrow> cleanup_refusal option" where
  "refuseCleanupExpectedDelete record expected currentHostBootId hasRuntime force =
     (case record of
        None \<Rightarrow> Some Session_not_running
      | Some r \<Rightarrow>
          (case refuseCleanupExpectedIdentity record expected currentHostBootId of
             Some e \<Rightarrow> Some e
           | None \<Rightarrow>
               if hasRuntime then
                 (if \<not> force then Some Session_still_running
                  else if sr_termination r \<noteq> None \<or> sr_lifecycle r \<noteq> L_running then Some Session_not_running
                  else refuseCleanupExpectedAssignment r expected False)
               else refuseCleanupExpectedAssignment r expected True))"

text \<open>What an accepted cleanup proves: host, incarnation and assignment are the expected ones.\<close>

definition cleanup_identity :: "session_record \<Rightarrow> cleanup_expected \<Rightarrow> string option \<Rightarrow> bool" where
  "cleanup_identity r expected boot \<longleftrightarrow>
     sr_sessionId r = ce_sessionId expected \<and> boot = Some (ce_hostBootId expected)
     \<and> sr_runtimeKey r = ce_runtimeKey expected \<and> sr_startedAt r = Some (ce_startedAt expected)"

lemma identity_accepted:
  "refuseCleanupExpectedIdentity rec expected boot = None \<Longrightarrow> \<exists>r. rec = Some r \<and> cleanup_identity r expected boot"
  by (auto simp: refuseCleanupExpectedIdentity_def cleanup_identity_def split: option.splits if_splits)

definition assignment_matches :: "session_record \<Rightarrow> cleanup_expected \<Rightarrow> bool" where
  "assignment_matches r expected \<longleftrightarrow>
     (case ce_taskId expected of
        None \<Rightarrow> \<not> bound (active_assignment r)
      | Some t \<Rightarrow> list_all (\<lambda>(k, v). member (active_assignment r) k = Some v)
          [(''taskId'', JStr t), (''attemptId'', js_opt_string (ce_attemptId expected)),
           (''generation'', js_opt_int (ce_generation expected)), (''dispatchNonce'', js_opt_int (ce_dispatchNonce expected))])"

lemma assignment_accepted:
  "refuseCleanupExpectedAssignment r expected allow = None \<longleftrightarrow>
     assignment_matches r expected \<and> ce_taskId expected \<noteq> Some []
     \<or> allow \<and> ce_taskId expected \<noteq> None \<and> \<not> bound (active_assignment r)"
  by (auto simp: refuseCleanupExpectedAssignment_def assignment_matches_def Let_def bound_def js_opt_string_def as_string_def
      split: option.splits)


text \<open>
  C30. A cleanup stops only what it was meant for. When the host accepts a cleanup stop, the session runs
  on this boot of the host as the very incarnation the cleanup captured, with a live runtime and no
  termination stamp, and its assignment is the captured one, or still none where none was captured.
\<close>

theorem cleanup_stop_exact:
  assumes "refuseCleanupExpectedStop rec expected boot hasRuntime = None"
  shows "\<exists>r. rec = Some r \<and> cleanup_identity r expected boot \<and> assignment_matches r expected
    \<and> hasRuntime \<and> sr_lifecycle r = L_running \<and> sr_termination r = None"
  using assms
  by (auto simp: refuseCleanupExpectedStop_def assignment_accepted dest!: identity_accepted split: option.splits if_splits)

definition demo_expected :: cleanup_expected where
  "demo_expected = \<lparr>ce_sessionId = ''s1'', ce_hostBootId = ''hs:5'', ce_runtimeKey = ''claude'', ce_startedAt = 1,
     ce_taskId = None, ce_attemptId = None, ce_generation = None, ce_dispatchNonce = None\<rparr>"

theorem cleanup_stop_exact_witness:
  "cleanup_identity (demo_record ''s1'' ''claude'' L_running) demo_expected (Some ''hs:5'')"
proof -
  have "refuseCleanupExpectedStop (Some (demo_record ''s1'' ''claude'' L_running)) demo_expected (Some ''hs:5'') True = None"
    by (simp add: refuseCleanupExpectedStop_def refuseCleanupExpectedIdentity_def refuseCleanupExpectedAssignment_def
        demo_record_def demo_expected_def active_assignment_def bound_def member_def as_string_def MAX_SAFE_INTEGER_def)
  from cleanup_stop_exact[OF this] show ?thesis by simp
qed

section \<open>Duplicate sessions\<close>

definition lifecycle_score :: "session_lifecycle \<Rightarrow> int" where
  "lifecycle_score l = (case l of L_running \<Rightarrow> 4 | L_starting \<Rightarrow> 3 | L_stopping \<Rightarrow> 2 | L_interrupted \<Rightarrow> 1 | _ \<Rightarrow> 0)"

definition candidate_score :: "session_record \<Rightarrow> int list" where
  "candidate_score r =
     [lifecycle_score (sr_lifecycle r), if sr_writeOwner r \<noteq> None then 1 else 0, int (length (sr_attachedClients r)),
      sr_lastActivityAt r, case sr_startedAt r of Some t \<Rightarrow> t | None \<Rightarrow> 0, sr_createdAt r]"

fun compare_scores :: "int list \<Rightarrow> int list \<Rightarrow> int" where
  "compare_scores (a # as) (b # bs) = (if a = b then compare_scores as bs else b - a)"
| "compare_scores _ _ = 0"

definition compareDuplicateCandidates :: "session_record \<Rightarrow> session_record \<Rightarrow> int" where
  "compareDuplicateCandidates a b = compare_scores (candidate_score a) (candidate_score b)"

text \<open>\<open>Array.prototype.sort\<close> with a comparison: stable.\<close>

fun insert_by :: "('a \<Rightarrow> 'a \<Rightarrow> int) \<Rightarrow> 'a \<Rightarrow> 'a list \<Rightarrow> 'a list" where
  "insert_by cmp x [] = [x]"
| "insert_by cmp x (y # ys) = (if cmp x y \<le> 0 then x # y # ys else y # insert_by cmp x ys)"

definition sort_by :: "('a \<Rightarrow> 'a \<Rightarrow> int) \<Rightarrow> 'a list \<Rightarrow> 'a list" where
  "sort_by cmp xs = foldr (insert_by cmp) xs []"

record duplicate_group =
  dg_bindingKey :: string
  dg_providerType :: string
  dg_workspace :: string
  dg_providerSessionId :: string
  dg_keptSessionId :: ident
  dg_prunedSessionIds :: "ident list"

record prune_plan =
  pp_duplicateGroups :: "duplicate_group list"
  pp_keptSessionIds :: "ident list"
  pp_duplicateRecords :: "session_record list"

definition provider_session :: "session_record \<Rightarrow> string" where
  "provider_session r = (case as_string (map_of (sr_meta r) ''providerSessionId'') of Some s \<Rightarrow> js_trim s | None \<Rightarrow> [])"

definition binding_key :: "session_record \<Rightarrow> string" where
  "binding_key r = sr_providerType r @ ''::'' @ sr_workspace r @ ''::'' @ provider_session r"

definition prune_candidates :: "session_record list \<Rightarrow> string \<Rightarrow> string \<Rightarrow> session_record list" where
  "prune_candidates sessions providerFilter workspaceFilter =
     filter (\<lambda>r. workspaceFilter = [] \<or> sr_workspace r = workspaceFilter)
       (filter (\<lambda>r. providerFilter = [] \<or> sr_providerType r = providerFilter)
         (filter (\<lambda>r. sr_lifecycle r \<in> {L_starting, L_running, L_stopping, L_interrupted}) sessions))"

definition bucket :: "(string \<times> session_record list) list \<Rightarrow> session_record \<Rightarrow> (string \<times> session_record list) list" where
  "bucket groups r =
     (if provider_session r = [] then groups
      else AList.update (binding_key r) ((case map_of groups (binding_key r) of Some rs \<Rightarrow> rs | None \<Rightarrow> []) @ [r]) groups)"

definition add_group :: "prune_plan \<Rightarrow> string \<times> session_record list \<Rightarrow> prune_plan" where
  "add_group plan g =
     (if length (snd g) < 2 then plan
      else let sorted = sort_by compareDuplicateCandidates (snd g); kept = hd sorted; dups = tl sorted
           in \<lparr>pp_duplicateGroups = pp_duplicateGroups plan @
                 [\<lparr>dg_bindingKey = fst g, dg_providerType = sr_providerType kept, dg_workspace = sr_workspace kept,
                   dg_providerSessionId = (case as_string (map_of (sr_meta kept) ''providerSessionId'') of Some s \<Rightarrow> s | None \<Rightarrow> []),
                   dg_keptSessionId = sr_sessionId kept, dg_prunedSessionIds = map sr_sessionId dups\<rparr>],
               pp_keptSessionIds = pp_keptSessionIds plan @ [sr_sessionId kept],
               pp_duplicateRecords = pp_duplicateRecords plan @ dups\<rparr>)"

definition planDuplicatePrune :: "session_record list \<Rightarrow> string \<Rightarrow> string \<Rightarrow> prune_plan" where
  "planDuplicatePrune sessions providerFilter workspaceFilter =
     foldl add_group \<lparr>pp_duplicateGroups = [], pp_keptSessionIds = [], pp_duplicateRecords = []\<rparr>
       (foldl bucket [] (prune_candidates sessions providerFilter workspaceFilter))"

lemma insert_by_mset: "mset (insert_by cmp x xs) = add_mset x (mset xs)"
  by (induction xs) auto

lemma sort_by_mset [simp]: "mset (sort_by cmp xs) = mset xs"
  unfolding sort_by_def by (induction xs) (auto simp: insert_by_mset)

lemma sort_by_set [simp]: "set (sort_by cmp xs) = set xs"
  by (metis set_mset_mset sort_by_mset)

lemma sort_by_length [simp]: "length (sort_by cmp xs) = length xs"
  by (metis size_mset sort_by_mset)

text \<open>The comparison is a total preorder, so the head of the sorted list is a best one.\<close>

lemma compare_scores_trans:
  "length a = length b \<Longrightarrow> length b = length c \<Longrightarrow> compare_scores a b \<le> 0 \<Longrightarrow> compare_scores b c \<le> 0 \<Longrightarrow> compare_scores a c \<le> 0"
proof (induction a b arbitrary: c rule: compare_scores.induct)
  case (1 a as b bs)
  then show ?case by (cases c) (auto split: if_splits)
qed auto

lemma compare_scores_total: "compare_scores a b \<le> 0 \<or> compare_scores b a \<le> 0"
  by (induction a b rule: compare_scores.induct) auto

lemma candidates_trans:
  "compareDuplicateCandidates a b \<le> 0 \<Longrightarrow> compareDuplicateCandidates b c \<le> 0 \<Longrightarrow> compareDuplicateCandidates a c \<le> 0"
  unfolding compareDuplicateCandidates_def
  by (rule compare_scores_trans[of _ "candidate_score b"]) (simp_all add: candidate_score_def)

lemma compare_total: "compareDuplicateCandidates a b \<le> 0 \<or> compareDuplicateCandidates b a \<le> 0"
  by (simp add: compareDuplicateCandidates_def compare_scores_total)

lemma candidates_refl: "compareDuplicateCandidates a a \<le> 0"
  using compare_total by blast

lemma insert_by_hd:
  "x = hd (insert_by compareDuplicateCandidates x ys) \<and> (ys = [] \<or> compareDuplicateCandidates x (hd ys) \<le> 0)
   \<or> ys \<noteq> [] \<and> hd (insert_by compareDuplicateCandidates x ys) = hd ys \<and> compareDuplicateCandidates (hd ys) x \<le> 0"
  using compare_total by (cases ys) auto

lemma sort_by_hd: "r \<in> set rs \<Longrightarrow> compareDuplicateCandidates (hd (sort_by compareDuplicateCandidates rs)) r \<le> 0"
proof (induction rs)
  case (Cons x rs)
  have s: "sort_by compareDuplicateCandidates (x # rs) = insert_by compareDuplicateCandidates x (sort_by compareDuplicateCandidates rs)"
    by (simp add: sort_by_def)
  show ?case
  proof (cases "rs = []")
    case True
    with Cons.prems show ?thesis by (simp add: sort_by_def candidates_refl)
  next
    case False
    then have ne: "sort_by compareDuplicateCandidates rs \<noteq> []" by (metis length_0_conv sort_by_length)
    show ?thesis
      unfolding s using insert_by_hd[of x "sort_by compareDuplicateCandidates rs"] ne Cons candidates_trans candidates_refl
      by (metis set_ConsD)
  qed
qed simp


definition group_of :: "session_record list \<Rightarrow> string \<Rightarrow> session_record list" where
  "group_of rs k = filter (\<lambda>r. provider_session r \<noteq> [] \<and> binding_key r = k) rs"

lemma map_of_bucket:
  "map_of (bucket gs r) k =
     (if provider_session r \<noteq> [] \<and> k = binding_key r
      then Some ((case map_of gs k of Some rs \<Rightarrow> rs | None \<Rightarrow> []) @ [r]) else map_of gs k)"
  by (simp add: bucket_def js_map.get_put)

lemma map_of_buckets: "map_of (foldl bucket [] rs) k = (if group_of rs k = [] then None else Some (group_of rs k))"
  by (induction rs rule: rev_induct) (auto simp: map_of_bucket group_of_def split: if_splits)

lemma buckets_distinct: "distinct (map fst (foldl bucket [] rs))"
proof -
  have "distinct (map fst (bucket gs r))" if "distinct (map fst gs)" for gs r
    using that by (simp add: bucket_def distinct_update)
  then show ?thesis using foldl_invariant[of "\<lambda>gs. distinct (map fst gs)" "[]" rs bucket] by simp
qed

lemma bucket_group: "(k, g) \<in> set (foldl bucket [] rs) \<Longrightarrow> g = group_of rs k"
proof -
  assume "(k, g) \<in> set (foldl bucket [] rs)"
  then have "map_of (foldl bucket [] rs) k = Some g" by (rule map_of_is_SomeI[OF buckets_distinct])
  then show ?thesis unfolding map_of_buckets by (simp split: if_splits)
qed

lemma add_group_duplicates:
  "pp_duplicateRecords (add_group plan g) = pp_duplicateRecords plan @ tl (sort_by compareDuplicateCandidates (snd g))"
proof (cases "length (snd g) < 2")
  case True
  then have "length (sort_by compareDuplicateCandidates (snd g)) \<le> 1" by simp
  then have "tl (sort_by compareDuplicateCandidates (snd g)) = []"
    by (cases "sort_by compareDuplicateCandidates (snd g)") auto
  with True show ?thesis by (simp add: add_group_def)
qed (simp add: add_group_def Let_def)

lemma plan_duplicates:
  "pp_duplicateRecords (foldl add_group plan gs)
     = pp_duplicateRecords plan @ concat (map (\<lambda>g. tl (sort_by compareDuplicateCandidates (snd g))) gs)"
  by (induction gs arbitrary: plan) (simp_all add: add_group_duplicates)

lemma pruned_iff:
  fixes rs :: "session_record list"
  assumes "r \<in> set rs"
  shows "r \<in> set (concat (map (\<lambda>g. tl (sort_by compareDuplicateCandidates (snd g))) (foldl bucket [] rs)))
    \<longleftrightarrow> provider_session r \<noteq> [] \<and> r \<in> set (tl (sort_by compareDuplicateCandidates (group_of rs (binding_key r))))"
    (is "?l \<longleftrightarrow> ?r")
proof
  assume ?l
  then obtain k g where g: "(k, g) \<in> set (foldl bucket [] rs)" "r \<in> set (tl (sort_by compareDuplicateCandidates g))" by auto
  then have "g = group_of rs k" by (simp add: bucket_group)
  moreover have "r \<in> set g" using g(2) by (metis list.sel(2) list.set_sel(2) sort_by_set)
  ultimately show ?r using g(2) by (auto simp: group_of_def)
next
  assume r: ?r
  let ?g = "group_of rs (binding_key r)"
  have "?g \<noteq> []" using r assms by (auto simp: group_of_def filter_empty_conv)
  then have "(binding_key r, ?g) \<in> set (foldl bucket [] rs)" using map_of_buckets[of rs "binding_key r"] by (auto intro: map_of_SomeD)
  with r show ?l by force
qed

definition ranked :: "session_record list \<Rightarrow> string \<Rightarrow> session_record list" where
  "ranked rs k = sort_by compareDuplicateCandidates (group_of rs k)"

definition marked :: "session_record list \<Rightarrow> session_record list" where
  "marked rs = concat (map (\<lambda>g. tl (sort_by compareDuplicateCandidates (snd g))) (foldl bucket [] rs))"

abbreviation conversing :: "session_record list \<Rightarrow> session_record list" where
  "conversing rs \<equiv> filter (\<lambda>r. provider_session r \<noteq> []) rs"

lemma plan_marked: "pp_duplicateRecords (planDuplicatePrune sessions provider workspace) = marked (prune_candidates sessions provider workspace)"
  by (simp add: planDuplicatePrune_def plan_duplicates marked_def)

lemma marked_iff: "r \<in> set (conversing rs) \<Longrightarrow> r \<in> set (marked rs) \<longleftrightarrow> r \<in> set (tl (ranked rs (binding_key r)))"
  using pruned_iff[of r rs] by (auto simp: marked_def ranked_def)

lemma marked_conversing: "set (marked rs) \<subseteq> set (conversing rs)"
proof
  fix r assume "r \<in> set (marked rs)"
  then obtain k g where g: "(k, g) \<in> set (foldl bucket [] rs)" "r \<in> set (tl (sort_by compareDuplicateCandidates g))"
    by (auto simp: marked_def)
  then have "g = group_of rs k" by (simp add: bucket_group)
  moreover have "r \<in> set g" using g(2) by (metis list.sel(2) list.set_sel(2) sort_by_set)
  ultimately show "r \<in> set (conversing rs)" by (auto simp: group_of_def)
qed

lemma ranked_mem: "r \<in> set (conversing rs) \<Longrightarrow> r \<in> set (ranked rs (binding_key r))"
  by (simp add: ranked_def group_of_def)

lemma ranked_distinct: "distinct rs \<Longrightarrow> distinct (ranked rs k)"
  unfolding ranked_def group_of_def by (metis distinct_filter mset_eq_imp_distinct_iff sort_by_mset)

lemma ranked_head:
  assumes d: "distinct rs" and r: "r \<in> set (conversing rs)"
  shows "hd (ranked rs (binding_key r)) \<in> set (conversing rs)" "binding_key (hd (ranked rs (binding_key r))) = binding_key r"
    "hd (ranked rs (binding_key r)) \<notin> set (marked rs)"
proof -
  let ?S = "ranked rs (binding_key r)"
  have ne: "?S \<noteq> []" using ranked_mem[OF r] by (metis empty_iff list.set(1))
  then have "hd ?S \<in> set (group_of rs (binding_key r))" unfolding ranked_def using hd_in_set sort_by_set by metis
  then show h: "hd ?S \<in> set (conversing rs)" "binding_key (hd ?S) = binding_key r" by (auto simp: group_of_def)
  have "hd ?S \<notin> set (tl ?S)" using ranked_distinct[OF d] ne by (metis distinct.simps(2) list.collapse)
  then show "hd ?S \<notin> set (marked rs)" using marked_iff[OF h(1)] h(2) by simp
qed

lemma unmarked_head: "r \<in> set (conversing rs) \<Longrightarrow> r \<notin> set (marked rs) \<Longrightarrow> r = hd (ranked rs (binding_key r))"
  using ranked_mem marked_iff by (metis list.sel(1) list.set_cases list.sel(3))

lemma marked_outranked:
  assumes "distinct rs" "r \<in> set (marked rs)"
  shows "\<exists>k\<in>set (conversing rs). k \<notin> set (marked rs) \<and> binding_key k = binding_key r \<and> compareDuplicateCandidates k r \<le> 0"
proof -
  have r: "r \<in> set (conversing rs)" using assms(2) marked_conversing by blast
  then have "r \<in> set (group_of rs (binding_key r))" by (simp add: group_of_def)
  from sort_by_hd[OF this] ranked_head[OF assms(1) r] show ?thesis unfolding ranked_def by blast
qed

lemma unmarked_distinct:
  assumes "distinct rs"
  shows "distinct (map binding_key (filter (\<lambda>r. r \<notin> set (marked rs)) (conversing rs)))"
proof -
  have "inj_on binding_key (set (filter (\<lambda>r. r \<notin> set (marked rs)) (conversing rs)))"
  proof (rule inj_onI)
    fix a b assume a: "a \<in> set (filter (\<lambda>r. r \<notin> set (marked rs)) (conversing rs))"
      and b: "b \<in> set (filter (\<lambda>r. r \<notin> set (marked rs)) (conversing rs))" and e: "binding_key a = binding_key b"
    have "a = hd (ranked rs (binding_key a))" using a by (intro unmarked_head) auto
    moreover have "b = hd (ranked rs (binding_key b))" using b by (intro unmarked_head) auto
    ultimately show "a = b" using e by metis
  qed
  then show ?thesis using assms by (simp add: distinct_map)
qed

text \<open>
  C38. Pruning duplicates leaves one session per conversation, and the best one. The planner marks only live
  sessions within the filters that are bound to a provider conversation; for each one marked, an unmarked
  session of the same provider, workspace and conversation exists that ranks at least as high; and no two
  unmarked sessions share a conversation.
\<close>

theorem prune_keeps_best:
  assumes d: "distinct sessions"
  shows "let cands = filter (\<lambda>r. provider_session r \<noteq> []) (prune_candidates sessions provider workspace);
             dups = pp_duplicateRecords (planDuplicatePrune sessions provider workspace)
    in set dups \<subseteq> set cands
       \<and> (\<forall>r\<in>set dups. \<exists>k\<in>set cands. k \<notin> set dups \<and> binding_key k = binding_key r \<and> compareDuplicateCandidates k r \<le> 0)
       \<and> distinct (map binding_key (filter (\<lambda>r. r \<notin> set dups) cands))"
proof -
  have "distinct (prune_candidates sessions provider workspace)" using d by (simp add: prune_candidates_def)
  then show ?thesis unfolding Let_def plan_marked using marked_conversing marked_outranked unmarked_distinct by blast
qed

theorem prune_keeps_best_witness:
  "\<exists>k. k \<notin> set (pp_duplicateRecords (planDuplicatePrune
       [(demo_record ''s1'' ''a'' L_stopping)\<lparr>sr_meta := [(''providerSessionId'', JStr ''p'')]\<rparr>,
        (demo_record ''s2'' ''b'' L_running)\<lparr>sr_meta := [(''providerSessionId'', JStr ''p'')]\<rparr>] [] []))
     \<and> compareDuplicateCandidates k ((demo_record ''s1'' ''a'' L_stopping)\<lparr>sr_meta := [(''providerSessionId'', JStr ''p'')]\<rparr>) \<le> 0"
proof -
  let ?a = "(demo_record ''s1'' ''a'' L_stopping)\<lparr>sr_meta := [(''providerSessionId'', JStr ''p'')]\<rparr>"
  let ?b = "(demo_record ''s2'' ''b'' L_running)\<lparr>sr_meta := [(''providerSessionId'', JStr ''p'')]\<rparr>"
  have "distinct [?a, ?b]" by (simp add: demo_record_def)
  moreover have "?a \<in> set (pp_duplicateRecords (planDuplicatePrune [?a, ?b] [] []))" by code_simp
  ultimately show ?thesis using prune_keeps_best[of "[?a, ?b]" "[]" "[]"] unfolding Let_def by blast
qed

end
