(* ===== verification/SessionHost.thy ===== *)
theory SessionHost
  imports SessionRegistry SessionCleanup
begin

text \<open>
  The request handlers of \<open>session-host-daemon/src/server.ts\<close> that change sessions, composed from the
  registry, with the runtimes, the storage and the timers they touch. The terminals are outside: what is
  written to them is the log \<open>h_inputs\<close>, their output and exits are steps of their own, and whether a spawn
  succeeds (and with which process id) is an argument. A request that waits for an exit is two steps; the
  second is enabled by \<open>h_waiting\<close>. Sockets, diagnostics, the upgrade lease and the pruning request are
  left out; storage keeps the records without their text.
\<close>

section \<open>State\<close>

datatype host_event =
  Ev_created ident | Ev_started ident int | Ev_resumed ident int | Ev_output ident int js_text
| Ev_input ident int string ident | Ev_cleared ident | Ev_exit ident session_termination
| Ev_stopped ident | Ev_deleted ident | Ev_resized ident int int | Ev_owner ident "session_write_owner option"
| Ev_attached ident ident | Ev_detached ident ident

datatype waiting = Wait_restart ident | Wait_delete ident | Wait_delete_if ident cleanup_expected

record host =
  h_registry :: registry
  h_runtimes :: "ident list"
  h_inputs :: "(ident \<times> ident \<times> js_text) list"
  h_stopRequests :: "(ident \<times> stop_cause) list"
  h_storage :: "(ident \<times> session_record) list"
  h_tombstones :: "(ident \<times> session_termination) list"
  h_persistTimers :: "ident list"
  h_cleanups :: "ident list"
  h_waiting :: "waiting list"
  h_events :: "host_event list"
  h_bootId :: "string option"

datatype host_error =
  Registry_error registry_error | Client_read_only ident | Input_owned ident | Runtime_not_found ident
| Input_seq_mismatch | Still_running ident | Mesh_writer_changed | Cleanup_refused bool cleanup_refusal
| Spawn_failed | Unknown_runtime ident | Wait_timeout ident

datatype reply =
  R_record "session_record option" | R_input int string | R_deleted ident | R_already_absent ident | R_requested | R_waiting

type_synonym outcome = "(host_error + reply) \<times> host"

section \<open>Parts of the handlers\<close>

definition reg_do :: "registry_op \<Rightarrow> host \<Rightarrow> host" where
  "reg_do x h = h\<lparr>h_registry := registry_step (h_registry h) x\<rparr>"

definition emit :: "host_event \<Rightarrow> host \<Rightarrow> host" where
  "emit e h = h\<lparr>h_events := h_events h @ [e]\<rparr>"

definition session_of :: "host \<Rightarrow> ident \<Rightarrow> session_record option" where
  "session_of h sid = getSession sid (h_registry h)"

definition has_runtime :: "host \<Rightarrow> ident \<Rightarrow> bool" where
  "has_runtime h sid \<longleftrightarrow> sid \<in> set (h_runtimes h)"

definition getAttachedClient :: "host \<Rightarrow> ident \<Rightarrow> ident \<Rightarrow> session_attached_client option" where
  "getAttachedClient h sid clientId =
     (case session_of h sid of
        None \<Rightarrow> None
      | Some rec \<Rightarrow> List.find (\<lambda>c. cl_clientId c = clientId) (sr_attachedClients rec))"

definition schedulePersist :: "ident \<Rightarrow> host \<Rightarrow> host" where
  "schedulePersist sid h = h\<lparr>h_persistTimers := removeAll sid (h_persistTimers h) @ [sid]\<rparr>"

definition persistNow :: "ident \<Rightarrow> bool \<Rightarrow> host \<Rightarrow> host" where
  "persistNow sid allowTerminal h =
     (case session_of h sid of
        None \<Rightarrow> h
      | Some rec \<Rightarrow>
          if \<not> allowTerminal \<and> isTerminalRecord (Some rec) then h
          else (reg_do (Op_snapshot sid None) h)\<lparr>h_storage := AList.update sid rec (h_storage h)\<rparr>)"

text \<open>A failed registry call ends the handler with its error and no change.\<close>

definition try_reg :: "registry_error + 'a \<times> registry \<Rightarrow> host \<Rightarrow> ('a \<Rightarrow> host \<Rightarrow> outcome) \<Rightarrow> outcome" where
  "try_reg res h k =
     (case res of Inl e \<Rightarrow> (Inl (Registry_error e), h) | Inr (x, r) \<Rightarrow> k x (h\<lparr>h_registry := r\<rparr>))"

definition announceInput :: "ident \<Rightarrow> ident \<Rightarrow> host \<Rightarrow> host" where
  "announceInput sid clientId h =
     (case recordInput sid (h_registry h) of
        Inl _ \<Rightarrow> h
      | Inr (seq, r) \<Rightarrow>
          (case getInputState sid r of
             Inl _ \<Rightarrow> h
           | Inr ((_, e), r') \<Rightarrow> emit (Ev_input sid seq e clientId) (h\<lparr>h_registry := r'\<rparr>)))"

definition write_runtime :: "ident \<Rightarrow> ident \<Rightarrow> js_text \<Rightarrow> host \<Rightarrow> host" where
  "write_runtime sid clientId data h = h\<lparr>h_inputs := h_inputs h @ [(sid, clientId, data)]\<rparr>"

text \<open>The two refusals that \<open>send_input\<close> and \<open>send_input_if_seq\<close> share, then the runtime lookup.\<close>

definition may_write :: "ident \<Rightarrow> ident \<Rightarrow> host \<Rightarrow> host_error option" where
  "may_write sid clientId h =
     (if (case getAttachedClient h sid clientId of Some c \<Rightarrow> cl_readOnly c | None \<Rightarrow> False) then Some (Client_read_only clientId)
      else case Option.bind (session_of h sid) (other_owner clientId) of
             Some other \<Rightarrow> Some (Input_owned other)
           | None \<Rightarrow> if has_runtime h sid then None else Some (Runtime_not_found sid))"

section \<open>Requests\<close>

definition create_session :: "create_payload \<Rightarrow> ident \<Rightarrow> int option \<Rightarrow> ms \<Rightarrow> host \<Rightarrow> outcome" where
  "create_session p uuid spawn now h =
     try_reg (createSession p uuid now (h_registry h)) h (\<lambda>rec h1.
       let sid = sr_sessionId rec;
           h2 = reg_do (Op_lifecycle sid L_starting now) (emit (Ev_created sid) (schedulePersist sid h1))
       in case spawn of
            None \<Rightarrow> (Inl Spawn_failed, persistNow sid False (reg_do (Op_stopped sid L_failed None now) h2))
          | Some pid \<Rightarrow>
              let h3 = reg_do (Op_started sid (Some pid) now) (h2\<lparr>h_runtimes := List.insert sid (h_runtimes h2)\<rparr>)
              in (Inr (R_record (session_of h3 sid)), emit (Ev_started sid pid) (persistNow sid False h3)))"

text \<open>\<open>startRuntime\<close> of an existing record, as \<open>resume_session\<close> and the second half of a restart call it.\<close>

definition start_again :: "ident \<Rightarrow> int option \<Rightarrow> ms \<Rightarrow> host \<Rightarrow> outcome" where
  "start_again sid spawn now h =
     try_reg (setLifecycle sid L_starting now (h_registry h)) h (\<lambda>_ h1.
       case spawn of
         None \<Rightarrow> (Inl Spawn_failed, h1)
       | Some pid \<Rightarrow>
           let h2 = reg_do (Op_started sid (Some pid) now) (h1\<lparr>h_runtimes := List.insert sid (h_runtimes h1)\<rparr>)
           in (Inr (R_record (session_of h2 sid)), emit (Ev_resumed sid pid) (persistNow sid False h2)))"

definition attach_session :: "attach_payload \<Rightarrow> incarnation option option \<Rightarrow> ms \<Rightarrow> host \<Rightarrow> outcome" where
  "attach_session p pin now h =
     try_reg (case pin of None \<Rightarrow> attachClient p now (h_registry h)
              | Some expected \<Rightarrow> attachClientIfIncarnation p expected now (h_registry h)) h
       (\<lambda>rec h1. (Inr (R_record (Some rec)), emit (Ev_attached (sr_sessionId rec) (ap_clientId p)) (schedulePersist (sr_sessionId rec) h1)))"

definition detach_session :: "ident \<Rightarrow> ident \<Rightarrow> ms \<Rightarrow> host \<Rightarrow> outcome" where
  "detach_session sid clientId now h =
     try_reg (detachClient sid clientId now (h_registry h)) h
       (\<lambda>rec h1. (Inr (R_record (Some rec)), emit (Ev_detached sid clientId) (schedulePersist sid h1)))"

definition acquire_write :: "ident \<Rightarrow> ident \<Rightarrow> session_owner_type \<Rightarrow> bool \<Rightarrow> ms \<Rightarrow> host \<Rightarrow> outcome" where
  "acquire_write sid clientId ownerType force now h =
     try_reg (acquireWrite sid clientId ownerType force now (h_registry h)) h
       (\<lambda>rec h1. (Inr (R_record (Some rec)), emit (Ev_owner sid (sr_writeOwner rec)) (persistNow sid False h1)))"

definition release_write :: "ident \<Rightarrow> ident \<Rightarrow> ms \<Rightarrow> host \<Rightarrow> outcome" where
  "release_write sid clientId now h =
     try_reg (releaseWrite sid clientId now (h_registry h)) h
       (\<lambda>rec h1. (Inr (R_record (Some rec)), emit (Ev_owner sid (sr_writeOwner rec)) (persistNow sid False h1)))"

definition clear_session_buffer :: "ident \<Rightarrow> ms \<Rightarrow> host \<Rightarrow> outcome" where
  "clear_session_buffer sid now h =
     try_reg (clearBuffer sid now (h_registry h)) h
       (\<lambda>rec h1. (Inr (R_record (Some rec)), emit (Ev_cleared sid) (persistNow sid False h1)))"

definition update_session_meta :: "ident \<Rightarrow> js_object \<Rightarrow> bool \<Rightarrow> ms \<Rightarrow> host \<Rightarrow> outcome" where
  "update_session_meta sid meta replace now h =
     try_reg (updateSessionMeta sid meta replace now (h_registry h)) h
       (\<lambda>rec h1. (Inr (R_record (Some rec)), persistNow sid False h1))"

definition send_input :: "ident \<Rightarrow> ident \<Rightarrow> js_text \<Rightarrow> host \<Rightarrow> outcome" where
  "send_input sid clientId data h =
     (case may_write sid clientId h of
        Some e \<Rightarrow> (Inl e, h)
      | None \<Rightarrow>
          try_reg (getSnapshot sid None (h_registry h)) h (\<lambda>_ h1.
            let h2 = write_runtime sid clientId data (announceInput sid clientId h1)
            in (Inr (R_record (session_of h2 sid)), h2)))"

definition get_input_state :: "ident \<Rightarrow> host \<Rightarrow> outcome" where
  "get_input_state sid h =
     try_reg (getInputState sid (h_registry h)) h (\<lambda>(q, e) h1. (Inr (R_input q e), h1))"

definition send_input_if_seq :: "ident \<Rightarrow> ident \<Rightarrow> js_text \<Rightarrow> int \<Rightarrow> string \<Rightarrow> host \<Rightarrow> outcome" where
  "send_input_if_seq sid clientId data expectedSeq expectedEpoch h =
     (case may_write sid clientId h of
        Some e \<Rightarrow> (Inl e, h)
      | None \<Rightarrow>
          try_reg (getInputState sid (h_registry h)) h (\<lambda>(q, e) h1.
            if q \<noteq> expectedSeq \<or> e \<noteq> expectedEpoch then (Inl Input_seq_mismatch, h1)
            else let h2 = write_runtime sid clientId data (announceInput sid clientId h1)
                 in (Inr (R_record (session_of h2 sid)), h2)))"

definition resize_session :: "ident \<Rightarrow> int \<Rightarrow> int \<Rightarrow> host \<Rightarrow> outcome" where
  "resize_session sid cols rows h =
     (if \<not> has_runtime h sid then (Inl (Runtime_not_found sid), h)
      else let h1 = (case session_of h sid of
                       None \<Rightarrow> h
                     | Some rec \<Rightarrow>
                         (case getSnapshot sid None (h_registry h) of
                            Inl _ \<Rightarrow> h
                          | Inr (shot, r) \<Rightarrow>
                              reg_do (Op_restore (rec\<lparr>sr_meta := spread (sr_meta rec)
                                    [(''sessionHostCols'', JNum (of_int cols)), (''sessionHostRows'', JNum (of_int rows))]\<rparr>)
                                  (Some (sn_seq shot, sn_text shot))) (h\<lparr>h_registry := r\<rparr>)));
               h2 = emit (Ev_resized sid cols rows) (schedulePersist sid h1)
           in (Inr (R_record (session_of h2 sid)), h2))"

text \<open>\<open>stop_session\<close>: the request is noted and the life cycle set before the runtime is looked up.\<close>

definition request_stop :: "stop_cause \<Rightarrow> ident \<Rightarrow> ms \<Rightarrow> host \<Rightarrow> host" where
  "request_stop cause sid now h =
     persistNow sid False (reg_do (Op_lifecycle sid L_stopping now) (h\<lparr>h_stopRequests := AList.update sid cause (h_stopRequests h)\<rparr>))"

definition stop_session :: "ident \<Rightarrow> ms \<Rightarrow> host \<Rightarrow> outcome" where
  "stop_session sid now h =
     (if session_of h sid = None
      then (Inl (Registry_error (Unknown_session sid)), h\<lparr>h_stopRequests := AList.update sid Req_stop (h_stopRequests h)\<rparr>)
      else let h1 = request_stop Req_stop sid now h
           in if \<not> has_runtime h sid then (Inl (Runtime_not_found sid), h1)
              else let h2 = emit (Ev_stopped sid) h1 in (Inr (R_record (session_of h2 sid)), h2))"

definition handleStopSessionIfExpected :: "ident \<Rightarrow> cleanup_expected \<Rightarrow> ms \<Rightarrow> host \<Rightarrow> outcome" where
  "handleStopSessionIfExpected sid expected now h =
     (case refuseCleanupExpectedStop (session_of h sid) expected (h_bootId h) (has_runtime h sid) of
        Some e \<Rightarrow> (Inl (Cleanup_refused False e), h)
      | None \<Rightarrow> let h1 = emit (Ev_stopped sid) (request_stop Req_stop sid now h)
               in (Inr (R_record (session_of h1 sid)), h1))"


definition js_truthy :: "js_value option \<Rightarrow> bool" where
  "js_truthy v = (case v of None \<Rightarrow> False | Some JNull \<Rightarrow> False | Some (JBool b) \<Rightarrow> b | Some (JNum n) \<Rightarrow> n \<noteq> 0
     | Some (JStr s) \<Rightarrow> s \<noteq> [] | Some _ \<Rightarrow> True)"

definition safe_nat :: "js_value \<Rightarrow> bool" where
  "safe_nat v = (case v of JNum n \<Rightarrow> n \<ge> 0 \<and> of_int (floor n) = n \<and> floor n \<le> MAX_SAFE_INTEGER | _ \<Rightarrow> False)"

definition nonempty_text :: "js_value \<Rightarrow> bool" where
  "nonempty_text v = (case v of JStr s \<Rightarrow> s \<noteq> [] | _ \<Rightarrow> False)"

record mesh_writer_target =
  mw_sessionId :: ident
  mw_clientId :: ident
  mw_runtimeKey :: string
  mw_startedAt :: int
  mw_osPid :: int
  mw_providerType :: string
  mw_assignment :: js_object

definition ASSIGNMENT_KEYS :: "string list" where
  "ASSIGNMENT_KEYS = [''meshId'', ''nodeId'', ''taskId'', ''attemptId'', ''generation'', ''dispatchNonce'', ''ownerDaemonId'']"

definition key_agrees :: "js_object \<Rightarrow> js_value option \<Rightarrow> string \<Rightarrow> bool" where
  "key_agrees assignment active key =
     (case map_of assignment key of
        None \<Rightarrow> False
      | Some v \<Rightarrow> (if key \<in> {''generation'', ''dispatchNonce''} then safe_nat v else nonempty_text v) \<and> member active key = Some v)"

definition mesh_writer_matches :: "mesh_writer_target \<Rightarrow> session_record \<Rightarrow> bool" where
  "mesh_writer_matches p rec \<longleftrightarrow>
     sr_termination rec = None \<and> sr_lifecycle rec \<in> {L_running, L_stopping} \<and> sr_category rec = Cat_cli
     \<and> sr_providerType rec = mw_providerType p \<and> sr_runtimeKey rec = mw_runtimeKey p
     \<and> sr_startedAt rec = Some (mw_startedAt p) \<and> sr_osPid rec = Some (mw_osPid p)
     \<and> (case sr_writeOwner rec of None \<Rightarrow> False | Some w \<Rightarrow> wo_clientId w = mw_clientId p \<and> wo_ownerType w = Own_agent)
     \<and> \<not> js_truthy (map_of (sr_meta rec) ''assistant'') \<and> \<not> js_truthy (map_of (sr_meta rec) ''meshCoordinatorFor'')
     \<and> member (map_of (sr_meta rec) ''launchRecord'') ''launchedBy'' \<noteq> Some (JStr ''assistant'')
     \<and> \<not> js_truthy (member (map_of (sr_meta rec) ''launchRecord'') ''roleLaunch'')
     \<and> 0 < mw_osPid p \<and> mw_osPid p \<le> MAX_SAFE_INTEGER \<and> 0 < mw_startedAt p \<and> mw_startedAt p \<le> MAX_SAFE_INTEGER
     \<and> list_all (key_agrees (mw_assignment p) (active_assignment rec)) ASSIGNMENT_KEYS"

definition stop_mesh_writer :: "mesh_writer_target \<Rightarrow> ms \<Rightarrow> host \<Rightarrow> outcome" where
  "stop_mesh_writer p now h =
     (let sid = mw_sessionId p
      in case session_of h sid of
           None \<Rightarrow> (Inl Mesh_writer_changed, h)
         | Some rec \<Rightarrow>
             if has_runtime h sid \<and> mesh_writer_matches p rec then (Inr R_requested, request_stop Req_stop sid now h)
             else (Inl Mesh_writer_changed, h))"

text \<open>Requests that wait for the process to end: what happens before the wait, and after it.\<close>

definition wait_for :: "waiting \<Rightarrow> host \<Rightarrow> host" where
  "wait_for w h = h\<lparr>h_waiting := h_waiting h @ [w]\<rparr>"

definition drop_session :: "ident \<Rightarrow> host \<Rightarrow> host" where
  "drop_session sid h = emit (Ev_deleted sid) ((reg_do (Op_delete sid) h)\<lparr>h_storage := AList.delete sid (h_storage h),
     h_tombstones := AList.delete sid (h_tombstones h), h_stopRequests := AList.delete sid (h_stopRequests h)\<rparr>)"

definition delete_session :: "ident \<Rightarrow> bool \<Rightarrow> ms \<Rightarrow> host \<Rightarrow> outcome" where
  "delete_session sid force now h =
     (if session_of h sid = None then (Inl (Registry_error (Unknown_session sid)), h)
      else if has_runtime h sid
        then (if \<not> force then (Inl (Still_running sid), h)
              else (Inr R_waiting, wait_for (Wait_delete sid) (request_stop Req_delete sid now h)))
      else (Inr (R_deleted sid), drop_session sid h))"

definition delete_if_finish :: "bool \<Rightarrow> ident \<Rightarrow> cleanup_expected \<Rightarrow> host \<Rightarrow> outcome" where
  "delete_if_finish stopRequested sid expected h =
     (if session_of h sid = None then (Inr (R_already_absent sid), h)
      else case refuseCleanupExpectedDelete (session_of h sid) expected (h_bootId h) (has_runtime h sid) False of
             Some e \<Rightarrow> (Inl (Cleanup_refused stopRequested e), h)
           | None \<Rightarrow> (Inr (R_deleted sid), drop_session sid h))"

definition handleDeleteSessionIfExpected :: "ident \<Rightarrow> cleanup_expected \<Rightarrow> bool \<Rightarrow> ms \<Rightarrow> host \<Rightarrow> outcome" where
  "handleDeleteSessionIfExpected sid expected force now h =
     (if session_of h sid = None then (Inr (R_already_absent sid), h)
      else case refuseCleanupExpectedDelete (session_of h sid) expected (h_bootId h) (has_runtime h sid) force of
             Some e \<Rightarrow> (Inl (Cleanup_refused False e), h)
           | None \<Rightarrow>
               if has_runtime h sid
               then (Inr R_waiting, wait_for (Wait_delete_if sid expected) (request_stop Req_delete sid now h))
               else delete_if_finish False sid expected h)"

definition resume_session :: "ident \<Rightarrow> int option \<Rightarrow> ms \<Rightarrow> host \<Rightarrow> outcome" where
  "resume_session sid spawn now h =
     (case session_of h sid of
        None \<Rightarrow> (Inl (Unknown_runtime sid), h)
      | Some existing \<Rightarrow> if has_runtime h sid then (Inr (R_record (Some existing)), h) else start_again sid spawn now h)"

definition restartRuntime :: "ident \<Rightarrow> int option \<Rightarrow> ms \<Rightarrow> host \<Rightarrow> outcome" where
  "restartRuntime sid spawn now h =
     (case session_of h sid of
        None \<Rightarrow> (Inl (Unknown_runtime sid), h)
      | Some _ \<Rightarrow>
          if has_runtime h sid
          then (Inr R_waiting, wait_for (Wait_restart sid) (request_stop Req_restart sid now h))
          else start_again sid spawn now h)"

definition force_detach_client :: "ident \<Rightarrow> ident \<Rightarrow> ms \<Rightarrow> host \<Rightarrow> outcome" where
  "force_detach_client sid clientId now h =
     (let h1 = (if (case session_of h sid of Some rec \<Rightarrow> owned_by clientId rec | None \<Rightarrow> False)
                then (let h' = reg_do (Op_release sid clientId now) h
                      in emit (Ev_owner sid (Option.bind (session_of h' sid) sr_writeOwner)) h')
                else h)
      in try_reg (detachClient sid clientId now (h_registry h1)) h1
           (\<lambda>rec h2. (Inr (R_record (Some rec)), emit (Ev_detached sid clientId) (schedulePersist sid h2))))"

section \<open>Steps that are not requests\<close>

definition runtime_data :: "ident \<Rightarrow> js_text \<Rightarrow> ms \<Rightarrow> host \<Rightarrow> host" where
  "runtime_data sid data now h =
     (case appendOutput sid data now (h_registry h) of
        Inl _ \<Rightarrow> h
      | Inr ((_, seq), r) \<Rightarrow> emit (Ev_output sid seq data) (schedulePersist sid (h\<lparr>h_registry := r\<rparr>)))"

definition exit_termination :: "ident \<Rightarrow> int option \<Rightarrow> int option \<Rightarrow> ms \<Rightarrow> host \<Rightarrow> session_termination" where
  "exit_termination sid exitCode signal now h = classifyTermination \<lparr>ci_exitCode = exitCode, ci_signal = signal,
     ci_osPid = Option.bind (session_of h sid) sr_osPid, ci_previousLifecycle = map_option sr_lifecycle (session_of h sid),
     ci_lastOutputAt = map_option sr_lastActivityAt (session_of h sid), ci_requestedStop = map_of (h_stopRequests h) sid,
     ci_terminatedAt = now\<rparr>"

text \<open>
  \<open>markStopped\<close> throws for a session that is no longer registered, and the handler ends there. Otherwise the
  record is stamped, the runtime forgotten, the pending write cancelled, the record and a tombstone
  written, and the removal of the record scheduled.
\<close>

definition handleRuntimeExit :: "ident \<Rightarrow> int option \<Rightarrow> int option \<Rightarrow> ms \<Rightarrow> host \<Rightarrow> host" where
  "handleRuntimeExit sid exitCode signal now h =
     (let t = exit_termination sid exitCode signal now h; h1 = h\<lparr>h_stopRequests := AList.delete sid (h_stopRequests h)\<rparr>
      in if session_of h sid = None then h1
         else let h2 = (reg_do (Op_stopped sid (te_lifecycle t) (Some t) now) h1)
                         \<lparr>h_runtimes := removeAll sid (h_runtimes h1), h_persistTimers := removeAll sid (h_persistTimers h1)\<rparr>;
                  h3 = persistNow sid True h2
              in emit (Ev_exit sid t) (h3\<lparr>h_tombstones := AList.update sid t (h_tombstones h3), h_cleanups := h_cleanups h3 @ [sid]\<rparr>))"

definition cleanup_timer :: "ident \<Rightarrow> host \<Rightarrow> host" where
  "cleanup_timer sid h =
     (if sid \<notin> set (h_cleanups h) then h
      else let h1 = h\<lparr>h_cleanups := remove1 sid (h_cleanups h)\<rparr>
           in case session_of h1 sid of
                Some rec \<Rightarrow> if \<not> isTerminalRecord (Some rec) then h1
                           else (reg_do (Op_delete sid) h1)\<lparr>h_storage := AList.delete sid (h_storage h1)\<rparr>
              | None \<Rightarrow> (reg_do (Op_delete sid) h1)\<lparr>h_storage := AList.delete sid (h_storage h1)\<rparr>)"

definition persist_timer :: "ident \<Rightarrow> host \<Rightarrow> host" where
  "persist_timer sid h =
     (if sid \<notin> set (h_persistTimers h) then h
      else persistNow sid False (h\<lparr>h_persistTimers := removeAll sid (h_persistTimers h)\<rparr>))"

text \<open>The rest of a waiting request; a restart that timed out fails, a delete that timed out goes on.\<close>

definition finish_wait :: "waiting \<Rightarrow> bool \<Rightarrow> int option \<Rightarrow> ms \<Rightarrow> host \<Rightarrow> outcome" where
  "finish_wait w timedOut spawn now h =
     (if w \<notin> set (h_waiting h) then (Inr R_waiting, h)
      else let h1 = h\<lparr>h_waiting := remove1 w (h_waiting h)\<rparr>
           in case w of
                Wait_restart sid \<Rightarrow> if timedOut then (Inl (Wait_timeout sid), h1) else start_again sid spawn now h1
              | Wait_delete sid \<Rightarrow> (Inr (R_deleted sid), drop_session sid h1)
              | Wait_delete_if sid expected \<Rightarrow> delete_if_finish True sid expected h1)"

section \<open>Start and runs\<close>

definition recovered_meta :: "session_record \<Rightarrow> js_object" where
  "recovered_meta rec =
     (let wasLive = sr_lifecycle rec \<notin> {L_stopped, L_failed}; hadClients = (sr_attachedClients rec \<noteq> []);
          hadOwner = (sr_writeOwner rec \<noteq> None)
      in spread (sr_meta rec)
           [(''restoredFromStorage'', JBool True),
            (''runtimeRecoveryState'', JStr (if wasLive then ''orphan_snapshot'' else ''snapshot'')),
            (''runtimeHadAttachedClientsAtCrash'', JBool hadClients),
            (''runtimeHadWriteOwnerAtCrash'', JBool hadOwner),
            (''runtimeAutoResumeSkipped'', JBool (wasLive \<and> (hadClients \<or> hadOwner)))])"

definition buildRecoveredRecord :: "session_record \<Rightarrow> ms \<Rightarrow> session_record" where
  "buildRecoveredRecord rec now = rec\<lparr>sr_attachedClients := [], sr_writeOwner := None,
     sr_lifecycle := (if sr_lifecycle rec \<notin> {L_stopped, L_failed} then L_stopped else sr_lifecycle rec),
     sr_lastActivityAt := now, sr_meta := recovered_meta rec\<rparr>"

definition restore_persisted :: "ms \<Rightarrow> host \<Rightarrow> session_record \<times> (int \<times> js_text) option \<Rightarrow> host" where
  "restore_persisted now h p =
     (let rec = buildRecoveredRecord (fst p) now
      in (reg_do (Op_restore rec (snd p)) h)\<lparr>h_storage := AList.update (sr_sessionId rec) rec (h_storage h)\<rparr>)"

definition start_host :: "string \<Rightarrow> string option \<Rightarrow> (session_record \<times> (int \<times> js_text) option) list \<Rightarrow> ms \<Rightarrow> host" where
  "start_host lifetimeId bootId persisted now =
     foldl (restore_persisted now)
       \<lparr>h_registry = new_registry lifetimeId, h_runtimes = [], h_inputs = [], h_stopRequests = [], h_storage = [],
        h_tombstones = [], h_persistTimers = [], h_cleanups = [], h_waiting = [], h_events = [], h_bootId = bootId\<rparr> persisted"

datatype host_step =
  Create create_payload ident "int option" ms
| Attach attach_payload "incarnation option option" ms
| Detach ident ident ms
| Acquire ident ident session_owner_type bool ms
| Release ident ident ms
| Clear_buffer ident ms
| Update_meta ident js_object bool ms
| Send_input ident ident js_text
| Get_input_state ident
| Send_input_if_seq ident ident js_text int string
| Resize ident int int
| Stop ident ms
| Stop_if_expected ident cleanup_expected ms
| Stop_mesh_writer mesh_writer_target ms
| Delete ident bool ms
| Delete_if_expected ident cleanup_expected bool ms
| Resume ident "int option" ms
| Restart ident "int option" ms
| Force_detach ident ident ms
| Finish waiting bool "int option" ms
| Data ident js_text ms
| Exit ident "int option" "int option" ms
| Cleanup_timer ident
| Persist_timer ident

fun handle :: "host_step \<Rightarrow> host \<Rightarrow> outcome" where
  "handle (Create p uuid spawn now) h = create_session p uuid spawn now h"
| "handle (Attach p pin now) h = attach_session p pin now h"
| "handle (Detach sid c now) h = detach_session sid c now h"
| "handle (Acquire sid c t force now) h = acquire_write sid c t force now h"
| "handle (Release sid c now) h = release_write sid c now h"
| "handle (Clear_buffer sid now) h = clear_session_buffer sid now h"
| "handle (Update_meta sid m rep now) h = update_session_meta sid m rep now h"
| "handle (Send_input sid c data) h = send_input sid c data h"
| "handle (Get_input_state sid) h = get_input_state sid h"
| "handle (Send_input_if_seq sid c data q e) h = send_input_if_seq sid c data q e h"
| "handle (Resize sid cols rows) h = resize_session sid cols rows h"
| "handle (Stop sid now) h = stop_session sid now h"
| "handle (Stop_if_expected sid e now) h = handleStopSessionIfExpected sid e now h"
| "handle (Stop_mesh_writer p now) h = stop_mesh_writer p now h"
| "handle (Delete sid force now) h = delete_session sid force now h"
| "handle (Delete_if_expected sid e force now) h = handleDeleteSessionIfExpected sid e force now h"
| "handle (Resume sid spawn now) h = resume_session sid spawn now h"
| "handle (Restart sid spawn now) h = restartRuntime sid spawn now h"
| "handle (Force_detach sid c now) h = force_detach_client sid c now h"
| "handle (Finish w timedOut spawn now) h = finish_wait w timedOut spawn now h"
| "handle (Data sid data now) h = (Inr R_waiting, runtime_data sid data now h)"
| "handle (Exit sid code signal now) h = (Inr R_waiting, handleRuntimeExit sid code signal now h)"
| "handle (Cleanup_timer sid) h = (Inr R_waiting, cleanup_timer sid h)"
| "handle (Persist_timer sid) h = (Inr R_waiting, persist_timer sid h)"

definition host_run :: "host \<Rightarrow> host_step list \<Rightarrow> host" where
  "host_run = foldl (\<lambda>h x. snd (handle x h))"


section \<open>Every handler is a trace of registry operations\<close>

definition inputs_of :: "ident \<Rightarrow> host \<Rightarrow> (ident \<times> ident \<times> js_text) list" where
  "inputs_of sid h = filter (\<lambda>(s, _, _). s = sid) (h_inputs h)"

definition traced :: "ident \<Rightarrow> host \<Rightarrow> host \<Rightarrow> bool" where
  "traced sid h h' \<longleftrightarrow>
     (\<exists>xs. h_registry h' = foldl registry_step (h_registry h) xs
        \<and> (Op_record_input sid \<notin> set xs \<longrightarrow> inputs_of sid h' = inputs_of sid h))"

named_theorems traced_intros

lemma traced_same: "h_registry h' = h_registry h \<Longrightarrow> h_inputs h' = h_inputs h \<Longrightarrow> traced sid h h'"
  unfolding traced_def by (rule exI[of _ "[]"]) (simp add: inputs_of_def)

lemma traced_refl [traced_intros]: "traced sid h h"
  by (simp add: traced_same)

lemma traced_trans: "traced sid h h' \<Longrightarrow> traced sid h' h'' \<Longrightarrow> traced sid h h''"
  unfolding traced_def by (metis (no_types, lifting) Un_iff foldl_append set_append)

lemma traced_via: "traced sid h h' \<Longrightarrow> h_registry h'' = h_registry h' \<Longrightarrow> h_inputs h'' = h_inputs h' \<Longrightarrow> traced sid h h''"
  by (rule traced_trans[OF _ traced_same])

lemma traced_step: "h_registry h' = registry_step (h_registry h) x \<Longrightarrow> h_inputs h' = h_inputs h \<Longrightarrow> traced sid h h'"
  unfolding traced_def by (rule exI[of _ "[x]"]) (simp add: inputs_of_def)

lemma traced_reg_do [traced_intros]: "traced sid h h' \<Longrightarrow> traced sid h (reg_do x h')"
  by (erule traced_trans) (rule traced_step[of _ _ x], simp_all add: reg_do_def)

lemma traced_emit [traced_intros]: "traced sid h h' \<Longrightarrow> traced sid h (emit e h')"
  by (erule traced_via) (simp_all add: emit_def)

lemma traced_schedule [traced_intros]: "traced sid h h' \<Longrightarrow> traced sid h (schedulePersist k h')"
  by (erule traced_via) (simp_all add: schedulePersist_def)

lemma traced_wait [traced_intros]: "traced sid h h' \<Longrightarrow> traced sid h (wait_for w h')"
  by (erule traced_via) (simp_all add: wait_for_def)

lemma traced_fields [traced_intros]:
  "traced sid h h' \<Longrightarrow> traced sid h (h'\<lparr>h_runtimes := a\<rparr>)"
  "traced sid h h' \<Longrightarrow> traced sid h (h'\<lparr>h_stopRequests := b\<rparr>)"
  "traced sid h h' \<Longrightarrow> traced sid h (h'\<lparr>h_storage := c\<rparr>)"
  "traced sid h h' \<Longrightarrow> traced sid h (h'\<lparr>h_tombstones := d\<rparr>)"
  "traced sid h h' \<Longrightarrow> traced sid h (h'\<lparr>h_persistTimers := e\<rparr>)"
  "traced sid h h' \<Longrightarrow> traced sid h (h'\<lparr>h_cleanups := f\<rparr>)"
  "traced sid h h' \<Longrightarrow> traced sid h (h'\<lparr>h_waiting := g\<rparr>)"
  by (erule traced_via, simp_all)+

lemma traced_persist [traced_intros]: "traced sid h h' \<Longrightarrow> traced sid h (persistNow k b h')"
  by (auto simp: persistNow_def intro: traced_intros split: option.split)

lemma traced_request_stop [traced_intros]: "traced sid h h' \<Longrightarrow> traced sid h (request_stop c k now h')"
  unfolding request_stop_def by (intro traced_intros)

lemma traced_drop [traced_intros]: "traced sid h h' \<Longrightarrow> traced sid h (drop_session k h')"
  unfolding drop_session_def by (intro traced_intros)

lemma traced_try:
  assumes "\<And>a r. res = Inr (a, r) \<Longrightarrow> r = registry_step (h_registry h) x" and "\<And>a h1. traced sid h1 (snd (k a h1))"
  shows "traced sid h (snd (try_reg res h k))"
proof (cases res)
  case (Inr p)
  obtain a r where p: "p = (a, r)" by fastforce
  have "traced sid h (h\<lparr>h_registry := r\<rparr>)" by (rule traced_step[of _ _ x]) (use assms(1) Inr p in simp_all)
  from traced_trans[OF this assms(2)] show ?thesis by (simp add: try_reg_def Inr p)
qed (simp add: try_reg_def traced_refl)

lemma kept_result: "res = Inr (a, r') \<Longrightarrow> kept r res = r'"
  by simp

lemma traced_input:
  assumes f: "find_session sid (h_registry h) \<noteq> None"
  shows "traced k h (write_runtime sid c data (announceInput sid c h))"
proof -
  obtain q r where q: "recordInput sid (h_registry h) = Inr (q, r)" using f by (auto simp: recordInput_def Let_def case_prod_beta)
  have "find_session sid r \<noteq> None" using q f by (auto simp: recordInput_def Let_def case_prod_beta with_epoch_def mintInputEpoch_def split: option.splits)
  then obtain p r' where p: "getInputState sid r = Inr (p, r')" by (auto simp: getInputState_def Let_def case_prod_beta)
  have "r' = foldl registry_step (h_registry h) [Op_record_input sid, Op_input_state sid]" using q p by simp
  moreover have "h_registry (write_runtime sid c data (announceInput sid c h)) = r'"
    using q p by (simp add: announceInput_def write_runtime_def emit_def case_prod_beta)
  moreover have "h_inputs (write_runtime sid c data (announceInput sid c h)) = h_inputs h @ [(sid, c, data)]"
    using q p by (simp add: announceInput_def write_runtime_def emit_def case_prod_beta)
  ultimately show ?thesis
    unfolding traced_def by (intro exI[of _ "[Op_record_input sid, Op_input_state sid]"]) (auto simp: inputs_of_def)
qed


lemma traced_start_again: "traced k h (snd (start_again sid spawn now h))"
  unfolding start_again_def
  by (rule traced_try[of _ _ "Op_lifecycle sid L_starting now"])
    (auto simp: Let_def intro!: traced_intros split: option.split)

lemma traced_create: "traced k h (snd (create_session p uuid spawn now h))"
  unfolding create_session_def
  by (rule traced_try[of _ _ "Op_create p uuid now"]) (auto simp: Let_def intro!: traced_intros split: option.split)

lemma traced_attach: "traced k h (snd (attach_session p pin now h))"
  unfolding attach_session_def
  by (rule traced_try[of _ _ "case pin of None \<Rightarrow> Op_attach p now | Some e \<Rightarrow> Op_attach_if p e now"])
    (auto intro!: traced_intros split: option.splits)

lemma traced_detach: "traced k h (snd (detach_session sid c now h))"
  unfolding detach_session_def by (rule traced_try[of _ _ "Op_detach sid c now"]) (auto intro!: traced_intros)

lemma traced_acquire: "traced k h (snd (acquire_write sid c t force now h))"
  unfolding acquire_write_def by (rule traced_try[of _ _ "Op_acquire sid c t force now"]) (auto intro!: traced_intros)

lemma traced_release: "traced k h (snd (release_write sid c now h))"
  unfolding release_write_def by (rule traced_try[of _ _ "Op_release sid c now"]) (auto intro!: traced_intros)

lemma traced_clear: "traced k h (snd (clear_session_buffer sid now h))"
  unfolding clear_session_buffer_def by (rule traced_try[of _ _ "Op_clear sid now"]) (auto intro!: traced_intros)

lemma traced_meta: "traced k h (snd (update_session_meta sid m rep now h))"
  unfolding update_session_meta_def by (rule traced_try[of _ _ "Op_meta sid m rep now"]) (auto intro!: traced_intros)

lemma traced_get_input: "traced k h (snd (get_input_state sid h))"
  unfolding get_input_state_def by (rule traced_try[of _ _ "Op_input_state sid"]) (auto intro!: traced_intros)

lemma snapshot_present: "getSnapshot sid since r = Inr (a, r') \<Longrightarrow> find_session sid r' \<noteq> None"
  by (auto simp: getSnapshot_def split: option.splits)

lemma input_state_present: "getInputState sid r = Inr (a, r') \<Longrightarrow> find_session sid r' \<noteq> None"
  by (auto simp: getInputState_def Let_def case_prod_beta split: option.splits)

lemma traced_send: "traced k h (snd (send_input sid c data h))"
proof (cases "may_write sid c h = None")
  case True
  show ?thesis
  proof (cases "getSnapshot sid None (h_registry h)")
    case (Inr p)
    obtain a r where p: "p = (a, r)" by fastforce
    have "traced k h (h\<lparr>h_registry := r\<rparr>)" by (rule traced_step[of _ _ "Op_snapshot sid None"]) (simp_all add: Inr p)
    moreover have "traced k (h\<lparr>h_registry := r\<rparr>) (write_runtime sid c data (announceInput sid c (h\<lparr>h_registry := r\<rparr>)))"
      by (rule traced_input) (use snapshot_present[OF Inr[unfolded p]] in simp)
    ultimately show ?thesis using traced_trans True by (simp add: send_input_def try_reg_def Inr p Let_def)
  qed (use True in \<open>simp add: send_input_def try_reg_def traced_refl\<close>)
qed (auto simp: send_input_def traced_refl split: option.splits)

text \<open>The conditional write: what it did when it succeeded, and that it is a trace.\<close>

lemma send_if_seq_success:
  assumes "send_input_if_seq sid c data q e h = (Inr reply, h')"
  shows "\<exists>r. getInputState sid (h_registry h) = Inr ((q, e), r) \<and> may_write sid c h = None
    \<and> h' = write_runtime sid c data (announceInput sid c (h\<lparr>h_registry := r\<rparr>))"
  using assms by (auto simp: send_input_if_seq_def try_reg_def Let_def split: option.splits sum.splits if_splits prod.splits)

lemma traced_send_if: "traced k h (snd (send_input_if_seq sid c data q e h))"
proof (cases "may_write sid c h = None")
  case True
  show ?thesis
  proof (cases "getInputState sid (h_registry h)")
    case (Inr p)
    obtain a b r where p: "p = ((a, b), r)" by (metis surj_pair)
    have t: "traced k h (h\<lparr>h_registry := r\<rparr>)" by (rule traced_step[of _ _ "Op_input_state sid"]) (simp_all add: Inr p)
    moreover have "traced k (h\<lparr>h_registry := r\<rparr>) (write_runtime sid c data (announceInput sid c (h\<lparr>h_registry := r\<rparr>)))"
      by (rule traced_input) (use input_state_present[OF Inr[unfolded p]] in simp)
    ultimately show ?thesis using traced_trans t True by (auto simp: send_input_if_seq_def try_reg_def Inr p Let_def)
  qed (use True in \<open>simp add: send_input_if_seq_def try_reg_def traced_refl\<close>)
qed (auto simp: send_input_if_seq_def traced_refl split: option.splits)

lemma traced_resize: "traced k h (snd (resize_session sid cols rows h))"
proof (cases "getSnapshot sid None (h_registry h)")
  case (Inr p)
  obtain a r where p: "p = (a, r)" by fastforce
  have "traced k h (h\<lparr>h_registry := r\<rparr>)" by (rule traced_step[of _ _ "Op_snapshot sid None"]) (simp_all add: Inr p)
  then show ?thesis by (auto simp: resize_session_def Let_def Inr p intro!: traced_intros split: option.split)
qed (auto simp: resize_session_def Let_def intro!: traced_intros split: option.split)

lemma traced_data: "traced k h (runtime_data sid data now h)"
proof (cases "appendOutput sid data now (h_registry h)")
  case (Inr p)
  obtain a q r where p: "p = ((a, q), r)" by (metis surj_pair)
  have "traced k h (h\<lparr>h_registry := r\<rparr>)" by (rule traced_step[of _ _ "Op_append sid data now"]) (simp_all add: Inr p)
  then show ?thesis by (simp add: runtime_data_def Inr p traced_intros)
qed (simp add: runtime_data_def traced_refl)

lemma traced_force_detach: "traced k h (snd (force_detach_client sid c now h))"
proof -
  have t: "traced k h1 (snd (try_reg (detachClient sid c now (h_registry h1)) h1
      (\<lambda>rec h2. (Inr (R_record (Some rec)), emit (Ev_detached sid c) (schedulePersist sid h2)))))" for h1
    by (rule traced_try[of _ _ "Op_detach sid c now"]) (auto intro!: traced_intros)
  have "traced k h (if (case session_of h sid of Some rec \<Rightarrow> owned_by c rec | None \<Rightarrow> False)
      then (let h' = reg_do (Op_release sid c now) h in emit (Ev_owner sid (Option.bind (session_of h' sid) sr_writeOwner)) h') else h)"
    by (auto simp: Let_def intro!: traced_intros)
  from traced_trans[OF this t] show ?thesis unfolding force_detach_client_def Let_def .
qed

lemma traced_delete_if: "traced k h h' \<Longrightarrow> traced k h (snd (delete_if_finish b sid e h'))"
  by (auto simp: delete_if_finish_def intro!: traced_intros split: option.split)

lemma traced_exit: "traced k h (handleRuntimeExit sid code signal now h)"
  unfolding handleRuntimeExit_def Let_def by (auto intro!: traced_intros)

lemma traced_timers: "traced k h (cleanup_timer sid h)" "traced k h (persist_timer sid h)"
  by (auto simp: cleanup_timer_def persist_timer_def Let_def intro!: traced_intros split: option.split)

lemma traced_stops:
  "traced k h (snd (stop_session sid now h))" "traced k h (snd (handleStopSessionIfExpected sid e now h))"
  "traced k h (snd (stop_mesh_writer p now h))" "traced k h (snd (delete_session sid force now h))"
  "traced k h (snd (handleDeleteSessionIfExpected sid e force now h))"
  by (auto simp: stop_session_def handleStopSessionIfExpected_def stop_mesh_writer_def delete_session_def
      handleDeleteSessionIfExpected_def Let_def intro!: traced_intros traced_delete_if split: option.split)

lemma traced_starts:
  "traced k h (snd (resume_session sid spawn now h))" "traced k h (snd (restartRuntime sid spawn now h))"
  "traced k h (snd (finish_wait w timedOut spawn now h))"
proof -
  show "traced k h (snd (resume_session sid spawn now h))" "traced k h (snd (restartRuntime sid spawn now h))"
    by (auto simp: resume_session_def restartRuntime_def intro!: traced_intros traced_start_again split: option.split)
  have "traced k h (h\<lparr>h_waiting := remove1 w (h_waiting h)\<rparr>)" by (intro traced_intros)
  then show "traced k h (snd (finish_wait w timedOut spawn now h))"
    by (auto simp: finish_wait_def Let_def traced_refl intro: traced_trans[OF _ traced_start_again]
        intro!: traced_delete_if traced_drop split: waiting.split)
qed

lemmas traced_handlers = traced_start_again traced_create traced_attach traced_detach traced_acquire traced_release traced_clear
  traced_meta traced_get_input traced_send traced_send_if traced_resize traced_data traced_force_detach traced_exit
  traced_timers traced_stops traced_starts

lemma traced_handle: "traced k h (snd (handle x h))"
  by (cases x) (simp_all add: traced_handlers)

lemma traced_run: "traced k h (host_run h xs)"
  unfolding host_run_def by (induction xs arbitrary: h) (auto intro: traced_refl traced_trans[OF traced_handle])

lemma start_host_traced: "\<exists>xs. h_registry (start_host l boot ps now) = foldl registry_step (new_registry l) xs"
proof -
  have "\<exists>xs. h_registry (foldl (restore_persisted now) h ps) = foldl registry_step (h_registry h) xs" for h
  proof (induction ps arbitrary: h)
    case (Cons p ps)
    have "h_registry (restore_persisted now h p) = registry_step (h_registry h) (Op_restore (buildRecoveredRecord (fst p) now) (snd p))"
      by (simp add: restore_persisted_def reg_do_def Let_def)
    with Cons[of "restore_persisted now h p"] show ?case by (metis foldl_Cons)
  qed (auto intro: exI[of _ "[]"])
  from this[of "\<lparr>h_registry = new_registry l, h_runtimes = [], h_inputs = [], h_stopRequests = [], h_storage = [],
      h_tombstones = [], h_persistTimers = [], h_cleanups = [], h_waiting = [], h_events = [], h_bootId = boot\<rparr>"]
  show ?thesis by (simp add: start_host_def)
qed


lemma reachable_registry:
  "\<exists>ops. h_registry (host_run (start_host l boot ps now) xs) = foldl registry_step (new_registry l) ops"
proof -
  obtain a where a: "h_registry (start_host l boot ps now) = foldl registry_step (new_registry l) a"
    using start_host_traced by blast
  obtain b where b: "h_registry (host_run (start_host l boot ps now) xs) = foldl registry_step (h_registry (start_host l boot ps now)) b"
    using traced_run[of "[]"] by (auto simp: traced_def)
  show ?thesis unfolding b a by (metis foldl_append)
qed

lemma get_input_state_success:
  "get_input_state sid h = (Inr (R_input q e), h') \<Longrightarrow>
     getInputState sid (h_registry h) = Inr ((q, e), h_registry h') \<and> h_inputs h' = h_inputs h"
  by (auto simp: get_input_state_def try_reg_def split: sum.splits prod.splits)

lemma announce_inputs [simp]: "h_inputs (announceInput sid c h) = h_inputs h"
  by (auto simp: announceInput_def emit_def split: sum.splits prod.splits)

text \<open>
  C27. A conditional write lands on an untouched prompt. A client reads the input counter of a session; later,
  after any requests of any clients, process exits, restarts, deletions and timer firings, it writes on
  the condition that the counter is still what it read. If the host accepts, then nothing was written to
  the session's terminal in between, and exactly this write follows what had been written at the reading.
\<close>

theorem conditional_write_exclusive:
  assumes read: "handle (Get_input_state sid) (host_run (start_host l boot ps now) xs) = (Inr (R_input q e), h1)"
    and sent: "handle (Send_input_if_seq sid c data q e) (host_run h1 ys) = (Inr reply, h2)"
  shows "inputs_of sid h2 = inputs_of sid (host_run (start_host l boot ps now) xs) @ [(sid, c, data)]"
proof -
  let ?start = "host_run (start_host l boot ps now) xs" let ?later = "host_run h1 ys"
  have g: "getInputState sid (h_registry ?start) = Inr ((q, e), h_registry h1)" "h_inputs h1 = h_inputs ?start"
    using read get_input_state_success by auto
  obtain ops where ops: "h_registry ?start = foldl registry_step (new_registry l) ops" using reachable_registry by blast
  obtain r where r: "getInputState sid (h_registry ?later) = Inr ((q, e), r)"
    and h2: "h2 = write_runtime sid c data (announceInput sid c (?later\<lparr>h_registry := r\<rparr>))"
    using send_if_seq_success sent by (metis handle.simps(10))
  obtain zs where zs: "h_registry ?later = foldl registry_step (h_registry h1) zs"
    "Op_record_input sid \<notin> set zs \<longrightarrow> inputs_of sid ?later = inputs_of sid h1"
    using traced_run[of sid h1 ys] by (auto simp: traced_def)
  have "Op_record_input sid \<notin> set zs" by (rule same_input_point[OF g(1)[unfolded ops] r[unfolded zs(1)]])
  then have "inputs_of sid ?later = inputs_of sid ?start" using zs(2) g(2) by (simp add: inputs_of_def)
  then show ?thesis by (simp add: h2 write_runtime_def inputs_of_def)
qed

lemma same_inputs [simp]:
  "h_inputs (reg_do x h) = h_inputs h" "h_inputs (emit e h) = h_inputs h" "h_inputs (schedulePersist k h) = h_inputs h"
  "h_inputs (wait_for w h) = h_inputs h" "h_inputs (persistNow k b h) = h_inputs h"
  "h_inputs (request_stop cause k now h) = h_inputs h" "h_inputs (drop_session k h) = h_inputs h"
  by (auto simp: reg_do_def emit_def schedulePersist_def wait_for_def persistNow_def request_stop_def drop_session_def split: option.split)

lemma try_inputs: "(\<And>a h1. h_inputs h1 = h_inputs h \<Longrightarrow> h_inputs (snd (k a h1)) = h_inputs h) \<Longrightarrow> h_inputs (snd (try_reg res h k)) = h_inputs h"
  by (auto simp: try_reg_def split: sum.split)

lemma start_again_inputs [simp]: "h_inputs (snd (start_again sid spawn now h)) = h_inputs h"
  unfolding start_again_def by (rule try_inputs) (auto simp: Let_def split: option.split)

lemma delete_if_inputs [simp]: "h_inputs (snd (delete_if_finish b sid e h)) = h_inputs h"
  by (auto simp: delete_if_finish_def split: option.split)

lemma force_detach_inputs [simp]: "h_inputs (snd (force_detach_client sid c now h)) = h_inputs h"
  by (auto simp: force_detach_client_def try_reg_def Let_def split: sum.split option.split)

fun sends :: "host_step \<Rightarrow> bool" where
  "sends (Send_input _ _ _) = True"
| "sends (Send_input_if_seq _ _ _ _ _) = True"
| "sends _ = False"

lemma quiet_steps: "\<not> sends x \<Longrightarrow> h_inputs (snd (handle x h)) = h_inputs h"
  by (cases x)
    (auto simp: create_session_def attach_session_def detach_session_def acquire_write_def release_write_def clear_session_buffer_def
      update_session_meta_def get_input_state_def resize_session_def stop_session_def handleStopSessionIfExpected_def
      stop_mesh_writer_def delete_session_def handleDeleteSessionIfExpected_def resume_session_def restartRuntime_def
      finish_wait_def runtime_data_def handleRuntimeExit_def cleanup_timer_def persist_timer_def Let_def
      intro!: try_inputs split: option.split sum.split waiting.split)

definition write_allowed :: "host \<Rightarrow> ident \<Rightarrow> ident \<Rightarrow> bool" where
  "write_allowed h sid c \<longleftrightarrow>
     has_runtime h sid \<and> owner (h_registry h) sid \<in> {None, Some c}
     \<and> (case getAttachedClient h sid c of Some cl \<Rightarrow> \<not> cl_readOnly cl | None \<Rightarrow> True)"

lemma may_write_allowed: "may_write sid c h = None \<Longrightarrow> write_allowed h sid c"
  by (cases "getSession sid (h_registry h)")
    (auto simp: may_write_def write_allowed_def owner_def session_of_def other_owner_def split: option.splits if_splits)

text \<open>
  C28. Only an entitled client reaches the terminal. Every step either writes nothing, or writes exactly
  one piece of input, to a session with a running terminal, by a client that is not attached read-only,
  while the session's write is free or owned by that client.
\<close>

theorem terminal_input_entitled:
  "h_inputs (snd (handle x h)) = h_inputs h
   \<or> (\<exists>sid c data. h_inputs (snd (handle x h)) = h_inputs h @ [(sid, c, data)] \<and> write_allowed h sid c)"
proof (cases "sends x")
  case True
  then obtain sid c d q e where x: "x = Send_input sid c d \<or> x = Send_input_if_seq sid c d q e" by (cases x) auto
  show ?thesis
  proof (cases "may_write sid c h")
    case None
    then have "h_inputs (snd (handle x h)) \<in> {h_inputs h, h_inputs h @ [(sid, c, d)]}"
      using x by (auto simp: send_input_def send_input_if_seq_def try_reg_def Let_def write_runtime_def split: sum.splits)
    with may_write_allowed[OF None] show ?thesis by auto
  next
    case (Some err)
    then have "h_inputs (snd (handle x h)) = h_inputs h" using x by (auto simp: send_input_def send_input_if_seq_def)
    then show ?thesis by simp
  qed
qed (simp add: quiet_steps)


section \<open>A restarted session keeps its termination\<close>

definition status :: "host \<Rightarrow> ident \<Rightarrow> (session_lifecycle \<times> session_termination option) option" where
  "status h sid = map_option (\<lambda>rec. (sr_lifecycle rec, sr_termination rec)) (session_of h sid)"

lemma status_none: "status h sid = None \<longleftrightarrow> session_of h sid = None"
  by (simp add: status_def)

lemma status_reg: "status h' sid = status h sid" if "h_registry h' = h_registry h"
  using that by (simp add: status_def session_of_def)

lemma status_simps [simp]:
  "status (reg_do (Op_lifecycle k l now) h) sid = (if k = sid then map_option (\<lambda>(_, t). (l, t)) (status h sid) else status h sid)"
  "status (reg_do (Op_started k pid now) h) sid = (if k = sid then map_option (\<lambda>(_, t). (L_running, t)) (status h sid) else status h sid)"
  "status (reg_do (Op_stopped k l (Some t) now) h) sid = (if k = sid then map_option (\<lambda>_. (l, Some t)) (status h sid) else status h sid)"
  "status (reg_do (Op_delete k) h) sid = (if k = sid then None else status h sid)"
  "status (reg_do (Op_snapshot k since) h) sid = status h sid"
  by (cases "find_session k (h_registry h)";
      auto simp: status_def session_of_def getSession_def reg_do_def setLifecycle_def markStarted_def markStopped_def
        getSnapshot_def sync_buffer_def on_session_def upd_record_def option.map_comp comp_def)+

lemma status_keep [simp]:
  "status (emit e h) sid = status h sid" "status (schedulePersist k h) sid = status h sid" "status (wait_for w h) sid = status h sid"
  "status (h\<lparr>h_runtimes := a\<rparr>) sid = status h sid" "status (h\<lparr>h_stopRequests := b\<rparr>) sid = status h sid"
  "status (h\<lparr>h_storage := c\<rparr>) sid = status h sid" "status (h\<lparr>h_tombstones := d\<rparr>) sid = status h sid"
  "status (h\<lparr>h_persistTimers := e'\<rparr>) sid = status h sid" "status (h\<lparr>h_cleanups := f\<rparr>) sid = status h sid"
  "status (h\<lparr>h_waiting := g\<rparr>) sid = status h sid"
  by (auto intro!: status_reg simp: emit_def schedulePersist_def wait_for_def)

lemma status_persist [simp]: "status (persistNow k b h) sid = status h sid"
  by (simp add: persistNow_def split: option.split)

lemma status_request_stop [simp]:
  "status (request_stop c k now h) sid = (if k = sid then map_option (\<lambda>(_, t). (L_stopping, t)) (status h sid) else status h sid)"
  by (simp add: request_stop_def)

text \<open>The other components of the state that the restart reads.\<close>

definition frame :: "host \<Rightarrow> ident list \<times> ident list \<times> waiting list" where
  "frame h = (h_runtimes h, h_cleanups h, h_waiting h)"

lemma frame_keep [simp]:
  "frame (reg_do x h) = frame h" "frame (emit e h) = frame h" "frame (persistNow k b h) = frame h"
  "frame (request_stop c k now h) = frame h"
  by (auto simp: frame_def reg_do_def emit_def persistNow_def request_stop_def split: option.split)

lemma terminal_status: "session_of h sid = Some rec \<Longrightarrow> status h sid = Some (l, Some t) \<Longrightarrow> isTerminalRecord (Some rec)"
  by (auto simp: status_def isTerminalRecord_def)

lemma frame_fields [simp]:
  "frame (h\<lparr>h_runtimes := a\<rparr>) = (a, snd (frame h))" "frame (h\<lparr>h_stopRequests := b\<rparr>) = frame h"
  "frame (h\<lparr>h_tombstones := d\<rparr>) = frame h" "frame (h\<lparr>h_persistTimers := e\<rparr>) = frame h"
  "frame (h\<lparr>h_storage := g\<rparr>) = frame h"
  "frame (h\<lparr>h_cleanups := f\<rparr>) = (fst (frame h), f, snd (snd (frame h)))"
  "frame (h\<lparr>h_waiting := w\<rparr>) = (fst (frame h), fst (snd (frame h)), w)"
  by (simp_all add: frame_def)

lemma frame_sel: "h_runtimes h = fst (frame h)" "h_cleanups h = fst (snd (frame h))" "h_waiting h = snd (snd (frame h))"
  by (simp_all add: frame_def)

lemma start_again_status:
  assumes "status h sid = Some (l, t)"
  shows "status (snd (start_again sid (Some pid) now h)) sid = Some (L_running, t)
    \<and> frame (snd (start_again sid (Some pid) now h)) = (List.insert sid (h_runtimes h), snd (frame h))"
proof -
  obtain s where s: "find_session sid (h_registry h) = Some s" using assms by (auto simp: status_def session_of_def getSession_def)
  then obtain a r where r: "setLifecycle sid L_starting now (h_registry h) = Inr (a, r)"
    by (simp add: setLifecycle_def on_session_def)
  have h1: "h\<lparr>h_registry := r\<rparr> = reg_do (Op_lifecycle sid L_starting now) h" by (simp add: reg_do_def r)
  show ?thesis using assms
    by (simp add: start_again_def try_reg_def r h1 Let_def frame_sel)
qed

lemma exit_status:
  assumes "status h sid \<noteq> None"
  shows "status (handleRuntimeExit sid code sig now h) sid =
      Some (te_lifecycle (exit_termination sid code sig now h), Some (exit_termination sid code sig now h))
    \<and> frame (handleRuntimeExit sid code sig now h) = (removeAll sid (h_runtimes h), h_cleanups h @ [sid], h_waiting h)"
  using assms by (auto simp: handleRuntimeExit_def Let_def status_none[symmetric] frame_sel)

text \<open>
  A restarted session is removed while it runs. Restart a running session, let the old process exit,
  let the restart finish with a new process: the record is running again but still carries the termination
  of the old process, so the removal scheduled at the exit takes it for dead and unregisters it, and
  the new process is left without a record. The comment at the removal says that a session that is live
  again is left alone.
\<close>

lemma restart_unregisters:
  assumes s: "session_of h sid \<noteq> None" and r: "has_runtime h sid"
  shows "let h1 = snd (handle (Restart sid None t1) h); h2 = snd (handle (Exit sid code sig t2) h1);
             h3 = snd (handle (Finish (Wait_restart sid) False (Some pid) t3) h2); h4 = snd (handle (Cleanup_timer sid) h3)
    in map_option sr_lifecycle (session_of h3 sid) = Some L_running \<and> has_runtime h3 sid
       \<and> session_of h4 sid = None \<and> has_runtime h4 sid"
proof -
  define h1 where "h1 = snd (handle (Restart sid None t1) h)"
  define h2 where "h2 = snd (handle (Exit sid code sig t2) h1)"
  define h3 where "h3 = snd (handle (Finish (Wait_restart sid) False (Some pid) t3) h2)"
  define h4 where "h4 = snd (handle (Cleanup_timer sid) h3)"
  have "h1 = wait_for (Wait_restart sid) (request_stop Req_restart sid t1 h)"
    using s r by (auto simp: h1_def restartRuntime_def split: option.splits)
  then have s1: "status h1 sid \<noteq> None" "Wait_restart sid \<in> set (h_waiting h1)"
    using s by (auto simp: status_none wait_for_def)
  have h2: "h2 = handleRuntimeExit sid code sig t2 h1" by (simp add: h2_def)
  obtain l t where s2: "status h2 sid = Some (l, Some t)" and w2: "Wait_restart sid \<in> set (h_waiting h2)" "sid \<in> set (h_cleanups h2)"
    using exit_status[OF s1(1), of code sig t2] s1(2) by (auto simp: h2 frame_sel)
  have h3: "h3 = snd (start_again sid (Some pid) t3 (h2\<lparr>h_waiting := remove1 (Wait_restart sid) (h_waiting h2)\<rparr>))"
    using w2 by (simp add: h3_def finish_wait_def Let_def)
  have s3: "status h3 sid = Some (L_running, Some t)" "sid \<in> set (h_runtimes h3)" "sid \<in> set (h_cleanups h3)"
    using start_again_status[of "h2\<lparr>h_waiting := remove1 (Wait_restart sid) (h_waiting h2)\<rparr>" sid l "Some t" pid t3] s2 w2
    by (auto simp: h3 frame_sel)
  obtain rec where rec: "session_of h3 sid = Some rec" "isTerminalRecord (Some rec)"
    using s3(1) terminal_status by (metis option.distinct(1) option.exhaust status_none)
  have "h4 = (reg_do (Op_delete sid) (h3\<lparr>h_cleanups := remove1 sid (h_cleanups h3)\<rparr>))\<lparr>h_storage := AList.delete sid (h_storage h3)\<rparr>"
    using s3(3) rec by (simp add: h4_def cleanup_timer_def session_of_def)
  then have "status h4 sid = None" "h_runtimes h4 = h_runtimes h3" by (simp, simp add: reg_do_def)
  with s3 rec show ?thesis
    unfolding h1_def[symmetric] h2_def[symmetric] h3_def[symmetric] h4_def[symmetric] Let_def
    by (auto simp: status_none status_def has_runtime_def)
qed


text \<open>A host that recovered one session and resumed it.\<close>

definition demo_host :: host where
  "demo_host = start_host ''L'' None [(demo_record ''s'' ''k'' L_running, None)] 5"

lemmas host_defs = demo_host_def start_host_def restore_persisted_def buildRecoveredRecord_def recovered_meta_def spread_def
  reg_do_def demo_record_def resume_session_def session_of_def getSession_def has_runtime_def start_again_def try_reg_def
  setLifecycle_def on_session_def upd_record_def find_session_def set_session_def new_registry_def restoreSession_def
  sameLifetime_def mintInputEpoch_def or_zero_def markStarted_def persistNow_def isTerminalRecord_def TERMINAL_LIFECYCLES_def
  getSnapshot_def sync_buffer_def emit_def host_run_def

lemma demo_host_state:
  "session_of (host_run demo_host [Resume ''s'' (Some 7) 6]) ''s'' \<noteq> None" "has_runtime (host_run demo_host [Resume ''s'' (Some 7) 6]) ''s''"
  by (simp_all add: host_defs Let_def)

theorem restart_unregisters_witness:
  "let h = host_run demo_host [Resume ''s'' (Some 7) 6, Restart ''s'' None 8, Exit ''s'' (Some 0) None 9,
        Finish (Wait_restart ''s'') False (Some 11) 10, Cleanup_timer ''s'']
   in session_of h ''s'' = None \<and> has_runtime h ''s''"
  using restart_unregisters[OF demo_host_state, of 8 "Some 0" None 9 11 10] by (simp add: host_run_def Let_def)

theorem conditional_write_exclusive_witness:
  "\<exists>h1 h2. handle (Get_input_state ''s'') (host_run demo_host [Resume ''s'' (Some 7) 6]) = (Inr (R_input 0 ''L:1''), h1)
     \<and> handle (Send_input_if_seq ''s'' ''c'' (ascii ''y'') 0 ''L:1'') (host_run h1 [Persist_timer ''s'']) = (Inr (R_record (session_of h2 ''s'')), h2)
     \<and> inputs_of ''s'' h2 = inputs_of ''s'' (host_run demo_host [Resume ''s'' (Some 7) 6]) @ [(''s'', ''c'', ascii ''y'')]"
proof -
  let ?h = "host_run demo_host [Resume ''s'' (Some 7) 6]"
  define h1 where "h1 = snd (handle (Get_input_state ''s'') ?h)"
  define h2 where "h2 = snd (handle (Send_input_if_seq ''s'' ''c'' (ascii ''y'') 0 ''L:1'') (host_run h1 [Persist_timer ''s'']))"
  note defs = host_defs Let_def get_input_state_def getInputState_def with_epoch_def epoch_name_def digits_one
  have a: "handle (Get_input_state ''s'') ?h = (Inr (R_input 0 ''L:1''), h1)"
    unfolding h1_def by (simp add: defs)
  have p: "host_run h1 [Persist_timer ''s''] = h1" unfolding h1_def by (simp add: defs persist_timer_def)
  have b: "handle (Send_input_if_seq ''s'' ''c'' (ascii ''y'') 0 ''L:1'') (host_run h1 [Persist_timer ''s'']) = (Inr (R_record (session_of h2 ''s'')), h2)"
    unfolding h2_def p unfolding h1_def
    by (simp add: defs send_input_if_seq_def may_write_def getAttachedClient_def other_owner_def announceInput_def
        recordInput_def write_runtime_def)
  from conditional_write_exclusive[OF a[unfolded demo_host_def] b] a b show ?thesis by (auto simp: demo_host_def)
qed

end
