(* ===== verification/UpgradeLease.thy ===== *)
theory UpgradeLease
  imports JsValue
begin

text \<open>
  The lease under which a session host is upgraded (\<open>session-host-daemon/src/upgrade-lease.ts\<close>): a durable fence
  that keeps a host from changing sessions while an upgrade holds it. The journal file is JSON text, here its
  value; writing it may fail before or after the rename. The checks of the helper executable, the state
  directory and the instance lock are inputs of \<open>start\<close>; SHA-256 is a parameter.
\<close>

section \<open>State\<close>

record lease_state =
  ls_endpoint :: string
  ls_epoch :: int
  ls_held :: bool
  ls_owner :: "string option"
  ls_tokenHash :: "string option"

record lease_request =
  lq_bootId :: string
  lq_epoch :: int
  lq_owner :: string
  lq_token :: string

datatype lease_error =
    Lock_or_storage_unavailable | Idle_lease_held | Lease_identity_mismatch | Lease_owned | Not_proven_idle
  | Lease_corrupt | Journal_missing | Storage_failed | Helper_changed | Already_started | Start_refused

datatype write_result = Written | Lost | Renamed

record lease_host =
  lh_bootId :: string
  lh_endpoint :: string
  lh_state :: lease_state
  lh_healthy :: bool
  lh_poisoned :: bool
  lh_childAlive :: bool

record lease_proof =
  lp_bootId :: string
  lp_endpoint :: string
  lp_epoch :: int
  lp_held :: bool
  lp_owner :: "string option"

definition null_or :: "string option \<Rightarrow> js_value" where
  "null_or x = (case x of Some t \<Rightarrow> JStr t | None \<Rightarrow> JNull)"

definition journal_of :: "lease_state \<Rightarrow> js_value" where
  "journal_of s = JObj [(''schema'', JNum 1), (''endpoint'', JStr (ls_endpoint s)), (''epoch'', JNum (of_int (ls_epoch s))), (''held'', JBool (ls_held s)),
     (''owner'', null_or (ls_owner s)), (''tokenHash'', null_or (ls_tokenHash s))]"

section \<open>Reading the journal\<close>

definition hex_char :: "char \<Rightarrow> bool" where
  "hex_char c \<longleftrightarrow> digit_char c \<or> c \<in> set ''abcdef''"

definition hex64 :: "string \<Rightarrow> bool" where
  "hex64 t \<longleftrightarrow> length t = 64 \<and> list_all hex_char t"

definition safe_epoch :: "js_value option \<Rightarrow> int option" where
  "safe_epoch v = (case v of Some (JNum q) \<Rightarrow> if of_int \<lfloor>q\<rfloor> = q \<and> \<bar>q\<bar> < 2 ^ 53 \<and> q \<ge> 0 then Some \<lfloor>q\<rfloor> else None | _ \<Rightarrow> None)"

definition owner_fields :: "bool \<Rightarrow> js_value option \<Rightarrow> (string option \<times> string option) option" where
  "owner_fields held v =
     (case (held, member v ''owner'', member v ''tokenHash'') of
        (True, Some (JStr ow), Some (JStr h)) \<Rightarrow> if hex64 h then Some (Some ow, Some h) else None
      | (False, Some JNull, Some JNull) \<Rightarrow> Some (None, None)
      | _ \<Rightarrow> None)"

definition load_journal :: "string \<Rightarrow> js_value \<Rightarrow> lease_state option" where
  "load_journal endpoint j =
     (if member (Some j) ''schema'' = Some (JNum 1) \<and> member (Some j) ''endpoint'' = Some (JStr endpoint)
      then (case (safe_epoch (member (Some j) ''epoch''), member (Some j) ''held'') of
              (Some n, Some (JBool held)) \<Rightarrow>
                (case owner_fields held (Some j) of
                   Some (ow, h) \<Rightarrow> Some \<lparr>ls_endpoint = endpoint, ls_epoch = n, ls_held = held, ls_owner = ow, ls_tokenHash = h\<rparr>
                 | None \<Rightarrow> None)
            | _ \<Rightarrow> None)
      else None)"

section \<open>Operations\<close>

text \<open>
  The host together with the journal. A write that fails after the rename has committed the value; in
  either case the host is poisoned until it restarts.
\<close>

type_synonym lease_disk = "js_value option"

definition persist_lease :: "write_result \<Rightarrow> lease_state \<Rightarrow> lease_host \<times> lease_disk \<Rightarrow> (lease_host \<times> lease_disk) \<times> lease_error option" where
  "persist_lease wr s sys =
     (case wr of
        Written \<Rightarrow> ((fst sys\<lparr>lh_state := s\<rparr>, Some (journal_of s)), None)
      | Renamed \<Rightarrow> ((fst sys\<lparr>lh_poisoned := True\<rparr>, Some (journal_of s)), Some Storage_failed)
      | Lost \<Rightarrow> ((fst sys\<lparr>lh_poisoned := True\<rparr>, snd sys), Some Storage_failed))"

text \<open>\<open>changed\<close>: the identity of the helper's file is pinned and differs now.\<close>

definition assertHealthy :: "bool \<Rightarrow> lease_host \<Rightarrow> lease_error option" where
  "assertHealthy changed h =
     (if changed then Some Helper_changed
      else if \<not> lh_healthy h \<or> \<not> lh_childAlive h \<or> lh_poisoned h then Some Lock_or_storage_unavailable
      else None)"

definition assertMutable :: "bool \<Rightarrow> lease_host \<Rightarrow> lease_error option" where
  "assertMutable changed h =
     (case assertHealthy changed h of
        Some err \<Rightarrow> Some err
      | None \<Rightarrow> if ls_held (lh_state h) then Some Idle_lease_held else None)"

definition proof_of :: "bool \<Rightarrow> lease_host \<Rightarrow> lease_error + lease_proof" where
  "proof_of changed h =
     (case assertHealthy changed h of
        Some err \<Rightarrow> Inl err
      | None \<Rightarrow> Inr \<lparr>lp_bootId = lh_bootId h, lp_endpoint = lh_endpoint h, lp_epoch = ls_epoch (lh_state h), lp_held = ls_held (lh_state h), lp_owner = ls_owner (lh_state h)\<rparr>)"

definition owner_name :: "string \<Rightarrow> bool" where
  "owner_name t \<longleftrightarrow> 8 \<le> length t \<and> length t \<le> 128
     \<and> list_all (\<lambda>c. digit_char c \<or> js_lower_char c \<in> set ''abcdefghijklmnopqrstuvwxyz'' \<or> c = CHR ''_'' \<or> c = CHR ''-'') t"

definition validate_request :: "bool \<Rightarrow> lease_request \<Rightarrow> lease_host \<Rightarrow> lease_error option" where
  "validate_request changed q h =
     (case assertHealthy changed h of
        Some err \<Rightarrow> Some err
      | None \<Rightarrow>
          if lq_bootId q \<noteq> lh_bootId h \<or> lq_epoch q \<noteq> ls_epoch (lh_state h) \<or> \<not> \<bar>lq_epoch q\<bar> < 2 ^ 53 \<or> \<not> owner_name (lq_owner q) \<or> \<not> hex64 (lq_token q)
          then Some Lease_identity_mismatch else None)"

definition owns :: "(string \<Rightarrow> string) \<Rightarrow> lease_request \<Rightarrow> lease_state \<Rightarrow> bool" where
  "owns digest q s \<longleftrightarrow> ls_owner s = Some (lq_owner q) \<and> ls_tokenHash s = Some (digest (lq_token q))"

type_synonym lease_answer = "(lease_host \<times> lease_disk) \<times> (lease_error + lease_proof)"

definition answer_after :: "bool \<Rightarrow> (lease_host \<times> lease_disk) \<times> lease_error option \<Rightarrow> lease_answer" where
  "answer_after changed r = (fst r, case snd r of Some err \<Rightarrow> Inl err | None \<Rightarrow> proof_of changed (fst (fst r)))"

definition acquire_lease :: "(string \<Rightarrow> string) \<Rightarrow> bool \<Rightarrow> write_result \<Rightarrow> lease_request \<Rightarrow> bool \<Rightarrow> lease_host \<times> lease_disk \<Rightarrow> lease_answer" where
  "acquire_lease digest changed wr q idle sys =
     (let h = fst sys; s = lh_state h in
      case validate_request changed q h of
        Some err \<Rightarrow> (sys, Inl err)
      | None \<Rightarrow>
          if ls_held s then (if owns digest q s then (sys, proof_of changed h) else (sys, Inl Lease_owned))
          else if \<not> idle then (sys, Inl Not_proven_idle)
          else answer_after changed (persist_lease wr (s\<lparr>ls_held := True, ls_owner := Some (lq_owner q), ls_tokenHash := Some (digest (lq_token q))\<rparr>) sys))"

definition release_lease :: "(string \<Rightarrow> string) \<Rightarrow> bool \<Rightarrow> write_result \<Rightarrow> lease_request \<Rightarrow> lease_host \<times> lease_disk \<Rightarrow> lease_answer" where
  "release_lease digest changed wr q sys =
     (let h = fst sys; s = lh_state h in
      case validate_request changed q h of
        Some err \<Rightarrow> (sys, Inl err)
      | None \<Rightarrow>
          if \<not> ls_held s \<or> \<not> owns digest q s then (sys, Inl Lease_owned)
          else answer_after changed (persist_lease wr (s\<lparr>ls_epoch := ls_epoch s + 1, ls_held := False, ls_owner := None, ls_tokenHash := None\<rparr>) sys))"

definition close_lease :: "lease_host \<Rightarrow> lease_host" where
  "close_lease h = h\<lparr>lh_healthy := False, lh_childAlive := False\<rparr>"

text \<open>
  A new host. \<open>trusted\<close>: the directory and the helper passed their checks, the helper holds the instance lock,
  and the journal, if there is one, is a private file. \<open>priorLock\<close>: the lock file existed before.
\<close>

definition new_lease :: "string \<Rightarrow> string \<Rightarrow> lease_host" where
  "new_lease bootId endpoint = \<lparr>lh_bootId = bootId, lh_endpoint = endpoint,
     lh_state = \<lparr>ls_endpoint = endpoint, ls_epoch = 0, ls_held = False, ls_owner = None, ls_tokenHash = None\<rparr>,
     lh_healthy = False, lh_poisoned = False, lh_childAlive = False\<rparr>"

definition start_lease :: "bool \<Rightarrow> bool \<Rightarrow> write_result \<Rightarrow> lease_host \<times> lease_disk \<Rightarrow> (lease_host \<times> lease_disk) \<times> lease_error option" where
  "start_lease trusted priorLock wr sys =
     (let h = fst sys; up = h\<lparr>lh_healthy := True, lh_childAlive := True\<rparr> in
      if lh_childAlive h then (sys, Some Already_started)
      else if \<not> trusted then ((close_lease h, snd sys), Some Start_refused)
      else case snd sys of
             Some j \<Rightarrow>
               (case load_journal (lh_endpoint h) j of
                  Some s \<Rightarrow> ((up\<lparr>lh_state := s\<rparr>, snd sys), None)
                | None \<Rightarrow> ((close_lease h, snd sys), Some Lease_corrupt))
           | None \<Rightarrow>
               if priorLock then ((close_lease h, snd sys), Some Journal_missing)
               else (case persist_lease wr (lh_state up) (up, snd sys) of
                       (sys', None) \<Rightarrow> (sys', None)
                     | ((h', d), Some err) \<Rightarrow> ((close_lease h', d), Some err)))"

section \<open>Runs with crashes\<close>

inductive lease_step :: "(string \<Rightarrow> string) \<Rightarrow> lease_host \<times> lease_disk \<Rightarrow> lease_host \<times> lease_disk \<Rightarrow> bool" for digest where
  starts: "lease_step digest sys (fst (start_lease trusted priorLock wr sys))"
| acquires: "lease_step digest sys (fst (acquire_lease digest changed wr q idle sys))"
| releases: "lease_step digest sys (fst (release_lease digest changed wr q sys))"
| closes: "lease_step digest (h, d) (close_lease h, d)"
| restarts: "lease_step digest (h, d) (new_lease bootId (lh_endpoint h), d)"

inductive lease_run :: "(string \<Rightarrow> string) \<Rightarrow> lease_host \<times> lease_disk \<Rightarrow> bool" for digest where
  fresh: "lease_run digest (new_lease bootId endpoint, d)"
| later: "lease_run digest sys \<Longrightarrow> lease_step digest sys sys' \<Longrightarrow> lease_run digest sys'"

text \<open>What the journal says about the lease, and what the host believes.\<close>

definition lease_on :: "lease_disk \<Rightarrow> js_value option list" where
  "lease_on d = map (member d) [''held'', ''owner'', ''tokenHash'']"

definition lease_in :: "lease_state \<Rightarrow> js_value option list" where
  "lease_in s = [Some (JBool (ls_held s)), Some (null_or (ls_owner s)), Some (null_or (ls_tokenHash s))]"

definition agrees :: "lease_host \<times> lease_disk \<Rightarrow> bool" where
  "agrees sys \<longleftrightarrow> (lh_healthy (fst sys) \<and> \<not> lh_poisoned (fst sys) \<longrightarrow> lease_on (snd sys) = lease_in (lh_state (fst sys)))"

lemma journal_lease: "lease_on (Some (journal_of s)) = lease_in s"
  by (simp add: lease_on_def lease_in_def member_def journal_of_def)

lemma load_lease:
  assumes "load_journal endpoint j = Some s"
  shows "lease_on (Some j) = lease_in s"
  using assms
  by (auto simp: load_journal_def owner_fields_def lease_on_def lease_in_def null_or_def
      split: if_splits option.splits js_value.splits bool.splits prod.splits)

lemma persist_agrees: "agrees (fst (persist_lease wr s sys)) \<or> lh_poisoned (fst (fst (persist_lease wr s sys)))"
  by (cases wr) (auto simp: persist_lease_def agrees_def journal_lease)

lemma persist_agrees': "agrees (fst (persist_lease wr s sys))"
  using persist_agrees[of wr s sys] by (auto simp: agrees_def)

lemma start_agrees: "agrees sys \<Longrightarrow> agrees (fst (start_lease trusted priorLock wr sys))"
  by (cases wr) (auto simp: start_lease_def Let_def agrees_def close_lease_def persist_lease_def journal_lease load_lease split: option.splits)

lemma run_agrees: "lease_run digest sys \<Longrightarrow> agrees sys"
proof (induction rule: lease_run.induct)
  case (fresh bootId endpoint d)
  then show ?case by (simp add: agrees_def new_lease_def)
next
  case (later sys sys')
  from later(2,3) show ?case
  proof (cases rule: lease_step.cases)
    case (starts trusted priorLock wr)
    then show ?thesis using start_agrees later(3) by simp
  next
    case (acquires changed wr q idle)
    then show ?thesis using later(3) persist_agrees' by (auto simp: acquire_lease_def Let_def answer_after_def split: option.splits)
  next
    case (releases changed wr q)
    then show ?thesis using later(3) persist_agrees' by (auto simp: release_lease_def Let_def answer_after_def split: option.splits)
  qed (auto simp: agrees_def close_lease_def new_lease_def)
qed

lemma healthy_agrees:
  assumes "lease_run digest (h, d)" "assertHealthy changed h = None"
  shows "lease_on d = lease_in (lh_state h)"
  using run_agrees[OF assms(1)] assms(2) by (auto simp: agrees_def assertHealthy_def split: if_splits)

lemma validate_healthy: "validate_request changed q h = None \<Longrightarrow> assertHealthy changed h = None"
  by (auto simp: validate_request_def split: option.splits)

text \<open>
  C21. No change under a held lease. After any sequence of starts, acquisitions, releases, failed journal
  writes, closes and crashes, a host that admits a change of sessions has a journal on disk that says that
  the lease is not held.
\<close>

theorem mutable_means_not_held:
  assumes "lease_run digest (h, d)" "assertMutable changed h = None"
  shows "member d ''held'' = Some (JBool False)"
proof -
  from assms(2) have "assertHealthy changed h = None" "\<not> ls_held (lh_state h)" by (auto simp: assertMutable_def split: option.splits if_splits)
  with healthy_agrees[OF assms(1)] show ?thesis by (simp add: lease_on_def lease_in_def)
qed

text \<open>
  C22. A held lease ends by its owner only. One step from a state whose journal says that the lease is held
  leaves the journal as it is, unless the step is a release whose request was validated and carries the
  recorded owner and a token with the recorded hash.
\<close>

theorem lease_ends_by_owner:
  assumes run: "lease_run digest (h, d)" and step: "lease_step digest (h, d) (h', d')" and held: "member d ''held'' = Some (JBool True)"
  shows "d' = d \<or> (\<exists>q changed wr. (h', d') = fst (release_lease digest changed wr q (h, d)) \<and> validate_request changed q h = None
      \<and> member d ''owner'' = Some (JStr (lq_owner q)) \<and> member d ''tokenHash'' = Some (JStr (digest (lq_token q))))"
  using step
proof (cases rule: lease_step.cases)
  case (starts trusted priorLock wr)
  then have "(h', d') = fst (start_lease trusted priorLock wr (h, d))" by simp
  moreover have "d \<noteq> None" using held by (cases d) (auto simp: member_def)
  ultimately have "d' = d" by (auto simp: start_lease_def Let_def split: option.splits if_splits)
  then show ?thesis ..
next
  case (acquires changed wr q idle)
  have "lease_on d = lease_in (lh_state h)" if "validate_request changed q h = None" using healthy_agrees[OF run validate_healthy[OF that]] .
  then have "ls_held (lh_state h)" if "validate_request changed q h = None" using that held by (auto simp: lease_on_def lease_in_def)
  then have "d' = d" using acquires by (auto simp: acquire_lease_def Let_def split: option.splits if_splits)
  then show ?thesis ..
next
  case (releases changed wr q)
  show ?thesis
  proof (cases "validate_request changed q h = None \<and> ls_held (lh_state h) \<and> owns digest q (lh_state h)")
    case True
    then have "lease_on d = lease_in (lh_state h)" using healthy_agrees[OF run validate_healthy] by blast
    with True releases show ?thesis by (auto simp: lease_on_def lease_in_def owns_def null_or_def)
  next
    case False
    with releases have "d' = d" by (auto simp: release_lease_def Let_def split: option.splits if_splits)
    then show ?thesis ..
  qed
qed auto

text \<open>
  C23. The owner comes back after a crash. When a lease has been acquired and its journal written, and the
  digest is the 64 hexadecimal digits that SHA-256 gives, then a host that starts from that journal lets
  the owner take the lease up again with the same token and the new boot id, without proof of idleness.
\<close>

theorem lease_reattached:
  assumes digest: "\<And>t. hex64 (digest t)" and s: "0 \<le> ls_epoch s" "ls_epoch s < 2 ^ 53" and q: "owner_name (lq_owner q)" "hex64 (lq_token q)"
    and boot: "lq_bootId q = bootId" "lq_epoch q = ls_epoch s" and held: "ls_held s" "owns digest q s"
  shows "\<exists>h. start_lease True True wr (new_lease bootId (ls_endpoint s), Some (journal_of s)) = ((h, Some (journal_of s)), None)
     \<and> assertMutable False h = Some Idle_lease_held
     \<and> acquire_lease digest False wr' q False (h, Some (journal_of s))
        = ((h, Some (journal_of s)), Inr \<lparr>lp_bootId = bootId, lp_endpoint = ls_endpoint s, lp_epoch = ls_epoch s, lp_held = True, lp_owner = Some (lq_owner q)\<rparr>)"
proof -
  have "load_journal (ls_endpoint s) (journal_of s) = Some s"
    using s held digest
    by (cases s) (simp add: load_journal_def journal_of_def member_def safe_epoch_def owner_fields_def owns_def null_or_def)
  then show ?thesis using q boot held s
    by (simp add: start_lease_def new_lease_def Let_def assertMutable_def assertHealthy_def acquire_lease_def validate_request_def proof_of_def owns_def)
qed

section \<open>A lease that survives a failed write\<close>

definition demo_digest :: "string \<Rightarrow> string" where "demo_digest t = replicate 64 CHR ''a''"

definition demo_request :: "string \<Rightarrow> lease_request" where
  "demo_request b = \<lparr>lq_bootId = b, lq_epoch = 0, lq_owner = ''upgrader'', lq_token = replicate 64 CHR ''0''\<rparr>"

definition demo_started :: "lease_host \<times> lease_disk" where
  "demo_started = fst (start_lease True False Written (new_lease ''b1'' ''/s'', None))"

definition demo_held :: "lease_host \<times> lease_disk" where
  "demo_held = fst (acquire_lease demo_digest False Renamed (demo_request ''b1'') True demo_started)"

definition demo_restarted :: "lease_host \<times> lease_disk" where
  "demo_restarted = fst (start_lease True True Written (new_lease ''b2'' (lh_endpoint (fst demo_held)), snd demo_held))"

lemma demo_lease_runs: "lease_run demo_digest demo_started" "lease_run demo_digest demo_held" "lease_run demo_digest demo_restarted"
proof -
  show st: "lease_run demo_digest demo_started" unfolding demo_started_def by (rule later[OF fresh starts])
  show held: "lease_run demo_digest demo_held" unfolding demo_held_def by (rule later[OF st acquires])
  have "lease_run demo_digest (new_lease ''b2'' (lh_endpoint (fst demo_held)), snd demo_held)"
    using later[OF held, of "(new_lease ''b2'' (lh_endpoint (fst demo_held)), snd demo_held)"] restarts[of demo_digest "fst demo_held" "snd demo_held"] by simp
  then show "lease_run demo_digest demo_restarted" unfolding demo_restarted_def by (rule later[OF _ starts])
qed

lemma demo_lease_values:
  "(assertMutable False (fst demo_started), assertMutable False (fst demo_held), member (snd demo_held) ''held'', assertMutable False (fst demo_restarted),
    member (snd (fst (release_lease demo_digest False Written (demo_request ''b2'') demo_restarted))) ''held'')
   = (None, Some Lock_or_storage_unavailable, Some (JBool True), Some Idle_lease_held, Some (JBool False))"
  by code_simp

theorem mutable_means_not_held_witness:
  "member (snd demo_started) ''held'' = Some (JBool False) \<and> assertMutable False (fst demo_started) = None"
  using mutable_means_not_held[of demo_digest "fst demo_started" "snd demo_started" False] demo_lease_runs(1) demo_lease_values by simp

theorem lease_ends_by_owner_witness:
  "let sys = fst (release_lease demo_digest False Written (demo_request ''b2'') demo_restarted)
   in snd sys = snd demo_restarted \<or> (\<exists>q changed wr. (fst sys, snd sys) = fst (release_lease demo_digest changed wr q (fst demo_restarted, snd demo_restarted))
      \<and> validate_request changed q (fst demo_restarted) = None
      \<and> member (snd demo_restarted) ''owner'' = Some (JStr (lq_owner q)) \<and> member (snd demo_restarted) ''tokenHash'' = Some (JStr (demo_digest (lq_token q))))"
proof -
  let ?sys = "fst (release_lease demo_digest False Written (demo_request ''b2'') demo_restarted)"
  have "member (snd demo_restarted) ''held'' = Some (JBool True)" by code_simp
  moreover have "lease_step demo_digest (fst demo_restarted, snd demo_restarted) (fst ?sys, snd ?sys)"
    using releases[of demo_digest demo_restarted False Written "demo_request ''b2''"] by simp
  ultimately show ?thesis
    using lease_ends_by_owner[of demo_digest "fst demo_restarted" "snd demo_restarted" "fst ?sys" "snd ?sys"] demo_lease_runs(3) by simp
qed

definition demo_lease :: lease_state where
  "demo_lease = \<lparr>ls_endpoint = ''/s'', ls_epoch = 0, ls_held = True, ls_owner = Some ''upgrader'', ls_tokenHash = Some (demo_digest [])\<rparr>"

theorem lease_reattached_witness:
  "\<exists>h. start_lease True True Written (new_lease ''b2'' (ls_endpoint demo_lease), Some (journal_of demo_lease)) = ((h, Some (journal_of demo_lease)), None)
     \<and> assertMutable False h = Some Idle_lease_held
     \<and> acquire_lease demo_digest False Lost (demo_request ''b2'') False (h, Some (journal_of demo_lease))
        = ((h, Some (journal_of demo_lease)), Inr \<lparr>lp_bootId = ''b2'', lp_endpoint = ls_endpoint demo_lease, lp_epoch = ls_epoch demo_lease, lp_held = True,
             lp_owner = Some (lq_owner (demo_request ''b2''))\<rparr>)"
proof (rule lease_reattached)
  show "hex64 (demo_digest t)" for t unfolding demo_digest_def by code_simp
  show "owner_name (lq_owner (demo_request ''b2''))" "hex64 (lq_token (demo_request ''b2''))" by code_simp+
qed (simp_all add: demo_lease_def demo_request_def owns_def demo_digest_def)

end
