(* ===== verification/SessionStatus.thy ===== *)
theory SessionStatus
  imports Prelude
begin

text \<open>
  The session status vocabulary (\<open>mesh-shared/src/session-status.ts\<close>): the canonical members, their behavioural
  class, the aliases of raw spellings and the predicates that every consumer branches on. A value that may not
  be a string is an \<open>option\<close>.
\<close>

datatype status_class = Working | Blocked | Ready | Dead | Unknown_class

definition SESSION_STATUS_CLASS :: "(string \<times> status_class) list" where
  "SESSION_STATUS_CLASS = [(''generating'', Working), (''finalizing'', Working), (''starting'', Working), (''waiting_approval'', Blocked), (''waiting_choice'', Blocked),
     (''idle'', Ready), (''panel_hidden'', Ready), (''not_monitored'', Ready), (''error'', Dead), (''stopped'', Dead), (''disconnected'', Dead)]"

definition SESSION_STATUSES :: "string list" where
  "SESSION_STATUSES = [''idle'', ''generating'', ''waiting_approval'', ''waiting_choice'', ''finalizing'', ''error'', ''stopped'', ''starting'', ''panel_hidden'',
     ''not_monitored'', ''disconnected'']"

definition SESSION_STATUS_ALIASES :: "(string \<times> string) list" where
  "SESSION_STATUS_ALIASES = [(''running'', ''generating''), (''streaming'', ''generating''), (''busy'', ''generating''), (''working'', ''generating''),
     (''loading'', ''generating''), (''loading_reference'', ''generating''), (''thinking'', ''generating''), (''active'', ''generating''),
     (''no_progress'', ''generating''), (''long_generating'', ''generating''), (''initializing'', ''starting''), (''waiting'', ''waiting_approval'')]"

definition isSessionStatus :: "string option \<Rightarrow> bool" where
  "isSessionStatus v = (case v of Some s \<Rightarrow> s \<in> set SESSION_STATUSES | None \<Rightarrow> False)"

text \<open>Names of members of \<open>Object.prototype\<close> are not status spellings.\<close>

definition normalizeSessionStatus :: "string option \<Rightarrow> string option" where
  "normalizeSessionStatus raw =
     (case raw of
        None \<Rightarrow> None
      | Some t \<Rightarrow> let v = js_lower (js_trim t) in if v \<in> set SESSION_STATUSES then Some v else map_of SESSION_STATUS_ALIASES v)"

definition classifySessionStatus :: "string option \<Rightarrow> status_class" where
  "classifySessionStatus raw =
     (case normalizeSessionStatus raw of
        Some s \<Rightarrow> (case map_of SESSION_STATUS_CLASS s of Some c \<Rightarrow> c | None \<Rightarrow> Unknown_class)
      | None \<Rightarrow> Unknown_class)"

definition isWorkingStatus :: "string option \<Rightarrow> bool" where "isWorkingStatus raw \<longleftrightarrow> classifySessionStatus raw = Working"
definition isBlockedStatus :: "string option \<Rightarrow> bool" where "isBlockedStatus raw \<longleftrightarrow> classifySessionStatus raw = Blocked"
definition isReadyStatus :: "string option \<Rightarrow> bool" where "isReadyStatus raw \<longleftrightarrow> classifySessionStatus raw = Ready"
definition isDeadStatus :: "string option \<Rightarrow> bool" where "isDeadStatus raw \<longleftrightarrow> classifySessionStatus raw = Dead"

definition isBusyStatus :: "string option \<Rightarrow> bool" where
  "isBusyStatus raw = (let cls = classifySessionStatus raw in cls = Working \<or> cls = Blocked)"

definition statusesOfClass :: "status_class \<Rightarrow> string list" where
  "statusesOfClass cls = filter (\<lambda>s. map_of SESSION_STATUS_CLASS s = Some cls) SESSION_STATUSES"

definition TERMINAL_SESSION_RECORD_STATUSES :: "string list" where
  "TERMINAL_SESSION_RECORD_STATUSES = [''stopped'', ''failed'', ''terminated'', ''exited'', ''closed'']"

definition isTerminalSessionRecordStatus :: "string option \<Rightarrow> bool" where
  "isTerminalSessionRecordStatus raw = (case raw of Some t \<Rightarrow> js_lower (js_trim t) \<in> set TERMINAL_SESSION_RECORD_STATUSES | None \<Rightarrow> False)"

text \<open>The status of the record and of its chat lane.\<close>

definition isIdleSessionState :: "string option \<Rightarrow> string option \<Rightarrow> bool" where
  "isIdleSessionState status chatStatus =
     (let s = Some (case status of Some t \<Rightarrow> js_lower (js_trim t) | None \<Rightarrow> [])
      in if isTerminalSessionRecordStatus s \<or> isDeadStatus s then False else isReadyStatus s \<or> chatStatus = Some ''waiting_input'')"

text \<open>Every canonical member and every alias has a class; a status is never of two classes, and a busy one is not idle.\<close>

lemma status_class_total:
  "list_all (\<lambda>s. classifySessionStatus (Some s) \<noteq> Unknown_class) (SESSION_STATUSES @ map fst SESSION_STATUS_ALIASES)"
  by code_simp

lemma ready_not_busy: "isReadyStatus raw \<Longrightarrow> \<not> isBusyStatus raw \<and> \<not> isDeadStatus raw"
  by (auto simp: isReadyStatus_def isBusyStatus_def isDeadStatus_def Let_def)

end
