(* ===== verification/SessionInput.thy ===== *)
theory SessionInput
  imports SessionStatus TurnTypes
begin

text \<open>
  The one path by which a message is typed into a session (\<open>sessions/session-input-service.ts\<close>,
  \<open>session-input-interrupt.ts\<close>): deduplication by message id, the busy decision, writing, the split write while
  a turn runs, and the interrupt. A submit awaits in several places; it is modelled as a run with a state per
  await. The queue of the session driver (\<open>send-submit-engine.ts\<close>: park, claim, restore in place, drain from the
  head) is part of the state. Receipts, consume acknowledgements and log lines are left out; the answers of the
  maintenance hold and of the receipt store are inputs.
\<close>

section \<open>Data\<close>

datatype send_mode = Mode_queue | Mode_send_now | Mode_interrupt

record outbound_message =
  om_messageId :: ident
  om_sessionId :: ident
  om_mode :: send_mode
  om_text :: string
  om_nonText :: bool
  om_digest :: string

datatype service_outcome =
    Out_delivered
  | Out_queued
  | Out_duplicate ident
  | Out_refused send_refusal "bool option"

datatype strategy = St_write | St_split_write | St_interrupt | St_refuse send_refusal

fun BUSY_DECISION :: "send_mode \<Rightarrow> status_class \<Rightarrow> strategy" where
  "BUSY_DECISION m Dead = St_refuse Ref_session_exited"
| "BUSY_DECISION Mode_queue cls = St_write"
| "BUSY_DECISION m Ready = St_write"
| "BUSY_DECISION m Blocked = St_refuse Ref_modal_parked"
| "BUSY_DECISION Mode_send_now cls = St_split_write"
| "BUSY_DECISION Mode_interrupt cls = St_interrupt"

definition splitWriteRefusal :: "string option \<Rightarrow> send_refusal" where
  "splitWriteRefusal reason =
     (if reason = Some ''platform_unsupported'' then Ref_platform_unsupported
      else if reason = Some ''not_supported'' then Ref_not_supported
      else if reason = Some ''not_generating'' then Ref_not_generating
      else if reason = Some ''send_in_flight'' then Ref_send_in_flight
      else if reason = Some ''not_ready'' then Ref_not_ready
      else Ref_internal_error)"

definition interruptRefusal :: "string \<Rightarrow> send_refusal" where
  "interruptRefusal reason =
     (if reason = ''interrupt_not_implemented'' then Ref_interrupt_not_implemented
      else if reason = ''not_running'' then Ref_session_exited
      else if reason = ''not_busy'' then Ref_not_generating
      else Ref_interrupt_refused)"

text \<open>A session: its status spelling, which optional methods it has, and its own builder of bodies (\<open>None\<close> in it: it throws).\<close>

record session_target =
  tg_status :: "string option"
  tg_build :: "(outbound_message \<Rightarrow> string option option) option"
  tg_splits :: bool
  tg_interrupts :: bool
  tg_queues :: bool
  tg_restores :: bool

definition classify :: "session_target \<Rightarrow> status_class" where
  "classify t = (if tg_status t = Some ''exited'' \<or> tg_status t = Some ''crashed'' then Dead else classifySessionStatus (tg_status t))"

definition freshBody :: "session_target \<Rightarrow> outbound_message \<Rightarrow> send_refusal + string" where
  "freshBody t msg =
     (case tg_build t of
        Some build \<Rightarrow>
          (case build msg of
             Some (Some b) \<Rightarrow> if js_trim b \<noteq> [] then Inr b else Inl Ref_unsupported_input
           | _ \<Rightarrow> Inl Ref_unsupported_input)
      | None \<Rightarrow> if om_nonText msg \<or> js_trim (om_text msg) = [] then Inl Ref_unsupported_input else Inr (om_text msg))"

section \<open>The driver's queue\<close>

text \<open>Entries are session, message id and body. The entries of one session are in FIFO order.\<close>

type_synonym parked = "ident \<times> ident \<times> string"

definition is_entry :: "ident \<Rightarrow> ident \<Rightarrow> parked \<Rightarrow> bool" where
  "is_entry sid i x \<longleftrightarrow> fst x = sid \<and> fst (snd x) = i"

definition hasQueuedSend :: "ident \<Rightarrow> ident \<Rightarrow> parked list \<Rightarrow> bool" where
  "hasQueuedSend sid i q = list_ex (is_entry sid i) q"

definition claimQueuedSend :: "ident \<Rightarrow> ident \<Rightarrow> parked list \<Rightarrow> ((string \<times> nat) \<times> parked list) option" where
  "claimQueuedSend sid i q =
     (case dropWhile (\<lambda>x. \<not> is_entry sid i x) q of
        [] \<Rightarrow> None
      | x # rest \<Rightarrow>
          let before = takeWhile (\<lambda>x. \<not> is_entry sid i x) q
          in Some ((snd (snd x), length (filter (\<lambda>y. fst y = sid) before)), before @ rest))"

fun insert_nth :: "ident \<Rightarrow> nat \<Rightarrow> parked \<Rightarrow> parked list \<Rightarrow> parked list" where
  "insert_nth sid n x [] = [x]"
| "insert_nth sid 0 x (y # ys) = x # y # ys"
| "insert_nth sid (Suc n) x (y # ys) = y # insert_nth sid (if fst y = sid then n else Suc n) x ys"

definition restoreQueuedSend :: "ident \<Rightarrow> ident \<Rightarrow> string \<times> nat \<Rightarrow> parked list \<Rightarrow> parked list" where
  "restoreQueuedSend sid i claimed q = (if hasQueuedSend sid i q then q else insert_nth sid (snd claimed) (sid, i, fst claimed) q)"

section \<open>The service\<close>

datatype settled_kind = Sk_delivered | Sk_queued

record settled_entry =
  se_kind :: settled_kind
  se_at :: ms
  se_sessionId :: ident
  se_digest :: string

text \<open>
  Where a run is: waiting for the admission, for the receipt check, for the session; for the stop key
  (with the body of a message that is not parked); for the idle prompt (with a claimed body, or the
  fresh one); for the driver's answer to the write, or to a body that is given back by writing it; or it has its outcome.
\<close>

datatype run_state =
    R_admit
  | R_run
  | R_target
  | R_interrupt "string option" session_target
  | R_idle "(string \<times> nat) option" string session_target
  | R_sending string
  | R_resend string send_refusal
  | R_over service_outcome

record input_service =
  is_settled :: "(ident \<times> settled_entry) list"
  is_inFlight :: "(ident \<times> outbound_message \<times> run_state) list"
  is_fifo :: "parked list"
  is_draining :: "parked list"
  is_latched :: "ident list"
  is_written :: "parked list"
  is_forgotten :: "ident list"

definition DEDUPE_WINDOW_MS :: ms where "DEDUPE_WINDOW_MS = 300000"
definition DEDUPE_MAX_ENTRIES :: nat where "DEDUPE_MAX_ENTRIES = 5000"

text \<open>The entries that \<open>remember\<close> drops: from the oldest on, until one is young and the map is not full.\<close>

fun purge :: "ms \<Rightarrow> (ident \<times> settled_entry) list \<Rightarrow> ident list \<times> (ident \<times> settled_entry) list" where
  "purge now [] = ([], [])"
| "purge now ((i, e) # es) =
     (if now - se_at e \<le> DEDUPE_WINDOW_MS \<and> Suc (length es) < DEDUPE_MAX_ENTRIES then ([], (i, e) # es)
      else let (gone, kept) = purge now es in (i # gone, kept))"

definition remember :: "ms \<Rightarrow> outbound_message \<Rightarrow> settled_kind \<Rightarrow> input_service \<Rightarrow> input_service" where
  "remember now msg kind s =
     (let (gone, kept) = purge now (is_settled s)
      in s\<lparr>is_settled := AList.delete (om_messageId msg) kept
             @ [(om_messageId msg, \<lparr>se_kind = kind, se_at = now, se_sessionId = om_sessionId msg, se_digest = om_digest msg\<rparr>)],
           is_forgotten := is_forgotten s @ gone\<rparr>)"

definition drop_settled :: "ident \<Rightarrow> input_service \<Rightarrow> input_service" where
  "drop_settled i s = s\<lparr>is_settled := AList.delete i (is_settled s), is_forgotten := is_forgotten s @ [i]\<rparr>"

definition settledKind :: "ms \<Rightarrow> ident \<Rightarrow> input_service \<Rightarrow> settled_kind option \<times> input_service" where
  "settledKind now i s =
     (case map_of (is_settled s) i of
        None \<Rightarrow> (None, s)
      | Some e \<Rightarrow> if now - se_at e > DEDUPE_WINDOW_MS then (None, drop_settled i s) else (Some (se_kind e), s))"

definition set_run :: "ident \<Rightarrow> outbound_message \<Rightarrow> run_state \<Rightarrow> input_service \<Rightarrow> input_service" where
  "set_run i msg r s = s\<lparr>is_inFlight := AList.update i (msg, r) (is_inFlight s)\<rparr>"

text \<open>\<open>submitOwned\<close>: the answer when there is one at once, else a run, or the wait for the run under way.\<close>

datatype submit_start = Answered service_outcome | Waits | Runs

definition submitOwned :: "outbound_message \<Rightarrow> input_service \<Rightarrow> submit_start \<times> input_service" where
  "submitOwned msg s =
     (if js_trim (om_messageId msg) = [] then (Answered (Out_refused Ref_internal_error None), s)
      else if js_trim (om_sessionId msg) = [] then (Answered (Out_refused Ref_no_target None), s)
      else if map_of (is_inFlight s) (om_messageId msg) \<noteq> None then (Waits, s)
      else (Runs, set_run (om_messageId msg) msg R_admit s))"

definition waiter_outcome :: "outbound_message \<Rightarrow> service_outcome" where
  "waiter_outcome msg = Out_duplicate (om_messageId msg)"

datatype admission = Admitted | Held | Admission_failed

definition admit_step :: "admission \<Rightarrow> outbound_message \<Rightarrow> input_service \<Rightarrow> input_service" where
  "admit_step adm msg s = set_run (om_messageId msg) msg
     (case adm of Admitted \<Rightarrow> R_run | Held \<Rightarrow> R_over (Out_refused Ref_new_work_held None) | Admission_failed \<Rightarrow> R_over (Out_refused Ref_internal_error None)) s"

datatype receipt_answer = Receipt_go_on | Receipt_duplicate | Receipt_conflict

definition run_step :: "ms \<Rightarrow> receipt_answer \<Rightarrow> outbound_message \<Rightarrow> input_service \<Rightarrow> input_service" where
  "run_step now receipt msg s =
     (let i = om_messageId msg; (kind, s1) = settledKind now i s in
      if kind = Some Sk_delivered then
        (case map_of (is_settled s1) i of
           Some e \<Rightarrow>
             set_run i msg (R_over (if se_sessionId e \<noteq> om_sessionId msg \<or> se_digest e \<noteq> om_digest msg then Out_refused Ref_internal_error None else Out_duplicate i)) s1
         | None \<Rightarrow> s1)
      else set_run i msg (case receipt of Receipt_go_on \<Rightarrow> R_target | Receipt_duplicate \<Rightarrow> R_over (Out_duplicate i)
                          | Receipt_conflict \<Rightarrow> R_over (Out_refused Ref_internal_error None)) s1)"

text \<open>The claimed body is written; one that is gone was written by the drain.\<close>

definition write_parked :: "outbound_message \<Rightarrow> input_service \<Rightarrow> input_service" where
  "write_parked msg s =
     (let i = om_messageId msg in
      case claimQueuedSend (om_sessionId msg) i (is_fifo s) of
        None \<Rightarrow> set_run i msg (R_over (Out_duplicate i)) s
      | Some ((body, n), fifo) \<Rightarrow> set_run i msg (R_sending body) (s\<lparr>is_fifo := fifo\<rparr>))"

definition write_fresh :: "session_target \<Rightarrow> outbound_message \<Rightarrow> input_service \<Rightarrow> input_service" where
  "write_fresh t msg s =
     set_run (om_messageId msg) msg (case freshBody t msg of Inl r \<Rightarrow> R_over (Out_refused r None) | Inr body \<Rightarrow> R_sending body) s"

text \<open>The split write; \<open>answer\<close> is what the driver says: \<open>None\<close> accepted, else a reason.\<close>

definition splitWrite :: "session_target \<Rightarrow> string option option \<Rightarrow> bool \<Rightarrow> outbound_message \<Rightarrow> input_service \<Rightarrow> input_service" where
  "splitWrite t answer isParked msg s =
     (let i = om_messageId msg; sid = om_sessionId msg;
          take_it = (\<lambda>body fifo. s\<lparr>is_fifo := fifo, is_written := is_written s @ [(sid, i, body)]\<rparr>) in
      if \<not> tg_splits t then set_run i msg (R_over (Out_refused Ref_not_supported (Some True))) s
      else if isParked then
        (case claimQueuedSend sid i (is_fifo s) of
           None \<Rightarrow> set_run i msg (R_over (Out_duplicate i)) s
         | Some ((body, n), fifo) \<Rightarrow>
             (case answer of
                None \<Rightarrow> set_run i msg (R_over Out_delivered) (take_it body fifo)
              | Some reason \<Rightarrow>
                  if tg_restores t
                  then set_run i msg (R_over (Out_refused (splitWriteRefusal reason) (Some True))) (s\<lparr>is_fifo := restoreQueuedSend sid i (body, n) fifo\<rparr>)
                  else set_run i msg (R_resend body (splitWriteRefusal reason)) (s\<lparr>is_fifo := fifo\<rparr>)))
      else
        (case freshBody t msg of
           Inl r \<Rightarrow> set_run i msg (R_over (Out_refused r None)) s
         | Inr body \<Rightarrow>
             (case answer of
                None \<Rightarrow> set_run i msg (R_over Out_delivered) (take_it body (is_fifo s))
              | Some reason \<Rightarrow> set_run i msg (R_over (Out_refused (splitWriteRefusal reason) (Some True))) s)))"

definition start_interrupt :: "session_target \<Rightarrow> bool \<Rightarrow> outbound_message \<Rightarrow> input_service \<Rightarrow> input_service" where
  "start_interrupt t isParked msg s =
     (let i = om_messageId msg in
      if \<not> tg_interrupts t then set_run i msg (R_over (Out_refused Ref_interrupt_not_implemented None)) s
      else if isParked then set_run i msg (R_interrupt None t) s
      else case freshBody t msg of
             Inl r \<Rightarrow> set_run i msg (R_over (Out_refused r None)) s
           | Inr body \<Rightarrow> set_run i msg (R_interrupt (Some body) t) s)"

datatype resolved = Resolve_threw | No_session | Session session_target

text \<open>The id was parked or written before, and the policy does not ask to move it on.\<close>

definition replayed :: "send_mode \<Rightarrow> bool \<Rightarrow> settled_kind option \<Rightarrow> bool" where
  "replayed mode isParked prior = (if mode = Mode_queue then isParked \<or> prior \<noteq> None else prior \<noteq> None \<and> \<not> isParked)"

text \<open>
  \<open>prepareInput\<close>: absent, the input it gives (its text, and whether other parts go with it), or its refusal.
  A parked body was authorised when it was parked and is not prepared again.
\<close>

datatype prepare_answer = No_prepare | Prepared string bool | Prepare_refused

definition prepared_input :: "prepare_answer \<Rightarrow> bool \<Rightarrow> outbound_message \<Rightarrow> outbound_message option" where
  "prepared_input prep isParked msg =
     (if isParked then Some msg
      else case prep of
             No_prepare \<Rightarrow> Some msg
           | Prepared text nonText \<Rightarrow> Some (msg\<lparr>om_text := text, om_nonText := nonText\<rparr>)
           | Prepare_refused \<Rightarrow> None)"

definition target_step :: "ms \<Rightarrow> resolved \<Rightarrow> prepare_answer \<Rightarrow> string option option \<Rightarrow> outbound_message \<Rightarrow> input_service \<Rightarrow> input_service" where
  "target_step now res prep answer msg s =
     (let i = om_messageId msg in
      case res of
        Resolve_threw \<Rightarrow> set_run i msg (R_over (Out_refused Ref_internal_error None)) s
      | No_session \<Rightarrow> set_run i msg (R_over (Out_refused Ref_no_target None)) s
      | Session t \<Rightarrow>
          let isParked = (tg_queues t \<and> hasQueuedSend (om_sessionId msg) i (is_fifo s)); (prior, s1) = settledKind now i s in
          if replayed (om_mode msg) isParked prior
          then set_run i msg (R_over (Out_duplicate i)) s1
          else case BUSY_DECISION (om_mode msg) (classify t) of
                 St_refuse r \<Rightarrow> set_run i msg (R_over (Out_refused r (if isParked then Some True else None))) s1
               | strategy \<Rightarrow>
                   (case prepared_input prep isParked msg of
                      None \<Rightarrow> set_run i msg (R_over (Out_refused Ref_unsupported_input None)) s1
                    | Some m \<Rightarrow>
                        if strategy = St_split_write then splitWrite t answer isParked m s1
                        else if strategy = St_interrupt then start_interrupt t isParked m s1
                        else if isParked then write_parked m s1 else write_fresh t m s1))"

text \<open>The stop key: refused with a reason, or pressed; then the parked body is claimed.\<close>

datatype key_answer = Key_pressed | Key_refused string | Key_threw

definition interrupt_step :: "key_answer \<Rightarrow> string option \<Rightarrow> session_target \<Rightarrow> outbound_message \<Rightarrow> input_service \<Rightarrow> input_service" where
  "interrupt_step key fresh t msg s =
     (let i = om_messageId msg in
      case key of
        Key_refused reason \<Rightarrow> set_run i msg (R_over (Out_refused (interruptRefusal reason) (Some True))) s
      | Key_threw \<Rightarrow> set_run i msg (R_over (Out_refused Ref_internal_error None)) s
      | Key_pressed \<Rightarrow>
          (case fresh of
             Some body \<Rightarrow> set_run i msg (R_idle None body t) s
           | None \<Rightarrow>
               (case claimQueuedSend (om_sessionId msg) i (is_fifo s) of
                  None \<Rightarrow> set_run i msg (R_over (Out_duplicate i)) s
                | Some (claimed, fifo) \<Rightarrow> set_run i msg (R_idle (Some claimed) (fst claimed) t) (s\<lparr>is_fifo := fifo\<rparr>))))"

datatype idle_answer = Went_idle | Terminal_status | No_idle

definition idle_step :: "idle_answer \<Rightarrow> (string \<times> nat) option \<Rightarrow> string \<Rightarrow> session_target \<Rightarrow> outbound_message \<Rightarrow> input_service \<Rightarrow> input_service" where
  "idle_step answer claimed body t msg s =
     (let i = om_messageId msg in
      case answer of
        Went_idle \<Rightarrow> set_run i msg (R_sending body) s
      | Terminal_status \<Rightarrow> set_run i msg (R_over (Out_refused Ref_session_exited (Some False))) s
      | No_idle \<Rightarrow>
          (case claimed of
             None \<Rightarrow> set_run i msg (R_over (Out_refused Ref_idle_timeout (Some True))) s
           | Some cl \<Rightarrow>
               if tg_restores t
               then set_run i msg (R_over (Out_refused Ref_idle_timeout (Some True))) (s\<lparr>is_fifo := restoreQueuedSend (om_sessionId msg) i cl (is_fifo s)\<rparr>)
               else set_run i msg (R_over (Out_refused Ref_idle_timeout (Some False))) s))"

datatype driver_answer = Driver_writes | Driver_parks | Driver_throws

definition send_step :: "driver_answer \<Rightarrow> string \<Rightarrow> outbound_message \<Rightarrow> input_service \<Rightarrow> input_service" where
  "send_step answer body msg s =
     (let i = om_messageId msg; x = (om_sessionId msg, i, body) in
      case answer of
        Driver_writes \<Rightarrow> set_run i msg (R_over Out_delivered) (s\<lparr>is_written := is_written s @ [x], is_latched := om_sessionId msg # is_latched s\<rparr>)
      | Driver_parks \<Rightarrow> set_run i msg (R_over Out_queued) (s\<lparr>is_fifo := is_fifo s @ [x]\<rparr>)
      | Driver_throws \<Rightarrow> set_run i msg (R_over (Out_refused Ref_internal_error None)) s)"

text \<open>A target that cannot restore in place gets the claimed body as an ordinary message; the outcome stays the refusal.\<close>

definition resend_step :: "driver_answer \<Rightarrow> string \<Rightarrow> send_refusal \<Rightarrow> outbound_message \<Rightarrow> input_service \<Rightarrow> input_service" where
  "resend_step answer body reason msg s =
     (let i = om_messageId msg; x = (om_sessionId msg, i, body) in
      case answer of
        Driver_writes \<Rightarrow> set_run i msg (R_over (Out_refused reason (Some True))) (s\<lparr>is_written := is_written s @ [x], is_latched := om_sessionId msg # is_latched s\<rparr>)
      | Driver_parks \<Rightarrow> set_run i msg (R_over (Out_refused reason (Some True))) (s\<lparr>is_fifo := is_fifo s @ [x]\<rparr>)
      | Driver_throws \<Rightarrow> set_run i msg (R_over (Out_refused reason (Some False))) s)"

definition finish_run :: "ms \<Rightarrow> outbound_message \<Rightarrow> service_outcome \<Rightarrow> input_service \<Rightarrow> input_service" where
  "finish_run now msg out s =
     (let s1 = (case out of Out_delivered \<Rightarrow> remember now msg Sk_delivered s | Out_queued \<Rightarrow> remember now msg Sk_queued s | _ \<Rightarrow> s)
      in s1\<lparr>is_inFlight := AList.delete (om_messageId msg) (is_inFlight s1)\<rparr>)"

text \<open>Withdrawing a parked body; a session without a queue has none.\<close>

definition withdraw :: "session_target option \<Rightarrow> ident \<Rightarrow> ident \<Rightarrow> input_service \<Rightarrow> bool \<times> input_service" where
  "withdraw t sid i s =
     (if (case t of Some tg \<Rightarrow> \<not> tg_queues tg | None \<Rightarrow> True) then (False, s)
      else case claimQueuedSend sid i (is_fifo s) of
             None \<Rightarrow> (False, s)
           | Some (_, fifo) \<Rightarrow> (True, drop_settled i (s\<lparr>is_fifo := fifo\<rparr>)))"

section \<open>The drain of a driver\<close>

text \<open>
  \<open>drainPendingSends\<close> on one frame: away from the idle prompt it opens the latch; at the idle prompt
  (\<open>clear\<close>: nobody has reserved the drain and no sign-in is asked for) and with the latch open it takes the
  oldest body out of the queue and writes it when a timer of 50 ms fires. A timer that is still set is cleared.
\<close>

definition drain_frame :: "bool \<Rightarrow> bool \<Rightarrow> ident \<Rightarrow> input_service \<Rightarrow> input_service" where
  "drain_frame idle clear sid s =
     (if \<not> idle then s\<lparr>is_latched := removeAll sid (is_latched s)\<rparr>
      else if \<not> clear \<or> sid \<in> set (is_latched s) then s
      else
        case dropWhile (\<lambda>x. fst x \<noteq> sid) (is_fifo s) of
          [] \<Rightarrow> s
        | x # rest \<Rightarrow> s\<lparr>is_fifo := takeWhile (\<lambda>x. fst x \<noteq> sid) (is_fifo s) @ rest,
            is_draining := x # filter (\<lambda>y. fst y \<noteq> sid) (is_draining s), is_latched := sid # is_latched s\<rparr>)"

text \<open>The timer: the body is written, or goes back to the head of the queue when the prompt is gone.\<close>

definition drain_fire :: "bool \<Rightarrow> ident \<Rightarrow> input_service \<Rightarrow> input_service" where
  "drain_fire idle sid s =
     (case filter (\<lambda>x. fst x = sid) (is_draining s) of
        [] \<Rightarrow> s
      | x # _ \<Rightarrow>
          let s' = s\<lparr>is_draining := filter (\<lambda>y. fst y \<noteq> sid) (is_draining s)\<rparr>
          in if idle then s'\<lparr>is_written := is_written s @ [x], is_latched := sid # is_latched s\<rparr>
             else s'\<lparr>is_fifo := x # is_fifo s, is_latched := removeAll sid (is_latched s)\<rparr>)"

text \<open>The latch of a body that the agent never visibly took expires. A write takes the latch, the split write does not.\<close>

definition latch_expired :: "ident \<Rightarrow> input_service \<Rightarrow> input_service" where
  "latch_expired sid s = s\<lparr>is_latched := removeAll sid (is_latched s)\<rparr>"

section \<open>Waiting for the idle prompt\<close>

text \<open>The poll loop over the samples it takes: time and status. \<open>None\<close>: the samples are not enough to decide.\<close>

fun wait_idle :: "ms \<Rightarrow> (string option \<times> ms) list \<Rightarrow> idle_answer option" where
  "wait_idle deadline [] = None"
| "wait_idle deadline ((status, now) # rest) =
     (if status \<noteq> None \<and> isDeadStatus status then Some Terminal_status
      else if status \<noteq> None \<and> \<not> isBusyStatus status then Some Went_idle
      else if now \<ge> deadline then Some No_idle
      else wait_idle deadline rest)"

text \<open>The extra press of the stop key: once, after its time, and after an unbroken run of busy samples.\<close>

fun second_press :: "ms \<Rightarrow> ms \<Rightarrow> ms \<Rightarrow> ms option \<Rightarrow> (string option \<times> ms) list \<Rightarrow> ms option" where
  "second_press deadline pressAt dwell since [] = None"
| "second_press deadline pressAt dwell since ((status, now) # rest) =
     (if status \<noteq> None \<and> (isDeadStatus status \<or> \<not> isBusyStatus status) then None
      else
        let since' = (if status = None then None else if since = None then Some now else since)
        in if now \<ge> deadline then None
           else if now \<ge> pressAt \<and> (case since' of Some t \<Rightarrow> now - t \<ge> dwell | None \<Rightarrow> False) then Some now
           else second_press deadline pressAt dwell since' rest)"

end
