(* ===== verification/SubmitVerdict.thy ===== *)
theory SubmitVerdict
  imports SessionInput
begin

text \<open>
  The verdict on a body that was written (\<open>submit-verdict.ts\<close>) and how the send engine uses it
  (\<open>send-submit-engine.ts\<close>). A body whose submit key had no visible effect is judged; when the agent has provably
  not taken it, its own text is deleted from the input row and pasted again, once. The sends are objects that the
  machine of a session refers to in several fields, so they are kept in a store and the fields hold positions.
  What the screen shows is an input of the operations: the composer reads, the proof that nobody else typed, the transcript
  evidence and the answers of the session host to guarded writes. The observers and the acceptance log are left out.
\<close>

section \<open>State\<close>

datatype send_phase = Ph_watch | Ph_clear | Ph_done

record current_send =
  cs_body :: parked
  cs_ownsComposer :: bool
  cs_phase :: send_phase
  cs_repasted :: bool

record verdict_machine =
  vm_current :: "nat option"
  vm_recovering :: "nat option"
  vm_hold :: "nat option"

definition idle_machine :: verdict_machine where
  "idle_machine = \<lparr>vm_current = None, vm_recovering = None, vm_hold = None\<rparr>"

text \<open>The service, the sends of all sessions, the machine of each session, and the bodies that were pasted again.\<close>

record send_engine =
  en_service :: input_service
  en_sends :: "current_send list"
  en_machine :: "ident \<Rightarrow> verdict_machine"
  en_repasted :: "parked list"

definition on_machine :: "ident \<Rightarrow> (verdict_machine \<Rightarrow> verdict_machine) \<Rightarrow> send_engine \<Rightarrow> send_engine" where
  "on_machine sid f g = g\<lparr>en_machine := (en_machine g)(sid := f (en_machine g sid))\<rparr>"

definition on_send :: "nat \<Rightarrow> (current_send \<Rightarrow> current_send) \<Rightarrow> send_engine \<Rightarrow> send_engine" where
  "on_send k f g = (if k < length (en_sends g) then g\<lparr>en_sends := (en_sends g)[k := f (en_sends g ! k)]\<rparr> else g)"

definition new_send :: "parked \<Rightarrow> bool \<Rightarrow> send_phase \<Rightarrow> send_engine \<Rightarrow> send_engine" where
  "new_send x owns phase g =
     on_machine (fst x) (\<lambda>m. m\<lparr>vm_current := Some (length (en_sends g))\<rparr>)
       (g\<lparr>en_sends := en_sends g @ [\<lparr>cs_body = x, cs_ownsComposer = owns, cs_phase = phase, cs_repasted = False\<rparr>]\<rparr>)"

section \<open>Operations of the machine\<close>

text \<open>A write begins; \<open>owns\<close>: the send is observed, the input row is empty and nobody else types.\<close>

definition verdict_begin :: "parked \<Rightarrow> bool \<Rightarrow> send_engine \<Rightarrow> send_engine" where
  "verdict_begin x owns g = new_send x owns Ph_watch g"

text \<open>The drain has taken a body out of the queue; the write follows.\<close>

definition reserve :: "parked \<Rightarrow> send_engine \<Rightarrow> send_engine" where
  "reserve x g = new_send x False Ph_done g"

definition holding :: "ident \<Rightarrow> send_engine \<Rightarrow> bool" where
  "holding sid g \<longleftrightarrow> vm_hold (en_machine g sid) \<noteq> None \<or> vm_recovering (en_machine g sid) \<noteq> None"

definition noteConfirmed :: "ident \<Rightarrow> nat option \<Rightarrow> send_engine \<Rightarrow> send_engine" where
  "noteConfirmed sid send g =
     (case send of
        None \<Rightarrow> g
      | Some k \<Rightarrow>
          on_machine sid (\<lambda>m. m\<lparr>vm_current := if vm_current m = Some k then None else vm_current m,
                                vm_recovering := if vm_recovering m = Some k then None else vm_recovering m\<rparr>)
            (on_send k (\<lambda>c. c\<lparr>cs_phase := Ph_done\<rparr>) g))"

definition releaseHold :: "ident \<Rightarrow> send_engine \<Rightarrow> send_engine" where
  "releaseHold sid g = on_machine sid (\<lambda>m. m\<lparr>vm_hold := None\<rparr>) g"

definition releaseOnActivity :: "ident \<Rightarrow> send_engine \<Rightarrow> send_engine" where
  "releaseOnActivity sid g = (let g1 = releaseHold sid g in noteConfirmed sid (vm_recovering (en_machine g1 sid)) g1)"

definition cancel :: "ident \<Rightarrow> send_engine \<Rightarrow> send_engine" where
  "cancel sid g = on_machine sid (\<lambda>m. idle_machine) g"

text \<open>Keep the slot; nothing is cleared, written or reported.\<close>

definition quarantine :: "ident \<Rightarrow> nat \<Rightarrow> send_engine \<Rightarrow> send_engine" where
  "quarantine sid k g =
     on_machine sid (\<lambda>m. m\<lparr>vm_recovering := None, vm_hold := Some k\<rparr>) (on_send k (\<lambda>c. c\<lparr>cs_phase := Ph_done\<rparr>) g)"

definition awaitVerdict :: "ident \<Rightarrow> nat \<Rightarrow> send_engine \<Rightarrow> send_engine" where
  "awaitVerdict sid k g =
     (if vm_current (en_machine g sid) = Some k then on_machine sid (\<lambda>m. m\<lparr>vm_recovering := Some k\<rparr>) g else g)"

text \<open>
  What one look at the session says: it left its idle prompt, the body cannot be shown to be unsent, it can but the hold
  has not elapsed, or it can. A send that does not own the composer is never shown to be unsent (\<open>unprovenReason\<close>).
\<close>

datatype sighting = Left_idle | Not_proven | Proven_so_far | Proven_unsent

definition proven :: "sighting \<Rightarrow> nat \<Rightarrow> send_engine \<Rightarrow> sighting" where
  "proven look k g =
     (if look = Left_idle then Left_idle
      else if k < length (en_sends g) \<and> cs_ownsComposer (en_sends g ! k) then look else Not_proven)"

definition judge_poll :: "ident \<Rightarrow> sighting \<Rightarrow> nat \<Rightarrow> send_engine \<Rightarrow> send_engine" where
  "judge_poll sid look k g =
     (if vm_current (en_machine g sid) \<noteq> Some k then g
      else case proven look k g of
             Left_idle \<Rightarrow> noteConfirmed sid (Some k) g
           | Not_proven \<Rightarrow> quarantine sid k g
           | Proven_so_far \<Rightarrow> g
           | Proven_unsent \<Rightarrow> on_machine sid (\<lambda>m. m\<lparr>vm_recovering := Some k\<rparr>) g)"

text \<open>After the transcript was read; \<open>absent\<close>: it positively shows no turn since the first write.\<close>

definition decideRecovery :: "ident \<Rightarrow> bool \<Rightarrow> sighting \<Rightarrow> nat \<Rightarrow> send_engine \<Rightarrow> send_engine" where
  "decideRecovery sid absent look k g =
     (if vm_recovering (en_machine g sid) \<noteq> Some k \<or> vm_current (en_machine g sid) \<noteq> Some k then g
      else case proven look k g of
             Left_idle \<Rightarrow> noteConfirmed sid (Some k) g
           | Not_proven \<Rightarrow> quarantine sid k g
           | _ \<Rightarrow> if absent then on_send k (\<lambda>c. c\<lparr>cs_phase := Ph_clear\<rparr>) g else quarantine sid k g)"

text \<open>The one re-paste. The body is typed when the session host accepts the guarded write.\<close>

definition repaste :: "ident \<Rightarrow> bool \<Rightarrow> bool \<Rightarrow> nat \<Rightarrow> send_engine \<Rightarrow> send_engine" where
  "repaste sid untouched accepted k g =
     (if \<not> untouched then quarantine sid k g
      else
        let g1 = on_send k (\<lambda>c. c\<lparr>cs_repasted := True, cs_phase := Ph_watch\<rparr>) g;
            g2 = g1\<lparr>en_service := (en_service g1)\<lparr>is_latched := sid # is_latched (en_service g1)\<rparr>\<rparr>
        in if accepted then g2\<lparr>en_repasted := en_repasted g2 @ [cs_body (en_sends g ! k)]\<rparr> else quarantine sid k g2)"

text \<open>Shown to be unsent twice: the slot is given back.\<close>

definition reportUnconfirmed :: "ident \<Rightarrow> nat \<Rightarrow> send_engine \<Rightarrow> send_engine" where
  "reportUnconfirmed sid k g =
     (let g1 = on_machine sid (\<lambda>m. m\<lparr>vm_recovering := None, vm_current := if vm_current m = Some k then None else vm_current m\<rparr>)
                 (on_send k (\<lambda>c. c\<lparr>cs_phase := Ph_done\<rparr>) g)
      in g1\<lparr>en_service := latch_expired sid (en_service g1)\<rparr>)"

text \<open>
  The end of the verified clear: the agent took the body after all, the row changed in a way the deletions do not
  explain, or the row is the baseline again; then the body is pasted again, or reported when that was done before.
\<close>

datatype clear_end = Cleared_taken | Clear_lost | Cleared bool bool

definition clear_done :: "ident \<Rightarrow> clear_end \<Rightarrow> nat \<Rightarrow> send_engine \<Rightarrow> send_engine" where
  "clear_done sid how k g =
     (if vm_recovering (en_machine g sid) \<noteq> Some k \<or> \<not> (k < length (en_sends g) \<and> cs_phase (en_sends g ! k) = Ph_clear) then g
      else case how of
             Cleared_taken \<Rightarrow> noteConfirmed sid (Some k) g
           | Clear_lost \<Rightarrow> quarantine sid k g
           | Cleared untouched accepted \<Rightarrow>
               if cs_repasted (en_sends g ! k) then reportUnconfirmed sid k g else repaste sid untouched accepted k g)"

definition abortRecovery :: "ident \<Rightarrow> send_engine \<Rightarrow> send_engine" where
  "abortRecovery sid g = (case vm_recovering (en_machine g sid) of None \<Rightarrow> g | Some k \<Rightarrow> quarantine sid k g)"

text \<open>The poll of a quarantined composer; \<open>back\<close>: the row has read as before the write long enough, at the idle prompt.\<close>

definition hold_poll :: "ident \<Rightarrow> bool \<Rightarrow> send_engine \<Rightarrow> send_engine" where
  "hold_poll sid back g =
     (case vm_hold (en_machine g sid) of
        None \<Rightarrow> g
      | Some k \<Rightarrow>
          if \<not> back then g
          else let g1 = on_machine sid (\<lambda>m. m\<lparr>vm_hold := None, vm_current := if vm_current m = Some k then None else vm_current m\<rparr>) g
               in g1\<lparr>en_service := latch_expired sid (en_service g1)\<rparr>)"

section \<open>The engine around it\<close>

text \<open>A step of the service: a body it writes at an idle prompt begins a send, a split write does not.\<close>

definition serve :: "bool \<Rightarrow> bool \<Rightarrow> input_service \<Rightarrow> send_engine \<Rightarrow> send_engine" where
  "serve begins owns s' g =
     (let new = drop (length (is_written (en_service g))) (is_written s'); g' = g\<lparr>en_service := s'\<rparr>
      in if begins then fold (\<lambda>x. verdict_begin x owns) new g' else g')"

text \<open>
  \<open>drainPendingSends\<close>: a frame away from the idle prompt with the latch taken shows that the agent took the body;
  at the idle prompt a body that is taken out of the queue is reserved.
\<close>

definition engine_frame :: "bool \<Rightarrow> bool \<Rightarrow> ident \<Rightarrow> send_engine \<Rightarrow> send_engine" where
  "engine_frame idle clear sid g =
     (let s = en_service g; s' = drain_frame idle clear sid s;
          g1 = (if \<not> idle \<and> sid \<in> set (is_latched s)
                then let a = releaseOnActivity sid g in noteConfirmed sid (vm_current (en_machine a sid)) a else g);
          g2 = g1\<lparr>en_service := s'\<rparr>
      in if is_fifo s' = is_fifo s then g2 else case is_draining s' of [] \<Rightarrow> g2 | x # _ \<Rightarrow> reserve x g2)"

text \<open>The latch expires by itself, unless a composer is held.\<close>

definition engine_expire :: "ident \<Rightarrow> send_engine \<Rightarrow> send_engine" where
  "engine_expire sid g = (if holding sid g then g else g\<lparr>en_service := latch_expired sid (en_service g)\<rparr>)"

section \<open>What the operations change\<close>

lemma on_simps [simp]:
  "en_service (on_machine sid f g) = en_service g" "en_sends (on_machine sid f g) = en_sends g" "en_repasted (on_machine sid f g) = en_repasted g"
  "en_service (on_send k h g) = en_service g" "en_repasted (on_send k h g) = en_repasted g" "length (en_sends (on_send k h g)) = length (en_sends g)"
  by (simp_all add: on_machine_def on_send_def)

lemma service_kept [simp]:
  "en_service (noteConfirmed sid send g) = en_service g" "en_service (quarantine sid k g) = en_service g" "en_service (releaseHold sid g) = en_service g"
  "en_service (releaseOnActivity sid g) = en_service g" "en_service (cancel sid g) = en_service g" "en_service (new_send x owns ph g) = en_service g"
  "en_repasted (noteConfirmed sid send g) = en_repasted g" "en_repasted (quarantine sid k g) = en_repasted g" "en_repasted (releaseHold sid g) = en_repasted g"
  "en_repasted (releaseOnActivity sid g) = en_repasted g" "en_repasted (cancel sid g) = en_repasted g" "en_repasted (new_send x owns ph g) = en_repasted g"
  by (simp_all add: noteConfirmed_def quarantine_def releaseHold_def releaseOnActivity_def cancel_def new_send_def Let_def split: option.split)

end
