(* ===== verification/InputOnce.thy ===== *)
theory InputOnce
  imports SubmitVerdict "HOL-Library.Multiset"
begin

text \<open>
  Runs of the input service and of the send engine: any number of submits under way, the drains of the drivers, withdrawals,
  forgotten ids, verdicts and recoveries, in any order. A message id is begun as a send at most once; the recovery
  of a send that was not taken pastes its body at most once more.
\<close>

section \<open>Steps\<close>

inductive service_step :: "input_service \<Rightarrow> input_service \<Rightarrow> bool" where
  submits: "service_step s (snd (submitOwned msg s))"
| admits: "map_of (is_inFlight s) i = Some (msg, R_admit) \<Longrightarrow> service_step s (admit_step adm msg s)"
| checks: "map_of (is_inFlight s) i = Some (msg, R_run) \<Longrightarrow> service_step s (run_step now receipt msg s)"
| resolves: "map_of (is_inFlight s) i = Some (msg, R_target) \<Longrightarrow> service_step s (target_step now res prep answer msg s)"
| interrupts: "map_of (is_inFlight s) i = Some (msg, R_interrupt fresh t) \<Longrightarrow> service_step s (interrupt_step key fresh t msg s)"
| idles: "map_of (is_inFlight s) i = Some (msg, R_idle claimed body t) \<Longrightarrow> service_step s (idle_step idle claimed body t msg s)"
| sends: "map_of (is_inFlight s) i = Some (msg, R_sending body) \<Longrightarrow> service_step s (send_step drv body msg s)"
| resends: "map_of (is_inFlight s) i = Some (msg, R_resend body reason) \<Longrightarrow> service_step s (resend_step drv body reason msg s)"
| finishes: "map_of (is_inFlight s) i = Some (msg, R_over out) \<Longrightarrow> service_step s (finish_run now msg out s)"
| withdraws: "service_step s (snd (withdraw t sid i s))"
| forgets: "service_step s (drop_settled i s)"
| session_ends: "service_step s (s\<lparr>is_fifo := filter (\<lambda>x. fst x \<noteq> sid) (is_fifo s), is_draining := filter (\<lambda>x. fst x \<noteq> sid) (is_draining s)\<rparr>)"

text \<open>The steps of the submits, and those of the driver's drain.\<close>

inductive input_step :: "input_service \<Rightarrow> input_service \<Rightarrow> bool" where
  serves: "service_step s s' \<Longrightarrow> input_step s s'"
| drains: "input_step s (drain_frame idle clear sid s)"
| drain_fires: "input_step s (drain_fire idle sid s)"
| latch_opens: "input_step s (latch_expired sid s)"

definition no_input :: input_service where
  "no_input = \<lparr>is_settled = [], is_inFlight = [], is_fifo = [], is_draining = [], is_latched = [], is_written = [], is_forgotten = []\<rparr>"

inductive input_run :: "input_service \<Rightarrow> bool" where
  idle: "input_run no_input"
| on: "input_run s \<Longrightarrow> input_step s s' \<Longrightarrow> input_run s'"

section \<open>Copies of a message\<close>

definition copies :: "ident \<Rightarrow> parked list \<Rightarrow> nat" where
  "copies i q = length (filter (\<lambda>x. fst (snd x) = i) q)"

lemma copies_simps [simp]: "copies i [] = 0" "copies i (x # q) = (if fst (snd x) = i then 1 else 0) + copies i q" "copies i (q @ r) = copies i q + copies i r"
  by (simp_all add: copies_def)

lemma claim_copies:
  assumes "claimQueuedSend sid i q = Some (c, q')"
  shows "copies j q = copies j q' + (if j = i then 1 else 0)"
proof -
  let ?P = "\<lambda>x. \<not> is_entry sid i x"
  from assms obtain x rest where d: "dropWhile ?P q = x # rest" "q' = takeWhile ?P q @ rest"
    by (auto simp: claimQueuedSend_def Let_def split: list.splits)
  have "is_entry sid i x" using hd_dropWhile[of ?P q] d by auto
  moreover have "q = takeWhile ?P q @ x # rest" using takeWhile_dropWhile_id[of ?P q] d(1) by simp
  then have "copies j q = copies j (takeWhile ?P q @ x # rest)" by simp
  ultimately show ?thesis using d(2) by (auto simp: is_entry_def)
qed

lemma claim_none: "claimQueuedSend sid i q = None \<longleftrightarrow> \<not> hasQueuedSend sid i q"
proof -
  have "dropWhile (\<lambda>x. \<not> is_entry sid i x) q = [] \<longleftrightarrow> \<not> hasQueuedSend sid i q"
    by (auto simp: hasQueuedSend_def list_ex_iff)
  then show ?thesis by (cases "dropWhile (\<lambda>x. \<not> is_entry sid i x) q") (simp_all add: claimQueuedSend_def Let_def del: dropWhile_eq_Nil_conv)
qed

lemma insert_copies: "copies j (insert_nth sid n x q) = copies j q + (if fst (snd x) = j then 1 else 0)"
  by (induction sid n x q rule: insert_nth.induct) auto

lemma restore_copies: "copies j (restoreQueuedSend sid i c q) \<le> copies j q + (if j = i then 1 else 0)"
  by (auto simp: restoreQueuedSend_def insert_copies)

lemma filter_copies: "copies i (filter P q) + copies i (filter (\<lambda>x. \<not> P x) q) = copies i q"
  by (induction q) auto

lemma frame_copies:
  "copies i (is_fifo (drain_frame idle clear sid s)) + copies i (is_draining (drain_frame idle clear sid s)) \<le> copies i (is_fifo s) + copies i (is_draining s)"
proof (cases "dropWhile (\<lambda>x. fst x \<noteq> sid) (is_fifo s)")
  case (Cons x rest)
  have "is_fifo s = takeWhile (\<lambda>x. fst x \<noteq> sid) (is_fifo s) @ x # rest" using takeWhile_dropWhile_id[of "\<lambda>x. fst x \<noteq> sid" "is_fifo s"] Cons by simp
  then have "copies i (is_fifo s) = copies i (takeWhile (\<lambda>x. fst x \<noteq> sid) (is_fifo s) @ x # rest)" by simp
  moreover have "copies i (filter (\<lambda>y. fst y \<noteq> sid) (is_draining s)) \<le> copies i (is_draining s)" using filter_copies[of i "\<lambda>y. fst y \<noteq> sid" "is_draining s"] by simp
  ultimately show ?thesis using Cons by (simp add: drain_frame_def)
qed (simp add: drain_frame_def del: dropWhile_eq_Nil_conv)

lemma fire_copies:
  "copies i (is_fifo (drain_fire idle sid s)) + copies i (is_draining (drain_fire idle sid s)) + copies i (is_written (drain_fire idle sid s))
   \<le> copies i (is_fifo s) + copies i (is_draining s) + copies i (is_written s)"
proof (cases "filter (\<lambda>x. fst x = sid) (is_draining s)")
  case (Cons x rest)
  have "copies i (filter (\<lambda>x. fst x = sid) (is_draining s)) + copies i (filter (\<lambda>y. fst y \<noteq> sid) (is_draining s)) = copies i (is_draining s)"
    by (rule filter_copies)
  with Cons show ?thesis by (simp add: drain_fire_def Let_def)
qed (simp add: drain_fire_def)

section \<open>The invariant\<close>

fun run_bodies :: "run_state \<Rightarrow> nat" where
  "run_bodies (R_interrupt (Some body) t) = 1"
| "run_bodies (R_idle claimed body t) = 1"
| "run_bodies (R_sending body) = 1"
| "run_bodies (R_resend body r) = 1"
| "run_bodies _ = 0"

definition takes_body :: "service_outcome \<Rightarrow> bool" where
  "takes_body out \<longleftrightarrow> out = Out_delivered \<or> out = Out_queued"

fun run_took :: "run_state \<Rightarrow> bool" where
  "run_took (R_over out) = takes_body out"
| "run_took _ = False"

text \<open>A run that holds a body it took out of the queue, to give it back if need be.\<close>

fun run_claimed :: "run_state \<Rightarrow> bool" where
  "run_claimed (R_idle (Some c) body t) = True"
| "run_claimed (R_resend body r) = True"
| "run_claimed _ = False"

definition run_of :: "ident \<Rightarrow> input_service \<Rightarrow> run_state" where
  "run_of i s = (case map_of (is_inFlight s) i of Some (_, r) \<Rightarrow> r | None \<Rightarrow> R_admit)"

definition settled_in :: "ident \<Rightarrow> input_service \<Rightarrow> bool" where
  "settled_in i s \<longleftrightarrow> map_of (is_settled s) i \<noteq> None"

text \<open>
  One copy at most: parked, written or held by the run of its id; a copy that is parked or written is
  remembered, or about to be.
\<close>

definition once :: "ident \<Rightarrow> input_service \<Rightarrow> bool" where
  "once i s \<longleftrightarrow> i \<in> set (is_forgotten s) \<or>
     copies i (is_fifo s) + copies i (is_draining s) + copies i (is_written s) + run_bodies (run_of i s) \<le> 1
     \<and> (copies i (is_fifo s) + copies i (is_draining s) + copies i (is_written s) > 0 \<longrightarrow> settled_in i s \<or> run_took (run_of i s))
     \<and> (run_claimed (run_of i s) \<longrightarrow> settled_in i s)"

definition runs_keyed :: "input_service \<Rightarrow> bool" where
  "runs_keyed s \<longleftrightarrow> (\<forall>i msg r. map_of (is_inFlight s) i = Some (msg, r) \<longrightarrow> om_messageId msg = i)"

lemma set_run_simps [simp]:
  "is_settled (set_run i msg r s) = is_settled s" "is_fifo (set_run i msg r s) = is_fifo s" "is_written (set_run i msg r s) = is_written s"
  "is_draining (set_run i msg r s) = is_draining s"
  "is_forgotten (set_run i msg r s) = is_forgotten s" "run_of j (set_run i msg r s) = (if j = i then r else run_of j s)"
  "settled_in j (set_run i msg r s) = settled_in j s"
  by (simp_all add: set_run_def run_of_def settled_in_def update_conv')

lemma run_of_upd [simp]:
  "run_of j (s\<lparr>is_fifo := q\<rparr>) = run_of j s" "run_of j (s\<lparr>is_written := w\<rparr>) = run_of j s" "run_of j (s\<lparr>is_settled := m\<rparr>) = run_of j s"
  "run_of j (s\<lparr>is_forgotten := f\<rparr>) = run_of j s" "run_of j (s\<lparr>is_latched := l\<rparr>) = run_of j s" "settled_in j (s\<lparr>is_latched := l\<rparr>) = settled_in j s" "settled_in j (s\<lparr>is_fifo := q\<rparr>) = settled_in j s" "settled_in j (s\<lparr>is_written := w\<rparr>) = settled_in j s"
  by (simp_all add: run_of_def settled_in_def)

lemma settledKind_cases:
  assumes "settledKind now i s = (k, s')"
  shows "s' = s \<and> (k = None \<longleftrightarrow> \<not> settled_in i s) \<or> k = None \<and> s' = drop_settled i s"
  using assms by (auto simp: settledKind_def settled_in_def split: option.splits if_splits)

lemma drop_once: "once j s \<Longrightarrow> once j (drop_settled i s)"
  by (cases "j = i") (auto simp: once_def drop_settled_def settled_in_def map_of_js_delete run_of_def)

lemma settledKind_once: "settledKind now i s = (k, s') \<Longrightarrow> once j s \<Longrightarrow> once j s'"
  using settledKind_cases drop_once by metis

lemma purge_settled:
  assumes "purge now es = (gone, kept)"
  shows "map_of es i \<noteq> None \<Longrightarrow> i \<in> set gone \<or> map_of kept i \<noteq> None"
  using assms by (induction now es arbitrary: gone rule: purge.induct) (auto split: if_splits prod.splits)

lemma remember_once:
  assumes o: "once j s" and d: "om_messageId msg = i"
  shows "once j (remember now msg kind s)" "settled_in i (remember now msg kind s)"
proof -
  obtain gone kept where p: "purge now (is_settled s) = (gone, kept)" by fastforce
  have "j \<in> set gone \<or> settled_in j (remember now msg kind s)" if "settled_in j s"
    using purge_settled[OF p, of j] that p d by (auto simp: remember_def settled_in_def map_of_js_delete map_of_append map_add_def split: option.splits)
  then show "once j (remember now msg kind s)" using o p by (auto simp: once_def remember_def run_of_def)
  show "settled_in i (remember now msg kind s)" using p d by (auto simp: remember_def settled_in_def map_add_def split: option.splits)
qed

section \<open>Every step keeps it\<close>

lemma over_once:
  assumes "once j s" "\<not> run_took (run_of i s)"
  shows "once j (set_run i msg (R_over out) s)"
  using assms by (auto simp: once_def)

lemma early_once:
  assumes "once j s" "\<not> run_took (run_of i s)" "run_bodies r = 0" "\<not> run_claimed r"
  shows "once j (set_run i msg r s)"
  using assms by (auto simp: once_def)

lemma hold_once:
  assumes "once j s" "\<not> run_took (run_of i s)" "\<not> settled_in i s \<or> i \<in> set (is_forgotten s)" "\<not> run_claimed r"
  shows "once j (set_run i msg r s)"
proof -
  have "run_bodies r \<le> 1" by (cases r rule: run_bodies.cases) auto
  then show ?thesis using assms by (auto simp: once_def)
qed

lemma claim_once:
  assumes "once j s" "\<not> run_took (run_of i s)" "claimQueuedSend sid i (is_fifo s) = Some (c, q')"
  shows "once j (set_run i msg r (s\<lparr>is_fifo := q'\<rparr>))"
proof -
  have "run_bodies r \<le> 1" by (cases r rule: run_bodies.cases) auto
  then show ?thesis using assms claim_copies[OF assms(3)] by (auto simp: once_def)
qed

lemma split_once:
  assumes o: "once j s" and t: "\<not> run_took (run_of i s)" and i: "om_messageId msg = i"
    and fresh: "\<not> isParked \<Longrightarrow> \<not> settled_in i s \<or> i \<in> set (is_forgotten s)"
  shows "once j (splitWrite tg answer isParked msg s)"
proof -
  let ?sid = "om_sessionId msg"
  have taken: "once j (set_run i msg (R_over Out_delivered) (s\<lparr>is_fifo := q, is_written := is_written s @ [(?sid, i, body)]\<rparr>))"
    if "\<And>j. copies j (is_fifo s) = copies j q + (if j = i then 1 else 0)" for q body
    using o t that[of j] that[of i] by (auto simp: once_def takes_body_def)
  have returned: "once j (set_run i msg (R_over (Out_refused r x)) (s\<lparr>is_fifo := restoreQueuedSend ?sid i c q\<rparr>))"
    if "\<And>j. copies j (is_fifo s) = copies j q + (if j = i then 1 else 0)" for q c r x
    using o t that[of j] that[of i] restore_copies[of j ?sid i c q] restore_copies[of i ?sid i c q] by (auto simp: once_def takes_body_def)
  have new: "once j (set_run i msg (R_over Out_delivered) (s\<lparr>is_written := is_written s @ [(?sid, i, body)]\<rparr>))" if "\<not> isParked" for body
    using o t fresh[OF that] by (auto simp: once_def takes_body_def)
  show ?thesis
  proof (cases "tg_splits tg \<and> isParked")
    case True
    then show ?thesis
    proof (cases "claimQueuedSend ?sid i (is_fifo s)")
      case None
      with True o t i show ?thesis by (simp add: splitWrite_def Let_def over_once)
    next
      case (Some cl)
      obtain body n q where cl: "cl = ((body, n), q)" by (metis prod.collapse)
      note cp = claim_copies[OF Some[unfolded cl]]
      show ?thesis using True i Some cl taken[OF cp] returned[OF cp] claim_once[OF o t Some[unfolded cl]]
        by (cases answer) (simp_all add: splitWrite_def Let_def)
    qed
  next
    case False
    then show ?thesis using i o t new by (auto simp: splitWrite_def Let_def over_once split: sum.split option.split)
  qed
qed

lemma prepared_keeps: "prepared_input prep isParked msg = Some m \<Longrightarrow> om_messageId m = om_messageId msg \<and> om_sessionId m = om_sessionId msg"
  by (auto simp: prepared_input_def split: if_splits prepare_answer.splits)

lemma strategy_once:
  assumes o: "once j s" and r: "\<not> run_took (run_of i s)" and i: "om_messageId m = i" and new: "\<not> isParked \<Longrightarrow> \<not> settled_in i s \<or> i \<in> set (is_forgotten s)"
  shows "once j (write_parked m s)" "\<not> isParked \<Longrightarrow> once j (write_fresh t m s)" "once j (splitWrite t answer isParked m s)" "once j (start_interrupt t isParked m s)"
proof -
  have hold: "once j (set_run i m r s)" if "\<not> isParked" "\<not> run_claimed r" for r using hold_once[OF o r new[OF that(1)] that(2)] .
  show "once j (write_parked m s)" using i claim_once[OF o r] over_once[OF o r] by (simp add: write_parked_def Let_def split: option.split prod.split)
  show "once j (write_fresh t m s)" if "\<not> isParked" using i hold[OF that] by (simp add: write_fresh_def split: sum.split)
  show "once j (splitWrite t answer isParked m s)" by (rule split_once[OF o r i]) (erule new)
  show "once j (start_interrupt t isParked m s)"
  proof (cases isParked)
    case True
    then show ?thesis using i over_once[OF o r] early_once[OF o r, of "R_interrupt None t"] by (simp add: start_interrupt_def Let_def)
  next
    case False
    then show ?thesis using i hold[OF False] unfolding start_interrupt_def Let_def by (simp split: sum.split)
  qed
qed

lemma target_once:
  assumes o: "once j s" and r: "run_of i s = R_target" and i: "om_messageId msg = i"
  shows "once j (target_step now res prep answer msg s)"
proof (cases res)
  case (Session t)
  obtain prior s1 where k: "settledKind now i s = (prior, s1)" by fastforce
  have o1: "once j s1" using settledKind_once[OF k o] .
  have r1: "\<not> run_took (run_of i s1)" using settledKind_cases[OF k] r by (auto simp: drop_settled_def)
  have fresh: "\<not> settled_in i s1 \<or> i \<in> set (is_forgotten s1)" if "prior = None"
    using settledKind_cases[OF k] that by (auto simp: drop_settled_def)
  define q where "q \<longleftrightarrow> tg_queues t \<and> hasQueuedSend (om_sessionId msg) i (is_fifo s)"
  note target = target_step_def[of now "Session t" prep answer msg s] Session k q_def[symmetric] Let_def i
  show ?thesis
  proof (cases "replayed (om_mode msg) q prior")
    case True
    then show ?thesis using over_once[OF o1 r1] by (simp add: target)
  next
    case False
    then have new: "\<not> q \<Longrightarrow> prior = None" by (auto simp: replayed_def split: if_splits)
    have m: "om_messageId m = i" if "prepared_input prep q msg = Some m" for m using prepared_keeps[OF that] i by simp
    note st = strategy_once[OF o1 r1 m, of _ q, OF _ fresh[OF new]]
    show ?thesis
    proof (cases "prepared_input prep q msg")
      case None
      then show ?thesis using False over_once[OF o1 r1] by (cases "BUSY_DECISION (om_mode msg) (classify t)") (simp_all add: target)
    next
      case (Some m)
      have "once j (splitWrite t answer q m s1)" "once j (start_interrupt t q m s1)" "once j (write_parked m s1)" "\<not> q \<Longrightarrow> once j (write_fresh t m s1)"
        using st[OF Some] by blast+
      then show ?thesis using False Some over_once[OF o1 r1] by (cases "BUSY_DECISION (om_mode msg) (classify t)") (simp_all add: target)
    qed
  qed
qed (use assms in \<open>auto simp: target_step_def Let_def intro: over_once\<close>)

lemma interrupt_once:
  assumes o: "once j s" and r: "run_of i s = R_interrupt fresh t" and i: "om_messageId msg = i"
  shows "once j (interrupt_step key fresh t msg s)"
proof -
  have took: "\<not> run_took (run_of i s)" using r by simp
  have "once j (set_run i msg (R_idle None body t) s)" if "fresh = Some body" for body
    using o r that by (auto simp: once_def)
  with i claim_once[OF o took] over_once[OF o took] show ?thesis
    by (simp add: interrupt_step_def Let_def split: key_answer.split option.split prod.split)
qed

lemma idle_once:
  assumes o: "once j s" and r: "run_of i s = R_idle claimed body t" and i: "om_messageId msg = i"
  shows "once j (idle_step idle claimed body t msg s)"
proof -
  have took: "\<not> run_took (run_of i s)" using r by simp
  have "once j (set_run i msg (R_sending body) s)" using o r by (auto simp: once_def)
  moreover have "once j (set_run i msg (R_over (Out_refused x y)) (s\<lparr>is_fifo := restoreQueuedSend sid i c (is_fifo s)\<rparr>))" if "claimed = Some c" for x y sid c
    using o r that restore_copies[of j sid i c "is_fifo s"] restore_copies[of i sid i c "is_fifo s"] by (auto simp: once_def)
  ultimately show ?thesis using i over_once[OF o took]
    by (simp add: idle_step_def Let_def split: idle_answer.split option.split)
qed

lemma send_once:
  assumes o: "once j s" and r: "run_of i s = R_sending body" and i: "om_messageId msg = i"
  shows "once j (send_step drv body msg s)"
  using assms by (cases drv) (auto simp: send_step_def Let_def once_def takes_body_def)

lemma resend_once:
  assumes o: "once j s" and r: "run_of i s = R_resend body reason" and i: "om_messageId msg = i"
  shows "once j (resend_step drv body reason msg s)"
  using assms by (cases drv) (auto simp: resend_step_def Let_def once_def takes_body_def)

lemma check_once:
  assumes o: "once j s" and r: "run_of i s = R_run" and i: "om_messageId msg = i"
  shows "once j (run_step now receipt msg s)"
proof -
  obtain k s1 where k: "settledKind now i s = (k, s1)" by fastforce
  have o1: "once j s1" using settledKind_once[OF k o] .
  have r1: "\<not> run_took (run_of i s1)" using settledKind_cases[OF k] r by (auto simp: drop_settled_def)
  show ?thesis using i k o1 over_once[OF o1 r1] early_once[OF o1 r1, of R_target]
    by (simp add: run_step_def Let_def split: option.split receipt_answer.split)
qed

lemma finish_once:
  assumes o: "once j s" and r: "map_of (is_inFlight s) i = Some (msg, R_over out)" and i: "om_messageId msg = i"
  shows "once j (finish_run now msg out s)"
proof -
  have gone: "once j (s1\<lparr>is_inFlight := AList.delete i (is_inFlight s1)\<rparr>)"
    if "once j s1" "takes_body out \<Longrightarrow> settled_in i s1" "is_inFlight s1 = is_inFlight s" for s1
  proof (cases "j = i")
    case True
    have "run_of i s1 = R_over out" using r that(3) by (simp add: run_of_def)
    moreover have "run_of i (s1\<lparr>is_inFlight := AList.delete i (is_inFlight s1)\<rparr>) = R_admit" by (simp add: run_of_def map_of_js_delete)
    ultimately show ?thesis using that True by (auto simp: once_def settled_in_def)
  next
    case False
    then have "run_of j (s1\<lparr>is_inFlight := AList.delete i (is_inFlight s1)\<rparr>) = run_of j s1" by (simp add: run_of_def map_of_js_delete)
    then show ?thesis using that(1) by (simp add: once_def settled_in_def)
  qed
  have fl: "is_inFlight (remember now msg kind s) = is_inFlight s" for kind by (simp add: remember_def split: prod.split)
  show ?thesis using i gone[OF o] gone[OF remember_once(1)[OF o i] remember_once(2)[OF o i] fl]
    by (cases out) (simp_all add: finish_run_def Let_def takes_body_def)
qed

lemma submit_once:
  assumes o: "once j s"
  shows "once j (snd (submitOwned msg s))"
proof (cases "map_of (is_inFlight s) (om_messageId msg)")
  case None
  then have "\<not> run_took (run_of (om_messageId msg) s)" by (simp add: run_of_def)
  from early_once[OF o this, of R_admit msg] o show ?thesis by (simp add: submitOwned_def)
qed (use o in \<open>simp add: submitOwned_def\<close>)

lemma withdraw_once: "once j s \<Longrightarrow> once j (snd (withdraw t sid i s))"
proof (cases "claimQueuedSend sid i (is_fifo s)")
  case (Some cl)
  assume o: "once j s"
  obtain c q where cl: "cl = (c, q)" by fastforce
  have "once j (drop_settled i (s\<lparr>is_fifo := q\<rparr>))"
    using o claim_copies[OF Some[unfolded cl], of j] by (cases "j = i") (auto simp: once_def drop_settled_def settled_in_def map_of_js_delete run_of_def)
  then show ?thesis using o Some cl by (auto simp: withdraw_def)
qed (auto simp: withdraw_def)

lemma run_of_step: "map_of (is_inFlight s) i = Some (msg, r) \<Longrightarrow> run_of i s = r"
  by (simp add: run_of_def)

lemma keyed_simps [simp]:
  "runs_keyed x \<Longrightarrow> runs_keyed (set_run (om_messageId msg) msg r x)" "runs_keyed (drop_settled i x) = runs_keyed x" "runs_keyed (x\<lparr>is_fifo := q\<rparr>) = runs_keyed x"
  "runs_keyed (x\<lparr>is_written := w\<rparr>) = runs_keyed x" "runs_keyed (x\<lparr>is_draining := d\<rparr>) = runs_keyed x" "runs_keyed (x\<lparr>is_latched := l\<rparr>) = runs_keyed x"
  by (auto simp: runs_keyed_def set_run_def update_conv' drop_settled_def)

lemma keyed_kind: "settledKind now i x = (k, x') \<Longrightarrow> runs_keyed x \<Longrightarrow> runs_keyed x'"
  using settledKind_cases keyed_simps(2) by metis

lemma keyed_finish:
  assumes "runs_keyed x"
  shows "runs_keyed (finish_run now msg out x)"
proof -
  have "is_inFlight (remember now msg kind x) = is_inFlight x" for kind by (simp add: remember_def split: prod.split)
  then show ?thesis using assms by (cases out) (auto simp: finish_run_def Let_def runs_keyed_def map_of_js_delete split: if_splits)
qed

lemma keyed_run_step: "runs_keyed x \<Longrightarrow> runs_keyed (run_step now receipt msg x)"
  using keyed_kind by (auto simp: run_step_def Let_def split: prod.splits option.splits)

lemma keyed_split: "runs_keyed x \<Longrightarrow> runs_keyed (splitWrite t answer isParked msg x)"
  by (simp add: splitWrite_def Let_def split: option.split prod.split sum.split)

lemma keyed_strategy:
  "runs_keyed x \<Longrightarrow> runs_keyed (write_parked m x)" "runs_keyed x \<Longrightarrow> runs_keyed (write_fresh t m x)" "runs_keyed x \<Longrightarrow> runs_keyed (start_interrupt t isParked m x)"
  by (simp_all add: write_parked_def write_fresh_def start_interrupt_def Let_def split: option.split prod.split sum.split)

lemma keyed_target: "runs_keyed x \<Longrightarrow> runs_keyed (target_step now res prep answer msg x)"
  by (cases "settledKind now (om_messageId msg) x")
    (simp add: target_step_def Let_def keyed_kind keyed_split keyed_strategy split: resolved.split strategy.split option.split)

lemma service_keyed: "service_step s s' \<Longrightarrow> runs_keyed s \<Longrightarrow> runs_keyed s'"
  by (induction rule: service_step.induct)
    (simp_all add: submitOwned_def admit_step_def keyed_run_step keyed_target keyed_finish interrupt_step_def idle_step_def send_step_def resend_step_def
      withdraw_def Let_def split: key_answer.split idle_answer.split driver_answer.split option.split prod.split)

lemma step_keyed: "input_step s s' \<Longrightarrow> runs_keyed s \<Longrightarrow> runs_keyed s'"
  by (induction rule: input_step.induct) (simp_all add: service_keyed drain_frame_def drain_fire_def latch_expired_def Let_def split: list.split)

lemma service_once:
  assumes "service_step s s'" "runs_keyed s" "once j s"
  shows "once j s'"
  using assms
proof (cases rule: service_step.cases)
  case (admits i msg adm)
  then have r: "\<not> run_took (run_of i s)" and i: "om_messageId msg = i" using run_of_step[OF admits(2)] assms(2) by (simp_all add: runs_keyed_def)
  from admits(1) i over_once[OF assms(3) r] early_once[OF assms(3) r, of R_run] show ?thesis by (cases adm) (simp_all add: admit_step_def)
next
  case (checks i msg now receipt)
  then show ?thesis using check_once[OF assms(3) run_of_step] assms(2) by (simp add: runs_keyed_def)
next
  case (resolves i msg now res prep answer)
  then show ?thesis using target_once[OF assms(3) run_of_step] assms(2) by (simp add: runs_keyed_def)
next
  case (interrupts i msg fresh t key)
  then show ?thesis using interrupt_once[OF assms(3) run_of_step] assms(2) by (simp add: runs_keyed_def)
next
  case (idles i msg claimed body t answer)
  then show ?thesis using idle_once[OF assms(3) run_of_step] assms(2) by (simp add: runs_keyed_def)
next
  case (sends i msg body drv)
  then show ?thesis using send_once[OF assms(3) run_of_step] assms(2) by (simp add: runs_keyed_def)
next
  case (resends i msg body reason drv)
  then show ?thesis using resend_once[OF assms(3) run_of_step] assms(2) by (simp add: runs_keyed_def)
next
  case (finishes i msg out now)
  then show ?thesis using finish_once[OF assms(3)] assms(2) by (simp add: runs_keyed_def)
next
  case (session_ends sid)
  have "copies j (filter (\<lambda>x. fst x \<noteq> sid) q) \<le> copies j q" for q by (induction q) auto
  from this[of "is_fifo s"] this[of "is_draining s"] show ?thesis using assms(3) session_ends by (auto simp: once_def run_of_def settled_in_def)
qed (use assms(3) submit_once withdraw_once drop_once in auto)

lemma step_once:
  assumes "input_step s s'" "runs_keyed s" "once j s"
  shows "once j s'"
  using assms
proof (cases rule: input_step.cases)
  case serves
  then show ?thesis using service_once assms by blast
next
  case (drains idle clear sid)
  have "run_of j s' = run_of j s" "settled_in j s' = settled_in j s" "is_forgotten s' = is_forgotten s" "is_written s' = is_written s"
    using drains by (auto simp: drain_frame_def run_of_def settled_in_def split: list.split)
  then show ?thesis using assms(3) frame_copies[of j idle clear sid s] drains by (auto simp: once_def)
next
  case (drain_fires idle sid)
  have "run_of j s' = run_of j s" "settled_in j s' = settled_in j s" "is_forgotten s' = is_forgotten s"
    using drain_fires by (auto simp: drain_fire_def Let_def run_of_def settled_in_def split: list.split)
  then show ?thesis using assms(3) fire_copies[of j idle sid s] drain_fires by (auto simp: once_def)
next
  case (latch_opens sid)
  then show ?thesis using assms(3) by (simp add: once_def latch_expired_def run_of_def settled_in_def)
qed

lemma run_once: "input_run s \<Longrightarrow> runs_keyed s \<and> once j s"
proof (induction rule: input_run.induct)
  case idle
  then show ?case by (simp add: runs_keyed_def once_def no_input_def run_of_def settled_in_def)
qed (use step_keyed step_once in blast)

section \<open>Runs of the send engine\<close>

text \<open>
  The steps of the service, of the drain with its timer, and of the verdict machine of any session, in any order and with
  any sightings. A send that is not observed gives its slot up after the last submit key.
\<close>

inductive engine_step :: "send_engine \<Rightarrow> send_engine \<Rightarrow> bool" where
  eng_serves: "service_step (en_service g) s' \<Longrightarrow> engine_step g (serve begins owns s' g)"
| eng_frames: "engine_step g (engine_frame idle clear sid g)"
| eng_fires: "engine_step g (serve True owns (drain_fire idle sid (en_service g)) g)"
| eng_expires: "engine_step g (engine_expire sid g)"
| eng_gives_up: "engine_step g (g\<lparr>en_service := latch_expired sid (en_service g)\<rparr>)"
| eng_confirms: "engine_step g (noteConfirmed sid send g)"
| eng_awaits: "engine_step g (awaitVerdict sid k g)"
| eng_judges: "engine_step g (judge_poll sid look k g)"
| eng_decides: "engine_step g (decideRecovery sid absent look k g)"
| eng_clears: "engine_step g (clear_done sid how k g)"
| eng_aborts: "engine_step g (abortRecovery sid g)"
| eng_polls: "engine_step g (hold_poll sid back g)"
| eng_cancels: "engine_step g (cancel sid g)"

definition no_engine :: send_engine where
  "no_engine = \<lparr>en_service = no_input, en_sends = [], en_machine = (\<lambda>_. idle_machine), en_repasted = []\<rparr>"

inductive engine_run :: "send_engine \<Rightarrow> bool" where
  eng_start: "engine_run no_engine"
| eng_on: "engine_run g \<Longrightarrow> engine_step g g' \<Longrightarrow> engine_run g'"

section \<open>The service under the engine\<close>

text \<open>The latch is the engine's own: a re-paste takes it, the other operations of the machine at most open it.\<close>

lemma once_latch: "once i (s\<lparr>is_latched := l\<rparr>) = once i s"
  by (simp add: once_def)

lemma fold_begin [simp]:
  "en_service (fold (\<lambda>x. verdict_begin x owns) xs g) = en_service g" "en_repasted (fold (\<lambda>x. verdict_begin x owns) xs g) = en_repasted g"
  by (induction xs arbitrary: g) (simp_all add: verdict_begin_def)

lemma serve_service [simp]: "en_service (serve begins owns s' g) = s'" "en_repasted (serve begins owns s' g) = en_repasted g"
  by (simp_all add: serve_def Let_def)

lemma frame_service [simp]: "en_service (engine_frame idle clear sid g) = drain_frame idle clear sid (en_service g)" "en_repasted (engine_frame idle clear sid g) = en_repasted g"
  by (simp_all add: engine_frame_def Let_def reserve_def split: list.split)

lemma latch_only:
  assumes "engine_step g g'"
  shows "input_step (en_service g) (en_service g') \<or> (\<exists>l. en_service g' = (en_service g)\<lparr>is_latched := l\<rparr>)"
proof -
  have same: "\<exists>l. s = s\<lparr>is_latched := l\<rparr>" for s :: input_service by (rule exI[of _ "is_latched s"]) simp
  show ?thesis using assms
    by (cases rule: engine_step.cases)
      (auto intro: input_step.intros same simp: engine_expire_def awaitVerdict_def judge_poll_def decideRecovery_def clear_done_def abortRecovery_def
        hold_poll_def reportUnconfirmed_def repaste_def latch_expired_def Let_def split: sighting.split clear_end.split option.split)
qed

lemma engine_once: "engine_run g \<Longrightarrow> runs_keyed (en_service g) \<and> once i (en_service g)"
proof (induction rule: engine_run.induct)
  case eng_start
  then show ?case using run_once[OF idle] by (simp add: no_engine_def)
next
  case (eng_on g g')
  then show ?case using latch_only[OF eng_on(2)] step_keyed step_once by (auto simp: once_latch)
qed

section \<open>One re-paste for one write\<close>

lemma written_kept [simp]:
  "is_written (drop_settled i x) = is_written x" "is_written (remember now msg kd x) = is_written x" "is_written (write_parked m x) = is_written x"
  "is_written (write_fresh t m x) = is_written x" "is_written (start_interrupt t isParked m x) = is_written x"
  by (simp_all add: drop_settled_def remember_def write_parked_def write_fresh_def start_interrupt_def Let_def split: prod.split option.split sum.split)

lemma kind_written: "settledKind now i x = (k, x') \<Longrightarrow> is_written x' = is_written x"
  using settledKind_cases[of now i x k x'] by auto

lemma split_written: "\<exists>new. is_written (splitWrite t answer isParked m x) = is_written x @ new"
  by (simp add: splitWrite_def Let_def split: option.split prod.split sum.split)

lemma target_written: "\<exists>new. is_written (target_step now res prep answer msg s) = is_written s @ new"
proof (cases res)
  case (Session t)
  obtain prior s1 where k: "settledKind now (om_messageId msg) s = (prior, s1)" by fastforce
  note w = kind_written[OF k]
  have "\<exists>new. is_written (splitWrite t answer isParked m s1) = is_written s @ new" for isParked m using split_written[of t answer isParked m s1] w by simp
  then show ?thesis using w by (simp add: target_step_def Let_def Session k split: strategy.split option.split)
qed (simp_all add: target_step_def Let_def)

lemma service_written: "service_step s s' \<Longrightarrow> \<exists>new. is_written s' = is_written s @ new"
proof (induction rule: service_step.induct)
  case (checks s i msg now receipt)
  obtain k s1 where "settledKind now (om_messageId msg) s = (k, s1)" by fastforce
  then show ?case using kind_written by (simp add: run_step_def Let_def split: option.split)
qed (simp_all add: target_written submitOwned_def admit_step_def interrupt_step_def idle_step_def send_step_def resend_step_def finish_run_def withdraw_def Let_def
      split: key_answer.split idle_answer.split driver_answer.split option.split prod.split service_outcome.split)

definition owned_bodies :: "send_engine \<Rightarrow> parked multiset" where
  "owned_bodies g = mset (map cs_body (filter cs_ownsComposer (en_sends g)))"

definition spent_bodies :: "send_engine \<Rightarrow> parked multiset" where
  "spent_bodies g = mset (map cs_body (filter cs_repasted (en_sends g)))"

text \<open>Only an owned send is cleared or pasted again, each at most once, and every owned send stands for a write of its own.\<close>

definition recovers_once :: "send_engine \<Rightarrow> bool" where
  "recovers_once g \<longleftrightarrow> (\<forall>c \<in> set (en_sends g). cs_repasted c \<or> cs_phase c = Ph_clear \<longrightarrow> cs_ownsComposer c)
     \<and> mset (en_repasted g) \<subseteq># spent_bodies g \<and> owned_bodies g \<subseteq># mset (is_written (en_service g))"

lemma filter_update_same:
  "k < length xs \<Longrightarrow> P y = P (xs ! k) \<Longrightarrow> f y = f (xs ! k) \<Longrightarrow> map f (filter P (xs[k := y])) = map f (filter P xs)"
  by (induction xs arbitrary: k) (auto split: nat.split simp: nth_Cons)

lemma filter_update_new:
  "k < length xs \<Longrightarrow> \<not> P (xs ! k) \<Longrightarrow> P y \<Longrightarrow> mset (map f (filter P (xs[k := y]))) = add_mset (f y) (mset (map f (filter P xs)))"
  by (induction xs arbitrary: k) (auto split: nat.split simp: nth_Cons)

lemma recovers_machine [simp]: "recovers_once (on_machine sid f g) = recovers_once g"
  by (simp add: recovers_once_def spent_bodies_def owned_bodies_def)

lemma recovers_latch [simp]:
  "is_written s' = is_written (en_service g) \<Longrightarrow> recovers_once (g\<lparr>en_service := s'\<rparr>) = recovers_once g"
  "is_written s' = is_written (en_service g) \<Longrightarrow> recovers_once (g\<lparr>en_service := s', en_repasted := r\<rparr>) = recovers_once (g\<lparr>en_repasted := r\<rparr>)"
  by (simp_all add: recovers_once_def spent_bodies_def owned_bodies_def)

lemma recovers_phase:
  assumes "recovers_once g" "p = Ph_clear \<Longrightarrow> k < length (en_sends g) \<Longrightarrow> cs_ownsComposer (en_sends g ! k)"
  shows "recovers_once (on_send k (\<lambda>c. c\<lparr>cs_phase := p\<rparr>) g)"
proof (cases "k < length (en_sends g)")
  case True
  let ?c = "(en_sends g ! k)\<lparr>cs_phase := p\<rparr>"
  have "cs_repasted ?c \<or> cs_phase ?c = Ph_clear \<longrightarrow> cs_ownsComposer ?c" using assms True by (auto simp: recovers_once_def)
  then show ?thesis using assms(1) True set_update_subset_insert[of "en_sends g" k ?c]
    by (auto simp: recovers_once_def on_send_def spent_bodies_def owned_bodies_def filter_update_same)
qed (use assms(1) in \<open>simp add: on_send_def\<close>)

lemmas recovers_done = recovers_phase[of _ Ph_done, simplified]

lemma recovers_confirmed: "recovers_once g \<Longrightarrow> recovers_once (noteConfirmed sid send g)"
  by (simp add: noteConfirmed_def recovers_done split: option.split)

lemma recovers_quarantine: "recovers_once g \<Longrightarrow> recovers_once (quarantine sid k g)"
  by (simp add: quarantine_def recovers_done)

lemma recovers_report: "recovers_once g \<Longrightarrow> recovers_once (reportUnconfirmed sid k g)"
  by (simp add: reportUnconfirmed_def Let_def latch_expired_def recovers_done)

lemma recovers_repaste:
  assumes g: "recovers_once g" and k: "k < length (en_sends g)" "cs_ownsComposer (en_sends g ! k)" "\<not> cs_repasted (en_sends g ! k)"
  shows "recovers_once (repaste sid untouched accepted k g)"
proof -
  let ?c = "(en_sends g ! k)\<lparr>cs_repasted := True, cs_phase := Ph_watch\<rparr>"
  let ?g = "on_send k (\<lambda>c. c\<lparr>cs_repasted := True, cs_phase := Ph_watch\<rparr>) g"
  have spent: "spent_bodies ?g = add_mset (cs_body (en_sends g ! k)) (spent_bodies g)"
    using filter_update_new[of k "en_sends g" cs_repasted ?c cs_body] k by (simp add: spent_bodies_def on_send_def)
  have owned: "owned_bodies ?g = owned_bodies g" using k by (simp add: owned_bodies_def on_send_def filter_update_same)
  have sends: "\<forall>c \<in> set (en_sends ?g). cs_repasted c \<or> cs_phase c = Ph_clear \<longrightarrow> cs_ownsComposer c"
    using g k set_update_subset_insert[of "en_sends g" k ?c] by (auto simp: recovers_once_def on_send_def)
  have "spent_bodies g \<subseteq># spent_bodies ?g" unfolding spent using mset_subset_eq_add_left[of "spent_bodies g" "{#cs_body (en_sends g ! k)#}"] by simp
  then have "mset (en_repasted g) \<subseteq># spent_bodies ?g" using g by (auto simp: recovers_once_def intro: subset_mset.order_trans)
  then have refused: "recovers_once ?g" using g owned sends by (simp add: recovers_once_def)
  have "recovers_once (?g\<lparr>en_repasted := en_repasted g @ [cs_body (en_sends g ! k)]\<rparr>)"
    using g spent owned sends by (simp add: recovers_once_def spent_bodies_def owned_bodies_def)
  with refused show ?thesis using recovers_quarantine[OF g] recovers_quarantine by (simp add: repaste_def Let_def)
qed

lemma recovers_clear: "recovers_once g \<Longrightarrow> recovers_once (clear_done sid how k g)"
  by (auto simp: clear_done_def recovers_confirmed recovers_quarantine recovers_report split: clear_end.split intro!: recovers_repaste)
    (simp_all add: recovers_once_def)

lemma recovers_decide: "recovers_once g \<Longrightarrow> recovers_once (decideRecovery sid absent look k g)"
  by (auto simp: decideRecovery_def proven_def recovers_confirmed recovers_quarantine split: sighting.splits if_splits intro: recovers_phase)

lemma begun:
  "owned_bodies (new_send x owns ph g) = owned_bodies g + (if owns then {#x#} else {#})" "spent_bodies (new_send x owns ph g) = spent_bodies g"
  by (simp_all add: new_send_def owned_bodies_def spent_bodies_def)

lemma begun_all:
  "owned_bodies (fold (\<lambda>x. verdict_begin x owns) xs g) = owned_bodies g + (if owns then mset xs else {#})"
  "spent_bodies (fold (\<lambda>x. verdict_begin x owns) xs g) = spent_bodies g"
  by (induction xs arbitrary: g) (simp_all add: verdict_begin_def begun)

lemma begun_sends:
  assumes "\<forall>c \<in> set (en_sends g). cs_repasted c \<or> cs_phase c = Ph_clear \<longrightarrow> cs_ownsComposer c"
  shows "\<forall>c \<in> set (en_sends (fold (\<lambda>x. verdict_begin x owns) xs g)). cs_repasted c \<or> cs_phase c = Ph_clear \<longrightarrow> cs_ownsComposer c"
  using assms
proof (induction xs arbitrary: g)
  case (Cons x xs)
  have "\<forall>c \<in> set (en_sends (verdict_begin x owns g)). cs_repasted c \<or> cs_phase c = Ph_clear \<longrightarrow> cs_ownsComposer c"
    using Cons.prems by (auto simp: verdict_begin_def new_send_def)
  from Cons.IH[OF this] show ?case by simp
qed simp

lemma recovers_serve:
  assumes g: "recovers_once g" and s: "\<exists>new. is_written s' = is_written (en_service g) @ new"
  shows "recovers_once (serve begins owns s' g)"
proof -
  obtain new where n: "is_written s' = is_written (en_service g) @ new" using s by blast
  let ?g = "g\<lparr>en_service := s'\<rparr>"
  have same: "owned_bodies ?g = owned_bodies g" "spent_bodies ?g = spent_bodies g" by (simp_all add: owned_bodies_def spent_bodies_def)
  have le: "owned_bodies g \<subseteq># mset (is_written (en_service g))" using g by (simp add: recovers_once_def)
  then have more: "owned_bodies g \<subseteq># mset (is_written (en_service g)) + mset new" by (rule subset_mset.order_trans[OF _ mset_subset_eq_add_left])
  then have "owned_bodies g + (if owns then mset new else {#}) \<subseteq># mset (is_written (en_service g)) + mset new" using le by (cases owns) simp_all
  then have owned: "owned_bodies (fold (\<lambda>x. verdict_begin x owns) new ?g) \<subseteq># mset (is_written s')" unfolding begun_all same n by simp
  have sends: "\<forall>c \<in> set (en_sends ?g). cs_repasted c \<or> cs_phase c = Ph_clear \<longrightarrow> cs_ownsComposer c" and spent: "mset (en_repasted g) \<subseteq># spent_bodies g"
    using g unfolding recovers_once_def by simp_all
  have "recovers_once (fold (\<lambda>x. verdict_begin x owns) new ?g)"
    unfolding recovers_once_def using begun_sends[OF sends] spent owned by (simp add: begun_all same)
  moreover have "recovers_once ?g" unfolding recovers_once_def same using sends spent more n by simp
  ultimately show ?thesis using n by (simp add: serve_def Let_def)
qed

lemma recovers_frame:
  assumes g: "recovers_once g"
  shows "recovers_once (engine_frame idle clear sid g)"
proof -
  define g1 where "g1 = (if \<not> idle \<and> sid \<in> set (is_latched (en_service g))
    then let a = releaseOnActivity sid g in noteConfirmed sid (vm_current (en_machine a sid)) a else g)"
  let ?g = "g1\<lparr>en_service := drain_frame idle clear sid (en_service g)\<rparr>"
  have reserved: "recovers_once (reserve x h)" if "recovers_once h" for x h
    using that unfolding recovers_once_def reserve_def begun by (auto simp: new_send_def)
  have "recovers_once g1" "en_service g1 = en_service g" using g by (simp_all add: g1_def releaseOnActivity_def releaseHold_def recovers_confirmed Let_def)
  moreover have "is_written (drain_frame idle clear sid s) = is_written s" for s by (simp add: drain_frame_def split: list.split)
  ultimately have "recovers_once ?g" by simp
  then have "recovers_once (if b then ?g else case xs of [] \<Rightarrow> ?g | x # _ \<Rightarrow> reserve x ?g)" for b xs using reserved by (simp split: list.split)
  then show ?thesis unfolding engine_frame_def Let_def g1_def .
qed

lemma recovers_step:
  assumes "engine_step g g'" "recovers_once g"
  shows "recovers_once g'"
  using assms
proof (cases rule: engine_step.cases)
  case (eng_serves s' begins owns)
  then show ?thesis using assms(2) service_written recovers_serve by blast
next
  case (eng_fires owns idle sid)
  have "\<exists>new. is_written (drain_fire idle sid (en_service g)) = is_written (en_service g) @ new" by (simp add: drain_fire_def Let_def split: list.split)
  then show ?thesis using eng_fires assms(2) recovers_serve by blast
qed (auto simp: recovers_frame recovers_clear recovers_decide recovers_confirmed recovers_quarantine engine_expire_def latch_expired_def awaitVerdict_def judge_poll_def
    abortRecovery_def hold_poll_def cancel_def Let_def split: sighting.split option.split)

lemma run_recovers: "engine_run g \<Longrightarrow> recovers_once g"
proof (induction rule: engine_run.induct)
  case eng_start
  then show ?case by (simp add: no_engine_def recovers_once_def spent_bodies_def owned_bodies_def)
qed (use recovers_step in blast)

lemma repasted_written:
  assumes "engine_run g"
  shows "mset (en_repasted g) \<subseteq># mset (is_written (en_service g))"
proof -
  have "mset (map cs_body (filter cs_repasted cs)) \<subseteq># mset (map cs_body (filter cs_ownsComposer cs))"
    if "\<forall>c \<in> set cs. cs_repasted c \<or> cs_phase c = Ph_clear \<longrightarrow> cs_ownsComposer c" for cs using that by (induction cs) (auto intro: subset_mset.order_trans)
  then show ?thesis using run_recovers[OF assms] unfolding recovers_once_def spent_bodies_def owned_bodies_def by (meson subset_mset.order_trans)
qed

lemma copies_mono: "mset p \<subseteq># mset q \<Longrightarrow> copies i p \<le> copies i q"
  using size_mset_mono[OF multiset_filter_mono[of "mset p" "mset q" "\<lambda>x. fst (snd x) = i"]] by (simp add: copies_def flip: mset_filter)

section \<open>Typed at most once\<close>

text \<open>
  C11. A message is begun as a send at most once, and the recovery of the send pastes its body at most once more. Whatever
  submits run at the same time, with whatever policies, sessions, statuses, answers of the drivers, drains, session ends,
  sightings of the screen, verdicts and quarantines: as long as a message id has not been forgotten (its entry expired or was pushed out of the
  memory, was withdrawn, or was dropped on purpose), the sends begun and the split writes under that id are at most one over all
  sessions, and the bodies that the recovery typed again are among the bodies that were written, one re-paste for one write at most,
  into the same session and with the same text.
\<close>

theorem written_at_most_once:
  assumes "engine_run g" "i \<notin> set (is_forgotten (en_service g))"
  shows "copies i (is_written (en_service g)) \<le> 1
    \<and> copies i (en_repasted g) \<le> copies i (is_written (en_service g))
    \<and> mset (en_repasted g) \<subseteq># mset (is_written (en_service g))"
  using engine_once[OF assms(1), of i] assms(2) repasted_written[OF assms(1)] copies_mono by (auto simp: once_def)

section \<open>A message that is parked, interrupted and lost\<close>

definition demo_target :: "string \<Rightarrow> session_target" where
  "demo_target st = \<lparr>tg_status = Some st, tg_build = None, tg_splits = True, tg_interrupts = True, tg_queues = True, tg_restores = True\<rparr>"

definition demo_msg :: "send_mode \<Rightarrow> outbound_message" where
  "demo_msg m = \<lparr>om_messageId = ''m1'', om_sessionId = ''s1'', om_mode = m, om_text = ''hello'', om_nonText = False, om_digest = ''d''\<rparr>"

datatype input_demo = Submit send_mode | Go_on "string \<Rightarrow> session_target" string idle_answer driver_answer | Frame bool | Fire

text \<open>One step of the run of the message, with these answers of the session.\<close>

definition demo_input_step :: "input_demo \<Rightarrow> input_service \<Rightarrow> input_service" where
  "demo_input_step d s =
     (case d of
        Submit m \<Rightarrow> snd (submitOwned (demo_msg m) s)
      | Frame idle \<Rightarrow> drain_frame idle True ''s1'' s
      | Fire \<Rightarrow> drain_fire True ''s1'' s
      | Go_on t st idle drv \<Rightarrow>
          (case map_of (is_inFlight s) ''m1'' of
             None \<Rightarrow> s
           | Some (msg, r) \<Rightarrow>
               (case r of
                  R_admit \<Rightarrow> admit_step Admitted msg s
                | R_run \<Rightarrow> run_step 10 Receipt_go_on msg s
                | R_target \<Rightarrow> target_step 10 (Session (t st)) No_prepare None msg s
                | R_interrupt fresh tg \<Rightarrow> interrupt_step Key_pressed fresh tg msg s
                | R_idle claimed body tg \<Rightarrow> idle_step idle claimed body tg msg s
                | R_sending body \<Rightarrow> send_step drv body msg s
                | R_resend body reason \<Rightarrow> resend_step drv body reason msg s
                | R_over out \<Rightarrow> finish_run 10 msg out s)))"

lemma demo_input_run: "input_run s \<Longrightarrow> input_run (fold demo_input_step ds s)"
proof (induction ds arbitrary: s)
  case (Cons d ds)
  have "input_step s (demo_input_step d s) \<or> demo_input_step d s = s"
    by (auto simp: demo_input_step_def split: input_demo.split option.split run_state.split intro: input_step.intros service_step.intros)
  with Cons show ?case by (auto intro: on)
qed simp

definition steps_of :: "nat \<Rightarrow> string \<Rightarrow> idle_answer \<Rightarrow> driver_answer \<Rightarrow> input_demo list" where
  "steps_of n st idle drv = replicate n (Go_on demo_target st idle drv)"

definition parked_run :: "input_demo list" where
  "parked_run = Submit Mode_queue # steps_of 5 ''generating'' Went_idle Driver_parks"

definition typed_run :: "input_demo list" where
  "typed_run = parked_run @ [Submit Mode_queue, Frame True, Fire] @ steps_of 4 ''idle'' Went_idle Driver_writes"

definition lost_run :: "input_demo list" where
  "lost_run = parked_run @ Submit Mode_interrupt # steps_of 6 ''generating'' Terminal_status Driver_writes
     @ Submit Mode_queue # steps_of 3 ''idle'' Went_idle Driver_writes"

lemma demo_input_values:
  "(let s = fold demo_input_step typed_run no_input in (copies ''m1'' (is_written s), copies ''m1'' (is_fifo s), is_forgotten s),
    let s = fold demo_input_step lost_run no_input in
      (copies ''m1'' (is_written s), copies ''m1'' (is_fifo s @ is_draining s), is_forgotten s, case run_of ''m1'' s of R_over out \<Rightarrow> Some out | _ \<Rightarrow> None))
   = ((1, 0, []), (0, 0, [], Some (Out_duplicate ''m1'')))"
  by code_simp

text \<open>A message that is typed, judged unsent, cleared and pasted again; the second judgement reports it.\<close>

datatype engine_demo = Serve input_demo | Await | Judge | Decide | Clear

definition demo_engine_step :: "engine_demo \<Rightarrow> send_engine \<Rightarrow> send_engine" where
  "demo_engine_step d g =
     (case d of
        Serve (Submit m) \<Rightarrow> serve True True (demo_input_step (Submit m) (en_service g)) g
      | Serve (Go_on t st idle drv) \<Rightarrow> serve True True (demo_input_step (Go_on t st idle drv) (en_service g)) g
      | Serve _ \<Rightarrow> g
      | Await \<Rightarrow> awaitVerdict ''s1'' 0 g
      | Judge \<Rightarrow> judge_poll ''s1'' Proven_unsent 0 g
      | Decide \<Rightarrow> decideRecovery ''s1'' True Proven_unsent 0 g
      | Clear \<Rightarrow> clear_done ''s1'' (Cleared True True) 0 g)"

lemma serve_same: "serve begins owns (en_service g) g = g"
  by (simp add: serve_def Let_def)

lemma demo_service:
  "service_step s (demo_input_step (Submit m) s)" "service_step s (demo_input_step (Go_on t st idle drv) s) \<or> demo_input_step (Go_on t st idle drv) s = s"
  by (auto simp: demo_input_step_def split: option.split run_state.split intro: service_step.intros)

lemma demo_engine_run: "engine_run g \<Longrightarrow> engine_run (fold demo_engine_step ds g)"
proof (induction ds arbitrary: g)
  case (Cons d ds)
  have "engine_step g (demo_engine_step d g) \<or> demo_engine_step d g = g"
    using demo_service serve_same unfolding demo_engine_step_def
    by (cases d; simp split: input_demo.split) (metis eng_serves serve_same, auto intro: engine_step.intros)
  with Cons show ?case by (auto intro: eng_on)
qed simp

definition pasted_run :: "engine_demo list" where
  "pasted_run = map Serve (Submit Mode_queue # steps_of 4 ''idle'' Went_idle Driver_writes) @ concat (replicate 2 [Await, Judge, Decide, Clear])"

lemma demo_engine_values:
  "(let g = fold demo_engine_step pasted_run no_engine
    in (is_written (en_service g), en_repasted g, is_forgotten (en_service g), map cs_phase (en_sends g), vm_current (en_machine g ''s1'')))
   = ([(''s1'', ''m1'', ''hello'')], [(''s1'', ''m1'', ''hello'')], [], [Ph_done], None)"
  by code_simp

theorem written_at_most_once_witness:
  "is_written (en_service (fold demo_engine_step pasted_run no_engine)) = [(''s1'', ''m1'', ''hello'')]
   \<and> copies ''m1'' (is_written (en_service (fold demo_engine_step pasted_run no_engine))) \<le> 1
   \<and> copies ''m1'' (en_repasted (fold demo_engine_step pasted_run no_engine)) \<le> copies ''m1'' (is_written (en_service (fold demo_engine_step pasted_run no_engine)))"
  using written_at_most_once[OF demo_engine_run[OF eng_start, of pasted_run], of "''m1''"] demo_engine_values by (simp add: Let_def)

text \<open>
  The other direction fails: a message that was parked and is then submitted with the interrupt policy is
  taken out of the queue; when the session ends while the stop key takes effect it is held by nobody, but
  its entry still says that it was queued. A new submit of the message is answered as a duplicate.
\<close>

theorem lost_message_is_duplicate:
  "\<exists>s. input_run s \<and> is_forgotten s = [] \<and> copies ''m1'' (is_written s) = 0 \<and> copies ''m1'' (is_fifo s @ is_draining s) = 0 \<and> run_of ''m1'' s = R_over (Out_duplicate ''m1'')"
  using demo_input_run[OF idle, of lost_run] demo_input_values
  by (intro exI[of _ "fold demo_input_step lost_run no_input"]) (auto simp: Let_def split: run_state.splits)

text \<open>
  A prompt that flickers within the 50 ms of the timer: the frame away from idle opens the latch, the next
  idle frame takes a second body and clears the timer of the first, which is then in no queue and never written.
\<close>

theorem flickering_prompt_loses:
  assumes "is_fifo s = (sid, i, t) # (sid, j, u) # q" "sid \<notin> set (is_latched s)"
  shows "let s' = drain_frame True True sid (drain_frame False clear sid (drain_frame True True sid s))
         in is_fifo s' = q \<and> is_draining s' = (sid, j, u) # filter (\<lambda>y. fst y \<noteq> sid) (is_draining s) \<and> is_written s' = is_written s"
  using assms by (simp add: drain_frame_def Let_def)

text \<open>A session that has exited is dead for the busy decision, but counts as idle for the wait after the stop key.\<close>

theorem exited_counts_as_idle:
  "classify (demo_target ''exited'') = Dead \<and> wait_idle deadline [(Some ''exited'', now)] = Some Went_idle"
  by (simp add: classify_def demo_target_def isDeadStatus_def isBusyStatus_def classifySessionStatus_def normalizeSessionStatus_def SESSION_STATUSES_def
      SESSION_STATUS_ALIASES_def js_lower_def js_lower_char_def js_trim_def Let_def)

end
