(* ===== verification/MuxLayout.thy ===== *)
theory MuxLayout
  imports SessionTypes
begin

text \<open>
  The layout of the terminal multiplexer (\<open>terminal-mux-core/src/layout.ts\<close>, \<open>types.ts\<close>,
  \<open>workspace-persistence.ts\<close>): a binary tree of splits over panes, the panes by id, a focused and a zoomed
  pane. Ratios are rational; the rounding of a floating-point sum is the argument \<open>rnd\<close>. The record of panes
  is an association list in insertion order. Names of members of \<open>Object.prototype\<close> are not used as pane ids.
\<close>

section \<open>Data\<close>

datatype mux_axis = Horizontal | Vertical
datatype pane_access = Interactive | Read_only
datatype pane_kind = Kind_runtime | Kind_mirror
datatype layout_preset = Even | Main_vertical | Main_horizontal | Tiled
datatype resize_direction = To_left | To_right | Upwards | Downwards

record viewport =
  vp_cols :: int
  vp_rows :: int
  vp_snapshotSeq :: int
  vp_text :: string

record runtime_pane =
  pn_paneId :: ident
  pn_paneKind :: pane_kind
  pn_runtimeId :: ident
  pn_runtimeKey :: string
  pn_displayName :: string
  pn_workspaceLabel :: string
  pn_accessMode :: pane_access
  pn_lifecycle :: session_lifecycle
  pn_writeOwner :: "session_write_owner option"
  pn_attachedClients :: "session_attached_client list"
  pn_viewport :: viewport

datatype mux_node = Pane ident | Split mux_axis rat mux_node mux_node

record workspace =
  wk_workspaceId :: ident
  wk_title :: string
  wk_root :: mux_node
  wk_focusedPaneId :: ident
  wk_zoomedPaneId :: "ident option"
  wk_panes :: "(ident \<times> runtime_pane) list"

section \<open>Trees\<close>

fun replaceNode :: "mux_node \<Rightarrow> ident \<Rightarrow> mux_node \<Rightarrow> mux_node" where
  "replaceNode (Pane q) i new = (if q = i then new else Pane q)"
| "replaceNode (Split ax r a b) i new = Split ax r (replaceNode a i new) (replaceNode b i new)"

fun removeNode :: "mux_node \<Rightarrow> ident \<Rightarrow> mux_node option" where
  "removeNode (Pane q) i = (if q = i then None else Some (Pane q))"
| "removeNode (Split ax r a b) i =
     (case (removeNode a i, removeNode b i) of
        (None, None) \<Rightarrow> None
      | (None, Some b') \<Rightarrow> Some b'
      | (Some a', None) \<Rightarrow> Some a'
      | (Some a', Some b') \<Rightarrow> Some (Split ax r a' b'))"

fun nodeContainsPane :: "mux_node \<Rightarrow> ident \<Rightarrow> bool" where
  "nodeContainsPane (Pane q) i \<longleftrightarrow> q = i"
| "nodeContainsPane (Split ax r a b) i \<longleftrightarrow> nodeContainsPane a i \<or> nodeContainsPane b i"

definition clampRatio :: "rat \<Rightarrow> rat" where "clampRatio v = max (15/100) (min (85/100) v)"

fun adjustNodeForPane :: "(rat \<Rightarrow> rat) \<Rightarrow> mux_node \<Rightarrow> ident \<Rightarrow> mux_axis \<Rightarrow> rat \<Rightarrow> mux_node \<times> bool" where
  "adjustNodeForPane rnd (Pane q) i axis delta = (Pane q, False)"
| "adjustNodeForPane rnd (Split ax r a b) i axis delta =
     (let inFirst = nodeContainsPane a i; inSecond = \<not> inFirst \<and> nodeContainsPane b i;
          hit = (ax = axis \<and> (inFirst \<or> inSecond));
          r' = (if hit then clampRatio (rnd (r + (if inFirst then delta else - delta))) else r)
      in if inFirst then
           (let (a', changed) = adjustNodeForPane rnd a i axis delta in (Split ax r' (if changed then a' else a) b, hit \<or> changed))
         else if inSecond then
           (let (b', changed) = adjustNodeForPane rnd b i axis delta in (Split ax r' a (if changed then b' else b), hit \<or> changed))
         else (Split ax r' a b, hit))"

fun rebalanceNode :: "mux_node \<Rightarrow> mux_node" where
  "rebalanceNode (Pane q) = Pane q"
| "rebalanceNode (Split ax r a b) = Split ax (1/2) (rebalanceNode a) (rebalanceNode b)"

definition swap_id :: "ident \<Rightarrow> ident \<Rightarrow> ident \<Rightarrow> ident" where
  "swap_id i j q = (if q = i then j else if q = j then i else q)"

fun mapPaneIds :: "mux_node \<Rightarrow> ident \<Rightarrow> ident \<Rightarrow> mux_node" where
  "mapPaneIds (Pane q) i j = Pane (swap_id i j q)"
| "mapPaneIds (Split ax r a b) i j = Split ax r (mapPaneIds a i j) (mapPaneIds b i j)"

fun collectPaneIds :: "mux_node \<Rightarrow> ident list" where
  "collectPaneIds (Pane q) = [q]"
| "collectPaneIds (Split ax r a b) = collectPaneIds a @ collectPaneIds b"

section \<open>Building layouts\<close>

definition other_axis :: "mux_axis \<Rightarrow> mux_axis" where
  "other_axis ax = (if ax = Vertical then Horizontal else Vertical)"

text \<open>\<open>None\<close>: the function throws, because there is no pane.\<close>

function buildEvenLayout :: "ident list \<Rightarrow> mux_axis \<Rightarrow> mux_node option" where
  "buildEvenLayout ids axis =
     (case ids of
        [] \<Rightarrow> None
      | [i] \<Rightarrow> Some (Pane i)
      | _ \<Rightarrow>
          let midpoint = (length ids + 1) div 2
          in (case (buildEvenLayout (take midpoint ids) (other_axis axis), buildEvenLayout (drop midpoint ids) (other_axis axis)) of
                (Some a, Some b) \<Rightarrow> Some (Split axis (1/2) a b)
              | _ \<Rightarrow> None))"
  by pat_completeness auto
termination
  by (relation "measure (\<lambda>(ids, _). length ids)") auto

declare buildEvenLayout.simps [simp del]

fun buildStackLayout :: "ident list \<Rightarrow> mux_axis \<Rightarrow> mux_node option" where
  "buildStackLayout [] axis = None"
| "buildStackLayout [i] axis = Some (Pane i)"
| "buildStackLayout (i # j # rest) axis =
     (case buildStackLayout (j # rest) axis of Some b \<Rightarrow> Some (Split axis (1/2) (Pane i) b) | None \<Rightarrow> None)"

definition buildMainLayout :: "ident list \<Rightarrow> mux_axis \<Rightarrow> mux_node option" where
  "buildMainLayout ids rootAxis =
     (case ids of
        [] \<Rightarrow> None
      | [i] \<Rightarrow> Some (Pane i)
      | i # rest \<Rightarrow>
          (case buildStackLayout rest (other_axis rootAxis) of
             Some b \<Rightarrow> Some (Split rootAxis (if length rest = 1 then 1/2 else 62/100) (Pane i) b)
           | None \<Rightarrow> None))"

section \<open>Operations on a workspace\<close>

datatype layout_error = Unknown_pane ident | No_panes

definition has_pane :: "workspace \<Rightarrow> ident \<Rightarrow> bool" where
  "has_pane ws i \<longleftrightarrow> map_of (wk_panes ws) i \<noteq> None"

definition createMuxWorkspace :: "runtime_pane \<Rightarrow> ident option \<Rightarrow> string option \<Rightarrow> ident \<Rightarrow> workspace" where
  "createMuxWorkspace pane workspaceId title uuid =
     \<lparr>wk_workspaceId = (if truthy workspaceId then the workspaceId else uuid), wk_title = (if truthy title then the title else pn_displayName pane),
      wk_root = Pane (pn_paneId pane), wk_focusedPaneId = pn_paneId pane, wk_zoomedPaneId = None, wk_panes = [(pn_paneId pane, pane)]\<rparr>"

definition splitMuxPane :: "workspace \<Rightarrow> ident \<Rightarrow> mux_axis \<Rightarrow> runtime_pane \<Rightarrow> layout_error + workspace" where
  "splitMuxPane ws target axis pane =
     (if \<not> has_pane ws target then Inl (Unknown_pane target)
      else Inr (ws\<lparr>wk_root := replaceNode (wk_root ws) target (Split axis (1/2) (Pane target) (Pane (pn_paneId pane))),
                   wk_panes := AList.update (pn_paneId pane) pane (wk_panes ws), wk_focusedPaneId := pn_paneId pane\<rparr>))"

text \<open>\<open>Object.keys\<close> lists the array indices first, in ascending order, then the other keys as inserted.\<close>

definition index_key :: "string \<Rightarrow> bool" where
  "index_key k \<longleftrightarrow> k \<noteq> [] \<and> list_all digit_char k \<and> (k = ''0'' \<or> hd k \<noteq> CHR ''0'') \<and> digits_value k < 2 ^ 32 - 1"

definition js_keys :: "(string \<times> 'a) list \<Rightarrow> string list" where
  "js_keys kvs = sort_key digits_value (filter index_key (map fst kvs)) @ filter (\<lambda>k. \<not> index_key k) (map fst kvs)"

definition first_key :: "(string \<times> 'a) list \<Rightarrow> string" where
  "first_key kvs = (case js_keys kvs of [] \<Rightarrow> [] | k # _ \<Rightarrow> k)"

text \<open>\<open>None\<close>: the last pane is gone, and with it the workspace.\<close>

definition removeMuxPane :: "workspace \<Rightarrow> ident \<Rightarrow> workspace option" where
  "removeMuxPane ws i =
     (if \<not> has_pane ws i then Some ws
      else case removeNode (wk_root ws) i of
             None \<Rightarrow> None
           | Some tree \<Rightarrow>
               let panes = AList.delete i (wk_panes ws)
               in Some (ws\<lparr>wk_panes := panes, wk_root := tree,
                    wk_focusedPaneId := (if wk_focusedPaneId ws = i then first_key panes else wk_focusedPaneId ws),
                    wk_zoomedPaneId := (if wk_zoomedPaneId ws = Some i then None else wk_zoomedPaneId ws)\<rparr>))"

definition focusMuxPane :: "workspace \<Rightarrow> ident \<Rightarrow> layout_error + workspace" where
  "focusMuxPane ws i = (if has_pane ws i then Inr (ws\<lparr>wk_focusedPaneId := i\<rparr>) else Inl (Unknown_pane i))"

definition updateMuxPane :: "workspace \<Rightarrow> runtime_pane \<Rightarrow> workspace" where
  "updateMuxPane ws pane = (if has_pane ws (pn_paneId pane) then ws\<lparr>wk_panes := AList.update (pn_paneId pane) pane (wk_panes ws)\<rparr> else ws)"

definition toggleMuxPaneZoom :: "workspace \<Rightarrow> ident \<Rightarrow> layout_error + workspace" where
  "toggleMuxPaneZoom ws i =
     (if has_pane ws i
      then Inr (ws\<lparr>wk_focusedPaneId := i, wk_zoomedPaneId := (if wk_zoomedPaneId ws = Some i then None else Some i)\<rparr>)
      else Inl (Unknown_pane i))"

definition resizeMuxPane :: "(rat \<Rightarrow> rat) \<Rightarrow> workspace \<Rightarrow> ident \<Rightarrow> resize_direction \<Rightarrow> rat \<Rightarrow> layout_error + workspace" where
  "resizeMuxPane rnd ws i dir amount =
     (if \<not> has_pane ws i then Inl (Unknown_pane i)
      else
        let axis = (if dir = To_left \<or> dir = To_right then Vertical else Horizontal);
            delta = (if dir = To_left \<or> dir = Upwards then - \<bar>amount\<bar> else \<bar>amount\<bar>);
            (tree, changed) = adjustNodeForPane rnd (wk_root ws) i axis delta
        in Inr (if changed then ws\<lparr>wk_root := tree\<rparr> else ws))"

definition rebalanceMuxLayout :: "workspace \<Rightarrow> workspace" where
  "rebalanceMuxLayout ws = ws\<lparr>wk_root := rebalanceNode (wk_root ws)\<rparr>"

definition swapMuxPanePositions :: "workspace \<Rightarrow> ident \<Rightarrow> ident \<Rightarrow> layout_error + workspace" where
  "swapMuxPanePositions ws i j =
     (if i = j then Inr ws
      else if \<not> has_pane ws i then Inl (Unknown_pane i)
      else if \<not> has_pane ws j then Inl (Unknown_pane j)
      else Inr (ws\<lparr>wk_root := mapPaneIds (wk_root ws) i j, wk_focusedPaneId := swap_id i j (wk_focusedPaneId ws),
                   wk_zoomedPaneId := map_option (swap_id i j) (wk_zoomedPaneId ws)\<rparr>))"

definition ordered_panes :: "workspace \<Rightarrow> ident list" where
  "ordered_panes ws = wk_focusedPaneId ws # filter (\<lambda>i. i \<noteq> wk_focusedPaneId ws) (collectPaneIds (wk_root ws))"

definition applyMuxLayoutPreset :: "workspace \<Rightarrow> layout_preset \<Rightarrow> layout_error + workspace" where
  "applyMuxLayoutPreset ws preset =
     (case (case preset of
              Main_vertical \<Rightarrow> buildMainLayout (ordered_panes ws) Vertical
            | Main_horizontal \<Rightarrow> buildMainLayout (ordered_panes ws) Horizontal
            | _ \<Rightarrow> buildEvenLayout (ordered_panes ws) Vertical) of
        Some tree \<Rightarrow> Inr (ws\<lparr>wk_root := tree\<rparr>)
      | None \<Rightarrow> Inl No_panes)"

section \<open>Snapshots\<close>

record persisted_pane =
  pp_runtimeId :: "ident option"
  pp_runtimeKey :: string
  pp_paneKind :: "pane_kind option"
  pp_accessMode :: pane_access

record persisted_workspace =
  pw_workspaceId :: ident
  pw_title :: string
  pw_focusedPaneId :: ident
  pw_zoomedPaneId :: "ident option"
  pw_root :: mux_node
  pw_panes :: "(ident \<times> persisted_pane) list"

definition serializeWorkspace :: "workspace \<Rightarrow> persisted_workspace" where
  "serializeWorkspace ws = \<lparr>pw_workspaceId = wk_workspaceId ws, pw_title = wk_title ws, pw_focusedPaneId = wk_focusedPaneId ws,
     pw_zoomedPaneId = (if truthy (wk_zoomedPaneId ws) then wk_zoomedPaneId ws else None), pw_root = wk_root ws,
     pw_panes = map (\<lambda>(i, p). (i, \<lparr>pp_runtimeId = Some (pn_runtimeId p), pp_runtimeKey = pn_runtimeKey p, pp_paneKind = Some (pn_paneKind p), pp_accessMode = pn_accessMode p\<rparr>)) (wk_panes ws)\<rparr>"

section \<open>Well-formed workspaces\<close>

definition ratio_ok :: "rat \<Rightarrow> bool" where "ratio_ok r \<longleftrightarrow> 15/100 \<le> r \<and> r \<le> 85/100"

fun ratios_ok :: "mux_node \<Rightarrow> bool" where
  "ratios_ok (Pane q) = True"
| "ratios_ok (Split ax r a b) = (ratio_ok r \<and> ratios_ok a \<and> ratios_ok b)"

definition pane_keys :: "workspace \<Rightarrow> ident list" where "pane_keys ws = map fst (wk_panes ws)"

lemma pane_keys_simps [simp]:
  "pane_keys (ws\<lparr>wk_root := t\<rparr>) = pane_keys ws" "pane_keys (ws\<lparr>wk_focusedPaneId := i\<rparr>) = pane_keys ws"
  "pane_keys (ws\<lparr>wk_zoomedPaneId := z\<rparr>) = pane_keys ws" "pane_keys (ws\<lparr>wk_panes := ps\<rparr>) = map fst ps"
  by (simp_all add: pane_keys_def)

definition workspace_ok :: "workspace \<Rightarrow> bool" where
  "workspace_ok ws \<longleftrightarrow> distinct (collectPaneIds (wk_root ws)) \<and> distinct (pane_keys ws) \<and> set (collectPaneIds (wk_root ws)) = set (pane_keys ws)
     \<and> wk_focusedPaneId ws \<in> set (pane_keys ws) \<and> set_option (wk_zoomedPaneId ws) \<subseteq> set (pane_keys ws)
     \<and> list_all (\<lambda>(i, p). pn_paneId p = i) (wk_panes ws) \<and> ratios_ok (wk_root ws)"

lemma has_pane_key: "has_pane ws i \<longleftrightarrow> i \<in> set (pane_keys ws)"
  by (simp add: has_pane_def pane_keys_def map_of_eq_None_iff)

lemma contains_collect: "nodeContainsPane t i \<longleftrightarrow> i \<in> set (collectPaneIds t)"
  by (induction t) auto

lemma ratio_bounds [simp]: "ratio_ok (clampRatio v)" "ratio_ok (1/2)" "ratio_ok (31/50)"
  by (simp_all add: ratio_ok_def clampRatio_def)

lemma adjust_keeps:
  "adjustNodeForPane rnd t i axis delta = (t', changed) \<Longrightarrow> collectPaneIds t' = collectPaneIds t \<and> (ratios_ok t \<longrightarrow> ratios_ok t')"
  by (induction t arbitrary: t' changed) (auto simp: Let_def split: if_splits prod.splits)

lemma rebalance_keeps: "collectPaneIds (rebalanceNode t) = collectPaneIds t" "ratios_ok (rebalanceNode t)"
  by (induction t) auto

lemma swap_id_twice: "swap_id i j (swap_id i j q) = q"
  by (simp add: swap_id_def)

lemma map_panes: "collectPaneIds (mapPaneIds t i j) = map (swap_id i j) (collectPaneIds t)" "ratios_ok (mapPaneIds t i j) = ratios_ok t"
  by (induction t) auto

lemma map_twice: "mapPaneIds (mapPaneIds t i j) i j = t"
  by (induction t) (auto simp: swap_id_twice)

lemma swap_set: "i \<in> X \<Longrightarrow> j \<in> X \<Longrightarrow> swap_id i j ` X = X"
  by (force simp: swap_id_def image_iff)

definition put_after :: "'a \<Rightarrow> 'a \<Rightarrow> 'a list \<Rightarrow> 'a list" where
  "put_after i n xs = concat (map (\<lambda>q. if q = i then [i, n] else [q]) xs)"

lemma put_after_set: "set (put_after i n xs) = set xs \<union> (if i \<in> set xs then {n} else {})"
  by (induction xs) (auto simp: put_after_def)

lemma put_after_absent: "i \<notin> set xs \<Longrightarrow> put_after i n xs = xs"
  by (induction xs) (auto simp: put_after_def)

lemma put_after_distinct: "distinct xs \<Longrightarrow> n \<notin> set xs \<Longrightarrow> distinct (put_after i n xs)"
proof (induction xs)
  case (Cons x xs)
  have "put_after i n (x # xs) = (if x = i then [i, n] else [x]) @ put_after i n xs" by (simp add: put_after_def)
  with Cons show ?case by (auto simp: put_after_set put_after_absent)
qed (simp add: put_after_def)

lemma split_panes: "collectPaneIds (replaceNode t i (Split ax r (Pane i) (Pane n))) = put_after i n (collectPaneIds t)"
  by (induction t) (auto simp: put_after_def)

lemma replace_ratios: "ratios_ok t \<Longrightarrow> ratios_ok new \<Longrightarrow> ratios_ok (replaceNode t i new)"
  by (induction t) auto

lemma remove_panes: "(case removeNode t i of None \<Rightarrow> [] | Some t' \<Rightarrow> collectPaneIds t') = filter (\<lambda>q. q \<noteq> i) (collectPaneIds t)"
  by (induction t) (auto split: option.splits)

lemma remove_ratios: "ratios_ok t \<Longrightarrow> pred_option ratios_ok (removeNode t i)"
  by (induction t) (auto split: option.split)

lemma remove_absent: "i \<notin> set (collectPaneIds t) \<Longrightarrow> removeNode t i = Some t"
  by (induction t) auto

lemma remove_split: "n \<notin> set (collectPaneIds t) \<Longrightarrow> n \<noteq> i \<Longrightarrow> removeNode (replaceNode t i (Split ax r (Pane i) (Pane n))) n = Some t"
  by (induction t) auto

lemma even_panes: "ids \<noteq> [] \<Longrightarrow> \<exists>t. buildEvenLayout ids ax = Some t \<and> collectPaneIds t = ids \<and> ratios_ok t"
proof (induction ids ax rule: buildEvenLayout.induct)
  case (1 ids axis)
  then obtain i rest where ids: "ids = i # rest" by (cases ids) auto
  show ?case
  proof (cases rest)
    case Nil
    then have "buildEvenLayout ids axis = Some (Pane i)" using ids by (subst buildEvenLayout.simps) simp
    then show ?thesis using ids Nil by simp
  next
    case (Cons j rest')
    let ?m = "(length ids + 1) div 2"
    have ne: "take ?m ids \<noteq> []" "drop ?m ids \<noteq> []" using ids Cons by auto
    obtain a where a: "buildEvenLayout (take ?m ids) (other_axis axis) = Some a" "collectPaneIds a = take ?m ids" "ratios_ok a"
      using "1.IH"(1)[OF ids Cons refl ne(1)] by blast
    obtain b where b: "buildEvenLayout (drop ?m ids) (other_axis axis) = Some b" "collectPaneIds b = drop ?m ids" "ratios_ok b"
      using "1.IH"(2)[OF ids Cons refl ne(2)] by blast
    have "buildEvenLayout ids axis = Some (Split axis (1/2) a b)"
      using a(1) b(1) ids Cons by (subst buildEvenLayout.simps) (simp add: Let_def)
    then show ?thesis using a b ratio_bounds(2) by simp
  qed
qed

lemma stack_panes: "ids \<noteq> [] \<Longrightarrow> \<exists>t. buildStackLayout ids ax = Some t \<and> collectPaneIds t = ids \<and> ratios_ok t"
  by (induction ids ax rule: buildStackLayout.induct) auto

lemma main_panes: "ids \<noteq> [] \<Longrightarrow> \<exists>t. buildMainLayout ids ax = Some t \<and> collectPaneIds t = ids \<and> ratios_ok t"
  using stack_panes[of "tl ids" "other_axis ax"] by (auto simp: buildMainLayout_def split: list.splits)

section \<open>Every operation keeps a workspace well formed\<close>

datatype layout_op =
    Op_split ident mux_axis runtime_pane
  | Op_remove ident
  | Op_focus ident
  | Op_update runtime_pane
  | Op_zoom ident
  | Op_resize ident resize_direction rat
  | Op_rebalance
  | Op_swap ident ident
  | Op_preset layout_preset

definition apply_layout_op :: "(rat \<Rightarrow> rat) \<Rightarrow> layout_op \<Rightarrow> workspace \<Rightarrow> layout_error + workspace option" where
  "apply_layout_op rnd op ws =
     (case op of
        Op_split i ax pane \<Rightarrow> map_sum id Some (splitMuxPane ws i ax pane)
      | Op_remove i \<Rightarrow> Inr (removeMuxPane ws i)
      | Op_focus i \<Rightarrow> map_sum id Some (focusMuxPane ws i)
      | Op_update pane \<Rightarrow> Inr (Some (updateMuxPane ws pane))
      | Op_zoom i \<Rightarrow> map_sum id Some (toggleMuxPaneZoom ws i)
      | Op_resize i dir amount \<Rightarrow> map_sum id Some (resizeMuxPane rnd ws i dir amount)
      | Op_rebalance \<Rightarrow> Inr (Some (rebalanceMuxLayout ws))
      | Op_swap i j \<Rightarrow> map_sum id Some (swapMuxPanePositions ws i j)
      | Op_preset preset \<Rightarrow> map_sum id Some (applyMuxLayoutPreset ws preset))"

text \<open>The id of a new pane is not in use.\<close>

definition op_fresh :: "layout_op \<Rightarrow> workspace \<Rightarrow> bool" where
  "op_fresh op ws = (case op of Op_split i ax pane \<Rightarrow> pn_paneId pane \<notin> set (pane_keys ws) | _ \<Rightarrow> True)"

lemma update_fresh: "k \<notin> fst ` set al \<Longrightarrow> AList.update k v al = al @ [(k, v)]"
  by (induction al) auto

lemma split_ok:
  assumes ok: "workspace_ok ws" and f: "pn_paneId pane \<notin> set (pane_keys ws)" and s: "splitMuxPane ws i ax pane = Inr ws'"
  shows "workspace_ok ws'"
proof -
  from s have i: "i \<in> set (pane_keys ws)" by (auto simp: splitMuxPane_def has_pane_key split: if_splits)
  have "pane_keys ws' = pane_keys ws @ [pn_paneId pane]" "wk_panes ws' = wk_panes ws @ [(pn_paneId pane, pane)]"
    using s f by (auto simp: splitMuxPane_def pane_keys_def update_fresh split: if_splits)
  moreover have "wk_root ws' = replaceNode (wk_root ws) i (Split ax (1/2) (Pane i) (Pane (pn_paneId pane)))"
    "wk_focusedPaneId ws' = pn_paneId pane" "wk_zoomedPaneId ws' = wk_zoomedPaneId ws"
    using s by (auto simp: splitMuxPane_def split: if_splits)
  ultimately show ?thesis using ok f i
    by (auto simp: workspace_ok_def split_panes put_after_set put_after_distinct replace_ratios)
qed

lemma first_key_in: "kvs \<noteq> [] \<Longrightarrow> first_key kvs \<in> set (map fst kvs)"
proof -
  assume "kvs \<noteq> []"
  have "set (js_keys kvs) = set (map fst kvs)" by (auto simp: js_keys_def)
  with \<open>kvs \<noteq> []\<close> show ?thesis by (cases "js_keys kvs") (auto simp: first_key_def)
qed

lemma delete_all: "list_all Q al \<Longrightarrow> list_all Q (AList.delete k al)"
  by (induction al) auto

lemma remove_ok:
  assumes ok: "workspace_ok ws" and r: "removeMuxPane ws i = Some ws'"
  shows "workspace_ok ws'"
proof (cases "has_pane ws i")
  case True
  with r obtain t where t: "removeNode (wk_root ws) i = Some t" by (auto simp: removeMuxPane_def split: option.splits)
  let ?panes = "AList.delete i (wk_panes ws)"
  have ids: "collectPaneIds t = filter (\<lambda>q. q \<noteq> i) (collectPaneIds (wk_root ws))" using remove_panes[of "wk_root ws" i] t by simp
  have keys: "map fst ?panes = filter (\<lambda>q. q \<noteq> i) (pane_keys ws)" by (auto simp: pane_keys_def delete_keys removeAll_filter_not_eq intro: filter_cong)
  have "collectPaneIds t \<noteq> []" by (induction t) auto
  then obtain q where "q \<in> set (filter (\<lambda>q. q \<noteq> i) (collectPaneIds (wk_root ws)))" using ids last_in_set by metis
  then have "q \<in> set (map fst ?panes)" unfolding keys using ok by (auto simp: workspace_ok_def)
  then have "?panes \<noteq> []" by auto
  then have first: "first_key ?panes \<in> set (pane_keys ws) - {i}" using first_key_in[of ?panes] keys by auto
  have "list_all (\<lambda>(i, p). pn_paneId p = i) ?panes" using ok delete_all by (auto simp: workspace_ok_def)
  moreover have "ratios_ok t" using remove_ratios[of "wk_root ws" i] ok t by (simp add: workspace_ok_def)
  moreover have "ws' = ws\<lparr>wk_panes := ?panes, wk_root := t,
      wk_focusedPaneId := (if wk_focusedPaneId ws = i then first_key ?panes else wk_focusedPaneId ws),
      wk_zoomedPaneId := (if wk_zoomedPaneId ws = Some i then None else wk_zoomedPaneId ws)\<rparr>"
    using r True t by (simp add: removeMuxPane_def Let_def)
  ultimately show ?thesis using ok first ids keys by (auto simp: workspace_ok_def)
qed (use assms in \<open>simp add: removeMuxPane_def\<close>)

lemma tree_ok:
  assumes "workspace_ok ws" "set (collectPaneIds t) = set (pane_keys ws)" "distinct (collectPaneIds t)" "ratios_ok t"
  shows "workspace_ok (ws\<lparr>wk_root := t\<rparr>)"
  using assms by (simp add: workspace_ok_def)

lemma preset_ok:
  assumes ok: "workspace_ok ws" and p: "applyMuxLayoutPreset ws preset = Inr ws'"
  shows "workspace_ok ws'"
proof -
  have ne: "ordered_panes ws \<noteq> []" by (simp add: ordered_panes_def)
  obtain t where "ws' = ws\<lparr>wk_root := t\<rparr>" "collectPaneIds t = ordered_panes ws" "ratios_ok t"
    using p even_panes[OF ne, of Vertical] main_panes[OF ne, of Vertical] main_panes[OF ne, of Horizontal]
    by (auto simp: applyMuxLayoutPreset_def split: layout_preset.splits)
  moreover have "set (ordered_panes ws) = set (pane_keys ws)" "distinct (ordered_panes ws)"
    using ok by (auto simp: ordered_panes_def workspace_ok_def)
  ultimately show ?thesis using tree_ok[OF ok] by simp
qed

lemma update_ok:
  assumes ok: "workspace_ok ws"
  shows "workspace_ok (updateMuxPane ws pane)"
proof (cases "has_pane ws (pn_paneId pane)")
  case True
  then have "map fst (AList.update (pn_paneId pane) pane (wk_panes ws)) = pane_keys ws"
    by (simp add: update_keys pane_keys_def has_pane_key)
  moreover have "list_all (\<lambda>(i, p). pn_paneId p = i) (AList.update (pn_paneId pane) pane xs)" if "list_all (\<lambda>(i, p). pn_paneId p = i) xs" for xs
    using that by (induction xs) auto
  ultimately show ?thesis using ok True by (simp add: workspace_ok_def updateMuxPane_def)
qed (simp add: updateMuxPane_def ok)

lemma swap_ok:
  assumes ok: "workspace_ok ws" and s: "swapMuxPanePositions ws i j = Inr ws'"
  shows "workspace_ok ws'"
proof (cases "i = j")
  case False
  with s have m: "i \<in> set (pane_keys ws)" "j \<in> set (pane_keys ws)"
    and ws': "ws' = ws\<lparr>wk_root := mapPaneIds (wk_root ws) i j, wk_focusedPaneId := swap_id i j (wk_focusedPaneId ws),
      wk_zoomedPaneId := map_option (swap_id i j) (wk_zoomedPaneId ws)\<rparr>"
    by (auto simp: swapMuxPanePositions_def has_pane_key split: if_splits)
  have inj: "inj (swap_id i j)" by (rule injI) (metis swap_id_twice)
  have mem: "swap_id i j q \<in> set (pane_keys ws)" if "q \<in> set (pane_keys ws)" for q using swap_set[OF m] that by blast
  have "set_option (wk_zoomedPaneId ws') \<subseteq> set (pane_keys ws)" using ok mem ws' by (auto simp: workspace_ok_def)
  moreover have "distinct (map (swap_id i j) (collectPaneIds (wk_root ws)))" using ok inj by (auto simp: workspace_ok_def distinct_map intro: inj_on_subset)
  ultimately show ?thesis using ok m mem swap_set[OF m] ws' by (auto simp: workspace_ok_def map_panes)
qed (use assms in \<open>simp add: swapMuxPanePositions_def\<close>)

lemma resize_ok:
  assumes ok: "workspace_ok ws" and r: "resizeMuxPane rnd ws i dir amount = Inr ws'"
  shows "workspace_ok ws'"
proof -
  from r obtain t changed axis delta where "adjustNodeForPane rnd (wk_root ws) i axis delta = (t, changed)" "ws' = ws \<or> ws' = ws\<lparr>wk_root := t\<rparr>"
    by (auto simp: resizeMuxPane_def Let_def split: if_splits prod.splits)
  with adjust_keeps[of rnd "wk_root ws" i axis delta t changed] ok tree_ok[OF ok, of t] show ?thesis by (auto simp: workspace_ok_def)
qed

lemma op_ok:
  assumes ok: "workspace_ok ws" and f: "op_fresh op ws" and r: "apply_layout_op rnd op ws = Inr (Some ws')"
  shows "workspace_ok ws'"
proof (cases op)
  case (Op_split i ax pane)
  then show ?thesis using r f split_ok[OF ok] by (cases "splitMuxPane ws i ax pane") (auto simp: apply_layout_op_def op_fresh_def)
next
  case (Op_focus i)
  then show ?thesis using r ok by (auto simp: apply_layout_op_def focusMuxPane_def has_pane_key workspace_ok_def split: if_splits)
next
  case (Op_zoom i)
  then show ?thesis using r ok by (auto simp: apply_layout_op_def toggleMuxPaneZoom_def has_pane_key workspace_ok_def split: if_splits)
next
  case (Op_resize i dir amount)
  then show ?thesis using r resize_ok[OF ok] by (cases "resizeMuxPane rnd ws i dir amount") (auto simp: apply_layout_op_def)
next
  case Op_rebalance
  then show ?thesis using r tree_ok[OF ok, of "rebalanceNode (wk_root ws)"] ok
    by (auto simp: apply_layout_op_def rebalanceMuxLayout_def rebalance_keeps workspace_ok_def)
next
  case (Op_swap i j)
  then show ?thesis using r swap_ok[OF ok] by (cases "swapMuxPanePositions ws i j") (auto simp: apply_layout_op_def)
next
  case (Op_preset preset)
  then show ?thesis using r preset_ok[OF ok] by (cases "applyMuxLayoutPreset ws preset") (auto simp: apply_layout_op_def)
qed (use r remove_ok[OF ok] update_ok[OF ok] in \<open>auto simp: apply_layout_op_def\<close>)

inductive layout_path :: "(rat \<Rightarrow> rat) \<Rightarrow> workspace \<Rightarrow> bool" for rnd where
  created: "layout_path rnd (createMuxWorkspace pane workspaceId title uuid)"
| changed: "layout_path rnd ws \<Longrightarrow> op_fresh op ws \<Longrightarrow> apply_layout_op rnd op ws = Inr (Some ws') \<Longrightarrow> layout_path rnd ws'"

text \<open>
  C24. The layout and the panes agree. After any sequence of splits, removals, focus changes, pane updates,
  zooms, resizes, swaps and presets on a created workspace, where new panes have new ids: the leaves of
  the tree are exactly the panes of the workspace, each once; the focused and the zoomed pane are among
  them; every pane is stored under its own id; and every ratio is between 0.15 and 0.85.
\<close>

theorem layout_consistent:
  assumes "layout_path rnd ws"
  shows "workspace_ok ws"
  using assms
proof (induction rule: layout_path.induct)
  case (created pane workspaceId title uuid)
  then show ?case by (simp add: workspace_ok_def createMuxWorkspace_def pane_keys_def)
next
  case (changed ws op ws')
  then show ?case using op_ok by blast
qed

definition demo_pane :: "ident \<Rightarrow> runtime_pane" where
  "demo_pane i = \<lparr>pn_paneId = i, pn_paneKind = Kind_runtime, pn_runtimeId = ''r'', pn_runtimeKey = ''k'', pn_displayName = ''n'', pn_workspaceLabel = ''w'',
     pn_accessMode = Interactive, pn_lifecycle = L_running, pn_writeOwner = None, pn_attachedClients = [],
     pn_viewport = \<lparr>vp_cols = 120, vp_rows = 36, vp_snapshotSeq = 0, vp_text = []\<rparr>\<rparr>"

definition demo_layout :: workspace where
  "demo_layout = createMuxWorkspace (demo_pane ''a'') (Some ''w'') None ''u''"

primrec run_ops :: "layout_op list \<Rightarrow> workspace \<Rightarrow> workspace" where
  "run_ops [] ws = ws"
| "run_ops (op # ops) ws = (case apply_layout_op (\<lambda>x. x) op ws of Inr (Some ws') \<Rightarrow> if op_fresh op ws then run_ops ops ws' else ws | _ \<Rightarrow> ws)"

lemma run_ops_path: "layout_path (\<lambda>x. x) ws \<Longrightarrow> layout_path (\<lambda>x. x) (run_ops ops ws)"
  by (induction ops arbitrary: ws) (auto split: sum.splits option.splits intro: changed)

definition demo_layout_ops :: "layout_op list" where
  "demo_layout_ops = [Op_split ''a'' Vertical (demo_pane ''b''), Op_split ''b'' Horizontal (demo_pane ''c''), Op_zoom ''b'', Op_resize ''c'' To_left 9,
     Op_swap ''a'' ''c'', Op_preset Main_vertical, Op_remove ''b'']"

theorem layout_consistent_witness:
  "workspace_ok (run_ops demo_layout_ops demo_layout) \<and> collectPaneIds (wk_root (run_ops demo_layout_ops demo_layout)) = [''c'', ''a'']
   \<and> wk_zoomedPaneId (run_ops demo_layout_ops demo_layout) = None"
proof -
  have "(collectPaneIds (wk_root (run_ops demo_layout_ops demo_layout)), wk_zoomedPaneId (run_ops demo_layout_ops demo_layout)) = ([''c'', ''a''], None)"
    by code_simp
  then show ?thesis using layout_consistent[OF run_ops_path, of demo_layout demo_layout_ops] created by (auto simp: demo_layout_def)
qed

text \<open>
  C25. A split is undone by removing the new pane. In a well-formed workspace, splitting a pane and removing
  the pane that the split added gives back the same tree, panes, title and zoom; only the focus has moved,
  to the first pane in the order of the object's keys.
\<close>

theorem split_then_remove:
  assumes ok: "workspace_ok ws" and i: "has_pane ws i" and n: "\<not> has_pane ws (pn_paneId pane)"
  shows "\<exists>ws'. splitMuxPane ws i ax pane = Inr ws' \<and> wk_focusedPaneId ws' = pn_paneId pane
     \<and> removeMuxPane ws' (pn_paneId pane) = Some (ws\<lparr>wk_focusedPaneId := first_key (wk_panes ws)\<rparr>)"
proof -
  let ?n = "pn_paneId pane"
  have keys: "set (collectPaneIds (wk_root ws)) = set (pane_keys ws)" "?n \<notin> set (pane_keys ws)" "i \<noteq> ?n" "wk_zoomedPaneId ws \<noteq> Some ?n"
    using ok n i by (auto simp: workspace_ok_def has_pane_key)
  have panes: "AList.delete ?n (AList.update ?n pane (wk_panes ws)) = wk_panes ws"
    using keys(2) by (simp add: delete_update_same pane_keys_def)
  have "removeNode (replaceNode (wk_root ws) i (Split ax (1/2) (Pane i) (Pane ?n))) ?n = Some (wk_root ws)"
    using remove_split keys by metis
  then show ?thesis using i panes keys(4) by (simp add: splitMuxPane_def removeMuxPane_def has_pane_def update_conv Let_def)
qed

theorem split_then_remove_witness:
  "\<exists>ws'. splitMuxPane demo_layout ''a'' Vertical (demo_pane ''b'') = Inr ws' \<and> wk_focusedPaneId ws' = pn_paneId (demo_pane ''b'')
     \<and> removeMuxPane ws' (pn_paneId (demo_pane ''b'')) = Some (demo_layout\<lparr>wk_focusedPaneId := first_key (wk_panes demo_layout)\<rparr>)"
  by (rule split_then_remove)
    (simp_all add: workspace_ok_def demo_layout_def createMuxWorkspace_def demo_pane_def pane_keys_def has_pane_def)

end
