(* ===== verification/MuxClient.thy ===== *)
theory MuxClient
  imports MuxLayout
begin

text \<open>
  The control client of the terminal multiplexer (\<open>session-host-mux-client.ts\<close>): the panes it has opened, by id
  and by runtime, and its workspaces. Requests to the session host are awaited; an operation is split where it
  awaits, and the answers are arguments. The terminal surface (a binding of a third-party emulator) is a
  parameter.
\<close>

section \<open>State\<close>

record 's surface_ops =
  so_new :: "int \<Rightarrow> int \<Rightarrow> 's"
  so_reset :: "string \<Rightarrow> int \<Rightarrow> 's \<Rightarrow> 's"
  so_write :: "string \<Rightarrow> int \<Rightarrow> 's \<Rightarrow> 's"
  so_resize :: "int \<Rightarrow> int \<Rightarrow> 's \<Rightarrow> 's"
  so_view :: "'s \<Rightarrow> viewport"

record 's pane_entry =
  pe_record :: session_record
  pe_surface :: 's
  pe_paneKind :: pane_kind
  pe_accessMode :: pane_access
  pe_requestedReadOnly :: bool

datatype mux_event = Pane_changed runtime_pane | Workspace_changed workspace

datatype mux_request =
    Detach_session ident
  | Acquire_write ident
  | Release_write ident
  | Send_text ident string
  | Resize_session ident int int

record 's mux_client =
  mc_clientId :: ident
  mc_paneById :: "(ident \<times> 's pane_entry) list"
  mc_paneIdsByRuntime :: "(ident \<times> ident list) list"
  mc_workspaceById :: "(ident \<times> workspace) list"
  mc_emitted :: "mux_event list"
  mc_requests :: "mux_request list"

datatype mux_error = Layout_failed layout_error | Unknown_workspace ident | Unknown_client_pane ident | Pane_read_only ident | Request_failed | Not_attached | Empty_snapshot

definition paneFromRecord :: "'s surface_ops \<Rightarrow> ident \<Rightarrow> session_record \<Rightarrow> 's \<Rightarrow> pane_kind \<Rightarrow> pane_access \<Rightarrow> runtime_pane" where
  "paneFromRecord ops i r sf kind mode = \<lparr>pn_paneId = i, pn_paneKind = kind, pn_runtimeId = sr_sessionId r, pn_runtimeKey = sr_runtimeKey r,
     pn_displayName = sr_displayName r, pn_workspaceLabel = sr_workspaceLabel r, pn_accessMode = mode, pn_lifecycle = sr_lifecycle r,
     pn_writeOwner = sr_writeOwner r, pn_attachedClients = sr_attachedClients r, pn_viewport = so_view ops sf\<rparr>"

definition entry_pane :: "'s surface_ops \<Rightarrow> ident \<Rightarrow> 's pane_entry \<Rightarrow> runtime_pane" where
  "entry_pane ops i e = paneFromRecord ops i (pe_record e) (pe_surface e) (pe_paneKind e) (pe_accessMode e)"

definition computeAccessMode :: "ident \<Rightarrow> session_record \<Rightarrow> bool \<Rightarrow> pane_kind \<Rightarrow> pane_access" where
  "computeAccessMode clientId r requestedReadOnly kind =
     (if kind = Kind_mirror then Read_only
      else if requestedReadOnly then Read_only
      else if (case sr_writeOwner r of Some ow \<Rightarrow> wo_clientId ow \<noteq> clientId | None \<Rightarrow> False) then Read_only
      else if (case find (\<lambda>cl. cl_clientId cl = clientId) (sr_attachedClients r) of Some cl \<Rightarrow> cl_readOnly cl | None \<Rightarrow> False) then Read_only
      else Interactive)"

definition requireWorkspace :: "ident \<Rightarrow> 's mux_client \<Rightarrow> mux_error + workspace" where
  "requireWorkspace w c = (case map_of (mc_workspaceById c) w of Some ws \<Rightarrow> Inr ws | None \<Rightarrow> Inl (Unknown_workspace w))"

definition requirePane :: "ident \<Rightarrow> 's mux_client \<Rightarrow> mux_error + 's pane_entry" where
  "requirePane i c = (case map_of (mc_paneById c) i of Some e \<Rightarrow> Inr e | None \<Rightarrow> Inl (Unknown_client_pane i))"

definition emit_event :: "mux_event \<Rightarrow> 's mux_client \<Rightarrow> 's mux_client" where
  "emit_event ev c = c\<lparr>mc_emitted := mc_emitted c @ [ev]\<rparr>"

definition put_workspace :: "ident \<Rightarrow> workspace \<Rightarrow> 's mux_client \<Rightarrow> 's mux_client" where
  "put_workspace w ws c = emit_event (Workspace_changed ws) (c\<lparr>mc_workspaceById := AList.update w ws (mc_workspaceById c)\<rparr>)"

definition put_pane :: "ident \<Rightarrow> 's pane_entry \<Rightarrow> 's mux_client \<Rightarrow> 's mux_client" where
  "put_pane i e c = c\<lparr>mc_paneById := AList.update i e (mc_paneById c)\<rparr>"

definition runtime_panes :: "ident \<Rightarrow> 's mux_client \<Rightarrow> ident list" where
  "runtime_panes sid c = (case map_of (mc_paneIdsByRuntime c) sid of Some is \<Rightarrow> is | None \<Rightarrow> [])"

definition add_runtime_pane :: "ident \<Rightarrow> ident \<Rightarrow> 's mux_client \<Rightarrow> 's mux_client" where
  "add_runtime_pane sid i c =
     c\<lparr>mc_paneIdsByRuntime := AList.update sid (if i \<in> set (runtime_panes sid c) then runtime_panes sid c else runtime_panes sid c @ [i]) (mc_paneIdsByRuntime c)\<rparr>"

text \<open>The pane leaves the runtime; the last one detaches the client from it.\<close>

definition drop_runtime_pane :: "ident \<Rightarrow> ident \<Rightarrow> 's mux_client \<Rightarrow> 's mux_client" where
  "drop_runtime_pane sid i c =
     (case map_of (mc_paneIdsByRuntime c) sid of
        None \<Rightarrow> c
      | Some is \<Rightarrow>
          if removeAll i is = []
          then c\<lparr>mc_paneIdsByRuntime := AList.delete sid (mc_paneIdsByRuntime c), mc_requests := mc_requests c @ [Detach_session sid]\<rparr>
          else c\<lparr>mc_paneIdsByRuntime := AList.update sid (removeAll i is) (mc_paneIdsByRuntime c)\<rparr>)"

section \<open>Publishing a pane\<close>

definition refresh :: "runtime_pane \<Rightarrow> workspace \<Rightarrow> workspace" where
  "refresh p ws = (if has_pane ws (pn_paneId p) then updateMuxPane ws p else ws)"

definition publishPaneUpdate :: "'s surface_ops \<Rightarrow> ident \<Rightarrow> 's mux_client \<Rightarrow> mux_error + 's mux_client" where
  "publishPaneUpdate ops i c =
     (case requirePane i c of
        Inl err \<Rightarrow> Inl err
      | Inr e \<Rightarrow>
          let p = entry_pane ops i e
          in Inr (c\<lparr>mc_workspaceById := map (\<lambda>(w, ws). (w, refresh p ws)) (mc_workspaceById c),
                    mc_emitted := mc_emitted c @ Pane_changed p # map (Workspace_changed \<circ> refresh p) (filter (\<lambda>ws. has_pane ws i) (map snd (mc_workspaceById c)))\<rparr>))"

definition publish_known :: "'s surface_ops \<Rightarrow> ident \<Rightarrow> 's mux_client \<Rightarrow> 's mux_client" where
  "publish_known ops i c = (case publishPaneUpdate ops i c of Inr c' \<Rightarrow> c' | Inl _ \<Rightarrow> c)"

section \<open>Events of the host\<close>

datatype mux_host_event =
    He_output string int
  | He_running "int option"
  | He_exit "int option" "session_termination option"
  | He_stopped
  | He_resized int int
  | He_owner "session_write_owner option"
  | He_attached session_attached_client
  | He_detached ident
  | He_created session_record
  | He_other

definition recompute :: "ident \<Rightarrow> 's pane_entry \<Rightarrow> 's pane_entry" where
  "recompute clientId e = e\<lparr>pe_accessMode := computeAccessMode clientId (pe_record e) (pe_requestedReadOnly e) (pe_paneKind e)\<rparr>"

definition on_record :: "(session_record \<Rightarrow> session_record) \<Rightarrow> 's pane_entry \<Rightarrow> 's pane_entry" where
  "on_record f e = e\<lparr>pe_record := f (pe_record e)\<rparr>"

definition pane_event :: "'s surface_ops \<Rightarrow> ident \<Rightarrow> mux_host_event \<Rightarrow> 's pane_entry \<Rightarrow> 's pane_entry" where
  "pane_event ops clientId ev e =
     (case ev of
        He_output data sq \<Rightarrow> e\<lparr>pe_surface := so_write ops data sq (pe_surface e)\<rparr>
      | He_running pid \<Rightarrow> on_record (\<lambda>r. r\<lparr>sr_lifecycle := L_running, sr_osPid := (case pid of Some n \<Rightarrow> Some n | None \<Rightarrow> sr_osPid r)\<rparr>) e
      | He_exit exitCode term \<Rightarrow>
          on_record (\<lambda>r. r\<lparr>sr_lifecycle := (case term of Some t \<Rightarrow> te_lifecycle t | None \<Rightarrow> if exitCode = Some 0 then L_stopped else L_failed),
                           sr_termination := (case term of Some t \<Rightarrow> Some t | None \<Rightarrow> sr_termination r)\<rparr>) e
      | He_stopped \<Rightarrow> on_record (\<lambda>r. r\<lparr>sr_lifecycle := L_stopped\<rparr>) e
      | He_resized cols rows \<Rightarrow> e\<lparr>pe_surface := so_resize ops cols rows (pe_surface e)\<rparr>
      | He_owner ow \<Rightarrow> recompute clientId (on_record (\<lambda>r. r\<lparr>sr_writeOwner := ow\<rparr>) e)
      | He_attached cl \<Rightarrow>
          recompute clientId (on_record (\<lambda>r. r\<lparr>sr_attachedClients := filter (\<lambda>x. cl_clientId x \<noteq> cl_clientId cl) (sr_attachedClients r) @ [cl]\<rparr>) e)
      | He_detached i \<Rightarrow> recompute clientId (on_record (\<lambda>r. r\<lparr>sr_attachedClients := filter (\<lambda>x. cl_clientId x \<noteq> i) (sr_attachedClients r)\<rparr>) e)
      | He_created r \<Rightarrow> recompute clientId (on_record (\<lambda>_. r) e)
      | He_other \<Rightarrow> e)"

definition event_on :: "'s surface_ops \<Rightarrow> mux_host_event \<Rightarrow> ident \<Rightarrow> 's mux_client \<Rightarrow> 's mux_client" where
  "event_on ops ev i c =
     (case map_of (mc_paneById c) i of
        None \<Rightarrow> c
      | Some e \<Rightarrow> publish_known ops i (put_pane i (pane_event ops (mc_clientId c) ev e) c))"

definition handleHostEvent :: "'s surface_ops \<Rightarrow> ident option \<Rightarrow> mux_host_event \<Rightarrow> 's mux_client \<Rightarrow> 's mux_client" where
  "handleHostEvent ops sessionId ev c =
     (if \<not> truthy sessionId then c else foldl (\<lambda>c i. event_on ops ev i c) c (runtime_panes (the sessionId) c))"

section \<open>Opening runtimes\<close>

record open_options =
  op_readOnly :: bool
  op_takeover :: bool
  op_cols :: "int option"
  op_rows :: "int option"
  op_paneId :: "ident option"

definition open_readOnly :: "ident \<Rightarrow> open_options \<Rightarrow> session_record \<Rightarrow> bool" where
  "open_readOnly clientId opts r =
     (if op_takeover opts then False
      else op_readOnly opts \<or> (case sr_writeOwner r of Some ow \<Rightarrow> wo_clientId ow \<noteq> clientId | None \<Rightarrow> False))"

definition or_value :: "'a option \<Rightarrow> 'a \<Rightarrow> 'a" where
  "or_value x d = (case x of Some v \<Rightarrow> v | None \<Rightarrow> d)"

text \<open>The runtime that was resumed has a new record; every pane that shows it is published again.\<close>

definition resume_answered :: "'s surface_ops \<Rightarrow> session_record \<Rightarrow> session_record \<Rightarrow> 's mux_client \<Rightarrow> 's mux_client" where
  "resume_answered ops old new c =
     foldl (\<lambda>c (i, _). case map_of (mc_paneById c) i of
              Some e \<Rightarrow> if sr_sessionId (pe_record e) = sr_sessionId old then publish_known ops i (put_pane i (e\<lparr>pe_record := new\<rparr>) c) else c
            | None \<Rightarrow> c) c (mc_paneById c)"

text \<open>The end of \<open>openRuntime\<close>: the record after attach and takeover, and the snapshot, or a request that failed.\<close>

definition open_finished :: "'s surface_ops \<Rightarrow> open_options \<Rightarrow> bool \<Rightarrow> ident \<Rightarrow> session_record option \<Rightarrow> (string \<times> int) option \<Rightarrow> 's mux_client
    \<Rightarrow> mux_error + runtime_pane \<times> 's mux_client" where
  "open_finished ops opts readOnly uuid rec snap c =
     (case (rec, snap) of
        (Some r, Some (txt, sq)) \<Rightarrow>
          let i = (if truthy (op_paneId opts) then the (op_paneId opts) else uuid);
              sf = so_reset ops txt sq (so_new ops (or_value (op_cols opts) 120) (or_value (op_rows opts) 36));
              e = \<lparr>pe_record = r, pe_surface = sf, pe_paneKind = Kind_runtime, pe_accessMode = computeAccessMode (mc_clientId c) r readOnly Kind_runtime,
                   pe_requestedReadOnly = readOnly\<rparr>;
              p = entry_pane ops i e
          in Inr (p, emit_event (Pane_changed p) (add_runtime_pane (sr_sessionId r) i (put_pane i e c)))
      | _ \<Rightarrow> Inl Request_failed)"

definition mirror_entry :: "'s surface_ops \<Rightarrow> session_record \<Rightarrow> 's pane_entry \<Rightarrow> 's pane_entry" where
  "mirror_entry ops r source =
     (let v = so_view ops (pe_surface source)
      in \<lparr>pe_record = r, pe_surface = so_reset ops (vp_text v) (vp_snapshotSeq v) (so_new ops (vp_cols v) (vp_rows v)), pe_paneKind = Kind_mirror,
          pe_accessMode = Read_only, pe_requestedReadOnly = True\<rparr>)"

definition openMirrorRuntime :: "'s surface_ops \<Rightarrow> session_record \<Rightarrow> ident option \<Rightarrow> ident \<Rightarrow> 's mux_client \<Rightarrow> mux_error + runtime_pane \<times> 's mux_client" where
  "openMirrorRuntime ops r paneId uuid c =
     (case find (\<lambda>(_, e). sr_sessionId (pe_record e) = sr_sessionId r) (mc_paneById c) of
        None \<Rightarrow> Inl Not_attached
      | Some (_, source) \<Rightarrow>
          let i = (if truthy paneId then the paneId else uuid); e = mirror_entry ops r source; p = entry_pane ops i e
          in Inr (p, emit_event (Pane_changed p) (add_runtime_pane (sr_sessionId r) i (put_pane i e c))))"

section \<open>Workspaces\<close>

definition createWorkspace :: "runtime_pane \<Rightarrow> ident option \<Rightarrow> string option \<Rightarrow> ident \<Rightarrow> 's mux_client \<Rightarrow> workspace \<times> 's mux_client" where
  "createWorkspace p workspaceId title uuid c =
     (let ws = createMuxWorkspace p workspaceId title uuid in (ws, put_workspace (wk_workspaceId ws) ws c))"

text \<open>
  \<open>splitWorkspacePane\<close> reads the workspace, awaits \<open>openRuntime\<close>, and then stores the split of what it has read:
  \<open>ws\<close> is the workspace at the time of the call.
\<close>

definition split_finished :: "ident \<Rightarrow> workspace \<Rightarrow> ident \<Rightarrow> mux_axis \<Rightarrow> runtime_pane \<Rightarrow> 's mux_client \<Rightarrow> mux_error + workspace \<times> 's mux_client" where
  "split_finished w ws target axis p c =
     (case splitMuxPane ws target axis p of
        Inl err \<Rightarrow> Inl (Layout_failed err)
      | Inr ws' \<Rightarrow> Inr (ws', put_workspace w ws' c))"

definition splitWorkspaceMirror :: "'s surface_ops \<Rightarrow> ident \<Rightarrow> ident \<Rightarrow> ident \<Rightarrow> mux_axis \<Rightarrow> ident \<Rightarrow> 's mux_client \<Rightarrow> mux_error + workspace \<times> 's mux_client" where
  "splitWorkspaceMirror ops w target source axis uuid c =
     (case (requireWorkspace w c, requirePane source c) of
        (Inl err, _) \<Rightarrow> Inl err
      | (_, Inl err) \<Rightarrow> Inl err
      | (Inr ws, Inr se) \<Rightarrow>
          let e = mirror_entry ops (pe_record se) se; p = entry_pane ops uuid e; c1 = add_runtime_pane (sr_sessionId (pe_record se)) uuid (put_pane uuid e c)
          in (case splitMuxPane ws target axis p of
                Inl err \<Rightarrow> Inl (Layout_failed err)
              | Inr ws' \<Rightarrow> Inr (ws', emit_event (Workspace_changed ws') (emit_event (Pane_changed p) (c1\<lparr>mc_workspaceById := AList.update w ws' (mc_workspaceById c1)\<rparr>)))))"

text \<open>\<open>replacePaneRuntime\<close> after its \<open>openRuntime\<close>: the pane shows the replacement, and leaves the previous runtime.\<close>

definition replace_opened :: "ident \<Rightarrow> ident \<Rightarrow> runtime_pane \<Rightarrow> 's mux_client \<Rightarrow> 's mux_client" where
  "replace_opened i previous p c = (if previous \<noteq> pn_runtimeId p then drop_runtime_pane previous i c else c)"

definition replace_finished :: "ident \<Rightarrow> workspace \<Rightarrow> runtime_pane \<Rightarrow> 's mux_client \<Rightarrow> workspace \<times> 's mux_client" where
  "replace_finished w ws p c = (let ws' = updateMuxPane ws p in (ws', put_workspace w ws' c))"

definition close_begin :: "ident \<Rightarrow> 's mux_client \<Rightarrow> 's mux_client" where
  "close_begin i c =
     (case map_of (mc_paneById c) i of
        None \<Rightarrow> c
      | Some e \<Rightarrow> drop_runtime_pane (sr_sessionId (pe_record e)) i (c\<lparr>mc_paneById := AList.delete i (mc_paneById c)\<rparr>))"

definition close_finish :: "ident \<Rightarrow> workspace option \<Rightarrow> 's mux_client \<Rightarrow> workspace option \<times> 's mux_client" where
  "close_finish w new c =
     (case new of
        None \<Rightarrow> (None, c\<lparr>mc_workspaceById := AList.delete w (mc_workspaceById c)\<rparr>)
      | Some ws \<Rightarrow> (Some ws, put_workspace w ws c))"

definition closePane :: "ident \<Rightarrow> ident \<Rightarrow> 's mux_client \<Rightarrow> mux_error + workspace option \<times> 's mux_client" where
  "closePane w i c =
     (case requireWorkspace w c of
        Inl err \<Rightarrow> Inl err
      | Inr ws \<Rightarrow> Inr (close_finish w (removeMuxPane ws i) (close_begin i c)))"

definition with_workspace :: "(workspace \<Rightarrow> layout_error + workspace) \<Rightarrow> ident \<Rightarrow> 's mux_client \<Rightarrow> mux_error + workspace \<times> 's mux_client" where
  "with_workspace f w c =
     (case requireWorkspace w c of
        Inl err \<Rightarrow> Inl err
      | Inr ws \<Rightarrow> (case f ws of Inl err \<Rightarrow> Inl (Layout_failed err) | Inr ws' \<Rightarrow> Inr (ws', put_workspace w ws' c)))"

definition focusPane :: "ident \<Rightarrow> ident \<Rightarrow> 's mux_client \<Rightarrow> mux_error + workspace \<times> 's mux_client" where
  "focusPane w i = with_workspace (\<lambda>ws. focusMuxPane ws i) w"

definition resizeLayoutPane :: "(rat \<Rightarrow> rat) \<Rightarrow> ident \<Rightarrow> ident \<Rightarrow> resize_direction \<Rightarrow> rat \<Rightarrow> 's mux_client \<Rightarrow> mux_error + workspace \<times> 's mux_client" where
  "resizeLayoutPane rnd w i dir amount = with_workspace (\<lambda>ws. resizeMuxPane rnd ws i dir amount) w"

definition rebalanceWorkspaceLayout :: "ident \<Rightarrow> 's mux_client \<Rightarrow> mux_error + workspace \<times> 's mux_client" where
  "rebalanceWorkspaceLayout w = with_workspace (\<lambda>ws. Inr (rebalanceMuxLayout ws)) w"

definition applyLayoutPreset :: "ident \<Rightarrow> layout_preset \<Rightarrow> 's mux_client \<Rightarrow> mux_error + workspace \<times> 's mux_client" where
  "applyLayoutPreset w preset = with_workspace (\<lambda>ws. applyMuxLayoutPreset ws preset) w"

definition swapPanePositions :: "ident \<Rightarrow> ident \<Rightarrow> ident \<Rightarrow> 's mux_client \<Rightarrow> mux_error + workspace \<times> 's mux_client" where
  "swapPanePositions w i j = with_workspace (\<lambda>ws. swapMuxPanePositions ws i j) w"

definition togglePaneZoom :: "ident \<Rightarrow> ident \<Rightarrow> 's mux_client \<Rightarrow> mux_error + workspace \<times> 's mux_client" where
  "togglePaneZoom w i = with_workspace (\<lambda>ws. toggleMuxPaneZoom ws i) w"

section \<open>Restoring a snapshot\<close>

definition snapshot_kind :: "persisted_pane \<Rightarrow> pane_kind" where
  "snapshot_kind p = or_value (pp_paneKind p) Kind_runtime"

text \<open>Runtime panes are opened first; the sort is stable.\<close>

definition restore_order :: "persisted_workspace \<Rightarrow> (ident \<times> persisted_pane) list" where
  "restore_order snap =
     (let panes = map (\<lambda>i. (i, the (map_of (pw_panes snap) i))) (js_keys (pw_panes snap))
      in filter (\<lambda>(_, p). snapshot_kind p = Kind_runtime) panes @ filter (\<lambda>(_, p). snapshot_kind p \<noteq> Kind_runtime) panes)"

definition restore_workspace :: "persisted_workspace \<Rightarrow> (ident \<times> runtime_pane) list \<Rightarrow> workspace" where
  "restore_workspace snap opened =
     (let known = (\<lambda>i. map_of (pw_panes snap) i \<noteq> None)
      in \<lparr>wk_workspaceId = pw_workspaceId snap, wk_title = pw_title snap, wk_root = pw_root snap,
          wk_focusedPaneId = (if known (pw_focusedPaneId snap) then pw_focusedPaneId snap else fst (hd opened)),
          wk_zoomedPaneId = (case pw_zoomedPaneId snap of Some z \<Rightarrow> if z \<noteq> [] \<and> known z then Some z else None | None \<Rightarrow> None),
          wk_panes = foldl (\<lambda>ps (i, p). AList.update i p ps) [] opened\<rparr>)"

definition restore_finished :: "persisted_workspace \<Rightarrow> (ident \<times> runtime_pane) list \<Rightarrow> 's mux_client \<Rightarrow> mux_error + workspace \<times> 's mux_client" where
  "restore_finished snap opened c =
     (if pw_panes snap = [] then Inl Empty_snapshot
      else let ws = restore_workspace snap opened in Inr (ws, put_workspace (wk_workspaceId ws) ws c))"

section \<open>Writing\<close>

definition takeover_answered :: "'s surface_ops \<Rightarrow> ident \<Rightarrow> session_record option \<Rightarrow> 's mux_client \<Rightarrow> mux_error + 's mux_client" where
  "takeover_answered ops i answer c =
     (case (requirePane i c, answer) of
        (Inl err, _) \<Rightarrow> Inl err
      | (Inr e, None) \<Rightarrow> Inl Request_failed
      | (Inr e, Some r) \<Rightarrow> publishPaneUpdate ops i (put_pane i (e\<lparr>pe_record := r, pe_requestedReadOnly := False, pe_accessMode := Interactive\<rparr>) c))"

definition release_answered :: "'s surface_ops \<Rightarrow> ident \<Rightarrow> session_record option \<Rightarrow> 's mux_client \<Rightarrow> mux_error + 's mux_client" where
  "release_answered ops i answer c =
     (case (requirePane i c, answer) of
        (Inl err, _) \<Rightarrow> Inl err
      | (Inr e, None) \<Rightarrow> Inl Request_failed
      | (Inr e, Some r) \<Rightarrow>
          publishPaneUpdate ops i (put_pane i (recompute (mc_clientId c) (e\<lparr>pe_record := r, pe_requestedReadOnly := False\<rparr>)) c))"

definition resizePane :: "'s surface_ops \<Rightarrow> ident \<Rightarrow> int \<Rightarrow> int \<Rightarrow> 's mux_client \<Rightarrow> mux_error + 's mux_client" where
  "resizePane ops i cols rows c =
     (case requirePane i c of
        Inl err \<Rightarrow> Inl err
      | Inr e \<Rightarrow> publishPaneUpdate ops i ((put_pane i (e\<lparr>pe_surface := so_resize ops cols rows (pe_surface e)\<rparr>) c)
            \<lparr>mc_requests := mc_requests c @ [Resize_session (sr_sessionId (pe_record e)) cols rows]\<rparr>))"

definition request :: "mux_request \<Rightarrow> 's mux_client \<Rightarrow> 's mux_client" where
  "request q c = c\<lparr>mc_requests := mc_requests c @ [q]\<rparr>"

definition ask_write :: "(ident \<Rightarrow> mux_request) \<Rightarrow> ('s mux_client \<Rightarrow> mux_error + 's mux_client) \<Rightarrow> ident \<Rightarrow> 's mux_client \<Rightarrow> 's mux_client \<times> mux_error option" where
  "ask_write q answered i c =
     (case requirePane i c of
        Inl err \<Rightarrow> (c, Some err)
      | Inr e \<Rightarrow>
          let asked = request (q (sr_sessionId (pe_record e))) c
          in (case answered asked of Inl err \<Rightarrow> (asked, Some err) | Inr c' \<Rightarrow> (c', None)))"

definition takeoverPane :: "'s surface_ops \<Rightarrow> ident \<Rightarrow> session_record option \<Rightarrow> 's mux_client \<Rightarrow> 's mux_client \<times> mux_error option" where
  "takeoverPane ops i answer = ask_write Acquire_write (takeover_answered ops i answer) i"

definition releasePane :: "'s surface_ops \<Rightarrow> ident \<Rightarrow> session_record option \<Rightarrow> 's mux_client \<Rightarrow> 's mux_client \<times> mux_error option" where
  "releasePane ops i answer = ask_write Release_write (release_answered ops i answer) i"

text \<open>The answers of the host to one call of \<open>sendInput\<close>: to the takeover before, the input, the takeover after, the second input.\<close>

datatype send_answer = Sent | Owned_elsewhere | Send_failed

record send_answers =
  sa_before :: "session_record option"
  sa_first :: send_answer
  sa_after :: "session_record option"
  sa_second :: send_answer

definition may_take_over :: "'s pane_entry \<Rightarrow> bool" where
  "may_take_over e \<longleftrightarrow> \<not> pe_requestedReadOnly e \<and> pe_paneKind e = Kind_runtime"

definition send_text :: "'s surface_ops \<Rightarrow> ident \<Rightarrow> string \<Rightarrow> send_answers \<Rightarrow> 's mux_client \<Rightarrow> 's mux_client \<times> mux_error option" where
  "send_text ops i data ans c =
     (case requirePane i c of
        Inl err \<Rightarrow> (c, Some err)
      | Inr e \<Rightarrow>
          if pe_accessMode e = Read_only then (c, Some (Pane_read_only i))
          else
            let send = request (Send_text (sr_sessionId (pe_record e)) data)
            in (case sa_first ans of
                  Sent \<Rightarrow> (send c, None)
                | Send_failed \<Rightarrow> (send c, Some Request_failed)
                | Owned_elsewhere \<Rightarrow>
                    if may_take_over e
                    then (case takeoverPane ops i (sa_after ans) (send c) of
                            (c', Some err) \<Rightarrow> (c', Some err)
                          | (c', None) \<Rightarrow>
                              (case requirePane i c' of
                                 Inl err \<Rightarrow> (c', Some err)
                               | Inr e' \<Rightarrow> (request (Send_text (sr_sessionId (pe_record e')) data) c', if sa_second ans = Sent then None else Some Request_failed)))
                    else (send c, Some Request_failed)))"

definition sendInput :: "'s surface_ops \<Rightarrow> ident \<Rightarrow> string \<Rightarrow> send_answers \<Rightarrow> 's mux_client \<Rightarrow> 's mux_client \<times> mux_error option" where
  "sendInput ops i data ans c =
     (case requirePane i c of
        Inl err \<Rightarrow> (c, Some err)
      | Inr e \<Rightarrow>
          if pe_accessMode e = Read_only \<and> may_take_over e
          then (case takeoverPane ops i (sa_before ans) c of (c', Some err) \<Rightarrow> (c', Some err) | (c', None) \<Rightarrow> send_text ops i data ans c')
          else send_text ops i data ans c)"

section \<open>Closing the client\<close>

text \<open>\<open>fails\<close>: the host does not take the request. A failed release skips the detach of the same pane.\<close>

definition close_requests :: "(mux_request \<Rightarrow> bool) \<Rightarrow> 's mux_client \<Rightarrow> 's pane_entry \<Rightarrow> mux_request list" where
  "close_requests fails c e =
     (let sid = sr_sessionId (pe_record e);
          owner = (case sr_writeOwner (pe_record e) of Some ow \<Rightarrow> wo_clientId ow = mc_clientId c | None \<Rightarrow> False);
          detach = (if length (runtime_panes sid c) = 1 then [Detach_session sid] else [])
      in if owner then Release_write sid # (if fails (Release_write sid) then [] else detach) else detach)"

definition closeClient :: "(mux_request \<Rightarrow> bool) \<Rightarrow> 's mux_client \<Rightarrow> 's mux_client" where
  "closeClient fails c = c\<lparr>mc_paneById := [], mc_paneIdsByRuntime := [], mc_workspaceById := [],
     mc_requests := mc_requests c @ concat (map (close_requests fails c \<circ> snd) (mc_paneById c))\<rparr>"

section \<open>What the workspaces show\<close>

definition displays :: "'s surface_ops \<Rightarrow> (ident \<times> 's pane_entry) list \<Rightarrow> workspace \<Rightarrow> bool" where
  "displays ops entries ws \<longleftrightarrow> (\<forall>i p. map_of (wk_panes ws) i = Some p \<longrightarrow> (\<exists>e. map_of entries i = Some e \<and> p = entry_pane ops i e))"

definition synced :: "'s surface_ops \<Rightarrow> 's mux_client \<Rightarrow> bool" where
  "synced ops c \<longleftrightarrow> (\<forall>(w, ws)\<in>set (mc_workspaceById c). displays ops (mc_paneById c) ws)"

lemma entry_pane_id [simp]: "pn_paneId (entry_pane ops i e) = i"
  by (simp add: entry_pane_def paneFromRecord_def)

lemma refresh_shows:
  assumes "displays ops entries ws"
  shows "displays ops (AList.update i e entries) (refresh (entry_pane ops i e) ws)"
  using assms unfolding displays_def by (auto simp: refresh_def updateMuxPane_def has_pane_def update_conv')

lemma publish_panes: "mc_paneById (publish_known ops i c) = mc_paneById c"
  by (auto simp: publish_known_def publishPaneUpdate_def Let_def split: sum.splits)

lemma publish_put:
  "mc_workspaceById (publish_known ops i (put_pane i e c)) = map (\<lambda>(w, ws). (w, refresh (entry_pane ops i e) ws)) (mc_workspaceById c)"
  "mc_paneById (publish_known ops i (put_pane i e c)) = AList.update i e (mc_paneById c)"
  by (simp_all add: publish_panes put_pane_def publish_known_def publishPaneUpdate_def requirePane_def update_conv' Let_def)

lemma put_synced:
  assumes "synced ops c"
  shows "synced ops (publish_known ops i (put_pane i e c))"
  using assms by (force simp: synced_def publish_put intro: refresh_shows)

lemma event_synced: "synced ops c \<Longrightarrow> synced ops (event_on ops ev i c)"
  by (simp add: event_on_def put_synced split: option.split)

text \<open>
  C26. The workspaces follow the host. If every workspace shows each of its panes as the client's own entry
  for it (record, access mode and viewport), it still does after the client has handled an event of the
  session host, whatever the event.
\<close>

theorem host_event_synced:
  assumes "synced ops c"
  shows "synced ops (handleHostEvent ops sessionId ev c)"
proof -
  have "synced ops (foldl (\<lambda>c i. event_on ops ev i c) c is)" if "synced ops c" for c and "is" :: "ident list"
    using that by (induction "is" arbitrary: c) (simp_all add: event_synced)
  then show ?thesis using assms by (simp add: handleHostEvent_def)
qed

text \<open>A pane that was asked for as read-only, or a mirror, types nothing while it is read-only.\<close>

lemma read_only_types_nothing:
  assumes "map_of (mc_paneById c) i = Some e" "pe_accessMode e = Read_only" "\<not> may_take_over e"
  shows "sendInput ops i data ans c = (c, Some (Pane_read_only i))"
  using assms by (simp add: sendInput_def send_text_def requirePane_def)

text \<open>
  A runtime that several panes show stays attached when the client closes: the panes of a runtime are
  counted before any of them is taken out, so the count of one that ends in a detach is never reached.
\<close>

lemma close_leaves_attached:
  assumes "length (runtime_panes sid c) \<noteq> 1" "mc_requests c = []"
  shows "Detach_session sid \<notin> set (mc_requests (closeClient fails c))"
  using assms by (auto simp: closeClient_def close_requests_def Let_def split: if_splits)

section \<open>Splits that overlap\<close>

text \<open>
  Two splits of one workspace that are under way together: both read the workspace before the first is
  stored, and the second to finish stores its own split over it. The pane of the first is in no workspace.
\<close>

theorem overlapping_splits_lose:
  assumes first: "split_finished w ws t1 ax1 p1 c = Inr (ws1, c1)" and second: "split_finished w ws t2 ax2 p2 c1 = Inr (ws2, c2)"
    and new: "\<not> has_pane ws (pn_paneId p1)" "pn_paneId p1 \<noteq> pn_paneId p2"
  shows "has_pane ws1 (pn_paneId p1) \<and> map_of (mc_workspaceById c2) w = Some ws2 \<and> \<not> has_pane ws2 (pn_paneId p1)"
  using assms by (auto simp: split_finished_def splitMuxPane_def has_pane_def put_workspace_def emit_event_def update_conv' split: if_splits)

section \<open>A client with one workspace\<close>

definition demo_surface :: "viewport surface_ops" where
  "demo_surface = \<lparr>so_new = (\<lambda>c r. \<lparr>vp_cols = c, vp_rows = r, vp_snapshotSeq = 0, vp_text = []\<rparr>), so_reset = (\<lambda>t q v. v\<lparr>vp_text := t, vp_snapshotSeq := q\<rparr>),
     so_write = (\<lambda>t q v. v\<lparr>vp_text := vp_text v @ t, vp_snapshotSeq := q\<rparr>), so_resize = (\<lambda>c r v. v\<lparr>vp_cols := c, vp_rows := r\<rparr>), so_view = (\<lambda>v. v)\<rparr>"

definition demo_session :: session_record where
  "demo_session = \<lparr>sr_sessionId = ''s'', sr_runtimeKey = ''k'', sr_displayName = ''n'', sr_workspaceLabel = ''l'', sr_providerType = ''p'', sr_category = Cat_cli,
     sr_workspace = ''/w'', sr_launchCommand = \<lparr>lc_command = ''c'', lc_args = [], lc_env = None, lc_launchOverrides = False\<rparr>, sr_osPid = None, sr_createdAt = 0,
     sr_startedAt = None, sr_lastActivityAt = 0, sr_lifecycle = L_starting, sr_surfaceKind = None, sr_writeOwner = None, sr_attachedClients = [],
     sr_scrollbackBytes = 0, sr_snapshotSeq = 0, sr_meta = [], sr_termination = None, sr_inputSeq = None, sr_inputEpoch = None\<rparr>"

definition demo_client :: "viewport mux_client" where
  "demo_client =
     (case open_finished demo_surface \<lparr>op_readOnly = False, op_takeover = False, op_cols = None, op_rows = None, op_paneId = None\<rparr> False ''a'' (Some demo_session) (Some (''hi'', 1))
             \<lparr>mc_clientId = ''me'', mc_paneById = [], mc_paneIdsByRuntime = [], mc_workspaceById = [], mc_emitted = [], mc_requests = []\<rparr> of
        Inr (p, c) \<Rightarrow> snd (createWorkspace p (Some ''w'') None ''u'' c)
      | Inl _ \<Rightarrow> undefined)"

theorem host_event_synced_witness:
  "synced demo_surface (handleHostEvent demo_surface (Some ''s'') (He_output ''there'' 2) demo_client)
   \<and> map (\<lambda>(_, ws). map (\<lambda>(i, p). (i, vp_text (pn_viewport p))) (wk_panes ws))
       (mc_workspaceById (handleHostEvent demo_surface (Some ''s'') (He_output ''there'' 2) demo_client)) = [[(''a'', ''hithere'')]]"
proof -
  have "map (\<lambda>(_, ws). map (\<lambda>(i, p). (i, vp_text (pn_viewport p))) (wk_panes ws))
       (mc_workspaceById (handleHostEvent demo_surface (Some ''s'') (He_output ''there'' 2) demo_client)) = [[(''a'', ''hithere'')]]"
    by code_simp
  moreover have "synced demo_surface demo_client"
    by (simp add: synced_def displays_def demo_client_def open_finished_def createWorkspace_def createMuxWorkspace_def put_workspace_def put_pane_def
        emit_event_def add_runtime_pane_def Let_def or_value_def)
  ultimately show ?thesis using host_event_synced by blast
qed

end
