(* ===== verification/Semver.thy ===== *)
theory Semver
  imports JsText "HOL-Library.Product_Lexorder" "HOL-Library.List_Lexorder" "HOL-Library.Char_ord"
begin

text \<open>
  \<open>mesh-shared/src/semver-compare.ts\<close>: the version ordering that decides whether an update would be a
  downgrade. The regular expression is read off as the parser it denotes: the build part starts at
  the first \<open>+\<close>, the prerelease part at the first \<open>-\<close> before it, since neither character can occur
  earlier in a match. The comparison is then shown to be the linear order of semver precedence.
\<close>

record parsed_semver =
  sv_major :: int
  sv_minor :: int
  sv_patch :: int
  sv_prerelease :: "string list"

section \<open>Parsing\<close>

definition ident_char :: "char \<Rightarrow> bool" where
  "ident_char c \<longleftrightarrow>
     (let n = of_char c :: nat
      in 48 \<le> n \<and> n \<le> 57 \<or> 65 \<le> n \<and> n \<le> 90 \<or> 97 \<le> n \<and> n \<le> 122 \<or> n = 45)"

definition NUMERIC_IDENTIFIER :: "string \<Rightarrow> bool" where
  "NUMERIC_IDENTIFIER s \<longleftrightarrow> s \<noteq> [] \<and> list_all digit_char s"

text \<open>\<open>[0-9A-Za-z-]+(\.[0-9A-Za-z-]+)*\<close>\<close>

definition dotted_idents :: "string \<Rightarrow> bool" where
  "dotted_idents s \<longleftrightarrow> list_all (\<lambda>p. p \<noteq> [] \<and> list_all ident_char p) (split_on CHR ''.'' s)"

definition cut_at :: "char \<Rightarrow> string \<Rightarrow> string \<times> string option" where
  "cut_at c s = (takeWhile ((\<noteq>) c) s,
     case dropWhile ((\<noteq>) c) s of [] \<Rightarrow> None | _ # rest \<Rightarrow> Some rest)"

definition part_ok :: "string option \<Rightarrow> bool" where
  "part_ok p = (case p of None \<Rightarrow> True | Some s \<Rightarrow> dotted_idents s)"

definition match_semver :: "string \<Rightarrow> parsed_semver option" where
  "match_semver s =
     (let (front, build) = cut_at CHR ''+'' s; (core, pre) = cut_at CHR ''-'' front
      in if \<not> part_ok build \<or> \<not> part_ok pre then None
         else case split_on CHR ''.'' core of
             [ma, mi, pa] \<Rightarrow>
               if NUMERIC_IDENTIFIER ma \<and> NUMERIC_IDENTIFIER mi \<and> NUMERIC_IDENTIFIER pa
               then Some \<lparr>sv_major = js_number ma, sv_minor = js_number mi, sv_patch = js_number pa,
                          sv_prerelease = (case pre of None \<Rightarrow> [] | Some p \<Rightarrow> split_on CHR ''.'' p)\<rparr>
               else None
           | _ \<Rightarrow> None)"

text \<open>A version is \<open>unknown\<close> in the source; \<open>None\<close> stands for a value that is not a string.\<close>

definition strip_v :: "string \<Rightarrow> string" where
  "strip_v s = (case s of c # cs \<Rightarrow> if c = CHR ''v'' then cs else s | [] \<Rightarrow> s)"

definition parseSemver :: "string option \<Rightarrow> parsed_semver option" where
  "parseSemver version =
     (case version of None \<Rightarrow> None | Some s \<Rightarrow> match_semver (strip_v (js_trim s)))"

section \<open>Comparison\<close>

text \<open>The loop over the common positions, then the lengths.\<close>

fun compare_idents :: "string list \<Rightarrow> string list \<Rightarrow> int" where
  "compare_idents (idA # as) (idB # bs) =
     (if idA = idB then compare_idents as bs
      else if NUMERIC_IDENTIFIER idA \<and> NUMERIC_IDENTIFIER idB
        then (if js_number idA < js_number idB then -1 else 1)
      else if NUMERIC_IDENTIFIER idA then -1
      else if NUMERIC_IDENTIFIER idB then 1
      else if idA < idB then -1 else 1)"
| "compare_idents [] [] = 0"
| "compare_idents [] (_ # _) = -1"
| "compare_idents (_ # _) [] = 1"

definition comparePrerelease :: "string list \<Rightarrow> string list \<Rightarrow> int" where
  "comparePrerelease a b =
     (if a = [] \<and> b = [] then 0 else if a = [] then 1 else if b = [] then -1 else compare_idents a b)"

definition compareSemver :: "string option \<Rightarrow> string option \<Rightarrow> int option" where
  "compareSemver a b =
     (case (parseSemver a, parseSemver b) of
        (Some pa, Some pb) \<Rightarrow> Some
          (if sv_major pa \<noteq> sv_major pb then (if sv_major pa < sv_major pb then -1 else 1)
           else if sv_minor pa \<noteq> sv_minor pb then (if sv_minor pa < sv_minor pb then -1 else 1)
           else if sv_patch pa \<noteq> sv_patch pb then (if sv_patch pa < sv_patch pb then -1 else 1)
           else comparePrerelease (sv_prerelease pa) (sv_prerelease pb))
      | _ \<Rightarrow> None)"

definition isDowngrade :: "string option \<Rightarrow> string option \<Rightarrow> bool" where
  "isDowngrade current target = (case compareSemver target current of None \<Rightarrow> False | Some d \<Rightarrow> d < 0)"

section \<open>Precedence as a linear order\<close>

text \<open>Numeric identifiers rank below alphanumeric ones, each kind by its own order.\<close>

datatype pre_ident = Numeric int | Alnum string

instantiation pre_ident :: linorder
begin

fun less_eq_pre_ident :: "pre_ident \<Rightarrow> pre_ident \<Rightarrow> bool" where
  "less_eq_pre_ident (Numeric m) (Numeric n) = (m \<le> n)"
| "less_eq_pre_ident (Numeric _) (Alnum _) = True"
| "less_eq_pre_ident (Alnum _) (Numeric _) = False"
| "less_eq_pre_ident (Alnum s) (Alnum t) = (s \<le> t)"

definition less_pre_ident :: "pre_ident \<Rightarrow> pre_ident \<Rightarrow> bool" where
  "less_pre_ident x y \<longleftrightarrow> x \<le> y \<and> \<not> y \<le> x"

instance
proof
  fix x y z :: pre_ident
  show "x < y \<longleftrightarrow> x \<le> y \<and> \<not> y \<le> x" by (rule less_pre_ident_def)
  show "x \<le> x" by (cases x) simp_all
  show "x \<le> y \<Longrightarrow> y \<le> z \<Longrightarrow> x \<le> z" by (cases x; cases y; cases z) auto
  show "x \<le> y \<Longrightarrow> y \<le> x \<Longrightarrow> x = y" by (cases x; cases y) auto
  show "x \<le> y \<or> y \<le> x" by (cases x; cases y) auto
qed

end

lemma less_pre_ident_simps [simp]:
  "Numeric m < Numeric n \<longleftrightarrow> m < n" "Numeric m < Alnum s" "\<not> Alnum s < Numeric m" "Alnum s < Alnum t \<longleftrightarrow> s < t"
  by (auto simp: less_pre_ident_def)

definition pre_ident :: "string \<Rightarrow> pre_ident" where
  "pre_ident s = (if NUMERIC_IDENTIFIER s then Numeric (js_number s) else Alnum s)"

text \<open>A release outranks its prereleases; a prerelease ranks by its identifiers, a shorter list first.\<close>

definition precedence :: "parsed_semver \<Rightarrow> int \<times> int \<times> int \<times> bool \<times> pre_ident list" where
  "precedence v = (sv_major v, sv_minor v, sv_patch v, sv_prerelease v = [], map pre_ident (sv_prerelease v))"

text \<open>No leading zeros (semver, section 9) and exactly representable numbers.\<close>

definition canonical_ident :: "string \<Rightarrow> bool" where
  "canonical_ident s \<longleftrightarrow>
     (NUMERIC_IDENTIFIER s \<longrightarrow> (length s = 1 \<or> hd s \<noteq> CHR ''0'') \<and> digits_value s < TWO_53)"

definition canonical :: "parsed_semver \<Rightarrow> bool" where
  "canonical v \<longleftrightarrow> list_all canonical_ident (sv_prerelease v)"

definition order_sign :: "'a::linorder \<Rightarrow> 'a \<Rightarrow> int" where
  "order_sign x y = (if x < y then -1 else if x = y then 0 else 1)"

locale sign_comparison =
  fixes compare :: "'v \<Rightarrow> 'v \<Rightarrow> int option" and rank :: "'v \<Rightarrow> 'k::linorder option" and ok :: "'v \<Rightarrow> bool"
  assumes compare_rank: "ok a \<Longrightarrow> ok b \<Longrightarrow>
    compare a b = (case (rank a, rank b) of (Some x, Some y) \<Rightarrow> Some (order_sign x y) | _ \<Rightarrow> None)"
begin

lemma compare_antisym: "ok a \<Longrightarrow> ok b \<Longrightarrow> compare b a = map_option uminus (compare a b)"
  by (auto simp: compare_rank order_sign_def split: option.splits)

lemma compare_trans:
  "ok a \<Longrightarrow> ok b \<Longrightarrow> ok c \<Longrightarrow> compare a b = Some x \<Longrightarrow> x \<le> 0 \<Longrightarrow> compare b c = Some y \<Longrightarrow> y < 0
   \<Longrightarrow> compare a c = Some (-1)"
  by (auto simp: compare_rank order_sign_def split: option.splits if_splits)

lemma compare_refl: "ok a \<Longrightarrow> rank a \<noteq> None \<Longrightarrow> compare a a = Some 0"
  by (auto simp: compare_rank order_sign_def split: option.splits)

end

section \<open>Canonical numbers are told apart\<close>

lemma of_char_inj: "(of_char c :: int) = of_char d \<longleftrightarrow> c = d"
  by (metis char_of_char)

lemma digit_char_int: "digit_char c \<longleftrightarrow> 48 \<le> (of_char c :: int) \<and> (of_char c :: int) \<le> 57"
  by (auto simp: digit_char_def of_char_int)

lemma digits_value_nonneg: "list_all digit_char s \<Longrightarrow> 0 \<le> digits_value s"
  by (induction s rule: rev_induct) (auto simp: digits_value_snoc digit_char_int digits_value_nil)

lemma digits_value_pos:
  "s \<noteq> [] \<Longrightarrow> list_all digit_char s \<Longrightarrow> hd s \<noteq> CHR ''0'' \<Longrightarrow> 0 < digits_value s"
proof (induction s rule: rev_induct)
  case (snoc c s)
  then have c: "digit_char c" "list_all digit_char s" by simp_all
  show ?case
  proof (cases "s = []")
    case True
    have "(of_char c :: int) \<noteq> of_char CHR ''0''" using snoc.prems True unfolding of_char_inj by simp
    then have "48 < (of_char c :: int)" using c(1) by (simp add: digit_char_int)
    with True show ?thesis by (simp add: digits_value_def)
  next
    case False
    with snoc have "0 < digits_value s" by simp
    with c(1) show ?thesis by (simp add: digits_value_snoc digit_char_int)
  qed
qed simp

definition lead :: "string \<Rightarrow> bool" where
  "lead s \<longleftrightarrow> list_all digit_char s \<and> (s \<noteq> [] \<longrightarrow> hd s \<noteq> CHR ''0'')"

lemma lead_zero: "lead s \<Longrightarrow> digits_value s = 0 \<longleftrightarrow> s = []"
  using digits_value_pos[of s] by (cases "s = []") (auto simp: lead_def)

lemma digit_mod:
  assumes "digit_char c" "digit_char d" "10 * m + (of_char c - 48) = 10 * n + (of_char d - 48 :: int)"
  shows "m = n \<and> c = d"
proof -
  have m: "m = n" using assms unfolding digit_char_int by linarith
  with assms(3) have "(of_char c :: int) = of_char d" by simp
  with m show ?thesis unfolding of_char_inj by blast
qed

lemma digits_value_inj: "lead s \<Longrightarrow> lead t \<Longrightarrow> digits_value s = digits_value t \<Longrightarrow> s = t"
proof (induction s arbitrary: t rule: rev_induct)
  case Nil
  then show ?case using lead_zero[of t] by simp
next
  case (snoc c s)
  from snoc.prems have "t \<noteq> []" using lead_zero[of "s @ [c]"] lead_zero[of t] by auto
  then obtain d t' where t: "t = t' @ [d]" by (metis rev_exhaust)
  with snoc.prems have "digit_char c" "digit_char d" by (simp_all add: lead_def)
  with snoc.prems t have e: "digits_value s = digits_value t'" "c = d"
    using digit_mod[of c d "digits_value s" "digits_value t'"] by (simp_all add: digits_value_snoc)
  have "lead s" if "lead (s @ [x])" for s x using that by (cases s) (auto simp: lead_def)
  then have "lead s" "lead t'" using snoc.prems t by blast+
  then have "s = t'" using snoc.IH e(1) by blast
  with e(2) t show ?case by blast
qed

lemma canonical_ident_inj:
  assumes "NUMERIC_IDENTIFIER s" "NUMERIC_IDENTIFIER t" "canonical_ident s" "canonical_ident t" "js_number s = js_number t"
  shows "s = t"
proof -
  have v: "digits_value s = digits_value t" using assms by (simp add: canonical_ident_def js_number_def js_double_exact)
  have z: "u = ''0''" if "NUMERIC_IDENTIFIER u" "canonical_ident u" "hd u = CHR ''0''" for u
    using that by (cases u) (auto simp: canonical_ident_def NUMERIC_IDENTIFIER_def)
  have l: "lead u" if "NUMERIC_IDENTIFIER u" "hd u \<noteq> CHR ''0''" for u
    using that by (simp add: lead_def NUMERIC_IDENTIFIER_def)
  have z0: "digits_value ''0'' = 0" by (simp add: digits_value_def)
  show ?thesis
  proof (cases "hd s = CHR ''0'' \<or> hd t = CHR ''0''")
    case True
    then show ?thesis
      using z[OF assms(1,3)] z[OF assms(2,4)] l[OF assms(1)] l[OF assms(2)] v z0 lead_zero assms(1,2)
      by (metis NUMERIC_IDENTIFIER_def)
  next
    case False
    then show ?thesis using digits_value_inj[OF l[OF assms(1)] l[OF assms(2)] v] by simp
  qed
qed

lemma pre_ident_inj: "canonical_ident s \<Longrightarrow> canonical_ident t \<Longrightarrow> pre_ident s = pre_ident t \<Longrightarrow> s = t"
  using canonical_ident_inj[of s t] by (auto simp: pre_ident_def split: if_splits)

lemma compare_idents_sign:
  "list_all canonical_ident as \<Longrightarrow> list_all canonical_ident bs \<Longrightarrow>
   compare_idents as bs = order_sign (map pre_ident as) (map pre_ident bs)"
proof (induction as bs rule: compare_idents.induct)
  case (1 idA as idB bs)
  show ?case
  proof (cases "idA = idB")
    case True
    with 1 show ?thesis by (simp add: order_sign_def)
  next
    case False
    then have "pre_ident idA \<noteq> pre_ident idB" using 1 pre_ident_inj by auto
    with False show ?thesis by (auto simp: order_sign_def pre_ident_def)
  qed
qed (simp_all add: order_sign_def)

text \<open>The versions on which the ordering is promised: unparsable, or with canonical identifiers.\<close>

definition orderly :: "string option \<Rightarrow> bool" where
  "orderly a = (case parseSemver a of None \<Rightarrow> True | Some v \<Rightarrow> canonical v)"

definition rank :: "string option \<Rightarrow> (int \<times> int \<times> int \<times> bool \<times> pre_ident list) option" where
  "rank a = map_option precedence (parseSemver a)"

lemma comparePrerelease_sign:
  "list_all canonical_ident as \<Longrightarrow> list_all canonical_ident bs \<Longrightarrow>
   comparePrerelease as bs = order_sign (as = [], map pre_ident as) (bs = [], map pre_ident bs)"
  by (auto simp: comparePrerelease_def compare_idents_sign order_sign_def)

interpretation semver: sign_comparison compareSemver rank orderly
proof
  fix a b
  assume "orderly a" "orderly b"
  then show "compareSemver a b = (case (rank a, rank b) of (Some x, Some y) \<Rightarrow> Some (order_sign x y) | _ \<Rightarrow> None)"
    by (auto simp: compareSemver_def orderly_def rank_def canonical_def precedence_def
        comparePrerelease_sign order_sign_def split: option.splits)
qed

text \<open>
  C40. The version comparison is semver precedence. On versions whose numeric identifiers have no
  leading zeros and are exactly representable, comparing gives the sign of the linear order of
  precedence (numeric fields first, a release above its prereleases, numeric identifiers below
  alphanumeric ones, a shorter identifier list first), and no answer exactly when one side does not
  parse; so a target is a downgrade exactly when both parse and it ranks strictly below the current one.
\<close>

theorem semver_precedence:
  assumes "orderly a" "orderly b"
  shows "compareSemver a b =
      (case (rank a, rank b) of (Some x, Some y) \<Rightarrow> Some (if x < y then -1 else if x = y then 0 else 1) | _ \<Rightarrow> None)
    \<and> (isDowngrade b a \<longleftrightarrow> (\<exists>x y. rank a = Some x \<and> rank b = Some y \<and> x < y))
    \<and> compareSemver b a = map_option uminus (compareSemver a b)"
  using semver.compare_rank[OF assms] semver.compare_antisym[OF assms]
  by (auto simp: isDowngrade_def order_sign_def split: option.splits if_splits)

theorem semver_precedence_witness:
  "compareSemver (Some ''1.0.49-rc.10'') (Some ''v1.0.49-rc.9'') = Some 1
   \<and> compareSemver (Some ''v1.0.49-rc.9'') (Some ''1.0.49-rc.10'') = Some (-1)"
proof -
  have "orderly (Some ''1.0.49-rc.10'')" "orderly (Some ''v1.0.49-rc.9'')" by code_simp+
  moreover have "compareSemver (Some ''1.0.49-rc.10'') (Some ''v1.0.49-rc.9'') = Some 1" by code_simp
  ultimately show ?thesis using semver_precedence[of "Some ''1.0.49-rc.10''" "Some ''v1.0.49-rc.9''"] by simp
qed

text \<open>
  The restriction to canonical identifiers is needed: two spellings of one number are each ranked
  above the other, so the comparison is not an order on versions with leading zeros.
\<close>

lemma semver_leading_zero:
  "compareSemver (Some ''1.0.0-rc.01'') (Some ''1.0.0-rc.1'') = Some 1
   \<and> compareSemver (Some ''1.0.0-rc.1'') (Some ''1.0.0-rc.01'') = Some 1"
  by code_simp

end
