(* ===== verification/PathOwnership.thy ===== *)
theory PathOwnership
  imports JsText
begin

text \<open>
  \<open>mesh-shared/src/path-ownership.ts\<close>: the declared file ownership of code-changing tasks.
  Declarations are normalised to repository-relative paths, optionally whole subtrees, and compared.
  The comparison works on strings; it is shown to decide whether two declarations own a common path,
  where a path is a list of segments and a subtree owns every path it is a prefix of.

  A raw entry is \<open>unknown\<close> in the source: a string, or another value, of which only its \<open>String(..)\<close>
  form is used.
\<close>

datatype raw_value = RawString string | RawOther string
datatype raw_input = RawMissing | RawArray "raw_value list" | RawNotArray string

record owned_path_entry =
  op_path :: string
  op_subtree :: bool

type_synonym owned_paths_declaration = "owned_path_entry list"

datatype reject_reason =
  Not_a_string | Empty | Absolute_path | Parent_traversal | Unsupported_glob | Not_an_array | Over_cap

type_synonym rejection = "string \<times> reject_reason"

definition MAX_OWNED_PATHS :: nat where "MAX_OWNED_PATHS = 64"

definition SLASH :: char where "SLASH = CHR ''/''"

section \<open>Normalisation\<close>

definition toPosix :: "string \<Rightarrow> string" where
  "toPosix raw = map (\<lambda>c. if c = char_of (92::nat) then SLASH else c) raw"

definition letter :: "char \<Rightarrow> bool" where
  "letter c \<longleftrightarrow> (let n = of_char c :: nat in 65 \<le> n \<and> n \<le> 90 \<or> 97 \<le> n \<and> n \<le> 122)"

fun drive_prefix :: "string \<Rightarrow> bool" where
  "drive_prefix (a # b # c # _) = (letter a \<and> b = CHR '':'' \<and> c = SLASH)"
| "drive_prefix _ = False"

definition absolute :: "string \<Rightarrow> bool" where
  "absolute p \<longleftrightarrow> starts_with [SLASH] p \<or> drive_prefix p \<or> starts_with ''~'' p"

text \<open>\<open>replace(/^\.\/+/, '')\<close>\<close>

definition strip_dot :: "string \<Rightarrow> string" where
  "strip_dot p = (if starts_with [CHR ''.'', SLASH] p then dropWhile ((=) SLASH) (tl p) else p)"

definition segments :: "string \<Rightarrow> string list" where
  "segments p = filter (\<lambda>s. s \<noteq> []) (split_on SLASH p)"

definition glob_char :: "char \<Rightarrow> bool" where
  "glob_char c \<longleftrightarrow> c = CHR ''*'' \<or> c = CHR ''?''"

definition normalizeOne :: "raw_value \<Rightarrow> rejection + owned_path_entry" where
  "normalizeOne v =
     (case v of
        RawOther shown \<Rightarrow> Inl (shown, Not_a_string)
      | RawString raw \<Rightarrow>
          let trimmed = js_trim raw; posix = toPosix trimmed
          in if trimmed = [] then Inl (raw, Empty)
             else if absolute posix then Inl (raw, Absolute_path)
             else let segs = segments (strip_dot posix)
             in if ''..'' \<in> set segs then Inl (raw, Parent_traversal)
             else if segs = [] then Inl (raw, Empty)
             else let subtree = (last segs = ''**''); kept = (if subtree then butlast segs else segs)
             in if list_ex (list_ex glob_char) kept then Inl (raw, Unsupported_glob)
             else Inr \<lparr>op_path = join_with [SLASH] kept, op_subtree = subtree\<rparr>)"

text \<open>One iteration of the loop: the rejections and the insertion-ordered map by path.\<close>

definition add_entry :: "rejection list \<times> (string \<times> owned_path_entry) list \<Rightarrow> raw_value
    \<Rightarrow> rejection list \<times> (string \<times> owned_path_entry) list" where
  "add_entry acc raw =
     (case normalizeOne raw of
        Inl r \<Rightarrow> (fst acc @ [r], snd acc)
      | Inr e \<Rightarrow>
          (fst acc,
           case map_of (snd acc) (op_path e) of
             None \<Rightarrow> AList.update (op_path e) e (snd acc)
           | Some x \<Rightarrow> if op_subtree e \<and> \<not> op_subtree x then AList.update (op_path e) e (snd acc) else snd acc))"

definition normalizeOwnedPaths :: "raw_input \<Rightarrow> owned_paths_declaration \<times> rejection list" where
  "normalizeOwnedPaths input =
     (case input of
        RawMissing \<Rightarrow> ([], [])
      | RawNotArray shown \<Rightarrow> ([], [(shown, Not_an_array)])
      | RawArray raws \<Rightarrow>
          let (rejected, byPath) = foldl add_entry ([], []) raws; all = map snd byPath
          in (take MAX_OWNED_PATHS all,
              rejected @ map (\<lambda>e. (op_path e, Over_cap)) (drop MAX_OWNED_PATHS all)))"

section \<open>Comparison\<close>

definition entryContains :: "owned_path_entry \<Rightarrow> string \<Rightarrow> bool" where
  "entryContains base path \<longleftrightarrow>
     path = op_path base
     \<or> op_subtree base \<and> (op_path base = [] \<or> starts_with (op_path base @ [SLASH]) path)"

definition entriesOverlap :: "owned_path_entry \<Rightarrow> owned_path_entry \<Rightarrow> bool" where
  "entriesOverlap a b \<longleftrightarrow> entryContains a (op_path b) \<or> entryContains b (op_path a)"

definition pathsOverlap :: "owned_paths_declaration \<Rightarrow> owned_paths_declaration \<Rightarrow> bool" where
  "pathsOverlap a b \<longleftrightarrow>
     (if a = [] \<or> b = [] then False else list_ex (\<lambda>pa. list_ex (entriesOverlap pa) b) a)"

record in_flight_ownership =
  if_taskId :: ident
  if_paths :: owned_paths_declaration

record ownership_conflict =
  oc_taskId :: ident
  oc_overlappingPaths :: "string list"

definition narrower :: "owned_path_entry \<Rightarrow> owned_path_entry \<Rightarrow> string" where
  "narrower pa pb = (if length (op_path pa) \<ge> length (op_path pb) then op_path pa else op_path pb)"

definition push_new :: "string list \<Rightarrow> string \<Rightarrow> string list" where
  "push_new xs x = (if x \<in> set xs then xs else xs @ [x])"

definition overlapping_paths :: "owned_paths_declaration \<Rightarrow> owned_paths_declaration \<Rightarrow> string list" where
  "overlapping_paths a b =
     foldl push_new [] [narrower pa pb. pa \<leftarrow> a, pb \<leftarrow> b, entriesOverlap pa pb]"

definition findOwnershipConflicts ::
  "owned_paths_declaration \<Rightarrow> in_flight_ownership list \<Rightarrow> ownership_conflict list" where
  "findOwnershipConflicts candidate inFlight =
     (if candidate = [] then []
      else [\<lparr>oc_taskId = if_taskId t, oc_overlappingPaths = overlapping_paths candidate (if_paths t)\<rparr>.
              t \<leftarrow> inFlight, if_paths t \<noteq> [] \<and> overlapping_paths candidate (if_paths t) \<noteq> []])"

text \<open>Touched files against the declaration: the paths outside it and the entries nothing matched.\<close>

definition touch :: "owned_paths_declaration \<Rightarrow> string list \<times> string list \<Rightarrow> string \<Rightarrow> string list \<times> string list" where
  "touch owned acc raw =
     (case normalizeOne (RawString raw) of
        Inl _ \<Rightarrow> (fst acc @ [raw], snd acc)
      | Inr e \<Rightarrow>
          let matches = filter (\<lambda>b. entryContains b (op_path e)) owned
          in if matches = [] then (fst acc @ [op_path e], snd acc)
             else (fst acc, snd acc @ map op_path matches))"

definition touchedFilesOutsideOwnership :: "string list \<Rightarrow> owned_paths_declaration \<Rightarrow> string list \<times> string list" where
  "touchedFilesOutsideOwnership touched owned =
     (let (undeclared, used) = foldl (touch owned) ([], []) touched
      in (undeclared, filter (\<lambda>p. p \<notin> set used) (map op_path owned)))"

section \<open>What a declaration owns\<close>

text \<open>A clean segment: not empty, no separator, no glob character, not the parent directory.\<close>

definition clean_segment :: "string \<Rightarrow> bool" where
  "clean_segment s \<longleftrightarrow> s \<noteq> [] \<and> SLASH \<notin> set s \<and> \<not> list_ex glob_char s \<and> s \<noteq> ''..''"

definition clean_entry :: "owned_path_entry \<Rightarrow> bool" where
  "clean_entry e \<longleftrightarrow> (\<exists>ss. op_path e = join_with [SLASH] ss \<and> list_all clean_segment ss \<and> (ss = [] \<longrightarrow> op_subtree e))"

definition owned_set :: "owned_path_entry \<Rightarrow> string list set" where
  "owned_set e = (if op_subtree e then {p. prefix (segments (op_path e)) p} else {segments (op_path e)})"

lemma clean_parts: "list_all clean_segment ss \<Longrightarrow> \<forall>s\<in>set ss. SLASH \<notin> set s"
  by (auto simp: list_all_iff clean_segment_def)

lemma segments_join: "list_all clean_segment ss \<Longrightarrow> segments (join_with [SLASH] ss) = ss"
proof (cases "ss = []")
  case False
  assume c: "list_all clean_segment ss"
  then have "filter (\<lambda>s. s \<noteq> []) ss = ss" by (auto simp: list_all_iff clean_segment_def filter_id_conv)
  with False clean_parts[OF c] show ?thesis by (simp add: segments_def split_join)
qed (simp add: segments_def)

lemma clean_entry_segments:
  "clean_entry e \<Longrightarrow> list_all clean_segment (segments (op_path e)) \<and> join_with [SLASH] (segments (op_path e)) = op_path e
     \<and> (segments (op_path e) = [] \<longrightarrow> op_subtree e)"
  by (auto simp: clean_entry_def segments_join)

text \<open>A non-empty clean path is not the empty string.\<close>

lemma join_clean_nonempty: "list_all clean_segment ss \<Longrightarrow> ss \<noteq> [] \<Longrightarrow> join_with [SLASH] ss \<noteq> []"
  by (cases ss; cases "tl ss") (auto simp: clean_segment_def)

lemma entryContains_iff:
  assumes e: "clean_entry e" and t: "list_all clean_segment ts"
  shows "entryContains e (join_with [SLASH] ts) \<longleftrightarrow> ts \<in> owned_set e"
proof -
  let ?ss = "segments (op_path e)"
  from clean_entry_segments[OF e] have c: "list_all clean_segment ?ss" "join_with [SLASH] ?ss = op_path e" by auto
  have eq: "join_with [SLASH] ts = op_path e \<longleftrightarrow> ts = ?ss" using c segments_join[OF t] by metis
  show ?thesis
  proof (cases "?ss = [] \<or> ts = []")
    case True
    moreover have "op_path e = [] \<longleftrightarrow> ?ss = []" using c join_clean_nonempty by (metis join_with.simps(1))
    ultimately show ?thesis using eq clean_entry_segments[OF e]
      by (auto simp: entryContains_def owned_set_def starts_with_append)
  next
    case False
    then have "op_path e \<noteq> []" using c join_clean_nonempty by metis
    moreover have "starts_with (op_path e @ [SLASH]) (join_with [SLASH] ts) \<longleftrightarrow> strict_prefix ?ss ts"
      using joined_prefix_iff[of ?ss SLASH ts] False clean_parts[OF c(1)] clean_parts[OF t] c(2) by simp
    ultimately show ?thesis using eq by (auto simp: entryContains_def owned_set_def strict_prefix_def)
  qed
qed

lemma own_path: "segments (op_path e) \<in> owned_set e"
  by (simp add: owned_set_def)

lemma contains_path_iff:
  "clean_entry a \<Longrightarrow> clean_entry b \<Longrightarrow> entryContains a (op_path b) \<longleftrightarrow> segments (op_path b) \<in> owned_set a"
  using entryContains_iff[of a "segments (op_path b)"] clean_entry_segments[of b] by simp

lemma entriesOverlap_iff:
  assumes "clean_entry a" "clean_entry b"
  shows "entriesOverlap a b \<longleftrightarrow> owned_set a \<inter> owned_set b \<noteq> {}"
proof
  assume "entriesOverlap a b"
  then show "owned_set a \<inter> owned_set b \<noteq> {}"
    using assms own_path[of a] own_path[of b] by (auto simp: entriesOverlap_def contains_path_iff)
next
  assume "owned_set a \<inter> owned_set b \<noteq> {}"
  then obtain p where p: "p \<in> owned_set a" "p \<in> owned_set b" by auto
  have "segments (op_path b) \<in> owned_set a \<or> segments (op_path a) \<in> owned_set b"
    using p prefix_same_cases by (auto simp: owned_set_def split: if_splits)
  with assms show "entriesOverlap a b" by (auto simp: entriesOverlap_def contains_path_iff)
qed

text \<open>The reported path is the deeper of the two, which both entries own.\<close>

lemma prefix_join_length: "prefix ss ts \<Longrightarrow> length (join_with s ss) \<le> length (join_with s ts)"
proof -
  assume "prefix ss ts"
  then obtain u where u: "ts = ss @ u" by (auto simp: prefix_def)
  show ?thesis using join_append[of ss u s] u by (cases "ss = []"; cases "u = []") auto
qed

lemma prefix_join_eq:
  assumes "list_all clean_segment ss" "list_all clean_segment ts" "prefix ss ts"
    "length (join_with [SLASH] ss) \<ge> length (join_with [SLASH] ts)"
  shows "ss = ts"
proof (rule ccontr)
  assume n: "ss \<noteq> ts"
  with assms(3) obtain u where u: "ts = ss @ u" "u \<noteq> []" by (auto simp: prefix_def)
  with assms(2) have "join_with [SLASH] u \<noteq> []" using join_clean_nonempty by simp
  with u assms(4) join_append[of ss u "[SLASH]"] show False by (cases "ss = []") auto
qed

lemma narrower_owned:
  assumes a: "clean_entry a" and b: "clean_entry b" and o: "entriesOverlap a b"
  shows "segments (narrower a b) \<in> owned_set a \<inter> owned_set b"
proof -
  note ca = clean_entry_segments[OF a] and cb = clean_entry_segments[OF b]
  have len: "length (op_path a) \<ge> length (op_path b) \<longleftrightarrow>
      length (join_with [SLASH] (segments (op_path a))) \<ge> length (join_with [SLASH] (segments (op_path b)))"
    using ca cb by simp
  consider "segments (op_path b) \<in> owned_set a" | "segments (op_path a) \<in> owned_set b"
    using o a b by (auto simp: entriesOverlap_def contains_path_iff)
  then show ?thesis
  proof cases
    case 1
    then have p: "prefix (segments (op_path a)) (segments (op_path b))" by (auto simp: owned_set_def split: if_splits)
    have "segments (op_path a) = segments (op_path b)" if "length (op_path a) \<ge> length (op_path b)"
      using prefix_join_eq[OF _ _ p] ca cb that len by blast
    with 1 own_path[of a] own_path[of b] show ?thesis by (auto simp: narrower_def)
  next
    case 2
    then have p: "prefix (segments (op_path b)) (segments (op_path a))" by (auto simp: owned_set_def split: if_splits)
    then have "length (op_path a) \<ge> length (op_path b)" using prefix_join_length len by blast
    with 2 own_path[of a] show ?thesis by (simp add: narrower_def)
  qed
qed

text \<open>A test that decides whether two entries own a common path decides it for declarations too.\<close>

locale overlap_test =
  fixes owns :: "'e \<Rightarrow> 'p set" and ok :: "'e \<Rightarrow> bool" and overlaps :: "'e \<Rightarrow> 'e \<Rightarrow> bool"
  assumes overlaps_iff: "ok a \<Longrightarrow> ok b \<Longrightarrow> overlaps a b \<longleftrightarrow> owns a \<inter> owns b \<noteq> {}"
begin

lemma any_overlap_iff:
  "list_all ok as \<Longrightarrow> list_all ok bs \<Longrightarrow>
   list_ex (\<lambda>a. list_ex (overlaps a) bs) as \<longleftrightarrow> (\<Union>a\<in>set as. owns a) \<inter> (\<Union>b\<in>set bs. owns b) \<noteq> {}"
  by (auto simp: list_all_iff list_ex_iff overlaps_iff) blast+

lemma overlap_sym: "ok a \<Longrightarrow> ok b \<Longrightarrow> overlaps a b = overlaps b a"
  by (auto simp: overlaps_iff)

end

interpretation paths: overlap_test owned_set clean_entry entriesOverlap
  by unfold_locales (rule entriesOverlap_iff)

section \<open>Normalised declarations\<close>

lemma segments_clean: "s \<in> set (segments p) \<Longrightarrow> s \<noteq> [] \<and> SLASH \<notin> set s"
  by (auto simp: segments_def dest: split_on_parts)

lemma clean_entryI:
  assumes "set kept \<subseteq> set (segments p)" "''..'' \<notin> set (segments p)" "\<not> list_ex (list_ex glob_char) kept"
    "kept = [] \<longrightarrow> sub"
  shows "clean_entry \<lparr>op_path = join_with [SLASH] kept, op_subtree = sub\<rparr>"
proof -
  have "clean_segment s" if "s \<in> set kept" for s
    using that assms(1-3) segments_clean[of s p] by (auto simp: clean_segment_def list_ex_iff)
  with assms(4) show ?thesis by (auto simp: clean_entry_def list_all_iff)
qed

lemma normalizeOne_clean: "normalizeOne v = Inr e \<Longrightarrow> clean_entry e"
  by (auto simp: normalizeOne_def Let_def split: raw_value.splits if_splits
      intro!: clean_entryI dest: in_set_butlastD)

definition accepted :: "raw_value list \<Rightarrow> owned_path_entry list" where
  "accepted raws = [e. Inr e \<leftarrow> map normalizeOne raws]"

definition refused :: "raw_value list \<Rightarrow> rejection list" where
  "refused raws = [r. Inl r \<leftarrow> map normalizeOne raws]"

definition entries_ok :: "(string \<times> owned_path_entry) list \<Rightarrow> raw_value list \<Rightarrow> bool" where
  "entries_ok m raws \<longleftrightarrow>
     map fst m = foldl push_new [] (map op_path (accepted raws))
     \<and> (\<forall>k e. map_of m k = Some e \<longrightarrow> op_path e = k \<and> clean_entry e)
     \<and> (\<Union>e\<in>ran (map_of m). owned_set e) = (\<Union>e\<in>set (accepted raws). owned_set e)"

lemma accepted_snoc: "accepted (raws @ [r]) = accepted raws @ (case normalizeOne r of Inr e \<Rightarrow> [e] | Inl _ \<Rightarrow> [])"
  by (simp add: accepted_def split: sum.splits)

lemma refused_snoc: "refused (raws @ [r]) = refused raws @ (case normalizeOne r of Inl x \<Rightarrow> [x] | Inr _ \<Rightarrow> [])"
  by (simp add: refused_def split: sum.splits)

lemma same_path_owned: "op_path e = op_path x \<Longrightarrow> op_subtree e \<longrightarrow> op_subtree x \<Longrightarrow> owned_set e \<subseteq> owned_set x"
  by (auto simp: owned_set_def)

lemma ran_upd_union:
  assumes k: "m k = Some x" and f: "f x \<subseteq> f e"
  shows "(\<Union>y\<in>ran (m(k \<mapsto> e)). f y) = (\<Union>y\<in>ran m. f y) \<union> f e"
proof -
  have "ran (m(k \<mapsto> y)) = insert y (ran (m(k := None)))" for y
    using ran_map_upd[of "m(k := None)" k y] by simp
  moreover have "m = m(k \<mapsto> x)" using k by auto
  ultimately have "ran m = insert x (ran (m(k := None)))" "ran (m(k \<mapsto> e)) = insert e (ran (m(k := None)))" by metis+
  with f show ?thesis by auto
qed

lemma add_entry_ok:
  assumes f: "fst st = refused raws" and ok: "entries_ok (snd st) raws"
  shows "fst (add_entry st r) = refused (raws @ [r]) \<and> entries_ok (snd (add_entry st r)) (raws @ [r])"
proof (cases "normalizeOne r")
  case (Inl x)
  with ok f show ?thesis by (simp add: add_entry_def accepted_snoc refused_snoc entries_ok_def)
next
  case (Inr e)
  let ?m = "snd st"
  note ce = normalizeOne_clean[OF Inr]
  have keys: "map_of ?m k = None \<longleftrightarrow> k \<notin> set (foldl push_new [] (map op_path (accepted raws)))" for k
    using ok by (metis entries_ok_def map_of_eq_None_iff set_map)
  note step = add_entry_def accepted_snoc refused_snoc entries_ok_def update_conv' push_new_def
  show ?thesis
  proof (cases "map_of ?m (op_path e)")
    case None
    with Inr ok f ce keys[of "op_path e"] show ?thesis
      by (auto simp: step js_map.put_absent ran_map_upd)
  next
    case (Some x)
    with ok have x: "op_path x = op_path e" "x \<in> ran (map_of ?m)" by (auto simp: entries_ok_def ran_def)
    have k: "op_path e \<in> set (foldl push_new [] (map op_path (accepted raws)))" using keys[of "op_path e"] Some by simp
    show ?thesis
    proof (cases "op_subtree e \<and> \<not> op_subtree x")
      case True
      then have "owned_set x \<subseteq> owned_set e" using x by (intro same_path_owned) auto
      then have "(\<Union>y\<in>ran ((map_of ?m)(op_path e \<mapsto> e)). owned_set y) = (\<Union>y\<in>ran (map_of ?m). owned_set y) \<union> owned_set e"
        by (rule ran_upd_union[of "map_of ?m" "op_path e" x owned_set e, OF Some])
      with True Inr Some ok f ce k show ?thesis by (auto simp: step js_map.put_present)
    next
      case False
      then have "owned_set e \<subseteq> owned_set x" using x by (intro same_path_owned) auto
      then have "owned_set e \<subseteq> (\<Union>y\<in>set (accepted raws). owned_set y)"
        using x(2) ok unfolding entries_ok_def by blast
      with False Inr Some ok f ce k show ?thesis by (auto simp: step)
    qed
  qed
qed

lemma fold_entries: "fst (foldl add_entry ([], []) raws) = refused raws \<and> entries_ok (snd (foldl add_entry ([], []) raws)) raws"
proof (induction raws rule: rev_induct)
  case Nil
  then show ?case by (simp add: refused_def entries_ok_def accepted_def)
next
  case (snoc r raws)
  then show ?case using add_entry_ok by simp
qed

lemma push_new_distinct: "distinct xs \<Longrightarrow> distinct (foldl push_new xs ys)"
  by (induction ys arbitrary: xs) (auto simp: push_new_def)

lemma push_new_set: "set (foldl push_new xs ys) = set xs \<union> set ys"
  by (induction ys arbitrary: xs) (auto simp: push_new_def)

lemma normalized_array:
  "normalizeOwnedPaths (RawArray raws) = (d, rej) \<Longrightarrow>
     \<exists>m. entries_ok m raws \<and> d = take MAX_OWNED_PATHS (map snd m)
       \<and> rej = refused raws @ map (\<lambda>e. (op_path e, Over_cap)) (drop MAX_OWNED_PATHS (map snd m))"
  using fold_entries[of raws] by (auto simp: normalizeOwnedPaths_def Let_def case_prod_beta)

lemma entries_ok_facts:
  assumes ok: "entries_ok m raws"
  shows "distinct (map fst m)" "map op_path (map snd m) = map fst m" "list_all clean_entry (map snd m)"
    "(\<Union>e\<in>set (map snd m). owned_set e) = (\<Union>e\<in>set (accepted raws). owned_set e)"
proof -
  show d: "distinct (map fst m)" using ok push_new_distinct[of "[]"] by (simp add: entries_ok_def)
  have e: "op_path e = k \<and> clean_entry e" if "(k, e) \<in> set m" for k e
    using ok map_of_is_SomeI[OF d that] by (simp add: entries_ok_def)
  then show "map op_path (map snd m) = map fst m" "list_all clean_entry (map snd m)" by (auto simp: list_all_iff)
  show "(\<Union>e\<in>set (map snd m). owned_set e) = (\<Union>e\<in>set (accepted raws). owned_set e)"
    using ok ran_distinct[OF d] by (simp add: entries_ok_def)
qed

lemma normalized_clean: "normalizeOwnedPaths input = (d, rej) \<Longrightarrow> list_all clean_entry d"
proof (cases input)
  case (RawArray raws)
  assume "normalizeOwnedPaths input = (d, rej)"
  with RawArray obtain m where "entries_ok m raws" "d = take MAX_OWNED_PATHS (map snd m)" by (metis normalized_array)
  then show ?thesis using entries_ok_facts(3)[of m raws] by (auto simp: list_all_iff take_map dest: in_set_takeD)
qed (auto simp: normalizeOwnedPaths_def)

lemma clean_relative: "clean_entry e \<Longrightarrow> \<not> starts_with [SLASH] (op_path e)"
proof -
  assume "clean_entry e"
  then obtain ss where ss: "op_path e = join_with [SLASH] ss" "list_all clean_segment ss" by (auto simp: clean_entry_def)
  show ?thesis
  proof (cases ss)
    case (Cons s rest)
    then obtain c cs where "s = c # cs" "c \<noteq> SLASH" using ss(2) by (cases s) (auto simp: clean_segment_def)
    then show ?thesis using ss(1) Cons by (cases rest) (auto simp: starts_with_def)
  qed (simp add: ss(1) starts_with_def)
qed

text \<open>
  C37. A normalised declaration is faithful to its input. Its entries have distinct paths, at most the
  cap of them, each a path of clean segments (no empty segment, no parent traversal, no glob character) that does not
  begin with a slash. Nothing is dropped unreported: the report is the refusals of the raw entries followed by the paths over the
  cap, the entries and those paths together are exactly the paths of the valid raw entries, each once, and a path is over the
  cap only when the declaration is full. When the input has no more distinct paths than the cap, the declaration owns exactly the
  paths that the valid raw entries own, so collapsing duplicates never narrows a claim.
\<close>

theorem declaration_normal:
  assumes n: "normalizeOwnedPaths (RawArray raws) = (d, rej)"
  shows "distinct (map op_path d) \<and> length d \<le> 64 \<and> list_all clean_entry d \<and> list_all (\<lambda>e. \<not> starts_with [SLASH] (op_path e)) d
    \<and> (\<exists>over. rej = refused raws @ map (\<lambda>p. (p, Over_cap)) over \<and> distinct (map op_path d @ over)
         \<and> set (map op_path d @ over) = op_path ` set (accepted raws) \<and> (over = [] \<or> length d = 64))
    \<and> (card (set (map op_path (accepted raws))) \<le> 64 \<longrightarrow>
         (\<Union>e\<in>set d. owned_set e) = (\<Union>e\<in>set (accepted raws). owned_set e) \<and> rej = refused raws)"
proof -
  obtain m where m: "entries_ok m raws" "d = take MAX_OWNED_PATHS (map snd m)"
    "rej = refused raws @ map (\<lambda>e. (op_path e, Over_cap)) (drop MAX_OWNED_PATHS (map snd m))"
    using normalized_array[OF n] by auto
  note f = entries_ok_facts[OF m(1)]
  have "card (set (map fst m)) = length m" using f(1) distinct_card[of "map fst m"] by simp
  moreover have keys: "set (map fst m) = op_path ` set (accepted raws)"
    using m(1) push_new_set[of "[]"] by (simp add: entries_ok_def)
  ultimately have "d = map snd m \<and> rej = refused raws" if "card (set (map op_path (accepted raws))) \<le> 64"
    using that m(2,3) by (simp add: MAX_OWNED_PATHS_def)
  then have whole: "(\<Union>e\<in>set d. owned_set e) = (\<Union>e\<in>set (accepted raws). owned_set e) \<and> rej = refused raws"
    if "card (set (map op_path (accepted raws))) \<le> 64" using that f(4) by simp
  define over where "over = map op_path (drop MAX_OWNED_PATHS (map snd m))"
  have all: "map op_path d @ over = map fst m" unfolding m(2) over_def using f(2) by (metis append_take_drop_id map_append)
  moreover have "over = [] \<or> length d = 64" by (auto simp: over_def m(2) MAX_OWNED_PATHS_def)
  moreover have "rej = refused raws @ map (\<lambda>p. (p, Over_cap)) over" by (simp add: m(3) over_def)
  ultimately have "\<exists>over. rej = refused raws @ map (\<lambda>p. (p, Over_cap)) over \<and> distinct (map op_path d @ over)
      \<and> set (map op_path d @ over) = op_path ` set (accepted raws) \<and> (over = [] \<or> length d = 64)" using f(1) keys by metis
  moreover have "distinct (map op_path d)" using all f(1) by (metis distinct_append)
  moreover have "length d \<le> 64" by (simp add: m(2) MAX_OWNED_PATHS_def)
  moreover have "list_all (\<lambda>e. \<not> starts_with [SLASH] (op_path e)) d" using normalized_clean[OF n] clean_relative by (auto simp: list_all_iff)
  ultimately show ?thesis using normalized_clean[OF n] whole by blast
qed

theorem declaration_normal_witness:
  "(\<Union>e\<in>set (fst (normalizeOwnedPaths (RawArray [RawString ''src/a'', RawString ''src/a/**'', RawString ''/etc'']))). owned_set e)
     = {p. prefix [''src'', ''a''] p}"
proof -
  let ?r = "[RawString ''src/a'', RawString ''src/a/**'', RawString ''/etc'']"
  have "normalizeOwnedPaths (RawArray ?r) = ([\<lparr>op_path = ''src/a'', op_subtree = True\<rparr>], [(''/etc'', Absolute_path)])"
    "accepted ?r = [\<lparr>op_path = ''src/a'', op_subtree = False\<rparr>, \<lparr>op_path = ''src/a'', op_subtree = True\<rparr>]"
    "segments ''src/a'' = [''src'', ''a'']" by code_simp+
  with declaration_normal[of ?r] show ?thesis by (auto simp: owned_set_def)
qed

text \<open>
  C36. The overlap test is exact. Two normalised declarations overlap exactly when some path is owned
  by both; a candidate conflicts with an in-flight task exactly when their declarations own a common
  path, and every path named in the conflict is one that both sides own.
\<close>

theorem overlap_exact:
  assumes a: "normalizeOwnedPaths x = (a, ra)" and b: "normalizeOwnedPaths y = (b, rb)"
  shows "(pathsOverlap a b \<longleftrightarrow> (\<Union>e\<in>set a. owned_set e) \<inter> (\<Union>e\<in>set b. owned_set e) \<noteq> {})
    \<and> (findOwnershipConflicts a [\<lparr>if_taskId = t, if_paths = b\<rparr>] \<noteq> [] \<longleftrightarrow> pathsOverlap a b)
    \<and> (\<forall>c\<in>set (findOwnershipConflicts a [\<lparr>if_taskId = t, if_paths = b\<rparr>]).
          oc_taskId c = t \<and> (\<forall>p\<in>set (oc_overlappingPaths c).
            segments p \<in> (\<Union>e\<in>set a. owned_set e) \<inter> (\<Union>e\<in>set b. owned_set e)))"
proof -
  note ca = normalized_clean[OF a] and cb = normalized_clean[OF b]
  have o: "set (overlapping_paths a b) = {narrower pa pb | pa pb. pa \<in> set a \<and> pb \<in> set b \<and> entriesOverlap pa pb}"
    by (auto simp: overlapping_paths_def push_new_set)
  have s: "segments p \<in> (\<Union>e\<in>set a. owned_set e) \<inter> (\<Union>e\<in>set b. owned_set e)" if "p \<in> set (overlapping_paths a b)" for p
    using that narrower_owned ca cb unfolding o by (fastforce simp: list_all_iff)
  have p: "pathsOverlap a b \<longleftrightarrow> list_ex (\<lambda>pa. list_ex (entriesOverlap pa) b) a"
    by (auto simp: pathsOverlap_def list_ex_iff)
  have n: "pathsOverlap a b \<longleftrightarrow> overlapping_paths a b \<noteq> []"
    using o by (auto simp: p list_ex_iff simp flip: set_empty)
  have e: "a \<noteq> [] \<and> b \<noteq> []" if "pathsOverlap a b" using that by (auto simp: pathsOverlap_def)
  have c: "findOwnershipConflicts a [\<lparr>if_taskId = t, if_paths = b\<rparr>] =
      (if pathsOverlap a b then [\<lparr>oc_taskId = t, oc_overlappingPaths = overlapping_paths a b\<rparr>] else [])"
    using n e by (auto simp: findOwnershipConflicts_def)
  show ?thesis using paths.any_overlap_iff[OF ca cb] s unfolding c p by auto
qed

theorem overlap_exact_witness:
  "findOwnershipConflicts (fst (normalizeOwnedPaths (RawArray [RawString ''src/mesh/**''])))
     [\<lparr>if_taskId = ''t1'', if_paths = fst (normalizeOwnedPaths (RawArray [RawString ''./src/mesh/queue.ts'']))\<rparr>] \<noteq> []"
proof -
  let ?x = "RawArray [RawString ''src/mesh/**'']" and ?y = "RawArray [RawString ''./src/mesh/queue.ts'']"
  have "pathsOverlap (fst (normalizeOwnedPaths ?x)) (fst (normalizeOwnedPaths ?y))" by code_simp
  with overlap_exact[of ?x "fst (normalizeOwnedPaths ?x)" "snd (normalizeOwnedPaths ?x)" ?y
      "fst (normalizeOwnedPaths ?y)" "snd (normalizeOwnedPaths ?y)" "''t1''"] show ?thesis by simp
qed

section \<open>Touched files\<close>

definition covered :: "owned_paths_declaration \<Rightarrow> string \<Rightarrow> bool" where
  "covered owned raw =
     (case normalizeOne (RawString raw) of
        Inl _ \<Rightarrow> False
      | Inr e \<Rightarrow> segments (op_path e) \<in> (\<Union>b\<in>set owned. owned_set b))"

definition shown_path :: "string \<Rightarrow> string" where
  "shown_path raw = (case normalizeOne (RawString raw) of Inl _ \<Rightarrow> raw | Inr e \<Rightarrow> op_path e)"

lemma touch_undeclared:
  assumes "list_all clean_entry owned"
  shows "fst (touch owned acc raw) = fst acc @ (if covered owned raw then [] else [shown_path raw])"
proof (cases "normalizeOne (RawString raw)")
  case (Inr e)
  have "filter (\<lambda>b. entryContains b (op_path e)) owned = [] \<longleftrightarrow> \<not> covered owned raw"
    using assms contains_path_iff[OF _ normalizeOne_clean[OF Inr]] Inr
    by (auto simp: filter_empty_conv covered_def list_all_iff)
  with Inr show ?thesis by (simp add: touch_def Let_def shown_path_def)
qed (simp add: touch_def covered_def shown_path_def)

text \<open>
  The audit of touched files is exact: against a normalised declaration it lists, in order,
  precisely the reported files that no declared entry owns, and a report that is not a valid
  repository path is always listed.
\<close>

lemma touched_files_exact:
  assumes n: "normalizeOwnedPaths x = (owned, rej)"
  shows "fst (touchedFilesOutsideOwnership touched owned) = map shown_path (filter (\<lambda>raw. \<not> covered owned raw) touched)"
proof -
  have "fst (foldl (touch owned) acc touched) = fst acc @ map shown_path (filter (\<lambda>raw. \<not> covered owned raw) touched)" for acc
    by (induction touched arbitrary: acc) (simp_all add: touch_undeclared[OF normalized_clean[OF n]])
  from this[of "([], [])"] show ?thesis by (simp add: touchedFilesOutsideOwnership_def case_prod_beta Let_def)
qed

theorem touched_files_exact_witness:
  "fst (touchedFilesOutsideOwnership [''src/a.ts'', ''doc/x.md'', ''/etc/passwd'']
     (fst (normalizeOwnedPaths (RawArray [RawString ''src/**''])))) = [''doc/x.md'', ''/etc/passwd'']"
proof -
  let ?x = "RawArray [RawString ''src/**'']"
  have "normalizeOne (RawString ''src/a.ts'') = Inr \<lparr>op_path = ''src/a.ts'', op_subtree = False\<rparr>"
    "normalizeOne (RawString ''doc/x.md'') = Inr \<lparr>op_path = ''doc/x.md'', op_subtree = False\<rparr>"
    "normalizeOne (RawString ''/etc/passwd'') = Inl (''/etc/passwd'', Absolute_path)"
    "segments ''src/a.ts'' = [''src'', ''a.ts'']" "segments ''doc/x.md'' = [''doc'', ''x.md'']" "segments ''src'' = [''src'']"
    "fst (normalizeOwnedPaths ?x) = [\<lparr>op_path = ''src'', op_subtree = True\<rparr>]" by code_simp+
  note f = this
  have "normalizeOwnedPaths ?x = (fst (normalizeOwnedPaths ?x), snd (normalizeOwnedPaths ?x))" by simp
  from touched_files_exact[OF this, of "[''src/a.ts'', ''doc/x.md'', ''/etc/passwd'']"] f show ?thesis
    by (simp add: covered_def shown_path_def owned_set_def)
qed

text \<open>
  Current-directory segments survive normalisation, apart from one at the front: two spellings of
  one file are accepted as different paths, and the overlap between them goes unnoticed.
\<close>

lemma dot_segments_kept:
  "normalizeOne (RawString ''././src/a.ts'') = Inr \<lparr>op_path = ''./src/a.ts'', op_subtree = False\<rparr>
   \<and> \<not> pathsOverlap (fst (normalizeOwnedPaths (RawArray [RawString ''src/./a.ts''])))
        (fst (normalizeOwnedPaths (RawArray [RawString ''src/a.ts''])))"
  by code_simp

end
