(* ===== verification/RpcChunking.thy ===== *)
theory RpcChunking
  imports JsText "HOL-Library.Multiset"
begin

text \<open>
  \<open>mesh-shared/src/rpc-chunking.ts\<close>: splitting an oversized mesh envelope into chunk envelopes and
  reassembling it at the receiver. Text is a list of UTF-16 code units, \<open>JSON.stringify\<close> of a chunk
  envelope is written out with its escapes, and the receiver's \<open>JSON.parse\<close> is the parameter \<open>parse\<close>,
  which returns nothing when it throws. The parameter \<open>te\<close> says whether \<open>TextEncoder\<close> exists. The human-readable
  \<open>detail\<close> texts of the failures are left out.
\<close>

definition MESH_MAX_INLINE_FRAME_BYTES :: nat where "MESH_MAX_INLINE_FRAME_BYTES = 60000"
definition MESH_CHUNK_PAYLOAD_CHARS :: nat where "MESH_CHUNK_PAYLOAD_CHARS = 16000"
definition MESH_MAX_CHUNKS :: nat where "MESH_MAX_CHUNKS = 1024"
definition MESH_MAX_REASSEMBLED_BYTES :: nat where "MESH_MAX_REASSEMBLED_BYTES = 16000000"
definition MESH_CHUNK_TTL_MS :: ms where "MESH_CHUNK_TTL_MS = 60000"
definition MESH_CHUNK_KIND :: string where "MESH_CHUNK_KIND = ''rpc_chunk''"

section \<open>Serialisation\<close>

record mesh_chunk_envelope =
  ch_v :: int
  ch_chunkId :: js_text
  ch_index :: nat
  ch_total :: nat
  ch_data :: js_text

definition buildChunkEnvelope :: "int \<Rightarrow> js_text \<Rightarrow> nat \<Rightarrow> nat \<Rightarrow> js_text \<Rightarrow> mesh_chunk_envelope" where
  "buildChunkEnvelope version chunkId index tot data =
     \<lparr>ch_v = version, ch_chunkId = chunkId, ch_index = index, ch_total = tot, ch_data = data\<rparr>"

definition hex_digit :: "nat \<Rightarrow> code_unit" where
  "hex_digit n = (if n < 10 then of_nat (48 + n) else of_nat (87 + n))"

definition unicode_escape :: "code_unit \<Rightarrow> js_text" where
  "unicode_escape u =
     (let n = unat u in [0x5C, 0x75, hex_digit (n div 4096), hex_digit (n div 256 mod 16),
        hex_digit (n div 16 mod 16), hex_digit (n mod 16)])"

definition surrogate :: "code_unit \<Rightarrow> bool" where
  "surrogate u \<longleftrightarrow> high_surrogate u \<or> low_surrogate u"

definition escape_unit :: "code_unit \<Rightarrow> js_text" where
  "escape_unit u =
     (if u = 0x22 then [0x5C, 0x22] else if u = 0x5C then [0x5C, 0x5C]
      else if u = 0x08 then [0x5C, 0x62] else if u = 0x09 then [0x5C, 0x74]
      else if u = 0x0A then [0x5C, 0x6E] else if u = 0x0C then [0x5C, 0x66]
      else if u = 0x0D then [0x5C, 0x72]
      else if u < 0x20 \<or> surrogate u then unicode_escape u
      else [u])"

fun json_escape :: "js_text \<Rightarrow> js_text" where
  "json_escape [] = []"
| "json_escape [u] = escape_unit u"
| "json_escape (u # v # us) =
     (if high_surrogate u \<and> low_surrogate v then u # v # json_escape us
      else escape_unit u @ json_escape (v # us))"

definition json_string :: "js_text \<Rightarrow> js_text" where
  "json_string s = 0x22 # json_escape s @ [0x22]"

definition json_nat :: "nat \<Rightarrow> js_text" where
  "json_nat n = ascii (digits n)"

definition stringify :: "mesh_chunk_envelope \<Rightarrow> js_text" where
  "stringify c =
     ascii ''{\"v\":'' @ ascii (js_int (ch_v c))
     @ ascii '',\"kind\":\"rpc_chunk\",\"chunkId\":'' @ json_string (ch_chunkId c)
     @ ascii '',\"index\":'' @ json_nat (ch_index c)
     @ ascii '',\"total\":'' @ json_nat (ch_total c)
     @ ascii '',\"data\":'' @ json_string (ch_data c) @ ascii ''}''"

text \<open>The loop used where there is no \<open>TextEncoder\<close>: a high surrogate swallows the next unit.\<close>

fun units_loop :: "js_text \<Rightarrow> nat" where
  "units_loop [] = 0"
| "units_loop (u # us) =
     (if u < 0x80 then 1 + units_loop us
      else if u < 0x800 then 2 + units_loop us
      else if high_surrogate u then 4 + units_loop (tl us)
      else 3 + units_loop us)"

definition meshUtf8ByteLength :: "bool \<Rightarrow> js_text \<Rightarrow> nat" where
  "meshUtf8ByteLength te s = (if te then utf8_length s else units_loop s)"

definition meshFrameNeedsChunking :: "bool \<Rightarrow> js_text \<Rightarrow> bool" where
  "meshFrameNeedsChunking te json \<longleftrightarrow> meshUtf8ByteLength te json > MESH_MAX_INLINE_FRAME_BYTES"

section \<open>Splitting\<close>

datatype split_failure = Split_too_many_chunks | Split_chunk_too_large

definition probe_fits :: "bool \<Rightarrow> int \<Rightarrow> js_text \<Rightarrow> nat \<Rightarrow> js_text \<Rightarrow> bool" where
  "probe_fits te version chunkId index candidate \<longleftrightarrow>
     meshUtf8ByteLength te (stringify (buildChunkEnvelope version chunkId index MESH_MAX_CHUNKS candidate))
       \<le> MESH_MAX_INLINE_FRAME_BYTES"

text \<open>
  The inner loop, on the length \<open>n = end - offset\<close> of the candidate slice. The factor 0.8 is computed in
  doubles; for \<open>n\<close> up to the payload size its floor is \<open>4 n div 5\<close>.
\<close>

function shrink :: "bool \<Rightarrow> int \<Rightarrow> js_text \<Rightarrow> nat \<Rightarrow> js_text \<Rightarrow> nat \<Rightarrow> nat" where
  "shrink te version chunkId index rest n =
     (if n = 0 then 0
      else if probe_fits te version chunkId index (take n rest) then n
      else let shrunk = max 1 (4 * n div 5)
           in if shrunk \<ge> n then shrink te version chunkId index rest (n - 1)
              else shrink te version chunkId index rest shrunk)"
  by pat_completeness auto
termination by (relation "measure (\<lambda>(_, _, _, _, _, n). n)") auto

declare shrink.simps [simp del]

lemma shrink_step:
  "n \<noteq> 0 \<Longrightarrow> \<not> probe_fits te v c i (take n rest) \<Longrightarrow> \<exists>k<n. shrink te v c i rest n = shrink te v c i rest k"
  by (subst shrink.simps) (auto simp: Let_def intro: exI[of _ "n - 1"] exI[of _ "max 1 (4 * n div 5)"])

lemma shrink_spec:
  "shrink te v c i rest n \<le> n
   \<and> (0 < shrink te v c i rest n \<longrightarrow> probe_fits te v c i (take (shrink te v c i rest n) rest))"
proof (induction n rule: less_induct)
  case (less n)
  consider "n = 0" | "n \<noteq> 0" "probe_fits te v c i (take n rest)" | "n \<noteq> 0" "\<not> probe_fits te v c i (take n rest)" by blast
  then show ?case
  proof cases
    case 3
    then obtain k where "k < n" "shrink te v c i rest n = shrink te v c i rest k" using shrink_step by blast
    with less[of k] show ?thesis by simp
  qed (simp_all add: shrink.simps)
qed

text \<open>The outer loop: \<open>index\<close> is the number of slices already pushed, \<open>rest\<close> the text from the offset on.\<close>

function split_slices :: "bool \<Rightarrow> int \<Rightarrow> js_text \<Rightarrow> nat \<Rightarrow> js_text \<Rightarrow> split_failure + js_text list" where
  "split_slices te version chunkId index rest =
     (if rest = [] then Inr []
      else let n = shrink te version chunkId index rest (min (length rest) MESH_CHUNK_PAYLOAD_CHARS)
           in if n = 0 then Inl Split_chunk_too_large
              else if Suc index > MESH_MAX_CHUNKS then Inl Split_too_many_chunks
              else (case split_slices te version chunkId (Suc index) (drop n rest) of
                      Inl f \<Rightarrow> Inl f
                    | Inr slices \<Rightarrow> Inr (take n rest # slices)))"
  by pat_completeness auto
termination by (relation "measure (\<lambda>(_, _, _, _, rest). length rest)") auto

declare split_slices.simps [simp del]

definition stamp :: "int \<Rightarrow> js_text \<Rightarrow> js_text list \<Rightarrow> mesh_chunk_envelope list" where
  "stamp version chunkId slices =
     map (\<lambda>(index, data). buildChunkEnvelope version chunkId index (length slices) data)
       (enumerate 0 slices)"

definition splitMeshFrame :: "bool \<Rightarrow> js_text \<Rightarrow> js_text \<Rightarrow> int \<Rightarrow> split_failure + mesh_chunk_envelope list" where
  "splitMeshFrame te json chunkId version =
     (case split_slices te version chunkId 0 json of
        Inl f \<Rightarrow> Inl f
      | Inr slices \<Rightarrow> if slices = [] then Inl Split_chunk_too_large else Inr (stamp version chunkId slices))"

section \<open>Reassembly\<close>

record mesh_chunk_buffer =
  cb_total :: nat
  cb_chunks :: "js_text list"
  cb_received :: nat
  cb_bytesReceived :: nat
  cb_createdAt :: ms

type_synonym assembler = "(js_text \<times> mesh_chunk_buffer) list"

datatype chunk_failure =
  Malformed_chunk | Too_many_chunks | Inconsistent_total | Duplicate_chunk_mismatch | Budget_exceeded
  | Reassembled_parse_failed

datatype 'f accept_result = Partial nat nat | Complete 'f | Failed chunk_failure js_text

text \<open>
  The frame as the code reads it: a field that is not a string is absent, and an index or total is
  the integer that \<open>Number(..)\<close> gives, absent when that is not an integer.
\<close>

record raw_chunk =
  rk_chunkId :: "js_text option"
  rk_index :: "int option"
  rk_total :: "int option"
  rk_data :: "js_text option"

definition text_or_empty :: "js_text option \<Rightarrow> js_text" where
  "text_or_empty x = (case x of Some s \<Rightarrow> s | None \<Rightarrow> [])"

definition read_chunk :: "raw_chunk \<Rightarrow> (nat \<times> nat \<times> js_text) option" where
  "read_chunk raw =
     (case (rk_index raw, rk_total raw) of
        (Some index, Some tot) \<Rightarrow>
          if text_or_empty (rk_chunkId raw) = [] \<or> index < 0 \<or> tot \<le> 0 \<or> index \<ge> tot
             \<or> text_or_empty (rk_data raw) = []
          then None else Some (nat index, nat tot, text_or_empty (rk_data raw))
      | _ \<Rightarrow> None)"

definition sweep :: "ms \<Rightarrow> assembler \<Rightarrow> assembler" where
  "sweep now = filter (\<lambda>(_, e). \<not> now - cb_createdAt e > MESH_CHUNK_TTL_MS)"

definition new_buffer :: "nat \<Rightarrow> ms \<Rightarrow> mesh_chunk_buffer" where
  "new_buffer tot created = \<lparr>cb_total = tot, cb_chunks = replicate tot [], cb_received = 0,
     cb_bytesReceived = 0, cb_createdAt = created\<rparr>"

definition store_chunk :: "bool \<Rightarrow> nat \<Rightarrow> js_text \<Rightarrow> mesh_chunk_buffer \<Rightarrow> mesh_chunk_buffer" where
  "store_chunk te index data e = e\<lparr>cb_chunks := (cb_chunks e)[index := data], cb_received := cb_received e + 1,
     cb_bytesReceived := cb_bytesReceived e + meshUtf8ByteLength te data\<rparr>"

text \<open>\<open>accept\<close>, with the two readings of the clock: the sweep's and the one stamped on a new buffer.\<close>

definition accept :: "bool \<Rightarrow> (js_text \<Rightarrow> 'f option) \<Rightarrow> ms \<Rightarrow> ms \<Rightarrow> raw_chunk \<Rightarrow> assembler
    \<Rightarrow> 'f accept_result \<times> assembler" where
  "accept te parse now created raw bufs0 =
     (let bufs = sweep now bufs0; chunkId = text_or_empty (rk_chunkId raw); dropped = AList.delete chunkId bufs
      in case read_chunk raw of
           None \<Rightarrow> (Failed Malformed_chunk chunkId, bufs)
         | Some (index, tot, data) \<Rightarrow>
             if tot > MESH_MAX_CHUNKS then (Failed Too_many_chunks chunkId, dropped)
             else let e = (case map_of bufs chunkId of Some e \<Rightarrow> e | None \<Rightarrow> new_buffer tot created)
             in if cb_total e \<noteq> tot then (Failed Inconsistent_total chunkId, dropped)
             else if cb_chunks e ! index \<noteq> []
               then (if cb_chunks e ! index = data then (Partial (cb_received e) (cb_total e), bufs)
                     else (Failed Duplicate_chunk_mismatch chunkId, dropped))
             else if cb_bytesReceived e + meshUtf8ByteLength te data > MESH_MAX_REASSEMBLED_BYTES
               then (Failed Budget_exceeded chunkId, dropped)
             else let e' = store_chunk te index data e
             in if cb_received e' < cb_total e' then (Partial (cb_received e') (cb_total e'), AList.update chunkId e' bufs)
                else (case parse (concat (cb_chunks e')) of
                        Some f \<Rightarrow> (Complete f, dropped)
                      | None \<Rightarrow> (Failed Reassembled_parse_failed chunkId, dropped)))"

datatype asm_event = Accept ms ms raw_chunk | Reset

definition asm_step :: "bool \<Rightarrow> (js_text \<Rightarrow> 'f option) \<Rightarrow> assembler \<Rightarrow> asm_event \<Rightarrow> assembler" where
  "asm_step te parse bufs ev = (case ev of Accept now created raw \<Rightarrow> snd (accept te parse now created raw bufs) | Reset \<Rightarrow> [])"

section \<open>The receiver's memory is bounded\<close>

definition filled :: "js_text list \<Rightarrow> nat" where
  "filled cs = length (filter (\<lambda>c. c \<noteq> []) cs)"

definition buffer_ok :: "bool \<Rightarrow> mesh_chunk_buffer \<Rightarrow> bool" where
  "buffer_ok te e \<longleftrightarrow>
     length (cb_chunks e) = cb_total e \<and> cb_total e \<le> MESH_MAX_CHUNKS
     \<and> cb_received e = filled (cb_chunks e) \<and> cb_received e < cb_total e
     \<and> cb_bytesReceived e = sum_list (map (meshUtf8ByteLength te) (cb_chunks e))
     \<and> cb_bytesReceived e \<le> MESH_MAX_REASSEMBLED_BYTES"

definition assembler_ok :: "bool \<Rightarrow> assembler \<Rightarrow> bool" where
  "assembler_ok te bufs \<longleftrightarrow> distinct (map fst bufs) \<and> (\<forall>(k, e)\<in>set bufs. buffer_ok te e)"

lemma byte_length_nil [simp]: "meshUtf8ByteLength te [] = 0"
  by (simp add: meshUtf8ByteLength_def)

lemma filled_update: "i < length cs \<Longrightarrow> cs ! i = [] \<Longrightarrow> d \<noteq> [] \<Longrightarrow> filled (cs[i := d]) = Suc (filled cs)"
  by (induction cs arbitrary: i) (auto simp: filled_def split: nat.splits)

lemma filled_replicate [simp]: "filled (replicate n []) = 0"
  by (simp add: filled_def)

lemma bytes_update:
  "i < length cs \<Longrightarrow> cs ! i = [] \<Longrightarrow>
   sum_list (map (meshUtf8ByteLength te) (cs[i := d])) = sum_list (map (meshUtf8ByteLength te) cs) + meshUtf8ByteLength te d"
  by (induction cs arbitrary: i) (auto split: nat.splits)

lemma read_chunk_facts:
  "read_chunk raw = Some (index, tot, data) \<Longrightarrow> index < tot \<and> data \<noteq> [] \<and> text_or_empty (rk_chunkId raw) \<noteq> []"
  by (auto simp: read_chunk_def split: option.splits if_splits)

lemma assembler_ok_subset:
  "assembler_ok te bufs \<Longrightarrow> assembler_ok te (sweep now bufs)" "assembler_ok te bufs \<Longrightarrow> assembler_ok te (AList.delete k bufs)"
  by (auto simp: assembler_ok_def sweep_def distinct_map_filter AList.delete_eq)

lemma assembler_ok_update: "assembler_ok te bufs \<Longrightarrow> buffer_ok te e \<Longrightarrow> assembler_ok te (AList.update k e bufs)"
proof -
  assume a: "assembler_ok te bufs" "buffer_ok te e"
  then have d: "distinct (map fst (AList.update k e bufs))" by (simp add: assembler_ok_def distinct_update)
  have "buffer_ok te y" if "(x, y) \<in> set (AList.update k e bufs)" for x y
    using map_of_is_SomeI[OF d that] a by (auto simp: update_conv' assembler_ok_def split: if_splits dest: map_of_SomeD)
  with d show ?thesis by (auto simp: assembler_ok_def)
qed

lemma new_buffer_entry:
  assumes "assembler_ok te bufs" "tot \<le> MESH_MAX_CHUNKS" "index < tot"
    "e = (case map_of bufs k of Some e \<Rightarrow> e | None \<Rightarrow> new_buffer tot created)" "cb_total e = tot"
  shows "buffer_ok te e"
proof (cases "map_of bufs k")
  case None
  with assms show ?thesis by (simp add: buffer_ok_def new_buffer_def sum_list_replicate)
next
  case (Some x)
  with assms show ?thesis by (auto simp: assembler_ok_def dest: map_of_SomeD)
qed

lemma accept_ok:
  assumes ok: "assembler_ok te bufs0"
  shows "assembler_ok te (snd (accept te parse now created raw bufs0))"
proof -
  let ?bufs = "sweep now bufs0" and ?id = "text_or_empty (rk_chunkId raw)"
  note sub = assembler_ok_subset(1)[OF ok, of now]
  note del = assembler_ok_subset(2)[OF sub, of ?id]
  show ?thesis
  proof (cases "read_chunk raw")
    case (Some r)
    then obtain index tot data where r: "read_chunk raw = Some (index, tot, data)" by (cases r) auto
    note f = read_chunk_facts[OF r]
    define e where "e = (case map_of ?bufs ?id of Some e \<Rightarrow> e | None \<Rightarrow> new_buffer tot created)"
    have "buffer_ok te (store_chunk te index data e)"
      if "tot \<le> MESH_MAX_CHUNKS" "cb_total e = tot" "cb_chunks e ! index = []"
        "cb_bytesReceived e + meshUtf8ByteLength te data \<le> MESH_MAX_REASSEMBLED_BYTES"
        "cb_received e + 1 < cb_total e"
      using that f new_buffer_entry[OF sub that(1) _ e_def that(2), of index]
      by (auto simp: buffer_ok_def store_chunk_def filled_update bytes_update)
    with sub del show ?thesis
      by (auto simp: accept_def r Let_def store_chunk_def simp flip: e_def intro!: assembler_ok_update split: option.splits)
  qed (use sub in \<open>simp add: accept_def Let_def\<close>)
qed

text \<open>
  C34. The receiver's memory is bounded, whatever a peer sends. After any sequence of frames and
  resets every open group has one slot per chunk it announced, at most 1024 of them, fewer filled than
  announced, and holds at most 16,000,000 bytes, which its counters account for exactly.
\<close>

theorem assembler_bounded: "assembler_ok te (foldl (asm_step te parse) [] evs)"
proof (induction evs rule: rev_induct)
  case Nil
  then show ?case by (simp add: assembler_ok_def)
next
  case (snoc ev evs)
  then show ?case by (cases ev) (simp_all add: asm_step_def accept_ok, simp add: assembler_ok_def)
qed

section \<open>Delivery in any order\<close>

definition chunk_frame :: "mesh_chunk_envelope \<Rightarrow> raw_chunk" where
  "chunk_frame c = \<lparr>rk_chunkId = Some (ch_chunkId c), rk_index = Some (int (ch_index c)),
     rk_total = Some (int (ch_total c)), rk_data = Some (ch_data c)\<rparr>"

fun deliver :: "bool \<Rightarrow> (js_text \<Rightarrow> 'f option) \<Rightarrow> (ms \<times> ms \<times> mesh_chunk_envelope) list \<Rightarrow> assembler
    \<Rightarrow> 'f accept_result list \<times> assembler" where
  "deliver te parse [] bufs = ([], bufs)"
| "deliver te parse ((now, created, c) # cs) bufs =
     (let (r, bufs') = accept te parse now created (chunk_frame c) bufs;
          (rs, bufs'') = deliver te parse cs bufs'
      in (r # rs, bufs''))"

definition fill :: "nat \<Rightarrow> mesh_chunk_envelope list \<Rightarrow> js_text list" where
  "fill n cs = foldl (\<lambda>xs c. xs[ch_index c := ch_data c]) (replicate n []) cs"

definition chunk_bytes :: "bool \<Rightarrow> mesh_chunk_envelope list \<Rightarrow> nat" where
  "chunk_bytes te cs = sum_list (map (\<lambda>c. meshUtf8ByteLength te (ch_data c)) cs)"

text \<open>Distinct positions of one group, within the receiver's limits.\<close>

definition group_ok :: "bool \<Rightarrow> js_text \<Rightarrow> nat \<Rightarrow> mesh_chunk_envelope list \<Rightarrow> bool" where
  "group_ok te k n cs \<longleftrightarrow>
     k \<noteq> [] \<and> n \<le> MESH_MAX_CHUNKS \<and> distinct (map ch_index cs) \<and> chunk_bytes te cs \<le> MESH_MAX_REASSEMBLED_BYTES
     \<and> (\<forall>c\<in>set cs. ch_chunkId c = k \<and> ch_total c = n \<and> ch_index c < n \<and> ch_data c \<noteq> [])"

lemma fill_length [simp]: "length (fill n cs) = n"
  unfolding fill_def by (rule foldl_invariant) auto

lemma fill_snoc: "fill n (cs @ [c]) = (fill n cs)[ch_index c := ch_data c]"
  by (simp add: fill_def)

lemma fill_other: "i \<notin> ch_index ` set cs \<Longrightarrow> i < n \<Longrightarrow> fill n cs ! i = []"
  by (induction cs rule: rev_induct) (auto simp: fill_snoc fill_def[of n "[]"])

lemma fill_nth:
  "distinct (map ch_index cs) \<Longrightarrow> c \<in> set cs \<Longrightarrow> ch_index c < n \<Longrightarrow> fill n cs ! ch_index c = ch_data c"
proof (induction cs rule: rev_induct)
  case (snoc d cs)
  then show ?case by (cases "ch_index c = ch_index d") (auto simp: fill_snoc image_iff)
qed simp

definition group_open :: "bool \<Rightarrow> js_text \<Rightarrow> nat \<Rightarrow> ms \<Rightarrow> mesh_chunk_envelope list \<Rightarrow> assembler \<Rightarrow> bool" where
  "group_open te k n t0 ds bufs \<longleftrightarrow>
     (if ds = [] then map_of bufs k = None
      else \<exists>cr\<ge>t0. map_of bufs k = Some \<lparr>cb_total = n, cb_chunks = fill n ds, cb_received = length ds,
             cb_bytesReceived = chunk_bytes te ds, cb_createdAt = cr\<rparr>)"

definition finished :: "(js_text \<Rightarrow> 'f option) \<Rightarrow> js_text \<Rightarrow> js_text list \<Rightarrow> 'f accept_result" where
  "finished parse k slots = (case parse (concat slots) of Some f \<Rightarrow> Complete f | None \<Rightarrow> Failed Reassembled_parse_failed k)"

lemma sweep_keeps:
  "map_of bufs k = None \<Longrightarrow> map_of (sweep now bufs) k = None"
  "map_of bufs k = Some e \<Longrightarrow> now - cb_createdAt e \<le> MESH_CHUNK_TTL_MS \<Longrightarrow> map_of (sweep now bufs) k = Some e"
  by (induction bufs) (auto simp: sweep_def split: if_splits)

lemma group_prefix: "group_ok te k n (ds @ es) \<Longrightarrow> group_ok te k n ds"
  by (auto simp: group_ok_def chunk_bytes_def)

lemma group_length: "group_ok te k n ds \<Longrightarrow> length ds \<le> n"
proof -
  assume g: "group_ok te k n ds"
  then have "card (ch_index ` set ds) = length ds" by (metis group_ok_def distinct_card length_map set_map)
  moreover have "card (ch_index ` set ds) \<le> card {..<n}" using g by (intro card_mono) (auto simp: group_ok_def)
  ultimately show ?thesis by simp
qed

lemma accept_next:
  assumes g: "group_ok te k n (ds @ [c])" and o: "group_open te k n t0 ds bufs"
    and t: "now \<le> t0 + MESH_CHUNK_TTL_MS" "t0 \<le> created"
  shows "accept te parse now created (chunk_frame c) bufs =
     (let e = \<lparr>cb_total = n, cb_chunks = fill n (ds @ [c]), cb_received = Suc (length ds),
            cb_bytesReceived = chunk_bytes te (ds @ [c]),
            cb_createdAt = (case map_of (sweep now bufs) k of None \<Rightarrow> created | Some e \<Rightarrow> cb_createdAt e)\<rparr>
      in if Suc (length ds) < n then (Partial (Suc (length ds)) n, AList.update k e (sweep now bufs))
         else (finished parse k (fill n (ds @ [c])), AList.delete k (sweep now bufs)))"
proof -
  have c: "ch_chunkId c = k" "ch_total c = n" "ch_index c < n" "ch_data c \<noteq> []" "k \<noteq> []" "n \<le> MESH_MAX_CHUNKS"
    "ch_index c \<notin> ch_index ` set ds" using g by (auto simp: group_ok_def)
  have r: "read_chunk (chunk_frame c) = Some (ch_index c, n, ch_data c)" "text_or_empty (rk_chunkId (chunk_frame c)) = k"
    using c by (simp_all add: read_chunk_def chunk_frame_def text_or_empty_def)
  define e where "e = (case map_of (sweep now bufs) k of Some e \<Rightarrow> e | None \<Rightarrow> new_buffer n created)"
  have e: "e = \<lparr>cb_total = n, cb_chunks = fill n ds, cb_received = length ds, cb_bytesReceived = chunk_bytes te ds,
      cb_createdAt = (case map_of (sweep now bufs) k of None \<Rightarrow> created | Some e \<Rightarrow> cb_createdAt e)\<rparr>"
  proof (cases "ds = []")
    case True
    with o sweep_keeps(1) show ?thesis
      by (simp add: e_def group_open_def new_buffer_def fill_def chunk_bytes_def)
  next
    case False
    with o obtain cr where cr: "cr \<ge> t0" "map_of bufs k = Some \<lparr>cb_total = n, cb_chunks = fill n ds,
      cb_received = length ds, cb_bytesReceived = chunk_bytes te ds, cb_createdAt = cr\<rparr>" by (auto simp: group_open_def)
    with t have "map_of (sweep now bufs) k = map_of bufs k" using sweep_keeps(2)[OF cr(2)] by simp
    with cr show ?thesis by (simp add: e_def)
  qed
  have b: "chunk_bytes te ds + meshUtf8ByteLength te (ch_data c) \<le> MESH_MAX_REASSEMBLED_BYTES"
    using g by (simp add: group_ok_def chunk_bytes_def)
  show ?thesis
    using c b fill_other[OF c(7,3)]
    by (simp add: accept_def r Let_def finished_def flip: e_def)
      (simp add: e store_chunk_def fill_snoc chunk_bytes_def split: option.splits)
qed

lemma accept_partial:
  assumes "group_ok te k n (ds @ [c])" "group_open te k n t0 ds bufs" "now \<le> t0 + MESH_CHUNK_TTL_MS" "t0 \<le> created"
    "Suc (length ds) < n"
  shows "\<exists>bufs'. accept te parse now created (chunk_frame c) bufs = (Partial (Suc (length ds)) n, bufs')
    \<and> group_open te k n t0 (ds @ [c]) bufs'"
proof -
  have "t0 \<le> (case map_of (sweep now bufs) k of None \<Rightarrow> created | Some e \<Rightarrow> cb_createdAt e)"
  proof (cases "ds = []")
    case True
    with assms sweep_keeps(1) show ?thesis by (simp add: group_open_def)
  next
    case False
    with assms(2) obtain e where e: "map_of bufs k = Some e" "t0 \<le> cb_createdAt e" by (auto simp: group_open_def)
    then have "map_of (sweep now bufs) k = Some e" using assms(3) by (intro sweep_keeps(2)) auto
    with e show ?thesis by simp
  qed
  with accept_next[OF assms(1-4), of parse] assms(5) show ?thesis
    by (auto simp: Let_def group_open_def update_conv' split: option.splits)
qed

lemma accept_last:
  assumes "group_ok te k n (ds @ [c])" "group_open te k n t0 ds bufs" "now \<le> t0 + MESH_CHUNK_TTL_MS" "t0 \<le> created"
    "Suc (length ds) = n"
  shows "\<exists>bufs'. accept te parse now created (chunk_frame c) bufs = (finished parse k (fill n (ds @ [c])), bufs')
    \<and> map_of bufs' k = None"
  using accept_next[OF assms(1-4), of parse] assms(5) by (simp add: map_of_js_delete)

lemma deliver_group:
  assumes "group_ok te k n (ds @ map (\<lambda>(_, _, c). c) xs)" "group_open te k n t0 ds bufs"
    "length ds + length xs = n" "xs \<noteq> []"
    "\<forall>(now, created, _)\<in>set xs. now \<le> t0 + MESH_CHUNK_TTL_MS \<and> t0 \<le> created"
  shows "fst (deliver te parse xs bufs) = map (\<lambda>i. Partial i n) [Suc (length ds)..<n]
      @ [finished parse k (fill n (ds @ map (\<lambda>(_, _, c). c) xs))]
    \<and> map_of (snd (deliver te parse xs bufs)) k = None"
  using assms
proof (induction xs arbitrary: ds bufs)
  case (Cons x xs)
  obtain now created c where x: "x = (now, created, c)" by (cases x)
  have t: "now \<le> t0 + MESH_CHUNK_TTL_MS" "t0 \<le> created" using Cons.prems(5) x by auto
  have g: "group_ok te k n (ds @ [c])" "group_ok te k n ((ds @ [c]) @ map (\<lambda>(_, _, c). c) xs)"
    using Cons.prems(1) group_prefix[of te k n "ds @ [c]" "map (\<lambda>(_, _, c). c) xs"] x by auto
  show ?case
  proof (cases "xs = []")
    case True
    with accept_last[OF g(1) Cons.prems(2) t, of parse] Cons.prems(3) x show ?thesis by auto
  next
    case False
    then have l: "Suc (length ds) < n" using Cons.prems(3) by (cases xs) auto
    from accept_partial[OF g(1) Cons.prems(2) t l] obtain bufs' where
      a: "accept te parse now created (chunk_frame c) bufs = (Partial (Suc (length ds)) n, bufs')" and
      o: "group_open te k n t0 (ds @ [c]) bufs'" by blast
    have "length (ds @ [c]) + length xs = n" using Cons.prems(3) by simp
    from Cons.IH[OF g(2) o this False] Cons.prems(5) x a l show ?thesis
      by (simp add: case_prod_beta Let_def upt_conv_Cons)
  qed
qed simp

section \<open>What the splitter produces\<close>

lemma split_slices_spec:
  "split_slices te v k i rest = Inr slices \<Longrightarrow>
     concat slices = rest \<and> i + length slices \<le> max i MESH_MAX_CHUNKS
     \<and> (\<forall>j<length slices. slices ! j \<noteq> [] \<and> probe_fits te v k (i + j) (slices ! j))"
proof (induction te v k i rest arbitrary: slices rule: split_slices.induct)
  case (1 te v k i rest)
  let ?n = "shrink te v k i rest (min (length rest) MESH_CHUNK_PAYLOAD_CHARS)"
  show ?case
  proof (cases "rest = []")
    case True
    with 1 show ?thesis by (simp add: split_slices.simps)
  next
    case False
    with 1(2) obtain ss where ss: "?n \<noteq> 0" "Suc i \<le> MESH_MAX_CHUNKS" "slices = take ?n rest # ss"
      "split_slices te v k (Suc i) (drop ?n rest) = Inr ss"
      by (subst (asm) split_slices.simps) (auto simp: Let_def split: if_splits sum.splits)
    have "concat ss = drop ?n rest \<and> Suc i + length ss \<le> max (Suc i) MESH_MAX_CHUNKS
      \<and> (\<forall>j<length ss. ss ! j \<noteq> [] \<and> probe_fits te v k (Suc i + j) (ss ! j))"
      using 1(1)[OF False refl ss(1) _ ss(4)] ss(2) by simp
    moreover have "probe_fits te v k i (take ?n rest)" using shrink_spec ss(1) by blast
    ultimately show ?thesis using ss(1-3) False by (auto simp: nth_Cons split: nat.splits)
  qed
qed

lemma stamp_nth:
  "j < length slices \<Longrightarrow> stamp v k slices ! j = buildChunkEnvelope v k j (length slices) (slices ! j)"
  by (simp add: stamp_def nth_enumerate_eq)

lemma stamp_length [simp]: "length (stamp v k slices) = length slices"
  by (simp add: stamp_def)

lemma stamp_data: "map ch_data (stamp v k slices) = slices"
  by (rule nth_equalityI) (simp_all add: stamp_nth buildChunkEnvelope_def)

lemma stamp_index: "map ch_index (stamp v k slices) = [0..<length slices]"
  by (rule nth_equalityI) (simp_all add: stamp_nth buildChunkEnvelope_def)

lemma in_stampD:
  "c \<in> set (stamp v k slices) \<Longrightarrow> ch_chunkId c = k \<and> ch_total c = length slices \<and> ch_index c < length slices
     \<and> ch_v c = v \<and> ch_data c = slices ! ch_index c"
  by (auto simp: in_set_conv_nth stamp_nth buildChunkEnvelope_def)

section \<open>Sizes of serialised chunks\<close>

text \<open>Well-formed text: every surrogate belongs to a pair.\<close>

fun wf_text :: "js_text \<Rightarrow> bool" where
  "wf_text [] = True"
| "wf_text [u] = (\<not> surrogate u)"
| "wf_text (u # v # us) = (if high_surrogate u \<and> low_surrogate v then wf_text us else \<not> surrogate u \<and> wf_text (v # us))"

lemma small_not_surrogate: "unat u < 0xD800 \<Longrightarrow> \<not> surrogate u"
  using surrogate_range by (fastforce simp: surrogate_def)

lemma wf_text_Cons: "\<not> surrogate u \<Longrightarrow> wf_text (u # us) = wf_text us"
  by (cases us) (auto simp: surrogate_def)

lemma utf8_append: "wf_text xs \<Longrightarrow> utf8_length (xs @ ys) = utf8_length xs + utf8_length ys"
proof (induction xs rule: wf_text.induct)
  case (2 u)
  then show ?case by (simp add: utf8_Cons surrogate_def)
next
  case (3 u v us)
  then show ?case by (auto simp: surrogate_def)
qed simp

lemma wf_append: "wf_text xs \<Longrightarrow> wf_text ys \<Longrightarrow> wf_text (xs @ ys)"
proof (induction xs rule: wf_text.induct)
  case (2 u)
  then show ?case by (simp add: wf_text_Cons)
next
  case (3 u v us)
  then show ?case by (auto simp: wf_text_Cons)
qed simp

lemma units_loop_wf: "wf_text xs \<Longrightarrow> units_loop xs = utf8_length xs"
proof (induction xs rule: wf_text.induct)
  case (2 u)
  then show ?case by (simp add: unit_bytes_def surrogate_def)
next
  case (3 u v us)
  have "high_surrogate u \<Longrightarrow> \<not> u < 0x80 \<and> \<not> u < 0x800"
    using surrogate_range(1)[of u] by (auto simp: word_less_nat_alt)
  with 3 show ?case by (auto simp: unit_bytes_def surrogate_def utf8_Cons)
qed simp

lemma byte_length_wf: "wf_text xs \<Longrightarrow> meshUtf8ByteLength te xs = utf8_length xs"
  by (simp add: meshUtf8ByteLength_def units_loop_wf)

definition small :: "js_text \<Rightarrow> bool" where
  "small xs \<longleftrightarrow> list_all (\<lambda>u. u < 0x80) xs"

lemma small_wf: "small xs \<Longrightarrow> wf_text xs \<and> utf8_length xs = length xs"
proof (induction xs)
  case (Cons u us)
  then have u: "u < 0x80" by (simp add: small_def)
  then have "\<not> surrogate u" by (intro small_not_surrogate) (simp add: word_less_nat_alt)
  moreover have "unit_bytes u = 1" using u by (simp add: unit_bytes_def)
  ultimately show ?case using Cons by (simp add: wf_text_Cons utf8_Cons surrogate_def small_def)
qed (simp add: small_def)

lemma ascii_small: "list_all (\<lambda>c. (of_char c :: nat) < 128) s \<Longrightarrow> small (ascii s)"
  by (induction s) (auto simp: ascii_def small_def word_less_nat_alt unat_of_nat)

lemma digits_chars: "list_all (\<lambda>c. (of_char c :: nat) < 128) (digits n)"
  by (induction n rule: digits.induct) (subst digits.simps, auto)

lemma js_int_chars: "list_all (\<lambda>c. (of_char c :: nat) < 128) (js_int i)"
  by (simp add: js_int_def digits_chars)

lemma digits_length: "0 < k \<Longrightarrow> n < 10 ^ k \<Longrightarrow> length (digits n) \<le> k"
proof (induction k arbitrary: n)
  case (Suc k)
  show ?case
  proof (cases "n < 10")
    case True
    then show ?thesis by (subst digits.simps) simp
  next
    case False
    then have "k \<noteq> 0" using Suc.prems by (cases k) auto
    moreover have "n div 10 < 10 ^ k" using Suc.prems by (simp add: less_mult_imp_div_less mult.commute)
    ultimately have "length (digits (n div 10)) \<le> k" using Suc.IH by simp
    with False show ?thesis by (subst digits.simps) simp
  qed
qed simp

lemma json_nat_size: "wf_text (json_nat n) \<and> utf8_length (json_nat n) = length (digits n)"
  using small_wf[OF ascii_small[OF digits_chars]] by (simp add: json_nat_def ascii_def)

lemma hex_digit_small: "n < 16 \<Longrightarrow> hex_digit n < 0x80"
proof -
  have "list_all (\<lambda>n. hex_digit n < 0x80) [0..<16]" by code_simp
  then show "n < 16 \<Longrightarrow> hex_digit n < 0x80" by (simp add: list_all_iff)
qed

lemma unicode_escape_small: "small (unicode_escape u)"
proof -
  have "unat u < 2 ^ 16" by (rule order_less_le_trans[OF unsigned_less]) simp
  then have "unat u div 4096 < 16" by (simp add: less_mult_imp_div_less)
  then show ?thesis by (simp add: unicode_escape_def Let_def small_def hex_digit_small)
qed

lemma escape_unit_wf: "wf_text (escape_unit u) \<and> utf8_length (escape_unit u) \<le> 6"
proof (cases "escape_unit u = [u]")
  case True
  moreover have "\<not> surrogate u \<or> escape_unit u = unicode_escape u" by (auto simp: escape_unit_def surrogate_def high_surrogate_def low_surrogate_def)
  ultimately show ?thesis using unit_bytes_bounds(2)[of u] by (auto simp: unicode_escape_def Let_def)
next
  case False
  then have "small (escape_unit u) \<and> length (escape_unit u) \<le> 6"
    using unicode_escape_small[of u] by (auto simp: escape_unit_def small_def unicode_escape_def Let_def split: if_splits)
  then show ?thesis using small_wf by simp
qed

lemma json_escape_wf: "wf_text (json_escape s)"
proof (induction s rule: json_escape.induct)
  case (3 u v us)
  then show ?case using escape_unit_wf[of u] by (auto simp: wf_append)
qed (use escape_unit_wf in auto)

lemma json_string_size: "wf_text (json_string s) \<and> utf8_length (json_string s) = 2 + utf8_length (json_escape s)"
proof -
  have q: "wf_text [0x22]" "utf8_length [0x22] = 1" using small_wf[of "[0x22]"] by (simp_all add: small_def)
  from q show ?thesis using json_escape_wf[of s] wf_append[OF q(1) wf_append[OF json_escape_wf[of s] q(1)]]
      utf8_append[OF q(1), of "json_escape s @ [0x22]"] utf8_append[OF json_escape_wf, of s "[0x22]"]
    by (simp add: json_string_def del: utf8_length.simps wf_text.simps)
qed

text \<open>The envelope around the slice: everything but the index, the total and the data is fixed text.\<close>

definition frame_overhead :: "int \<Rightarrow> js_text \<Rightarrow> nat" where
  "frame_overhead v k = 66 + length (js_int v) + utf8_length (json_escape k)"

lemma ascii_size: "list_all (\<lambda>c. (of_char c :: nat) < 128) s \<Longrightarrow> wf_text (ascii s) \<and> utf8_length (ascii s) = length s"
  using small_wf[OF ascii_small] by (simp add: ascii_def)

lemma literal_chars:
  "list_all (\<lambda>c. (of_char c :: nat) < 128) ''{\"v\":''"
  "list_all (\<lambda>c. (of_char c :: nat) < 128) '',\"kind\":\"rpc_chunk\",\"chunkId\":''"
  "list_all (\<lambda>c. (of_char c :: nat) < 128) '',\"index\":''"
  "list_all (\<lambda>c. (of_char c :: nat) < 128) '',\"total\":''"
  "list_all (\<lambda>c. (of_char c :: nat) < 128) '',\"data\":''"
  "list_all (\<lambda>c. (of_char c :: nat) < 128) ''}''"
  by code_simp+

lemmas fixed_parts = literal_chars[THEN ascii_size] ascii_size[OF js_int_chars] json_nat_size json_string_size

lemma stringify_size:
  "wf_text (stringify c) \<and> utf8_length (stringify c) = frame_overhead (ch_v c) (ch_chunkId c)
     + length (digits (ch_index c)) + length (digits (ch_total c)) + utf8_length (json_escape (ch_data c))"
proof -
  note w = fixed_parts[THEN conjunct1] and u = fixed_parts[THEN conjunct2]
  show ?thesis
    unfolding stringify_def frame_overhead_def by (simp add: wf_append utf8_append w u)
qed

lemma digits_1024: "length (digits 1024) = 4"
  by (simp add: digits.simps)

lemma stamped_fits:
  assumes "probe_fits te v k i d" "n \<le> MESH_MAX_CHUNKS"
  shows "meshUtf8ByteLength te (stringify (buildChunkEnvelope v k i n d)) \<le> MESH_MAX_INLINE_FRAME_BYTES"
proof -
  have "length (digits n) \<le> 4" using assms(2) by (intro digits_length) (simp_all add: MESH_MAX_CHUNKS_def)
  then show ?thesis
    using assms(1) stringify_size[of "buildChunkEnvelope v k i n d"] stringify_size[of "buildChunkEnvelope v k i MESH_MAX_CHUNKS d"]
    by (simp add: probe_fits_def byte_length_wf buildChunkEnvelope_def MESH_MAX_CHUNKS_def digits_1024)
qed

lemma splitMeshFrameD:
  assumes "splitMeshFrame te json k v = Inr chunks"
  obtains slices where "chunks = stamp v k slices" "slices \<noteq> []" "concat slices = json" "length slices \<le> MESH_MAX_CHUNKS"
    "\<And>j. j < length slices \<Longrightarrow> slices ! j \<noteq> [] \<and> probe_fits te v k j (slices ! j)"
proof -
  from assms obtain slices where s: "split_slices te v k 0 json = Inr slices" "slices \<noteq> []" "chunks = stamp v k slices"
    by (auto simp: splitMeshFrame_def split: sum.splits if_splits)
  with split_slices_spec[OF s(1)] show thesis by (intro that[of slices]) auto
qed

lemma demo_split: "splitMeshFrame True (ascii ''{\"a\":1}'') (ascii ''c1'') 1
    = Inr [buildChunkEnvelope 1 (ascii ''c1'') 0 1 (ascii ''{\"a\":1}'')]"
proof -
  have "utf8_length (stringify (buildChunkEnvelope 1 (ascii ''c1'') 0 1024 (ascii ''{\"a\":1}''))) = 83" by code_simp
  then have "probe_fits True 1 (ascii ''c1'') 0 (ascii ''{\"a\":1}'')"
    by (simp add: probe_fits_def meshUtf8ByteLength_def MESH_MAX_CHUNKS_def MESH_MAX_INLINE_FRAME_BYTES_def)
  moreover have "ascii ''{\"a\":1}'' \<noteq> []" "length (ascii ''{\"a\":1}'') = 7" by (simp_all add: ascii_def)
  ultimately have "split_slices True 1 (ascii ''c1'') 0 (ascii ''{\"a\":1}'') = Inr [ascii ''{\"a\":1}'']"
    by (subst split_slices.simps) (simp add: shrink.simps split_slices.simps Let_def MESH_CHUNK_PAYLOAD_CHARS_def MESH_MAX_CHUNKS_def)
  then show ?thesis by (simp add: splitMeshFrame_def stamp_def)
qed

text \<open>
  C33. What the splitter sends is the frame. When splitting succeeds there are between 1 and 1024
  chunks, numbered in order, all carrying the group's id and the real count, their data in order is
  the frame, none is empty, and each one serialises to at most the inline ceiling with the final count
  stamped in (the splitter measured with a placeholder count).
\<close>

theorem split_faithful:
  assumes s: "splitMeshFrame te json k v = Inr chunks"
  shows "concat (map ch_data chunks) = json \<and> map ch_index chunks = [0..<length chunks]
    \<and> 1 \<le> length chunks \<and> length chunks \<le> 1024
    \<and> list_all (\<lambda>c. ch_chunkId c = k \<and> ch_total c = length chunks \<and> ch_data c \<noteq> []
        \<and> meshUtf8ByteLength te (stringify c) \<le> 60000) chunks"
proof -
  obtain slices where f: "chunks = stamp v k slices" "slices \<noteq> []" "concat slices = json" "length slices \<le> MESH_MAX_CHUNKS"
    and d: "\<And>j. j < length slices \<Longrightarrow> slices ! j \<noteq> [] \<and> probe_fits te v k j (slices ! j)"
    by (rule splitMeshFrameD[OF s]) (rule that)
  have "ch_chunkId c = k \<and> ch_total c = length slices \<and> ch_data c \<noteq> [] \<and> meshUtf8ByteLength te (stringify c) \<le> 60000"
    if c: "c \<in> set chunks" for c
  proof -
    obtain j where j: "j < length slices" "c = buildChunkEnvelope v k j (length slices) (slices ! j)"
      using c f(1) by (auto simp: in_set_conv_nth stamp_nth)
    have "meshUtf8ByteLength te (stringify c) \<le> 60000"
      using stamped_fits[OF conjunct2[OF d[OF j(1)]] f(4)] j(2) by (simp add: MESH_MAX_INLINE_FRAME_BYTES_def)
    with d[OF j(1)] j(2) show ?thesis by (simp add: buildChunkEnvelope_def)
  qed
  then show ?thesis
    using f by (auto simp: stamp_data stamp_index list_all_iff MESH_MAX_CHUNKS_def Suc_le_eq)
qed

theorem split_faithful_witness:
  "\<exists>chunks. splitMeshFrame True (ascii ''{\"a\":1}'') (ascii ''c1'') 1 = Inr chunks
     \<and> concat (map ch_data chunks) = ascii ''{\"a\":1}'' \<and> length chunks \<le> 1024"
proof -
  show ?thesis using demo_split split_faithful[OF demo_split] by simp
qed

lemma chunk_bytes_mset: "mset cs = mset ds \<Longrightarrow> chunk_bytes te cs = chunk_bytes te ds"
proof -
  assume m: "mset cs = mset ds"
  let ?f = "\<lambda>c. meshUtf8ByteLength te (ch_data c)"
  have "mset (map ?f cs) = mset (map ?f ds)" by (simp only: mset_map m)
  then show ?thesis unfolding chunk_bytes_def by (metis sum_mset_sum_list)
qed

text \<open>
  C32. Reassembly inverts splitting in any order of arrival. Deliver the chunks of a frame in any
  order, each once, within the retention time, to a receiver that has no open group of that id (other
  groups may be open), the frame being within the receiver's byte budget: every chunk but the last is
  acknowledged as partial with the running count, the last yields the parse of the original frame, or
  an explicit failure when that does not parse, and the group is closed.
\<close>

theorem reassembly_any_order:
  assumes s: "splitMeshFrame te json k v = Inr chunks" and k: "k \<noteq> []" and b: "chunk_bytes te chunks \<le> 16000000"
    and p: "mset (map (\<lambda>(_, _, c). c) xs) = mset chunks" and new: "map_of bufs k = None"
    and t: "list_all (\<lambda>(now, created, _). now \<le> t0 + 60000 \<and> t0 \<le> created) xs"
  shows "fst (deliver te parse xs bufs) = map (\<lambda>i. Partial i (length chunks)) [1..<length chunks]
      @ [case parse json of Some f \<Rightarrow> Complete f | None \<Rightarrow> Failed Reassembled_parse_failed k]
    \<and> map_of (snd (deliver te parse xs bufs)) k = None"
proof -
  obtain slices where f: "chunks = stamp v k slices" "slices \<noteq> []" "concat slices = json" "length slices \<le> MESH_MAX_CHUNKS"
    and d: "\<And>j. j < length slices \<Longrightarrow> slices ! j \<noteq> [] \<and> probe_fits te v k j (slices ! j)"
    by (rule splitMeshFrameD[OF s]) (rule that)
  let ?cs = "map (\<lambda>(_, _, c). c) xs" let ?n = "length slices"
  have set: "set ?cs = set chunks" by (rule mset_eq_setD[OF p])
  have len: "length ?cs = ?n" using mset_eq_length[OF p] f(1) by simp
  have "mset (map ch_index ?cs) = mset [0..<?n]" using p f(1) by (metis mset_map stamp_index)
  then have di: "distinct (map ch_index ?cs)" by (metis distinct_upt mset_eq_imp_distinct_iff)
  have "chunk_bytes te ?cs = chunk_bytes te chunks"
    by (rule chunk_bytes_mset[OF p])
  then have g: "group_ok te k ?n ?cs"
    using k b f(1,4) di d in_stampD[of _ v k slices] set by (auto simp: group_ok_def MESH_MAX_REASSEMBLED_BYTES_def)
  have "fill ?n ?cs = slices"
  proof (rule nth_equalityI)
    fix i assume i: "i < length (fill ?n ?cs)"
    then have "stamp v k slices ! i \<in> set ?cs" unfolding set f(1) by (intro nth_mem) simp
    from fill_nth[OF di this, of ?n] i show "fill ?n ?cs ! i = slices ! i" by (simp add: stamp_nth buildChunkEnvelope_def)
  qed simp
  moreover have "\<forall>(now, created, _)\<in>set xs. now \<le> t0 + MESH_CHUNK_TTL_MS \<and> t0 \<le> created"
    using t by (auto simp: list_all_iff MESH_CHUNK_TTL_MS_def)
  moreover have "xs \<noteq> []" using len f(2) by auto
  ultimately show ?thesis
    using deliver_group[of te k ?n "[]" xs t0 bufs parse] g new len f by (auto simp: group_open_def finished_def)
qed

theorem reassembly_any_order_witness:
  "fst (deliver True (\<lambda>s. Some (length s)) [(5, 5, buildChunkEnvelope 1 (ascii ''c1'') 0 1 (ascii ''{\"a\":1}''))] [])
     = [Complete 7]"
proof -
  note s = demo_split
  have k: "ascii ''c1'' \<noteq> []" "length (ascii ''{\"a\":1}'') = 7" by (simp_all add: ascii_def)
  have "chunk_bytes True [buildChunkEnvelope 1 (ascii ''c1'') 0 1 (ascii ''{\"a\":1}'')] = 7" by code_simp
  then have b: "chunk_bytes True [buildChunkEnvelope 1 (ascii ''c1'') 0 1 (ascii ''{\"a\":1}'')] \<le> 16000000" by simp
  from reassembly_any_order[OF s k(1) b, of "[(5, 5, buildChunkEnvelope 1 (ascii ''c1'') 0 1 (ascii ''{\"a\":1}''))]" "[]" 5
      "\<lambda>s. Some (length s)"] k(2) show ?thesis by simp
qed

section \<open>JSON text is cut at full size\<close>

text \<open>The number of units that are escaped as lone surrogates.\<close>

fun lone :: "js_text \<Rightarrow> nat" where
  "lone [] = 0"
| "lone [u] = (if surrogate u then 1 else 0)"
| "lone (u # v # us) =
     (if high_surrogate u \<and> low_surrogate v then lone us else (if surrogate u then 1 else 0) + lone (v # us))"

lemma lone_wf: "wf_text s \<Longrightarrow> lone s = 0"
  by (induction s rule: lone.induct) (auto split: if_splits)

lemma lone_low_Cons: "low_surrogate v \<Longrightarrow> lone (v # us) = 1 + lone us"
  using high_not_low[of v] by (cases us) (auto simp: surrogate_def)

lemma lone_take: "lone (take n s) \<le> lone s + 1"
proof (induction s arbitrary: n rule: lone.induct)
  case (2 u)
  then show ?case by (cases n) auto
next
  case (3 u v us)
  show ?case
  proof (cases n)
    case (Suc n')
    with 3(1)[of "n' - 1"] 3(2)[of n'] show ?thesis by (cases n') auto
  qed simp
qed simp

lemma wf_drop: "wf_text s \<Longrightarrow> wf_text (drop m s) \<or> (\<exists>v us. drop m s = v # us \<and> low_surrogate v \<and> wf_text us)"
proof (induction s arbitrary: m rule: wf_text.induct)
  case (2 u)
  then show ?case by (cases m) auto
next
  case (3 u v us)
  show ?case
  proof (cases "high_surrogate u \<and> low_surrogate v")
    case True
    with 3(1)[OF True, of "m - 2"] 3(3) show ?thesis by (cases m; cases "m - 1") auto
  next
    case False
    with 3(2)[OF False, of "m - 1"] 3(3) show ?thesis by (cases m) auto
  qed
qed simp

lemma lone_slice: "wf_text s \<Longrightarrow> lone (take n (drop m s)) \<le> 2"
proof -
  assume "wf_text s"
  then have "lone (drop m s) \<le> 1" using wf_drop[of s m] by (auto simp: lone_wf lone_low_Cons)
  with lone_take[of n "drop m s"] show ?thesis by simp
qed

definition no_control :: "js_text \<Rightarrow> bool" where
  "no_control s \<longleftrightarrow> list_all (\<lambda>u. 0x20 \<le> u) s"

lemma escape_unit_bytes:
  assumes "0x20 \<le> u"
  shows "utf8_length (escape_unit u) \<le> 3 + (if surrogate u then 3 else 0)"
proof (cases "surrogate u")
  case True
  then show ?thesis using escape_unit_wf[of u] by simp
next
  case False
  have "unat u \<ge> 0x20" using assms by (simp add: word_le_nat_alt)
  then have "u \<noteq> 0x08" "u \<noteq> 0x09" "u \<noteq> 0x0A" "u \<noteq> 0x0C" "u \<noteq> 0x0D" "\<not> u < 0x20" using assms by auto
  with False have "escape_unit u = (if u = 0x22 then [0x5C, 0x22] else if u = 0x5C then [0x5C, 0x5C] else [u])"
    by (simp add: escape_unit_def)
  moreover have "utf8_length [0x5C, 0x22] = 2" "utf8_length [0x5C, 0x5C] = 2"
    using small_wf[of "[0x5C, 0x22]"] small_wf[of "[0x5C, 0x5C]"] by (simp_all add: small_def)
  ultimately show ?thesis using unit_bytes_bounds(2)[of u] by simp
qed

lemma escape_bytes: "no_control s \<Longrightarrow> utf8_length (json_escape s) \<le> 3 * length s + 3 * lone s"
proof (induction s rule: json_escape.induct)
  case (2 u)
  then show ?case using escape_unit_bytes[of u] by (auto simp: no_control_def split: if_splits)
next
  case (3 u v us)
  then have u: "0x20 \<le> u" "no_control us" "no_control (v # us)" by (auto simp: no_control_def)
  show ?case
  proof (cases "high_surrogate u \<and> low_surrogate v")
    case True
    with 3(1)[OF True u(2)] show ?thesis by simp
  next
    case False
    with 3(2)[OF False u(3)] escape_unit_bytes[OF u(1)] escape_unit_wf[of u] show ?thesis
      by (auto simp: utf8_append split: if_splits)
  qed
qed simp

lemma escape_bytes_any: "utf8_length (json_escape s) \<le> 6 * length s"
proof (induction s rule: json_escape.induct)
  case (2 u)
  then show ?case using escape_unit_wf[of u] by simp
next
  case (3 u v us)
  then show ?case using escape_unit_wf[of u] by (auto simp: utf8_append)
qed simp

lemma js_int_length: "0 \<le> v \<Longrightarrow> v < 10 ^ 16 \<Longrightarrow> length (js_int v) \<le> 16"
  by (simp add: js_int_def digits_length nat_less_iff)

lemma full_slice_fits:
  assumes j: "wf_text json" "no_control json" and k: "length k \<le> 64" and v: "0 \<le> v" "v < 10 ^ 16"
    and i: "i \<le> 1024" and n: "n \<le> 16000"
  shows "probe_fits te v k i (take n (drop m json))"
proof -
  let ?d = "take n (drop m json)"
  have "no_control ?d" using j(2) by (auto simp: no_control_def list_all_iff dest: in_set_takeD in_set_dropD)
  then have "utf8_length (json_escape ?d) \<le> 3 * length ?d + 3 * lone ?d" by (rule escape_bytes)
  moreover have "length ?d \<le> 16000" using n by simp
  moreover note lone_slice[OF j(1), of n m] escape_bytes_any[of k] js_int_length[OF v]
  moreover have "length (digits i) \<le> 4" using i by (intro digits_length) simp_all
  ultimately show ?thesis
    using k stringify_size[of "buildChunkEnvelope v k i MESH_MAX_CHUNKS ?d"]
    by (simp add: probe_fits_def byte_length_wf buildChunkEnvelope_def frame_overhead_def MESH_MAX_CHUNKS_def digits_1024
        MESH_MAX_INLINE_FRAME_BYTES_def)
qed

definition slices_needed :: "nat \<Rightarrow> nat" where
  "slices_needed n = (n + 15999) div 16000"

lemma slices_needed_step: "0 < n \<Longrightarrow> slices_needed n = Suc (slices_needed (n - min n 16000))"
proof (cases "n \<le> 16000")
  case False
  then have "n + 15999 = (n - 16000 + 15999) + 16000" by simp
  then show ?thesis using False by (simp add: slices_needed_def)
next
  case True
  assume "0 < n"
  with True have "(n + 15999) div 16000 = 1" by (intro div_nat_eqI) auto
  with True show ?thesis by (simp add: slices_needed_def)
qed

lemma split_slices_json:
  assumes j: "wf_text json" "no_control json" and k: "length k \<le> 64" and v: "0 \<le> v" "v < 10 ^ 16"
  shows "i \<le> 1024 \<Longrightarrow>
    (if i + slices_needed (length (drop m json)) \<le> 1024
     then \<exists>ss. split_slices te v k i (drop m json) = Inr ss \<and> length ss = slices_needed (length (drop m json))
     else split_slices te v k i (drop m json) = Inl Split_too_many_chunks)"
proof (induction "length (drop m json)" arbitrary: m i rule: less_induct)
  case less
  let ?r = "drop m json" let ?n = "min (length ?r) 16000"
  show ?case
  proof (cases "?r = []")
    case True
    with less.prems show ?thesis by (simp add: split_slices.simps slices_needed_def)
  next
    case False
    then have n: "0 < ?n" "shrink te v k i ?r ?n = ?n"
      using full_slice_fits[OF j k v less.prems, of ?n te m] by (auto simp: shrink.simps)
    have need: "slices_needed (length ?r) = Suc (slices_needed (length (drop (m + ?n) json)))"
      using slices_needed_step[of "length ?r"] False by (simp add: add.commute)
    have smaller: "length (drop (m + ?n) json) < length ?r" using False by auto
    have step: "split_slices te v k i ?r =
        (if Suc i > 1024 then Inl Split_too_many_chunks
         else case split_slices te v k (Suc i) (drop (m + ?n) json) of
             Inl f \<Rightarrow> Inl f | Inr ss \<Rightarrow> Inr (take ?n ?r # ss))"
      using n False by (subst split_slices.simps)
        (auto simp: MESH_CHUNK_PAYLOAD_CHARS_def MESH_MAX_CHUNKS_def Let_def add.commute split: sum.splits)
    show ?thesis
    proof (cases "Suc i > 1024")
      case True
      with less.prems step need show ?thesis by simp
    next
      case False
      then have "Suc i \<le> 1024" by simp
      from less.hyps[OF smaller this] False step need show ?thesis by (auto split: if_splits)
    qed
  qed
qed

text \<open>
  On JSON text the splitter never has to shrink a slice, as the constants promise: a serialised
  frame (no raw control character, no lone surrogate) with a group id of at most 64 units and a safe
  version number is cut every 16,000 units, so it needs exactly one chunk per 16,000 units or part
  of them, and it is refused, with the reason that says so, exactly when that is more than 1024.
\<close>

lemma split_json_text:
  assumes "wf_text json" "no_control json" "json \<noteq> []" "length k \<le> 64" "0 \<le> v" "v < 10 ^ 16"
  shows "if (length json + 15999) div 16000 \<le> 1024
    then \<exists>chunks. splitMeshFrame te json k v = Inr chunks \<and> length chunks = (length json + 15999) div 16000
    else splitMeshFrame te json k v = Inl Split_too_many_chunks"
proof -
  have "slices_needed (length json) \<noteq> 0" using assms(3) slices_needed_step[of "length json"] by simp
  then show ?thesis
    using split_slices_json[OF assms(1,2,4-6), of 0 0 te]
    by (auto simp: splitMeshFrame_def slices_needed_def split: if_splits)
qed

theorem split_json_text_witness:
  "\<exists>chunks. splitMeshFrame True (ascii ''{\"a\":1}'') (ascii ''c1'') 1 = Inr chunks \<and> length chunks = 1"
proof -
  have "wf_text (ascii ''{\"a\":1}'')" "no_control (ascii ''{\"a\":1}'')" "length (ascii ''{\"a\":1}'') = 7"
    "length (ascii ''c1'') = 2" "ascii ''{\"a\":1}'' \<noteq> []" by code_simp+
  with split_json_text[of "ascii ''{\"a\":1}''" "ascii ''c1''" 1 True] show ?thesis by simp
qed

end
