(* ===== verification/KeyedDoc.thy ===== *)
theory KeyedDoc
  imports JsValue
begin

text \<open>
  \<open>mesh-shared/src/keyed-doc-delta.ts\<close>: the difference of two keyed documents and its application at the
  receiver. Documents are JSON objects; no member is \<open>undefined\<close>. A signature is \<open>JSON.stringify\<close> of a value
  and is only compared with other signatures; two JSON values have the same text exactly when they are
  the same value with members in the same order, so the value itself stands for its signature.
\<close>

type_synonym doc_row = js_object

record keyed_doc_spec =
  sp_collections :: "(string \<times> string) list"
  sp_splitObjects :: "string list"
  sp_ignore :: "string list"
  sp_volatileTopLevel :: "string list"
  sp_stableRow :: "string \<Rightarrow> doc_row \<Rightarrow> doc_row"

definition sig :: "js_value \<Rightarrow> js_value" where
  "sig v = v"

definition readPath :: "js_object \<Rightarrow> string \<times> string option \<Rightarrow> js_value option" where
  "readPath doc path = (case path of
       (head, None) \<Rightarrow> map_of doc head
     | (head, Some tail) \<Rightarrow> member (map_of doc head) tail)"

text \<open>\<open>indexOf('.')\<close> and the two slices around it; \<open>!tail\<close> treats an empty tail as none.\<close>

definition splitPath :: "string \<Rightarrow> string \<times> string option" where
  "splitPath path =
     (let head = takeWhile (\<lambda>c. c \<noteq> CHR ''.'') path; rest = drop (length head + 1) path
      in (head, if rest = [] then None else Some rest))"

definition delete_member :: "js_object \<Rightarrow> string \<times> string option \<Rightarrow> js_object" where
  "delete_member doc path = (case path of
       (head, None) \<Rightarrow> AList.delete head doc
     | (head, Some tail) \<Rightarrow>
         (case map_of doc head of
            Some (JObj parent) \<Rightarrow>
              if tail \<in> fst ` set parent then AList.update head (JObj (AList.delete tail parent)) doc else doc
          | _ \<Rightarrow> doc))"

definition stripCollections :: "js_object \<Rightarrow> keyed_doc_spec \<Rightarrow> js_object" where
  "stripCollections doc spec = foldl (\<lambda>out (path, _). delete_member out (splitPath path)) doc (sp_collections spec)"

section \<open>Digests\<close>

record row_digest =
  rd_value :: doc_row
  rd_stable :: doc_row
  rd_sig :: js_value

record collection_digest =
  cd_rows :: "(string \<times> row_digest) list"
  cd_order :: "string list"

record keyed_doc_digest =
  kd_top :: "(string \<times> js_value) list"
  kd_topValues :: "(string \<times> js_value) list"
  kd_collections :: "(string \<times> collection_digest) list"
  kd_volatile :: "string list"

definition fieldSigsOf :: "row_digest \<Rightarrow> (string \<times> js_value) list" where
  "fieldSigsOf d = map (\<lambda>(k, v). (k, sig v)) (rd_stable d)"

definition digest_row :: "(doc_row \<Rightarrow> doc_row) \<Rightarrow> string \<Rightarrow> collection_digest \<Rightarrow> js_value \<Rightarrow> collection_digest" where
  "digest_row stableRow idField c v =
     (case v of
        JObj row \<Rightarrow>
          (case map_of row idField of
             Some (JStr rid) \<Rightarrow>
               if rid = [] \<or> rid \<in> fst ` set (cd_rows c) then c
               else let stable = stableRow row
                    in \<lparr>cd_rows = cd_rows c @ [(rid, \<lparr>rd_value = row, rd_stable = stable, rd_sig = sig (JObj stable)\<rparr>)],
                        cd_order = cd_order c @ [rid]\<rparr>
           | _ \<Rightarrow> c)
      | _ \<Rightarrow> c)"

definition digest_rows :: "(doc_row \<Rightarrow> doc_row) \<Rightarrow> string \<Rightarrow> js_value list \<Rightarrow> collection_digest" where
  "digest_rows stableRow idField rows = foldl (digest_row stableRow idField) \<lparr>cd_rows = [], cd_order = []\<rparr> rows"

definition top_fields :: "js_object \<Rightarrow> keyed_doc_spec \<Rightarrow> (string \<times> js_value) list" where
  "top_fields doc spec =
     filter (\<lambda>(path, _). path \<notin> set (sp_ignore spec))
       (concat (map (\<lambda>(key, value). case value of
            JObj flds \<Rightarrow> if key \<in> set (sp_splitObjects spec) then map (\<lambda>(f, v). (key @ ''.'' @ f, v)) flds else [(key, value)]
          | _ \<Rightarrow> [(key, value)]) (stripCollections doc spec)))"

definition digest_collections :: "js_object \<Rightarrow> keyed_doc_spec \<Rightarrow> (string \<times> collection_digest) list" where
  "digest_collections doc spec =
     concat (map (\<lambda>(path, idField). case readPath doc (splitPath path) of
         Some (JArr rows) \<Rightarrow> [(path, digest_rows (sp_stableRow spec path) idField rows)] | _ \<Rightarrow> []) (sp_collections spec))"

definition digestKeyedDoc :: "js_object \<Rightarrow> keyed_doc_spec \<Rightarrow> keyed_doc_digest" where
  "digestKeyedDoc doc spec = \<lparr>
     kd_top = spread [] (map (\<lambda>(path, v). (path, sig v)) (top_fields doc spec)),
     kd_topValues = spread [] (top_fields doc spec),
     kd_collections = digest_collections doc spec, kd_volatile = sp_volatileTopLevel spec\<rparr>"

section \<open>Differences\<close>

text \<open>A member that the code creates on the first push is empty exactly when it is absent.\<close>

record collection_delta =
  dl_upsert :: "doc_row list"
  dl_unsetFields :: "(string \<times> string list) list"
  dl_removed :: "string list"
  dl_order :: "string list option"
  dl_absent :: bool

definition no_delta :: collection_delta where
  "no_delta = \<lparr>dl_upsert = [], dl_unsetFields = [], dl_removed = [], dl_order = None, dl_absent = False\<rparr>"

definition changed_fields :: "string \<Rightarrow> row_digest \<Rightarrow> row_digest \<Rightarrow> doc_row" where
  "changed_fields idField prevRow nextRow =
     concat (map (\<lambda>(key, s). if key = idField \<or> map_of (fieldSigsOf prevRow) key = Some s then []
        else [(key, the (map_of (rd_value nextRow) key))]) (fieldSigsOf nextRow))"

definition stamp_fields :: "row_digest \<Rightarrow> row_digest \<Rightarrow> doc_row \<Rightarrow> doc_row" where
  "stamp_fields prevRow nextRow change =
     filter (\<lambda>(key, value). key \<notin> fst ` set (rd_stable nextRow) \<and> key \<notin> fst ` set change
        \<and> map_option sig (map_of (rd_value prevRow) key) \<noteq> Some (sig value)) (rd_value nextRow)"

definition gone_fields :: "row_digest \<Rightarrow> row_digest \<Rightarrow> string list" where
  "gone_fields prevRow nextRow =
     filter (\<lambda>key. key \<notin> fst ` set (fieldSigsOf nextRow) \<and> key \<notin> fst ` set (rd_value nextRow)) (map fst (fieldSigsOf prevRow))"

definition diff_row :: "string \<Rightarrow> (string \<times> row_digest) list \<Rightarrow> collection_delta \<Rightarrow> string \<times> row_digest \<Rightarrow> collection_delta" where
  "diff_row idField prevRows delta next =
     (case map_of prevRows (fst next) of
        None \<Rightarrow> delta\<lparr>dl_upsert := dl_upsert delta @ [rd_value (snd next)]\<rparr>
      | Some prevRow \<Rightarrow>
          if rd_sig prevRow = rd_sig (snd next) then delta
          else let flds = changed_fields idField prevRow (snd next);
                   change = (idField, JStr (fst next)) # flds;
                   change' = (if flds \<noteq> [] then change @ stamp_fields prevRow (snd next) change else change);
                   gone = gone_fields prevRow (snd next)
               in delta\<lparr>dl_upsert := dl_upsert delta @ (if flds \<noteq> [] then [change'] else []),
                        dl_unsetFields := dl_unsetFields delta @ (if gone \<noteq> [] then [(fst next, gone)] else [])\<rparr>)"

definition diffCollection :: "collection_digest option \<Rightarrow> collection_digest option \<Rightarrow> string \<Rightarrow> collection_delta option" where
  "diffCollection prev next idField =
     (case next of
        None \<Rightarrow> if prev \<noteq> None then Some (no_delta\<lparr>dl_absent := True\<rparr>) else None
      | Some n \<Rightarrow>
          let prevRows = (case prev of Some p \<Rightarrow> cd_rows p | None \<Rightarrow> []); prevOrder = (case prev of Some p \<Rightarrow> cd_order p | None \<Rightarrow> []);
              delta = foldl (diff_row idField prevRows) no_delta (cd_rows n);
              delta' = delta\<lparr>dl_removed := filter (\<lambda>rid. rid \<notin> fst ` set (cd_rows n)) (map fst prevRows),
                             dl_order := (if prevOrder = cd_order n then None else Some (cd_order n))\<rparr>
          in if delta' = no_delta then None else Some delta')"

section \<open>Application\<close>

definition held_row :: "string \<Rightarrow> js_value \<Rightarrow> (string \<times> doc_row) option" where
  "held_row idField v =
     (case v of JObj row \<Rightarrow> (case map_of row idField of Some (JStr rid) \<Rightarrow> Some (rid, row) | _ \<Rightarrow> None) | _ \<Rightarrow> None)"

definition upsert_row :: "string \<Rightarrow> (string \<times> doc_row) list \<Rightarrow> doc_row \<Rightarrow> (string \<times> doc_row) list" where
  "upsert_row idField byId row =
     (case map_of row idField of
        Some (JStr rid) \<Rightarrow> AList.update rid (case map_of byId rid of Some base \<Rightarrow> spread base row | None \<Rightarrow> row) byId
      | _ \<Rightarrow> byId)"

definition unset_row :: "(string \<times> doc_row) list \<Rightarrow> string \<times> string list \<Rightarrow> (string \<times> doc_row) list" where
  "unset_row byId u =
     (case map_of byId (fst u) of
        None \<Rightarrow> byId
      | Some base \<Rightarrow> AList.update (fst u) (fold AList.delete (snd u) base) byId)"

fun place_loop :: "string list \<Rightarrow> string list \<Rightarrow> string list \<Rightarrow> string list" where
  "place_loop known placed [] = []"
| "place_loop known placed (rid # order) =
     (if rid \<notin> set known \<or> rid \<in> set placed then place_loop known placed order
      else rid # place_loop known (rid # placed) order)"

definition place_rows :: "(string \<times> doc_row) list \<Rightarrow> string list \<Rightarrow> doc_row list" where
  "place_rows byId order =
     (let placed = place_loop (map fst byId) [] order
      in map (\<lambda>rid. the (map_of byId rid)) placed @ map snd (filter (\<lambda>(rid, _). rid \<notin> set placed) byId))"

definition foldCollection :: "js_value option \<Rightarrow> collection_delta \<Rightarrow> string \<Rightarrow> doc_row list" where
  "foldCollection held change idField =
     (let rows = List.map_filter (held_row idField) (case held of Some (JArr vs) \<Rightarrow> vs | _ \<Rightarrow> []);
          byId = spread [] rows;
          byId1 = fold AList.delete (dl_removed change) byId;
          byId2 = foldl (upsert_row idField) byId1 (dl_upsert change);
          byId3 = foldl unset_row byId2 (dl_unsetFields change)
      in place_rows byId3 (case dl_order change of Some order \<Rightarrow> order | None \<Rightarrow> map fst rows))"

record object_delta =
  od_set :: "(string \<times> js_value) list"
  od_unset :: "string list"

record keyed_doc_delta =
  ds_set :: "(string \<times> js_value) list"
  ds_unset :: "string list"
  ds_objects :: "(string \<times> object_delta) list"
  ds_collections :: "(string \<times> collection_delta) list"

definition objectOf :: "string list \<Rightarrow> string \<Rightarrow> (string \<times> string) option" where
  "objectOf split path =
     (case List.find (\<lambda>object. starts_with (object @ ''.'') path) split of
        Some object \<Rightarrow> Some (object, drop (length object + 1) path)
      | None \<Rightarrow> None)"

definition object_entry :: "keyed_doc_delta \<Rightarrow> string \<Rightarrow> object_delta" where
  "object_entry d object = (case map_of (ds_objects d) object of Some o' \<Rightarrow> o' | None \<Rightarrow> \<lparr>od_set = [], od_unset = []\<rparr>)"

definition diff_set :: "keyed_doc_spec \<Rightarrow> keyed_doc_digest \<Rightarrow> keyed_doc_digest \<Rightarrow> keyed_doc_delta \<times> bool \<Rightarrow> string \<times> js_value \<Rightarrow> keyed_doc_delta \<times> bool" where
  "diff_set spec prev next acc e =
     (let (d, meaningful) = acc; path = fst e; v = the (map_of (kd_topValues next) path)
      in if map_of (kd_top prev) path = Some (snd e) then acc
         else (case objectOf (sp_splitObjects spec) path of
                 Some (object, field) \<Rightarrow> d\<lparr>ds_objects := AList.update object
                     ((object_entry d object)\<lparr>od_set := AList.update field v (od_set (object_entry d object))\<rparr>) (ds_objects d)\<rparr>
               | None \<Rightarrow> d\<lparr>ds_set := AList.update path v (ds_set d)\<rparr>,
               meaningful \<or> path \<notin> set (kd_volatile next)))"

definition diff_unset :: "keyed_doc_spec \<Rightarrow> keyed_doc_digest \<Rightarrow> keyed_doc_delta \<times> bool \<Rightarrow> string \<Rightarrow> keyed_doc_delta \<times> bool" where
  "diff_unset spec next acc path =
     (let (d, meaningful) = acc
      in if path \<in> fst ` set (kd_top next) then acc
         else (case objectOf (sp_splitObjects spec) path of
                 Some (object, field) \<Rightarrow> d\<lparr>ds_objects := AList.update object
                     ((object_entry d object)\<lparr>od_unset := od_unset (object_entry d object) @ [field]\<rparr>) (ds_objects d)\<rparr>
               | None \<Rightarrow> d\<lparr>ds_unset := ds_unset d @ [path]\<rparr>,
               meaningful \<or> path \<notin> set (kd_volatile next)))"

definition diff_collections :: "keyed_doc_spec \<Rightarrow> keyed_doc_digest \<Rightarrow> keyed_doc_digest \<Rightarrow> (string \<times> collection_delta) list" where
  "diff_collections spec prev next =
     List.map_filter (\<lambda>(path, idField). map_option (\<lambda>c. (path, c))
       (diffCollection (map_of (kd_collections prev) path) (map_of (kd_collections next) path) idField)) (sp_collections spec)"

definition diffKeyedDoc :: "keyed_doc_digest \<Rightarrow> keyed_doc_digest \<Rightarrow> keyed_doc_spec \<Rightarrow> keyed_doc_delta option" where
  "diffKeyedDoc prev next spec =
     (let start = (\<lparr>ds_set = [], ds_unset = [], ds_objects = [], ds_collections = []\<rparr>, False);
          (d, meaningful) = foldl (diff_unset spec next) (foldl (diff_set spec prev next) start (kd_top next)) (map fst (kd_top prev));
          cs = diff_collections spec prev next
      in if \<not> meaningful \<and> cs = [] then None else Some (d\<lparr>ds_collections := cs\<rparr>))"

definition fold_object :: "js_object \<Rightarrow> string \<times> object_delta \<Rightarrow> js_object" where
  "fold_object next e =
     (let base = (case map_of next (fst e) of Some (JObj flds) \<Rightarrow> flds | _ \<Rightarrow> [])
      in AList.update (fst e) (JObj (spread (fold AList.delete (od_unset (snd e)) base) (od_set (snd e)))) next)"

definition put_collection :: "js_object \<Rightarrow> string \<times> string option \<Rightarrow> js_value \<Rightarrow> js_object" where
  "put_collection next path v = (case path of
       (head, None) \<Rightarrow> AList.update head v next
     | (head, Some tail) \<Rightarrow>
         AList.update head (JObj (AList.update tail v (case map_of next head of Some (JObj parent) \<Rightarrow> parent | _ \<Rightarrow> []))) next)"

definition fold_collection_step :: "js_object \<Rightarrow> keyed_doc_delta \<Rightarrow> js_object \<Rightarrow> string \<times> string \<Rightarrow> js_object" where
  "fold_collection_step held delta next e =
     (let path = splitPath (fst e); heldList = readPath held path
      in case map_of (ds_collections delta) (fst e) of
           Some change \<Rightarrow>
             if dl_absent change then delete_member next path
             else put_collection next path (JArr (map JObj (foldCollection heldList change (snd e))))
         | None \<Rightarrow> (case heldList of None \<Rightarrow> next | Some v \<Rightarrow> put_collection next path v))"

definition foldKeyedDoc :: "js_object \<Rightarrow> keyed_doc_delta \<Rightarrow> keyed_doc_spec \<Rightarrow> js_object" where
  "foldKeyedDoc held delta spec =
     foldl (fold_collection_step held delta)
       (foldl fold_object (spread (fold AList.delete (ds_unset delta) (stripCollections held spec)) (ds_set delta)) (ds_objects delta))
       (sp_collections spec)"

section \<open>The two lanes\<close>

definition DAEMON_METADATA_DOC_SPEC :: keyed_doc_spec where
  "DAEMON_METADATA_DOC_SPEC = \<lparr>sp_collections = [(''status.sessions'', ''id'')], sp_splitObjects = [''status''],
     sp_ignore = [''daemonId'', ''status.timestamp''], sp_volatileTopLevel = [],
     sp_stableRow = (\<lambda>_ row. AList.delete ''lastUpdated'' row)\<rparr>"

definition without :: "string list \<Rightarrow> js_value \<Rightarrow> js_value" where
  "without keys v = (case v of JObj flds \<Rightarrow> JObj (fold AList.delete keys flds) | _ \<Rightarrow> v)"

definition adjust :: "string \<Rightarrow> (js_value \<Rightarrow> js_value) \<Rightarrow> js_object \<Rightarrow> js_object" where
  "adjust key f out = (case map_of out key of Some v \<Rightarrow> AList.update key (f v) out | None \<Rightarrow> out)"

definition drop_empty_submodules :: "js_value \<Rightarrow> js_value" where
  "drop_empty_submodules v = (case v of
       JObj flds \<Rightarrow> if map_of flds ''submodules'' = Some (JArr []) then JObj (AList.delete ''submodules'' flds) else v
     | _ \<Rightarrow> v)"

definition stableMeshNodeRow :: "doc_row \<Rightarrow> doc_row" where
  "stableMeshNodeRow row =
     (let out = fold AList.delete [''lastSeenAt'', ''updatedAt'', ''last_seen_at'', ''updated_at''] row;
          out1 = adjust ''dataFreshness'' (without [''ageMs'', ''lastProbeAt'', ''staleness'']) out;
          out2 = adjust ''connection'' (without [''lastStateChangeAt'']) out1;
          out3 = adjust ''git'' (\<lambda>v. drop_empty_submodules (without [''lastCheckedAt''] v)) out2;
          out4 = adjust ''nodeFacts'' (without [''reportedAt'']) out3
      in if member (map_of out4 ''gitObservation'') ''source'' \<in> {Some (JStr ''self''), Some (JStr ''local'')}
         then adjust ''gitObservation'' (without [''observedAt'']) out4 else out4)"

definition MESH_STATUS_DOC_SPEC :: keyed_doc_spec where
  "MESH_STATUS_DOC_SPEC = \<lparr>sp_collections = [(''nodes'', ''nodeId''), (''queue.tasks'', ''id''), (''missions'', ''id'')],
     sp_splitObjects = [], sp_ignore = [],
     sp_volatileTopLevel = [''refreshedAt'', ''sourceOfTruth'', ''turnPresentationCounters'', ''meshProtocolV2Counters'',
       ''pendingRetentionCounters'', ''meshProtocolMetrics''],
     sp_stableRow = (\<lambda>collection row. if collection = ''nodes'' then stableMeshNodeRow row else row)\<rparr>"

definition sent :: "keyed_doc_spec \<Rightarrow> js_object \<Rightarrow> js_object \<Rightarrow> js_object" where
  "sent spec prev next = (case diffKeyedDoc (digestKeyedDoc prev spec) (digestKeyedDoc next spec) spec of
     None \<Rightarrow> prev | Some d \<Rightarrow> foldKeyedDoc prev d spec)"

text \<open>
  Two changes are not carried over. When the split object is replaced by \<open>null\<close> the receiver ends up
  with an empty object, and a collection that appears without rows is not announced, although the file
  states that the folds equal the latest snapshot.
\<close>

lemma fold_misses:
  "sent DAEMON_METADATA_DOC_SPEC [(''status'', JObj [(''a'', JNum 1)])] [(''status'', JNull)] = [(''status'', JObj [])]
   \<and> sent MESH_STATUS_DOC_SPEC [(''name'', JStr ''m'')] [(''name'', JStr ''m''), (''nodes'', JArr [])] = [(''name'', JStr ''m'')]"
  by code_simp


section \<open>Rows are rebuilt\<close>

definition rid_of :: "string \<Rightarrow> doc_row \<Rightarrow> string" where
  "rid_of idField row = (case map_of row idField of Some (JStr s) \<Rightarrow> s | _ \<Rightarrow> [])"

definition keyed_row :: "string \<Rightarrow> doc_row \<Rightarrow> bool" where
  "keyed_row idField row \<longleftrightarrow> distinct (map fst row) \<and> rid_of idField row \<noteq> []"

definition well_keyed :: "string \<Rightarrow> doc_row list \<Rightarrow> bool" where
  "well_keyed idField rows \<longleftrightarrow> list_all (keyed_row idField) rows \<and> distinct (map (rid_of idField) rows)"

lemma keyed_rowD: "keyed_row f row \<Longrightarrow> map_of row f = Some (JStr (rid_of f row)) \<and> rid_of f row \<noteq> []"
proof -
  assume "keyed_row f row"
  then have "rid_of f row \<noteq> []" by (simp add: keyed_row_def)
  then show ?thesis by (auto simp: rid_of_def split: option.splits js_value.splits)
qed

definition row_dig :: "(doc_row \<Rightarrow> doc_row) \<Rightarrow> doc_row \<Rightarrow> row_digest" where
  "row_dig st row = \<lparr>rd_value = row, rd_stable = st row, rd_sig = sig (JObj (st row))\<rparr>"

lemma digest_rows_keyed:
  "well_keyed f rows \<Longrightarrow> digest_rows st f (map JObj rows) =
     \<lparr>cd_rows = map (\<lambda>row. (rid_of f row, row_dig st row)) rows, cd_order = map (rid_of f) rows\<rparr>"
proof (induction rows rule: rev_induct)
  case (snoc row rows)
  then have "well_keyed f rows" "keyed_row f row" "rid_of f row \<notin> rid_of f ` set rows" by (auto simp: well_keyed_def)
  with snoc keyed_rowD[of f row] show ?case
    by (auto simp: digest_rows_def digest_row_def row_dig_def Let_def image_iff)
qed (simp add: digest_rows_def)

lemma held_rows_keyed:
  "list_all (keyed_row f) rows \<Longrightarrow> List.map_filter (held_row f) (map JObj rows) = map (\<lambda>row. (rid_of f row, row)) rows"
  by (induction rows) (auto simp: held_row_def List.map_filter_simps dest: keyed_rowD)

lemma spread_fresh: "distinct (map fst kvs) \<Longrightarrow> fst ` set kvs \<inter> fst ` set m = {} \<Longrightarrow> spread m kvs = m @ kvs"
proof (induction kvs arbitrary: m)
  case (Cons e kvs)
  obtain k v where e: "e = (k, v)" by fastforce
  have "AList.update k v m = m @ [(k, v)]" if "k \<notin> fst ` set m" for m :: "('a \<times> 'b) list"
    using that by (induction m) auto
  with Cons e show ?case by (auto simp: spread_def)
qed (simp add: spread_def)

lemma map_of_rev_distinct: "distinct (map fst xs) \<Longrightarrow> map_of (rev xs) k = map_of xs k"
proof (induction xs)
  case (Cons e xs)
  then have "map_of xs (fst e) = None" by (simp add: map_of_eq_None_iff)
  with Cons show ?case by (cases e) (auto simp: map_add_def split: option.split)
qed simp

lemma map_of_fold_delete: "map_of (fold AList.delete ks m) k = (if k \<in> set ks then None else map_of m k)"
  by (induction ks arbitrary: m) (auto simp: js_map.get_del)

text \<open>The change of one row, and the row it gives at the receiver.\<close>

definition row_change :: "string \<Rightarrow> row_digest \<Rightarrow> row_digest \<Rightarrow> string \<Rightarrow> doc_row list" where
  "row_change f p n rid =
     (let flds = changed_fields f p n; change = (f, JStr rid) # flds
      in if rd_sig p = rd_sig n \<or> flds = [] then [] else [change @ stamp_fields p n change])"

definition row_gone :: "row_digest \<Rightarrow> row_digest \<Rightarrow> string list" where
  "row_gone p n = (if rd_sig p = rd_sig n then [] else gone_fields p n)"

definition agree :: "string list \<Rightarrow> doc_row \<Rightarrow> doc_row \<Rightarrow> bool" where
  "agree vol a b \<longleftrightarrow> (\<forall>k. k \<notin> set vol \<longrightarrow> map_of a k = map_of b k)"

definition drops :: "string list \<Rightarrow> (doc_row \<Rightarrow> doc_row) \<Rightarrow> bool" where
  "drops vol st \<longleftrightarrow> (\<forall>row. st row = filter (\<lambda>(k, _). k \<notin> set vol) row)"

lemma map_of_drops: "drops vol st \<Longrightarrow> map_of (st row) k = (if k \<in> set vol then None else map_of row k)"
  unfolding drops_def by (induction row) auto

lemma field_sigs: "map_of (fieldSigsOf (row_dig st row)) k = map_of (st row) k"
  by (simp add: fieldSigsOf_def row_dig_def sig_def case_prod_unfold)

lemma concat_choose: "concat (map (\<lambda>(k, s). if Q k s then [] else [(k, g k)]) xs) = map (\<lambda>(k, s). (k, g k)) (filter (\<lambda>(k, s). \<not> Q k s) xs)"
  by (induction xs) auto

lemma map_of_choose:
  "distinct (map fst xs) \<Longrightarrow> map_of (map (\<lambda>(k, s). (k, g k)) (filter (\<lambda>(k, s). \<not> Q k s) xs)) k =
     (case map_of xs k of Some s \<Rightarrow> if Q k s then None else Some (g k) | None \<Rightarrow> None)"
proof (induction xs)
  case (Cons e xs)
  obtain a b where e: "e = (a, b)" by fastforce
  have "map_of xs a = None" using Cons.prems e by (simp add: map_of_eq_None_iff image_iff)
  with Cons e show ?case by auto
qed simp

lemma map_of_keyed_filter: "map_of (filter (\<lambda>(k, _). P k) xs) k = (if P k then map_of xs k else None)"
  by (induction xs) auto

lemma distinct_keys_filter: "distinct (map fst xs) \<Longrightarrow> distinct (map fst (filter P xs))"
  by (simp add: distinct_map_filter)

lemma changed_fields_map:
  assumes st: "drops vol st" and d: "distinct (map fst n)"
  shows "map_of (changed_fields f (row_dig st p) (row_dig st n)) k =
      (if k \<in> set vol \<or> k = f \<or> map_of p k = map_of n k then None else map_of n k)"
    and "distinct (map fst (changed_fields f (row_dig st p) (row_dig st n)))"
proof -
  let ?Q = "\<lambda>key s. key = f \<or> map_of (st p) key = Some s"
  have e: "changed_fields f (row_dig st p) (row_dig st n) = map (\<lambda>(key, s). (key, the (map_of n key))) (filter (\<lambda>(key, s). \<not> ?Q key s) (st n))"
    unfolding changed_fields_def field_sigs concat_choose[symmetric]
    unfolding row_dig_def fieldSigsOf_def sig_def by (simp add: case_prod_unfold cong: if_cong)
  have dn: "distinct (map fst (st n))" using d st by (simp add: drops_def distinct_keys_filter)
  have m: "map fst (map (\<lambda>(key, s). (key, the (map_of n key))) xs) = map fst xs" for xs :: doc_row
    by (induction xs) auto
  show "distinct (map fst (changed_fields f (row_dig st p) (row_dig st n)))"
    unfolding e m using dn by (rule distinct_keys_filter)
  show "map_of (changed_fields f (row_dig st p) (row_dig st n)) k =
      (if k \<in> set vol \<or> k = f \<or> map_of p k = map_of n k then None else map_of n k)"
    unfolding e map_of_choose[OF dn] by (cases "map_of n k") (auto simp: map_of_drops[OF st])
qed

text \<open>The fields sent along are fields of the new row and none of the compared ones.\<close>

lemma stamp_fields_map:
  assumes st: "drops vol st" and d: "distinct (map fst n)"
  shows "k \<notin> set vol \<Longrightarrow> map_of (stamp_fields (row_dig st p) (row_dig st n) change) k = None"
    and "distinct (map fst (stamp_fields (row_dig st p) (row_dig st n) change))"
proof -
  show "distinct (map fst (stamp_fields (row_dig st p) (row_dig st n) change))"
    using d by (simp add: stamp_fields_def row_dig_def distinct_keys_filter)
  assume k: "k \<notin> set vol"
  have "k \<notin> fst ` set (stamp_fields (row_dig st p) (row_dig st n) change)"
    using k st by (auto simp: stamp_fields_def row_dig_def drops_def image_iff)
  then show "map_of (stamp_fields (row_dig st p) (row_dig st n) change) k = None" by (simp add: map_of_eq_None_iff)
qed

lemma gone_fields_set:
  assumes st: "drops vol st"
  shows "k \<in> set (gone_fields (row_dig st p) (row_dig st n)) \<longleftrightarrow> k \<notin> set vol \<and> map_of p k \<noteq> None \<and> map_of n k = None"
proof -
  have r: "(k \<in> fst ` set (fieldSigsOf (row_dig st r))) = (k \<notin> set vol \<and> map_of r k \<noteq> None)" for r
  proof -
    have "fst ` set (fieldSigsOf (row_dig st r)) = fst ` set (st r)"
      by (force simp: fieldSigsOf_def row_dig_def)
    then have "(k \<in> fst ` set (fieldSigsOf (row_dig st r))) = (map_of (st r) k \<noteq> None)"
      using map_of_eq_None_iff[of "st r" k] by simp
    then show ?thesis by (simp add: map_of_drops[OF st])
  qed
  have v: "rd_value (row_dig st n) = n" by (simp add: row_dig_def)
  have nn: "k \<in> fst ` set n \<longleftrightarrow> map_of n k \<noteq> None" by (simp add: map_of_eq_None_iff)
  show ?thesis unfolding gone_fields_def set_filter set_map mem_Collect_eq r v nn by auto
qed

lemma row_patched:
  assumes st: "drops vol st" and n: "keyed_row f n" and p: "keyed_row f p" and id: "rid_of f p = rid_of f n" and f: "f \<notin> set vol"
  shows "agree vol (fold AList.delete (row_gone (row_dig st p) (row_dig st n))
    (foldl spread p (row_change f (row_dig st p) (row_dig st n) (rid_of f n)))) n"
proof (cases "rd_sig (row_dig st p) = rd_sig (row_dig st n)")
  case True
  then have "st p = st n" by (simp add: row_dig_def sig_def)
  then have "map_of p k = map_of n k" if "k \<notin> set vol" for k using map_of_drops[OF st] that by metis
  then show ?thesis using True by (simp add: agree_def row_change_def row_gone_def)
next
  case False
  have dn: "distinct (map fst n)" using n by (simp add: keyed_row_def)
  have fid: "map_of p f = map_of n f" using keyed_rowD[OF n] keyed_rowD[OF p] id by simp
  define flds where "flds = changed_fields f (row_dig st p) (row_dig st n)"
  define change where "change = (f, JStr (rid_of f n)) # flds"
  define whole where "whole = change @ stamp_fields (row_dig st p) (row_dig st n) change"
  note cm = changed_fields_map[OF st dn, of f p, folded flds_def] and sm = stamp_fields_map[OF st dn, where p = p and change = change]
  have "map_of flds f = None" by (simp add: cm(1))
  then have "distinct (map fst change)" using cm(2) by (simp add: change_def map_of_eq_None_iff)
  moreover have "fst ` set change \<inter> fst ` set (stamp_fields (row_dig st p) (row_dig st n) change) = {}"
    by (force simp: stamp_fields_def)
  ultimately have dw: "distinct (map fst whole)" using sm(2) by (simp add: whole_def)
  have w: "map_of whole k = (if k = f then Some (JStr (rid_of f n)) else map_of flds k)" if "k \<notin> set vol" for k
    using sm(1)[OF that] by (auto simp: whole_def change_def map_add_def split: option.split)
  have sp: "map_of (foldl spread p (row_change f (row_dig st p) (row_dig st n) (rid_of f n))) k
      = (if map_of p k = map_of n k then map_of p k else case map_of n k of Some v \<Rightarrow> Some v | None \<Rightarrow> map_of p k)"
    if k: "k \<notin> set vol" for k
  proof (cases "flds = []")
    case True
    then have "map_of flds k = None" by simp
    with k cm(1)[of k] fid True show ?thesis
      by (auto simp: row_change_def flds_def[symmetric] Let_def split: if_splits option.split)
  next
    case nonempty: False
    then have "row_change f (row_dig st p) (row_dig st n) (rid_of f n) = [whole]"
      using False by (simp add: row_change_def flds_def[symmetric] change_def whole_def Let_def)
    then show ?thesis
      using k w[OF k] cm(1)[of k] fid keyed_rowD[OF n] dw by (auto simp: map_of_spread map_of_rev_distinct split: option.split)
  qed
  show ?thesis
    unfolding agree_def map_of_fold_delete
    using gone_fields_set[OF st, of _ p n] sp False by (auto simp: row_gone_def split: option.splits)
qed


section \<open>Collections are rebuilt\<close>

definition upserts :: "string \<Rightarrow> (string \<times> row_digest) list \<Rightarrow> string \<times> row_digest \<Rightarrow> doc_row list" where
  "upserts f prevRows n = (case map_of prevRows (fst n) of
     None \<Rightarrow> [rd_value (snd n)] | Some p \<Rightarrow> row_change f p (snd n) (fst n))"

definition unsets :: "(string \<times> row_digest) list \<Rightarrow> string \<times> row_digest \<Rightarrow> (string \<times> string list) list" where
  "unsets prevRows n = (case map_of prevRows (fst n) of
     None \<Rightarrow> [] | Some p \<Rightarrow> if row_gone p (snd n) = [] then [] else [(fst n, row_gone p (snd n))])"

lemma diff_rows:
  "foldl (diff_row f prevRows) d ns = d\<lparr>dl_upsert := dl_upsert d @ concat (map (upserts f prevRows) ns),
     dl_unsetFields := dl_unsetFields d @ concat (map (unsets prevRows) ns)\<rparr>"
proof (induction ns arbitrary: d)
  case (Cons n ns)
  have "diff_row f prevRows d n = d\<lparr>dl_upsert := dl_upsert d @ upserts f prevRows n, dl_unsetFields := dl_unsetFields d @ unsets prevRows n\<rparr>"
    by (cases "map_of prevRows (fst n)")
      (auto simp: diff_row_def upserts_def unsets_def row_change_def row_gone_def Let_def)
  then show ?case by (simp add: Cons)
qed simp

lemma upsert_fold:
  assumes "distinct (map (rid_of f) us)" and "list_all (\<lambda>u. rid_of f u \<noteq> []) us"
  shows "map_of (foldl (upsert_row f) m us) k =
    (case map_of (map (\<lambda>u. (rid_of f u, u)) us) k of
       None \<Rightarrow> map_of m k
     | Some u \<Rightarrow> Some (case map_of m k of Some base \<Rightarrow> spread base u | None \<Rightarrow> u))"
  using assms
proof (induction us arbitrary: m)
  case (Cons u us)
  have "map_of u f = Some (JStr (rid_of f u))" using Cons.prems(2) by (auto simp: rid_of_def split: option.splits js_value.splits)
  then have "map_of (upsert_row f m u) j = (if j = rid_of f u then Some (case map_of m j of Some base \<Rightarrow> spread base u | None \<Rightarrow> u) else map_of m j)" for j
    by (simp add: upsert_row_def js_map.get_put)
  moreover have "map_of (map (\<lambda>u. (rid_of f u, u)) us) (rid_of f u) = None"
    using Cons.prems(1) by (simp add: map_of_eq_None_iff image_image)
  ultimately show ?case using Cons by (auto split: option.split)
qed simp

lemma unset_fold:
  "distinct (map fst us) \<Longrightarrow> map_of (foldl unset_row m us) k =
     map_option (\<lambda>base. case map_of us k of None \<Rightarrow> base | Some ks \<Rightarrow> fold AList.delete ks base) (map_of m k)"
proof (induction us arbitrary: m)
  case (Cons u us)
  have "map_of (unset_row m u) j = (if j = fst u then map_option (fold AList.delete (snd u)) (map_of m j) else map_of m j)" for j
    by (simp add: unset_row_def js_map.get_put split: option.split)
  moreover have "map_of us (fst u) = None" using Cons.prems by (simp add: map_of_eq_None_iff)
  ultimately show ?case using Cons by (cases u) (auto simp: option.map_comp comp_def split: option.split)
qed (simp add: option.map_ident)

lemma place_loop_all: "distinct order \<Longrightarrow> set order \<subseteq> set known \<Longrightarrow> set order \<inter> set placed = {} \<Longrightarrow> place_loop known placed order = order"
  by (induction order arbitrary: placed) auto

lemma place_rows_all:
  assumes "distinct order" and "set order = fst ` set byId"
  shows "place_rows byId order = map (\<lambda>rid. the (map_of byId rid)) order"
proof -
  have "place_loop (map fst byId) [] order = order" using assms by (intro place_loop_all) auto
  moreover have "filter (\<lambda>(rid, _). rid \<notin> set order) byId = []" using assms(2) by (force simp: filter_empty_conv)
  ultimately show ?thesis by (simp add: place_rows_def)
qed

lemma row_change_id:
  "u \<in> set (row_change f p n rid) \<Longrightarrow> rid_of f u = rid"
  by (auto simp: row_change_def Let_def rid_of_def split: if_splits)

lemma row_change_one: "row_change f p n rid = [] \<or> (\<exists>u. row_change f p n rid = [u])"
  by (auto simp: row_change_def Let_def)

lemma concat_elem: "u \<in> set (concat (map g ns)) \<Longrightarrow> \<exists>x\<in>set ns. u \<in> set (g x)"
  by auto

lemma collect_other:
  assumes "distinct (map fst (m # ns))" and "\<forall>n\<in>set ns. \<forall>u\<in>set (g n). key u = fst n"
  shows "fst m \<notin> key ` set (concat (map g ns))"
proof
  assume "fst m \<in> key ` set (concat (map g ns))"
  then obtain n u where "n \<in> set ns" "u \<in> set (g n)" "fst m = key u" by auto
  moreover from this assms(2) have "key u = fst n" by blast
  ultimately show False using assms(1) by force
qed

lemma collect_distinct:
  assumes "distinct (map fst ns)" and "\<forall>n. g n = [] \<or> (\<exists>u. g n = [u])" and "\<forall>n\<in>set ns. \<forall>u\<in>set (g n). key u = fst n"
  shows "distinct (map key (concat (map g ns)))"
  using assms
proof (induction ns)
  case (Cons m ns)
  have "key ` set (g m) \<subseteq> {fst m}" using Cons.prems(3) by auto
  moreover have "fst m \<notin> key ` set (concat (map g ns))" using Cons.prems(1,3) by (intro collect_other) auto
  ultimately have "key ` set (g m) \<inter> key ` set (concat (map g ns)) = {}" 
    by (simp only: disjoint_iff) (metis singletonD subsetD)
  moreover have "distinct (map key (g m))" using spec[OF Cons.prems(2), of m] by auto
  moreover have "distinct (map key (concat (map g ns)))" by (rule Cons.IH) (use Cons.prems in simp_all)
  ultimately show ?case by simp
qed simp

lemma collect_find:
  assumes "distinct (map fst ns)" and "\<forall>n. g n = [] \<or> (\<exists>u. g n = [u])" and "\<forall>n\<in>set ns. \<forall>u\<in>set (g n). key u = fst n"
    and "n \<in> set ns"
  shows "map_of (map (\<lambda>u. (key u, u)) (concat (map g ns))) (fst n) = (case g n of [] \<Rightarrow> None | u # _ \<Rightarrow> Some u)"
  using assms
proof (induction ns)
  case (Cons m ns)
  show ?case
  proof (cases "n = m")
    case True
    have "fst m \<notin> key ` set (concat (map g ns))" using Cons.prems(1,3) by (intro collect_other) auto
    then have "map_of (map (\<lambda>u. (key u, u)) (concat (map g ns))) (fst m) = None"
      by (simp add: map_of_eq_None_iff image_image)
    then show ?thesis using True spec[OF Cons.prems(2), of m] Cons.prems(3) by (auto simp: map_add_def)
  next
    case False
    then have n: "n \<in> set ns" using Cons.prems(4) by simp
    then have "fst m \<noteq> fst n" using Cons.prems(1) by force
    then have "map_of (map (\<lambda>u. (key u, u)) (g m)) (fst n) = None"
      using Cons.prems(3) by (auto simp: map_of_eq_None_iff)
    moreover have "map_of (map (\<lambda>u. (key u, u)) (concat (map g ns))) (fst n) = (case g n of [] \<Rightarrow> None | u # _ \<Rightarrow> Some u)"
      using Cons.IH Cons.prems n by simp
    ultimately show ?thesis by (simp add: map_add_def split: option.split)
  qed
qed simp

definition fold_sent :: "(doc_row \<Rightarrow> doc_row) \<Rightarrow> string \<Rightarrow> doc_row list \<Rightarrow> doc_row list \<Rightarrow> doc_row list" where
  "fold_sent st f held next =
     (case diffCollection (Some (digest_rows st f (map JObj held))) (Some (digest_rows st f (map JObj next))) f of
        None \<Rightarrow> held
      | Some d \<Rightarrow> foldCollection (Some (JArr (map JObj held))) d f)"

lemma fold_no_delta:
  assumes "well_keyed f held"
  shows "foldCollection (Some (JArr (map JObj held))) no_delta f = held"
proof -
  let ?m = "map (\<lambda>row. (rid_of f row, row)) held"
  have d: "distinct (map (rid_of f) held)" using assms by (simp add: well_keyed_def)
  have "spread [] ?m = ?m" using d by (subst spread_fresh) (simp_all add: comp_def)
  moreover have "place_rows ?m (map (rid_of f) held) = held"
  proof -
    have "map_of ?m (rid_of f row) = Some row" if "row \<in> set held" for row
      using that d by (intro map_of_is_SomeI) (auto simp: comp_def)
    then show ?thesis by (subst place_rows_all) (auto simp: d image_image intro!: map_idI)
  qed
  ultimately show ?thesis
    using assms by (simp add: foldCollection_def held_rows_keyed well_keyed_def no_delta_def comp_def)
qed

lemma keyed_find: "distinct (map (rid_of f) rows) \<Longrightarrow> row \<in> set rows \<Longrightarrow> map_of (map (\<lambda>r. (rid_of f r, g r)) rows) (rid_of f row) = Some (g row)"
  by (rule map_of_is_SomeI) (auto simp: comp_def)

lemma keyed_find_iff: "map_of (map (\<lambda>r. (rid_of f r, g r)) rows) k = None \<longleftrightarrow> k \<notin> rid_of f ` set rows"
  by (simp add: map_of_eq_None_iff image_image)

lemma map_of_pairs: "map_of us k = map_option snd (map_of (map (\<lambda>u. (fst u, u)) us) k)"
  by (induction us) auto

text \<open>The receiver's table after the removals, the upserts and the deletions of fields.\<close>

definition table_after :: "(doc_row \<Rightarrow> doc_row) \<Rightarrow> string \<Rightarrow> doc_row list \<Rightarrow> doc_row list \<Rightarrow> (string \<times> doc_row) list" where
  "table_after st f held next =
     (let P = map (\<lambda>row. (rid_of f row, row_dig st row)) held; N = map (\<lambda>row. (rid_of f row, row_dig st row)) next
      in foldl unset_row
           (foldl (upsert_row f)
             (fold AList.delete (filter (\<lambda>rid. rid \<notin> fst ` set N) (map fst P)) (map (\<lambda>row. (rid_of f row, row)) held))
             (concat (map (upserts f P) N)))
           (concat (map (unsets P) N)))"

abbreviation digs :: "(doc_row \<Rightarrow> doc_row) \<Rightarrow> string \<Rightarrow> doc_row list \<Rightarrow> (string \<times> row_digest) list" where
  "digs st f rows \<equiv> map (\<lambda>row. (rid_of f row, row_dig st row)) rows"

abbreviation tabled :: "string \<Rightarrow> doc_row list \<Rightarrow> (string \<times> doc_row) list" where
  "tabled f rows \<equiv> map (\<lambda>row. (rid_of f row, row)) rows"

lemma upserts_one: "\<forall>x. upserts f P x = [] \<or> (\<exists>u. upserts f P x = [u])"
  using row_change_one[of f] by (simp add: upserts_def split: option.split)

lemma upserts_key: "\<forall>x\<in>set (digs st f next). \<forall>u\<in>set (upserts f P x). rid_of f u = fst x"
  using row_change_id by (auto simp: upserts_def row_dig_def split: option.splits)

lemma unsets_one: "\<forall>x. unsets P x = [] \<or> (\<exists>u. unsets P x = [u])"
  by (auto simp: unsets_def split: option.split)

lemma unsets_key: "\<forall>x\<in>set N. \<forall>u\<in>set (unsets P x). fst u = fst x"
  by (auto simp: unsets_def split: option.splits)

lemma digs_distinct: "well_keyed f rows \<Longrightarrow> distinct (map fst (digs st f rows))"
  by (simp add: well_keyed_def comp_def)

lemma digs_find: "map_of (digs st f rows) k = map_option (row_dig st) (map_of (tabled f rows) k)"
  by (induction rows) auto

lemma upserts_nonempty:
  assumes "well_keyed f next"
  shows "list_all (\<lambda>u. rid_of f u \<noteq> []) (concat (map (upserts f P) (digs st f next)))"
proof -
  have "fst x \<noteq> []" if "x \<in> set (digs st f next)" for x
    using that assms by (auto simp: well_keyed_def keyed_row_def list_all_iff)
  then show ?thesis unfolding list_all_iff using upserts_key concat_elem by (metis (no_types, lifting))
qed

lemma kept_find:
  "map_of (fold AList.delete (filter (\<lambda>rid. rid \<notin> fst ` set (digs st f next)) (map fst (digs st f held))) (tabled f held)) k
     = (if k \<in> rid_of f ` set next then map_of (tabled f held) k else None)"
  using keyed_find_iff[of f "\<lambda>r. r" held k] by (auto simp: map_of_fold_delete image_image)

lemmas upserts_fold_find = upsert_fold[OF collect_distinct[OF digs_distinct upserts_one upserts_key] upserts_nonempty]
lemmas unsets_fold_find = unset_fold[OF collect_distinct[OF digs_distinct unsets_one unsets_key]]

lemma table_after_row:
  assumes n: "well_keyed f next" and row: "row \<in> set next"
  shows "map_of (table_after st f held next) (rid_of f row) = Some
      (case map_of (tabled f held) (rid_of f row) of
         None \<Rightarrow> row
       | Some p \<Rightarrow> fold AList.delete (row_gone (row_dig st p) (row_dig st row))
           (foldl spread p (row_change f (row_dig st p) (row_dig st row) (rid_of f row))))"
proof -
  let ?x = "(rid_of f row, row_dig st row)" and ?P = "digs st f held" and ?N = "digs st f next"
  have x: "?x \<in> set ?N" using row by auto
  have u: "map_of (tabled f (concat (map (upserts f ?P) ?N))) (rid_of f row) = (case upserts f ?P ?x of [] \<Rightarrow> None | u # _ \<Rightarrow> Some u)"
    using collect_find[OF digs_distinct[OF n] upserts_one upserts_key x] by (simp only: fst_conv)
  have v: "map_of (concat (map (unsets ?P) ?N)) (rid_of f row) = (case unsets ?P ?x of [] \<Rightarrow> None | u # _ \<Rightarrow> Some (snd u))"
    using collect_find[OF digs_distinct[OF n] unsets_one unsets_key x] unfolding map_of_pairs[of "concat (map (unsets ?P) ?N)"]
    by (simp split: list.splits)
  have val: "rd_value (row_dig st row) = row" by (simp add: row_dig_def)
  note find = table_after_def Let_def unsets_fold_find[OF n] upserts_fold_find[OF n n] u v kept_find
  show ?thesis
  proof (cases "map_of (tabled f held) (rid_of f row)")
    case None
    then show ?thesis unfolding find by (simp add: upserts_def unsets_def digs_find val row)
  next
    case (Some p)
    then show ?thesis using row_change_one[of f "row_dig st p" "row_dig st row" "rid_of f row"] row
      unfolding find by (auto simp: upserts_def unsets_def digs_find)
  qed
qed

lemma table_after_keys:
  assumes n: "well_keyed f next"
  shows "fst ` set (table_after st f held next) = rid_of f ` set next"
proof -
  let ?P = "digs st f held" and ?N = "digs st f next"
  have "map_of (table_after st f held next) k = None \<longleftrightarrow> k \<notin> rid_of f ` set next" for k
  proof (cases "k \<in> rid_of f ` set next")
    case False
    have "rid_of f u \<noteq> k" if u: "u \<in> set (concat (map (upserts f ?P) ?N))" for u
    proof -
      obtain x where x: "x \<in> set ?N" "u \<in> set (upserts f ?P x)" using concat_elem[OF u] by blast
      then have "rid_of f u = fst x" using upserts_key by blast
      moreover have "fst x \<in> rid_of f ` set next" using x(1) by auto
      ultimately show ?thesis using False by metis
    qed
    then have "k \<notin> fst ` set (tabled f (concat (map (upserts f ?P) ?N)))" by (simp only: set_map image_image fst_conv) blast
    then have "map_of (tabled f (concat (map (upserts f ?P) ?N))) k = None" by (rule iffD2[OF map_of_eq_None_iff])
    with False show ?thesis unfolding table_after_def Let_def unsets_fold_find[OF n] upserts_fold_find[OF n n] kept_find by simp
  next
    case True
    then obtain row where "row \<in> set next" "k = rid_of f row" by auto
    with table_after_row[OF n, of row] True show ?thesis by simp
  qed
  then show ?thesis by (auto simp: map_of_eq_None_iff)
qed


text \<open>
  C35. A collection survives the wire. For two lists of keyed rows, of which the receiver holds the first, the
  delta of their digests, applied to what the receiver holds, gives the rows of the second in their order,
  each with the same value in every field except the build stamps that the comparison leaves out; and no
  delta is sent only when the held rows already agree.
\<close>

theorem collection_rebuilt:
  assumes st: "drops vol st" and f: "f \<notin> set vol" and h: "well_keyed f held" and n: "well_keyed f next"
  shows "list_all2 (agree vol) (fold_sent st f held next) next"
proof -
  let ?P = "map (\<lambda>row. (rid_of f row, row_dig st row)) held" and ?N = "map (\<lambda>row. (rid_of f row, row_dig st row)) next"
  let ?m = "map (\<lambda>row. (rid_of f row, row)) held" and ?order = "map (rid_of f) next" and ?t = "table_after st f held next"
  define d where "d = \<lparr>dl_upsert = concat (map (upserts f ?P) ?N), dl_unsetFields = concat (map (unsets ?P) ?N),
    dl_removed = filter (\<lambda>rid. rid \<notin> fst ` set ?N) (map fst ?P),
    dl_order = (if map (rid_of f) held = ?order then None else Some ?order), dl_absent = False\<rparr>"
  have dist: "distinct (map (rid_of f) held)" "distinct ?order" using h n by (simp_all add: well_keyed_def)
  have "diffCollection (Some (digest_rows st f (map JObj held))) (Some (digest_rows st f (map JObj next))) f
      = (if d = no_delta then None else Some d)"
    unfolding digest_rows_keyed[OF h] digest_rows_keyed[OF n] d_def
    by (simp add: diffCollection_def diff_rows Let_def no_delta_def)
  then have "fold_sent st f held next = foldCollection (Some (JArr (map JObj held))) d f"
    using fold_no_delta[OF h] by (simp add: fold_sent_def)
  also have "\<dots> = place_rows ?t ?order"
  proof -
    have "spread [] ?m = ?m" using dist(1) by (subst spread_fresh) (simp_all add: comp_def)
    moreover have "List.map_filter (held_row f) (map JObj held) = ?m" using h by (simp add: held_rows_keyed well_keyed_def)
    moreover have "(case dl_order d of Some order \<Rightarrow> order | None \<Rightarrow> map fst ?m) = ?order" by (simp add: d_def comp_def)
    ultimately show ?thesis by (simp add: foldCollection_def table_after_def Let_def d_def)
  qed
  also have "\<dots> = map (\<lambda>row. the (map_of ?t (rid_of f row))) next"
    using table_after_keys[OF n, of st] by (subst place_rows_all[OF dist(2)]) simp_all
  finally have e: "fold_sent st f held next = map (\<lambda>row. the (map_of ?t (rid_of f row))) next" .
  have "agree vol (the (map_of ?t (rid_of f row))) row" if row: "row \<in> set next" for row
  proof (cases "map_of ?m (rid_of f row)")
    case None
    then show ?thesis using table_after_row[OF n row, of st] by (simp add: agree_def)
  next
    case (Some p)
    then have p: "p \<in> set held" "rid_of f p = rid_of f row" by (auto dest!: map_of_SomeD)
    then have "keyed_row f p" "keyed_row f row" using h n row by (simp_all add: well_keyed_def list_all_iff)
    from row_patched[OF st this(2,1) p(2) f] show ?thesis using table_after_row[OF n row, of st] Some by simp
  qed
  then show ?thesis unfolding e by (simp add: list_all2_conv_all_nth)
qed

theorem collection_rebuilt_witness:
  "list_all2 (agree [''lastUpdated'']) (fold_sent (AList.delete ''lastUpdated'') ''id''
      [[(''id'', JStr ''a''), (''x'', JNum 1)], [(''id'', JStr ''b''), (''y'', JNull)]]
      [[(''id'', JStr ''b''), (''lastUpdated'', JNum 7)], [(''id'', JStr ''c'')]])
    [[(''id'', JStr ''b''), (''lastUpdated'', JNum 7)], [(''id'', JStr ''c'')]]"
proof (rule collection_rebuilt)
  show "drops [''lastUpdated''] (AList.delete ''lastUpdated'')"
    by (auto simp: drops_def AList.delete_eq intro!: filter_cong)
qed (simp_all add: well_keyed_def keyed_row_def rid_of_def)

end
