(* ===== verification/Spec2Isabelle.thy ===== *)
theory Spec2Isabelle
  imports TurnTiming TurnVerdicts TurnHolds TurnStops SessionConflict LedgerPublish BackgroundRelease NoticeClaims
    SessionHost UpgradeLease InputOnce MuxClient Semver PathOwnership RpcChunking KeyedDoc
begin

text \<open>
  A verification library for the daemon side of ADHDev, which runs coding-agent sessions on several
  machines and lets them dispatch tasks to each other over a mesh. The daemon keeps a ledger of turns
  (one attempt per dispatched task), hosts the terminal sessions the agents run in, and exchanges JSON
  frames with its peers. The library models the parts that decide: pure functions and state machines
  that the surrounding I/O code calls.

  \<^bold>\<open>The parts and where they are modelled.\<close>

  \<^item> \<^emph>\<open>Turn ledger\<close> (\<open>daemon-core/src/mesh/turn-ledger\<close>, with the evidence vocabulary of
    \<open>mesh-shared/src/turn-evidence.ts\<close>). \<open>TurnTypes\<close> has the data (\<open>types.ts\<close>, \<open>turn-evidence.ts\<close>): attempts,
    holds, evidence, effects and verdicts as records and datatypes with the source's constructors.
    \<open>TurnPolicy\<close> is \<open>policy.ts\<close>, \<open>TurnAdmission\<close> is \<open>admission.ts\<close>, \<open>TurnTransitions\<close> the rows of
    \<open>transitions.ts\<close>, \<open>TurnGuards\<close> and \<open>TurnReducer\<close> the step function of \<open>reducer.ts\<close>,
    \<open>reducer-attempt.ts\<close> and \<open>reclaim-reasons.ts\<close>: \<open>reduce\<close> takes an attempt, its holds, one piece of
    evidence, the policy and the time, and returns the new attempt, effects and verdict; \<open>expireHolds\<close>
    is the sweep that turns due holds into evidence.
  \<^item> \<^emph>\<open>Turn ledger, write path\<close>. \<open>TurnStore\<close> is \<open>store.ts\<close> with the unique indexes of \<open>schema.ts\<close>: the tables of
    attempts, holds and events as lists of rows, and the queries and updates on them. \<open>TurnEffects\<close> is
    \<open>effects.ts\<close>: rows and topic entries derived from the effects of a step, writes of the queue host inside the
    transaction, calls of the ports after it. \<open>TurnLedger\<close> is \<open>observe\<close> of \<open>ledger.ts\<close> with the transaction
    \<open>applyStep\<close> (errors are values and restore the tables), the forwarding of foreign evidence and the
    re-observation of held evidence; \<open>TurnLedgerOps\<close> has the other operations of \<open>ledger.ts\<close>: settlement of
    writer stops, inspection of stopping writers with its backoff, notices, delivery claims, the hold
    sweep and the publish loop. \<open>BackgroundWork\<close> is \<open>background-work-guard.ts\<close>, which decides whether a turn end counts
    while processes still run. \<open>EvidenceGuard\<close> has the content guards of \<open>turn-evidence.ts\<close>, \<open>DaemonIds\<close> the
    comparison of daemon and node identities (\<open>daemon-normalize.ts\<close>, \<open>node-normalize.ts\<close>,
    \<open>mesh-pinned-node-identity.ts\<close>). The clock, fresh identifiers, the queue host, the publisher and the
    stop port are inputs.
  \<^item> \<^emph>\<open>Notice delivery\<close>. What the ledger has for a coordinator is typed into its session. \<open>NoticeRouting\<close> is
    \<open>routing.ts\<close>, \<open>suppression.ts\<close> and the two vocabularies they read; \<open>NoticeDeliver\<close> is the handler of
    \<open>deliver.ts\<close>, one state per await, for the cursor and for a backlog pass, with the notices that ride
    along; \<open>NoticeInbox\<close> has the producers, the ingestion of foreign entries, the inbox that an MCP
    coordinator reads, control notices and retractions. The rendering of a notice is a parameter.
  \<^item> \<^emph>\<open>Session input\<close>. \<open>SessionStatus\<close> is \<open>session-status.ts\<close>; \<open>SessionInput\<close> is \<open>session-input-service.ts\<close> with
    the wait of \<open>session-input-interrupt.ts\<close> and the queue and drain of \<open>send-submit-engine.ts\<close>: a submit is a
    run of steps between awaits over the dedupe memory, the runs in flight, the queues and what was typed.
    \<open>SubmitVerdict\<close> is \<open>submit-verdict.ts\<close>: the verdict on a body that was written, with the one re-paste of a body that
    the agent provably did not take. What the screen shows is an input of its operations, and the
    guarded paste with its answer is one step.
  \<^item> \<^emph>\<open>Frame chunking\<close> (\<open>mesh-shared/src/rpc-chunking.ts\<close>), theory \<open>RpcChunking\<close>: the splitter of an
    oversized frame and the receiver's assembler, over UTF-16 code units as 16-bit words (\<open>JsText\<close>).
  \<^item> \<^emph>\<open>Path ownership\<close> (\<open>mesh-shared/src/path-ownership.ts\<close>), theory \<open>PathOwnership\<close>: which files a
    dispatched task may write, and when two tasks collide.
  \<^item> \<^emph>\<open>Version comparison\<close> (\<open>mesh-shared/src/semver-compare.ts\<close>), theory \<open>Semver\<close>: the downgrade gate.
  \<^item> \<^emph>\<open>Keyed documents\<close> (\<open>mesh-shared/src/keyed-doc-delta.ts\<close>), theory \<open>KeyedDoc\<close>: digest, difference and
    fold of the documents that the dashboard holds, over JSON values (\<open>JsValue\<close>).
  \<^item> \<^emph>\<open>Session host\<close> (\<open>session-host-core/src\<close>, \<open>session-host-daemon/src\<close>), which owns the terminal
    processes. \<open>RingBuffer\<close> is \<open>buffer.ts\<close>, the bounded replay buffer with its head repair;
    \<open>SessionTypes\<close> has the records of \<open>types.ts\<close>; \<open>SessionLabels\<close> is \<open>runtime-labels.ts\<close> (names, keys, live
    records, attach targets); \<open>SessionRegistry\<close> is \<open>registry.ts\<close>, the table of sessions with attachment,
    write ownership and the input counter; \<open>SessionCleanup\<close> is \<open>cleanup-expected.ts\<close>, \<open>termination.ts\<close> and
    the duplicate plan of \<open>session-lifecycle.ts\<close>; \<open>SessionHost\<close> is the request handlers of \<open>server.ts\<close> with
    the exit handler and the two timers, as one step function over the registry and the running processes.
    \<open>UpgradeLease\<close> is \<open>upgrade-lease.ts\<close>, the lease with its journal under which a host is replaced.
  \<^item> \<^emph>\<open>Terminal multiplexer\<close> (\<open>terminal-mux-core/src\<close>). \<open>MuxLayout\<close> is \<open>layout.ts\<close> with the types and the
    serialised form, \<open>MuxClient\<close> the client of \<open>session-host-mux-client.ts\<close>. The terminal surface is a record of
    operations, ratios are rationals with the rounding of each sum as a parameter.

  \<^bold>\<open>What is shown.\<close>

  \<^item> \<open>TurnLifecycle\<close> is an abstract life cycle of an attempt as an inductive step relation, with its own
    safety lemmas; \<open>TurnRefine\<close> and \<open>TurnRuns\<close> show that every step of \<open>reduce\<close> on a well-formed attempt is
    a step of it and keeps the attempt well-formed, and lift this to runs: at most one terminal commit.
    \<open>TurnCore\<close> has the lemmas on guards and lanes that these proofs share.
  \<^item> \<open>TurnSafety\<close>: terminal attempts are frozen, evidence of another generation cannot move an attempt.
    \<open>TurnStops\<close>: an abortive outcome on a mesh attempt, the hard ceiling included, waits for proof that the writer has stopped,
    and a settled stop commits exactly what was pending.
    \<open>TurnVerdicts\<close>: what commits, and on which evidence. \<open>TurnHolds\<close>: holds and effects are addressed and
    keyed. \<open>TurnTable\<close>: at most one row of the table applies, with the two exceptions. \<open>TurnTiming\<close>: bounds
    of the resolved policy, exact admission conditions, the order of the sweep. \<open>TurnDemo\<close> has the concrete
    attempts on which the witnesses evaluate.
  \<^item> \<open>LedgerStep\<close>, \<open>LedgerInv\<close> and \<open>LedgerRuns\<close> carry the results on \<open>reduce\<close> over to the tables: an invariant of the
    store (keys, one open attempt per session, keyed holds, committed rows that agree with the attempts)
    that every observation keeps. \<open>LedgerSafety\<close>: a plain attempt in the way of a dispatch really ends, so
    the session index is never violated. \<open>LedgerReturns\<close>: an observation re-observes at most one level deep,
    and the errors it can end with. \<open>LedgerReach\<close> has the reachable states of the whole ledger as an
    inductive relation over all its operations, with a locale for table invariants and its two
    interpretations. \<open>LedgerClaims\<close> states the properties: one commit per ended turn, one open turn per
    session, forwarding, delivery claims. \<open>SessionConflict\<close>: what an observation does with two turns for one session. \<open>LedgerPublish\<close>: publishing ends, keeps the order of each mesh,
    and can starve a mesh behind a full batch of another; delivery claim ids parse back.
    \<open>BackgroundRelease\<close>: a held turn end is let go within its windows.
  \<^item> \<open>NoticeOnce\<close> has the interleavings of handlers, inbox reads, ledger operations and released claims as an
    inductive relation, with an invariant on claims and covered notices; \<open>NoticeClaims\<close> states that a notice is
    told once unless two submits overlap, that the ceiling ends every wait, and that a delivery submits at most
    three times, and shows by runs how overlapping submits tell a notice twice or not at all.
    \<open>InputOnce\<close>: whatever runs together, a message id is begun as a send at most once while it is remembered, and the
    recovery pastes it at most once more; with the runs on which a message is lost.
  \<^item> \<open>UpgradeLease\<close>: the host never changes sessions while the journal says that the lease is held, only its
    owner ends it, and the owner gets it back after a crash. \<open>MuxLayout\<close>: tree, panes, focus and zoom agree
    after any operations, and a split is undone by a removal. \<open>MuxClient\<close>: the workspaces follow the
    events of the host; overlapping splits lose a pane.
  \<^item> \<open>RpcChunking\<close>: splitting cuts the frame faithfully within the size limits, never refuses a
    well-formed frame within the cap, and any order of delivery reassembles it; the receiver's memory
    is bounded whatever a peer sends.
  \<^item> \<open>PathOwnership\<close>: normal form of declarations and exactness of the overlap test against the sets of
    paths owned. \<open>Semver\<close>: the comparison is the precedence order. \<open>RingBuffer\<close>: exact accounting, exact
    replay and harmless repair. \<open>KeyedDoc\<close>: a collection is rebuilt from the delta, up to the stamps that
    the comparison leaves out.
  \<^item> \<open>SessionRegistry\<close> states the contract of the input counter as a locale (readings of one lifetime order
    the writes) and interprets it on the registry; \<open>SessionHost\<close> builds on it: a conditional write is
    accepted only if nobody else typed since the reading, over all requests, exits, restarts and timers;
    every step writes terminal input only for a client that may write. Further: ownership of the write
    is only lost over listed operations, cleanup stops only the captured process, the duplicate plan
    keeps the best session, and runtime keys are fresh.

  \<^bold>\<open>Bounds and loops.\<close> The loops of the source are total functions with termination proofs. The one
  exception is \<open>observe\<close>, which calls itself on held evidence: it takes a bound on the depth, and
  \<open>observe_returns\<close> shows that the depth 2 (\<open>OBSERVE_DEPTH\<close>) is always enough, so no result is cut off.
  Times are unbounded integers of milliseconds, byte and chunk counts are naturals (all below the
  range in which doubles are exact); parsed numbers go through the rounding of \<open>js_double\<close>. Code that is
  not in the repository (\<open>JSON.parse\<close>, hashes, the session map of a host) is a parameter.

  \<^bold>\<open>Not modelled.\<close> The transports, timers and process handling around these parts (the SQL text of the
  store, peer connections, PTY hosting, the scheduler and the probes of the ledger, flushes that are
  coalesced while one is running, durable receipts of typed messages, composer reads), the providers' screen scraping, the web user
  interface and terminal rendering, command routing, quota fetchers, and vendored or generated code: they are I/O, rendering or
  glue, or depend on services that are not in the repository. Log texts and human-readable detail
  texts are left out of the modelled parts.
\<close>

section \<open>The sweep and the step function\<close>

definition sweep_input :: "turn_attempt \<Rightarrow> turn_hold list \<Rightarrow> turn_policy \<Rightarrow> ms \<Rightarrow> turn_evidence \<Rightarrow> reduce_input" where
  "sweep_input a hs p now ev = \<lparr>in_stopConfirmed = False, in_writerUnreachable = None, in_attempt = Some a,
     in_holds = hs, in_evidence = ev, in_policy = p, in_nowMs = now\<rparr>"

lemma find_hold_keyed: "holds_keyed w hs \<Longrightarrow> h \<in> set hs \<Longrightarrow> find_hold (h_holdId h) hs = Some h"
proof (induction hs)
  case (Cons g gs)
  then show ?case by (auto simp: find_hold_def holds_keyed_def)
qed simp

text \<open>
  C20. Nothing runs past the hard ceiling unnoticed. If the ceiling hold of a running mesh attempt is
  due, the scheduler's sweep over the attempt's holds contains its expiry, and reducing that evidence
  starts the writer stop with a request addressed to this attempt.
\<close>

theorem ceiling_sweep_stops:
  assumes ok: "attempt_ok a" and run: "running (a_state a)" and mesh: "a_scope a \<noteq> Plain"
    and u: "unreported_final (Some a)" and k: "holds_keyed (party a) hs"
    and h: "h \<in> set hs" "h_reason h = H_hard_ceiling" "h_generation h = None" "h_until h = Some t" "t \<le> now"
  shows "\<exists>ev s. ev \<in> set (expireHolds hs now observer session)
    \<and> out_attempt (reduce (sweep_input a hs p now ev)) = Some (stopping_attempt s a)
    \<and> ws_reason s = Rs_hard_ceiling \<and> stop_request s a \<in> set (out_effects (reduce (sweep_input a hs p now ev)))"
proof -
  let ?ev = "expiry_evidence observer session now h" let ?i = "sweep_input a hs p now ?ev"
  have "?ev \<in> set (expireHolds hs now observer session)"
    using h by (simp add: expireHolds_def hold_due_def)
  moreover have "find_hold (h_holdId h) (in_holds ?i) = Some h" "h_attemptId h = a_attemptId a"
    using find_hold_keyed[OF k h(1)] k h(1) by (auto simp: sweep_input_def holds_keyed_def keyed_def list_all_iff)
  moreover have "ev_body (in_evidence ?i) = HoldExpired (h_holdId h) H_hard_ceiling"
    "ev_attemptRef (in_evidence ?i) = None" "in_attempt ?i = Some a"
    using h by (simp_all add: sweep_input_def expiry_evidence_def)
  ultimately show ?thesis
    using hard_ceiling_fires[of ?i a "h_holdId h" h] ok run mesh u h by metis
qed

theorem ceiling_sweep_stops_witness:
  "\<exists>ev s. ev \<in> set (expireHolds [demo_hold H_liveness 90, demo_hold H_hard_ceiling 60] 70 ''d1'' (\<lambda>_. ''s1''))
    \<and> out_attempt (reduce (sweep_input (demo_attempt Mesh_queue S_generating)
        [demo_hold H_liveness 90, demo_hold H_hard_ceiling 60] DEFAULT_TURN_POLICY 70 ev))
      = Some (stopping_attempt s (demo_attempt Mesh_queue S_generating))"
proof -
  let ?a = "demo_attempt Mesh_queue S_generating" and ?hs = "[demo_hold H_liveness 90, demo_hold H_hard_ceiling 60]"
  have "running (a_state ?a)" "a_scope ?a \<noteq> Plain" "unreported_final (Some ?a)" "holds_keyed (party ?a) ?hs"
    by code_simp+
  from ceiling_sweep_stops[OF demo_attempt_ok this, of "demo_hold H_hard_ceiling 60" 60 70 "''d1''" "\<lambda>_. ''s1''" DEFAULT_TURN_POLICY]
  show ?thesis by (auto simp: demo_hold_def)
qed

end
